(* ===== verification/Prelude.thy ===== *)
theory Prelude
  imports
    Main
    "HOL-Library.Sublist"
    "HOL-Library.Char_ord"
    "HOL-Library.List_Lexorder"
    "HOL-Library.Product_Lexorder"
begin

text \<open>
  What every theory of the development shares: Python strings, the dictionaries and
  sorted sets the code builds, exceptions as values, and the step combinators that
  sequence the statements of a method over the state of its object.

  A \<open>str\<close> is a \<open>string\<close>, read as the UTF-8 bytes of the text. Equality,
  concatenation, substring tests and \<open>sorted\<close> agree with Python's on code points
  (UTF-8 preserves the code point order); \<open>upper\<close> and \<open>lower\<close> act on ASCII letters.
  A \<open>dict\<close> is an association list in insertion order; assigning to an existing
  key keeps its position, as in Python.
\<close>

named_theorems dict_simps "lookups and keys of the association lists that stand for dicts"
named_theorems set_simps "membership in the sorted key lists the differ walks"

section \<open>Strings\<close>

definition sq :: string where
  "sq = [CHR 0x27]"

definition quoted :: "string \<Rightarrow> string" where
  "quoted s = sq @ s @ sq"

definition contains :: "string \<Rightarrow> string \<Rightarrow> bool" where
  "contains sub s = sublist sub s"

definition ends_with :: "string \<Rightarrow> string \<Rightarrow> bool" where
  "ends_with s end = suffix end s"

definition starts_with :: "string \<Rightarrow> string \<Rightarrow> bool" where
  "starts_with s start = prefix start s"

definition upper_char :: "char \<Rightarrow> char" where
  "upper_char c = (let n = of_char c :: nat in
     if 97 \<le> n \<and> n \<le> 122 then char_of (n - 32) else c)"

definition lower_char :: "char \<Rightarrow> char" where
  "lower_char c = (let n = of_char c :: nat in
     if 65 \<le> n \<and> n \<le> 90 then char_of (n + 32) else c)"

definition upper :: "string \<Rightarrow> string" where
  "upper s = map upper_char s"

definition lower :: "string \<Rightarrow> string" where
  "lower s = map lower_char s"

fun join :: "string \<Rightarrow> string list \<Rightarrow> string" where
  "join sep [] = []"
| "join sep [x] = x"
| "join sep (x # xs) = x @ sep @ join sep xs"

definition digit_char :: "nat \<Rightarrow> char" where
  "digit_char d = char_of (48 + d)"

fun nat_str :: "nat \<Rightarrow> string" where
  "nat_str n = (if n < 10 then [digit_char n] else nat_str (n div 10) @ [digit_char (n mod 10)])"

declare nat_str.simps [simp del]

definition int_str :: "int \<Rightarrow> string" where
  "int_str i = (if i < 0 then ''-'' @ nat_str (nat (- i)) else nat_str (nat i))"

definition bool_str :: "bool \<Rightarrow> string" where
  "bool_str b = (if b then ''True'' else ''False'')"

definition opt_str :: "string option \<Rightarrow> string" where
  "opt_str v = (case v of None \<Rightarrow> ''None'' | Some s \<Rightarrow> s)"

text \<open>Python's \<open>x or d\<close> on an optional string: the empty string is falsy too.\<close>

definition str_or :: "string option \<Rightarrow> string \<Rightarrow> string" where
  "str_or v d = (case v of None \<Rightarrow> d | Some s \<Rightarrow> if s = [] then d else s)"

definition truthy_str :: "string option \<Rightarrow> bool" where
  "truthy_str v = (case v of None \<Rightarrow> False | Some s \<Rightarrow> s \<noteq> [])"

text \<open>\<open>str.strip()\<close> on ASCII white space.\<close>

definition is_space :: "char \<Rightarrow> bool" where
  "is_space c = (let n = of_char c :: nat in n = 32 \<or> (9 \<le> n \<and> n \<le> 13) \<or> (28 \<le> n \<and> n \<le> 31))"

definition strip :: "string \<Rightarrow> string" where
  "strip s = rev (dropWhile is_space (rev (dropWhile is_space s)))"

text \<open>\<open>s.split(c)\<close> and \<open>s.replace(old, new)\<close> for a non-empty \<open>old\<close>.\<close>

fun split_char :: "char \<Rightarrow> string \<Rightarrow> string list" where
  "split_char sep [] = [[]]"
| "split_char sep (c # s) = (if c = sep then [] # split_char sep s else
     (case split_char sep s of [] \<Rightarrow> [[c]] | w # ws \<Rightarrow> (c # w) # ws))"

fun str_replace :: "string \<Rightarrow> string \<Rightarrow> string \<Rightarrow> string" where
  "str_replace old new [] = []"
| "str_replace old new (c # s) =
     (if old \<noteq> [] \<and> prefix old (c # s) then new @ str_replace old new (drop (length old - 1) s)
      else c # str_replace old new s)"

subsection \<open>Markers in composed messages\<close>

text \<open>
  The rule engine recognises changes by substrings of their descriptions. A marker that
  does not hold the separator character \<open>c\<close> is in \<open>a @ c # b\<close> only when it is in one
  of the two sides.
\<close>

lemma sublist_iff_take_drop: "sublist m s \<longleftrightarrow> (\<exists>xs ys. s = xs @ m @ ys)"
  by (auto simp: sublist_def)

lemma contains_separated:
  assumes "c \<notin> set m" and "m \<noteq> []"
  shows "contains m (a @ c # b) \<longleftrightarrow> contains m a \<or> contains m b"
proof
  assume "contains m (a @ c # b)"
  then obtain xs ys where eq: "a @ c # b = xs @ m @ ys"
    by (auto simp: contains_def sublist_iff_take_drop)
  consider (left) "length xs + length m \<le> length a" | (mid) "length xs \<le> length a"
      "length a < length xs + length m" | (right) "length a < length xs"
    by linarith
  then show "contains m a \<or> contains m b"
  proof cases
    case left
    have "take (length a) (xs @ m @ ys) = a"
      by (metis append_eq_conv_conj eq)
    moreover have "take (length a) (xs @ m @ ys) = xs @ m @ take (length a - length xs - length m) ys"
      using left by simp
    ultimately have "a = xs @ m @ take (length a - length xs - length m) ys" by simp
    then show ?thesis unfolding contains_def sublist_iff_take_drop by blast
  next
    case mid
    have "(a @ c # b) ! length a = c" by simp
    then have "(xs @ m @ ys) ! length a = c" using eq by simp
    moreover have lt: "length a - length xs < length m" using mid by linarith
    moreover have "(xs @ m @ ys) ! length a = m ! (length a - length xs)"
      using mid lt by (simp add: nth_append)
    ultimately have "c \<in> set m" by (metis nth_mem)
    with assms show ?thesis by simp
  next
    case right
    have "drop (Suc (length a)) (xs @ m @ ys) = b"
      by (metis append_eq_conv_conj append_Cons append_Nil append_assoc eq length_append_singleton)
    moreover have "drop (Suc (length a)) (xs @ m @ ys) = drop (Suc (length a)) xs @ m @ ys"
      using right by simp
    ultimately have "b = drop (Suc (length a)) xs @ m @ ys" by simp
    then show ?thesis unfolding contains_def sublist_iff_take_drop by blast
  qed
next
  assume "contains m a \<or> contains m b"
  then show "contains m (a @ c # b)"
    unfolding contains_def sublist_iff_take_drop
    by (metis append.assoc append_Cons)
qed

lemma contains_middle [simp]: "contains m (a @ m @ b)"
  by (auto simp: contains_def)

lemma contains_append_right: "contains m b \<Longrightarrow> contains m (a @ b)"
  by (auto simp: contains_def intro: sublist_order.order_trans [of m b])

lemma contains_append_left: "contains m a \<Longrightarrow> contains m (a @ b)"
  by (auto simp: contains_def intro: sublist_order.order_trans [of m a])

section \<open>Sorted sets\<close>

text \<open>\<open>sorted(set(xs))\<close>, and the set expressions under \<open>sorted\<close>, for totally ordered
  elements.\<close>

definition sorted_set :: "'a::linorder list \<Rightarrow> 'a list" where
  "sorted_set xs = sort (remdups xs)"

definition sorted_diff :: "'a::linorder list \<Rightarrow> 'a list \<Rightarrow> 'a list" where
  "sorted_diff xs ys = sorted_set (filter (\<lambda>x. x \<notin> set ys) xs)"

definition sorted_inter :: "'a::linorder list \<Rightarrow> 'a list \<Rightarrow> 'a list" where
  "sorted_inter xs ys = sorted_set (filter (\<lambda>x. x \<in> set ys) xs)"

definition sorted_union :: "'a::linorder list \<Rightarrow> 'a list \<Rightarrow> 'a list" where
  "sorted_union xs ys = sorted_set (xs @ ys)"

definition sorted_symdiff :: "'a::linorder list \<Rightarrow> 'a list \<Rightarrow> 'a list" where
  "sorted_symdiff xs ys =
     sorted_set (filter (\<lambda>x. x \<notin> set ys) xs @ filter (\<lambda>y. y \<notin> set xs) ys)"

lemma set_sorted_set [simp]: "set (sorted_set xs) = set xs"
  by (simp add: sorted_set_def)

lemma distinct_sorted_set [simp]: "distinct (sorted_set xs)"
  by (simp add: sorted_set_def)

lemma sorted_sorted_set [simp]: "sorted (sorted_set xs)"
  by (simp add: sorted_set_def)

lemma sorted_set_cong: "set xs = set ys \<Longrightarrow> sorted_set xs = sorted_set ys"
  by (rule sorted_distinct_set_unique) simp_all

lemma sorted_set_Nil [simp]: "sorted_set [] = []"
  by (simp add: sorted_set_def)

lemma sorted_set_idem [simp]: "sorted_set (sorted_set xs) = sorted_set xs"
  by (rule sorted_set_cong) simp

lemma set_sorted_ops [simp, set_simps]:
  "set (sorted_diff xs ys) = set xs - set ys"
  "set (sorted_inter xs ys) = set xs \<inter> set ys"
  "set (sorted_union xs ys) = set xs \<union> set ys"
  "set (sorted_symdiff xs ys) = (set xs - set ys) \<union> (set ys - set xs)"
  by (auto simp: sorted_diff_def sorted_inter_def sorted_union_def sorted_symdiff_def)

lemma distinct_sorted_ops [simp]:
  "distinct (sorted_diff xs ys)" "distinct (sorted_inter xs ys)"
  "distinct (sorted_union xs ys)" "distinct (sorted_symdiff xs ys)"
  by (simp_all add: sorted_diff_def sorted_inter_def sorted_union_def sorted_symdiff_def)

lemma sorted_diff_self [simp]: "sorted_diff xs xs = []"
  by (simp add: sorted_diff_def)

lemma sorted_symdiff_self [simp]: "sorted_symdiff xs xs = []"
  by (simp add: sorted_symdiff_def)

lemma sorted_ops_cong:
  assumes "set xs = set xs'" and "set ys = set ys'"
  shows "sorted_diff xs ys = sorted_diff xs' ys'" "sorted_inter xs ys = sorted_inter xs' ys'"
    "sorted_union xs ys = sorted_union xs' ys'" "sorted_symdiff xs ys = sorted_symdiff xs' ys'"
  using assms
  by (auto simp: sorted_diff_def sorted_inter_def sorted_union_def sorted_symdiff_def
      intro!: sorted_set_cong)

section \<open>Dictionaries\<close>

type_synonym ('k, 'v) dict = "('k \<times> 'v) list"

definition keys :: "('k, 'v) dict \<Rightarrow> 'k list" where
  "keys d = map fst d"

abbreviation dict_get :: "('k, 'v) dict \<Rightarrow> 'k \<Rightarrow> 'v option" where
  "dict_get d k \<equiv> map_of d k"

definition dict_get_or :: "('k, 'v) dict \<Rightarrow> 'k \<Rightarrow> 'v \<Rightarrow> 'v" where
  "dict_get_or d k v = (case map_of d k of None \<Rightarrow> v | Some w \<Rightarrow> w)"

fun dict_set :: "'k \<Rightarrow> 'v \<Rightarrow> ('k, 'v) dict \<Rightarrow> ('k, 'v) dict" where
  "dict_set k v [] = [(k, v)]"
| "dict_set k v ((k', v') # d) = (if k = k' then (k, v) # d else (k', v') # dict_set k v d)"

text \<open>A comprehension \<open>{k: v for ...}\<close>: later entries overwrite earlier ones in place.\<close>

definition dict_of :: "('k \<times> 'v) list \<Rightarrow> ('k, 'v) dict" where
  "dict_of kvs = fold (\<lambda>(k, v). dict_set k v) kvs []"

lemma map_of_dict_set [dict_simps]: "map_of (dict_set k v d) = (map_of d)(k \<mapsto> v)"
  by (induction k v d rule: dict_set.induct) (auto simp: fun_eq_iff)

lemma set_keys_dict_set [dict_simps]: "set (keys (dict_set k v d)) = insert k (set (keys d))"
  by (induction k v d rule: dict_set.induct) (auto simp: keys_def)

lemma distinct_keys_dict_set: "distinct (keys d) \<Longrightarrow> distinct (keys (dict_set k v d))"
proof (induction k v d rule: dict_set.induct)
  case (2 k v k' v' d)
  then show ?case using set_keys_dict_set [of k v d] by (auto simp: keys_def)
qed (simp add: keys_def)

lemma map_of_fold_dict_set:
  "map_of (fold (\<lambda>(k, v). dict_set k v) kvs d) = map_of d ++ map_of (rev kvs)"
  by (induction kvs arbitrary: d) (auto simp: dict_simps map_add_def fun_eq_iff split: option.splits)

lemma map_of_dict_of [dict_simps]: "map_of (dict_of kvs) = map_of (rev kvs)"
  by (simp add: dict_of_def map_of_fold_dict_set)

lemma set_keys_eq_dom: "set (keys d) = dom (map_of d)"
  by (auto simp: keys_def dom_map_of_conv_image_fst)

lemma set_keys_dict_of [dict_simps]: "set (keys (dict_of kvs)) = fst ` set kvs"
  by (simp add: set_keys_eq_dom dict_simps dom_map_of_conv_image_fst)

lemma map_of_distinct_rev: "distinct (map fst kvs) \<Longrightarrow> map_of (rev kvs) = map_of kvs"
  by (rule map_of_eqI) (auto simp: map_of_eq_Some_iff rev_map [symmetric]
      dest!: map_of_SomeD intro: map_of_is_SomeI)

section \<open>Exceptions and steps\<close>

datatype py_error =
    TypeError string
  | ValueError string
  | KeyError string
  | AssertionError
  | AttributeError string
  | OverflowError string
  | ZeroDivisionError
  | ReError string
  | StopIteration

type_synonym 'a result = "py_error + 'a"

definition bind_result :: "'a result \<Rightarrow> ('a \<Rightarrow> 'b result) \<Rightarrow> 'b result" where
  "bind_result r f = (case r of Inl e \<Rightarrow> Inl e | Inr a \<Rightarrow> f a)"

lemma bind_result_simps [simp]:
  "bind_result (Inl e) f = Inl e"
  "bind_result (Inr a) f = f a"
  by (simp_all add: bind_result_def)

text \<open>Lists computed one after another and concatenated; the first exception ends it.\<close>

fun seq_results :: "'a list result list \<Rightarrow> 'a list result" where
  "seq_results [] = Inr []"
| "seq_results (r # rs) = bind_result r (\<lambda>xs. bind_result (seq_results rs) (\<lambda>ys. Inr (xs @ ys)))"

lemma seq_results_map_Inr [simp]: "seq_results (map Inr css) = Inr (concat css)"
  by (induction css) simp_all

lemma seq_results_InrD: "seq_results rs = Inr cs \<Longrightarrow> \<exists>css. rs = map Inr css \<and> cs = concat css"
proof (induction rs arbitrary: cs)
  case (Cons r rs)
  then obtain xs ys where "r = Inr xs" "seq_results rs = Inr ys" "cs = xs @ ys"
    by (auto simp: bind_result_def split: sum.splits)
  moreover from this Cons.IH obtain css where "rs = map Inr css" "ys = concat css" by blast
  ultimately have "r # rs = map Inr (xs # css) \<and> cs = concat (xs # css)" by simp
  then show ?case by (rule exI [of _ "xs # css"])
qed simp

lemma seq_results_Inr:
  "seq_results rs = Inr cs \<longleftrightarrow> (\<exists>css. rs = map Inr css \<and> cs = concat css)"
  using seq_results_InrD by auto

text \<open>A comprehension whose element may raise.\<close>

fun each :: "('a \<Rightarrow> 'b result) \<Rightarrow> 'a list \<Rightarrow> 'b list result" where
  "each f [] = Inr []"
| "each f (x # xs) = bind_result (f x) (\<lambda>y. bind_result (each f xs) (\<lambda>ys. Inr (y # ys)))"

text \<open>
  A statement that updates \<open>self\<close> or raises is a step on the state of the object. The
  statements of a method body are a list of steps; an exception skips the rest.
\<close>

type_synonym 's step = "'s \<Rightarrow> 's result"

definition skip :: "'s step" where
  "skip s = Inr s"

fun steps :: "'s step list \<Rightarrow> 's step" where
  "steps [] s = Inr s"
| "steps (m # ms) s = bind_result (m s) (steps ms)"

definition for_each :: "'a list \<Rightarrow> ('a \<Rightarrow> 's step) \<Rightarrow> 's step" where
  "for_each xs body = steps (map body xs)"

definition only_if :: "bool \<Rightarrow> 's step \<Rightarrow> 's step" where
  "only_if c m = (if c then m else skip)"

text \<open>A statement whose expression may raise before the rest of it runs.\<close>

definition with_result :: "'a result \<Rightarrow> ('a \<Rightarrow> 's step) \<Rightarrow> 's step" where
  "with_result r k = (case r of Inl e \<Rightarrow> (\<lambda>_. Inl e) | Inr a \<Rightarrow> k a)"

lemma bind_skip [simp]: "bind_result (skip s) f = f s"
  by (simp add: skip_def)

lemma bind_result_skip [simp]: "bind_result r skip = r"
  by (auto simp: bind_result_def skip_def split: sum.splits)

lemma steps_Nil [simp]: "steps [] = skip"
  by (simp add: fun_eq_iff skip_def)

lemma only_if_simps [simp]: "only_if True m = m" "only_if False m = skip"
  by (simp_all add: only_if_def)

lemma with_result_simps [simp]:
  "with_result (Inl e) k = (\<lambda>_. Inl e)"
  "with_result (Inr a) k = k a"
  by (simp_all add: with_result_def)

lemma steps_append: "steps (ms @ ns) s = bind_result (steps ms s) (steps ns)"
  by (induction ms arbitrary: s) (auto simp: bind_result_def skip_def split: sum.splits)

lemma steps_skip: "(\<And>m. m \<in> set ms \<Longrightarrow> m = skip) \<Longrightarrow> steps ms = skip"
proof (induction ms)
  case Nil
  show ?case by simp
next
  case (Cons m ms)
  then have "m = skip" and "\<And>m. m \<in> set ms \<Longrightarrow> m = skip" by (meson list.set_intros)+
  with Cons.IH show ?case by (simp add: fun_eq_iff)
qed

lemma for_each_Nil [simp]: "for_each [] f = skip"
  by (simp add: for_each_def)

lemma for_each_Cons: "for_each (x # xs) f s = bind_result (f x s) (for_each xs f)"
  by (simp add: for_each_def)

lemma for_each_skip: "(\<And>x. x \<in> set xs \<Longrightarrow> f x = skip) \<Longrightarrow> for_each xs f = skip"
  unfolding for_each_def by (rule steps_skip) auto

lemma for_each_cong:
  "xs = ys \<Longrightarrow> (\<And>x. x \<in> set ys \<Longrightarrow> f x = g x) \<Longrightarrow> for_each xs f = for_each ys g"
  unfolding for_each_def by (auto intro: arg_cong [where f = steps])

lemma steps_Cons_skip: "steps (skip # ms) = steps ms"
  by (simp add: fun_eq_iff)

end
