(* ===== verification/PyValue.thy ===== *)
theory PyValue
  imports Prelude
begin

text \<open>
  The values a contract carries verbatim (\<open>enum\<close>, \<open>const\<close>, \<open>default\<close>, examples,
  extensions, bindings): what \<open>Any\<close> holds after a YAML or JSON document was read. Python's
  equality, truthiness, \<open>repr\<close>, hashing and ordering of these values, with the
  \<open>TypeError\<close> that hashing a list or ordering mixed types raises.

  A finite \<open>float\<close> is the decimal number its \<open>repr\<close> prints, mantissa times a power
  of ten. Printing the shortest decimal is monotone and injective on finite floats, so
  equality and order of floats are those of the decimals. NaN, the infinities and the
  sign of zero are not modelled.
\<close>

datatype pyfloat = Flt int int

datatype pyval =
    PNone
  | PBool bool
  | PInt int
  | PFloat pyfloat
  | PStr string
  | PList "pyval list"
  | PDict "(string \<times> pyval) list"

section \<open>Numbers\<close>

definition scaled :: "pyfloat \<Rightarrow> int \<Rightarrow> int" where
  "scaled x k = (case x of Flt m e \<Rightarrow> m * 10 ^ nat (e - k))"

definition flt_exp :: "pyfloat \<Rightarrow> int" where
  "flt_exp x = (case x of Flt m e \<Rightarrow> e)"

definition flt_le :: "pyfloat \<Rightarrow> pyfloat \<Rightarrow> bool" where
  "flt_le x y = (let k = min (flt_exp x) (flt_exp y) in scaled x k \<le> scaled y k)"

definition flt_lt :: "pyfloat \<Rightarrow> pyfloat \<Rightarrow> bool" where
  "flt_lt x y = (\<not> flt_le y x)"

definition flt_eq :: "pyfloat \<Rightarrow> pyfloat \<Rightarrow> bool" where
  "flt_eq x y = (flt_le x y \<and> flt_le y x)"

text \<open>\<open>bool\<close>, \<open>int\<close> and \<open>float\<close> compare with each other by value.\<close>

definition int_num :: "int \<Rightarrow> pyfloat" where
  "int_num i = Flt i 0"

definition num_of :: "pyval \<Rightarrow> pyfloat option" where
  "num_of v = (case v of
       PBool b \<Rightarrow> Some (int_num (if b then 1 else 0))
     | PInt i \<Rightarrow> Some (int_num i)
     | PFloat x \<Rightarrow> Some x
     | _ \<Rightarrow> None)"

lemma scaled_shift: "k \<le> flt_exp x \<Longrightarrow> j \<le> k \<Longrightarrow> scaled x j = scaled x k * 10 ^ nat (k - j)"
  by (cases x) (simp add: scaled_def flt_exp_def power_add [symmetric] nat_add_distrib [symmetric])

lemma flt_le_at:
  assumes "k \<le> flt_exp x" and "k \<le> flt_exp y"
  shows "flt_le x y \<longleftrightarrow> scaled x k \<le> scaled y k"
proof -
  let ?m = "min (flt_exp x) (flt_exp y)"
  have "scaled x k = scaled x ?m * 10 ^ nat (?m - k)" "scaled y k = scaled y ?m * 10 ^ nat (?m - k)"
    using assms by (auto intro!: scaled_shift)
  then show ?thesis by (simp add: flt_le_def Let_def)
qed

lemma flt_le_refl [simp]: "flt_le x x"
  by (simp add: flt_le_def)

lemma flt_le_linear: "flt_le x y \<or> flt_le y x"
  using flt_le_at [of "min (flt_exp x) (flt_exp y)" x y] flt_le_at [of "min (flt_exp x) (flt_exp y)" y x]
  by auto

lemma flt_le_trans:
  assumes "flt_le x y" and "flt_le y z"
  shows "flt_le x z"
proof -
  let ?k = "min (flt_exp x) (min (flt_exp y) (flt_exp z))"
  have "scaled x ?k \<le> scaled y ?k" "scaled y ?k \<le> scaled z ?k"
    using assms flt_le_at [of ?k x y] flt_le_at [of ?k y z] by auto
  then have "scaled x ?k \<le> scaled z ?k" by simp
  then show ?thesis using flt_le_at [of ?k x z] by auto
qed

lemma flt_eq_refl [simp]: "flt_eq x x"
  by (simp add: flt_eq_def)

lemma flt_eq_sym: "flt_eq x y \<Longrightarrow> flt_eq y x"
  by (simp add: flt_eq_def)

lemma flt_eq_trans: "flt_eq x y \<Longrightarrow> flt_eq y z \<Longrightarrow> flt_eq x z"
  by (auto simp: flt_eq_def intro: flt_le_trans)

lemma flt_lt_trans: "flt_lt x y \<Longrightarrow> flt_lt y z \<Longrightarrow> flt_lt x z"
  unfolding flt_lt_def using flt_le_trans flt_le_linear by blast

lemma flt_lt_irrefl [simp]: "\<not> flt_lt x x"
  by (simp add: flt_lt_def)

subsection \<open>Printing a float\<close>

fun strip_zeros :: "string \<Rightarrow> string" where
  "strip_zeros s = (if s \<noteq> [] \<and> last s = CHR ''0'' then strip_zeros (butlast s) else s)"

declare strip_zeros.simps [simp del]

text \<open>Two digits at least in the exponent, as C's \<open>%e\<close> prints it.\<close>

definition exponent_str :: "int \<Rightarrow> string" where
  "exponent_str e = (if e < 0 then ''-'' else ''+'') @
     (if abs e < 10 then ''0'' else []) @ nat_str (nat (abs e))"

definition float_repr :: "pyfloat \<Rightarrow> string" where
  "float_repr x = (case x of Flt m e \<Rightarrow>
     if m = 0 then ''0.0''
     else
       let all_ds = nat_str (nat (abs m));
           point = int (length all_ds) + e;
           ds = strip_zeros all_ds;
           n = int (length ds);
           body =
             (if point \<le> - 4 \<or> 16 < point then
                (case ds of [] \<Rightarrow> [] | d # r \<Rightarrow>
                   d # (if r = [] then [] else ''.'' @ r) @ ''e'' @ exponent_str (point - 1))
              else if point \<le> 0 then ''0.'' @ replicate (nat (- point)) (CHR ''0'') @ ds
              else if n \<le> point then ds @ replicate (nat (point - n)) (CHR ''0'') @ ''.0''
              else take (nat point) ds @ ''.'' @ drop (nat point) ds)
       in (if m < 0 then ''-'' else []) @ body)"

section \<open>Equality, truth and repr\<close>

fun take_key :: "string \<Rightarrow> (string \<times> 'v) list \<Rightarrow> ('v \<times> (string \<times> 'v) list) option" where
  "take_key k [] = None"
| "take_key k ((k', v) # d) =
     (if k = k' then Some (v, d) else map_option (\<lambda>(w, r). (w, (k', v) # r)) (take_key k d))"

text \<open>
  \<open>==\<close> on values: numbers by value across \<open>bool\<close>, \<open>int\<close> and \<open>float\<close>, dicts
  regardless of the order of their keys.
\<close>

fun py_eq :: "pyval \<Rightarrow> pyval \<Rightarrow> bool"
  and py_eq_list :: "pyval list \<Rightarrow> pyval list \<Rightarrow> bool"
  and py_eq_dict :: "(string \<times> pyval) list \<Rightarrow> (string \<times> pyval) list \<Rightarrow> bool" where
  "py_eq PNone w = (w = PNone)"
| "py_eq (PBool b) w = (case num_of w of None \<Rightarrow> False | Some y \<Rightarrow> flt_eq (int_num (if b then 1 else 0)) y)"
| "py_eq (PInt i) w = (case num_of w of None \<Rightarrow> False | Some y \<Rightarrow> flt_eq (int_num i) y)"
| "py_eq (PFloat x) w = (case num_of w of None \<Rightarrow> False | Some y \<Rightarrow> flt_eq x y)"
| "py_eq (PStr s) w = (w = PStr s)"
| "py_eq (PList xs) w = (case w of PList ys \<Rightarrow> py_eq_list xs ys | _ \<Rightarrow> False)"
| "py_eq (PDict d) w = (case w of PDict d' \<Rightarrow> py_eq_dict d d' | _ \<Rightarrow> False)"
| "py_eq_list [] ys = (ys = [])"
| "py_eq_list (x # xs) ys = (case ys of [] \<Rightarrow> False | y # ys' \<Rightarrow> py_eq x y \<and> py_eq_list xs ys')"
| "py_eq_dict [] d' = (d' = [])"
| "py_eq_dict ((k, v) # d) d' =
     (case take_key k d' of None \<Rightarrow> False | Some (w, r) \<Rightarrow> py_eq v w \<and> py_eq_dict d r)"

definition truthy :: "pyval \<Rightarrow> bool" where
  "truthy v = (case v of
       PNone \<Rightarrow> False
     | PBool b \<Rightarrow> b
     | PInt i \<Rightarrow> i \<noteq> 0
     | PFloat (Flt m e) \<Rightarrow> m \<noteq> 0
     | PStr s \<Rightarrow> s \<noteq> []
     | PList xs \<Rightarrow> xs \<noteq> []
     | PDict d \<Rightarrow> d \<noteq> [])"

text \<open>\<open>v in xs\<close>\<close>

definition py_in :: "pyval \<Rightarrow> pyval list \<Rightarrow> bool" where
  "py_in v xs = list_ex (py_eq v) xs"

definition hex_digit :: "nat \<Rightarrow> char" where
  "hex_digit d = (if d < 10 then char_of (48 + d) else char_of (87 + d))"

definition escape_char :: "char \<Rightarrow> char \<Rightarrow> string" where
  "escape_char q c = (let n = of_char c :: nat in
     if c = CHR 0x5C \<or> c = q then [CHR 0x5C, c]
     else if n = 10 then [CHR 0x5C, CHR ''n'']
     else if n = 13 then [CHR 0x5C, CHR ''r'']
     else if n = 9 then [CHR 0x5C, CHR ''t'']
     else if n < 32 \<or> n = 127 then [CHR 0x5C, CHR ''x'', hex_digit (n div 16), hex_digit (n mod 16)]
     else [c])"

definition str_repr :: "string \<Rightarrow> string" where
  "str_repr s = (let q = (if CHR 0x27 \<in> set s \<and> CHR 0x22 \<notin> set s then CHR 0x22 else CHR 0x27)
     in [q] @ concat (map (escape_char q) s) @ [q])"

fun py_repr :: "pyval \<Rightarrow> string" where
  "py_repr PNone = ''None''"
| "py_repr (PBool b) = bool_str b"
| "py_repr (PInt i) = int_str i"
| "py_repr (PFloat x) = float_repr x"
| "py_repr (PStr s) = str_repr s"
| "py_repr (PList xs) = ''['' @ join '', '' (map py_repr xs) @ '']''"
| "py_repr (PDict d) =
     CHR 0x7B # join '', '' (map (\<lambda>(k, v). str_repr k @ '': '' @ py_repr v) d) @ [CHR 0x7D]"

text \<open>Optional attributes as values, for \<open>getattr\<close> and \<open>old_value=...\<close>.\<close>

text \<open>\<open>str(value)\<close>.\<close>

definition py_str :: "pyval \<Rightarrow> string" where
  "py_str v = (case v of PStr s \<Rightarrow> s | _ \<Rightarrow> py_repr v)"

definition opt_val :: "('a \<Rightarrow> pyval) \<Rightarrow> 'a option \<Rightarrow> pyval" where
  "opt_val f v = (case v of None \<Rightarrow> PNone | Some a \<Rightarrow> f a)"

definition str_list :: "string list \<Rightarrow> pyval" where
  "str_list xs = PList (map PStr xs)"

definition opt_repr :: "string option \<Rightarrow> string" where
  "opt_repr v = py_repr (opt_val PStr v)"

text \<open>\<open>x or {}\<close> followed by \<open>isinstance(x, dict)\<close>: the dict, or nothing.\<close>

definition dict_or_empty :: "pyval option \<Rightarrow> (string \<times> pyval) list option" where
  "dict_or_empty v = (case v of
       None \<Rightarrow> Some []
     | Some w \<Rightarrow> if truthy w then (case w of PDict d \<Rightarrow> Some d | _ \<Rightarrow> None) else Some [])"

text \<open>\<open>d.get(k)\<close> on a dict of values.\<close>

definition val_get :: "(string \<times> pyval) list \<Rightarrow> string \<Rightarrow> pyval" where
  "val_get d k = (case map_of d k of None \<Rightarrow> PNone | Some v \<Rightarrow> v)"

lemma take_key_hit [simp]: "take_key k ((k, v) # d) = Some (v, d)"
  by simp

lemma py_eq_list_refl: "\<forall>x \<in> set xs. py_eq x x \<Longrightarrow> py_eq_list xs xs"
  by (induction xs) auto

lemma py_eq_dict_refl: "\<forall>(k, v) \<in> set d. py_eq v v \<Longrightarrow> py_eq_dict d d"
  by (induction d) auto

lemma py_eq_refl [simp]: "py_eq v v"
  by (induction v) (auto simp: num_of_def intro!: py_eq_list_refl py_eq_dict_refl)

lemma py_eq_num:
  "num_of v = Some x \<Longrightarrow> py_eq v w \<longleftrightarrow> (\<exists>y. num_of w = Some y \<and> flt_eq x y)"
  by (cases v) (auto simp: num_of_def split: option.splits)

section \<open>Hashing and ordering\<close>

fun hashable :: "pyval \<Rightarrow> bool" where
  "hashable (PList xs) = False"
| "hashable (PDict d) = False"
| "hashable v = True"

fun dedup :: "pyval list \<Rightarrow> pyval list \<Rightarrow> pyval list" where
  "dedup seen [] = seen"
| "dedup seen (v # vs) = dedup (if py_in v seen then seen else seen @ [v]) vs"

text \<open>\<open>set(xs)\<close>: the members, the first of each class of equal values kept.\<close>

definition py_set :: "pyval list \<Rightarrow> pyval list result" where
  "py_set xs = (if list_all hashable xs then Inr (dedup [] xs) else Inl (TypeError ''unhashable type''))"

definition py_set_diff :: "pyval list \<Rightarrow> pyval list \<Rightarrow> pyval list result" where
  "py_set_diff xs ys =
     bind_result (py_set xs) (\<lambda>a. bind_result (py_set ys) (\<lambda>b.
       Inr (filter (\<lambda>v. \<not> py_in v b) a)))"

definition is_num :: "pyval \<Rightarrow> bool" where
  "is_num v = (num_of v \<noteq> None)"

fun is_str :: "pyval \<Rightarrow> bool" where
  "is_str (PStr s) = True"
| "is_str v = False"

text \<open>\<open>a < b\<close> where both are numbers or both strings.\<close>

definition py_lt :: "pyval \<Rightarrow> pyval \<Rightarrow> bool" where
  "py_lt a b = (case (num_of a, num_of b) of
       (Some x, Some y) \<Rightarrow> flt_lt x y
     | _ \<Rightarrow> (case (a, b) of (PStr s, PStr t) \<Rightarrow> s < t | _ \<Rightarrow> False))"

fun insert_val :: "pyval \<Rightarrow> pyval list \<Rightarrow> pyval list" where
  "insert_val v [] = [v]"
| "insert_val v (w # ws) = (if py_lt w v then w # insert_val v ws else v # w # ws)"

definition comparable :: "pyval list \<Rightarrow> bool" where
  "comparable xs = (length xs \<le> 1 \<or> list_all is_num xs \<or> list_all is_str xs)"

text \<open>
  \<open>sorted(xs)\<close> on hashable values without duplicates: a sort of two or more
  elements compares some pair across any split of them, so mixed types (or a \<open>None\<close>)
  raise.
\<close>

definition py_sorted :: "pyval list \<Rightarrow> pyval list result" where
  "py_sorted xs = (if comparable xs then Inr (foldr insert_val xs [])
     else Inl (TypeError ''unorderable types''))"

lemma set_insert_val [simp]: "set (insert_val v ws) = insert v (set ws)"
  by (induction ws) auto

lemma set_foldr_insert_val [simp]: "set (foldr insert_val xs []) = set xs"
  by (induction xs) auto

lemma set_dedup_subset: "set (dedup seen xs) \<subseteq> set seen \<union> set xs"
  by (induction seen xs rule: dedup.induct) auto

section \<open>Conversions\<close>

text \<open>What a \<open>for\<close> loop runs over: the keys of a dict, the characters of a text.\<close>

fun py_iter :: "pyval \<Rightarrow> pyval list result" where
  "py_iter (PList xs) = Inr xs"
| "py_iter (PDict kvs) = Inr (map (PStr \<circ> fst) kvs)"
| "py_iter (PStr s) = Inr (map (\<lambda>c. PStr [c]) s)"
| "py_iter _ = Inl (TypeError ''object is not iterable'')"

text \<open>\<open>int(text)\<close>: a sign, then digits, which single underscores may separate.\<close>

definition decimal_digit :: "char \<Rightarrow> bool" where
  "decimal_digit c \<longleftrightarrow> (let n = of_char c :: int in 48 \<le> n \<and> n \<le> 57)"

fun digits_text :: "bool \<Rightarrow> string \<Rightarrow> string option" where
  "digits_text after_digit [] = (if after_digit then Some [] else None)"
| "digits_text after_digit (c # s) =
     (if decimal_digit c then map_option (Cons c) (digits_text True s)
      else if c = CHR ''_'' \<and> after_digit then digits_text False s else None)"

definition int_of_text :: "string \<Rightarrow> int result" where
  "int_of_text text =
     (let s = strip text;
          (neg, body) = (case s of [] \<Rightarrow> (False, []) | c # r \<Rightarrow> if c = CHR ''-'' then (True, r) else if c = CHR ''+'' then (False, r) else (False, s))
      in case digits_text False body of
           None \<Rightarrow> Inl (ValueError (''invalid literal for int() with base 10: '' @ str_repr text))
         | Some ds \<Rightarrow>
             if int (length ds) > 4300 then Inl (ValueError ''Exceeds the limit for integer string conversion'')
             else let n = foldl (\<lambda>n c. 10 * n + (of_char c - 48)) 0 ds in Inr (if neg then - n else n))"

definition py_int :: "pyval \<Rightarrow> int result" where
  "py_int v = (case v of
       PInt i \<Rightarrow> Inr i
     | PBool b \<Rightarrow> Inr (if b then 1 else 0)
     | PFloat (Flt m e) \<Rightarrow> Inr (if 0 \<le> e then m * 10 ^ nat e else sgn m * (abs m div 10 ^ nat (- e)))
     | PStr s \<Rightarrow> int_of_text s
     | _ \<Rightarrow> Inl (TypeError ''int() argument must be a string, a bytes-like object or a real number''))"

end
