(* ===== verification/Model.thy ===== *)
theory Model
  imports PyValue
begin

text \<open>
  \<open>apiverity/core/model.py\<close>: the normalized contract. Pydantic models are records,
  enumerations are datatypes with the source's members, optional attributes are options
  and dicts are association lists. Field names carry a prefix for their class, because
  the records share one name space (\<open>op_description\<close>, \<open>sn_description\<close>).

  A schema node is recursive, so it is a datatype: its plain attributes are the record
  \<open>schema_facts\<close>, its sub-schemas are arguments of the constructor.
\<close>

section \<open>Protocol and locations\<close>

datatype protocol =
  OPENAPI | GRAPHQL | GRPC | ASYNCAPI | SSE | WEBSOCKET | MCP | SOAP

record source_location =
  loc_file :: string
  loc_line :: int
  loc_column :: int
  loc_pointer :: string

section \<open>Schema nodes\<close>

record schema_facts =
  sn_type :: "string option"
  sn_format :: "string option"
  sn_title :: "string option"
  sn_description :: "string option"
  sn_nullable :: bool
  sn_deprecated :: bool
  sn_data_classification :: "string option"
  sn_enum :: "pyval list option"
  sn_const :: pyval
  sn_default :: pyval
  sn_example :: pyval
  sn_required :: "string list"
  sn_min_properties :: "int option"
  sn_max_properties :: "int option"
  sn_min_items :: "int option"
  sn_max_items :: "int option"
  sn_unique_items :: "bool option"
  sn_min_length :: "int option"
  sn_max_length :: "int option"
  sn_pattern :: "string option"
  sn_minimum :: "pyfloat option"
  sn_maximum :: "pyfloat option"
  sn_exclusive_minimum :: "pyfloat option"
  sn_exclusive_maximum :: "pyfloat option"
  sn_multiple_of :: "pyfloat option"
  sn_field_numbers :: "(int, string) dict"
  sn_reserved_numbers :: "int list"
  sn_reserved_names :: "string list"
  sn_explicit_presence :: "string list"
  sn_oneofs :: "(string, string list) dict"
  sn_discriminator :: "(string, pyval) dict option"
  sn_min_contains :: "int option"
  sn_max_contains :: "int option"
  sn_dependent_required :: "(string, string list) dict"
  sn_source_location :: "source_location option"

text \<open>\<open>additional_properties: bool | SchemaNode | None\<close>\<close>

datatype 'n additional = AddlNone | AddlBool bool | AddlSchema 'n

datatype schema_node = SchemaNode
  (facts: schema_facts)
  (properties: "(string \<times> schema_node) list")
  (additional_properties: "schema_node additional")
  (items: "schema_node option")
  (one_of: "schema_node list option")
  (any_of: "schema_node list option")
  (all_of: "schema_node list option")
  (not_schema: "schema_node option")
  (prefix_items: "schema_node list option")
  (contains_schema: "schema_node option")
  (pattern_properties: "(string \<times> schema_node) list")
  (property_names: "schema_node option")
  (dependent_schemas: "(string \<times> schema_node) list")
  (if_schema: "schema_node option")
  (then_schema: "schema_node option")
  (else_schema: "schema_node option")

text \<open>The defaults of the class: a node that says nothing.\<close>

definition empty_facts :: schema_facts where
  "empty_facts = \<lparr>
     sn_type = None, sn_format = None, sn_title = None, sn_description = None,
     sn_nullable = False, sn_deprecated = False, sn_data_classification = None,
     sn_enum = None, sn_const = PNone, sn_default = PNone, sn_example = PNone,
     sn_required = [], sn_min_properties = None, sn_max_properties = None,
     sn_min_items = None, sn_max_items = None, sn_unique_items = None,
     sn_min_length = None, sn_max_length = None, sn_pattern = None,
     sn_minimum = None, sn_maximum = None, sn_exclusive_minimum = None,
     sn_exclusive_maximum = None, sn_multiple_of = None,
     sn_field_numbers = [], sn_reserved_numbers = [], sn_reserved_names = [],
     sn_explicit_presence = [], sn_oneofs = [], sn_discriminator = None,
     sn_min_contains = None, sn_max_contains = None, sn_dependent_required = [],
     sn_source_location = None\<rparr>"

definition leaf :: "schema_facts \<Rightarrow> schema_node" where
  "leaf f = SchemaNode f [] AddlNone None None None None None None None [] None [] None None None"

text \<open>The direct sub-schemas of a node; each is smaller, so walks over them terminate.\<close>

definition opt_nodes :: "'a option \<Rightarrow> 'a list" where
  "opt_nodes v = (case v of None \<Rightarrow> [] | Some a \<Rightarrow> [a])"

definition list_or_empty :: "'a list option \<Rightarrow> 'a list" where
  "list_or_empty v = (case v of None \<Rightarrow> [] | Some xs \<Rightarrow> xs)"

definition sub_schemas :: "schema_node \<Rightarrow> schema_node list" where
  "sub_schemas n =
     map snd (properties n)
     @ (case additional_properties n of AddlSchema m \<Rightarrow> [m] | _ \<Rightarrow> [])
     @ opt_nodes (items n)
     @ list_or_empty (one_of n) @ list_or_empty (any_of n) @ list_or_empty (all_of n)
     @ opt_nodes (not_schema n) @ list_or_empty (prefix_items n) @ opt_nodes (contains_schema n)
     @ map snd (pattern_properties n) @ opt_nodes (property_names n)
     @ map snd (dependent_schemas n)
     @ opt_nodes (if_schema n) @ opt_nodes (then_schema n) @ opt_nodes (else_schema n)"

lemma size_pair_member:
  "(k, c) \<in> set xs \<Longrightarrow> size (c :: schema_node) \<le> size_list (size_prod (\<lambda>_. 0) size) xs"
  by (induction xs) (auto intro: le_SucI trans_le_add2)

lemma size_member: "c \<in> set xs \<Longrightarrow> size (c :: schema_node) \<le> size_list size xs"
  by (induction xs) auto

lemma sub_schema_size [termination_simp]: "c \<in> set (sub_schemas n) \<Longrightarrow> size c < size n"
  by (cases n)
    (auto simp: sub_schemas_def opt_nodes_def list_or_empty_def
      split: option.splits additional.splits dest!: size_pair_member size_member)

lemma items_size [termination_simp]: "items n = Some c \<Longrightarrow> size c < size n"
  by (rule sub_schema_size) (simp add: sub_schemas_def opt_nodes_def)

text \<open>The node below a chain of object properties.\<close>

fun at_path :: "string list \<Rightarrow> schema_node \<Rightarrow> schema_node option" where
  "at_path [] n = Some n"
| "at_path (p # ps) n = (case dict_get (properties n) p of None \<Rightarrow> None | Some c \<Rightarrow> at_path ps c)"

definition iter_property_names :: "schema_node \<Rightarrow> string list" where
  "iter_property_names n = keys (properties n)"

abbreviation node_type :: "schema_node \<Rightarrow> string option" where
  "node_type n \<equiv> sn_type (facts n)"

abbreviation node_location :: "schema_node \<Rightarrow> source_location option" where
  "node_location n \<equiv> sn_source_location (facts n)"

section \<open>Parameters, media and bodies\<close>

datatype parameter_location = PATH | QUERY | HEADER | COOKIE | QUERYSTRING

fun location_value :: "parameter_location \<Rightarrow> string" where
  "location_value PATH = ''path''"
| "location_value QUERY = ''query''"
| "location_value HEADER = ''header''"
| "location_value COOKIE = ''cookie''"
| "location_value QUERYSTRING = ''querystring''"

record parameter =
  p_name :: string
  p_location :: parameter_location
  p_required :: bool
  p_deprecated :: bool
  p_description :: "string option"
  p_schema_node :: "schema_node option"
  p_example :: pyval
  p_source_location :: "source_location option"

definition SEQUENTIAL_MEDIA :: "string list" where
  "SEQUENTIAL_MEDIA = [
     ''text/event-stream'',
     ''application/jsonl'',
     ''application/x-ndjson'',
     ''application/json-seq'',
     ''application/jsonlines'']"

definition media_base :: "string \<Rightarrow> string" where
  "media_base media_type = lower (strip (takeWhile (\<lambda>c. c \<noteq> CHR '';'') media_type))"

definition is_sequential_media :: "string \<Rightarrow> bool" where
  "is_sequential_media media_type = (let base = media_base media_type in
     base \<in> set SEQUENTIAL_MEDIA \<or> starts_with base ''multipart/'')"

record encoding =
  en_content_type :: "string option"
  en_style :: "string option"
  en_explode :: "bool option"
  en_headers :: "string list"

record streaming_media =
  st_item_schema :: "schema_node option"
  st_item_encoding :: "(string, encoding) dict"
  st_prefix_encoding :: "encoding list"
  st_source_location :: "source_location option"

definition declares_anything :: "streaming_media \<Rightarrow> bool" where
  "declares_anything m =
     (st_item_schema m \<noteq> None \<or> st_item_encoding m \<noteq> [] \<or> st_prefix_encoding m \<noteq> [])"

record request_body =
  rb_required :: bool
  rb_description :: "string option"
  rb_content :: "(string, schema_node) dict"
  rb_streaming :: "(string, streaming_media) dict"
  rb_source_location :: "source_location option"

record link =
  ln_name :: string
  ln_operation_id :: "string option"
  ln_operation_ref :: "string option"
  ln_description :: "string option"
  ln_parameters :: "(string, string) dict"
  ln_request_body :: pyval

record response =
  rs_status :: string
  rs_description :: "string option"
  rs_headers :: "(string, schema_node) dict"
  rs_content :: "(string, schema_node) dict"
  rs_streaming :: "(string, streaming_media) dict"
  rs_links :: "link list"
  rs_source_location :: "source_location option"

record security_requirement =
  sq_scheme_name :: string
  sq_scopes :: "string list"

record security_scheme =
  ss_name :: string
  ss_type :: string
  ss_location :: "parameter_location option"
  ss_scheme :: "string option"
  ss_bearer_format :: "string option"
  ss_scopes :: "(string, string) dict"
  ss_oauth_flows :: "(string, (string, string) dict) dict"
  ss_metadata_url :: "string option"
  ss_deprecated :: bool
  ss_source_location :: "source_location option"

record example_value =
  ex_name :: string
  ex_value :: pyval
  ex_summary :: "string option"
  ex_source_location :: "source_location option"

section \<open>Lifecycle\<close>

record deprecation_info =
  di_announced_date :: "string option"
  di_sunset_date :: "string option"
  di_migration_guide :: "string option"
  di_consumer_impact :: "string option"

datatype lifecycle_state = EXPERIMENTAL | BETA | STABLE | DEPRECATED | RETIRED

fun LIFECYCLE_TRANSITIONS :: "lifecycle_state \<Rightarrow> lifecycle_state list" where
  "LIFECYCLE_TRANSITIONS EXPERIMENTAL = [BETA, RETIRED]"
| "LIFECYCLE_TRANSITIONS BETA = [STABLE, RETIRED]"
| "LIFECYCLE_TRANSITIONS STABLE = [DEPRECATED]"
| "LIFECYCLE_TRANSITIONS DEPRECATED = [RETIRED]"
| "LIFECYCLE_TRANSITIONS RETIRED = []"

section \<open>Operations and services\<close>

datatype operation_kind =
  HTTP | GRAPHQL_FIELD | GRPC_RPC | EVENT | WS_MESSAGE | MCP_TOOL | SOAP_OPERATION

record operation =
  op_kind :: operation_kind
  op_operation_id :: "string option"
  op_method :: "string option"
  op_path :: "string option"
  op_rpc_name :: "string option"
  op_service_name :: "string option"
  op_summary :: "string option"
  op_description :: "string option"
  op_deprecated :: bool
  op_tags :: "string list"
  op_parameters :: "parameter list"
  op_request_body :: "request_body option"
  op_responses :: "response list"
  op_security :: "security_requirement list option"
  op_examples :: "example_value list"
  op_extensions :: "(string, pyval) dict"
  op_client_streaming :: bool
  op_server_streaming :: bool
  op_channel :: "string option"
  op_message_name :: "string option"
  op_direction :: "string option"
  op_source_action :: "string option"
  op_bindings :: "(string, pyval) dict"
  op_lifecycle_state :: "lifecycle_state option"
  op_deprecation :: "deprecation_info option"
  op_idempotent :: "bool option"
  op_pagination :: "(string, pyval) dict option"
  op_source_location :: "source_location option"

text \<open>\<open>a or b\<close> for two optional strings, printed by an f-string.\<close>

definition str_or_opt :: "string option \<Rightarrow> string option \<Rightarrow> string option" where
  "str_or_opt a b = (if truthy_str a then a else b)"

definition key :: "operation \<Rightarrow> string" where
  "key op =
     (if op_kind op = HTTP then upper (str_or (op_method op) []) @ '' '' @ opt_str (op_path op)
      else if op_kind op = GRAPHQL_FIELD then
        opt_str (op_service_name op) @ ''.'' @ opt_str (op_rpc_name op)
      else if op_kind op = EVENT then
        (let channel = str_or (str_or_opt (op_channel op) (op_path op)) []
         in str_or (op_direction op) ''?'' @ '' '' @ channel @ ''#'' @
            opt_str (str_or_opt (op_message_name op) (op_rpc_name op)))
      else if op_kind op = MCP_TOOL then ''tool '' @ opt_str (op_rpc_name op)
      else opt_str (op_service_name op) @ ''.'' @ opt_str (op_rpc_name op))"

record server =
  sv_url :: string
  sv_description :: "string option"

record service =
  svc_title :: string
  svc_version :: string
  svc_protocol :: protocol
  svc_description :: "string option"
  svc_servers :: "server list"
  svc_operations :: "operation list"
  svc_security_schemes :: "(string, security_scheme) dict"
  svc_global_security :: "security_requirement list"
  svc_tags :: "(string, pyval) dict list"
  svc_owner :: "string option"
  svc_team :: "string option"
  svc_product :: "string option"
  svc_lifecycle_state :: "lifecycle_state option"
  svc_source_file :: "string option"
  svc_source_location :: "source_location option"
  svc_dependencies :: "string list"
  svc_dependency_edges :: "(string, pyval) dict list"
  svc_bindings :: "(string, pyval) dict"

definition operation_keys :: "service \<Rightarrow> string list" where
  "operation_keys s = map key (svc_operations s)"

definition find_operation :: "service \<Rightarrow> string \<Rightarrow> operation option" where
  "find_operation s k = find (\<lambda>op. key op = k) (svc_operations s)"

section \<open>Findings and changes\<close>

datatype severity = ERROR | WARN | INFO

record finding =
  f_rule_id :: string
  f_severity :: severity
  f_message :: string
  f_operation_key :: "string option"
  f_location :: "source_location option"
  f_new_location :: "source_location option"
  f_change_id :: "string option"
  f_hint :: "string option"
  f_metadata :: "(string, pyval) dict"

datatype change_kind =
    OPERATION_ADDED | OPERATION_REMOVED | PARAMETER_ADDED | PARAMETER_REMOVED
  | PARAMETER_REQUIREDNESS | PARAMETER_TYPE_CHANGED | PARAMETER_CONSTRAINT_CHANGED
  | ENUM_CHANGED | REQUEST_SCHEMA_CHANGED | RESPONSE_SCHEMA_CHANGED | RESPONSE_ADDED
  | RESPONSE_REMOVED | HEADER_ADDED | HEADER_REMOVED | HEADER_CHANGED | SECURITY_CHANGED
  | DEPRECATION_ADDED | DEPRECATION_REMOVED | DESCRIPTION_CHANGED | EXAMPLE_CHANGED
  | SERVER_CHANGED | DEPENDENT_REQUIRED_CHANGED | DEPENDENT_SCHEMA_CHANGED
  | TUPLE_SHAPE_CHANGED | PATTERN_PROPERTIES_CHANGED | CONDITIONAL_SCHEMA_CHANGED
  | CONTAINS_CHANGED | PROPERTY_NAMES_CHANGED | STREAM_SHAPE_CHANGED | FIELD_REMOVED
  | FIELD_ADDED | NULLABILITY_CHANGED | ARGUMENT_ADDED | RPC_REMOVED | RPC_ADDED
  | FIELD_NUMBER_REUSED | WIRE_TYPE_CHANGED | RPC_STREAMING_CHANGED
  | FIELD_PRESENCE_CHANGED | ONEOF_MEMBERSHIP_CHANGED | RESERVATION_CHANGED
  | TOOL_ANNOTATION_CHANGED | TOOL_DESCRIPTION_CHANGED | TOOL_OUTPUT_SCHEMA_CHANGED
  | TOOL_RENAME_SUSPECTED | MANIFEST_TRUNCATED | SOAP_ACTION_CHANGED | SOAP_STYLE_CHANGED
  | SOAP_VERSION_CHANGED

fun kind_value :: "change_kind \<Rightarrow> string" where
  "kind_value OPERATION_ADDED = ''operation_added''"
| "kind_value OPERATION_REMOVED = ''operation_removed''"
| "kind_value PARAMETER_ADDED = ''parameter_added''"
| "kind_value PARAMETER_REMOVED = ''parameter_removed''"
| "kind_value PARAMETER_REQUIREDNESS = ''parameter_requiredness''"
| "kind_value PARAMETER_TYPE_CHANGED = ''parameter_type_changed''"
| "kind_value PARAMETER_CONSTRAINT_CHANGED = ''parameter_constraint_changed''"
| "kind_value ENUM_CHANGED = ''enum_changed''"
| "kind_value REQUEST_SCHEMA_CHANGED = ''request_schema_changed''"
| "kind_value RESPONSE_SCHEMA_CHANGED = ''response_schema_changed''"
| "kind_value RESPONSE_ADDED = ''response_added''"
| "kind_value RESPONSE_REMOVED = ''response_removed''"
| "kind_value HEADER_ADDED = ''header_added''"
| "kind_value HEADER_REMOVED = ''header_removed''"
| "kind_value HEADER_CHANGED = ''header_changed''"
| "kind_value SECURITY_CHANGED = ''security_changed''"
| "kind_value DEPRECATION_ADDED = ''deprecation_added''"
| "kind_value DEPRECATION_REMOVED = ''deprecation_removed''"
| "kind_value DESCRIPTION_CHANGED = ''description_changed''"
| "kind_value EXAMPLE_CHANGED = ''example_changed''"
| "kind_value SERVER_CHANGED = ''server_changed''"
| "kind_value DEPENDENT_REQUIRED_CHANGED = ''dependent_required_changed''"
| "kind_value DEPENDENT_SCHEMA_CHANGED = ''dependent_schema_changed''"
| "kind_value TUPLE_SHAPE_CHANGED = ''tuple_shape_changed''"
| "kind_value PATTERN_PROPERTIES_CHANGED = ''pattern_properties_changed''"
| "kind_value CONDITIONAL_SCHEMA_CHANGED = ''conditional_schema_changed''"
| "kind_value CONTAINS_CHANGED = ''contains_changed''"
| "kind_value PROPERTY_NAMES_CHANGED = ''property_names_changed''"
| "kind_value STREAM_SHAPE_CHANGED = ''stream_shape_changed''"
| "kind_value FIELD_REMOVED = ''field_removed''"
| "kind_value FIELD_ADDED = ''field_added''"
| "kind_value NULLABILITY_CHANGED = ''nullability_changed''"
| "kind_value ARGUMENT_ADDED = ''argument_added''"
| "kind_value RPC_REMOVED = ''rpc_removed''"
| "kind_value RPC_ADDED = ''rpc_added''"
| "kind_value FIELD_NUMBER_REUSED = ''field_number_reused''"
| "kind_value WIRE_TYPE_CHANGED = ''wire_type_changed''"
| "kind_value RPC_STREAMING_CHANGED = ''rpc_streaming_changed''"
| "kind_value FIELD_PRESENCE_CHANGED = ''field_presence_changed''"
| "kind_value ONEOF_MEMBERSHIP_CHANGED = ''oneof_membership_changed''"
| "kind_value RESERVATION_CHANGED = ''reservation_changed''"
| "kind_value TOOL_ANNOTATION_CHANGED = ''tool_annotation_changed''"
| "kind_value TOOL_DESCRIPTION_CHANGED = ''tool_description_changed''"
| "kind_value TOOL_OUTPUT_SCHEMA_CHANGED = ''tool_output_schema_changed''"
| "kind_value TOOL_RENAME_SUSPECTED = ''tool_rename_suspected''"
| "kind_value MANIFEST_TRUNCATED = ''manifest_truncated''"
| "kind_value SOAP_ACTION_CHANGED = ''soap_action_changed''"
| "kind_value SOAP_STYLE_CHANGED = ''soap_style_changed''"
| "kind_value SOAP_VERSION_CHANGED = ''soap_version_changed''"

record change =
  c_id :: string
  c_kind :: change_kind
  c_direction :: string
  c_operation_key :: string
  c_description :: string
  c_old_location :: "source_location option"
  c_new_location :: "source_location option"
  c_old_value :: pyval
  c_new_value :: pyval
  c_breaking_hint :: "string option"

end
