(* ===== verification/Sha256.thy ===== *)
theory Sha256
  imports Prelude "HOL-Library.Word"
begin

unbundle bit_operations_syntax

text \<open>
  \<open>hashlib.sha256(data).hexdigest()\<close> of Python's standard library, which the differ
  uses for change identifiers and for tool shapes: the algorithm of FIPS 180-4 on 32-bit
  words, with wrap-around addition. The differ hashes the UTF-8 bytes of a string, which
  is what a \<open>string\<close> holds here. The constants are those of the standard, in decimal.
\<close>

definition round_constants :: "32 word list" where
  "round_constants = [
     1116352408, 1899447441, 3049323471, 3921009573,
     961987163, 1508970993, 2453635748, 2870763221,
     3624381080, 310598401, 607225278, 1426881987,
     1925078388, 2162078206, 2614888103, 3248222580,
     3835390401, 4022224774, 264347078, 604807628,
     770255983, 1249150122, 1555081692, 1996064986,
     2554220882, 2821834349, 2952996808, 3210313671,
     3336571891, 3584528711, 113926993, 338241895,
     666307205, 773529912, 1294757372, 1396182291,
     1695183700, 1986661051, 2177026350, 2456956037,
     2730485921, 2820302411, 3259730800, 3345764771,
     3516065817, 3600352804, 4094571909, 275423344,
     430227734, 506948616, 659060556, 883997877,
     958139571, 1322822218, 1537002063, 1747873779,
     1955562222, 2024104815, 2227730452, 2361852424,
     2428436474, 2756734187, 3204031479, 3329325298]"

definition initial_hash :: "32 word list" where
  "initial_hash = [
     1779033703, 3144134277, 1013904242, 2773480762,
     1359893119, 2600822924, 528734635, 1541459225]"

definition rotr :: "nat \<Rightarrow> 32 word \<Rightarrow> 32 word" where
  "rotr n w = drop_bit n w OR push_bit (32 - n) w"

definition small_sigma0 :: "32 word \<Rightarrow> 32 word" where
  "small_sigma0 x = rotr 7 x XOR rotr 18 x XOR drop_bit 3 x"

definition small_sigma1 :: "32 word \<Rightarrow> 32 word" where
  "small_sigma1 x = rotr 17 x XOR rotr 19 x XOR drop_bit 10 x"

definition big_sigma0 :: "32 word \<Rightarrow> 32 word" where
  "big_sigma0 x = rotr 2 x XOR rotr 13 x XOR rotr 22 x"

definition big_sigma1 :: "32 word \<Rightarrow> 32 word" where
  "big_sigma1 x = rotr 6 x XOR rotr 11 x XOR rotr 25 x"

subsection \<open>Padding and blocks\<close>

definition word_of_bytes :: "int list \<Rightarrow> 32 word" where
  "word_of_bytes bs = fold (\<lambda>b w. push_bit 8 w OR word_of_int b) bs 0"

definition length_bytes :: "int \<Rightarrow> int list" where
  "length_bytes n = map (\<lambda>i. n div 256 ^ (7 - i) mod 256) [0..<8]"

definition pad :: "int list \<Rightarrow> int list" where
  "pad bs = (let n = length bs; zeros = (119 - n mod 64) mod 64
     in bs @ [128] @ replicate zeros 0 @ length_bytes (8 * int n))"

fun chunks :: "nat \<Rightarrow> 'a list \<Rightarrow> 'a list list" where
  "chunks k xs = (if xs = [] \<or> k = 0 then [] else take k xs # chunks k (drop k xs))"

declare chunks.simps [simp del]

subsection \<open>Compression\<close>

text \<open>The message schedule is extended at its end, one word at a time, to 64 words.\<close>

fun extend_schedule :: "nat \<Rightarrow> 32 word list \<Rightarrow> 32 word list" where
  "extend_schedule 0 ws = ws"
| "extend_schedule (Suc k) ws =
     (let t = length ws;
          w = small_sigma1 (ws ! (t - 2)) + ws ! (t - 7) + small_sigma0 (ws ! (t - 15)) + ws ! (t - 16)
      in extend_schedule k (ws @ [w]))"

definition sha_round :: "32 word \<times> 32 word \<Rightarrow> 32 word list \<Rightarrow> 32 word list" where
  "sha_round kw st = (case (kw, st) of
       ((k, w), [a, b, c, d, e, f, g, h]) \<Rightarrow>
         let ch = (e AND f) XOR (NOT e AND g);
             maj = (a AND b) XOR (a AND c) XOR (b AND c);
             t1 = h + big_sigma1 e + ch + k + w;
             t2 = big_sigma0 a + maj
         in [t1 + t2, a, b, c, d + t1, e, f, g]
     | _ \<Rightarrow> st)"

definition compress :: "int list \<Rightarrow> 32 word list \<Rightarrow> 32 word list" where
  "compress block st =
     (let ws = extend_schedule 48 (map word_of_bytes (chunks 4 block))
      in map2 (+) st (fold sha_round (zip round_constants ws) st))"

definition sha256_words :: "int list \<Rightarrow> 32 word list" where
  "sha256_words bs = fold compress (chunks 64 (pad bs)) initial_hash"

definition hex_char :: "nat \<Rightarrow> char" where
  "hex_char d = ''0123456789abcdef'' ! d"

definition hex_word :: "32 word \<Rightarrow> string" where
  "hex_word w = map (\<lambda>i. hex_char (unat (drop_bit (28 - 4 * i) w AND 15))) [0..<8]"

definition sha256_hexdigest :: "string \<Rightarrow> string" where
  "sha256_hexdigest s = concat (map hex_word (sha256_words (map of_char s)))"

section \<open>The digest is 64 lower-case hexadecimal digits\<close>

definition hex_chars :: "char set" where
  "hex_chars = set ''0123456789abcdef''"

lemma hex_char_hex: "d < 16 \<Longrightarrow> hex_char d \<in> hex_chars"
  unfolding hex_char_def hex_chars_def by (rule nth_mem) simp

lemma nibble_lt_16: "unat (x AND 15 :: 32 word) < 16"
proof -
  have "unat (x AND 15 :: 32 word) \<le> unat (15 :: 32 word)"
    by (rule word_and_le1 [THEN word_le_nat_alt [THEN iffD1]])
  then show ?thesis by simp
qed

lemma hex_word_hex: "set (hex_word w) \<subseteq> hex_chars"
  by (auto simp: hex_word_def intro!: hex_char_hex nibble_lt_16)

lemma length_hex_word [simp]: "length (hex_word w) = 8"
  by (simp add: hex_word_def)

lemma sha256_hexdigest_hex: "set (sha256_hexdigest s) \<subseteq> hex_chars"
  using hex_word_hex by (fastforce simp: sha256_hexdigest_def)

lemma length_sha_round: "length (sha_round kw st) = length st"
  by (auto simp: sha_round_def Let_def split: prod.splits list.splits)

lemma length_fold_sha_round: "length (fold sha_round kws st) = length st"
  by (induction kws arbitrary: st) (simp_all add: length_sha_round)

lemma length_compress: "length (compress b st) = length st"
  by (simp add: compress_def Let_def length_fold_sha_round)

lemma length_fold_compress: "length (fold compress bs st) = length st"
  by (induction bs arbitrary: st) (simp_all add: length_compress)

lemma length_sha256_words: "length (sha256_words bs) = 8"
  by (simp add: sha256_words_def length_fold_compress initial_hash_def)

lemma length_concat_hex: "length (concat (map hex_word ws)) = 8 * length ws"
  by (induction ws) simp_all

lemma length_sha256_hexdigest: "length (sha256_hexdigest s) = 64"
  by (simp add: sha256_hexdigest_def length_concat_hex length_sha256_words)

end
