(* ===== verification/DiffBase.thy ===== *)
theory DiffBase
  imports Model Sha256
begin

text \<open>
  The recording half of \<open>apiverity/diff/engine.py\<close>: the state of a \<open>DiffEngine\<close>
  (its \<open>changes\<close> and \<open>_counters\<close>), \<open>_add\<close> with its stable identifiers, and the
  logic in which the comparison methods are reasoned about.

  Every comparison is a step that either raises or appends changes, independently of
  what was recorded before; \<open>emitter P m\<close> says so and that the appended changes
  satisfy \<open>P\<close>, \<open>outcome m\<close> is what it appends, before numbering. The locale
  \<open>id_scheme\<close> (theory \<open>ChangeIds\<close>) is the contract between the recorder and the format of identifiers.
\<close>

named_theorems emit_intro "closure of emitters under the step combinators"
named_theorems outcome_simps "what a composed step appends"

section \<open>The engine and its identifiers\<close>

record engine =
  eng_changes :: "change list"
  eng_counters :: "(string, int) dict"

definition init_engine :: engine where
  "init_engine = \<lparr>eng_changes = [], eng_counters = []\<rparr>"

definition operation_hash :: "string \<Rightarrow> string" where
  "operation_hash operation_key =
     (if operation_key = [] then ''global'' else take 8 (sha256_hexdigest operation_key))"

definition kind_key :: "change_kind \<Rightarrow> string" where
  "kind_key kind = upper (kind_value kind)"

definition change_scope :: "change_kind \<Rightarrow> string \<Rightarrow> string" where
  "change_scope kind operation_key = kind_key kind @ '':'' @ operation_hash operation_key"

definition change_id :: "change_kind \<Rightarrow> string \<Rightarrow> int \<Rightarrow> string" where
  "change_id kind operation_key n =
     ''CHG-'' @ kind_key kind @ ''-'' @ operation_hash operation_key @ ''-'' @ int_str n"

text \<open>Numbering and appending one change, for any scheme of scopes and identifiers.\<close>

definition emit_with ::
  "(change_kind \<Rightarrow> string \<Rightarrow> string) \<Rightarrow> (change_kind \<Rightarrow> string \<Rightarrow> int \<Rightarrow> string) \<Rightarrow>
   change \<Rightarrow> engine \<Rightarrow> engine" where
  "emit_with scope_of ident c s =
     (let scope = scope_of (c_kind c) (c_operation_key c);
          n = dict_get_or (eng_counters s) scope 0 + 1
      in s\<lparr>eng_changes := eng_changes s @ [c\<lparr>c_id := ident (c_kind c) (c_operation_key c) n\<rparr>],
           eng_counters := dict_set scope n (eng_counters s)\<rparr>)"

abbreviation emit :: "change \<Rightarrow> engine \<Rightarrow> engine" where
  "emit \<equiv> emit_with change_scope change_id"

text \<open>The keyword arguments of \<open>_add\<close>.\<close>

record add_args =
  old_value :: pyval
  new_value :: pyval
  old_location :: "source_location option"
  new_location :: "source_location option"
  breaking_hint :: "string option"

definition no_args :: add_args where
  "no_args = \<lparr>old_value = PNone, new_value = PNone, old_location = None, new_location = None,
     breaking_hint = None\<rparr>"

definition raw_change :: "change_kind \<Rightarrow> string \<Rightarrow> string \<Rightarrow> string \<Rightarrow> add_args \<Rightarrow> change" where
  "raw_change kind operation_key direction description args = \<lparr>
     c_id = [], c_kind = kind, c_direction = direction, c_operation_key = operation_key,
     c_description = description, c_old_location = old_location args,
     c_new_location = new_location args, c_old_value = old_value args,
     c_new_value = new_value args, c_breaking_hint = breaking_hint args\<rparr>"

definition add_change ::
  "change_kind \<Rightarrow> string \<Rightarrow> string \<Rightarrow> string \<Rightarrow> add_args \<Rightarrow> engine step" where
  "add_change kind operation_key direction description args s =
     Inr (emit (raw_change kind operation_key direction description args) s)"

section \<open>Emitters\<close>

definition emit_all :: "change list \<Rightarrow> engine \<Rightarrow> engine" where
  "emit_all cs s = fold emit cs s"

definition strip_id :: "change \<Rightarrow> change" where
  "strip_id c = c\<lparr>c_id := []\<rparr>"

definition outcome :: "engine step \<Rightarrow> change list result" where
  "outcome m = bind_result (m init_engine) (\<lambda>s. Inr (map strip_id (eng_changes s)))"

definition emitter :: "(py_error \<Rightarrow> bool) \<Rightarrow> (change \<Rightarrow> bool) \<Rightarrow> engine step \<Rightarrow> bool" where
  "emitter E P m \<longleftrightarrow>
     (\<exists>e. E e \<and> m = (\<lambda>_. Inl e)) \<or> (\<exists>cs. m = (\<lambda>s. Inr (emit_all cs s)) \<and> list_all P cs \<and> map strip_id cs = cs)"

abbreviation uniform :: "engine step \<Rightarrow> bool" where
  "uniform \<equiv> emitter (\<lambda>_. True) (\<lambda>_. True)"

lemma emit_all_Nil [simp]: "emit_all [] s = s"
  by (simp add: emit_all_def)

lemma emit_all_append [simp]: "emit_all (cs @ ds) s = emit_all ds (emit_all cs s)"
  by (simp add: emit_all_def)

lemma emit_all_Cons: "emit_all (c # cs) s = emit_all cs (emit c s)"
  by (simp add: emit_all_def)

lemma strip_id_emit:
  "map strip_id (eng_changes (emit c s)) = map strip_id (eng_changes s) @ [strip_id c]"
  by (simp add: emit_with_def Let_def strip_id_def)

lemma strip_id_emit_all:
  "map strip_id (eng_changes (emit_all cs s)) = map strip_id (eng_changes s) @ map strip_id cs"
  by (induction cs arbitrary: s) (simp_all add: emit_all_Cons strip_id_emit)

lemma outcome_emit_all:
  "map strip_id cs = cs \<Longrightarrow> outcome (\<lambda>s. Inr (emit_all cs s)) = Inr cs"
  by (simp add: outcome_def strip_id_emit_all init_engine_def)

lemma outcome_raise: "outcome (\<lambda>_. Inl e) = Inl e"
  by (simp add: outcome_def)

text \<open>An emitter is determined by its outcome, whatever was recorded before.\<close>

lemma emitter_behaves:
  assumes "emitter E P m"
  shows "m s = bind_result (outcome m) (\<lambda>cs. Inr (emit_all cs s))"
  using assms by (auto simp: emitter_def outcome_emit_all outcome_raise)

lemma emitter_outcome: "emitter E P m \<Longrightarrow> outcome m = Inr cs \<Longrightarrow> c \<in> set cs \<Longrightarrow> P c"
  by (auto simp: emitter_def outcome_emit_all outcome_raise list_all_iff)

lemma emitter_mono:
  assumes "emitter E P m" and "\<And>e. E e \<Longrightarrow> F e" and "\<And>c. P c \<Longrightarrow> Q c"
  shows "emitter F Q m"
proof -
  have "list_all P cs \<Longrightarrow> list_all Q cs" for cs using assms(3) by (auto simp: list_all_iff)
  with assms(1,2) show ?thesis unfolding emitter_def by blast
qed

lemma emitter_error: "emitter E P m \<Longrightarrow> m s = Inl e \<Longrightarrow> E e"
  by (auto simp: emitter_def)

lemma emitter_uniform: "emitter E P m \<Longrightarrow> uniform m"
  by (erule emitter_mono) simp_all

lemma emitter_raise: "E e \<Longrightarrow> emitter E P (\<lambda>_. Inl e)"
  by (auto simp: emitter_def)

lemma emitter_skip [emit_intro]: "emitter E P skip"
  unfolding emitter_def skip_def by (rule disjI2) (rule exI [of _ "[]"], simp)

lemma emitter_add [emit_intro]:
  "P (raw_change k op d desc args) \<Longrightarrow> emitter E P (add_change k op d desc args)"
  unfolding emitter_def add_change_def
  by (rule disjI2) (rule exI [of _ "[raw_change k op d desc args]"],
      simp add: emit_all_def fun_eq_iff strip_id_def raw_change_def)

lemma emitter_seq:
  assumes "emitter E P m" and "emitter E P n"
  shows "emitter E P (\<lambda>s. bind_result (m s) n)"
  using assms unfolding emitter_def
proof (elim disjE exE conjE)
  fix cs ds
  assume "m = (\<lambda>s. Inr (emit_all cs s))" "list_all P cs" "map strip_id cs = cs"
    and "n = (\<lambda>s. Inr (emit_all ds s))" "list_all P ds" "map strip_id ds = ds"
  then show "(\<exists>e. E e \<and> (\<lambda>s. bind_result (m s) n) = (\<lambda>_. Inl e)) \<or>
    (\<exists>cs. (\<lambda>s. bind_result (m s) n) = (\<lambda>s. Inr (emit_all cs s)) \<and> list_all P cs \<and> map strip_id cs = cs)"
    by (intro disjI2 exI [of _ "cs @ ds"]) simp
qed auto

lemma emitter_steps [emit_intro]: "list_all (emitter E P) ms \<Longrightarrow> emitter E P (steps ms)"
proof (induction ms)
  case Nil
  show ?case by (simp add: emitter_skip)
next
  case (Cons m ms)
  then have "emitter E P (\<lambda>s. bind_result (m s) (steps ms))" by (intro emitter_seq) simp_all
  then show ?case by simp
qed

lemma emitter_for_each [emit_intro]:
  "(\<And>x. x \<in> set xs \<Longrightarrow> emitter E P (f x)) \<Longrightarrow> emitter E P (for_each xs f)"
  unfolding for_each_def by (rule emitter_steps) (auto simp: list_all_iff)

lemma emitter_only_if [emit_intro]: "(c \<Longrightarrow> emitter E P m) \<Longrightarrow> emitter E P (only_if c m)"
  by (cases c) (auto intro: emit_intro)

lemma emitter_if [emit_intro]:
  "(c \<Longrightarrow> emitter E P m) \<Longrightarrow> (\<not> c \<Longrightarrow> emitter E P n) \<Longrightarrow> emitter E P (if c then m else n)"
  by simp

lemma emitter_with_result [emit_intro]:
  "(\<And>e. r = Inl e \<Longrightarrow> E e) \<Longrightarrow> (\<And>a. r = Inr a \<Longrightarrow> emitter E P (k a)) \<Longrightarrow>
   emitter E P (with_result r k)"
  by (cases r) (auto intro: emit_intro emitter_raise)

lemma emitter_prod [emit_intro]:
  "(\<And>a b. x = (a, b) \<Longrightarrow> emitter E P (f a b)) \<Longrightarrow> emitter E P (case x of (a, b) \<Rightarrow> f a b)"
  by (cases x) simp

lemma emitter_option [emit_intro]:
  "(v = None \<Longrightarrow> emitter E P m) \<Longrightarrow> (\<And>a. v = Some a \<Longrightarrow> emitter E P (f a)) \<Longrightarrow>
   emitter E P (case v of None \<Rightarrow> m | Some a \<Rightarrow> f a)"
  by (cases v) auto

subsection \<open>Outcomes of composed steps\<close>

lemma outcome_skip [outcome_simps]: "outcome skip = Inr []"
  by (simp add: outcome_def skip_def init_engine_def)

lemma outcome_add [outcome_simps]:
  "outcome (add_change k op d desc args) = Inr [raw_change k op d desc args]"
  by (simp add: outcome_def add_change_def emit_with_def Let_def init_engine_def strip_id_def
      raw_change_def)

lemma outcome_seq:
  assumes "uniform m" and "uniform n"
  shows "outcome (\<lambda>s. bind_result (m s) n) =
    bind_result (outcome m) (\<lambda>cs. bind_result (outcome n) (\<lambda>ds. Inr (cs @ ds)))"
  using assms unfolding emitter_def
proof (elim disjE exE conjE)
  fix cs ds
  assume "m = (\<lambda>s. Inr (emit_all cs s))" "map strip_id cs = cs"
    and "n = (\<lambda>s. Inr (emit_all ds s))" "map strip_id ds = ds"
  then show ?thesis
    using outcome_emit_all [of "cs @ ds"] by (simp add: outcome_emit_all)
qed (simp_all add: outcome_raise outcome_emit_all)

lemma outcome_steps: "list_all uniform ms \<Longrightarrow> outcome (steps ms) = seq_results (map outcome ms)"
proof (induction ms)
  case Nil
  show ?case by (simp add: outcome_skip)
next
  case (Cons m ms)
  then have "uniform m" "uniform (steps ms)" "outcome (steps ms) = seq_results (map outcome ms)"
    by (auto intro: emitter_steps)
  then show ?case by (simp add: outcome_seq)
qed

lemma outcome_for_each:
  "(\<And>x. x \<in> set xs \<Longrightarrow> uniform (f x)) \<Longrightarrow>
   outcome (for_each xs f) = seq_results (map (\<lambda>x. outcome (f x)) xs)"
  unfolding for_each_def by (subst outcome_steps) (auto simp: list_all_iff comp_def)

text \<open>What one step of a successful method appends is in the method's outcome.\<close>

lemma steps_member:
  assumes "list_all uniform ms" and "outcome (steps ms) = Inr cs"
    and "m \<in> set ms" and "outcome m = Inr ds" and "d \<in> set ds"
  shows "d \<in> set cs"
proof -
  from assms(1,2) obtain css where css: "map outcome ms = map Inr css" "cs = concat css"
    by (auto simp: outcome_steps seq_results_Inr)
  from assms(3) have "outcome m \<in> set (map outcome ms)" by simp
  then have "Inr ds \<in> Inr ` set css" using css(1) assms(4) by auto
  then have "ds \<in> set css" by auto
  then show ?thesis using css(2) assms(5) by auto
qed

lemma steps_succeeds:
  assumes "list_all uniform ms" and "outcome (steps ms) = Inr cs" and "m \<in> set ms"
  shows "\<exists>ds. outcome m = Inr ds \<and> set ds \<subseteq> set cs"
proof -
  from assms(1,2) obtain css where css: "map outcome ms = map Inr css" "cs = concat css"
    by (auto simp: outcome_steps seq_results_Inr)
  from assms(3) have "outcome m \<in> set (map outcome ms)" by simp
  then have "outcome m \<in> Inr ` set css" using css(1) by simp
  then show ?thesis using css(2) by auto
qed

end
