(* ===== verification/DiffProto.thy ===== *)
theory DiffProto
  imports DiffBase
begin

text \<open>
  The leaves of the schema comparison in \<open>apiverity/diff/engine.py\<close>:
  \<open>_CONSTRAINT_ATTRS\<close>, \<open>_schema_summary\<close>, \<open>_wire_shape\<close> and
  \<open>_diff_protobuf_schema\<close>, the latter split at its comment blocks in source order.
\<close>

text \<open>\<open>d[k]\<close>, with its \<open>KeyError\<close>.\<close>

definition with_key :: "('k, 'v) dict \<Rightarrow> 'k \<Rightarrow> ('v \<Rightarrow> 's step) \<Rightarrow> 's step" where
  "with_key d k body = (case dict_get d k of None \<Rightarrow> (\<lambda>_. Inl (KeyError [])) | Some v \<Rightarrow> body v)"

lemma emitter_with_key [emit_intro]:
  assumes "x \<in> set (keys d)" and "\<And>v. dict_get d x = Some v \<Longrightarrow> emitter E P (f v)"
  shows "emitter E P (with_key d x f)"
  using assms by (auto simp: with_key_def set_keys_eq_dom)

lemma with_key_cong:
  "(\<And>v. dict_get d x = Some v \<Longrightarrow> f v = g v) \<Longrightarrow> with_key d x f = with_key d x g"
  by (auto simp: with_key_def split: option.splits)

lemma with_key_skip: "(x \<in> set (keys d)) \<Longrightarrow> (\<And>v. dict_get d x = Some v \<Longrightarrow> f v = skip) \<Longrightarrow> with_key d x f = skip"
  by (auto simp: with_key_def set_keys_eq_dom)

definition int_val :: "int option \<Rightarrow> pyval" where
  "int_val = opt_val PInt"

definition flt_val :: "pyfloat option \<Rightarrow> pyval" where
  "flt_val = opt_val PFloat"

definition enum_val :: "pyval list option \<Rightarrow> pyval" where
  "enum_val = opt_val PList"

definition str_list_repr :: "string list \<Rightarrow> string" where
  "str_list_repr xs = py_repr (str_list xs)"

section \<open>Summaries\<close>

definition CONSTRAINT_ATTRS :: "string list" where
  "CONSTRAINT_ATTRS = [
     ''const'', ''minimum'', ''maximum'', ''exclusive_minimum'', ''exclusive_maximum'',
     ''multiple_of'', ''min_length'', ''max_length'', ''pattern'', ''min_items'', ''max_items'',
     ''unique_items'', ''min_properties'', ''max_properties'']"

text \<open>\<open>getattr(schema, attr)\<close> for the attributes above.\<close>

definition constraint_value :: "string \<Rightarrow> schema_facts \<Rightarrow> pyval" where
  "constraint_value attr f =
     (if attr = ''const'' then sn_const f
      else if attr = ''minimum'' then flt_val (sn_minimum f)
      else if attr = ''maximum'' then flt_val (sn_maximum f)
      else if attr = ''exclusive_minimum'' then flt_val (sn_exclusive_minimum f)
      else if attr = ''exclusive_maximum'' then flt_val (sn_exclusive_maximum f)
      else if attr = ''multiple_of'' then flt_val (sn_multiple_of f)
      else if attr = ''min_length'' then int_val (sn_min_length f)
      else if attr = ''max_length'' then int_val (sn_max_length f)
      else if attr = ''pattern'' then opt_val PStr (sn_pattern f)
      else if attr = ''min_items'' then int_val (sn_min_items f)
      else if attr = ''max_items'' then int_val (sn_max_items f)
      else if attr = ''unique_items'' then opt_val PBool (sn_unique_items f)
      else if attr = ''min_properties'' then int_val (sn_min_properties f)
      else int_val (sn_max_properties f))"

definition schema_summary :: "schema_node option \<Rightarrow> string" where
  "schema_summary schema = (case schema of None \<Rightarrow> ''absent'' | Some n \<Rightarrow>
     let f = facts n in
       str_or (sn_type f) ''any''
       @ (if truthy_str (sn_format f) then ''('' @ opt_str (sn_format f) @ '')'' else [])
       @ (case sn_enum f of None \<Rightarrow> [] | Some vs \<Rightarrow> '' enum'' @ py_repr (PList vs))
       @ (if sn_const f = PNone then [] else '' const='' @ py_repr (sn_const f)))"

fun wire_shape :: "schema_node \<Rightarrow> string" where
  "wire_shape node =
     (case items node of
        Some it \<Rightarrow> if node_type node = Some ''array'' then ''repeated '' @ wire_shape it
                  else str_or (str_or_opt (sn_format (facts node)) (node_type node)) ''unknown''
      | None \<Rightarrow> str_or (str_or_opt (sn_format (facts node)) (node_type node)) ''unknown'')"

declare wire_shape.simps [simp del]

definition wire_shape_of :: "schema_node option \<Rightarrow> string" where
  "wire_shape_of node = (case node of None \<Rightarrow> ''unknown'' | Some n \<Rightarrow> wire_shape n)"

definition schema_kind :: "string \<Rightarrow> change_kind" where
  "schema_kind d = (if d = ''request'' then REQUEST_SCHEMA_CHANGED else RESPONSE_SCHEMA_CHANGED)"

section \<open>Protobuf\<close>

definition diff_field_numbers :: "schema_node \<Rightarrow> schema_node \<Rightarrow> string \<Rightarrow> string \<Rightarrow> string \<Rightarrow> engine step" where
  "diff_field_numbers old new k label d =
     for_each (sorted_inter (keys (sn_field_numbers (facts old))) (keys (sn_field_numbers (facts new))))
       (\<lambda>number. with_key (sn_field_numbers (facts old)) number (\<lambda>was.
          with_key (sn_field_numbers (facts new)) number (\<lambda>now.
          only_if (was \<noteq> now)
            (let old_type = wire_shape_of (dict_get (properties old) was);
                 new_type = wire_shape_of (dict_get (properties new) now)
             in if old_type = new_type then
                  add_change (schema_kind d) k d
                    (label @ '': field '' @ int_str number @ '' renamed from '' @ quoted was @ '' to ''
                     @ quoted now @ '' (same type, wire-compatible)'')
                    (no_args\<lparr>old_value := PStr was, new_value := PStr now, breaking_hint := Some
                       ''the wire is unaffected, but generated code and any JSON transcoding use the name''\<rparr>)
                else
                  add_change FIELD_NUMBER_REUSED k d
                    (label @ '': field number '' @ int_str number @ '' changed from '' @ quoted was
                     @ '' ('' @ old_type @ '') to '' @ quoted now @ '' ('' @ new_type @ '')'')
                    (no_args\<lparr>old_value := PStr was, new_value := PStr now, breaking_hint := Some
                       (''data written by older clients still carries field '' @ int_str number
                        @ '' and will decode into '' @ quoted now @ '', which has a different type; ''
                        @ ''reserve the number instead of reusing it'')\<rparr>)))))"

definition diff_unreserved :: "schema_node \<Rightarrow> schema_node \<Rightarrow> string \<Rightarrow> string \<Rightarrow> string \<Rightarrow> engine step" where
  "diff_unreserved old new k label d =
     (let dropped = sorted_diff (keys (sn_field_numbers (facts old))) (keys (sn_field_numbers (facts new)));
          unreserved = sorted_diff dropped (sn_reserved_numbers (facts new))
      in for_each unreserved (\<lambda>number. with_key (sn_field_numbers (facts old)) number (\<lambda>was.
           add_change (if d = ''response'' then RESPONSE_SCHEMA_CHANGED else REQUEST_SCHEMA_CHANGED) k d
             (label @ '': field '' @ quoted was @ '' ('' @ int_str number
              @ '') removed without reserving its number'')
             (no_args\<lparr>old_value := PStr was, breaking_hint := Some
                (''add `reserved '' @ int_str number
                 @ '';` so the number cannot be reused for something else'')\<rparr>))))"

definition diff_presence :: "schema_node \<Rightarrow> schema_node \<Rightarrow> string \<Rightarrow> string \<Rightarrow> string \<Rightarrow> engine step" where
  "diff_presence old new k label d =
     for_each (sorted_diff (sn_explicit_presence (facts old)) (sn_explicit_presence (facts new)))
       (\<lambda>name. only_if (name \<in> set (keys (properties new)))
          (add_change FIELD_PRESENCE_CHANGED k d
             (label @ '': field '' @ quoted name @ '' lost explicit presence'')
             (no_args\<lparr>old_value := PBool True, new_value := PBool False, breaking_hint := Some
                ''an unset field and a field set to its default are no longer distinguishable''\<rparr>)))"

definition oneof_members :: "schema_node \<Rightarrow> (string, string) dict" where
  "oneof_members n = dict_of (concat (map (\<lambda>(g, fs). map (\<lambda>f. (f, g)) fs) (sn_oneofs (facts n))))"

definition diff_oneofs :: "schema_node \<Rightarrow> schema_node \<Rightarrow> string \<Rightarrow> string \<Rightarrow> string \<Rightarrow> engine step" where
  "diff_oneofs old new k label d =
     (let old_members = oneof_members old; new_members = oneof_members new in steps [
        for_each (sorted_diff (keys new_members) (keys old_members))
          (\<lambda>name. only_if (name \<in> set (keys (properties old))) (with_key new_members name (\<lambda>g.
             add_change ONEOF_MEMBERSHIP_CHANGED k d
               (label @ '': field '' @ quoted name @ '' moved into oneof '' @ quoted g)
               (no_args\<lparr>new_value := PStr g, breaking_hint := Some
                  (''setting this field now clears the others in the oneof; senders ''
                   @ ''that set several will silently lose all but the last'')\<rparr>)))),
        for_each (sorted_diff (keys old_members) (keys new_members))
          (\<lambda>name. only_if (name \<in> set (keys (properties new))) (with_key old_members name (\<lambda>g.
             add_change ONEOF_MEMBERSHIP_CHANGED k d
               (label @ '': field '' @ quoted name @ '' moved out of oneof '' @ quoted g)
               (no_args\<lparr>old_value := PStr g\<rparr>))))])"

definition diff_reservations :: "schema_node \<Rightarrow> schema_node \<Rightarrow> string \<Rightarrow> string \<Rightarrow> string \<Rightarrow> engine step" where
  "diff_reservations old new k label d =
     for_each (sorted_diff (sn_reserved_numbers (facts old)) (sn_reserved_numbers (facts new)))
       (\<lambda>number. only_if (number \<notin> set (keys (sn_field_numbers (facts new))))
          (add_change RESERVATION_CHANGED k d
             (label @ '': field number '' @ int_str number @ '' is no longer reserved'')
             (no_args\<lparr>old_value := PInt number, breaking_hint :=
                Some ''nothing now prevents this number being reused''\<rparr>)))"

definition diff_protobuf_schema :: "schema_node \<Rightarrow> schema_node \<Rightarrow> string \<Rightarrow> string \<Rightarrow> string \<Rightarrow> engine step" where
  "diff_protobuf_schema old new k label d = steps [
     diff_field_numbers old new k label d,
     diff_unreserved old new k label d,
     diff_presence old new k label d,
     diff_oneofs old new k label d,
     diff_reservations old new k label d]"

end
