(* ===== verification/DiffSchema.thy ===== *)
theory DiffSchema
  imports DiffProto
begin

text \<open>
  The recursive schema comparison of \<open>apiverity/diff/engine.py\<close>: \<open>_diff_schema\<close> and
  \<open>_diff_2020_12\<close>. The long methods are split where the source has its comment lines,
  one definition per block, in source order; each block takes the recursive call as an
  argument \<open>rec\<close>, and \<open>diff_schema\<close> ties the knot. The operation key \<open>k\<close>, the place
  \<open>w\<close> (\<open>where\<close>) and the direction \<open>d\<close> are passed down unchanged by every recursive
  call of the source, so they are parameters.
\<close>

type_synonym rec_call = "schema_node \<Rightarrow> schema_node \<Rightarrow> string \<Rightarrow> engine step"

section \<open>The node's own attributes\<close>

definition at_nodes :: "schema_node \<Rightarrow> schema_node \<Rightarrow> add_args" where
  "at_nodes old new = no_args\<lparr>old_location := node_location old, new_location := node_location new\<rparr>"

definition diff_default :: "schema_node \<Rightarrow> schema_node \<Rightarrow> string \<Rightarrow> string \<Rightarrow> string \<Rightarrow> engine step" where
  "diff_default old new k label d =
     (let before = sn_default (facts old); after = sn_default (facts new) in
      only_if (\<not> py_eq before after)
        (add_change (schema_kind d) k d
           (label @ '': default changed '' @ py_repr before @ '' -> '' @ py_repr after)
           ((at_nodes old new)\<lparr>old_value := before, new_value := after, breaking_hint :=
              (if before = PNone then Some
                 (''a default introduced where there was none changes behaviour ''
                  @ ''for callers that omit this field'')
               else None)\<rparr>)))"

definition diff_nullable :: "schema_node \<Rightarrow> schema_node \<Rightarrow> string \<Rightarrow> string \<Rightarrow> string \<Rightarrow> engine step" where
  "diff_nullable old new k label d =
     (let before = sn_nullable (facts old); after = sn_nullable (facts new) in
      only_if (before \<noteq> after)
        (add_change NULLABILITY_CHANGED k d
           (label @ '': '' @ (if after then ''became nullable'' else ''is no longer nullable''))
           ((at_nodes old new)\<lparr>old_value := PBool before, new_value := PBool after, breaking_hint :=
              (if after \<and> d = ''response'' then Some
                 ''a response value that may now be null breaks every reader that did not check''
               else if \<not> after \<and> d = ''request'' then Some
                 (''a request field that may no longer be null rejects payloads ''
                  @ ''that were valid'')
               else None)\<rparr>)))"

definition diff_type :: "schema_node \<Rightarrow> schema_node \<Rightarrow> string \<Rightarrow> string \<Rightarrow> string \<Rightarrow> engine step" where
  "diff_type old new k label d =
     (let before = node_type old; after = node_type new in
      only_if (before \<noteq> after)
        (add_change (if d = ''request'' then PARAMETER_TYPE_CHANGED else RESPONSE_SCHEMA_CHANGED) k d
           (label @ '': type changed '' @ quoted (opt_str before) @ '' -> '' @ quoted (opt_str after))
           ((at_nodes old new)\<lparr>old_value := opt_val PStr before, new_value := opt_val PStr after\<rparr>)))"

definition diff_format :: "schema_node \<Rightarrow> schema_node \<Rightarrow> string \<Rightarrow> string \<Rightarrow> string \<Rightarrow> engine step" where
  "diff_format old new k label d =
     (let before = sn_format (facts old); after = sn_format (facts new) in
      only_if (before \<noteq> after)
        (add_change PARAMETER_CONSTRAINT_CHANGED k d
           (label @ '': format changed '' @ quoted (opt_str before) @ '' -> '' @ quoted (opt_str after))
           ((at_nodes old new)\<lparr>old_value := opt_val PStr before, new_value := opt_val PStr after\<rparr>)))"

definition sorted_set_diff :: "pyval list \<Rightarrow> pyval list \<Rightarrow> pyval list result" where
  "sorted_set_diff xs ys = bind_result (py_set_diff xs ys) py_sorted"

definition diff_enum :: "schema_node \<Rightarrow> schema_node \<Rightarrow> string \<Rightarrow> string \<Rightarrow> string \<Rightarrow> engine step" where
  "diff_enum old new k label d =
     (let before = sn_enum (facts old); after = sn_enum (facts new) in
      only_if (\<not> py_eq (enum_val before) (enum_val after))
        (with_result (sorted_set_diff (list_or_empty before) (list_or_empty after)) (\<lambda>removed.
         with_result (sorted_set_diff (list_or_empty after) (list_or_empty before)) (\<lambda>added.
           add_change ENUM_CHANGED k d
             (label @ '': enum changed (removed '' @ py_repr (PList removed)
              @ '', added '' @ py_repr (PList added) @ '')'')
             ((at_nodes old new)\<lparr>old_value := enum_val before, new_value := enum_val after, breaking_hint :=
                (if removed \<noteq> [] then Some (''enum values removed: '' @ py_repr (PList removed))
                 else None)\<rparr>)))))"

definition diff_constraint :: "schema_node \<Rightarrow> schema_node \<Rightarrow> string \<Rightarrow> string \<Rightarrow> string \<Rightarrow> string \<Rightarrow> engine step" where
  "diff_constraint old new k label d attr =
     (let o_val = constraint_value attr (facts old); n_val = constraint_value attr (facts new) in
      only_if (\<not> py_eq o_val n_val)
        (add_change PARAMETER_CONSTRAINT_CHANGED k d
           (label @ '': constraint '' @ quoted attr @ '' changed '' @ py_repr o_val @ '' -> '' @ py_repr n_val)
           ((at_nodes old new)\<lparr>old_value := o_val, new_value := n_val\<rparr>)))"

definition diff_constraints :: "schema_node \<Rightarrow> schema_node \<Rightarrow> string \<Rightarrow> string \<Rightarrow> string \<Rightarrow> engine step" where
  "diff_constraints old new k label d =
     for_each CONSTRAINT_ATTRS (diff_constraint old new k label d)"

section \<open>Object properties\<close>

definition diff_removed_properties :: "schema_node \<Rightarrow> schema_node \<Rightarrow> string \<Rightarrow> string \<Rightarrow> string \<Rightarrow> engine step" where
  "diff_removed_properties old new k label d =
     for_each (sorted_diff (keys (properties old)) (keys (properties new)))
       (\<lambda>prop. with_key (properties old) prop (\<lambda>o_prop.
          add_change (if d = ''request'' then PARAMETER_REMOVED else RESPONSE_SCHEMA_CHANGED) k d
            (label @ '': field '' @ quoted prop @ '' was removed'')
            (no_args\<lparr>old_location := node_location o_prop, breaking_hint := Some
               (''field '' @ quoted prop @ '' removed from '' @ d @ '': '' @
                (if d = ''request'' then ''clients sending it may be rejected''
                 else ''clients reading it will break''))\<rparr>)))"

definition diff_added_properties :: "schema_node \<Rightarrow> schema_node \<Rightarrow> string \<Rightarrow> string \<Rightarrow> string \<Rightarrow> engine step" where
  "diff_added_properties old new k label d =
     for_each (sorted_diff (keys (properties new)) (keys (properties old)))
       (\<lambda>prop. with_key (properties new) prop (\<lambda>n_prop.
          add_change (if d = ''request'' then PARAMETER_ADDED else RESPONSE_SCHEMA_CHANGED) k d
            (label @ '': field '' @ quoted prop @ '' was added''
             @ (if prop \<in> set (sn_required (facts new)) then '' (required)'' else []))
            (no_args\<lparr>new_location := node_location n_prop, breaking_hint :=
               (if d = ''request'' \<and> prop \<in> set (sn_required (facts new)) then Some
                  (''required field '' @ quoted prop @ '' added to request: existing clients fail'')
                else None)\<rparr>)))"

definition diff_common_properties :: "rec_call \<Rightarrow> schema_node \<Rightarrow> schema_node \<Rightarrow> string \<Rightarrow> engine step" where
  "diff_common_properties rec old new path =
     for_each (sorted_inter (keys (properties old)) (keys (properties new)))
       (\<lambda>prop. with_key (properties old) prop (\<lambda>o_prop. with_key (properties new) prop (\<lambda>n_prop.
          rec o_prop n_prop (path @ ''.'' @ prop))))"

definition diff_became_required :: "schema_node \<Rightarrow> schema_node \<Rightarrow> string \<Rightarrow> string \<Rightarrow> string \<Rightarrow> engine step" where
  "diff_became_required old new k label d =
     for_each (sorted_diff (sn_required (facts new)) (sn_required (facts old)))
       (\<lambda>prop. only_if (prop \<in> set (keys (properties new)) \<and> prop \<in> set (keys (properties old)))
          (with_key (properties new) prop (\<lambda>n_prop.
             add_change PARAMETER_REQUIREDNESS k d
               (label @ '': field '' @ quoted prop @ '' became required'')
               (no_args\<lparr>old_value := PBool False, new_value := PBool True,
                  new_location := node_location n_prop, breaking_hint :=
                    (if d = ''request'' then Some
                       (''required field '' @ quoted prop @ '' added: existing clients omitting it fail'')
                     else None)\<rparr>))))"

definition diff_became_optional :: "schema_node \<Rightarrow> schema_node \<Rightarrow> string \<Rightarrow> string \<Rightarrow> string \<Rightarrow> engine step" where
  "diff_became_optional old new k label d =
     for_each (sorted_diff (sn_required (facts old)) (sn_required (facts new)))
       (\<lambda>prop. only_if (prop \<in> set (keys (properties old)) \<and> prop \<in> set (keys (properties new)))
          (with_key (properties old) prop (\<lambda>o_prop.
             add_change PARAMETER_REQUIREDNESS k d
               (label @ '': field '' @ quoted prop @ '' became optional'')
               (no_args\<lparr>old_value := PBool True, new_value := PBool False,
                  old_location := node_location o_prop, breaking_hint :=
                    (if d = ''response'' then Some
                       (''field '' @ quoted prop @ '' is no longer guaranteed in the response; ''
                        @ ''consumers reading it unconditionally will break'')
                     else None)\<rparr>))))"

definition diff_items :: "rec_call \<Rightarrow> schema_node \<Rightarrow> schema_node \<Rightarrow> string \<Rightarrow> engine step" where
  "diff_items rec old new path =
     (case (items old, items new) of
        (Some o_items, Some n_items) \<Rightarrow> rec o_items n_items (path @ ''[]'')
      | _ \<Rightarrow> skip)"

section \<open>Discriminator and composition\<close>

text \<open>
  \<open>dict(x or {})\<close>. The parser stores a dict under \<open>mapping\<close>, so the exception for
  another truthy value is not reached from a document.
\<close>

definition dict_of_val :: "pyval \<Rightarrow> (string, pyval) dict result" where
  "dict_of_val v = (if truthy v then (case v of PDict d \<Rightarrow> Inr d | _ \<Rightarrow> Inl (TypeError ''dict''))
     else Inr [])"

definition diff_mapping_removed :: "(string, pyval) dict \<Rightarrow> (string, pyval) dict \<Rightarrow> string \<Rightarrow> string \<Rightarrow> string \<Rightarrow> engine step" where
  "diff_mapping_removed old_map new_map k label d =
     for_each (sorted_diff (keys old_map) (keys new_map)) (\<lambda>value.
       add_change (schema_kind d) k d
         (label @ '': discriminator mapping removed '' @ str_repr value)
         (no_args\<lparr>old_value := PStr value, breaking_hint := Some
            (if d = ''request'' then
               ''variant '' @ str_repr value @ '' can no longer be resolved; senders using it are rejected''
             else ''variant '' @ str_repr value @ '' was withdrawn from the response contract'')\<rparr>))"

definition diff_mapping_added :: "(string, pyval) dict \<Rightarrow> (string, pyval) dict \<Rightarrow> string \<Rightarrow> string \<Rightarrow> string \<Rightarrow> engine step" where
  "diff_mapping_added old_map new_map k label d =
     for_each (sorted_diff (keys new_map) (keys old_map)) (\<lambda>value.
       add_change (schema_kind d) k d
         (label @ '': discriminator mapping added '' @ str_repr value)
         (no_args\<lparr>new_value := PStr value, breaking_hint :=
            (if d = ''response'' then Some
               (''new response variant '' @ str_repr value @ '': consumers with an exhaustive ''
                @ ''switch over the previous variants will not handle it'')
             else None)\<rparr>))"

definition diff_mapping_changed :: "(string, pyval) dict \<Rightarrow> (string, pyval) dict \<Rightarrow> string \<Rightarrow> string \<Rightarrow> string \<Rightarrow> engine step" where
  "diff_mapping_changed old_map new_map k label d =
     for_each (sorted_inter (keys old_map) (keys new_map)) (\<lambda>value.
       with_key old_map value (\<lambda>was. with_key new_map value (\<lambda>now.
         only_if (\<not> py_eq was now)
           (add_change (schema_kind d) k d
              (label @ '': discriminator '' @ str_repr value @ '' now maps to '' @ py_repr now
               @ '' (was '' @ py_repr was @ '')'')
              (no_args\<lparr>old_value := was, new_value := now, breaking_hint := Some
                 (''the same discriminator value '' @ str_repr value @ '' now selects a ''
                  @ ''different schema; clients deserialize into the wrong type'')\<rparr>)))))"

definition diff_discriminator :: "schema_node \<Rightarrow> schema_node \<Rightarrow> string \<Rightarrow> string \<Rightarrow> string \<Rightarrow> engine step" where
  "diff_discriminator old new k label d =
     (let old_disc = list_or_empty (sn_discriminator (facts old));
          new_disc = list_or_empty (sn_discriminator (facts new));
          old_prop = val_get old_disc ''propertyName'';
          new_prop = val_get new_disc ''propertyName''
      in only_if (old_disc \<noteq> [] \<or> new_disc \<noteq> []) (steps [
           only_if (\<not> py_eq old_prop new_prop)
             (add_change (schema_kind d) k d
                (label @ '': discriminator property changed '' @ py_repr old_prop @ '' -> '' @ py_repr new_prop)
                (no_args\<lparr>old_value := old_prop, new_value := new_prop, breaking_hint := Some
                   (''clients branch on the discriminator property; renaming it ''
                    @ ''breaks every consumer that deserializes this type'')\<rparr>)),
           with_result (dict_of_val (val_get old_disc ''mapping'')) (\<lambda>old_map.
             with_result (dict_of_val (val_get new_disc ''mapping'')) (\<lambda>new_map. steps [
               diff_mapping_removed old_map new_map k label d,
               diff_mapping_added old_map new_map k label d,
               diff_mapping_changed old_map new_map k label d]))]))"

definition diff_variants :: "rec_call \<Rightarrow> string \<Rightarrow> schema_node list option \<Rightarrow> schema_node list option \<Rightarrow> string \<Rightarrow> engine step" where
  "diff_variants rec attr o_variants n_variants path =
     (let os = list_or_empty o_variants; ns = list_or_empty n_variants in
      only_if (os \<noteq> [] \<and> ns \<noteq> [] \<and> length os = length ns)
        (for_each (List.enumerate 0 (zip os ns)) (\<lambda>(i, o_v, n_v).
           rec o_v n_v (path @ ''/'' @ attr @ ''['' @ int_str (int i) @ '']''))))"

definition diff_composition :: "rec_call \<Rightarrow> schema_node \<Rightarrow> schema_node \<Rightarrow> string \<Rightarrow> engine step" where
  "diff_composition rec old new path = steps [
     diff_variants rec ''one_of'' (one_of old) (one_of new) path,
     diff_variants rec ''any_of'' (any_of old) (any_of new) path,
     diff_variants rec ''all_of'' (all_of old) (all_of new) path]"

section \<open>JSON Schema 2020-12\<close>

definition diff_dependent_required :: "schema_node \<Rightarrow> schema_node \<Rightarrow> string \<Rightarrow> string \<Rightarrow> string \<Rightarrow> engine step" where
  "diff_dependent_required old new k label d =
     (let o_dep = sn_dependent_required (facts old); n_dep = sn_dependent_required (facts new) in
      for_each (sorted_union (keys o_dep) (keys n_dep)) (\<lambda>name.
        let before = dict_get_or o_dep name []; after = dict_get_or n_dep name [];
            gained = sorted_diff after before; lost = sorted_diff before after
        in only_if (before \<noteq> after)
          (add_change DEPENDENT_REQUIRED_CHANGED k d
             (if gained \<noteq> [] \<and> lost = [] then
                label @ '': sending '' @ str_repr name @ '' now also requires '' @ str_list_repr gained
              else if lost \<noteq> [] \<and> gained = [] then
                label @ '': sending '' @ str_repr name @ '' no longer requires '' @ str_list_repr lost
              else label @ '': the fields '' @ str_repr name @ '' requires changed ''
                @ str_list_repr before @ '' -> '' @ str_list_repr after)
             (no_args\<lparr>old_value := str_list before, new_value := str_list after, breaking_hint :=
                (if gained \<noteq> [] \<and> d = ''request'' then Some
                   (''a request that sets '' @ str_repr name @ '' without '' @ str_list_repr gained
                    @ '' was valid and is not'')
                 else None)\<rparr>))))"

definition diff_dependent_schemas :: "rec_call \<Rightarrow> schema_node \<Rightarrow> schema_node \<Rightarrow> string \<Rightarrow> string \<Rightarrow> string \<Rightarrow> string \<Rightarrow> engine step" where
  "diff_dependent_schemas rec old new k w d path =
     for_each (sorted_union (keys (dependent_schemas old)) (keys (dependent_schemas new))) (\<lambda>name.
       case (dict_get (dependent_schemas old) name, dict_get (dependent_schemas new) name) of
         (None, Some _) \<Rightarrow> add_change DEPENDENT_SCHEMA_CHANGED k d
            (w @ path @ '': a conditional schema now applies when '' @ str_repr name @ '' is present'')
            (no_args\<lparr>new_value := PStr name\<rparr>)
       | (Some _, None) \<Rightarrow> add_change DEPENDENT_SCHEMA_CHANGED k d
            (w @ path @ '': the conditional schema for '' @ str_repr name @ '' was removed'')
            (no_args\<lparr>old_value := PStr name\<rparr>)
       | (Some before, Some after) \<Rightarrow> rec before after (path @ ''/dependentSchemas/'' @ name)
       | (None, None) \<Rightarrow> skip)"

definition diff_prefix_items :: "rec_call \<Rightarrow> schema_node \<Rightarrow> schema_node \<Rightarrow> string \<Rightarrow> string \<Rightarrow> string \<Rightarrow> string \<Rightarrow> engine step" where
  "diff_prefix_items rec old new k w d path =
     (let before = list_or_empty (prefix_items old); after = list_or_empty (prefix_items new) in
      if length before \<noteq> length after then
        add_change TUPLE_SHAPE_CHANGED k d
          (w @ path @ '': the tuple went from '' @ int_str (int (length before))
           @ '' positional item(s) to '' @ int_str (int (length after)))
          (no_args\<lparr>old_value := PInt (int (length before)), new_value := PInt (int (length after)),
             breaking_hint := Some
               (''positional items are read by index; adding or removing one shifts every ''
                @ ''position after it'')\<rparr>)
      else for_each (List.enumerate 0 (zip before after)) (\<lambda>(i, b, a).
        if node_type b \<noteq> node_type a then
          add_change TUPLE_SHAPE_CHANGED k d
            (w @ path @ '': tuple position '' @ int_str (int i) @ '' changed type ''
             @ opt_repr (node_type b) @ '' -> '' @ opt_repr (node_type a))
            (no_args\<lparr>old_value := opt_val PStr (node_type b), new_value := opt_val PStr (node_type a)\<rparr>)
        else rec b a (path @ ''/prefixItems['' @ int_str (int i) @ '']'')))"

definition diff_pattern_properties :: "rec_call \<Rightarrow> schema_node \<Rightarrow> schema_node \<Rightarrow> string \<Rightarrow> string \<Rightarrow> string \<Rightarrow> string \<Rightarrow> engine step" where
  "diff_pattern_properties rec old new k w d path =
     for_each (sorted_union (keys (pattern_properties old)) (keys (pattern_properties new))) (\<lambda>expression.
       case dict_get (pattern_properties old) expression of
         None \<Rightarrow> add_change PATTERN_PROPERTIES_CHANGED k d
            (w @ path @ '': properties matching '' @ str_repr expression @ '' are now constrained'')
            (no_args\<lparr>new_value := PStr expression\<rparr>)
       | Some before \<Rightarrow> (case dict_get (pattern_properties new) expression of
           None \<Rightarrow> add_change PATTERN_PROPERTIES_CHANGED k d
              (w @ path @ '': the constraint on properties matching '' @ str_repr expression @ '' was removed'')
              (no_args\<lparr>old_value := PStr expression\<rparr>)
         | Some after \<Rightarrow> rec before after (path @ ''/patternProperties/'' @ expression)))"

text \<open>
  One optional sub-schema: its appearance or removal is a change, otherwise recurse.
  \<open>propertyNames\<close>, \<open>contains\<close> and the three conditional branches are compared this way.
\<close>

definition diff_optional_schema ::
  "rec_call \<Rightarrow> schema_node option \<Rightarrow> schema_node option \<Rightarrow> change_kind \<Rightarrow> string \<Rightarrow> string \<Rightarrow>
   string \<Rightarrow> string \<Rightarrow> string \<Rightarrow> engine step" where
  "diff_optional_schema rec before after kind k d added_desc removed_desc sub_path =
     (if (before = None) \<noteq> (after = None) then
        add_change kind k d (if after \<noteq> None then added_desc else removed_desc)
          (no_args\<lparr>old_value := PBool (before \<noteq> None), new_value := PBool (after \<noteq> None)\<rparr>)
      else (case (before, after) of
          (Some b, Some a) \<Rightarrow> rec b a sub_path
        | _ \<Rightarrow> skip))"

definition diff_property_names :: "rec_call \<Rightarrow> schema_node \<Rightarrow> schema_node \<Rightarrow> string \<Rightarrow> string \<Rightarrow> string \<Rightarrow> string \<Rightarrow> engine step" where
  "diff_property_names rec old new k w d path =
     diff_optional_schema rec (property_names old) (property_names new) PROPERTY_NAMES_CHANGED k d
       (w @ path @ '': property names are now constrained'')
       (w @ path @ '': the constraint on property names was removed'')
       (path @ ''/propertyNames'')"

definition diff_bound :: "int option \<Rightarrow> int option \<Rightarrow> string \<Rightarrow> string \<Rightarrow> string \<Rightarrow> string \<Rightarrow> engine step" where
  "diff_bound before after keyword k label d =
     only_if (before \<noteq> after)
       (add_change CONTAINS_CHANGED k d
          (label @ '': '' @ keyword @ '' changed '' @ py_repr (int_val before) @ '' -> '' @ py_repr (int_val after))
          (no_args\<lparr>old_value := int_val before, new_value := int_val after\<rparr>))"

definition diff_contains :: "rec_call \<Rightarrow> schema_node \<Rightarrow> schema_node \<Rightarrow> string \<Rightarrow> string \<Rightarrow> string \<Rightarrow> string \<Rightarrow> engine step" where
  "diff_contains rec old new k w d path = steps [
     diff_optional_schema rec (contains_schema old) (contains_schema new) CONTAINS_CHANGED k d
       (w @ path @ '': the array must now contain a matching member'')
       (w @ path @ '': the `contains` requirement was removed'')
       (path @ ''/contains''),
     diff_bound (sn_min_contains (facts old)) (sn_min_contains (facts new)) ''minContains'' k (w @ path) d,
     diff_bound (sn_max_contains (facts old)) (sn_max_contains (facts new)) ''maxContains'' k (w @ path) d]"

definition diff_conditional :: "rec_call \<Rightarrow> schema_node option \<Rightarrow> schema_node option \<Rightarrow> string \<Rightarrow> string \<Rightarrow> string \<Rightarrow> string \<Rightarrow> string \<Rightarrow> engine step" where
  "diff_conditional rec before after keyword k w d path =
     diff_optional_schema rec before after CONDITIONAL_SCHEMA_CHANGED k d
       (w @ path @ '': a `'' @ keyword @ ''` branch was added'')
       (w @ path @ '': the `'' @ keyword @ ''` branch was removed'')
       (path @ ''/'' @ keyword)"

definition diff_conditionals :: "rec_call \<Rightarrow> schema_node \<Rightarrow> schema_node \<Rightarrow> string \<Rightarrow> string \<Rightarrow> string \<Rightarrow> string \<Rightarrow> engine step" where
  "diff_conditionals rec old new k w d path = steps [
     diff_conditional rec (if_schema old) (if_schema new) ''if'' k w d path,
     diff_conditional rec (then_schema old) (then_schema new) ''then'' k w d path,
     diff_conditional rec (else_schema old) (else_schema new) ''else'' k w d path]"

definition diff_2020_12 :: "rec_call \<Rightarrow> schema_node \<Rightarrow> schema_node \<Rightarrow> string \<Rightarrow> string \<Rightarrow> string \<Rightarrow> string \<Rightarrow> engine step" where
  "diff_2020_12 rec old new k w d path = steps [
     diff_dependent_required old new k (w @ path) d,
     diff_dependent_schemas rec old new k w d path,
     diff_prefix_items rec old new k w d path,
     diff_pattern_properties rec old new k w d path,
     diff_property_names rec old new k w d path,
     diff_contains rec old new k w d path,
     diff_conditionals rec old new k w d path]"

section \<open>The whole comparison\<close>

definition diff_schema_body ::
  "rec_call \<Rightarrow> string \<Rightarrow> string \<Rightarrow> string \<Rightarrow> schema_node \<Rightarrow> schema_node \<Rightarrow> string \<Rightarrow> engine step" where
  "diff_schema_body rec k w d old new path =
     (let label = w @ path in steps [
        only_if (sn_field_numbers (facts old) \<noteq> [] \<or> sn_field_numbers (facts new) \<noteq> [])
          (diff_protobuf_schema old new k label d),
        diff_default old new k label d,
        diff_nullable old new k label d,
        diff_type old new k label d,
        diff_format old new k label d,
        diff_enum old new k label d,
        diff_constraints old new k label d,
        diff_removed_properties old new k label d,
        diff_added_properties old new k label d,
        diff_common_properties rec old new path,
        diff_became_required old new k label d,
        diff_became_optional old new k label d,
        diff_items rec old new path,
        diff_discriminator old new k label d,
        diff_composition rec old new path,
        diff_2020_12 rec old new k w d path])"

text \<open>
  The recursive calls are on direct sub-schemas of the old node; the body depends on
  \<open>rec\<close> there only. This is the congruence the recursion terminates by.
\<close>

definition agree_on :: "schema_node \<Rightarrow> rec_call \<Rightarrow> rec_call \<Rightarrow> bool" where
  "agree_on old rec rec' \<longleftrightarrow> (\<forall>c \<in> set (sub_schemas old). rec c = rec' c)"

lemma agree_onD: "agree_on old rec rec' \<Longrightarrow> c \<in> set (sub_schemas old) \<Longrightarrow> rec c n p = rec' c n p"
  by (simp add: agree_on_def)

lemma enumerate_zip_old: "(i, b, a) \<in> set (List.enumerate n (zip xs ys)) \<Longrightarrow> b \<in> set xs"
  by (auto simp: enumerate_eq_zip dest: set_zip_rightD set_zip_leftD)

lemma sub_schema_members:
  "dict_get (properties n) x = Some c \<Longrightarrow> c \<in> set (sub_schemas n)"
  "dict_get (pattern_properties n) x = Some c \<Longrightarrow> c \<in> set (sub_schemas n)"
  "dict_get (dependent_schemas n) x = Some c \<Longrightarrow> c \<in> set (sub_schemas n)"
  "items n = Some c \<Longrightarrow> c \<in> set (sub_schemas n)"
  "property_names n = Some c \<Longrightarrow> c \<in> set (sub_schemas n)"
  "contains_schema n = Some c \<Longrightarrow> c \<in> set (sub_schemas n)"
  "if_schema n = Some c \<Longrightarrow> c \<in> set (sub_schemas n)"
  "then_schema n = Some c \<Longrightarrow> c \<in> set (sub_schemas n)"
  "else_schema n = Some c \<Longrightarrow> c \<in> set (sub_schemas n)"
  "c \<in> set (list_or_empty (one_of n)) \<Longrightarrow> c \<in> set (sub_schemas n)"
  "c \<in> set (list_or_empty (any_of n)) \<Longrightarrow> c \<in> set (sub_schemas n)"
  "c \<in> set (list_or_empty (all_of n)) \<Longrightarrow> c \<in> set (sub_schemas n)"
  "c \<in> set (list_or_empty (prefix_items n)) \<Longrightarrow> c \<in> set (sub_schemas n)"
  by (auto simp: sub_schemas_def opt_nodes_def dest!: map_of_SomeD
      intro: image_eqI [where f = snd and x = "(x, c)"])

lemma sub_schema_variants:
  "set (list_or_empty (one_of n)) \<subseteq> set (sub_schemas n)"
  "set (list_or_empty (any_of n)) \<subseteq> set (sub_schemas n)"
  "set (list_or_empty (all_of n)) \<subseteq> set (sub_schemas n)"
  by (auto simp: sub_schemas_def)

lemma diff_variants_cong:
  assumes "agree_on n rec rec'" and "set (list_or_empty os) \<subseteq> set (sub_schemas n)"
  shows "diff_variants rec attr os ns path = diff_variants rec' attr os ns path"
  unfolding diff_variants_def Let_def
  using assms
  by (intro arg_cong [where f = "only_if _"] for_each_cong refl)
    (auto dest!: enumerate_zip_old intro: agree_onD)

lemma diff_optional_schema_cong:
  assumes "agree_on n rec rec'" and "\<And>c. before = Some c \<Longrightarrow> c \<in> set (sub_schemas n)"
  shows "diff_optional_schema rec before after ck k d a r p = diff_optional_schema rec' before after ck k d a r p"
  using assms by (auto simp: diff_optional_schema_def agree_on_def split: option.splits)

lemma diff_schema_body_cong [fundef_cong]:
  assumes "k = k'" "w = w'" "d = d'" "old = old'" "new = new'" "path = path'"
    and "\<And>c n p. c \<in> set (sub_schemas old') \<Longrightarrow> rec c n p = rec' c n p"
  shows "diff_schema_body rec k w d old new path = diff_schema_body rec' k' w' d' old' new' path'"
proof -
  have agree: "agree_on old rec rec'" using assms by (auto simp: agree_on_def fun_eq_iff)
  note rec_eq = agree_onD [OF agree]
  have "diff_common_properties rec old new path = diff_common_properties rec' old new path"
    unfolding diff_common_properties_def
    by (intro for_each_cong with_key_cong refl rec_eq) (rule sub_schema_members)
  moreover have "diff_items rec old new path = diff_items rec' old new path"
    unfolding diff_items_def by (auto split: option.splits intro: rec_eq sub_schema_members)
  moreover have "diff_composition rec old new path = diff_composition rec' old new path"
    unfolding diff_composition_def by (simp add: diff_variants_cong [OF agree] sub_schema_variants)
  moreover have "diff_2020_12 rec old new k w d path = diff_2020_12 rec' old new k w d path"
  proof -
    have "diff_dependent_schemas rec old new k w d path = diff_dependent_schemas rec' old new k w d path"
      unfolding diff_dependent_schemas_def
      by (intro for_each_cong refl) (auto split: option.splits intro: rec_eq sub_schema_members)
    moreover have "diff_prefix_items rec old new k w d path = diff_prefix_items rec' old new k w d path"
      unfolding diff_prefix_items_def Let_def
      by (auto intro!: for_each_cong rec_eq sub_schema_members dest!: enumerate_zip_old)
    moreover have "diff_pattern_properties rec old new k w d path = diff_pattern_properties rec' old new k w d path"
      unfolding diff_pattern_properties_def
      by (intro for_each_cong refl) (auto split: option.splits intro: rec_eq sub_schema_members)
    moreover have "diff_property_names rec old new k w d path = diff_property_names rec' old new k w d path"
      "diff_contains rec old new k w d path = diff_contains rec' old new k w d path"
      "diff_conditionals rec old new k w d path = diff_conditionals rec' old new k w d path"
      unfolding diff_property_names_def diff_contains_def diff_conditionals_def diff_conditional_def
      by (simp_all only: diff_optional_schema_cong [OF agree sub_schema_members(5)]
          diff_optional_schema_cong [OF agree sub_schema_members(6)]
          diff_optional_schema_cong [OF agree sub_schema_members(7)]
          diff_optional_schema_cong [OF agree sub_schema_members(8)]
          diff_optional_schema_cong [OF agree sub_schema_members(9)])
    ultimately show ?thesis by (simp add: diff_2020_12_def)
  qed
  ultimately show ?thesis using assms(1-6) by (simp add: diff_schema_body_def)
qed

function diff_schema ::
  "string \<Rightarrow> string \<Rightarrow> string \<Rightarrow> schema_node \<Rightarrow> schema_node \<Rightarrow> string \<Rightarrow> engine step" where
  "diff_schema k w d old new path =
     diff_schema_body (\<lambda>o_sub n_sub sub_path. diff_schema k w d o_sub n_sub sub_path) k w d old new path"
  by pat_completeness auto
termination
  by (relation "measure (\<lambda>(k, w, d, old, new, path). size old)") (simp_all add: sub_schema_size)

declare diff_schema.simps [simp del]


end
