(* ===== verification/DiffOperation.thy ===== *)
theory DiffOperation
  imports DiffSchema
begin

text \<open>
  The operation half of \<open>apiverity/diff/engine.py\<close>: parameters, gRPC signatures, request
  bodies, responses, streaming media, security, SOAP and MCP facts, and \<open>_diff_operation\<close>
  that runs them in order. \<open>run\<close> and \<open>diff_services\<close> are in \<open>DiffRun\<close>.
\<close>

section \<open>Parameters\<close>

definition index_parameters :: "parameter list \<Rightarrow> (string \<times> string, parameter) dict" where
  "index_parameters params = dict_of (map (\<lambda>p. ((p_name p, location_value (p_location p)), p)) params)"

definition diff_removed_parameter :: "string \<Rightarrow> string \<times> string \<Rightarrow> parameter \<Rightarrow> engine step" where
  "diff_removed_parameter k ident p =
     add_change PARAMETER_REMOVED k ''request''
       (''parameter '' @ quoted (fst ident) @ '' ('' @ snd ident @ '') was removed'')
       (no_args\<lparr>old_location := p_source_location p, breaking_hint := Some
          ''clients still sending this parameter may receive errors''\<rparr>)"

definition diff_added_parameter :: "string \<Rightarrow> string \<times> string \<Rightarrow> parameter \<Rightarrow> engine step" where
  "diff_added_parameter k ident p =
     add_change PARAMETER_ADDED k ''request''
       (''parameter '' @ quoted (fst ident) @ '' ('' @ snd ident @ '') was added''
        @ (if p_required p then '' (required)'' else []))
       (no_args\<lparr>new_location := p_source_location p, breaking_hint :=
          (if p_required p then Some ''new required parameter: existing clients will fail'' else None)\<rparr>)"

definition diff_common_parameter :: "string \<Rightarrow> string \<times> string \<Rightarrow> parameter \<Rightarrow> parameter \<Rightarrow> engine step" where
  "diff_common_parameter k ident p_old p_new =
     (let name = fst ident; loc = snd ident;
          before = schema_summary (p_schema_node p_old); after = schema_summary (p_schema_node p_new);
          locations = no_args\<lparr>old_location := p_source_location p_old,
                              new_location := p_source_location p_new\<rparr>
      in steps [
        only_if (p_required p_old \<noteq> p_required p_new)
          (add_change PARAMETER_REQUIREDNESS k ''request''
             (''parameter '' @ quoted name @ '' ('' @ loc @ '') requiredness changed ''
              @ bool_str (p_required p_old) @ '' -> '' @ bool_str (p_required p_new))
             (locations\<lparr>old_value := PBool (p_required p_old), new_value := PBool (p_required p_new),
                breaking_hint :=
                  (if p_required p_new then Some
                     ''parameter became required: existing clients omitting it will fail''
                   else None)\<rparr>)),
        (if before \<noteq> after then
           add_change PARAMETER_TYPE_CHANGED k ''request''
             (''parameter '' @ quoted name @ '' ('' @ loc @ '') type changed ''
              @ quoted before @ '' -> '' @ quoted after)
             (locations\<lparr>old_value := PStr before, new_value := PStr after\<rparr>)
         else (case (p_schema_node p_old, p_schema_node p_new) of
             (Some o_schema, Some n_schema) \<Rightarrow>
               diff_schema k (''request parameter '' @ quoted name) ''request'' o_schema n_schema []
           | _ \<Rightarrow> skip))])"

definition diff_parameters :: "operation \<Rightarrow> operation \<Rightarrow> string \<Rightarrow> engine step" where
  "diff_parameters old new k =
     (let old_p = index_parameters (op_parameters old); new_p = index_parameters (op_parameters new) in
      steps [
        for_each (sorted_diff (keys old_p) (keys new_p)) (\<lambda>ident.
          with_key old_p ident (diff_removed_parameter k ident)),
        for_each (sorted_diff (keys new_p) (keys old_p)) (\<lambda>ident.
          with_key new_p ident (diff_added_parameter k ident)),
        for_each (sorted_inter (keys old_p) (keys new_p)) (\<lambda>ident.
          with_key old_p ident (\<lambda>p_old. with_key new_p ident (\<lambda>p_new.
            diff_common_parameter k ident p_old p_new)))])"

section \<open>gRPC signatures\<close>

definition describe_streaming :: "operation \<Rightarrow> string" where
  "describe_streaming op =
     (if op_client_streaming op \<and> op_server_streaming op then ''bidirectional streaming''
      else if op_client_streaming op then ''client streaming''
      else if op_server_streaming op then ''server streaming''
      else ''unary'')"

definition diff_grpc_signature :: "operation \<Rightarrow> operation \<Rightarrow> string \<Rightarrow> engine step" where
  "diff_grpc_signature old new k =
     (if op_kind old \<noteq> GRPC_RPC \<or> op_kind new \<noteq> GRPC_RPC then skip
      else if (op_client_streaming old, op_server_streaming old)
            = (op_client_streaming new, op_server_streaming new) then skip
      else add_change RPC_STREAMING_CHANGED k ''meta''
        (''RPC changed from '' @ describe_streaming old @ '' to '' @ describe_streaming new)
        (no_args\<lparr>old_value := PStr (describe_streaming old), new_value := PStr (describe_streaming new),
           old_location := op_source_location old, new_location := op_source_location new,
           breaking_hint := Some
             (''generated clients call this method with the wrong cardinality ''
              @ ''and fail at the transport'')\<rparr>))"

section \<open>Streaming media\<close>

definition encoding_types :: "streaming_media \<Rightarrow> (string, string option) dict" where
  "encoding_types m = map (\<lambda>(name, e). (name, en_content_type e)) (st_item_encoding m)"

definition diff_stream_item :: "streaming_media \<Rightarrow> streaming_media \<Rightarrow> string \<Rightarrow> string \<Rightarrow> string \<Rightarrow> string \<Rightarrow> engine step" where
  "diff_stream_item old_media new_media media k w d =
     (case (st_item_schema old_media, st_item_schema new_media) of
        (Some o_item, Some n_item) \<Rightarrow>
          diff_schema k (w @ '' stream item ('' @ media @ '')'') d o_item n_item []
      | (Some _, None) \<Rightarrow>
          add_change STREAM_SHAPE_CHANGED k d
            (w @ '' '' @ quoted media @ '' no longer declares `itemSchema`'')
            (no_args\<lparr>old_value := PStr ''itemSchema'', breaking_hint := Some
               (''nothing describes one item any more, so no rule, mock or drift ''
                @ ''check can see the payload'')\<rparr>)
      | (None, Some _) \<Rightarrow>
          add_change STREAM_SHAPE_CHANGED k d
            (w @ '' '' @ quoted media @ '' now declares `itemSchema`'')
            (no_args\<lparr>new_value := PStr ''itemSchema''\<rparr>)
      | (None, None) \<Rightarrow> skip)"

definition diff_stream_encoding :: "streaming_media \<Rightarrow> streaming_media \<Rightarrow> string \<Rightarrow> string \<Rightarrow> string \<Rightarrow> string \<Rightarrow> engine step" where
  "diff_stream_encoding old_media new_media media k w d =
     (let old_types = encoding_types old_media; new_types = encoding_types new_media in
      for_each (sorted_inter (keys old_types) (keys new_types)) (\<lambda>name.
        with_key old_types name (\<lambda>was. with_key new_types name (\<lambda>now.
          only_if (was \<noteq> now)
            (add_change STREAM_SHAPE_CHANGED k d
               (w @ '' '' @ quoted media @ '': encoding for ''
                @ (if name \<noteq> [] then quoted name else ''the item'') @ '' changed ''
                @ opt_str was @ '' -> '' @ opt_str now)
               (no_args\<lparr>old_value := opt_val PStr was, new_value := opt_val PStr now,
                  breaking_hint := Some
                    ''the part still arrives and the parser on the other side fails''\<rparr>))))))"

definition diff_stream_prefix :: "streaming_media \<Rightarrow> streaming_media \<Rightarrow> string \<Rightarrow> string \<Rightarrow> string \<Rightarrow> string \<Rightarrow> engine step" where
  "diff_stream_prefix old_media new_media media k w d =
     (let before = int (length (st_prefix_encoding old_media));
          after = int (length (st_prefix_encoding new_media))
      in only_if (before \<noteq> after)
        (add_change STREAM_SHAPE_CHANGED k d
           (w @ '' '' @ quoted media @ '': the number of leading parts changed ''
            @ int_str before @ '' -> '' @ int_str after)
           (no_args\<lparr>old_value := PInt before, new_value := PInt after, breaking_hint := Some
              (''`prefixEncoding` is positional, so a reader counting parts reads ''
               @ ''the wrong one from here on'')\<rparr>)))"

definition diff_sequentiality :: "string list \<Rightarrow> string list \<Rightarrow> string \<Rightarrow> string \<Rightarrow> string \<Rightarrow> engine step" where
  "diff_sequentiality old_media_types new_media_types k w d =
     (let old_sequential = filter is_sequential_media old_media_types;
          new_sequential = filter is_sequential_media new_media_types
      in only_if (old_media_types \<noteq> [] \<and> new_media_types \<noteq> []
                  \<and> (old_sequential \<noteq> []) \<noteq> (new_sequential \<noteq> []))
        (add_change STREAM_SHAPE_CHANGED k d
           (w @ '' changed from ''
            @ (if new_sequential \<noteq> [] then ''a single document to a sequence of items''
               else ''a sequence of items to a single document'')
            @ '' ('' @ str_list_repr (sorted_set old_media_types) @ '' -> ''
            @ str_list_repr (sorted_set new_media_types) @ '')'')
           (no_args\<lparr>old_value := str_list (sorted_set old_media_types),
              new_value := str_list (sorted_set new_media_types), breaking_hint := Some
                (''every client has to be rewritten: one waits for the body to end and ''
                 @ ''parses once, the other parses an item at a time'')\<rparr>)))"

definition diff_streaming ::
  "(string, streaming_media) dict \<Rightarrow> (string, streaming_media) dict \<Rightarrow> (string, schema_node) dict \<Rightarrow>
   (string, schema_node) dict \<Rightarrow> string \<Rightarrow> string \<Rightarrow> string \<Rightarrow> engine step" where
  "diff_streaming old_streaming new_streaming old_content new_content k w d = steps [
     for_each (sorted_inter (keys old_streaming) (keys new_streaming)) (\<lambda>media.
       with_key old_streaming media (\<lambda>old_media. with_key new_streaming media (\<lambda>new_media. steps [
         diff_stream_item old_media new_media media k w d,
         diff_stream_encoding old_media new_media media k w d,
         diff_stream_prefix old_media new_media media k w d]))),
     diff_sequentiality (keys old_content @ keys old_streaming) (keys new_content @ keys new_streaming) k w d]"

section \<open>Request bodies\<close>

definition payload_direction_of :: "operation \<Rightarrow> string" where
  "payload_direction_of op =
     (if op_kind op = EVENT \<and> op_direction op = Some ''send'' then ''response'' else ''request'')"

definition diff_request_media :: "request_body \<Rightarrow> request_body \<Rightarrow> string \<Rightarrow> string \<Rightarrow> engine step" where
  "diff_request_media old_body new_body k d =
     (let old_media = keys (rb_content old_body); new_media = keys (rb_content new_body) in steps [
        for_each (sorted_inter old_media new_media) (\<lambda>media.
          with_key (rb_content old_body) media (\<lambda>o_schema. with_key (rb_content new_body) media (\<lambda>n_schema.
            diff_schema k ((if d = ''response'' then ''message payload'' else ''request body'')
              @ '' ('' @ media @ '')'') d o_schema n_schema []))),
        for_each (sorted_diff old_media new_media) (\<lambda>media.
          add_change REQUEST_SCHEMA_CHANGED k ''request''
            (''request media type '' @ quoted media @ '' removed'')
            (no_args\<lparr>old_value := PStr media, breaking_hint := Some
               (''clients sending Content-Type: '' @ media @ '' will be rejected; ''
                @ ''keep accepting it or version the operation'')\<rparr>)),
        for_each (sorted_diff new_media old_media) (\<lambda>media.
          add_change REQUEST_SCHEMA_CHANGED k ''request''
            (''request media type '' @ quoted media @ '' added'')
            (no_args\<lparr>new_value := PStr media\<rparr>))])"

definition diff_body_presence :: "request_body option \<Rightarrow> request_body option \<Rightarrow> string \<Rightarrow> engine step" where
  "diff_body_presence old_body new_body k =
     add_change REQUEST_SCHEMA_CHANGED k ''request''
       (''request body '' @ (if new_body = None then ''removed'' else ''added''))
       (no_args\<lparr>
          old_location := Option.bind old_body rb_source_location,
          new_location := Option.bind new_body rb_source_location,
          breaking_hint := (case new_body of
              None \<Rightarrow> Some ''request body removed: clients sending bodies may break''
            | Some b \<Rightarrow> if rb_required b then Some ''request body added and required'' else None)\<rparr>)"

definition diff_request_body :: "operation \<Rightarrow> operation \<Rightarrow> string \<Rightarrow> engine step" where
  "diff_request_body old new k =
     (let d = payload_direction_of (if op_request_body new \<noteq> None then new else old) in
      case (op_request_body old, op_request_body new) of
        (None, None) \<Rightarrow> skip
      | (Some old_body, Some new_body) \<Rightarrow> steps [
          diff_request_media old_body new_body k d,
          diff_streaming (rb_streaming old_body) (rb_streaming new_body)
            (rb_content old_body) (rb_content new_body) k
            (if d \<noteq> ''response'' then ''request body'' else ''message payload'') d,
          only_if (rb_required old_body \<noteq> rb_required new_body)
            (add_change REQUEST_SCHEMA_CHANGED k ''request''
               (''request body requiredness changed '' @ bool_str (rb_required old_body) @ '' -> ''
                @ bool_str (rb_required new_body))
               (no_args\<lparr>breaking_hint :=
                  (if rb_required new_body then Some ''request body became required'' else None)\<rparr>))]
      | (old_body, new_body) \<Rightarrow> diff_body_presence old_body new_body k)"

section \<open>Responses\<close>

definition index_responses :: "operation \<Rightarrow> (string, response) dict" where
  "index_responses op = dict_of (map (\<lambda>r. (rs_status r, r)) (op_responses op))"

definition diff_response_headers :: "response \<Rightarrow> response \<Rightarrow> string \<Rightarrow> string \<Rightarrow> engine step" where
  "diff_response_headers r_old r_new status k = steps [
     for_each (sorted_diff (keys (rs_headers r_old)) (keys (rs_headers r_new))) (\<lambda>header.
       add_change HEADER_REMOVED k ''response''
         (''response '' @ status @ '' header '' @ quoted header @ '' was removed'')
         (no_args\<lparr>old_location := rs_source_location r_old\<rparr>)),
     for_each (sorted_diff (keys (rs_headers r_new)) (keys (rs_headers r_old))) (\<lambda>header.
       add_change HEADER_ADDED k ''response''
         (''response '' @ status @ '' header '' @ quoted header @ '' was added'')
         (no_args\<lparr>new_location := rs_source_location r_new\<rparr>))]"

definition diff_response_media :: "response \<Rightarrow> response \<Rightarrow> string \<Rightarrow> string \<Rightarrow> engine step" where
  "diff_response_media r_old r_new status k = steps [
     for_each (sorted_inter (keys (rs_content r_old)) (keys (rs_content r_new))) (\<lambda>media.
       with_key (rs_content r_old) media (\<lambda>o_schema. with_key (rs_content r_new) media (\<lambda>n_schema.
         diff_schema k (''response '' @ status @ '' body ('' @ media @ '')'') ''response''
           o_schema n_schema []))),
     for_each (sorted_symdiff (keys (rs_content r_old)) (keys (rs_content r_new))) (\<lambda>media.
       add_change RESPONSE_SCHEMA_CHANGED k ''response''
         (''response '' @ status @ '' media type '' @ quoted media @ '' ''
          @ (if media \<in> set (keys (rs_content r_old)) then ''removed'' else ''added''))
         no_args)]"

definition diff_common_response :: "response \<Rightarrow> response \<Rightarrow> string \<Rightarrow> string \<Rightarrow> engine step" where
  "diff_common_response r_old r_new status k = steps [
     diff_response_headers r_old r_new status k,
     diff_response_media r_old r_new status k,
     diff_streaming (rs_streaming r_old) (rs_streaming r_new) (rs_content r_old) (rs_content r_new) k
       (''response '' @ status) ''response'']"

definition diff_responses :: "operation \<Rightarrow> operation \<Rightarrow> string \<Rightarrow> engine step" where
  "diff_responses old new k =
     (let old_r = index_responses old; new_r = index_responses new in steps [
        for_each (sorted_diff (keys old_r) (keys new_r)) (\<lambda>status. with_key old_r status (\<lambda>r.
          add_change RESPONSE_REMOVED k ''response''
            (''response status '' @ quoted status @ '' was removed'')
            (no_args\<lparr>old_location := rs_source_location r, breaking_hint := Some
               ''clients handling this status will encounter undeclared responses''\<rparr>))),
        for_each (sorted_diff (keys new_r) (keys old_r)) (\<lambda>status. with_key new_r status (\<lambda>r.
          add_change RESPONSE_ADDED k ''response''
            (''response status '' @ quoted status @ '' was added'')
            (no_args\<lparr>new_location := rs_source_location r\<rparr>))),
        for_each (sorted_inter (keys old_r) (keys new_r)) (\<lambda>status.
          with_key old_r status (\<lambda>r_old. with_key new_r status (\<lambda>r_new.
            diff_common_response r_old r_new status k)))])"

section \<open>Security, SOAP and MCP facts\<close>

definition sec_str :: "operation \<Rightarrow> security_requirement list \<Rightarrow> string list" where
  "sec_str op global_security =
     sort (map sq_scheme_name (case op_security op of None \<Rightarrow> global_security | Some reqs \<Rightarrow> reqs))"

definition diff_security :: "service \<Rightarrow> service \<Rightarrow> operation \<Rightarrow> operation \<Rightarrow> string \<Rightarrow> engine step" where
  "diff_security old_svc new_svc old new k =
     (let o_sec = sec_str old (svc_global_security old_svc);
          n_sec = sec_str new (svc_global_security new_svc)
      in only_if (o_sec \<noteq> n_sec)
        (add_change SECURITY_CHANGED k ''security''
           (''security requirements changed '' @ str_list_repr o_sec @ '' -> '' @ str_list_repr n_sec)
           (no_args\<lparr>old_value := str_list o_sec, new_value := str_list n_sec,
              old_location := op_source_location old, new_location := op_source_location new,
              breaking_hint := Some ''clients without the new credentials will fail authentication''\<rparr>)))"

definition at_operations :: "operation \<Rightarrow> operation \<Rightarrow> add_args" where
  "at_operations old new =
     no_args\<lparr>old_location := op_source_location old, new_location := op_source_location new\<rparr>"

definition value_or_none_repr :: "pyval \<Rightarrow> string" where
  "value_or_none_repr v = py_repr (if truthy v then v else PStr ''(none)'')"

definition diff_soap_facts :: "(string, pyval) dict \<Rightarrow> (string, pyval) dict \<Rightarrow> operation \<Rightarrow> operation \<Rightarrow> string \<Rightarrow> engine step" where
  "diff_soap_facts old_soap new_soap old new k =
     (let before = val_get old_soap ''soap_action''; after = val_get new_soap ''soap_action'';
          o_style = val_get old_soap ''style''; n_style = val_get new_soap ''style'';
          o_version = val_get old_soap ''soap_version''; n_version = val_get new_soap ''soap_version''
      in steps [
        only_if (\<not> py_eq before after \<and> (truthy before \<or> truthy after))
          (add_change SOAP_ACTION_CHANGED k ''meta''
             (''SOAPAction for '' @ quoted k @ '' changed from '' @ value_or_none_repr before
              @ '' to '' @ value_or_none_repr after)
             ((at_operations old new)\<lparr>old_value := before, new_value := after\<rparr>)),
        only_if (\<not> py_eq o_style n_style)
          (add_change SOAP_STYLE_CHANGED k ''request''
             (''binding style for '' @ quoted k @ '' changed from '' @ py_repr o_style
              @ '' to '' @ py_repr n_style)
             ((at_operations old new)\<lparr>old_value := o_style, new_value := n_style\<rparr>)),
        only_if (\<not> py_eq o_version n_version)
          (add_change SOAP_VERSION_CHANGED k ''meta''
             (''SOAP version for '' @ quoted k @ '' changed from '' @ py_repr o_version
              @ '' to '' @ py_repr n_version)
             ((at_operations old new)\<lparr>old_value := o_version, new_value := n_version\<rparr>))])"

definition diff_soap_operation :: "operation \<Rightarrow> operation \<Rightarrow> string \<Rightarrow> engine step" where
  "diff_soap_operation old new k =
     (case (dict_or_empty (dict_get (op_bindings old) ''soap''),
            dict_or_empty (dict_get (op_bindings new) ''soap'')) of
        (Some old_soap, Some new_soap) \<Rightarrow> diff_soap_facts old_soap new_soap old new k
      | _ \<Rightarrow> skip)"

definition hint_word :: "pyval \<Rightarrow> string" where
  "hint_word v = (if v = PBool True then ''true'' else if v = PBool False then ''false'' else ''undeclared'')"

definition annotation_hints :: "string list" where
  "annotation_hints = [''readOnlyHint'', ''destructiveHint'', ''idempotentHint'', ''openWorldHint'']"

definition annotation_value :: "string \<Rightarrow> pyval \<Rightarrow> pyval" where
  "annotation_value hint v = PDict [(''annotation'', PStr hint), (''value'', v)]"

definition diff_annotations :: "(string, pyval) dict \<Rightarrow> (string, pyval) dict \<Rightarrow> operation \<Rightarrow> operation \<Rightarrow> string \<Rightarrow> engine step" where
  "diff_annotations old_ann new_ann old new k =
     for_each annotation_hints (\<lambda>hint.
       let before = val_get old_ann hint; after = val_get new_ann hint in
       only_if (\<not> py_eq before after)
         (add_change TOOL_ANNOTATION_CHANGED k ''meta''
            (''annotation '' @ quoted hint @ '' changed '' @ hint_word before @ '' -> '' @ hint_word after)
            ((at_operations old new)\<lparr>old_value := annotation_value hint before,
               new_value := annotation_value hint after\<rparr>)))"

definition diff_mcp_tool :: "operation \<Rightarrow> operation \<Rightarrow> string \<Rightarrow> engine step" where
  "diff_mcp_tool old new k =
     (case (dict_or_empty (dict_get (op_bindings old) ''mcp''),
            dict_or_empty (dict_get (op_bindings new) ''mcp'')) of
        (Some old_mcp, Some new_mcp) \<Rightarrow>
          (let had = truthy (val_get old_mcp ''declares_output_schema'');
               has = truthy (val_get new_mcp ''declares_output_schema'')
           in steps [
             (case (dict_or_empty (dict_get old_mcp ''annotations''),
                    dict_or_empty (dict_get new_mcp ''annotations'')) of
                (Some old_ann, Some new_ann) \<Rightarrow> diff_annotations old_ann new_ann old new k
              | _ \<Rightarrow> skip),
             only_if (had \<noteq> has)
               (add_change TOOL_OUTPUT_SCHEMA_CHANGED k ''response''
                  (if has then ''tool now declares an outputSchema, so its results must conform to it''
                   else ''tool no longer declares an outputSchema; consumers reading ''
                     @ ''structuredContent lose their guarantee'')
                  ((at_operations old new)\<lparr>old_value := PBool had, new_value := PBool has\<rparr>))])
      | _ \<Rightarrow> skip)"

section \<open>One operation\<close>

definition diff_deprecation :: "operation \<Rightarrow> operation \<Rightarrow> string \<Rightarrow> engine step" where
  "diff_deprecation old new k =
     (if \<not> op_deprecated old \<and> op_deprecated new then
        add_change DEPRECATION_ADDED k ''meta'' (''operation '' @ quoted k @ '' is now deprecated'')
          (no_args\<lparr>new_location := op_source_location new\<rparr>)
      else if op_deprecated old \<and> \<not> op_deprecated new then
        add_change DEPRECATION_REMOVED k ''meta'' (''operation '' @ quoted k @ '' deprecation was removed'')
          (no_args\<lparr>old_location := op_source_location old\<rparr>)
      else skip)"

definition diff_documentation :: "operation \<Rightarrow> operation \<Rightarrow> string \<Rightarrow> engine step" where
  "diff_documentation old new k =
     only_if (op_description old \<noteq> op_description new \<or> op_summary old \<noteq> op_summary new)
       (add_change (if op_kind old = MCP_TOOL then TOOL_DESCRIPTION_CHANGED else DESCRIPTION_CHANGED) k
          ''meta'' (''documentation changed for '' @ quoted k)
          (no_args\<lparr>old_value := opt_val PStr (str_or_opt (op_summary old) (op_description old)),
             new_value := opt_val PStr (str_or_opt (op_summary new) (op_description new))\<rparr>))"

definition examples_dict :: "operation \<Rightarrow> (string, pyval) dict" where
  "examples_dict op = dict_of (map (\<lambda>e. (ex_name e, ex_value e)) (op_examples op))"

definition diff_examples :: "operation \<Rightarrow> operation \<Rightarrow> string \<Rightarrow> engine step" where
  "diff_examples old new k =
     only_if (\<not> py_eq (PDict (examples_dict old)) (PDict (examples_dict new)))
       (add_change EXAMPLE_CHANGED k ''meta'' (''examples changed for '' @ quoted k)
          (no_args\<lparr>old_value := str_list (sorted_set (keys (examples_dict old))),
             new_value := str_list (sorted_set (keys (examples_dict new)))\<rparr>))"

definition diff_operation :: "service \<Rightarrow> service \<Rightarrow> operation \<Rightarrow> operation \<Rightarrow> engine step" where
  "diff_operation old_svc new_svc old new =
     (let k = key old in steps [
        diff_parameters old new k,
        diff_grpc_signature old new k,
        diff_request_body old new k,
        diff_responses old new k,
        diff_security old_svc new_svc old new k,
        diff_deprecation old new k,
        diff_documentation old new k,
        only_if (op_kind old = MCP_TOOL \<and> op_kind new = MCP_TOOL) (diff_mcp_tool old new k),
        only_if (op_kind old = SOAP_OPERATION \<and> op_kind new = SOAP_OPERATION)
          (diff_soap_operation old new k),
        diff_examples old new k])"

end
