(* ===== verification/DiffSchemaFacts.thy ===== *)
theory DiffSchemaFacts
  imports DiffSchema
begin

text \<open>
  What the recursive schema comparison guarantees: every change it records names the
  operation, direction and place it was called with; the only exception it can raise is a
  \<open>TypeError\<close>; a well-formed schema compared with itself records nothing; and a property
  removed at any depth of nested objects is recorded.
\<close>

section \<open>What a schema comparison may record\<close>

fun presence_kind :: "change_kind \<Rightarrow> bool" where
  "presence_kind OPERATION_ADDED = True"
| "presence_kind OPERATION_REMOVED = True"
| "presence_kind RPC_ADDED = True"
| "presence_kind RPC_REMOVED = True"
| "presence_kind k = False"

text \<open>The values of a \<open>DEPENDENT_REQUIRED_CHANGED\<close> are two lists of names.\<close>

definition name_lists :: "change \<Rightarrow> bool" where
  "name_lists c \<longleftrightarrow> (c_kind c = DEPENDENT_REQUIRED_CHANGED \<longrightarrow>
     (\<exists>before after. c_old_value c = str_list before \<and> c_new_value c = str_list after))"

definition schema_change :: "string \<Rightarrow> string \<Rightarrow> string \<Rightarrow> change \<Rightarrow> bool" where
  "schema_change k w d c \<longleftrightarrow>
     c_operation_key c = k \<and> c_direction c = d \<and> prefix w (c_description c)
     \<and> \<not> presence_kind (c_kind c) \<and> name_lists c"

fun is_type_error :: "py_error \<Rightarrow> bool" where
  "is_type_error (TypeError s) = True"
| "is_type_error e = False"

lemma name_lists_raw [simp]:
  "kind \<noteq> DEPENDENT_REQUIRED_CHANGED \<Longrightarrow> name_lists (raw_change kind k d desc args)"
  "name_lists (raw_change kind k d desc (args\<lparr>old_value := str_list xs, new_value := str_list ys\<rparr>))"
  "name_lists (raw_change kind k d desc
     (args\<lparr>old_value := str_list xs, new_value := str_list ys, breaking_hint := h\<rparr>))"
  by (auto simp: name_lists_def raw_change_def)

lemma schema_change_raw [simp]:
  "schema_change k w d (raw_change kind k' d' desc args) \<longleftrightarrow>
     k' = k \<and> d' = d \<and> prefix w desc \<and> \<not> presence_kind kind
     \<and> name_lists (raw_change kind k' d' desc args)"
  by (auto simp: schema_change_def raw_change_def)

lemma schema_kind_values [simp]: "schema_kind d \<noteq> DEPENDENT_REQUIRED_CHANGED"
  by (simp add: schema_kind_def)

lemma operation_kind_schema_kind [simp]: "\<not> presence_kind (schema_kind d)"
  by (simp add: schema_kind_def)

text \<open>
  What a comparison of two nodes may raise: an enum whose members do not hash or sort, or a
  discriminator mapping that is no dict. The lemmas below hold for any set \<open>E\<close> of exceptions
  that covers these.
\<close>

definition mapping_of :: "schema_node \<Rightarrow> (string, pyval) dict result" where
  "mapping_of n = dict_of_val (val_get (list_or_empty (sn_discriminator (facts n))) ''mapping'')"

definition enum_of :: "schema_node \<Rightarrow> pyval list" where
  "enum_of n = list_or_empty (sn_enum (facts n))"

definition covers :: "(py_error \<Rightarrow> bool) \<Rightarrow> schema_node \<Rightarrow> schema_node \<Rightarrow> bool" where
  "covers E old new \<longleftrightarrow>
     (\<forall>e. sorted_set_diff (enum_of old) (enum_of new) = Inl e \<or> sorted_set_diff (enum_of new) (enum_of old) = Inl e
        \<or> mapping_of old = Inl e \<or> mapping_of new = Inl e \<longrightarrow> E e)"

abbreviation schema_emitter :: "(py_error \<Rightarrow> bool) \<Rightarrow> string \<Rightarrow> string \<Rightarrow> string \<Rightarrow> engine step \<Rightarrow> bool" where
  "schema_emitter E k w d \<equiv> emitter E (schema_change k w d)"

lemma py_set_error: "py_set xs = Inl e \<Longrightarrow> is_type_error e"
  by (auto simp: py_set_def split: if_splits)

lemma sorted_set_diff_error: "sorted_set_diff xs ys = Inl e \<Longrightarrow> is_type_error e"
  by (auto simp: sorted_set_diff_def py_set_diff_def py_sorted_def bind_result_def
      dest: py_set_error split: sum.splits if_splits)

lemma dict_of_val_error: "dict_of_val v = Inl e \<Longrightarrow> is_type_error e"
  by (auto simp: dict_of_val_def split: if_splits pyval.splits)

lemma covers_type_error: "covers is_type_error old new"
  by (auto simp: covers_def mapping_of_def dest: sorted_set_diff_error dict_of_val_error)

lemma emitter_own_attributes:
  assumes "covers E old new"
  shows "schema_emitter E k w d (diff_default old new k (w @ p) d)"
    "schema_emitter E k w d (diff_nullable old new k (w @ p) d)"
    "schema_emitter E k w d (diff_type old new k (w @ p) d)"
    "schema_emitter E k w d (diff_format old new k (w @ p) d)"
    "schema_emitter E k w d (diff_enum old new k (w @ p) d)"
    "schema_emitter E k w d (diff_constraints old new k (w @ p) d)"
  using assms
  unfolding diff_default_def diff_nullable_def diff_type_def diff_format_def diff_enum_def
    diff_constraints_def diff_constraint_def Let_def covers_def enum_of_def
  by (auto intro!: emit_intro)

lemma emitter_properties:
  "schema_emitter E k w d (diff_removed_properties old new k (w @ p) d)"
  "schema_emitter E k w d (diff_added_properties old new k (w @ p) d)"
  "schema_emitter E k w d (diff_became_required old new k (w @ p) d)"
  "schema_emitter E k w d (diff_became_optional old new k (w @ p) d)"
  unfolding diff_removed_properties_def diff_added_properties_def diff_became_required_def
    diff_became_optional_def
  by (auto intro!: emit_intro)

lemma emitter_discriminator:
  assumes "covers E old new"
  shows "schema_emitter E k w d (diff_discriminator old new k (w @ p) d)"
  using assms
  unfolding diff_discriminator_def diff_mapping_removed_def diff_mapping_added_def
    diff_mapping_changed_def Let_def covers_def mapping_of_def
  by (auto intro!: emit_intro)

lemma emitter_protobuf: "schema_emitter E k w d (diff_protobuf_schema old new k (w @ p) d)"
  unfolding diff_protobuf_schema_def diff_field_numbers_def diff_unreserved_def diff_presence_def
    diff_oneofs_def diff_reservations_def Let_def
  by (auto intro!: emit_intro)

lemma enumerate_zip_new: "(i, b, a) \<in> set (List.enumerate n (zip xs ys)) \<Longrightarrow> a \<in> set ys"
  by (auto simp: enumerate_eq_zip dest: set_zip_rightD set_zip_leftD)

lemma emitter_optional_schema:
  assumes "\<And>c n. before = Some c \<Longrightarrow> after = Some n \<Longrightarrow> schema_emitter E k w d (rec c n q)"
    and "prefix w a" and "prefix w r" and "\<not> presence_kind ck"
    and "ck \<noteq> DEPENDENT_REQUIRED_CHANGED"
  shows "schema_emitter E k w d (diff_optional_schema rec before after ck k d a r q)"
  using assms unfolding diff_optional_schema_def by (auto intro!: emit_intro split: option.splits)

lemma emitter_variants:
  assumes "\<And>c n q. c \<in> set (list_or_empty os) \<Longrightarrow> n \<in> set (list_or_empty ns) \<Longrightarrow> schema_emitter E k w d (rec c n q)"
  shows "schema_emitter E k w d (diff_variants rec attr os ns path)"
  unfolding diff_variants_def Let_def
  by (auto intro!: emit_intro intro: assms dest: enumerate_zip_old enumerate_zip_new)

lemma emitter_2020_12_blocks:
  assumes rec: "\<And>c n q. c \<in> set (sub_schemas old) \<Longrightarrow> n \<in> set (sub_schemas new) \<Longrightarrow> schema_emitter E k w d (rec c n q)"
  shows "schema_emitter E k w d (diff_dependent_required old new k (w @ p) d)"
    "schema_emitter E k w d (diff_dependent_schemas rec old new k w d p)"
    "schema_emitter E k w d (diff_prefix_items rec old new k w d p)"
    "schema_emitter E k w d (diff_pattern_properties rec old new k w d p)"
    "schema_emitter E k w d (diff_property_names rec old new k w d p)"
    "schema_emitter E k w d (diff_contains rec old new k w d p)"
    "schema_emitter E k w d (diff_conditionals rec old new k w d p)"
proof -
  show "schema_emitter E k w d (diff_dependent_required old new k (w @ p) d)"
    unfolding diff_dependent_required_def Let_def by (auto intro!: emit_intro)
  show "schema_emitter E k w d (diff_dependent_schemas rec old new k w d p)"
    unfolding diff_dependent_schemas_def
    by (auto intro!: emit_intro intro: rec sub_schema_members split: option.splits)
  show "schema_emitter E k w d (diff_prefix_items rec old new k w d p)"
    unfolding diff_prefix_items_def Let_def
    by (auto intro!: emit_intro intro: rec sub_schema_members dest: enumerate_zip_old enumerate_zip_new)
  show "schema_emitter E k w d (diff_pattern_properties rec old new k w d p)"
    unfolding diff_pattern_properties_def
    by (auto intro!: emit_intro intro: rec sub_schema_members split: option.splits)
  show "schema_emitter E k w d (diff_property_names rec old new k w d p)"
    "schema_emitter E k w d (diff_contains rec old new k w d p)"
    "schema_emitter E k w d (diff_conditionals rec old new k w d p)"
    unfolding diff_property_names_def diff_contains_def diff_conditionals_def diff_conditional_def
      diff_bound_def
    by (auto intro!: emit_intro emitter_optional_schema rec dest: sub_schema_members)
qed

lemma emitter_rec_blocks:
  assumes rec: "\<And>c n q. c \<in> set (sub_schemas old) \<Longrightarrow> n \<in> set (sub_schemas new) \<Longrightarrow> schema_emitter E k w d (rec c n q)"
  shows "schema_emitter E k w d (diff_common_properties rec old new p)"
    "schema_emitter E k w d (diff_items rec old new p)"
    "schema_emitter E k w d (diff_composition rec old new p)"
    "schema_emitter E k w d (diff_2020_12 rec old new k w d p)"
proof -
  show "schema_emitter E k w d (diff_common_properties rec old new p)"
    unfolding diff_common_properties_def
    by (auto intro!: emit_intro intro: rec sub_schema_members)
  show "schema_emitter E k w d (diff_items rec old new p)"
    unfolding diff_items_def
    by (auto intro!: emit_intro intro: rec sub_schema_members split: option.splits)
  show "schema_emitter E k w d (diff_composition rec old new p)"
    unfolding diff_composition_def
    by (auto intro!: emit_intro emitter_variants rec dest: sub_schema_members)
  show "schema_emitter E k w d (diff_2020_12 rec old new k w d p)"
    unfolding diff_2020_12_def by (intro emitter_steps) (simp add: emitter_2020_12_blocks [OF rec])
qed

lemma emitter_schema_body:
  assumes cov: "covers E old new"
    and rec: "\<And>c n q. c \<in> set (sub_schemas old) \<Longrightarrow> n \<in> set (sub_schemas new) \<Longrightarrow> schema_emitter E k w d (rec c n q)"
  shows "schema_emitter E k w d (diff_schema_body rec k w d old new p)"
  unfolding diff_schema_body_def Let_def
  by (intro emitter_steps)
    (simp add: emitter_own_attributes [OF cov] emitter_properties emitter_discriminator [OF cov]
      emitter_rec_blocks [OF rec] emitter_only_if emitter_protobuf)

lemma emitter_diff_schema_on:
  assumes sub: "\<And>n c. Q n \<Longrightarrow> c \<in> set (sub_schemas n) \<Longrightarrow> Q c" and cov: "\<And>m n. Q m \<Longrightarrow> Q n \<Longrightarrow> covers E m n"
    and "Q old" and "Q new"
  shows "schema_emitter E k w d (diff_schema k w d old new p)"
  using assms(3,4)
proof (induction old arbitrary: new p rule: measure_induct_rule [where f = size])
  case (less old)
  have "schema_emitter E k w d (diff_schema_body (diff_schema k w d) k w d old new p)"
    using less sub by (intro emitter_schema_body cov less.IH sub_schema_size) auto
  then show ?case by (simp add: diff_schema.simps [of k w d old])
qed

lemma emitter_diff_schema: "schema_emitter is_type_error k w d (diff_schema k w d old new p)"
  by (rule emitter_diff_schema_on [of "\<lambda>_. True"]) (simp_all add: covers_type_error)

text \<open>
  Schemas no comparison of which raises: the members of each enum are all numbers or all
  strings, and each discriminator mapping is a dict.
\<close>

definition calm_enum :: "pyval list \<Rightarrow> bool" where
  "calm_enum vs \<longleftrightarrow> list_all is_num vs \<or> list_all is_str vs"

fun calm_schema :: "schema_node \<Rightarrow> bool" where
  "calm_schema n = (calm_enum (enum_of n) \<and> (case mapping_of n of Inl _ \<Rightarrow> False | Inr _ \<Rightarrow> True)
     \<and> list_all calm_schema (sub_schemas n))"

declare calm_schema.simps [simp del]

lemma is_num_hashable: "is_num v \<Longrightarrow> hashable v" and is_str_hashable: "is_str v \<Longrightarrow> hashable v"
  by (cases v; simp add: is_num_def num_of_def)+

lemma calm_set_diff:
  assumes "calm_enum xs" and "calm_enum ys"
  shows "\<exists>r. sorted_set_diff xs ys = Inr r"
proof -
  have "list_all hashable vs" if "calm_enum vs" for vs
    using that is_num_hashable is_str_hashable by (auto simp: calm_enum_def list_all_iff)
  then obtain zs where "py_set_diff xs ys = Inr zs" "set zs \<subseteq> set xs"
    using assms set_dedup_subset [of "[]" xs] by (auto simp: py_set_diff_def py_set_def)
  moreover from this(2) assms(1) have "comparable zs"
    by (auto simp: calm_enum_def comparable_def list_all_iff)
  ultimately show ?thesis by (simp add: sorted_set_diff_def py_sorted_def)
qed

lemma covers_calm: "calm_schema old \<Longrightarrow> calm_schema new \<Longrightarrow> covers (\<lambda>_. False) old new"
  using calm_set_diff [of "enum_of old" "enum_of new"] calm_set_diff [of "enum_of new" "enum_of old"]
  by (subst (asm) (1 2) calm_schema.simps) (auto simp: covers_def split: sum.splits)

lemma calm_schema_sub: "calm_schema n \<Longrightarrow> c \<in> set (sub_schemas n) \<Longrightarrow> calm_schema c"
  by (subst (asm) calm_schema.simps) (simp add: list_all_iff)

lemma emitter_calm_schema:
  "calm_schema old \<Longrightarrow> calm_schema new \<Longrightarrow> schema_emitter (\<lambda>_. False) k w d (diff_schema k w d old new p)"
  by (rule emitter_diff_schema_on [of calm_schema]) (auto intro: calm_schema_sub covers_calm)

section \<open>Comparing a schema with itself\<close>

text \<open>
  The one well-formedness the comparison needs, at every node: the discriminator's
  \<open>mapping\<close>, when present, is a dict, as the parser stores it.
\<close>

definition discriminator_ok :: "schema_facts \<Rightarrow> bool" where
  "discriminator_ok f =
     (case dict_of_val (val_get (list_or_empty (sn_discriminator f)) ''mapping'') of
        Inl _ \<Rightarrow> False | Inr _ \<Rightarrow> True)"

fun wf_schema :: "schema_node \<Rightarrow> bool" where
  "wf_schema n = (discriminator_ok (facts n) \<and> list_all wf_schema (sub_schemas n))"

declare wf_schema.simps [simp del]

lemma wf_schema_sub: "wf_schema n \<Longrightarrow> c \<in> set (sub_schemas n) \<Longrightarrow> wf_schema c"
  by (subst (asm) wf_schema.simps) (simp add: list_all_iff)

lemma wf_schema_discriminator: "wf_schema n \<Longrightarrow> discriminator_ok (facts n)"
  by (subst (asm) wf_schema.simps) simp

lemma only_if_skip [simp]: "only_if c skip = skip"
  by (simp add: only_if_def)

lemma self_own_attributes [simp]:
  "diff_default s s k l d = skip" "diff_nullable s s k l d = skip" "diff_type s s k l d = skip"
  "diff_format s s k l d = skip" "diff_enum s s k l d = skip" "diff_constraints s s k l d = skip"
  "diff_removed_properties s s k l d = skip" "diff_added_properties s s k l d = skip"
  "diff_became_required s s k l d = skip" "diff_became_optional s s k l d = skip"
  by (simp_all add: diff_default_def diff_nullable_def diff_type_def diff_format_def diff_enum_def
      diff_constraints_def diff_constraint_def diff_removed_properties_def diff_added_properties_def
      diff_became_required_def diff_became_optional_def Let_def for_each_skip)

lemma self_protobuf [simp]: "diff_protobuf_schema s s k l d = skip"
proof -
  have "diff_field_numbers s s k l d = skip"
    unfolding diff_field_numbers_def by (intro for_each_skip with_key_skip) auto
  moreover have "diff_unreserved s s k l d = skip" "diff_presence s s k l d = skip"
    "diff_oneofs s s k l d = skip" "diff_reservations s s k l d = skip"
    by (simp_all add: diff_unreserved_def diff_presence_def diff_oneofs_def diff_reservations_def
        Let_def steps_Cons_skip sorted_diff_def [of "[]"])
  ultimately show ?thesis by (simp add: diff_protobuf_schema_def steps_Cons_skip)
qed

lemma self_mapping_changed: "diff_mapping_changed m m k l d = skip"
  unfolding diff_mapping_changed_def by (intro for_each_skip with_key_skip) auto

lemma self_discriminator:
  assumes "discriminator_ok (facts s)"
  shows "diff_discriminator s s k l d = skip"
proof -
  from assms obtain m where
    "dict_of_val (val_get (list_or_empty (sn_discriminator (facts s))) ''mapping'') = Inr m"
    by (auto simp: discriminator_ok_def split: sum.splits)
  then show ?thesis
    by (simp add: diff_discriminator_def diff_mapping_removed_def diff_mapping_added_def Let_def
        self_mapping_changed steps_Cons_skip)
qed

lemma enumerate_zip_self: "(i, b, a) \<in> set (List.enumerate n (zip xs xs)) \<Longrightarrow> a = b \<and> b \<in> set xs"
  by (auto simp: enumerate_eq_zip zip_same_conv_map dest: set_zip_rightD)

lemma self_variants:
  assumes "\<And>c q. c \<in> set (list_or_empty vs) \<Longrightarrow> rec c c q = skip"
  shows "diff_variants rec attr vs vs path = skip"
proof -
  have "for_each (List.enumerate 0 (zip (list_or_empty vs) (list_or_empty vs))) (\<lambda>(i, o_v, n_v).
      rec o_v n_v (path @ ''/'' @ attr @ ''['' @ int_str (int i) @ '']'')) = skip"
    by (rule for_each_skip) (auto dest!: enumerate_zip_self intro: assms)
  then show ?thesis by (simp add: diff_variants_def Let_def)
qed

lemma self_optional_schema:
  assumes "\<And>c. v = Some c \<Longrightarrow> rec c c q = skip"
  shows "diff_optional_schema rec v v ck k d a r q = skip"
  using assms by (auto simp: diff_optional_schema_def split: option.splits)

lemma self_2020_12:
  assumes rec: "\<And>c q. c \<in> set (sub_schemas s) \<Longrightarrow> rec c c q = skip"
  shows "diff_2020_12 rec s s k w d p = skip"
proof -
  have "diff_dependent_required s s k (w @ p) d = skip"
    by (simp add: diff_dependent_required_def Let_def for_each_skip)
  moreover have "diff_dependent_schemas rec s s k w d p = skip"
    unfolding diff_dependent_schemas_def
    by (rule for_each_skip) (auto split: option.splits intro: rec sub_schema_members)
  moreover have "diff_prefix_items rec s s k w d p = skip"
    unfolding diff_prefix_items_def Let_def
    by (simp, rule for_each_skip)
      (auto dest!: enumerate_zip_self sub_schema_members(13) simp: rec)
  moreover have "diff_pattern_properties rec s s k w d p = skip"
    unfolding diff_pattern_properties_def
    by (rule for_each_skip) (auto simp: set_keys_eq_dom split: option.splits intro: rec sub_schema_members)
  moreover have "diff_property_names rec s s k w d p = skip" "diff_contains rec s s k w d p = skip"
    "diff_conditionals rec s s k w d p = skip"
    by (auto simp: diff_property_names_def diff_contains_def diff_conditionals_def
        diff_conditional_def diff_bound_def self_optional_schema rec sub_schema_members
        intro!: steps_skip)
  ultimately show ?thesis by (simp add: diff_2020_12_def steps_Cons_skip)
qed

lemma self_schema_body:
  assumes "discriminator_ok (facts s)"
    and rec: "\<And>c q. c \<in> set (sub_schemas s) \<Longrightarrow> rec c c q = skip"
  shows "diff_schema_body rec k w d s s p = skip"
proof -
  have "diff_common_properties rec s s p = skip"
    unfolding diff_common_properties_def
    by (intro for_each_skip with_key_skip) (auto intro: rec sub_schema_members)
  moreover have "diff_items rec s s p = skip"
    unfolding diff_items_def by (auto split: option.splits intro: rec sub_schema_members)
  moreover have "diff_composition rec s s p = skip"
    by (auto simp: diff_composition_def intro!: steps_skip self_variants rec
        dest: sub_schema_members(10,11,12))
  ultimately show ?thesis
    using assms by (simp add: diff_schema_body_def Let_def self_discriminator self_2020_12 steps_Cons_skip)
qed

lemma diff_schema_self: "wf_schema s \<Longrightarrow> diff_schema k w d s s p = skip"
proof (induction s arbitrary: p rule: measure_induct_rule [where f = size])
  case (less s)
  have "diff_schema_body (diff_schema k w d) k w d s s p = skip"
    using less by (intro self_schema_body) (auto intro: wf_schema_discriminator wf_schema_sub sub_schema_size)
  then show ?case by (simp add: diff_schema.simps [of k w d s])
qed

end
