(* ===== verification/DiffRun.thy ===== *)
theory DiffRun
  imports DiffOperation DiffSchemaFacts
begin

text \<open>
  \<open>DiffEngine.run\<close> and the whole-manifest facts of \<open>apiverity/diff/engine.py\<close>.
  \<open>_tool_shape\<close> hashes pydantic's \<open>model_dump_json\<close> of a body and of each response;
  pydantic is a third-party package, so its two dumps are the argument \<open>dumps\<close> of the
  definitions that use it, and no theorem assumes anything about them.
\<close>

record json_dumps =
  dump_body :: "request_body \<Rightarrow> string"
  dump_response :: "response \<Rightarrow> string"

definition tool_shape :: "json_dumps \<Rightarrow> operation \<Rightarrow> string" where
  "tool_shape dumps op =
     (let body = (case op_request_body op of None \<Rightarrow> [] | Some b \<Rightarrow> dump_body dumps b);
          responses = concat (sort (map (dump_response dumps) (op_responses op)))
      in sha256_hexdigest (body @ ''|'' @ responses))"

section \<open>The manifest\<close>

text \<open>Names of the tools of \<open>ops\<close> whose key is not among \<open>other_keys\<close>, sorted.\<close>

definition tools_missing_from :: "string list \<Rightarrow> operation list \<Rightarrow> string list" where
  "tools_missing_from other_keys ops = sort (map (\<lambda>op. opt_str (op_rpc_name op))
     (filter (\<lambda>op. op_kind op = MCP_TOOL \<and> truthy_str (op_rpc_name op) \<and> key op \<notin> set other_keys) ops))"

definition diff_truncated :: "string \<Rightarrow> (string, pyval) dict \<Rightarrow> engine step" where
  "diff_truncated label meta =
     only_if (truthy (val_get meta ''truncated''))
       (add_change MANIFEST_TRUNCATED ''(service)'' ''meta''
          (''the '' @ label @ '' manifest is one page of a paginated tools/list; ''
           @ ''tools beyond it will read as removed'')
          (no_args\<lparr>old_value := PBool (label = ''old''), new_value := PBool (label = ''new'')\<rparr>))"

definition find_tool :: "string \<Rightarrow> operation list \<Rightarrow> operation option" where
  "find_tool name ops = find (\<lambda>op. op_rpc_name op = Some name) ops"

definition diff_rename :: "json_dumps \<Rightarrow> service \<Rightarrow> service \<Rightarrow> engine step" where
  "diff_rename dumps old_svc new_svc =
     (case (tools_missing_from (operation_keys new_svc) (svc_operations old_svc),
            tools_missing_from (operation_keys old_svc) (svc_operations new_svc)) of
        ([removed], [added]) \<Rightarrow>
          (case (find_tool removed (svc_operations old_svc), find_tool added (svc_operations new_svc)) of
             (Some gone, Some fresh) \<Rightarrow>
               only_if (tool_shape dumps gone = tool_shape dumps fresh)
                 (add_change TOOL_RENAME_SUSPECTED (''tool '' @ removed) ''meta''
                    (''tool '' @ quoted removed @ '' disappeared and '' @ quoted added
                     @ '' appeared with an identical schema; this may be a rename, which agents ''
                     @ ''calling the old name cannot follow'')
                    (no_args\<lparr>old_value := PStr removed, new_value := PStr added\<rparr>))
           | _ \<Rightarrow> (\<lambda>_. Inl StopIteration))
      | _ \<Rightarrow> skip)"

definition diff_mcp_manifest :: "json_dumps \<Rightarrow> service \<Rightarrow> service \<Rightarrow> engine step" where
  "diff_mcp_manifest dumps old_svc new_svc =
     (case (dict_or_empty (dict_get (svc_bindings old_svc) ''mcp''),
            dict_or_empty (dict_get (svc_bindings new_svc) ''mcp'')) of
        (Some old_mcp, Some new_mcp) \<Rightarrow> steps [
          diff_truncated ''old'' old_mcp,
          diff_truncated ''new'' new_mcp,
          diff_rename dumps old_svc new_svc]
      | _ \<Rightarrow> skip)"

section \<open>The run\<close>

definition operations_by_key :: "service \<Rightarrow> (string, operation) dict" where
  "operations_by_key svc = dict_of (map (\<lambda>op. (key op, op)) (svc_operations svc))"

definition report_removed :: "string \<Rightarrow> operation \<Rightarrow> engine step" where
  "report_removed k op =
     add_change (if op_kind op \<noteq> HTTP then RPC_REMOVED else OPERATION_REMOVED) k ''meta''
       (''operation '' @ quoted k @ '' was removed'')
       (no_args\<lparr>old_location := op_source_location op,
          breaking_hint := Some ''existing clients calling this operation will fail''\<rparr>)"

definition report_added :: "string \<Rightarrow> operation \<Rightarrow> engine step" where
  "report_added k op =
     add_change (if op_kind op \<noteq> HTTP then RPC_ADDED else OPERATION_ADDED) k ''meta''
       (''operation '' @ quoted k @ '' was added'')
       (no_args\<lparr>new_location := op_source_location op\<rparr>)"

definition diff_operations :: "service \<Rightarrow> service \<Rightarrow> engine step" where
  "diff_operations old_svc new_svc =
     (let old_ops = operations_by_key old_svc; new_ops = operations_by_key new_svc in steps [
        for_each (sorted_diff (keys old_ops) (keys new_ops)) (\<lambda>k. with_key old_ops k (report_removed k)),
        for_each (sorted_diff (keys new_ops) (keys old_ops)) (\<lambda>k. with_key new_ops k (report_added k)),
        for_each (sorted_inter (keys old_ops) (keys new_ops)) (\<lambda>k.
          with_key old_ops k (\<lambda>old. with_key new_ops k (\<lambda>new. diff_operation old_svc new_svc old new)))])"

definition diff_service_facts :: "service \<Rightarrow> service \<Rightarrow> engine step" where
  "diff_service_facts old_svc new_svc =
     (let old_servers = map sv_url (svc_servers old_svc); new_servers = map sv_url (svc_servers new_svc)
      in steps [
        only_if (svc_version old_svc \<noteq> svc_version new_svc)
          (add_change DESCRIPTION_CHANGED ''(service)'' ''meta''
             (''contract version changed '' @ quoted (svc_version old_svc) @ '' -> ''
              @ quoted (svc_version new_svc))
             (no_args\<lparr>old_value := PStr (svc_version old_svc), new_value := PStr (svc_version new_svc)\<rparr>)),
        only_if (old_servers \<noteq> new_servers)
          (add_change SERVER_CHANGED ''(service)'' ''meta''
             (''server list changed '' @ str_list_repr old_servers @ '' -> '' @ str_list_repr new_servers)
             (no_args\<lparr>old_value := str_list old_servers, new_value := str_list new_servers\<rparr>))])"

definition run_steps :: "json_dumps \<Rightarrow> service \<Rightarrow> service \<Rightarrow> engine step" where
  "run_steps dumps old_svc new_svc = steps [
     diff_operations old_svc new_svc,
     only_if (svc_protocol old_svc = MCP \<or> svc_protocol new_svc = MCP)
       (diff_mcp_manifest dumps old_svc new_svc),
     diff_service_facts old_svc new_svc]"

definition run :: "json_dumps \<Rightarrow> service \<Rightarrow> service \<Rightarrow> change list result" where
  "run dumps old_svc new_svc =
     bind_result (run_steps dumps old_svc new_svc init_engine) (\<lambda>s. Inr (eng_changes s))"

end
