(* ===== verification/DiffRunFacts.thy ===== *)
theory DiffRunFacts
  imports DiffRun
begin

text \<open>
  What a run of the differ guarantees, over the whole engine: the only exception it can
  raise, what it says of a contract compared with itself, and exactly which operations it
  reports as removed or added.
\<close>

section \<open>What one operation may record\<close>

definition operation_change :: "string \<Rightarrow> change \<Rightarrow> bool" where
  "operation_change k c \<longleftrightarrow> c_operation_key c = k \<and> \<not> presence_kind (c_kind c) \<and> name_lists c"

abbreviation op_emitter :: "(py_error \<Rightarrow> bool) \<Rightarrow> string \<Rightarrow> engine step \<Rightarrow> bool" where
  "op_emitter E k \<equiv> emitter E (operation_change k)"

lemma operation_change_raw [simp]:
  "operation_change k (raw_change kind k' d desc args) \<longleftrightarrow> k' = k \<and> \<not> presence_kind kind
     \<and> name_lists (raw_change kind k' d desc args)"
  by (auto simp: operation_change_def raw_change_def)

definition body_schemas :: "request_body \<Rightarrow> schema_node list" where
  "body_schemas b = map snd (rb_content b) @ List.map_filter (\<lambda>m. st_item_schema (snd m)) (rb_streaming b)"

definition response_schemas :: "response \<Rightarrow> schema_node list" where
  "response_schemas r = map snd (rs_content r) @ List.map_filter (\<lambda>m. st_item_schema (snd m)) (rs_streaming r)"

text \<open>The schemas the differ descends into.\<close>

definition operation_schemas :: "operation \<Rightarrow> schema_node list" where
  "operation_schemas op =
     List.map_filter p_schema_node (op_parameters op)
     @ (case op_request_body op of None \<Rightarrow> [] | Some b \<Rightarrow> body_schemas b)
     @ concat (map response_schemas (op_responses op))"

lemma set_map_filterI: "x \<in> set xs \<Longrightarrow> f x = Some y \<Longrightarrow> y \<in> set (List.map_filter f xs)"
  by (force simp: List.map_filter_def)

lemma schemas_of_media:
  "dict_get (rb_content b) m = Some s \<Longrightarrow> s \<in> set (body_schemas b)"
  "dict_get (rb_streaming b) m = Some st \<Longrightarrow> st_item_schema st = Some s \<Longrightarrow> s \<in> set (body_schemas b)"
  "dict_get (rs_content r) m = Some s \<Longrightarrow> s \<in> set (response_schemas r)"
  "dict_get (rs_streaming r) m = Some st \<Longrightarrow> st_item_schema st = Some s \<Longrightarrow> s \<in> set (response_schemas r)"
  by (force simp: body_schemas_def response_schemas_def intro: set_map_filterI dest: map_of_SomeD)+

lemma indexed_schemas:
  "dict_get (index_parameters (op_parameters op)) i = Some p \<Longrightarrow> p_schema_node p = Some s \<Longrightarrow>
     s \<in> set (operation_schemas op)"
  "dict_get (index_responses op) status = Some r \<Longrightarrow> s \<in> set (response_schemas r) \<Longrightarrow> s \<in> set (operation_schemas op)"
  "op_request_body op = Some b \<Longrightarrow> s \<in> set (body_schemas b) \<Longrightarrow> s \<in> set (operation_schemas op)"
  by (auto simp: operation_schemas_def index_parameters_def index_responses_def dict_simps
      intro: set_map_filterI dest!: map_of_SomeD)

lemma content_schemas:
  "op_request_body op = Some b \<Longrightarrow> dict_get (rb_content b) m = Some s \<Longrightarrow> s \<in> set (operation_schemas op)"
  "op_request_body op = Some b \<Longrightarrow> dict_get (rb_streaming b) m = Some st \<Longrightarrow> st_item_schema st = Some s \<Longrightarrow>
     s \<in> set (operation_schemas op)"
  "dict_get (index_responses op) status = Some r \<Longrightarrow> dict_get (rs_content r) m = Some s \<Longrightarrow>
     s \<in> set (operation_schemas op)"
  "dict_get (index_responses op) status = Some r \<Longrightarrow> dict_get (rs_streaming r) m = Some st \<Longrightarrow>
     st_item_schema st = Some s \<Longrightarrow> s \<in> set (operation_schemas op)"
  by (rule indexed_schemas; (assumption | (rule schemas_of_media; assumption)))+

text \<open>The comparisons of two operations, given those of their schemas.\<close>

definition schemas_emit :: "(py_error \<Rightarrow> bool) \<Rightarrow> string \<Rightarrow> schema_node list \<Rightarrow> schema_node list \<Rightarrow> bool" where
  "schemas_emit E k os ns \<longleftrightarrow>
     (\<forall>m \<in> set os. \<forall>n \<in> set ns. \<forall>w d p. op_emitter E k (diff_schema k w d m n p))"

lemma schemas_emitD:
  "schemas_emit E k os ns \<Longrightarrow> m \<in> set os \<Longrightarrow> n \<in> set ns \<Longrightarrow> op_emitter E k (diff_schema k w d m n p)"
  by (simp add: schemas_emit_def)

lemma schemas_emit_subset:
  "schemas_emit E k os ns \<Longrightarrow> set os' \<subseteq> set os \<Longrightarrow> set ns' \<subseteq> set ns \<Longrightarrow> schemas_emit E k os' ns'"
  unfolding schemas_emit_def by blast

lemma op_emitter_parameters:
  assumes "schemas_emit E k (operation_schemas old) (operation_schemas new)"
  shows "op_emitter E k (diff_parameters old new k)"
  unfolding diff_parameters_def diff_removed_parameter_def diff_added_parameter_def
    diff_common_parameter_def Let_def
  by (auto intro!: emit_intro schemas_emitD [OF assms] split: option.splits) (erule (1) indexed_schemas(1))+

lemma op_emitter_grpc: "op_emitter E k (diff_grpc_signature old new k)"
  unfolding diff_grpc_signature_def by (auto intro!: emit_intro)

lemma op_emitter_streaming:
  assumes "\<And>m n st st' o_item n_item w d p. dict_get os m = Some st \<Longrightarrow> dict_get ns m = Some st' \<Longrightarrow>
    st_item_schema st = Some o_item \<Longrightarrow> st_item_schema st' = Some n_item \<Longrightarrow>
    op_emitter E k (diff_schema k w d o_item n_item p)"
  shows "op_emitter E k (diff_streaming os ns oc nc k w d)"
  unfolding diff_streaming_def diff_stream_item_def diff_stream_encoding_def diff_stream_prefix_def
    diff_sequentiality_def Let_def
  by (auto intro!: emit_intro assms split: option.splits)

lemma op_emitter_request_body:
  assumes "schemas_emit E k (operation_schemas old) (operation_schemas new)"
  shows "op_emitter E k (diff_request_body old new k)"
proof -
  have "op_emitter E k (diff_request_media b b' k d)"
    "op_emitter E k (diff_streaming (rb_streaming b) (rb_streaming b') (rb_content b) (rb_content b') k w d)"
    if "op_request_body old = Some b" "op_request_body new = Some b'" for b b' w d
    unfolding diff_request_media_def Let_def
    by (auto intro!: emit_intro op_emitter_streaming
        schemas_emitD [OF assms])
      (erule content_schemas(1) [OF that(1)] content_schemas(1) [OF that(2)]
        | erule (1) content_schemas(2) [OF that(1)] content_schemas(2) [OF that(2)])+
  then show ?thesis
    unfolding diff_request_body_def diff_body_presence_def Let_def
    by (auto intro!: emit_intro split: option.splits)
qed

lemma op_emitter_responses:
  assumes "schemas_emit E k (operation_schemas old) (operation_schemas new)"
  shows "op_emitter E k (diff_responses old new k)"
proof -
  have "op_emitter E k (diff_common_response r r' status k)"
    if "dict_get (index_responses old) status = Some r" "dict_get (index_responses new) status = Some r'" for r r' status
    unfolding diff_common_response_def diff_response_headers_def diff_response_media_def
    by (auto intro!: emit_intro op_emitter_streaming
        schemas_emitD [OF assms])
      (erule content_schemas(3) [OF that(1)] content_schemas(3) [OF that(2)]
        | erule (1) content_schemas(4) [OF that(1)] content_schemas(4) [OF that(2)])+
  then show ?thesis unfolding diff_responses_def Let_def by (auto intro!: emit_intro)
qed

lemma op_emitter_security: "op_emitter E k (diff_security os ns old new k)"
  unfolding diff_security_def Let_def by (auto intro!: emit_intro)

lemma op_emitter_protocols:
  "op_emitter E k (diff_mcp_tool old new k)" "op_emitter E k (diff_soap_operation old new k)"
  unfolding diff_mcp_tool_def diff_annotations_def diff_soap_operation_def diff_soap_facts_def Let_def
  by (auto intro!: emit_intro split: option.splits)

lemma op_emitter_documentation:
  "op_emitter E k (diff_deprecation old new k)" "op_emitter E k (diff_documentation old new k)"
  "op_emitter E k (diff_examples old new k)"
  unfolding diff_deprecation_def diff_documentation_def diff_examples_def by (auto intro!: emit_intro)

lemmas op_emitter_plain = op_emitter_grpc op_emitter_security op_emitter_protocols op_emitter_documentation

lemma op_emitter_operation_on:
  assumes "schemas_emit E (key old) (operation_schemas old) (operation_schemas new)"
  shows "op_emitter E (key old) (diff_operation old_svc new_svc old new)"
  unfolding diff_operation_def Let_def
  by (intro emitter_steps)
    (simp add: emitter_only_if op_emitter_plain op_emitter_parameters [OF assms]
      op_emitter_request_body [OF assms] op_emitter_responses [OF assms])

lemma schemas_emit_type_error: "schemas_emit is_type_error k os ns"
  unfolding schemas_emit_def
  by (intro ballI allI emitter_mono [OF emitter_diff_schema]) (auto simp: schema_change_def operation_change_def)

lemma op_emitter_operation: "op_emitter is_type_error (key old) (diff_operation old_svc new_svc old new)"
  by (rule op_emitter_operation_on [OF schemas_emit_type_error])

lemma schemas_emit_calm:
  assumes "list_all calm_schema os" and "list_all calm_schema ns"
  shows "schemas_emit (\<lambda>_. False) k os ns"
  unfolding schemas_emit_def
  using assms by (auto simp: list_all_iff schema_change_def operation_change_def
      intro: emitter_mono [OF emitter_calm_schema])

section \<open>The operation index\<close>

lemma set_keys_operations_by_key [simp]: "set (keys (operations_by_key s)) = set (operation_keys s)"
  by (simp add: operations_by_key_def operation_keys_def dict_simps image_image)

lemma operations_by_key_SomeD:
  "dict_get (operations_by_key s) k = Some op \<Longrightarrow> op \<in> set (svc_operations s) \<and> key op = k"
  by (auto simp: operations_by_key_def dict_simps dest: map_of_SomeD)

lemma operations_by_key_present: "dict_get (operations_by_key s) k = Some op \<Longrightarrow> k \<in> set (operation_keys s)"
  by (auto simp: operation_keys_def dest!: operations_by_key_SomeD)

section \<open>Errors\<close>

lemma find_tool_missing:
  assumes "tools_missing_from ks ops = [name]"
  shows "\<exists>op. find_tool name ops = Some op"
proof -
  have "name \<in> set (tools_missing_from ks ops)" using assms by simp
  then obtain op where "op \<in> set ops" "op_rpc_name op = Some name"
    by (auto simp: tools_missing_from_def truthy_str_def opt_str_def split: option.splits)
  then have "find_tool name ops \<noteq> None"
    by (auto simp: find_tool_def find_None_iff)
  then show ?thesis by simp
qed

lemma emitter_mcp_manifest:
  assumes "\<And>kind k d desc args. \<not> presence_kind kind \<Longrightarrow>
    kind \<noteq> DEPENDENT_REQUIRED_CHANGED \<Longrightarrow> P (raw_change kind k d desc args)"
  shows "emitter E P (diff_mcp_manifest dumps old new)"
proof -
  have "emitter E P (diff_rename dumps old new)"
    unfolding diff_rename_def
    by (auto intro!: emit_intro assms split: list.splits option.splits dest: find_tool_missing)
  then show ?thesis
    unfolding diff_mcp_manifest_def diff_truncated_def
    by (auto intro!: emit_intro assms split: option.splits)
qed

lemma emitter_run_steps_on:
  assumes each: "\<And>o_op n_op. o_op \<in> set (svc_operations old) \<Longrightarrow> n_op \<in> set (svc_operations new) \<Longrightarrow>
      op_emitter E (key o_op) (diff_operation old new o_op n_op)"
    and rest: "\<And>kind k d desc args. \<not> presence_kind kind \<Longrightarrow>
      kind \<noteq> DEPENDENT_REQUIRED_CHANGED \<Longrightarrow> P (raw_change kind k d desc args)"
    and ops: "\<And>k c. operation_change k c \<Longrightarrow> P c"
    and removed: "\<And>k op desc args. dict_get (operations_by_key old) k = Some op \<Longrightarrow>
      k \<notin> set (operation_keys new) \<Longrightarrow>
      P (raw_change (if op_kind op \<noteq> HTTP then RPC_REMOVED else OPERATION_REMOVED) k ''meta'' desc args)"
    and added: "\<And>k op desc args. dict_get (operations_by_key new) k = Some op \<Longrightarrow>
      k \<notin> set (operation_keys old) \<Longrightarrow>
      P (raw_change (if op_kind op \<noteq> HTTP then RPC_ADDED else OPERATION_ADDED) k ''meta'' desc args)"
  shows "emitter E P (run_steps dumps old new)"
proof -
  have "emitter E P (diff_operation old new o_op n_op)"
    if "dict_get (operations_by_key old) k = Some o_op" "dict_get (operations_by_key new) k = Some n_op" for k o_op n_op
    using that by (intro emitter_mono [OF each]) (auto intro: ops dest: operations_by_key_SomeD)
  then have "emitter E P (diff_operations old new)"
    unfolding diff_operations_def report_removed_def report_added_def Let_def
    by (auto intro!: emit_intro removed added simp del: if_split)
  moreover have "emitter E P (diff_service_facts old new)"
    unfolding diff_service_facts_def Let_def by (auto intro!: emit_intro rest)
  ultimately show ?thesis
    unfolding run_steps_def by (auto intro!: emit_intro emitter_mcp_manifest rest)
qed

abbreviation run_emitter :: "(change \<Rightarrow> bool) \<Rightarrow> engine step \<Rightarrow> bool" where
  "run_emitter \<equiv> emitter is_type_error"

lemmas emitter_run_steps = emitter_run_steps_on [of _ _ is_type_error, OF op_emitter_operation]

lemma uniform_run_steps: "run_emitter (\<lambda>_. True) (run_steps dumps old new)"
  by (rule emitter_run_steps) simp_all

lemma run_raises_type_error:
  "run dumps old new = Inl e \<Longrightarrow> is_type_error e"
  unfolding run_def
  by (auto simp: bind_result_def split: sum.splits dest: emitter_error [OF uniform_run_steps])

text \<open>Contracts whose schemas cannot make the differ raise.\<close>

definition calm_service :: "service \<Rightarrow> bool" where
  "calm_service svc \<longleftrightarrow> list_all (\<lambda>op. list_all calm_schema (operation_schemas op)) (svc_operations svc)"

lemma run_calm:
  assumes "calm_service old" and "calm_service new"
  shows "\<exists>cs. run dumps old new = Inr cs"
proof -
  have "emitter (\<lambda>_. False) (\<lambda>_. True) (run_steps dumps old new)"
    using assms
    by (intro emitter_run_steps_on op_emitter_operation_on schemas_emit_calm)
      (simp_all add: calm_service_def list_all_iff)
  then have "run_steps dumps old new init_engine \<noteq> Inl e" for e by (auto dest: emitter_error)
  then show ?thesis unfolding run_def by (cases "run_steps dumps old new init_engine") auto
qed

section \<open>Which operations are reported removed or added\<close>

lemma run_raws:
  assumes "run dumps old new = Inr cs"
  shows "outcome (run_steps dumps old new) = Inr (map strip_id cs)"
  using assms by (auto simp: run_def outcome_def bind_result_def split: sum.splits)

lemma run_emits:
  assumes "run_emitter P (run_steps dumps old new)" and "run dumps old new = Inr cs" and "c \<in> set cs"
  shows "P (strip_id c)"
  using emitter_outcome [OF assms(1) run_raws [OF assms(2)]] assms(3) by simp

lemma strip_id_fields [simp]:
  "c_kind (strip_id c) = c_kind c" "c_operation_key (strip_id c) = c_operation_key c"
  "c_description (strip_id c) = c_description c" "c_direction (strip_id c) = c_direction c"
  "c_old_value (strip_id c) = c_old_value c" "c_new_value (strip_id c) = c_new_value c"
  by (simp_all add: strip_id_def)

lemma raw_change_fields [simp]:
  "c_kind (raw_change kind k d desc args) = kind"
  "c_operation_key (raw_change kind k d desc args) = k"
  "c_direction (raw_change kind k d desc args) = d"
  "c_description (raw_change kind k d desc args) = desc"
  "c_old_value (raw_change kind k d desc args) = old_value args"
  "c_new_value (raw_change kind k d desc args) = new_value args"
  by (simp_all add: raw_change_def)

text \<open>The three loops of \<open>diff_operations\<close>.\<close>

definition operation_steps :: "service \<Rightarrow> service \<Rightarrow> engine step list" where
  "operation_steps old new = [
     for_each (sorted_diff (keys (operations_by_key old)) (keys (operations_by_key new)))
       (\<lambda>k. with_key (operations_by_key old) k (report_removed k)),
     for_each (sorted_diff (keys (operations_by_key new)) (keys (operations_by_key old)))
       (\<lambda>k. with_key (operations_by_key new) k (report_added k)),
     for_each (sorted_inter (keys (operations_by_key old)) (keys (operations_by_key new))) (\<lambda>k.
       with_key (operations_by_key old) k (\<lambda>o_op. with_key (operations_by_key new) k (\<lambda>n_op.
         diff_operation old new o_op n_op)))]"

lemma diff_operations_steps: "diff_operations old new = steps (operation_steps old new)"
  by (simp only: diff_operations_def operation_steps_def Let_def)

lemma uniform_diff_operations: "list_all uniform (operation_steps old new)"
  unfolding operation_steps_def by (auto intro!: emit_intro emitter_uniform [OF op_emitter_operation]
      simp: report_removed_def report_added_def simp del: set_keys_operations_by_key)

lemma uniform_run_parts:
  "list_all uniform [
     diff_operations old new,
     only_if (svc_protocol old = MCP \<or> svc_protocol new = MCP) (diff_mcp_manifest dumps old new),
     diff_service_facts old new]"
proof -
  have "uniform (diff_mcp_manifest dumps old new)"
    by (rule emitter_uniform [OF emitter_mcp_manifest [of "\<lambda>_. True"]]) simp
  then show ?thesis
    unfolding diff_operations_steps diff_service_facts_def Let_def
    by (auto intro!: emit_intro uniform_diff_operations)
qed

text \<open>A step of the loop over the common, removed or added keys, found in the outcome.\<close>

lemma for_each_member:
  assumes "\<And>x. x \<in> set xs \<Longrightarrow> uniform (f x)" and "outcome (for_each xs f) = Inr cs" and "x \<in> set xs"
  shows "\<exists>ds. outcome (f x) = Inr ds \<and> set ds \<subseteq> set cs"
  using assms unfolding for_each_def
  by (intro steps_succeeds [of "map f xs"]) (auto simp: list_all_iff)

lemma run_operations_outcome:
  assumes "run dumps old new = Inr cs" and "m \<in> set (operation_steps old new)"
  shows "\<exists>ds. outcome m = Inr ds \<and> set ds \<subseteq> strip_id ` set cs"
proof -
  have "outcome (steps [diff_operations old new,
      only_if (svc_protocol old = MCP \<or> svc_protocol new = MCP) (diff_mcp_manifest dumps old new),
      diff_service_facts old new]) = Inr (map strip_id cs)"
    using run_raws [OF assms(1)] by (simp add: run_steps_def)
  from steps_succeeds [OF uniform_run_parts this, of "diff_operations old new"]
  obtain ops where ops: "outcome (diff_operations old new) = Inr ops" "set ops \<subseteq> strip_id ` set cs"
    by auto
  from steps_succeeds [OF uniform_diff_operations ops(1) [unfolded diff_operations_steps] assms(2)] ops(2)
  show ?thesis by auto
qed

text \<open>A loop over operation keys that records one change for the key \<open>k\<close>.\<close>

lemma run_key_change:
  assumes "run dumps old new = Inr cs" and "for_each xs f \<in> set (operation_steps old new)"
    and "\<And>x. x \<in> set xs \<Longrightarrow> uniform (f x)" and "k \<in> set xs"
    and "f k = add_change kind k d desc args"
  shows "\<exists>c \<in> set cs. c_kind c = kind \<and> c_operation_key c = k \<and> c_description c = desc"
proof -
  obtain ds where ds: "outcome (for_each xs f) = Inr ds" "set ds \<subseteq> strip_id ` set cs"
    using run_operations_outcome [OF assms(1,2)] by auto
  obtain es where "outcome (f k) = Inr es" "set es \<subseteq> set ds"
    using for_each_member [OF assms(3) ds(1) assms(4)] by blast
  with ds(2) have "raw_change kind k d desc args \<in> strip_id ` set cs"
    by (auto simp: assms(5) outcome_add)
  then obtain c where c: "c \<in> set cs" "strip_id c = raw_change kind k d desc args"
    by (auto elim!: imageE)
  have "c_kind (strip_id c) = kind" "c_operation_key (strip_id c) = k" "c_description (strip_id c) = desc"
    by (simp_all only: c(2) raw_change_fields)
  then show ?thesis using c(1) by (intro bexI [of _ c]) (simp_all only: strip_id_fields)
qed

definition removal_kind :: "change_kind \<Rightarrow> bool" where
  "removal_kind kind \<longleftrightarrow> kind = OPERATION_REMOVED \<or> kind = RPC_REMOVED"

definition addition_kind :: "change_kind \<Rightarrow> bool" where
  "addition_kind kind \<longleftrightarrow> kind = OPERATION_ADDED \<or> kind = RPC_ADDED"

lemma operations_by_key_get:
  assumes "k \<in> set (operation_keys s)"
  shows "\<exists>op. dict_get (operations_by_key s) k = Some op \<and> op \<in> set (svc_operations s) \<and> key op = k"
proof -
  have "k \<in> dom (map_of (operations_by_key s))" using assms by (simp flip: set_keys_eq_dom)
  then obtain op where "dict_get (operations_by_key s) k = Some op" by auto
  with operations_by_key_SomeD [OF this] show ?thesis by blast
qed

lemma run_reports_removed:
  assumes "run dumps old new = Inr cs" and "k \<in> set (operation_keys old)" and "k \<notin> set (operation_keys new)"
  shows "\<exists>c \<in> set cs. removal_kind (c_kind c) \<and> c_operation_key c = k
    \<and> c_description c = ''operation '' @ quoted k @ '' was removed''"
proof -
  obtain op where op: "dict_get (operations_by_key old) k = Some op"
    using operations_by_key_get [OF assms(2)] by blast
  let ?xs = "sorted_diff (keys (operations_by_key old)) (keys (operations_by_key new))"
  let ?f = "\<lambda>k. with_key (operations_by_key old) k (report_removed k)"
  have "?f k = add_change (if op_kind op \<noteq> HTTP then RPC_REMOVED else OPERATION_REMOVED) k ''meta''
      (''operation '' @ quoted k @ '' was removed'')
      (no_args\<lparr>old_location := op_source_location op,
        breaking_hint := Some ''existing clients calling this operation will fail''\<rparr>)"
    using op by (simp add: with_key_def report_removed_def)
  moreover have "uniform (?f x)" for x
    by (auto intro!: emit_intro simp: with_key_def report_removed_def split: option.splits
        intro: emitter_raise)
  ultimately have "\<exists>c \<in> set cs. c_kind c = (if op_kind op \<noteq> HTTP then RPC_REMOVED else OPERATION_REMOVED)
      \<and> c_operation_key c = k \<and> c_description c = ''operation '' @ quoted k @ '' was removed''"
    using assms(2,3) by (intro run_key_change [OF assms(1), of ?xs ?f]) (auto simp: operation_steps_def)
  then show ?thesis by (rule bexE) (auto simp: removal_kind_def split: if_splits)
qed

lemma run_reports_added:
  assumes "run dumps old new = Inr cs" and "k \<in> set (operation_keys new)" and "k \<notin> set (operation_keys old)"
  shows "\<exists>c \<in> set cs. addition_kind (c_kind c) \<and> c_operation_key c = k
    \<and> c_description c = ''operation '' @ quoted k @ '' was added''"
proof -
  obtain op where op: "dict_get (operations_by_key new) k = Some op"
    using operations_by_key_get [OF assms(2)] by blast
  let ?xs = "sorted_diff (keys (operations_by_key new)) (keys (operations_by_key old))"
  let ?f = "\<lambda>k. with_key (operations_by_key new) k (report_added k)"
  have "?f k = add_change (if op_kind op \<noteq> HTTP then RPC_ADDED else OPERATION_ADDED) k ''meta''
      (''operation '' @ quoted k @ '' was added'') (no_args\<lparr>new_location := op_source_location op\<rparr>)"
    using op by (simp add: with_key_def report_added_def)
  moreover have "uniform (?f x)" for x
    by (auto intro!: emit_intro simp: with_key_def report_added_def split: option.splits
        intro: emitter_raise)
  ultimately have "\<exists>c \<in> set cs. c_kind c = (if op_kind op \<noteq> HTTP then RPC_ADDED else OPERATION_ADDED)
      \<and> c_operation_key c = k \<and> c_description c = ''operation '' @ quoted k @ '' was added''"
    using assms(2,3) by (intro run_key_change [OF assms(1), of ?xs ?f]) (auto simp: operation_steps_def)
  then show ?thesis by (rule bexE) (auto simp: addition_kind_def split: if_splits)
qed

lemma run_removed_sound:
  assumes "run dumps old new = Inr cs" and "c \<in> set cs" and "removal_kind (c_kind c)"
  shows "c_operation_key c \<in> set (operation_keys old) - set (operation_keys new)"
proof -
  let ?P = "\<lambda>c. removal_kind (c_kind c) \<longrightarrow>
    c_operation_key c \<in> set (operation_keys old) - set (operation_keys new)"
  have "\<not> removal_kind kind" if "\<not> presence_kind kind \<or> kind = RPC_ADDED \<or> kind = OPERATION_ADDED" for kind
    using that by (auto simp: removal_kind_def)
  then have "run_emitter ?P (run_steps dumps old new)"
    by (intro emitter_run_steps) (simp_all add: operation_change_def operations_by_key_present)
  from run_emits [OF this assms(1,2)] assms(3) show ?thesis by simp
qed

lemma run_added_sound:
  assumes "run dumps old new = Inr cs" and "c \<in> set cs" and "addition_kind (c_kind c)"
  shows "c_operation_key c \<in> set (operation_keys new) - set (operation_keys old)"
proof -
  let ?P = "\<lambda>c. addition_kind (c_kind c) \<longrightarrow>
    c_operation_key c \<in> set (operation_keys new) - set (operation_keys old)"
  have "\<not> addition_kind kind" if "\<not> presence_kind kind \<or> kind = RPC_REMOVED \<or> kind = OPERATION_REMOVED" for kind
    using that by (auto simp: addition_kind_def)
  then have "run_emitter ?P (run_steps dumps old new)"
    by (intro emitter_run_steps) (simp_all add: operation_change_def operations_by_key_present)
  from run_emits [OF this assms(1,2)] assms(3) show ?thesis by simp
qed

end
