(* ===== verification/DiffIdentity.thy ===== *)
theory DiffIdentity
  imports DiffRunFacts "HOL-Library.Multiset"
begin

text \<open>
  What the differ does not report and what it cannot miss: a well-formed contract compared
  with itself yields no change (unless its manifest is a truncated page), the order in which
  a document lists its operations is irrelevant, and a field removed under any chain of
  object properties is reported with its full path.
\<close>

section \<open>A contract compared with itself\<close>

definition wf_operation :: "operation \<Rightarrow> bool" where
  "wf_operation op \<longleftrightarrow> list_all wf_schema (operation_schemas op)"

definition wf_service :: "service \<Rightarrow> bool" where
  "wf_service svc \<longleftrightarrow> list_all wf_operation (svc_operations svc)"

definition truncated_manifest :: "service \<Rightarrow> bool" where
  "truncated_manifest svc \<longleftrightarrow> svc_protocol svc = MCP \<and>
     (case dict_or_empty (dict_get (svc_bindings svc) ''mcp'') of
        None \<Rightarrow> False | Some mcp \<Rightarrow> truthy (val_get mcp ''truncated''))"

lemma wf_operation_schemas:
  assumes "wf_operation op"
  shows "p \<in> set (op_parameters op) \<Longrightarrow> p_schema_node p = Some s \<Longrightarrow> wf_schema s"
    and "op_request_body op = Some b \<Longrightarrow> s \<in> set (body_schemas b) \<Longrightarrow> wf_schema s"
    and "r \<in> set (op_responses op) \<Longrightarrow> s \<in> set (response_schemas r) \<Longrightarrow> wf_schema s"
  using assms by (auto simp: wf_operation_def operation_schemas_def list_all_iff intro: set_map_filterI)

lemma self_streaming:
  assumes "\<And>m st s. dict_get str m = Some st \<Longrightarrow> st_item_schema st = Some s \<Longrightarrow> wf_schema s"
  shows "diff_streaming str str c c k w d = skip"
proof -
  have "diff_sequentiality (keys c @ keys str) (keys c @ keys str) k w d = skip"
    by (auto simp: diff_sequentiality_def Let_def only_if_def)
  moreover have "diff_stream_item st st m k w d = skip" if "dict_get str m = Some st" for m st
    using assms [OF that] by (auto simp: diff_stream_item_def diff_schema_self split: option.splits)
  moreover have "diff_stream_encoding st st m k w d = skip" for m st
    unfolding diff_stream_encoding_def Let_def by (intro for_each_skip with_key_skip) auto
  moreover have "diff_stream_prefix st st m k w d = skip" for m st
    by (simp add: diff_stream_prefix_def Let_def)
  ultimately show ?thesis
    unfolding diff_streaming_def
    by (auto intro!: steps_skip for_each_skip with_key_skip)
qed

lemma self_parameters:
  assumes "wf_operation op"
  shows "diff_parameters op op k = skip"
proof -
  have "diff_common_parameter k ident p p = skip" if "dict_get (index_parameters (op_parameters op)) ident = Some p" for ident p
  proof -
    have "p \<in> set (op_parameters op)"
      using that by (auto simp: index_parameters_def dict_simps dest!: map_of_SomeD)
    then show ?thesis using wf_operation_schemas(1) [OF assms]
      by (auto simp: diff_common_parameter_def Let_def diff_schema_self steps_Cons_skip split: option.splits)
  qed
  then show ?thesis unfolding diff_parameters_def Let_def
    by (auto intro!: steps_skip for_each_skip with_key_skip)
qed

lemma self_request_body:
  assumes "wf_operation op"
  shows "diff_request_body op op k = skip"
proof (cases "op_request_body op")
  case None
  then show ?thesis by (simp add: diff_request_body_def)
next
  case (Some b)
  note wf = wf_operation_schemas(2) [OF assms Some]
  have "diff_request_media b b k d = skip" for d
    unfolding diff_request_media_def Let_def
    by (auto intro!: steps_skip for_each_skip with_key_skip diff_schema_self wf schemas_of_media(1))
  moreover have "diff_streaming (rb_streaming b) (rb_streaming b) (rb_content b) (rb_content b) k w d = skip" for w d
    by (rule self_streaming) (rule wf, rule schemas_of_media(2))
  ultimately show ?thesis using Some by (simp add: diff_request_body_def Let_def steps_Cons_skip)
qed

lemma self_responses:
  assumes "wf_operation op"
  shows "diff_responses op op k = skip"
proof -
  have "diff_common_response r r status k = skip" if "dict_get (index_responses op) status = Some r" for status r
  proof -
    have "r \<in> set (op_responses op)"
      using that by (auto simp: index_responses_def dict_simps dest!: map_of_SomeD)
    note wf = wf_operation_schemas(3) [OF assms this]
    have "diff_response_media r r status k = skip"
      unfolding diff_response_media_def
      by (auto intro!: steps_skip for_each_skip with_key_skip diff_schema_self wf schemas_of_media(3))
    moreover have "diff_response_headers r r status k = skip"
      by (simp add: diff_response_headers_def steps_Cons_skip)
    moreover have "diff_streaming (rs_streaming r) (rs_streaming r) (rs_content r) (rs_content r) k w d = skip" for w d
      by (rule self_streaming) (rule wf, rule schemas_of_media(4))
    ultimately show ?thesis by (simp add: diff_common_response_def steps_Cons_skip)
  qed
  then show ?thesis unfolding diff_responses_def Let_def
    by (auto intro!: steps_skip for_each_skip with_key_skip)
qed

lemma self_operation:
  assumes "wf_operation op"
  shows "diff_operation svc svc op op = skip"
proof -
  have "diff_mcp_tool op op k = skip" "diff_soap_operation op op k = skip" for k
    by (auto simp: diff_mcp_tool_def diff_annotations_def diff_soap_operation_def diff_soap_facts_def
        Let_def steps_Cons_skip intro!: steps_skip for_each_skip split: option.splits)
  with assms show ?thesis
    by (simp add: diff_operation_def Let_def self_parameters self_request_body self_responses
        diff_grpc_signature_def diff_security_def diff_deprecation_def diff_documentation_def
        diff_examples_def steps_Cons_skip)
qed

lemma self_operations:
  assumes "wf_service svc"
  shows "diff_operations svc svc = skip"
proof -
  have "diff_operation svc svc op op = skip" if "dict_get (operations_by_key svc) k = Some op" for k op
    using assms operations_by_key_SomeD [OF that]
    by (intro self_operation) (simp add: wf_service_def list_all_iff)
  then show ?thesis unfolding diff_operations_def Let_def
    by (intro steps_skip) (auto intro!: for_each_skip with_key_skip)
qed

lemma tools_missing_from_self [simp]: "tools_missing_from (operation_keys svc) (svc_operations svc) = []"
  by (auto simp: tools_missing_from_def operation_keys_def filter_empty_conv)

lemma self_manifest:
  "diff_mcp_manifest dumps svc svc =
     (case dict_or_empty (dict_get (svc_bindings svc) ''mcp'') of
        None \<Rightarrow> skip
      | Some mcp \<Rightarrow> steps [diff_truncated ''old'' mcp, diff_truncated ''new'' mcp])"
proof -
  have one: "steps [n, skip] = steps [n]" for n :: "engine step"
    by (rule ext) (simp add: steps_Cons_skip)
  have "steps [m, n, skip] = steps [m, n]" for m n :: "engine step"
    by (rule ext) (simp only: steps.simps(2) [of m] one)
  then show ?thesis by (simp add: diff_mcp_manifest_def diff_rename_def split: option.splits)
qed

lemma self_service_facts [simp]: "diff_service_facts svc svc = skip"
  by (simp add: diff_service_facts_def Let_def steps_Cons_skip)

lemma self_run_steps:
  assumes "wf_service svc"
  shows "run_steps dumps svc svc = only_if (svc_protocol svc = MCP) (diff_mcp_manifest dumps svc svc)"
  by (simp add: run_steps_def self_operations [OF assms] steps_Cons_skip fun_eq_iff)

lemma run_self_iff:
  assumes "wf_service svc"
  shows "run dumps svc svc = Inr [] \<longleftrightarrow> \<not> truncated_manifest svc"
  by (auto simp: run_def self_run_steps [OF assms] truncated_manifest_def self_manifest only_if_def
      diff_truncated_def add_change_def emit_with_def init_engine_def skip_def Let_def split: option.splits)

section \<open>The order of operations\<close>

lemma operations_by_key_permuted:
  assumes "mset ops = mset (svc_operations svc)" and "distinct (operation_keys svc)"
  shows "map_of (operations_by_key (svc\<lparr>svc_operations := ops\<rparr>)) = map_of (operations_by_key svc)"
    and "set (keys (operations_by_key (svc\<lparr>svc_operations := ops\<rparr>))) = set (keys (operations_by_key svc))"
proof -
  let ?f = "\<lambda>op. (key op, op)"
  have "mset (map key ops) = mset (map key (svc_operations svc))" using assms(1) by simp
  from mset_eq_imp_distinct_iff [OF this] have "distinct (map key ops)"
    using assms(2) by (simp add: operation_keys_def)
  then have "distinct (map fst (map ?f ops))" "distinct (map fst (map ?f (svc_operations svc)))"
    using assms(2) by (simp_all add: operation_keys_def comp_def)
  moreover have "set (map ?f ops) = set (map ?f (svc_operations svc))"
    using mset_eq_setD [OF assms(1)] by simp
  ultimately show "map_of (operations_by_key (svc\<lparr>svc_operations := ops\<rparr>)) = map_of (operations_by_key svc)"
    by (simp add: operations_by_key_def dict_simps map_of_distinct_rev map_of_inject_set)
  then show "set (keys (operations_by_key (svc\<lparr>svc_operations := ops\<rparr>))) = set (keys (operations_by_key svc))"
    by (simp only: set_keys_eq_dom)
qed

lemma with_key_map_of: "map_of d = map_of d' \<Longrightarrow> with_key d k f = with_key d' k f"
  by (simp add: with_key_def)

lemma diff_operation_services:
  "svc_global_security o_svc = svc_global_security o_svc' \<Longrightarrow>
   svc_global_security n_svc = svc_global_security n_svc' \<Longrightarrow>
   diff_operation o_svc n_svc = diff_operation o_svc' n_svc'"
  by (simp add: diff_operation_def diff_security_def fun_eq_iff)

lemma diff_operations_permuted:
  assumes "mset ops = mset (svc_operations old)" and "distinct (operation_keys old)"
    and "mset ops' = mset (svc_operations new)" and "distinct (operation_keys new)"
  shows "diff_operations (old\<lparr>svc_operations := ops\<rparr>) (new\<lparr>svc_operations := ops'\<rparr>) = diff_operations old new"
proof -
  note same = operations_by_key_permuted [OF assms(1,2)] operations_by_key_permuted [OF assms(3,4)]
  have "diff_operation (old\<lparr>svc_operations := ops\<rparr>) (new\<lparr>svc_operations := ops'\<rparr>) = diff_operation old new"
    by (rule diff_operation_services) simp_all
  then show ?thesis
    unfolding diff_operations_def Let_def
    by (simp only: with_key_map_of [OF same(1)] with_key_map_of [OF same(3)]
        sorted_ops_cong(1) [OF same(2,4)] sorted_ops_cong(1) [OF same(4,2)] sorted_ops_cong(2) [OF same(2,4)])
qed

section \<open>Removed fields\<close>

definition dotted :: "string list \<Rightarrow> string" where
  "dotted ps = concat (map (\<lambda>p. ''.'' @ p) ps)"

definition body_steps :: "string \<Rightarrow> string \<Rightarrow> string \<Rightarrow> schema_node \<Rightarrow> schema_node \<Rightarrow> string \<Rightarrow> engine step list" where
  "body_steps k w d old new path =
     (let label = w @ path; rec = diff_schema k w d in [
        only_if (sn_field_numbers (facts old) \<noteq> [] \<or> sn_field_numbers (facts new) \<noteq> [])
          (diff_protobuf_schema old new k label d),
        diff_default old new k label d,
        diff_nullable old new k label d,
        diff_type old new k label d,
        diff_format old new k label d,
        diff_enum old new k label d,
        diff_constraints old new k label d,
        diff_removed_properties old new k label d,
        diff_added_properties old new k label d,
        diff_common_properties rec old new path,
        diff_became_required old new k label d,
        diff_became_optional old new k label d,
        diff_items rec old new path,
        diff_discriminator old new k label d,
        diff_composition rec old new path,
        diff_2020_12 rec old new k w d path])"

lemma diff_schema_steps: "diff_schema k w d old new path = steps (body_steps k w d old new path)"
  by (simp only: diff_schema.simps [of k w d old] diff_schema_body_def body_steps_def Let_def)

lemma uniform_diff_schema: "uniform (diff_schema k w d old new p)"
  by (rule emitter_uniform [OF emitter_diff_schema])

lemma uniform_body_steps: "list_all uniform (body_steps k w d old new path)"
proof -
  note own = emitter_own_attributes [OF covers_type_error, where k = k and w = w and d = d and p = path, THEN emitter_uniform]
    emitter_properties [where E = is_type_error and k = k and w = w and d = d and p = path, THEN emitter_uniform]
    emitter_discriminator [OF covers_type_error, where k = k and w = w and d = d and p = path, THEN emitter_uniform]
    emitter_protobuf [where E = is_type_error and k = k and w = w and d = d and p = path, THEN emitter_uniform]
    emitter_rec_blocks [where k = k and w = w and d = d and p = path, OF emitter_diff_schema, THEN emitter_uniform]
  show ?thesis unfolding body_steps_def Let_def by (simp add: own emitter_only_if)
qed

lemma removed_property_reported:
  assumes "outcome (diff_schema k w d old new p) = Inr cs"
    and "f \<in> set (keys (properties old))" and "f \<notin> set (keys (properties new))"
  shows "\<exists>c \<in> set cs. c_kind c = (if d = ''request'' then PARAMETER_REMOVED else RESPONSE_SCHEMA_CHANGED)
    \<and> c_operation_key c = k \<and> c_direction c = d
    \<and> c_description c = w @ p @ '': field '' @ quoted f @ '' was removed''"
proof -
  let ?m = "diff_removed_properties old new k (w @ p) d"
  have "?m \<in> set (body_steps k w d old new p)" by (simp add: body_steps_def Let_def)
  with steps_succeeds [OF uniform_body_steps assms(1) [unfolded diff_schema_steps]]
  obtain ds where ds: "outcome ?m = Inr ds" "set ds \<subseteq> set cs" by blast
  have f: "f \<in> set (sorted_diff (keys (properties old)) (keys (properties new)))"
    using assms(2,3) by simp
  obtain o_prop where "dict_get (properties old) f = Some o_prop"
    using assms(2) by (auto simp: set_keys_eq_dom)
  let ?args = "\<lambda>o_prop prop. no_args\<lparr>old_location := node_location o_prop, breaking_hint := Some
         (''field '' @ quoted prop @ '' removed from '' @ d @ '': '' @
          (if d = ''request'' then ''clients sending it may be rejected''
           else ''clients reading it will break''))\<rparr>"
  let ?f = "\<lambda>prop. with_key (properties old) prop (\<lambda>o_prop.
    add_change (if d = ''request'' then PARAMETER_REMOVED else RESPONSE_SCHEMA_CHANGED) k d
      ((w @ p) @ '': field '' @ quoted prop @ '' was removed'') (?args o_prop prop))"
  have "uniform (?f x)" for x
    by (auto intro!: emit_intro intro: emitter_raise simp: with_key_def split: option.splits)
  from for_each_member [OF this ds(1) [unfolded diff_removed_properties_def] f] ds(2)
  obtain es where es: "outcome (?f f) = Inr es" "set es \<subseteq> set cs" by blast
  obtain o_prop where "dict_get (properties old) f = Some o_prop"
    using assms(2) by (auto simp: set_keys_eq_dom)
  then have "?f f = add_change (if d = ''request'' then PARAMETER_REMOVED else RESPONSE_SCHEMA_CHANGED) k d
      ((w @ p) @ '': field '' @ quoted f @ '' was removed'') (?args o_prop f)"
    by (simp only: with_key_def option.case)
  with es have "raw_change (if d = ''request'' then PARAMETER_REMOVED else RESPONSE_SCHEMA_CHANGED) k d
      ((w @ p) @ '': field '' @ quoted f @ '' was removed'') (?args o_prop f) \<in> set cs"
    by (auto simp only: outcome_add sum.inject list.set)
  then show ?thesis by (rule bexI [rotated]) simp
qed

end
