(* ===== verification/DiffReach.thy ===== *)
theory DiffReach
  imports DiffIdentity
begin

text \<open>
  Which comparisons a run reaches. \<open>reaches m n\<close> says that whatever the step \<open>m\<close> records
  includes what \<open>n\<close> records on its own; it composes through the statements and loops of a
  method. From the run it leads to the comparison of every response and request schema that
  both contracts declare for the same operation, and to its object properties at any depth.
\<close>

definition reaches :: "engine step \<Rightarrow> engine step \<Rightarrow> bool" where
  "reaches m n \<longleftrightarrow> (\<forall>cs. outcome m = Inr cs \<longrightarrow> (\<exists>ds. outcome n = Inr ds \<and> set ds \<subseteq> set cs))"

lemma reaches_refl: "reaches m m"
  by (simp add: reaches_def)

lemma reaches_trans [trans]: "reaches m n \<Longrightarrow> reaches n q \<Longrightarrow> reaches m q"
  unfolding reaches_def by (meson order_trans)

lemma reaches_outcome: "reaches m n \<Longrightarrow> outcome m = Inr cs \<Longrightarrow> \<exists>ds. outcome n = Inr ds \<and> set ds \<subseteq> set cs"
  by (simp add: reaches_def)

lemma reaches_steps: "m \<in> set ms \<Longrightarrow> list_all uniform ms \<Longrightarrow> reaches (steps ms) m"
  unfolding reaches_def using steps_succeeds by blast

lemma reaches_for_each: "x \<in> set xs \<Longrightarrow> (\<And>x. x \<in> set xs \<Longrightarrow> uniform (f x)) \<Longrightarrow> reaches (for_each xs f) (f x)"
  unfolding reaches_def using for_each_member [of xs f _ x] by auto

text \<open>The loop over the keys both sides have, at one of them.\<close>

lemma reaches_common:
  assumes "dict_get d x = Some a" and "dict_get d' x = Some b"
    and "\<And>x a b. dict_get d x = Some a \<Longrightarrow> dict_get d' x = Some b \<Longrightarrow> uniform (f x a b)"
  shows "reaches (for_each (sorted_inter (keys d) (keys d')) (\<lambda>x. with_key d x (\<lambda>a. with_key d' x (f x a)))) (f x a b)"
proof -
  let ?f = "\<lambda>x. with_key d x (\<lambda>a. with_key d' x (f x a))"
  have "uniform (?f y)" for y
    using assms(3) by (auto intro: emitter_raise simp: with_key_def split: option.splits)
  moreover have "x \<in> set (sorted_inter (keys d) (keys d'))" using assms(1,2) by (auto simp: set_keys_eq_dom)
  ultimately have "reaches (for_each (sorted_inter (keys d) (keys d')) ?f) (?f x)"
    by (intro reaches_for_each)
  moreover have "?f x = f x a b" using assms(1,2) by (simp add: with_key_def)
  ultimately show ?thesis by simp
qed

section \<open>From the run to an operation\<close>

lemma reaches_operation:
  assumes "dict_get (operations_by_key old) k = Some o_op" and "dict_get (operations_by_key new) k = Some n_op"
  shows "reaches (run_steps dumps old new) (diff_operation old new o_op n_op)"
proof -
  have "reaches (run_steps dumps old new) (diff_operations old new)"
    unfolding run_steps_def by (rule reaches_steps) (simp, rule uniform_run_parts)
  moreover have "reaches (diff_operations old new)
      (for_each (sorted_inter (keys (operations_by_key old)) (keys (operations_by_key new))) (\<lambda>k.
        with_key (operations_by_key old) k (\<lambda>o_op. with_key (operations_by_key new) k (\<lambda>n_op.
          diff_operation old new o_op n_op))))" (is "reaches _ ?loop")
    unfolding diff_operations_steps
    by (rule reaches_steps) (simp add: operation_steps_def, rule uniform_diff_operations)
  moreover have "reaches ?loop (diff_operation old new o_op n_op)"
    by (rule reaches_common [OF assms]) (rule emitter_uniform [OF op_emitter_operation])
  ultimately show ?thesis by (blast intro: reaches_trans)
qed

definition operation_parts :: "service \<Rightarrow> service \<Rightarrow> operation \<Rightarrow> operation \<Rightarrow> engine step list" where
  "operation_parts old_svc new_svc old new =
     (let k = key old in [
        diff_parameters old new k,
        diff_grpc_signature old new k,
        diff_request_body old new k,
        diff_responses old new k,
        diff_security old_svc new_svc old new k,
        diff_deprecation old new k,
        diff_documentation old new k,
        only_if (op_kind old = MCP_TOOL \<and> op_kind new = MCP_TOOL) (diff_mcp_tool old new k),
        only_if (op_kind old = SOAP_OPERATION \<and> op_kind new = SOAP_OPERATION)
          (diff_soap_operation old new k),
        diff_examples old new k])"

lemma diff_operation_parts: "diff_operation os ns old new = steps (operation_parts os ns old new)"
  by (simp only: diff_operation_def operation_parts_def Let_def)

lemma uniform_operation_parts: "list_all uniform (operation_parts os ns old new)"
proof -
  note plain = op_emitter_plain [where E = is_type_error, THEN emitter_uniform]
    and nodes = op_emitter_parameters [OF schemas_emit_type_error, THEN emitter_uniform]
      op_emitter_request_body [OF schemas_emit_type_error, THEN emitter_uniform]
      op_emitter_responses [OF schemas_emit_type_error, THEN emitter_uniform]
  show ?thesis unfolding operation_parts_def Let_def by (simp add: emitter_only_if plain nodes)
qed

lemma uniform_response_media: "uniform (diff_response_media r_old r_new status k)"
  unfolding diff_response_media_def by (auto intro!: emit_intro uniform_diff_schema)

lemma uniform_response_headers: "uniform (diff_response_headers r_old r_new status k)"
  unfolding diff_response_headers_def by (auto intro!: emit_intro)

lemma uniform_streaming: "uniform (diff_streaming os ns oc nc k w d)"
proof -
  have "op_emitter is_type_error k (diff_streaming os ns oc nc k w d)"
    by (rule op_emitter_streaming)
      (rule schemas_emitD [OF schemas_emit_type_error [of k "[m]" "[n]" for m n]], simp_all)
  then show ?thesis by (rule emitter_uniform)
qed

lemma uniform_common_response: "uniform (diff_common_response r_old r_new status k)"
  unfolding diff_common_response_def
  by (auto intro!: emit_intro uniform_response_media uniform_response_headers uniform_streaming)

lemma reaches_response_schema:
  assumes "dict_get (index_responses old) status = Some r_old" and "dict_get (index_responses new) status = Some r_new"
    and "dict_get (rs_content r_old) media = Some o_schema" and "dict_get (rs_content r_new) media = Some n_schema"
  shows "reaches (diff_operation os ns old new)
    (diff_schema (key old) (''response '' @ status @ '' body ('' @ media @ '')'') ''response'' o_schema n_schema [])"
proof -
  have "reaches (diff_operation os ns old new) (diff_responses old new (key old))"
    unfolding diff_operation_parts
    by (rule reaches_steps) (simp add: operation_parts_def Let_def, rule uniform_operation_parts)
  also have "reaches (diff_responses old new (key old))
      (for_each (sorted_inter (keys (index_responses old)) (keys (index_responses new))) (\<lambda>status.
        with_key (index_responses old) status (\<lambda>r_old. with_key (index_responses new) status (\<lambda>r_new.
          diff_common_response r_old r_new status (key old)))))" (is "reaches _ ?loop")
    unfolding diff_responses_def Let_def
    by (rule reaches_steps) (auto intro!: emit_intro uniform_common_response)
  also have "reaches ?loop (diff_common_response r_old r_new status (key old))"
    by (rule reaches_common [OF assms(1,2)]) (rule uniform_common_response)
  also have "reaches \<dots> (diff_response_media r_old r_new status (key old))"
    unfolding diff_common_response_def
    by (rule reaches_steps)
      (auto intro!: emit_intro uniform_response_media uniform_response_headers uniform_streaming)
  also have "reaches \<dots> (for_each (sorted_inter (keys (rs_content r_old)) (keys (rs_content r_new))) (\<lambda>media.
      with_key (rs_content r_old) media (\<lambda>o_schema. with_key (rs_content r_new) media (\<lambda>n_schema.
        diff_schema (key old) (''response '' @ status @ '' body ('' @ media @ '')'') ''response''
          o_schema n_schema []))))" (is "reaches _ ?media")
    unfolding diff_response_media_def
    by (rule reaches_steps) (auto intro!: emit_intro uniform_diff_schema)
  also have "reaches ?media (diff_schema (key old) (''response '' @ status @ '' body ('' @ media @ '')'')
      ''response'' o_schema n_schema [])"
    by (rule reaches_common [OF assms(3,4)]) (rule uniform_diff_schema)
  finally show ?thesis .
qed

lemma reaches_request_schema:
  assumes "op_request_body old = Some b_old" and "op_request_body new = Some b_new"
    and "dict_get (rb_content b_old) media = Some o_schema" and "dict_get (rb_content b_new) media = Some n_schema"
  shows "reaches (diff_operation os ns old new)
    (diff_schema (key old)
       ((if payload_direction_of new = ''response'' then ''message payload'' else ''request body'')
        @ '' ('' @ media @ '')'') (payload_direction_of new) o_schema n_schema [])"
proof -
  let ?k = "key old" and ?d = "payload_direction_of new"
  have body_new: "(if Some b_new \<noteq> None then new else old) = new" by simp
  have media: "uniform (diff_request_media b_old b_new ?k d)" for d
    unfolding diff_request_media_def Let_def by (auto intro!: emit_intro uniform_diff_schema)
  have "reaches (diff_operation os ns old new) (diff_request_body old new ?k)"
    unfolding diff_operation_parts
    by (rule reaches_steps) (simp add: operation_parts_def Let_def, rule uniform_operation_parts)
  also have "reaches \<dots> (diff_request_media b_old b_new ?k ?d)"
    unfolding diff_request_body_def Let_def assms(1,2) body_new option.case prod.case
    by (rule reaches_steps) (auto intro!: emit_intro uniform_streaming media)
  also have "reaches \<dots> (for_each (sorted_inter (keys (rb_content b_old)) (keys (rb_content b_new))) (\<lambda>media.
      with_key (rb_content b_old) media (\<lambda>o_schema. with_key (rb_content b_new) media (\<lambda>n_schema.
        diff_schema ?k ((if ?d = ''response'' then ''message payload'' else ''request body'')
          @ '' ('' @ media @ '')'') ?d o_schema n_schema []))))" (is "reaches _ ?media")
    unfolding diff_request_media_def Let_def
    by (rule reaches_steps) (auto intro!: emit_intro uniform_diff_schema)
  also have "reaches ?media (diff_schema ?k ((if ?d = ''response'' then ''message payload'' else ''request body'')
      @ '' ('' @ media @ '')'') ?d o_schema n_schema [])"
    by (rule reaches_common [OF assms(3,4)]) (rule uniform_diff_schema)
  finally show ?thesis .
qed

section \<open>Object properties\<close>

lemma reaches_body_step:
  "m \<in> set (body_steps k w d old new p) \<Longrightarrow> reaches (diff_schema k w d old new p) m"
  unfolding diff_schema_steps by (rule reaches_steps) (simp, rule uniform_body_steps)

lemma reaches_property:
  assumes "dict_get (properties old) q = Some c_old" and "dict_get (properties new) q = Some c_new"
  shows "reaches (diff_schema k w d old new p) (diff_schema k w d c_old c_new (p @ ''.'' @ q))"
proof -
  have "reaches (diff_schema k w d old new p) (diff_common_properties (diff_schema k w d) old new p)"
    by (rule reaches_body_step) (simp add: body_steps_def Let_def)
  also have "reaches \<dots> (diff_schema k w d c_old c_new (p @ ''.'' @ q))"
    unfolding diff_common_properties_def by (rule reaches_common [OF assms]) (rule uniform_diff_schema)
  finally show ?thesis .
qed

lemma reaches_path:
  assumes "at_path ps old = Some o_node" and "at_path ps new = Some n_node"
  shows "reaches (diff_schema k w d old new p) (diff_schema k w d o_node n_node (p @ dotted ps))"
  using assms
proof (induction ps arbitrary: old new p)
  case Nil
  then show ?case by (simp add: dotted_def reaches_refl)
next
  case (Cons q qs)
  then obtain c_old c_new where sub: "dict_get (properties old) q = Some c_old" "at_path qs c_old = Some o_node"
    "dict_get (properties new) q = Some c_new" "at_path qs c_new = Some n_node"
    by (auto split: option.splits)
  from reaches_trans [OF reaches_property [OF sub(1,3)] Cons.IH [OF sub(2,4)]]
  show ?case by (simp add: dotted_def)
qed

lemma removed_at_path:
  assumes "outcome (diff_schema k w d old new p) = Inr cs"
    and "at_path ps old = Some o_node" and "at_path ps new = Some n_node"
    and "f \<in> set (keys (properties o_node))" and "f \<notin> set (keys (properties n_node))"
  shows "\<exists>c \<in> set cs. c_kind c = (if d = ''request'' then PARAMETER_REMOVED else RESPONSE_SCHEMA_CHANGED)
    \<and> c_operation_key c = k \<and> c_direction c = d
    \<and> c_description c = w @ (p @ dotted ps) @ '': field '' @ quoted f @ '' was removed''"
proof -
  obtain ds where "outcome (diff_schema k w d o_node n_node (p @ dotted ps)) = Inr ds" "set ds \<subseteq> set cs"
    using reaches_outcome [OF reaches_path [OF assms(2,3)] assms(1)] by blast
  with removed_property_reported [OF _ assms(4,5)] show ?thesis by (meson subsetD)
qed

text \<open>A numeric bound that differs between two schemas.\<close>

lemma bound_reported:
  assumes "outcome (diff_schema k w d old new p) = Inr cs" and "attr \<in> set CONSTRAINT_ATTRS"
    and "\<not> py_eq (constraint_value attr (facts old)) (constraint_value attr (facts new))"
  shows "\<exists>c \<in> set cs. c_kind c = PARAMETER_CONSTRAINT_CHANGED \<and> c_operation_key c = k \<and> c_direction c = d
    \<and> c_old_value c = constraint_value attr (facts old) \<and> c_new_value c = constraint_value attr (facts new)
    \<and> c_description c = (w @ p) @ '': constraint '' @ quoted attr @ '' changed ''
        @ py_repr (constraint_value attr (facts old)) @ '' -> '' @ py_repr (constraint_value attr (facts new))"
proof -
  have one: "uniform (diff_constraint old new k (w @ p) d a)" for a
    unfolding diff_constraint_def Let_def by (auto intro!: emit_intro)
  have "reaches (diff_schema k w d old new p) (diff_constraints old new k (w @ p) d)"
    by (rule reaches_body_step) (simp add: body_steps_def Let_def)
  also have "reaches \<dots> (diff_constraint old new k (w @ p) d attr)"
    unfolding diff_constraints_def by (rule reaches_for_each [OF assms(2)]) (rule one)
  finally obtain ds where "outcome (diff_constraint old new k (w @ p) d attr) = Inr ds" "set ds \<subseteq> set cs"
    using reaches_outcome assms(1) by blast
  with assms(3) show ?thesis
    by (intro bexI [of _ "hd ds"]) (auto simp: diff_constraint_def Let_def outcome_add)
qed

end
