(* ===== verification/Canonical.thy ===== *)
theory Canonical
  imports DiffBase
begin

text \<open>
  \<open>apiverity/core/canonical.py\<close>. The \<open>findings\<close> list the functions append to is threaded
  as a state. A node is a value here and \<open>model_copy(deep=True)\<close> its identity, except
  where the code shares objects: \<open>_merge_into\<close> puts property nodes of a branch into the
  merged node and may change them when a later branch is merged. The paths adopted from
  each branch are therefore recorded, and \<open>_collapse_all_of\<close>, which hands the branches out
  again when they disagree, finds the adopted nodes as the merging left them.
\<close>

definition TIGHTEN_MAX :: "string list" where
  "TIGHTEN_MAX = [''minimum'', ''exclusive_minimum'', ''min_length'', ''min_items'', ''min_properties'']"

definition TIGHTEN_MIN :: "string list" where
  "TIGHTEN_MIN = [''maximum'', ''exclusive_maximum'', ''max_length'', ''max_items'', ''max_properties'']"

section \<open>Enums\<close>

fun type_name :: "pyval \<Rightarrow> string" where
  "type_name PNone = ''NoneType''"
| "type_name (PBool b) = ''bool''"
| "type_name (PInt i) = ''int''"
| "type_name (PFloat x) = ''float''"
| "type_name (PStr s) = ''str''"
| "type_name (PList vs) = ''list''"
| "type_name (PDict d) = ''dict''"

text \<open>\<open>a < b\<close>, or nothing where Python raises \<open>TypeError\<close>.\<close>

fun py_less :: "pyval \<Rightarrow> pyval \<Rightarrow> bool option"
  and py_less_list :: "pyval list \<Rightarrow> pyval list \<Rightarrow> bool option" where
  "py_less (PStr s) w = (case w of PStr t \<Rightarrow> Some (s < t) | _ \<Rightarrow> None)"
| "py_less (PList xs) w = (case w of PList ys \<Rightarrow> py_less_list xs ys | _ \<Rightarrow> None)"
| "py_less PNone w = None"
| "py_less (PDict d) w = None"
| "py_less (PBool b) w = map_option (flt_lt (int_num (if b then 1 else 0))) (num_of w)"
| "py_less (PInt i) w = map_option (flt_lt (int_num i)) (num_of w)"
| "py_less (PFloat x) w = map_option (flt_lt x) (num_of w)"
| "py_less_list [] ys = Some (ys \<noteq> [])"
| "py_less_list (x # xs) ys = (case ys of [] \<Rightarrow> Some False | y # ys' \<Rightarrow>
     if py_eq x y then py_less_list xs ys' else py_less x y)"

text \<open>The order of the tuples \<open>(type(v).__name__, v)\<close>.\<close>

definition key_less :: "pyval \<Rightarrow> pyval \<Rightarrow> bool option" where
  "key_less v w =
     (if type_name v \<noteq> type_name w then Some (type_name v < type_name w)
      else if py_eq v w then Some False
      else py_less v w)"

fun insert_key :: "pyval \<Rightarrow> pyval list \<Rightarrow> pyval list" where
  "insert_key v [] = [v]"
| "insert_key v (w # ws) = (if key_less w v = Some True then w # insert_key v ws else v # w # ws)"

fun unique_values :: "(string \<times> string) list \<Rightarrow> pyval list \<Rightarrow> pyval list" where
  "unique_values ks [] = []"
| "unique_values ks (v # vs) =
     (let k = (type_name v, py_repr v) in
      if k \<in> set ks then unique_values ks vs else v # unique_values (k # ks) vs)"

text \<open>
  The sort gives up, leaving the order of the document, when two values of one type do not
  compare. (Two such dicts always meet in a sort; two such lists are taken to.)
\<close>

definition stable_unique :: "pyval list \<Rightarrow> pyval list" where
  "stable_unique values =
     (let seen = unique_values [] values in
      if list_all (\<lambda>v. list_all (\<lambda>w. v = w \<or> key_less v w \<noteq> None) seen) seen
      then foldr insert_key seen []
      else seen)"

section \<open>Merging the branches of an allOf\<close>

definition larger_of :: "pyfloat option \<Rightarrow> pyfloat option \<Rightarrow> pyfloat option" where
  "larger_of ours theirs = (case theirs of None \<Rightarrow> ours | Some t \<Rightarrow>
     (case ours of None \<Rightarrow> Some t | Some x \<Rightarrow> Some (if flt_lt x t then t else x)))"

definition smaller_of :: "pyfloat option \<Rightarrow> pyfloat option \<Rightarrow> pyfloat option" where
  "smaller_of ours theirs = (case theirs of None \<Rightarrow> ours | Some t \<Rightarrow>
     (case ours of None \<Rightarrow> Some t | Some x \<Rightarrow> Some (if flt_lt t x then t else x)))"

definition larger_int :: "int option \<Rightarrow> int option \<Rightarrow> int option" where
  "larger_int ours theirs = (case theirs of None \<Rightarrow> ours | Some t \<Rightarrow>
     (case ours of None \<Rightarrow> Some t | Some x \<Rightarrow> Some (if x < t then t else x)))"

definition smaller_int :: "int option \<Rightarrow> int option \<Rightarrow> int option" where
  "smaller_int ours theirs = (case theirs of None \<Rightarrow> ours | Some t \<Rightarrow>
     (case ours of None \<Rightarrow> Some t | Some x \<Rightarrow> Some (if t < x then t else x)))"

text \<open>\<open>_tighten\<close> over the two attribute lists, on a fresh record of facts.\<close>

definition tighten :: "schema_facts \<Rightarrow> schema_facts \<Rightarrow> schema_facts" where
  "tighten b t = t\<lparr>
     sn_minimum := larger_of (sn_minimum t) (sn_minimum b),
     sn_exclusive_minimum := larger_of (sn_exclusive_minimum t) (sn_exclusive_minimum b),
     sn_min_length := larger_int (sn_min_length t) (sn_min_length b),
     sn_min_items := larger_int (sn_min_items t) (sn_min_items b),
     sn_min_properties := larger_int (sn_min_properties t) (sn_min_properties b),
     sn_maximum := smaller_of (sn_maximum t) (sn_maximum b),
     sn_exclusive_maximum := smaller_of (sn_exclusive_maximum t) (sn_exclusive_maximum b),
     sn_max_length := smaller_int (sn_max_length t) (sn_max_length b),
     sn_max_items := smaller_int (sn_max_items t) (sn_max_items b),
     sn_max_properties := smaller_int (sn_max_properties t) (sn_max_properties b)\<rparr>"

definition or_theirs :: "'a option \<Rightarrow> 'a option \<Rightarrow> 'a option" where
  "or_theirs ours theirs = (if ours = None then theirs else ours)"

definition val_or_theirs :: "pyval \<Rightarrow> pyval \<Rightarrow> pyval" where
  "val_or_theirs ours theirs = (if ours = PNone then theirs else ours)"

definition merge_annotations :: "schema_facts \<Rightarrow> schema_facts \<Rightarrow> schema_facts" where
  "merge_annotations b t = t\<lparr>
     sn_format := or_theirs (sn_format t) (sn_format b),
     sn_pattern := or_theirs (sn_pattern t) (sn_pattern b),
     sn_const := val_or_theirs (sn_const t) (sn_const b),
     sn_default := val_or_theirs (sn_default t) (sn_default b),
     sn_example := val_or_theirs (sn_example t) (sn_example b),
     sn_title := or_theirs (sn_title t) (sn_title b),
     sn_description := or_theirs (sn_description t) (sn_description b)\<rparr>"

definition merge_enum :: "pyval list option \<Rightarrow> pyval list option \<Rightarrow> pyval list option" where
  "merge_enum b t = (case b of None \<Rightarrow> t | Some bs \<Rightarrow>
     (case t of None \<Rightarrow> Some (stable_unique bs)
      | Some ts \<Rightarrow> Some (stable_unique (filter (\<lambda>v. py_in v bs) ts))))"

text \<open>Everything \<open>_merge_into\<close> does to the attributes of the target after the properties.\<close>

definition merge_facts :: "schema_facts \<Rightarrow> schema_facts \<Rightarrow> schema_facts" where
  "merge_facts b t =
     (let t = t\<lparr>sn_required := sorted_union (sn_required t) (sn_required b)\<rparr>;
          t = t\<lparr>sn_enum := merge_enum (sn_enum b) (sn_enum t)\<rparr>;
          t = merge_annotations b (tighten b t)
      in if sn_nullable b then t\<lparr>sn_nullable := True\<rparr> else t)"

definition carries :: "bool \<Rightarrow> string \<Rightarrow> string list" where
  "carries present keyword =
     (if present then [''a branch carries `'' @ keyword @ ''`, which cannot be merged unambiguously''] else [])"

definition unmergeable :: "schema_node \<Rightarrow> string list" where
  "unmergeable b =
     carries (sn_dependent_required (facts b) \<noteq> []) ''dependentRequired''
     @ carries (dependent_schemas b \<noteq> []) ''dependentSchemas''
     @ carries (pattern_properties b \<noteq> []) ''patternProperties''
     @ carries (list_or_empty (prefix_items b) \<noteq> []) ''prefixItems''
     @ carries (if_schema b \<noteq> None) ''if''
     @ carries (contains_schema b \<noteq> None) ''contains''
     @ carries (property_names b \<noteq> None) ''propertyNames''"

definition with_parts ::
  "schema_facts \<Rightarrow> (string, schema_node) dict \<Rightarrow> schema_node option \<Rightarrow> schema_node \<Rightarrow> schema_node" where
  "with_parts f ps it n = SchemaNode f ps (additional_properties n) it (one_of n) (any_of n) (all_of n)
     (not_schema n) (prefix_items n) (contains_schema n) (pattern_properties n) (property_names n)
     (dependent_schemas n) (if_schema n) (then_schema n) (else_schema n)"

text \<open>What merging a branch leaves: the target, the conflicts, the paths adopted from the branch.\<close>

type_synonym merged = "schema_node \<times> string list \<times> string list list"

lemma property_size: "(name, child) \<in> set (properties n) \<Longrightarrow> size child < size n"
  by (rule sub_schema_size) (force simp: sub_schemas_def)

function merge_into :: "string list \<Rightarrow> schema_node \<Rightarrow> schema_node \<Rightarrow> string list \<Rightarrow> string list list \<Rightarrow> merged" where
  "merge_into path branch target conflicts adopted =
     (let b = facts branch; t = facts target in
      if sn_type b \<noteq> None \<and> sn_type t \<noteq> None \<and> sn_type t \<noteq> sn_type b then
        (target, conflicts @ [''type '' @ opt_repr (sn_type t) @ '' vs '' @ opt_repr (sn_type b)], adopted)
      else
        let t = (if sn_type b \<noteq> None then t\<lparr>sn_type := sn_type b\<rparr> else t);
            (props, conflicts, adopted) = fold (\<lambda>(name, child) (props, conflicts, adopted).
              (case dict_get props name of
                 None \<Rightarrow> (dict_set name child props, conflicts, adopted @ [path @ [name]])
               | Some existing \<Rightarrow>
                   if truthy_str (node_type existing) \<and> truthy_str (node_type child)
                      \<and> node_type existing \<noteq> node_type child then
                     (props, conflicts @ [''property '' @ str_repr name @ '' typed ''
                        @ opt_repr (node_type existing) @ '' and '' @ opt_repr (node_type child)], adopted)
                   else
                     let (existing, conflicts, adopted) =
                           merge_into (path @ [name]) child existing conflicts adopted
                     in (dict_set name existing props, conflicts, adopted)))
              (properties branch) (properties target, conflicts, adopted)
        in (with_parts (merge_facts b t) props
              (if items target = None then items branch else items target) target,
            conflicts @ unmergeable branch, adopted))"
  by pat_completeness auto
termination
  by (relation "measure (\<lambda>(path, branch, target, conflicts, adopted). size branch)")
    (auto intro!: property_size)

declare merge_into.simps [simp del]

text \<open>One round of the loop over the branch's properties, and \<open>merge_into\<close> in terms of it.\<close>

definition merge_property :: "string list \<Rightarrow> string \<times> schema_node \<Rightarrow>
    (string, schema_node) dict \<times> string list \<times> string list list \<Rightarrow>
    (string, schema_node) dict \<times> string list \<times> string list list" where
  "merge_property path = (\<lambda>(name, child) (props, conflicts, adopted).
     (case dict_get props name of
        None \<Rightarrow> (dict_set name child props, conflicts, adopted @ [path @ [name]])
      | Some existing \<Rightarrow>
          if truthy_str (node_type existing) \<and> truthy_str (node_type child)
             \<and> node_type existing \<noteq> node_type child then
            (props, conflicts @ [''property '' @ str_repr name @ '' typed ''
               @ opt_repr (node_type existing) @ '' and '' @ opt_repr (node_type child)], adopted)
          else
            let (existing, conflicts, adopted) = merge_into (path @ [name]) child existing conflicts adopted
            in (dict_set name existing props, conflicts, adopted)))"

lemma merge_into_fold:
  "merge_into path branch target conflicts adopted =
     (let b = facts branch; t = facts target in
      if sn_type b \<noteq> None \<and> sn_type t \<noteq> None \<and> sn_type t \<noteq> sn_type b then
        (target, conflicts @ [''type '' @ opt_repr (sn_type t) @ '' vs '' @ opt_repr (sn_type b)], adopted)
      else
        let t = (if sn_type b \<noteq> None then t\<lparr>sn_type := sn_type b\<rparr> else t);
            (props, conflicts, adopted) =
              fold (merge_property path) (properties branch) (properties target, conflicts, adopted)
        in (with_parts (merge_facts b t) props
              (if items target = None then items branch else items target) target,
            conflicts @ unmergeable branch, adopted))"
  unfolding merge_property_def by (rule merge_into.simps)

text \<open>The node at a path replaced, and a branch after the nodes adopted from it were merged on.\<close>

fun replace_at :: "string list \<Rightarrow> schema_node \<Rightarrow> schema_node \<Rightarrow> schema_node" where
  "replace_at [] m n = m"
| "replace_at (p # ps) m n = (case dict_get (properties n) p of
     None \<Rightarrow> n
   | Some c \<Rightarrow> with_parts (facts n) (dict_set p (replace_at ps m c) (properties n)) (items n) n)"

definition write_back :: "schema_node \<Rightarrow> schema_node \<times> string list list \<Rightarrow> schema_node" where
  "write_back merged = (\<lambda>(branch, paths).
     fold (\<lambda>p b. case at_path p merged of None \<Rightarrow> b | Some m \<Rightarrow> replace_at p m b) paths branch)"

text \<open>The loop over the branches, with the paths adopted from each.\<close>

fun merge_all :: "schema_node list \<Rightarrow> schema_node \<Rightarrow> string list \<Rightarrow>
    schema_node \<times> string list \<times> string list list list" where
  "merge_all [] target conflicts = (target, conflicts, [])"
| "merge_all (b # bs) target conflicts =
     (let (target, conflicts, paths) = merge_into [] b target conflicts [];
          (target, conflicts, pathss) = merge_all bs target conflicts
      in (target, conflicts, paths # pathss))"

definition conflict_finding :: "string \<Rightarrow> string list \<Rightarrow> finding" where
  "conflict_finding location conflicts = \<lparr>
     f_rule_id = ''SPEC-ALLOF-CONFLICT'', f_severity = WARN,
     f_message = ''allOf at '' @ location @ '' was not collapsed because its branches disagree: ''
       @ join ''; '' (sorted_set conflicts)
       @ ''. The composition is compared branch by branch instead, which is noisier but does not invent a merge'',
     f_operation_key = None, f_location = None, f_new_location = None, f_change_id = None,
     f_hint = None, f_metadata = []\<rparr>"

definition with_all_of :: "schema_node list option \<Rightarrow> schema_node \<Rightarrow> schema_node" where
  "with_all_of bs n = SchemaNode (facts n) (properties n) (additional_properties n) (items n) (one_of n)
     (any_of n) bs (not_schema n) (prefix_items n) (contains_schema n) (pattern_properties n)
     (property_names n) (dependent_schemas n) (if_schema n) (then_schema n) (else_schema n)"

text \<open>\<open>_collapse_all_of\<close> after its branches were canonicalized.\<close>

definition collapse_branches :: "schema_node \<Rightarrow> schema_node list \<Rightarrow> string \<Rightarrow> finding list \<Rightarrow> schema_node \<times> finding list" where
  "collapse_branches node branches location findings =
     (let (merged, conflicts, paths) = merge_all branches (with_all_of None node) [] in
      if conflicts \<noteq> [] then
        (with_all_of (Some (map (write_back merged) (zip branches paths))) node,
         findings @ [conflict_finding location conflicts])
      else (merged, findings))"

section \<open>The walk\<close>

text \<open>A function that may append findings, over the nodes of a list, a dict and an option.\<close>

fun map_acc :: "('a \<Rightarrow> 's \<Rightarrow> 'b \<times> 's) \<Rightarrow> 'a list \<Rightarrow> 's \<Rightarrow> 'b list \<times> 's" where
  "map_acc f [] s = ([], s)"
| "map_acc f (x # xs) s = (let (y, s) = f x s; (ys, s) = map_acc f xs s in (y # ys, s))"

lemma map_acc_cong [fundef_cong]:
  "xs = ys \<Longrightarrow> s = t \<Longrightarrow> (\<And>x s. x \<in> set ys \<Longrightarrow> f x s = g x s) \<Longrightarrow> map_acc f xs s = map_acc g ys t"
  by (induction xs arbitrary: ys s t) (auto split: prod.splits)

definition opt_acc :: "('a \<Rightarrow> 's \<Rightarrow> 'b \<times> 's) \<Rightarrow> 'a option \<Rightarrow> 's \<Rightarrow> 'b option \<times> 's" where
  "opt_acc f v s = (case v of None \<Rightarrow> (None, s) | Some x \<Rightarrow> let (y, s) = f x s in (Some y, s))"

type_synonym canon_call = "schema_node \<Rightarrow> string \<Rightarrow> finding list \<Rightarrow> schema_node \<times> finding list"

definition canon_dict ::
  "canon_call \<Rightarrow> (string \<Rightarrow> string) \<Rightarrow> (string, schema_node) dict \<Rightarrow> finding list \<Rightarrow>
   (string, schema_node) dict \<times> finding list" where
  "canon_dict rec place d = map_acc (\<lambda>(name, child) fs.
     let (child, fs) = rec child (place name) fs in ((name, child), fs)) (sort_key fst d)"

definition canon_list ::
  "canon_call \<Rightarrow> (nat \<Rightarrow> string) \<Rightarrow> schema_node list option \<Rightarrow> finding list \<Rightarrow>
   schema_node list option \<times> finding list" where
  "canon_list rec place = opt_acc (\<lambda>vs. map_acc (\<lambda>(i, v). rec v (place i)) (List.enumerate 0 vs))"

definition canon_opt :: "canon_call \<Rightarrow> string \<Rightarrow> schema_node option \<Rightarrow> finding list \<Rightarrow>
   schema_node option \<times> finding list" where
  "canon_opt rec place = opt_acc (\<lambda>v. rec v place)"

definition canonicalize_2020_12 :: "canon_call \<Rightarrow> schema_node \<Rightarrow> string \<Rightarrow> finding list \<Rightarrow> schema_node \<times> finding list" where
  "canonicalize_2020_12 rec n location fs =
     (let (prefix, fs) = canon_list rec (\<lambda>i. location @ ''['' @ nat_str i @ '']'') (prefix_items n) fs;
          (cont, fs) = canon_opt rec (location @ ''/contains'') (contains_schema n) fs;
          (names, fs) = canon_opt rec (location @ ''/propertyNames'') (property_names n) fs;
          (patterns, fs) = canon_dict rec (\<lambda>e. location @ ''/~'' @ e) (pattern_properties n) fs;
          (dependents, fs) = canon_dict rec (\<lambda>name. location @ ''?'' @ name) (dependent_schemas n) fs;
          required = map (\<lambda>(name, names). (name, sorted_set names))
            (sort_key fst (sn_dependent_required (facts n)));
          (if_s, fs) = canon_opt rec (location @ ''/if'') (if_schema n) fs;
          (then_s, fs) = canon_opt rec (location @ ''/then'') (then_schema n) fs;
          (else_s, fs) = canon_opt rec (location @ ''/else'') (else_schema n) fs
      in (SchemaNode ((facts n)\<lparr>sn_dependent_required := required\<rparr>) (properties n)
            (additional_properties n) (items n) (one_of n) (any_of n) (all_of n) (not_schema n)
            prefix cont patterns names dependents if_s then_s else_s, fs))"

definition canonicalize_additional :: "canon_call \<Rightarrow> string \<Rightarrow> schema_node additional \<Rightarrow> finding list \<Rightarrow>
   schema_node additional \<times> finding list" where
  "canonicalize_additional rec place a fs =
     (case a of AddlSchema m \<Rightarrow> let (m, fs) = rec m place fs in (AddlSchema m, fs) | _ \<Rightarrow> (a, fs))"

definition canonicalize_children :: "canon_call \<Rightarrow> schema_node \<Rightarrow> string \<Rightarrow> finding list \<Rightarrow> schema_node \<times> finding list" where
  "canonicalize_children rec n location fs =
     (let (props, fs) = canon_dict rec (\<lambda>name. location @ ''.'' @ name) (properties n) fs;
          (it, fs) = canon_opt rec (location @ ''[]'') (items n) fs;
          (additional, fs) = canonicalize_additional rec (location @ ''.*'') (additional_properties n) fs;
          (ones, fs) = canon_list rec (\<lambda>i. location @ ''/one_of['' @ nat_str i @ '']'') (one_of n) fs;
          (anys, fs) = canon_list rec (\<lambda>i. location @ ''/any_of['' @ nat_str i @ '']'') (any_of n) fs
      in (SchemaNode (facts n) props additional it ones anys (all_of n) (not_schema n) (prefix_items n)
            (contains_schema n) (pattern_properties n) (property_names n) (dependent_schemas n)
            (if_schema n) (then_schema n) (else_schema n), fs))"

definition collapse_all_of :: "canon_call \<Rightarrow> schema_node \<Rightarrow> schema_node \<Rightarrow> string \<Rightarrow> finding list \<Rightarrow> schema_node \<times> finding list" where
  "collapse_all_of rec schema node location fs =
     (let (branches, fs) = map_acc (\<lambda>b. rec b (location @ ''/allOf'')) (list_or_empty (all_of schema)) fs
      in collapse_branches node branches location fs)"

definition order_facts :: "schema_node \<Rightarrow> schema_node" where
  "order_facts n =
     with_parts ((facts n)\<lparr>sn_enum := map_option stable_unique (sn_enum (facts n)),
                          sn_required := sorted_set (sn_required (facts n))\<rparr>)
       (properties n) (items n) n"

definition canonicalize_body :: "canon_call \<Rightarrow> schema_node \<Rightarrow> string \<Rightarrow> finding list \<Rightarrow> schema_node \<times> finding list" where
  "canonicalize_body rec schema location fs =
     (let (node, fs) = canonicalize_children rec schema location fs;
          (node, fs) = canonicalize_2020_12 rec node location fs;
          (node, fs) = (if list_or_empty (all_of schema) \<noteq> []
                        then collapse_all_of rec schema node location fs else (node, fs))
      in (order_facts node, fs))"

lemma canon_dict_cong:
  "(\<And>name c. (name, c) \<in> set d \<Longrightarrow> rec c = rec' c) \<Longrightarrow> canon_dict rec place d = canon_dict rec' place d"
  unfolding canon_dict_def by (intro ext map_acc_cong refl) auto

lemma canon_list_cong:
  assumes "\<And>c. c \<in> set (list_or_empty v) \<Longrightarrow> rec c = rec' c"
  shows "canon_list rec place v = canon_list rec' place v"
proof (cases v)
  case (Some vs)
  have "map_acc (\<lambda>(i, v). rec v (place i)) (List.enumerate 0 vs) fs
      = map_acc (\<lambda>(i, v). rec' v (place i)) (List.enumerate 0 vs) fs" for fs
    using assms Some
    by (intro map_acc_cong refl) (auto simp: list_or_empty_def enumerate_eq_zip dest!: set_zip_rightD)
  with Some show ?thesis by (simp add: canon_list_def opt_acc_def fun_eq_iff)
qed (simp add: canon_list_def opt_acc_def fun_eq_iff)

lemma canon_opt_cong:
  "(\<And>c. v = Some c \<Longrightarrow> rec c = rec' c) \<Longrightarrow> canon_opt rec place v = canon_opt rec' place v"
  unfolding canon_opt_def opt_acc_def by (cases v) auto

text \<open>The sub-schemas the second half of the walk visits; the first half leaves them alone.\<close>

definition late_schemas :: "schema_node \<Rightarrow> schema_node list" where
  "late_schemas n = list_or_empty (prefix_items n) @ opt_nodes (contains_schema n) @ opt_nodes (property_names n)
     @ map snd (pattern_properties n) @ map snd (dependent_schemas n)
     @ opt_nodes (if_schema n) @ opt_nodes (then_schema n) @ opt_nodes (else_schema n)"

lemma late_schemas_sub: "set (late_schemas n) \<subseteq> set (sub_schemas n)"
  by (auto simp: late_schemas_def sub_schemas_def)

lemma canonicalize_children_keeps:
  "canonicalize_children rec n location fs = (m, fs') \<Longrightarrow> late_schemas m = late_schemas n"
  by (auto simp: canonicalize_children_def late_schemas_def Let_def split: prod.splits)

lemma opt_nodes_Some [simp]: "set (opt_nodes (Some c)) = {c}"
  by (simp add: opt_nodes_def)

lemma canonicalize_2020_12_cong:
  assumes "\<And>c. c \<in> set (late_schemas n) \<Longrightarrow> rec c = rec' c"
  shows "canonicalize_2020_12 rec n = canonicalize_2020_12 rec' n"
proof -
  have "canon_list rec place (prefix_items n) = canon_list rec' place (prefix_items n)" for place
    by (rule canon_list_cong, rule assms) (simp add: late_schemas_def)
  moreover have "canon_opt rec place v = canon_opt rec' place v"
    if "v \<in> {contains_schema n, property_names n, if_schema n, then_schema n, else_schema n}" for place v
    using that by (intro canon_opt_cong assms) (auto simp: late_schemas_def opt_nodes_def)
  moreover have "canon_dict rec place d = canon_dict rec' place d"
    if "d \<in> {pattern_properties n, dependent_schemas n}" for place d
    using that by (intro canon_dict_cong assms) (force simp: late_schemas_def)
  ultimately show ?thesis by (simp add: canonicalize_2020_12_def fun_eq_iff)
qed

lemma canonicalize_children_cong:
  assumes "\<And>c. c \<in> set (sub_schemas n) \<Longrightarrow> rec c = rec' c"
  shows "canonicalize_children rec n = canonicalize_children rec' n"
proof -
  have "canon_list rec place v = canon_list rec' place v" if "v \<in> {one_of n, any_of n}" for place v
    using that by (intro canon_list_cong assms) (auto simp: sub_schemas_def)
  moreover have "canon_opt rec place (items n) = canon_opt rec' place (items n)" for place
    by (intro canon_opt_cong assms) (simp add: sub_schemas_def)
  moreover have "canon_dict rec place (properties n) = canon_dict rec' place (properties n)" for place
    by (intro canon_dict_cong assms) (force simp: sub_schemas_def)
  moreover have "canonicalize_additional rec place (additional_properties n)
      = canonicalize_additional rec' place (additional_properties n)" for place
    unfolding canonicalize_additional_def
    by (cases "additional_properties n") (auto simp: fun_eq_iff assms sub_schemas_def)
  ultimately show ?thesis by (simp add: canonicalize_children_def fun_eq_iff)
qed

lemma canonicalize_body_cong [fundef_cong]:
  assumes "n = n'" and "location = location'" and "fs = fs'"
    and "\<And>c l f. c \<in> set (sub_schemas n') \<Longrightarrow> rec c l f = rec' c l f"
  shows "canonicalize_body rec n location fs = canonicalize_body rec' n' location' fs'"
proof -
  have calls: "rec c = rec' c" if "c \<in> set (sub_schemas n')" for c
    using assms(4) [OF that] by (simp add: fun_eq_iff)
  have "canonicalize_2020_12 rec m = canonicalize_2020_12 rec' m"
    if "canonicalize_children rec' n' location' fs' = (m, gs)" for m gs
    using canonicalize_children_keeps [OF that] late_schemas_sub [of n']
    by (intro canonicalize_2020_12_cong calls) auto
  moreover have "collapse_all_of rec n' = collapse_all_of rec' n'"
  proof -
    have "map_acc (\<lambda>b. rec b place) (list_or_empty (all_of n')) gs
        = map_acc (\<lambda>b. rec' b place) (list_or_empty (all_of n')) gs" for place gs
      by (intro map_acc_cong refl) (simp add: calls sub_schemas_def)
    then show ?thesis by (simp add: collapse_all_of_def fun_eq_iff)
  qed
  moreover have "canonicalize_children rec n' = canonicalize_children rec' n'"
    by (rule canonicalize_children_cong) (rule calls)
  ultimately show ?thesis
    unfolding assms(1-3) canonicalize_body_def
    by (cases "canonicalize_children rec' n' location' fs'") (simp split: prod.splits)
qed

function canonicalize_schema :: "schema_node \<Rightarrow> string \<Rightarrow> finding list \<Rightarrow> schema_node \<times> finding list" where
  "canonicalize_schema schema location findings =
     canonicalize_body (\<lambda>sub place fs. canonicalize_schema sub place fs) schema location findings"
  by pat_completeness auto
termination
  by (relation "measure (\<lambda>(schema, location, findings). size schema)") (simp_all add: sub_schema_size)

declare canonicalize_schema.simps [simp del]

section \<open>Operations and services\<close>

definition canonical_response :: "string \<Rightarrow> response \<Rightarrow> finding list \<Rightarrow> response \<times> finding list" where
  "canonical_response k r fs =
     (let (content, fs) = canon_dict canonicalize_schema
            (\<lambda>media. k @ '' response '' @ rs_status r @ '' '' @ media) (rs_content r) fs
      in (r\<lparr>rs_content := content\<rparr>, fs))"

definition canonical_parameter :: "string \<Rightarrow> parameter \<Rightarrow> finding list \<Rightarrow> parameter \<times> finding list" where
  "canonical_parameter k p fs =
     (let (schema, fs) = canon_opt canonicalize_schema (k @ '' parameter '' @ p_name p) (p_schema_node p) fs
      in (p\<lparr>p_schema_node := schema\<rparr>, fs))"

definition canonical_body :: "string \<Rightarrow> request_body \<Rightarrow> finding list \<Rightarrow> request_body \<times> finding list" where
  "canonical_body k b fs =
     (let (content, fs) = canon_dict canonicalize_schema (\<lambda>media. k @ '' request '' @ media) (rb_content b) fs
      in (b\<lparr>rb_content := content\<rparr>, fs))"

definition canonical_operation :: "operation \<Rightarrow> finding list \<Rightarrow> operation \<times> finding list" where
  "canonical_operation op fs =
     (let k = key op;
          (body, fs) = opt_acc (canonical_body k) (op_request_body op) fs;
          (responses, fs) = map_acc (canonical_response k) (op_responses op) fs;
          (params, fs) = map_acc (canonical_parameter k) (op_parameters op) fs
      in (op\<lparr>op_request_body := body, op_responses := responses, op_parameters := params\<rparr>, fs))"

definition canonicalize_service :: "service \<Rightarrow> service \<times> finding list" where
  "canonicalize_service svc =
     (let (ops, fs) = map_acc canonical_operation (svc_operations svc) []
      in (svc\<lparr>svc_operations := ops\<rparr>, fs))"

end
