(* ===== verification/Breaking.thy ===== *)
theory Breaking
  imports DiffBase
begin

text \<open>
  \<open>apiverity/rules/breaking.py\<close>: the catalog of rules, the direction-aware classification
  of one change, and the engine that turns a change list into findings.

  \<open>report\<close> is the code's \<open>[self._finding(rule, change, change.description)]\<close>: the lookup
  of the severity may raise \<open>KeyError\<close>. \<open>_evaluate_change\<close> is one long chain of tests on
  the kind; it is split at its comment headings into \<open>evaluate_change\<close>,
  \<open>evaluate_request_kinds\<close> and \<open>evaluate_shape_kinds\<close>, each falling through to the next.
\<close>

section \<open>The catalog\<close>

definition tighten_on_increase :: "string list" where
  "tighten_on_increase = [''minimum'', ''exclusive_minimum'', ''min_length'', ''min_items'',
     ''min_properties'', ''multiple_of'']"

definition tighten_on_decrease :: "string list" where
  "tighten_on_decrease = [''maximum'', ''exclusive_maximum'', ''max_length'', ''max_items'',
     ''max_properties'']"

record rule_spec =
  ru_rule_id :: string
  ru_severity :: severity
  ru_description :: string

abbreviation rule :: "string \<Rightarrow> severity \<Rightarrow> string \<Rightarrow> rule_spec" where
  "rule i s d \<equiv> \<lparr>ru_rule_id = i, ru_severity = s, ru_description = d\<rparr>"

text \<open>The list the catalog is built from, in source order, in three parts.\<close>

definition catalog_operations :: "rule_spec list" where
  "catalog_operations = [
     rule ''BRK-OP-REMOVED'' ERROR
       ''An operation was removed; existing callers will fail.'',
     rule ''BRK-STREAM-SEQUENTIAL-CHANGED'' ERROR
       (''A payload moved between a single document and a sequence of items; ''
        @ ''every client has to be rewritten even when the item shape is ''
        @ ''identical.''),
     rule ''BRK-STREAM-ITEM-SCHEMA-REMOVED'' ERROR
       (''A sequential media type stopped declaring `itemSchema`, so nothing ''
        @ ''describes one item any more.''),
     rule ''BRK-STREAM-ITEM-SCHEMA-ADDED'' INFO
       ''A sequential media type now declares `itemSchema`.'',
     rule ''BRK-STREAM-ENCODING-CHANGED'' ERROR
       (''The encoding of a streamed item changed; the part still arrives and ''
        @ ''the parser reading it fails.''),
     rule ''BRK-STREAM-PREFIX-COUNT-CHANGED'' ERROR
       (''The number of leading parts in a multipart stream changed; ''
        @ ''`prefixEncoding` is positional, so a reader counting parts reads the ''
        @ ''wrong one from there on.''),
     rule ''BRK-RPC-STREAMING-CHANGED'' ERROR
       (''An RPC changed streaming cardinality; generated clients call it ''
        @ ''wrongly.''),
     rule ''BRK-FIELD-NUMBER-REUSED'' ERROR
       (''A protobuf field number now names a different field; stored data ''
        @ ''misdecodes.''),
     rule ''BRK-FIELD-NUMBER-UNRESERVED'' WARN
       ''A protobuf field was removed without reserving its number.'',
     rule ''BRK-FIELD-PRESENCE-LOST'' ERROR
       (''A protobuf field lost explicit presence; unset and default are now the''
        @ '' same.''),
     rule ''BRK-ONEOF-NARROWED'' ERROR
       (''A protobuf field moved into a oneof; it is now exclusive with the ''
        @ ''others.''),
     rule ''BRK-ONEOF-WIDENED'' INFO
       ''A protobuf field moved out of a oneof; no existing sender can notice.'',
     rule ''BRK-RESERVATION-REMOVED'' WARN
       (''A protobuf field number is no longer reserved and can be reused by ''
        @ ''mistake.''),
     rule ''BRK-RPC-REMOVED'' ERROR
       ''A gRPC RPC was removed; existing callers will fail.'',
     rule ''BRK-OP-ADDED'' INFO
       ''A new operation was added (additive, non-breaking).'',
     rule ''BRK-RPC-ADDED'' INFO
       ''A new gRPC RPC was added (additive, non-breaking).'',
     rule ''BRK-PARAM-REMOVED'' ERROR
       ''A request parameter was removed.'',
     rule ''BRK-PARAM-ADDED-REQUIRED'' ERROR
       ''A new required request parameter was added.'',
     rule ''BRK-PARAM-ADDED-OPTIONAL'' INFO
       ''A new optional request parameter was added.'',
     rule ''BRK-PARAM-REQUIRED'' ERROR
       ''An optional request parameter became required.'',
     rule ''BRK-PARAM-OPTIONALIZED'' INFO
       ''A required request parameter became optional.'',
     rule ''BRK-PARAM-TYPE-CHANGED'' ERROR
       ''A request parameter's type/format changed.'',
     rule ''BRK-RESP-TYPE-CHANGED'' WARN
       ''A response field's type changed; consumers may misparse values.'',
     rule ''BRK-CONSTRAINT-TIGHTENED'' ERROR
       ''A request constraint was tightened; previously valid inputs fail.'',
     rule ''BRK-CONSTRAINT-LOOSENED'' INFO
       ''A request constraint was loosened (previously invalid inputs pass).'',
     rule ''BRK-RESP-CONSTRAINT-TIGHTENED'' WARN
       (''A response constraint was tightened; returned values may fall outside ''
        @ ''what clients expect.''),
     rule ''BRK-ENUM-NARROWED-REQUEST'' ERROR
       ''Request enum values were removed; clients sending old values fail.'',
     rule ''BRK-ENUM-NARROWED-RESPONSE'' WARN
       (''Response enum values were removed; clients may encounter undeclared ''
        @ ''values at runtime.''),
     rule ''BRK-ENUM-WIDENED'' INFO
       ''Enum values were added (additive).'',
     rule ''BRK-RESP-NULLABLE-ADDED'' WARN
       (''A response value that was never null may now be null; every reader ''
        @ ''that did not check breaks on the first one, and in a generated client ''
        @ ''the field changes type at every use site.''),
     rule ''BRK-RESP-NULLABLE-REMOVED'' INFO
       (''A response value can no longer be null (narrowing a response is safe ''
        @ ''for readers).''),
     rule ''BRK-REQ-NULLABLE-REMOVED'' ERROR
       (''A request field that accepted null no longer does; payloads that were ''
        @ ''valid are now rejected.'')]"

definition catalog_fields :: "rule_spec list" where
  "catalog_fields = [
     rule ''BRK-REQ-NULLABLE-ADDED'' INFO
       ''A request field now accepts null as well (additive).'',
     rule ''BRK-RESP-CONSTRAINT-LOOSENED'' WARN
       (''A bound on a response field was relaxed or removed; the service may ''
        @ ''now return values a consumer written against the old bound rejects.''),
     rule ''BRK-REQ-FIELD-REMOVED'' ERROR
       ''A request body field was removed.'',
     rule ''BRK-REQ-FIELD-OPTIONALIZED'' INFO
       ''A request body field became optional; senders are unaffected.'',
     rule ''BRK-RESP-FIELD-OPTIONALIZED'' ERROR
       (''A response field is no longer guaranteed; consumers reading it ''
        @ ''unconditionally will break.''),
     rule ''BRK-REQ-FIELD-ADDED-REQUIRED'' ERROR
       ''A required field was added to a request body.'',
     rule ''BRK-REQ-FIELD-ADDED-OPTIONAL'' INFO
       ''An optional field was added to a request body.'',
     rule ''BRK-REQ-FIELD-BECAME-REQUIRED'' ERROR
       ''A request body field became required.'',
     rule ''BRK-RESP-FIELD-REMOVED'' ERROR
       ''A response body field was removed; readers of it break.'',
     rule ''BRK-RESP-FIELD-ADDED'' INFO
       ''A response body field was added (consumers ignore unknown fields).'',
     rule ''BRK-REQ-BODY-REMOVED'' ERROR
       ''The request body was removed.'',
     rule ''BRK-REQ-BODY-ADDED-REQUIRED'' ERROR
       ''A required request body was added.'',
     rule ''BRK-REQ-BODY-ADDED-OPTIONAL'' INFO
       ''An optional request body was added.'',
     rule ''BRK-REQ-BODY-REQUIRED'' ERROR
       ''The request body became required.'',
     rule ''BRK-RESP-STATUS-REMOVED'' ERROR
       ''A declared response status was removed.'',
     rule ''BRK-RESP-STATUS-ADDED'' INFO
       ''A new response status was declared.'',
     rule ''BRK-HEADER-REMOVED'' WARN
       ''A declared response header was removed.'',
     rule ''BRK-HEADER-ADDED'' INFO
       ''A new response header was declared.'',
     rule ''BRK-SECURITY-CHANGED'' ERROR
       ''Security requirements changed; unprepared clients fail auth.'',
     rule ''BRK-DEPRECATION-ADDED'' WARN
       ''The operation is now deprecated; plan migration.'',
     rule ''BRK-DEPRECATION-REMOVED'' INFO
       ''The deprecation marker was removed.'',
     rule ''BRK-DEPENDENT-REQUIRED-ADDED'' ERROR
       (''Sending one field now requires another. A request that set the first ''
        @ ''without the second was valid and is not.''),
     rule ''BRK-DEPENDENT-REQUIRED-REMOVED'' WARN
       (''A field no longer forces another to be present. Harmless in a request;''
        @ '' in a response it withdraws a guarantee consumers may read ''
        @ ''unconditionally.''),
     rule ''BRK-DEPENDENT-SCHEMA-CHANGED'' WARN
       (''A schema that applies only when some field is present was added, ''
        @ ''removed or changed; what is valid now depends on which fields are ''
        @ ''sent.''),
     rule ''BRK-TUPLE-SHAPE-CHANGED'' ERROR
       (''Positional array items changed length or type. Tuple members are read ''
        @ ''by index, so a change at one position shifts or misparses every ''
        @ ''reader.''),
     rule ''BRK-PATTERN-PROPERTIES-CHANGED'' WARN
       (''The schema applied to properties matching a name pattern was added, ''
        @ ''removed or changed; a whole family of fields changed shape at once.''),
     rule ''BRK-PROPERTY-NAMES-CHANGED'' WARN
       (''The constraint on what property *names* are allowed changed; keys that''
        @ '' used to be accepted may not be.''),
     rule ''BRK-CONTAINS-CHANGED'' WARN
       (''An array's `contains` requirement or its bounds changed; an array that''
        @ '' satisfied the old rule may not satisfy the new one.''),
     rule ''BRK-CONDITIONAL-SCHEMA-CHANGED'' WARN
       (''An `if`/`then`/`else` branch was added, removed or changed. What is ''
        @ ''valid now depends on a condition, and the condition moved.''),
     rule ''BRK-MEDIA-TYPE-CHANGED'' ERROR
       ''A request/response media type was added or removed.'',
     rule ''BRK-MCP-TOOL-DESCRIPTION-CHANGED'' WARN
       (''A tool description changed. For an MCP tool the description is the ''
        @ ''routing input the model reads, not documentation for a human, so a ''
        @ ''silent edit can redirect an agent (OWASP MCP03, tool poisoning). WARN ''
        @ ''rather than ERROR because copy edits are routine; raise it with ''
        @ ''--severity-override if you treat a manifest as supply chain.'')]"

definition catalog_protocols :: "rule_spec list" where
  "catalog_protocols = [
     rule ''BRK-MCP-OUTPUT-SCHEMA-REMOVED'' ERROR
       (''A tool stopped declaring an outputSchema; consumers parsing its ''
        @ ''structuredContent lose the guarantee they were written against.''),
     rule ''BRK-MCP-OUTPUT-SCHEMA-ADDED'' WARN
       (''A tool now declares an outputSchema, so its own results must conform ''
        @ ''to it from this version on.''),
     rule ''BRK-MCP-READONLY-HINT-CLEARED'' WARN
       (''A tool stopped claiming readOnlyHint. A host that auto-approved it as ''
        @ ''safe to call may now be invoking something that writes.''),
     rule ''BRK-MCP-READONLY-HINT-SET'' WARN
       (''A tool now claims readOnlyHint; hosts may stop asking for confirmation''
        @ '' on a claim nobody verified.''),
     rule ''BRK-MCP-DESTRUCTIVE-HINT-SET'' WARN
       ''A tool now declares it may perform irreversible updates.'',
     rule ''BRK-MCP-DESTRUCTIVE-HINT-CLEARED'' WARN
       (''A tool stopped declaring destructiveHint; hosts may stop gating ''
        @ ''behaviour that nobody re-verified as safe.''),
     rule ''BRK-MCP-IDEMPOTENT-HINT-CLEARED'' WARN
       (''A tool stopped claiming idempotentHint; a retry that was safe may now ''
        @ ''duplicate its effect.''),
     rule ''BRK-MCP-IDEMPOTENT-HINT-SET'' WARN
       (''A tool now claims idempotentHint; hosts may begin retrying a call that''
        @ '' was not previously retry-safe.''),
     rule ''BRK-MCP-OPENWORLD-HINT-CHANGED'' INFO
       (''openWorldHint changed. It describes the domain a tool reaches into and''
        @ '' constrains no caller.''),
     rule ''BRK-MCP-ANNOTATION-DECLARATION-CHANGED'' INFO
       (''An annotation moved between false and undeclared without changing what''
        @ '' it asserts.''),
     rule ''BRK-MCP-TOOL-RENAME-SUSPECTED'' INFO
       (''Exactly one tool disappeared and one appeared with an identical ''
        @ ''schema. Context for the removal, which is still reported: a manifest ''
        @ ''carries no identity but the name, so a rename cannot be distinguished ''
        @ ''from remove-plus-add.''),
     rule ''BRK-MCP-MANIFEST-TRUNCATED'' ERROR
       (''One side is a single page of a paginated tools/list. Every tool past ''
        @ ''the page boundary reads as removed, so the whole comparison is ''
        @ ''unsound.''),
     rule ''BRK-RESP-FIELD-GUARANTEED'' INFO
       (''A response field that was optional is now always present; consumers ''
        @ ''gain a guarantee they did not have.''),
     rule ''BRK-SOAP-ACTION-CHANGED'' ERROR
       (''The SOAPAction header changed. Gateways and ESBs route on it and ''
        @ ''generated stubs send the old one, with an unchanged body that now ''
        @ ''reaches nothing.''),
     rule ''BRK-SOAP-STYLE-CHANGED'' ERROR
       (''A binding moved between document and rpc style, which changes how the ''
        @ ''body is wrapped; every existing client serializes it the old way.''),
     rule ''BRK-SOAP-VERSION-CHANGED'' ERROR
       (''A port moved between SOAP 1.1 and 1.2. The envelope namespace and the ''
        @ ''Content-Type both change, so a 1.1 client gets a 415 rather than a ''
        @ ''fault.'')]"

definition CATALOG :: "(string, rule_spec) dict" where
  "CATALOG = dict_of (map (\<lambda>spec. (ru_rule_id spec, spec))
     (catalog_operations @ catalog_fields @ catalog_protocols))"

section \<open>Reading a change\<close>

definition is_body_field :: "change \<Rightarrow> bool" where
  "is_body_field c = contains (''field '' @ sq) (c_description c)"

definition constraint_change_is_tightening :: "string \<Rightarrow> pyval \<Rightarrow> pyval \<Rightarrow> bool option" where
  "constraint_change_is_tightening attr old new =
     (if attr = ''pattern'' then None
      else if attr = ''const'' then Some (new \<noteq> PNone)
      else if attr = ''unique_items'' then
        (if truthy old = truthy new then None else Some (truthy new))
      else if attr \<notin> set tighten_on_increase \<and> attr \<notin> set tighten_on_decrease then None
      else if old = PNone \<and> is_num new then Some True
      else if new = PNone \<and> is_num old then Some False
      else (case (num_of old, num_of new) of
          (Some x, Some y) \<Rightarrow>
            if flt_eq x y then None
            else Some (if attr \<in> set tighten_on_increase then flt_lt x y else flt_lt y x)
        | _ \<Rightarrow> None))"

text \<open>\<open>s.split(sep)\<close> for a non-empty separator.\<close>

function split_from :: "string \<Rightarrow> string \<Rightarrow> string \<Rightarrow> string list" where
  "split_from sep acc [] = [rev acc]"
| "split_from sep acc (c # s) =
     (if sep \<noteq> [] \<and> prefix sep (c # s) then rev acc # split_from sep [] (drop (length sep - 1) s)
      else split_from sep (c # acc) s)"
  by pat_completeness auto
termination by (relation "measure (\<lambda>(sep, acc, s). length s)") auto

definition split_on :: "string \<Rightarrow> string \<Rightarrow> string list" where
  "split_on sep s = split_from sep [] s"

section \<open>The engine\<close>

record breaking_engine =
  overrides :: "(string, severity) dict"

fun severity_of_value :: "string \<Rightarrow> severity result" where
  "severity_of_value v =
     (if v = ''ERROR'' then Inr ERROR else if v = ''WARN'' then Inr WARN
      else if v = ''INFO'' then Inr INFO else Inl (ValueError v))"

fun parse_overrides :: "(string, string) dict \<Rightarrow> (string, severity) dict result" where
  "parse_overrides [] = Inr []"
| "parse_overrides ((rule_id, v) # rest) =
     bind_result (severity_of_value v) (\<lambda>s.
     bind_result (parse_overrides rest) (\<lambda>d. Inr ((rule_id, s) # d)))"

definition init_breaking :: "(string, string) dict option \<Rightarrow> breaking_engine result" where
  "init_breaking severity_overrides =
     bind_result (parse_overrides (list_or_empty severity_overrides)) (\<lambda>d. Inr \<lparr>overrides = d\<rparr>)"

definition severity_for :: "breaking_engine \<Rightarrow> string \<Rightarrow> severity result" where
  "severity_for eng rule_id =
     (case dict_get CATALOG rule_id of
        None \<Rightarrow> Inl (KeyError rule_id)
      | Some spec \<Rightarrow> Inr (dict_get_or (overrides eng) rule_id (ru_severity spec)))"

definition make_finding :: "breaking_engine \<Rightarrow> string \<Rightarrow> change \<Rightarrow> string \<Rightarrow> string option \<Rightarrow> finding result" where
  "make_finding eng rule_id c message hint =
     bind_result (severity_for eng rule_id) (\<lambda>sev. Inr \<lparr>
       f_rule_id = rule_id, f_severity = sev, f_message = message,
       f_operation_key = Some (c_operation_key c), f_location = c_old_location c,
       f_new_location = c_new_location c, f_change_id = Some (c_id c),
       f_hint = str_or_opt hint (c_breaking_hint c), f_metadata = []\<rparr>)"

definition report :: "breaking_engine \<Rightarrow> change \<Rightarrow> string \<Rightarrow> finding list result" where
  "report eng c rule_id =
     bind_result (make_finding eng rule_id c (c_description c) None) (\<lambda>f. Inr [f])"

definition report_opt :: "breaking_engine \<Rightarrow> change \<Rightarrow> string option \<Rightarrow> finding list result" where
  "report_opt eng c rule_id = (case rule_id of None \<Rightarrow> Inr [] | Some r \<Rightarrow> report eng c r)"

section \<open>Streaming media and MCP annotations\<close>

definition stream_rule :: "change \<Rightarrow> string option" where
  "stream_rule c =
     (let description = c_description c in
      if contains ''changed from'' description then Some ''BRK-STREAM-SEQUENTIAL-CHANGED''
      else if contains ''no longer declares `itemSchema`'' description then
        Some ''BRK-STREAM-ITEM-SCHEMA-REMOVED''
      else if contains ''now declares `itemSchema`'' description then
        Some ''BRK-STREAM-ITEM-SCHEMA-ADDED''
      else if contains ''number of leading parts'' description then
        Some ''BRK-STREAM-PREFIX-COUNT-CHANGED''
      else if contains ''encoding for'' description then Some ''BRK-STREAM-ENCODING-CHANGED''
      else Some ''BRK-STREAM-ENCODING-CHANGED'')"

definition MCP_ANNOTATION_RULES :: "(string \<times> string, string) dict" where
  "MCP_ANNOTATION_RULES = [
     ((''readOnlyHint'', ''set''), ''BRK-MCP-READONLY-HINT-SET''),
     ((''readOnlyHint'', ''cleared''), ''BRK-MCP-READONLY-HINT-CLEARED''),
     ((''destructiveHint'', ''set''), ''BRK-MCP-DESTRUCTIVE-HINT-SET''),
     ((''destructiveHint'', ''cleared''), ''BRK-MCP-DESTRUCTIVE-HINT-CLEARED''),
     ((''idempotentHint'', ''set''), ''BRK-MCP-IDEMPOTENT-HINT-SET''),
     ((''idempotentHint'', ''cleared''), ''BRK-MCP-IDEMPOTENT-HINT-CLEARED''),
     ((''openWorldHint'', ''set''), ''BRK-MCP-OPENWORLD-HINT-CHANGED''),
     ((''openWorldHint'', ''cleared''), ''BRK-MCP-OPENWORLD-HINT-CHANGED'')]"

fun dict_or_nothing :: "pyval \<Rightarrow> (string, pyval) dict" where
  "dict_or_nothing (PDict d) = d"
| "dict_or_nothing v = []"

fun list_or_nothing :: "pyval \<Rightarrow> pyval list" where
  "list_or_nothing (PList vs) = vs"
| "list_or_nothing v = []"

definition mcp_annotation_rule :: "change \<Rightarrow> string option" where
  "mcp_annotation_rule c =
     (let old_value = dict_or_nothing (c_old_value c); new_value = dict_or_nothing (c_new_value c);
          named = val_get old_value ''annotation'';
          hint = (if truthy named then named else val_get new_value ''annotation'');
          before = val_get old_value ''value''; after = val_get new_value ''value''
      in case hint of
           PStr h \<Rightarrow>
             if after = PBool True \<and> before \<noteq> PBool True then
               dict_get MCP_ANNOTATION_RULES (h, ''set'')
             else if before = PBool True \<and> after \<noteq> PBool True then
               dict_get MCP_ANNOTATION_RULES (h, ''cleared'')
             else Some ''BRK-MCP-ANNOTATION-DECLARATION-CHANGED''
         | _ \<Rightarrow> None)"

section \<open>Constraints\<close>

definition constraint_attr :: "string \<Rightarrow> string" where
  "constraint_attr desc =
     (if contains (''constraint '' @ sq) desc
      then split_on sq (split_on (''constraint '' @ sq) desc ! 1) ! 0 else [])"

definition evaluate_constraint :: "breaking_engine \<Rightarrow> change \<Rightarrow> finding list result" where
  "evaluate_constraint eng c =
     (let desc = c_description c in
      if contains ''format changed'' desc then
        report eng c (if c_direction c = ''request'' then ''BRK-PARAM-TYPE-CHANGED''
                      else ''BRK-RESP-TYPE-CHANGED'')
      else if contains (quoted ''pattern'' @ '' changed'') desc then
        report eng c (if c_direction c = ''request'' then ''BRK-CONSTRAINT-TIGHTENED''
                      else ''BRK-RESP-CONSTRAINT-TIGHTENED'')
      else (case constraint_change_is_tightening (constraint_attr desc) (c_old_value c) (c_new_value c) of
          None \<Rightarrow> Inr []
        | Some tightening \<Rightarrow>
            report eng c
              (if c_direction c = ''request'' then
                 (if tightening then ''BRK-CONSTRAINT-TIGHTENED'' else ''BRK-CONSTRAINT-LOOSENED'')
               else (if tightening then ''BRK-RESP-CONSTRAINT-TIGHTENED''
                     else ''BRK-RESP-CONSTRAINT-LOOSENED''))))"

section \<open>One change\<close>

definition requiredness_rule :: "change \<Rightarrow> string" where
  "requiredness_rule c =
     (let became_required = (c_new_value c = PBool True) in
      if is_body_field c then
        (if c_direction c = ''response'' then
           (if became_required then ''BRK-RESP-FIELD-GUARANTEED'' else ''BRK-RESP-FIELD-OPTIONALIZED'')
         else (if became_required then ''BRK-REQ-FIELD-BECAME-REQUIRED'' else ''BRK-REQ-FIELD-OPTIONALIZED''))
      else (if became_required then ''BRK-PARAM-REQUIRED'' else ''BRK-PARAM-OPTIONALIZED''))"

definition enum_rule :: "change \<Rightarrow> string option" where
  "enum_rule c =
     (let old_enum = list_or_nothing (c_old_value c); new_enum = list_or_nothing (c_new_value c);
          removed_vals = filter (\<lambda>v. \<not> py_in v new_enum) old_enum;
          added_vals = filter (\<lambda>v. \<not> py_in v old_enum) new_enum
      in if removed_vals \<noteq> [] \<and> c_direction c = ''request'' then Some ''BRK-ENUM-NARROWED-REQUEST''
         else if removed_vals \<noteq> [] then Some ''BRK-ENUM-NARROWED-RESPONSE''
         else if added_vals \<noteq> [] then Some ''BRK-ENUM-WIDENED''
         else None)"

definition evaluate_dependent_required :: "breaking_engine \<Rightarrow> change \<Rightarrow> finding list result" where
  "evaluate_dependent_required eng c =
     bind_result (py_set_diff (list_or_nothing (c_new_value c)) (list_or_nothing (c_old_value c)))
       (\<lambda>gained. report eng c
         (if (gained \<noteq> []) = (c_direction c = ''request'') then ''BRK-DEPENDENT-REQUIRED-ADDED''
          else ''BRK-DEPENDENT-REQUIRED-REMOVED''))"

definition request_schema_rule :: "string \<Rightarrow> string option" where
  "request_schema_rule desc =
     (if ends_with desc ''removed'' then Some ''BRK-REQ-BODY-REMOVED''
      else if contains ''requiredness changed False -> True'' desc \<or> contains ''became required'' desc then
        Some ''BRK-REQ-BODY-REQUIRED''
      else if ends_with desc ''added'' then
        Some (if contains ''and required'' desc then ''BRK-REQ-BODY-ADDED-REQUIRED''
              else ''BRK-REQ-BODY-ADDED-OPTIONAL'')
      else None)"

definition response_schema_rule :: "string \<Rightarrow> string" where
  "response_schema_rule desc =
     (if contains ''field'' desc \<and> contains ''was removed'' desc then ''BRK-RESP-FIELD-REMOVED''
      else if contains ''field'' desc \<and> contains ''was added'' desc then ''BRK-RESP-FIELD-ADDED''
      else if contains ''media type'' desc then ''BRK-MEDIA-TYPE-CHANGED''
      else ''BRK-RESP-TYPE-CHANGED'')"

definition evaluate_shape_kinds :: "breaking_engine \<Rightarrow> change \<Rightarrow> finding list result" where
  "evaluate_shape_kinds eng c =
     (case c_kind c of
        DEPENDENT_REQUIRED_CHANGED \<Rightarrow> evaluate_dependent_required eng c
      | DEPENDENT_SCHEMA_CHANGED \<Rightarrow> report eng c ''BRK-DEPENDENT-SCHEMA-CHANGED''
      | TUPLE_SHAPE_CHANGED \<Rightarrow> report eng c ''BRK-TUPLE-SHAPE-CHANGED''
      | PATTERN_PROPERTIES_CHANGED \<Rightarrow> report eng c ''BRK-PATTERN-PROPERTIES-CHANGED''
      | PROPERTY_NAMES_CHANGED \<Rightarrow> report eng c ''BRK-PROPERTY-NAMES-CHANGED''
      | CONTAINS_CHANGED \<Rightarrow> report eng c ''BRK-CONTAINS-CHANGED''
      | CONDITIONAL_SCHEMA_CHANGED \<Rightarrow> report eng c ''BRK-CONDITIONAL-SCHEMA-CHANGED''
      | REQUEST_SCHEMA_CHANGED \<Rightarrow> report_opt eng c (request_schema_rule (c_description c))
      | RESPONSE_SCHEMA_CHANGED \<Rightarrow> report eng c (response_schema_rule (c_description c))
      | RESPONSE_REMOVED \<Rightarrow> report eng c ''BRK-RESP-STATUS-REMOVED''
      | RESPONSE_ADDED \<Rightarrow> report eng c ''BRK-RESP-STATUS-ADDED''
      | HEADER_REMOVED \<Rightarrow> report eng c ''BRK-HEADER-REMOVED''
      | HEADER_ADDED \<Rightarrow> report eng c ''BRK-HEADER-ADDED''
      | SECURITY_CHANGED \<Rightarrow> report eng c ''BRK-SECURITY-CHANGED''
      | DEPRECATION_ADDED \<Rightarrow> report eng c ''BRK-DEPRECATION-ADDED''
      | DEPRECATION_REMOVED \<Rightarrow> report eng c ''BRK-DEPRECATION-REMOVED''
      | _ \<Rightarrow> Inr [])"

definition evaluate_request_kinds :: "breaking_engine \<Rightarrow> change \<Rightarrow> finding list result" where
  "evaluate_request_kinds eng c =
     (case c_kind c of
        PARAMETER_REMOVED \<Rightarrow>
          report eng c (if is_body_field c then ''BRK-REQ-FIELD-REMOVED'' else ''BRK-PARAM-REMOVED'')
      | PARAMETER_ADDED \<Rightarrow>
          (let required = contains ''(required)'' (c_description c) in
           report eng c
             (if is_body_field c then
                (if required then ''BRK-REQ-FIELD-ADDED-REQUIRED'' else ''BRK-REQ-FIELD-ADDED-OPTIONAL'')
              else (if required then ''BRK-PARAM-ADDED-REQUIRED'' else ''BRK-PARAM-ADDED-OPTIONAL'')))
      | PARAMETER_REQUIREDNESS \<Rightarrow> report eng c (requiredness_rule c)
      | PARAMETER_TYPE_CHANGED \<Rightarrow>
          report eng c (if c_direction c = ''request'' then ''BRK-PARAM-TYPE-CHANGED''
                        else ''BRK-RESP-TYPE-CHANGED'')
      | PARAMETER_CONSTRAINT_CHANGED \<Rightarrow> evaluate_constraint eng c
      | NULLABILITY_CHANGED \<Rightarrow>
          (let became = truthy (c_new_value c) in
           report eng c
             (if c_direction c = ''request'' then
                (if became then ''BRK-REQ-NULLABLE-ADDED'' else ''BRK-REQ-NULLABLE-REMOVED'')
              else (if became then ''BRK-RESP-NULLABLE-ADDED'' else ''BRK-RESP-NULLABLE-REMOVED'')))
      | ENUM_CHANGED \<Rightarrow> report_opt eng c (enum_rule c)
      | _ \<Rightarrow> evaluate_shape_kinds eng c)"

definition evaluate_change :: "breaking_engine \<Rightarrow> change \<Rightarrow> finding list result" where
  "evaluate_change eng c =
     (case c_kind c of
        OPERATION_REMOVED \<Rightarrow> report eng c ''BRK-OP-REMOVED''
      | RPC_REMOVED \<Rightarrow> report eng c ''BRK-RPC-REMOVED''
      | TOOL_DESCRIPTION_CHANGED \<Rightarrow> report eng c ''BRK-MCP-TOOL-DESCRIPTION-CHANGED''
      | TOOL_OUTPUT_SCHEMA_CHANGED \<Rightarrow>
          report eng c (if truthy (c_new_value c) then ''BRK-MCP-OUTPUT-SCHEMA-ADDED''
                        else ''BRK-MCP-OUTPUT-SCHEMA-REMOVED'')
      | TOOL_RENAME_SUSPECTED \<Rightarrow> report eng c ''BRK-MCP-TOOL-RENAME-SUSPECTED''
      | MANIFEST_TRUNCATED \<Rightarrow> report eng c ''BRK-MCP-MANIFEST-TRUNCATED''
      | TOOL_ANNOTATION_CHANGED \<Rightarrow> report_opt eng c (mcp_annotation_rule c)
      | SOAP_ACTION_CHANGED \<Rightarrow> report eng c ''BRK-SOAP-ACTION-CHANGED''
      | SOAP_STYLE_CHANGED \<Rightarrow> report eng c ''BRK-SOAP-STYLE-CHANGED''
      | SOAP_VERSION_CHANGED \<Rightarrow> report eng c ''BRK-SOAP-VERSION-CHANGED''
      | STREAM_SHAPE_CHANGED \<Rightarrow> report_opt eng c (stream_rule c)
      | RPC_STREAMING_CHANGED \<Rightarrow> report eng c ''BRK-RPC-STREAMING-CHANGED''
      | FIELD_NUMBER_REUSED \<Rightarrow> report eng c ''BRK-FIELD-NUMBER-REUSED''
      | FIELD_PRESENCE_CHANGED \<Rightarrow> report eng c ''BRK-FIELD-PRESENCE-LOST''
      | ONEOF_MEMBERSHIP_CHANGED \<Rightarrow>
          report eng c (if contains ''moved into'' (c_description c) then ''BRK-ONEOF-NARROWED''
                        else ''BRK-ONEOF-WIDENED'')
      | RESERVATION_CHANGED \<Rightarrow> report eng c ''BRK-RESERVATION-REMOVED''
      | OPERATION_ADDED \<Rightarrow> report eng c ''BRK-OP-ADDED''
      | RPC_ADDED \<Rightarrow> report eng c ''BRK-RPC-ADDED''
      | _ \<Rightarrow>
          if (c_kind c = REQUEST_SCHEMA_CHANGED \<or> c_kind c = RESPONSE_SCHEMA_CHANGED)
             \<and> contains ''without reserving its number'' (c_description c)
          then report eng c ''BRK-FIELD-NUMBER-UNRESERVED''
          else evaluate_request_kinds eng c)"

section \<open>A change list\<close>

fun evaluate :: "breaking_engine \<Rightarrow> change list \<Rightarrow> finding list result" where
  "evaluate eng [] = Inr []"
| "evaluate eng (c # cs) =
     bind_result (evaluate_change eng c) (\<lambda>fs. bind_result (evaluate eng cs) (\<lambda>gs. Inr (fs @ gs)))"

definition evaluate_breaking :: "change list \<Rightarrow> (string, string) dict option \<Rightarrow> finding list result" where
  "evaluate_breaking changes severity_overrides =
     bind_result (init_breaking severity_overrides) (\<lambda>eng. evaluate eng changes)"

end
