(* ===== verification/ChangeIds.thy ===== *)
theory ChangeIds
  imports DiffRunFacts
begin

text \<open>
  The stable identifiers of \<open>DiffEngine._add\<close>. The locale \<open>id_scheme\<close> is what the
  recorder needs of a format: identifiers that agree belong to the same scope and carry
  the same number. Inside it the identifiers a run hands out are computed in closed form,
  are distinct, and those of one scope do not depend on what else was recorded. The locale
  \<open>dashless\<close> is what the format needs of the operation hash. Both are interpreted on the
  engine's own \<open>operation_hash\<close>, \<open>change_scope\<close> and \<open>change_id\<close>; nothing is assumed
  about collisions of the hash, since colliding operations share a counter.
\<close>

section \<open>Any scheme of identifiers\<close>

locale id_scheme =
  fixes scope_of :: "change_kind \<Rightarrow> string \<Rightarrow> string"
    and ident :: "change_kind \<Rightarrow> string \<Rightarrow> int \<Rightarrow> string"
  assumes ident_inject: "0 < n \<Longrightarrow> 0 < n' \<Longrightarrow> ident kind k n = ident kind' k' n' \<Longrightarrow>
    scope_of kind k = scope_of kind' k' \<and> n = n'"
begin

definition scope :: "change \<Rightarrow> string" where
  "scope c = scope_of (c_kind c) (c_operation_key c)"

definition numbered_as :: "change \<Rightarrow> int \<Rightarrow> change" where
  "numbered_as c n = c\<lparr>c_id := ident (c_kind c) (c_operation_key c) n\<rparr>"

definition seen_before :: "change list \<Rightarrow> change \<Rightarrow> int" where
  "seen_before seen c = int (count_list (map scope seen) (scope c))"

fun numbered :: "change list \<Rightarrow> change list \<Rightarrow> change list" where
  "numbered seen [] = []"
| "numbered seen (c # cs) = numbered_as c (seen_before seen c + 1) # numbered (seen @ [c]) cs"

lemma scope_eq: "scope_of (c_kind c) (c_operation_key c) = scope c"
  by (simp add: scope_def)

lemma scope_numbered_as [simp]: "scope (numbered_as c n) = scope c"
  by (simp add: scope_def numbered_as_def)

lemma recorded:
  assumes "\<And>\<sigma>. dict_get_or (eng_counters s) \<sigma> 0 = int (count_list (map scope seen) \<sigma>)"
  shows "eng_changes (fold (emit_with scope_of ident) cs s) = eng_changes s @ numbered seen cs"
  using assms
proof (induction cs arbitrary: s seen)
  case (Cons c cs)
  let ?s = "emit_with scope_of ident c s"
  have "dict_get_or (eng_counters ?s) \<sigma> 0 = int (count_list (map scope (seen @ [c])) \<sigma>)" for \<sigma>
    using Cons.prems [of \<sigma>] Cons.prems [of "scope c"]
    by (auto simp: emit_with_def Let_def dict_get_or_def dict_simps scope_eq)
  from Cons.IH [OF this] show ?case
    using Cons.prems [of "scope c"]
    by (simp add: emit_with_def Let_def numbered_as_def seen_before_def scope_eq)
qed simp

lemma recorded_from_start: "eng_changes (fold (emit_with scope_of ident) cs init_engine) = numbered [] cs"
  using recorded [of init_engine "[]" cs] by (simp add: init_engine_def dict_get_or_def)

lemma numbered_nth:
  "i < length cs \<Longrightarrow>
   numbered seen cs ! i = numbered_as (cs ! i) (seen_before (seen @ take i cs) (cs ! i) + 1)"
proof (induction cs arbitrary: seen i)
  case (Cons c cs)
  then show ?case by (cases i) (auto simp: Cons.IH)
qed simp

lemma length_numbered [simp]: "length (numbered seen cs) = length cs"
  by (induction cs arbitrary: seen) simp_all

lemma seen_before_take:
  assumes "i < j" and "j < length cs" and "scope (cs ! i) = scope (cs ! j)"
  shows "seen_before (take i cs) (cs ! i) < seen_before (take j cs) (cs ! j)"
proof -
  have "take j cs = take i cs @ cs ! i # drop (Suc i) (take j cs)"
    using assms(1,2) id_take_nth_drop [of i "take j cs"] by simp
  then have "count_list (map scope (take j cs)) (scope (cs ! j))
      = count_list (map scope (take i cs @ cs ! i # drop (Suc i) (take j cs))) (scope (cs ! j))" by simp
  then show ?thesis using assms(3) by (simp add: seen_before_def)
qed

lemma identifiers_distinct: "distinct (map c_id (numbered [] cs))"
proof -
  let ?n = "\<lambda>i. seen_before (take i cs) (cs ! i) + 1"
  have pos: "0 < ?n i" for i by (simp add: seen_before_def add_nonneg_pos)
  have id: "c_id (numbered [] cs ! i) = ident (c_kind (cs ! i)) (c_operation_key (cs ! i)) (?n i)"
    if "i < length cs" for i
    using numbered_nth [OF that, of "[]"] by (simp add: numbered_as_def)
  have step: "c_id (numbered [] cs ! i) \<noteq> c_id (numbered [] cs ! j)" if "i < j" "j < length cs" for i j
  proof
    assume eq: "c_id (numbered [] cs ! i) = c_id (numbered [] cs ! j)"
    have "i < length cs" using that by simp
    note ids = id [OF this] id [OF that(2)]
    have "scope (cs ! i) = scope (cs ! j) \<and> ?n i = ?n j"
      using ident_inject [OF pos pos eq [unfolded ids]] by (simp only: scope_def)
    with seen_before_take [OF that] show False by simp
  qed
  have "map c_id (numbered [] cs) ! i \<noteq> map c_id (numbered [] cs) ! j"
    if "i < length cs" "j < length cs" "i \<noteq> j" for i j
    using step [of i j] step [of j i] that by (cases "i < j") auto
  then show ?thesis by (simp add: distinct_conv_nth)
qed

lemma numbered_filter:
  assumes "\<And>c d. scope c = scope d \<Longrightarrow> Q c = Q d"
  shows "filter Q (numbered seen cs) = numbered (filter Q seen) (filter Q cs)"
proof (induction cs arbitrary: seen)
  case (Cons c cs)
  have "count_list (map scope (filter Q xs)) (scope c) = count_list (map scope xs) (scope c)" if "Q c" for xs
  proof (induction xs)
    case (Cons x xs)
    have "Q x" if "scope c = scope x" using assms [OF that] \<open>Q c\<close> by blast
    with Cons.IH show ?case by auto
  qed simp
  then have "seen_before (filter Q seen) c = seen_before seen c" if "Q c"
    using that by (simp add: seen_before_def)
  moreover have "Q (numbered_as c n) = Q c" for n by (rule assms) simp
  ultimately show ?case using Cons.IH by simp
qed simp

end

section \<open>Identifiers made of dash-free parts\<close>

lemma split_last:
  assumes "a @ c # b = a' @ c # b'" and "c \<notin> set b" and "c \<notin> set b'"
  shows "a = a' \<and> b = b'"
proof -
  from assms(1) obtain us where
    "a = a' @ us \<and> us @ c # b = c # b' \<or> a @ us = a' \<and> c # b = us @ c # b'"
    unfolding append_eq_append_conv2 by blast
  with assms(2,3) show ?thesis by (cases us) auto
qed

locale dashless =
  fixes digest :: "string \<Rightarrow> string"
  assumes digest_dashless: "CHR ''-'' \<notin> set (digest k)"
begin

lemma parts:
  assumes "a @ ''-'' @ digest k @ ''-'' @ n = a' @ ''-'' @ digest k' @ ''-'' @ n'"
    and "CHR ''-'' \<notin> set n" and "CHR ''-'' \<notin> set n'"
  shows "a = a' \<and> digest k = digest k' \<and> n = n'"
proof -
  have whole: "a @ CHR ''-'' # digest k = a' @ CHR ''-'' # digest k' \<and> n = n'"
    using assms by (intro split_last) simp_all
  then have "a = a' \<and> digest k = digest k'"
    by (intro split_last [of a "CHR ''-''"]) (simp_all add: digest_dashless)
  with whole show ?thesis by simp
qed

end

lemma operation_hash_chars: "set (operation_hash k) \<subseteq> hex_chars \<union> set ''global''"
  using sha256_hexdigest_hex [of k] set_take_subset [of 8 "sha256_hexdigest k"]
  by (auto simp: operation_hash_def)

lemma operation_hash_colon: "CHR '':'' \<notin> set (operation_hash k)"
  using operation_hash_chars [of k] by (auto simp: hex_chars_def)

interpretation operation_hash: dashless operation_hash
  by unfold_locales (use operation_hash_chars in \<open>auto simp: hex_chars_def\<close>)

section \<open>The engine's identifiers\<close>

lemma digit_char_inject: "d < 10 \<Longrightarrow> e < 10 \<Longrightarrow> digit_char d = digit_char e \<Longrightarrow> d = e"
proof -
  assume "d < 10" "e < 10" "digit_char d = digit_char e"
  then have "of_char (char_of (48 + d) :: char) = (of_char (char_of (48 + e) :: char) :: nat)"
    by (simp add: digit_char_def)
  with \<open>d < 10\<close> \<open>e < 10\<close> show "d = e" by (simp add: of_char_of)
qed

lemma nat_str_last: "last (nat_str k) = digit_char (k mod 10)"
  by (subst nat_str.simps) simp

lemma nat_str_butlast: "butlast (nat_str k) = (if k < 10 then [] else nat_str (k div 10))"
  by (subst nat_str.simps) simp

lemma nat_str_nonempty [simp]: "nat_str k \<noteq> []"
  by (subst nat_str.simps) simp

lemma nat_str_inject: "nat_str m = nat_str n \<Longrightarrow> m = n"
proof (induction m arbitrary: n rule: nat_str.induct)
  case (1 m)
  have "digit_char (m mod 10) = digit_char (n mod 10)"
    using "1.prems" nat_str_last by metis
  then have mod: "m mod 10 = n mod 10" by (intro digit_char_inject) simp_all
  have "butlast (nat_str m) = butlast (nat_str n)" using "1.prems" by simp
  then consider "m < 10" "n < 10" | "\<not> m < 10" "\<not> n < 10" "nat_str (m div 10) = nat_str (n div 10)"
    unfolding nat_str_butlast by (metis nat_str_nonempty)
  then have "m div 10 = n div 10" using "1.IH" by cases auto
  with mod show ?case by (metis mult_div_mod_eq)
qed

lemma nat_str_digits: "set (nat_str n) \<subseteq> digit_char ` {..<10}"
proof (induction n rule: nat_str.induct)
  case (1 n)
  then show ?case by (subst nat_str.simps) auto
qed

lemma digit_char_not_dash: "d < 10 \<Longrightarrow> digit_char d \<noteq> CHR ''-''"
proof
  assume "d < 10" "digit_char d = CHR ''-''"
  then have "of_char (char_of (48 + d) :: char) = (of_char (CHR ''-'') :: nat)"
    by (simp add: digit_char_def)
  with \<open>d < 10\<close> show False by (simp add: of_char_of)
qed

lemma nat_str_not_dash: "CHR ''-'' \<notin> set (nat_str n)"
proof
  assume "CHR ''-'' \<in> set (nat_str n)"
  with nat_str_digits [of n] obtain d where "d < 10" "CHR ''-'' = digit_char d" by auto
  with digit_char_not_dash [of d] show False by simp
qed

lemma int_str_positive:
  "0 < n \<Longrightarrow> CHR ''-'' \<notin> set (int_str n)"
  "0 < m \<Longrightarrow> 0 < n \<Longrightarrow> int_str m = int_str n \<Longrightarrow> m = n"
proof -
  show "0 < n \<Longrightarrow> CHR ''-'' \<notin> set (int_str n)"
    using nat_str_not_dash by (simp add: int_str_def)
  assume "0 < m" "0 < n" "int_str m = int_str n"
  then have "nat_str (nat m) = nat_str (nat n)" by (simp add: int_str_def)
  from nat_str_inject [OF this] show "m = n" using \<open>0 < m\<close> \<open>0 < n\<close> by simp
qed

interpretation change_ids: id_scheme change_scope change_id
proof unfold_locales
  fix n n' :: int and kind kind' k k'
  assume pos: "0 < n" "0 < n'" and eq: "change_id kind k n = change_id kind' k' n'"
  have "kind_key kind @ ''-'' @ operation_hash k @ ''-'' @ int_str n
      = kind_key kind' @ ''-'' @ operation_hash k' @ ''-'' @ int_str n'"
    using eq by (simp add: change_id_def)
  from operation_hash.parts [OF this] int_str_positive pos
  show "change_scope kind k = change_scope kind' k' \<and> n = n'" by (auto simp: change_scope_def)
qed

lemma run_numbered:
  assumes "run dumps old new = Inr cs"
  shows "cs = change_ids.numbered [] (map strip_id cs)"
proof -
  from assms have "run_steps dumps old new init_engine \<noteq> Inl e" for e
    by (auto simp: run_def)
  moreover note emitter_behaves [OF uniform_run_steps, of dumps old new init_engine] run_raws [OF assms]
  ultimately have "run_steps dumps old new init_engine = Inr (emit_all (map strip_id cs) init_engine)"
    by simp
  then show ?thesis
    using assms change_ids.recorded_from_start by (simp add: run_def emit_all_def)
qed

lemma run_ids_distinct: "run dumps old new = Inr cs \<Longrightarrow> distinct (map c_id cs)"
  using run_numbered change_ids.identifiers_distinct by metis

lemma run_ids_local:
  assumes "run dumps old new = Inr cs" and "run dumps' old' new' = Inr ds"
    and "\<And>c. on c \<longleftrightarrow> operation_hash (c_operation_key c) = h"
    and "map strip_id (filter on cs) = map strip_id (filter on ds)"
  shows "filter on cs = filter on ds"
proof -
  have "on c = on d" if "change_ids.scope c = change_ids.scope d" for c d
  proof -
    have "(kind_key (c_kind c) @ '':'' @ operation_hash (c_operation_key c)) =
      kind_key (c_kind d) @ '':'' @ operation_hash (c_operation_key d)"
      using that by (simp add: change_ids.scope_def change_scope_def)
    then have "operation_hash (c_operation_key c) = operation_hash (c_operation_key d)"
      using split_last [of "kind_key (c_kind c)" "CHR '':''" "operation_hash (c_operation_key c)"
          "kind_key (c_kind d)" "operation_hash (c_operation_key d)"] operation_hash_colon by simp
    then show ?thesis by (simp add: assms(3))
  qed
  note filter = change_ids.numbered_filter [of on, OF this]
  have strip: "map strip_id (filter on xs) = filter on (map strip_id xs)" for xs
    by (induction xs) (simp_all add: assms(3))
  show ?thesis
    using run_numbered [OF assms(1)] run_numbered [OF assms(2)] assms(4) filter strip
    by (metis filter.simps(1))
qed

end
