(* ===== verification/BreakingFacts.thy ===== *)
theory BreakingFacts
  imports Breaking ChangeIds
begin

text \<open>
  What the rule engine guarantees: the catalog lists every rule the engine can name, so the
  evaluation of a run of the differ never raises; the verdict on a numeric bound agrees with
  the set of values the bound accepts; the attribute the engine reads out of a message is
  the one the differ wrote into it.
\<close>

section \<open>The catalog\<close>

text \<open>The severities of the catalog, in source order.\<close>

definition catalog_severities :: "(string \<times> severity) list" where
  "catalog_severities = [
     (''BRK-OP-REMOVED'', ERROR), (''BRK-STREAM-SEQUENTIAL-CHANGED'', ERROR),
     (''BRK-STREAM-ITEM-SCHEMA-REMOVED'', ERROR), (''BRK-STREAM-ITEM-SCHEMA-ADDED'', INFO),
     (''BRK-STREAM-ENCODING-CHANGED'', ERROR), (''BRK-STREAM-PREFIX-COUNT-CHANGED'', ERROR),
     (''BRK-RPC-STREAMING-CHANGED'', ERROR), (''BRK-FIELD-NUMBER-REUSED'', ERROR),
     (''BRK-FIELD-NUMBER-UNRESERVED'', WARN), (''BRK-FIELD-PRESENCE-LOST'', ERROR),
     (''BRK-ONEOF-NARROWED'', ERROR), (''BRK-ONEOF-WIDENED'', INFO),
     (''BRK-RESERVATION-REMOVED'', WARN), (''BRK-RPC-REMOVED'', ERROR),
     (''BRK-OP-ADDED'', INFO), (''BRK-RPC-ADDED'', INFO),
     (''BRK-PARAM-REMOVED'', ERROR), (''BRK-PARAM-ADDED-REQUIRED'', ERROR),
     (''BRK-PARAM-ADDED-OPTIONAL'', INFO), (''BRK-PARAM-REQUIRED'', ERROR),
     (''BRK-PARAM-OPTIONALIZED'', INFO), (''BRK-PARAM-TYPE-CHANGED'', ERROR),
     (''BRK-RESP-TYPE-CHANGED'', WARN), (''BRK-CONSTRAINT-TIGHTENED'', ERROR),
     (''BRK-CONSTRAINT-LOOSENED'', INFO), (''BRK-RESP-CONSTRAINT-TIGHTENED'', WARN),
     (''BRK-ENUM-NARROWED-REQUEST'', ERROR), (''BRK-ENUM-NARROWED-RESPONSE'', WARN),
     (''BRK-ENUM-WIDENED'', INFO), (''BRK-RESP-NULLABLE-ADDED'', WARN),
     (''BRK-RESP-NULLABLE-REMOVED'', INFO), (''BRK-REQ-NULLABLE-REMOVED'', ERROR),
     (''BRK-REQ-NULLABLE-ADDED'', INFO), (''BRK-RESP-CONSTRAINT-LOOSENED'', WARN),
     (''BRK-REQ-FIELD-REMOVED'', ERROR), (''BRK-REQ-FIELD-OPTIONALIZED'', INFO),
     (''BRK-RESP-FIELD-OPTIONALIZED'', ERROR), (''BRK-REQ-FIELD-ADDED-REQUIRED'', ERROR),
     (''BRK-REQ-FIELD-ADDED-OPTIONAL'', INFO), (''BRK-REQ-FIELD-BECAME-REQUIRED'', ERROR),
     (''BRK-RESP-FIELD-REMOVED'', ERROR), (''BRK-RESP-FIELD-ADDED'', INFO),
     (''BRK-REQ-BODY-REMOVED'', ERROR), (''BRK-REQ-BODY-ADDED-REQUIRED'', ERROR),
     (''BRK-REQ-BODY-ADDED-OPTIONAL'', INFO), (''BRK-REQ-BODY-REQUIRED'', ERROR),
     (''BRK-RESP-STATUS-REMOVED'', ERROR), (''BRK-RESP-STATUS-ADDED'', INFO),
     (''BRK-HEADER-REMOVED'', WARN), (''BRK-HEADER-ADDED'', INFO),
     (''BRK-SECURITY-CHANGED'', ERROR), (''BRK-DEPRECATION-ADDED'', WARN),
     (''BRK-DEPRECATION-REMOVED'', INFO), (''BRK-DEPENDENT-REQUIRED-ADDED'', ERROR),
     (''BRK-DEPENDENT-REQUIRED-REMOVED'', WARN), (''BRK-DEPENDENT-SCHEMA-CHANGED'', WARN),
     (''BRK-TUPLE-SHAPE-CHANGED'', ERROR), (''BRK-PATTERN-PROPERTIES-CHANGED'', WARN),
     (''BRK-PROPERTY-NAMES-CHANGED'', WARN), (''BRK-CONTAINS-CHANGED'', WARN),
     (''BRK-CONDITIONAL-SCHEMA-CHANGED'', WARN), (''BRK-MEDIA-TYPE-CHANGED'', ERROR),
     (''BRK-MCP-TOOL-DESCRIPTION-CHANGED'', WARN), (''BRK-MCP-OUTPUT-SCHEMA-REMOVED'', ERROR),
     (''BRK-MCP-OUTPUT-SCHEMA-ADDED'', WARN), (''BRK-MCP-READONLY-HINT-CLEARED'', WARN),
     (''BRK-MCP-READONLY-HINT-SET'', WARN), (''BRK-MCP-DESTRUCTIVE-HINT-SET'', WARN),
     (''BRK-MCP-DESTRUCTIVE-HINT-CLEARED'', WARN), (''BRK-MCP-IDEMPOTENT-HINT-CLEARED'', WARN),
     (''BRK-MCP-IDEMPOTENT-HINT-SET'', WARN), (''BRK-MCP-OPENWORLD-HINT-CHANGED'', INFO),
     (''BRK-MCP-ANNOTATION-DECLARATION-CHANGED'', INFO), (''BRK-MCP-TOOL-RENAME-SUSPECTED'', INFO),
     (''BRK-MCP-MANIFEST-TRUNCATED'', ERROR), (''BRK-RESP-FIELD-GUARANTEED'', INFO),
     (''BRK-SOAP-ACTION-CHANGED'', ERROR), (''BRK-SOAP-STYLE-CHANGED'', ERROR),
     (''BRK-SOAP-VERSION-CHANGED'', ERROR)]"

lemma catalog_entries:
  "map (\<lambda>spec. (ru_rule_id spec, ru_severity spec)) (catalog_operations @ catalog_fields @ catalog_protocols)
   = catalog_severities"
  by (simp add: catalog_operations_def catalog_fields_def catalog_protocols_def catalog_severities_def)

lemma catalog_ids_distinct: "distinct (map fst catalog_severities)"
  by (simp add: catalog_severities_def)

definition known_rule :: "string \<Rightarrow> bool" where
  "known_rule r \<longleftrightarrow> r \<in> fst ` set catalog_severities"

lemma known_rules [simp]:
  "known_rule ''BRK-OP-REMOVED''" "known_rule ''BRK-STREAM-SEQUENTIAL-CHANGED''"
  "known_rule ''BRK-STREAM-ITEM-SCHEMA-REMOVED''" "known_rule ''BRK-STREAM-ITEM-SCHEMA-ADDED''"
  "known_rule ''BRK-STREAM-ENCODING-CHANGED''" "known_rule ''BRK-STREAM-PREFIX-COUNT-CHANGED''"
  "known_rule ''BRK-RPC-STREAMING-CHANGED''" "known_rule ''BRK-FIELD-NUMBER-REUSED''"
  "known_rule ''BRK-FIELD-NUMBER-UNRESERVED''" "known_rule ''BRK-FIELD-PRESENCE-LOST''"
  "known_rule ''BRK-ONEOF-NARROWED''" "known_rule ''BRK-ONEOF-WIDENED''"
  "known_rule ''BRK-RESERVATION-REMOVED''" "known_rule ''BRK-RPC-REMOVED''"
  "known_rule ''BRK-OP-ADDED''" "known_rule ''BRK-RPC-ADDED''"
  "known_rule ''BRK-PARAM-REMOVED''" "known_rule ''BRK-PARAM-ADDED-REQUIRED''"
  "known_rule ''BRK-PARAM-ADDED-OPTIONAL''" "known_rule ''BRK-PARAM-REQUIRED''"
  "known_rule ''BRK-PARAM-OPTIONALIZED''" "known_rule ''BRK-PARAM-TYPE-CHANGED''"
  "known_rule ''BRK-RESP-TYPE-CHANGED''" "known_rule ''BRK-CONSTRAINT-TIGHTENED''"
  "known_rule ''BRK-CONSTRAINT-LOOSENED''" "known_rule ''BRK-RESP-CONSTRAINT-TIGHTENED''"
  "known_rule ''BRK-ENUM-NARROWED-REQUEST''" "known_rule ''BRK-ENUM-NARROWED-RESPONSE''"
  "known_rule ''BRK-ENUM-WIDENED''" "known_rule ''BRK-RESP-NULLABLE-ADDED''"
  "known_rule ''BRK-RESP-NULLABLE-REMOVED''" "known_rule ''BRK-REQ-NULLABLE-REMOVED''"
  "known_rule ''BRK-REQ-NULLABLE-ADDED''" "known_rule ''BRK-RESP-CONSTRAINT-LOOSENED''"
  "known_rule ''BRK-REQ-FIELD-REMOVED''" "known_rule ''BRK-REQ-FIELD-OPTIONALIZED''"
  "known_rule ''BRK-RESP-FIELD-OPTIONALIZED''" "known_rule ''BRK-REQ-FIELD-ADDED-REQUIRED''"
  "known_rule ''BRK-REQ-FIELD-ADDED-OPTIONAL''" "known_rule ''BRK-REQ-FIELD-BECAME-REQUIRED''"
  "known_rule ''BRK-RESP-FIELD-REMOVED''" "known_rule ''BRK-RESP-FIELD-ADDED''"
  "known_rule ''BRK-REQ-BODY-REMOVED''" "known_rule ''BRK-REQ-BODY-ADDED-REQUIRED''"
  "known_rule ''BRK-REQ-BODY-ADDED-OPTIONAL''" "known_rule ''BRK-REQ-BODY-REQUIRED''"
  "known_rule ''BRK-RESP-STATUS-REMOVED''" "known_rule ''BRK-RESP-STATUS-ADDED''"
  "known_rule ''BRK-HEADER-REMOVED''" "known_rule ''BRK-HEADER-ADDED''"
  "known_rule ''BRK-SECURITY-CHANGED''" "known_rule ''BRK-DEPRECATION-ADDED''"
  "known_rule ''BRK-DEPRECATION-REMOVED''" "known_rule ''BRK-DEPENDENT-REQUIRED-ADDED''"
  "known_rule ''BRK-DEPENDENT-REQUIRED-REMOVED''" "known_rule ''BRK-DEPENDENT-SCHEMA-CHANGED''"
  "known_rule ''BRK-TUPLE-SHAPE-CHANGED''" "known_rule ''BRK-PATTERN-PROPERTIES-CHANGED''"
  "known_rule ''BRK-PROPERTY-NAMES-CHANGED''" "known_rule ''BRK-CONTAINS-CHANGED''"
  "known_rule ''BRK-CONDITIONAL-SCHEMA-CHANGED''" "known_rule ''BRK-MEDIA-TYPE-CHANGED''"
  "known_rule ''BRK-MCP-TOOL-DESCRIPTION-CHANGED''" "known_rule ''BRK-MCP-OUTPUT-SCHEMA-REMOVED''"
  "known_rule ''BRK-MCP-OUTPUT-SCHEMA-ADDED''" "known_rule ''BRK-MCP-READONLY-HINT-CLEARED''"
  "known_rule ''BRK-MCP-READONLY-HINT-SET''" "known_rule ''BRK-MCP-DESTRUCTIVE-HINT-SET''"
  "known_rule ''BRK-MCP-DESTRUCTIVE-HINT-CLEARED''" "known_rule ''BRK-MCP-IDEMPOTENT-HINT-CLEARED''"
  "known_rule ''BRK-MCP-IDEMPOTENT-HINT-SET''" "known_rule ''BRK-MCP-OPENWORLD-HINT-CHANGED''"
  "known_rule ''BRK-MCP-ANNOTATION-DECLARATION-CHANGED''" "known_rule ''BRK-MCP-TOOL-RENAME-SUSPECTED''"
  "known_rule ''BRK-MCP-MANIFEST-TRUNCATED''" "known_rule ''BRK-RESP-FIELD-GUARANTEED''"
  "known_rule ''BRK-SOAP-ACTION-CHANGED''" "known_rule ''BRK-SOAP-STYLE-CHANGED''"
  "known_rule ''BRK-SOAP-VERSION-CHANGED''"
  unfolding known_rule_def catalog_severities_def list.set image_insert fst_conv
  by (rule insertI1 | rule insertI2)+

lemma CATALOG_lookup:
  "map_option ru_severity (dict_get CATALOG r) = map_of catalog_severities r"
proof -
  let ?specs = "catalog_operations @ catalog_fields @ catalog_protocols"
  have entries: "catalog_severities = map (\<lambda>spec. (ru_rule_id spec, ru_severity spec)) ?specs"
    by (simp only: catalog_entries)
  have "distinct (map fst (map (\<lambda>spec. (ru_rule_id spec, spec)) ?specs))"
    using catalog_ids_distinct unfolding entries by (simp only: map_map comp_def fst_conv)
  then have "dict_get CATALOG r = map_of (map (\<lambda>spec. (ru_rule_id spec, spec)) ?specs) r"
    by (simp only: CATALOG_def map_of_dict_of map_of_distinct_rev)
  moreover have "map_option ru_severity (map_of (map (\<lambda>spec. (ru_rule_id spec, spec)) xs) r)
      = map_of (map (\<lambda>spec. (ru_rule_id spec, ru_severity spec)) xs) r" for xs
    by (induction xs) auto
  ultimately show ?thesis by (simp only: entries)
qed

lemma severity_for_eq:
  "severity_for eng r = (case map_of catalog_severities r of
     None \<Rightarrow> Inl (KeyError r) | Some s \<Rightarrow> Inr (dict_get_or (overrides eng) r s))"
  unfolding CATALOG_lookup [symmetric] by (simp add: severity_for_def split: option.splits)

lemma severity_for_known: "known_rule r \<Longrightarrow> \<exists>s. severity_for eng r = Inr s"
  unfolding known_rule_def severity_for_eq
  by (auto simp: dom_map_of_conv_image_fst [symmetric] split: option.splits)

section \<open>Findings\<close>

definition finding_for :: "breaking_engine \<Rightarrow> change \<Rightarrow> finding \<Rightarrow> bool" where
  "finding_for eng c f \<longleftrightarrow> severity_for eng (f_rule_id f) = Inr (f_severity f)
     \<and> f_message f = c_description c \<and> f_operation_key f = Some (c_operation_key c)
     \<and> f_change_id f = Some (c_id c)"

lemma report_known:
  assumes "known_rule r"
  shows "\<exists>f. report eng c r = Inr [f] \<and> f_rule_id f = r \<and> finding_for eng c f"
  using severity_for_known [OF assms, of eng]
  by (auto simp: report_def make_finding_def finding_for_def)

text \<open>At most one finding, about the change, under a rule of the catalog.\<close>

definition classified :: "breaking_engine \<Rightarrow> change \<Rightarrow> finding list result \<Rightarrow> bool" where
  "classified eng c r \<longleftrightarrow>
     (\<exists>fs. r = Inr fs \<and> length fs \<le> 1 \<and> list_all (\<lambda>f. known_rule (f_rule_id f) \<and> finding_for eng c f) fs)"

lemma classified_report: "known_rule r \<Longrightarrow> classified eng c (report eng c r)"
  using report_known [of r eng c] by (auto simp: classified_def)

lemma classified_nothing: "classified eng c (Inr [])"
  by (simp add: classified_def)

lemma classified_report_opt:
  "(\<And>r. v = Some r \<Longrightarrow> known_rule r) \<Longrightarrow> classified eng c (report_opt eng c v)"
  by (cases v) (auto simp: report_opt_def intro: classified_report classified_nothing)

lemma known_mcp_rule: "mcp_annotation_rule c = Some r \<Longrightarrow> known_rule r"
  by (auto simp: mcp_annotation_rule_def MCP_ANNOTATION_RULES_def Let_def
      split: pyval.splits if_splits)

lemma known_stream_rule: "stream_rule c = Some r \<Longrightarrow> known_rule r"
  by (auto simp: stream_rule_def Let_def split: if_splits)

lemma known_enum_rule: "enum_rule c = Some r \<Longrightarrow> known_rule r"
  by (auto simp: enum_rule_def Let_def split: if_splits)

lemma known_request_schema_rule: "request_schema_rule d = Some r \<Longrightarrow> known_rule r"
  by (auto simp: request_schema_rule_def split: if_splits)

lemma known_response_schema_rule: "known_rule (response_schema_rule d)"
  by (simp add: response_schema_rule_def)

lemma known_requiredness_rule: "known_rule (requiredness_rule c)"
  by (simp add: requiredness_rule_def Let_def)

lemma hashable_names: "list_all hashable (map PStr xs)"
  by (simp add: list_all_iff)

lemma classified_dependent_required:
  assumes "name_lists c" and "c_kind c = DEPENDENT_REQUIRED_CHANGED"
  shows "classified eng c (evaluate_dependent_required eng c)"
  using assms
  by (auto simp: name_lists_def evaluate_dependent_required_def py_set_diff_def py_set_def str_list_def
      hashable_names intro!: classified_report)

lemma classified_constraint: "classified eng c (evaluate_constraint eng c)"
  unfolding evaluate_constraint_def Let_def
  by (auto intro!: classified_report classified_nothing split: option.splits)

lemma classified_shape_kinds: "name_lists c \<Longrightarrow> classified eng c (evaluate_shape_kinds eng c)"
  unfolding evaluate_shape_kinds_def
  by (cases "c_kind c")
    (auto intro!: classified_report classified_nothing classified_report_opt classified_dependent_required
      known_response_schema_rule dest: known_request_schema_rule)

lemma classified_request_kinds: "name_lists c \<Longrightarrow> classified eng c (evaluate_request_kinds eng c)"
  unfolding evaluate_request_kinds_def Let_def
  by (cases "c_kind c")
    (auto intro!: classified_report classified_report_opt classified_constraint classified_shape_kinds
      known_requiredness_rule dest: known_enum_rule)

lemma classified_change: "name_lists c \<Longrightarrow> classified eng c (evaluate_change eng c)"
  unfolding evaluate_change_def Let_def
  by (cases "c_kind c")
    (auto intro!: classified_report classified_report_opt classified_request_kinds
      dest: known_mcp_rule known_stream_rule)

lemma evaluate_succeeds:
  assumes "\<And>c. c \<in> set cs \<Longrightarrow> name_lists c"
  shows "\<exists>fs. evaluate eng cs = Inr fs \<and> length fs \<le> length cs \<and>
    (\<forall>f \<in> set fs. known_rule (f_rule_id f) \<and> (\<exists>c \<in> set cs. finding_for eng c f))"
  using assms
proof (induction cs)
  case (Cons c cs)
  then obtain gs where gs: "evaluate eng cs = Inr gs" "length gs \<le> length cs"
    "\<forall>f \<in> set gs. known_rule (f_rule_id f) \<and> (\<exists>c \<in> set cs. finding_for eng c f)" by fastforce
  from classified_change [OF Cons.prems] obtain fs where fs: "evaluate_change eng c = Inr fs"
    "length fs \<le> 1" "list_all (\<lambda>f. known_rule (f_rule_id f) \<and> finding_for eng c f) fs"
    by (auto simp: classified_def)
  with gs show ?case by (auto simp: list_all_iff)
qed simp

text \<open>The findings of one change are among those of the list.\<close>

lemma evaluate_member:
  assumes "evaluate eng cs = Inr fs" and "c \<in> set cs"
  shows "\<exists>gs. evaluate_change eng c = Inr gs \<and> set gs \<subseteq> set fs"
  using assms
proof (induction cs arbitrary: fs)
  case (Cons d cs)
  then obtain gs hs where "evaluate_change eng d = Inr gs" "evaluate eng cs = Inr hs" "fs = gs @ hs"
    by (auto simp: bind_result_def split: sum.splits)
  with Cons show ?case by (cases "c = d") fastforce+
qed simp

end
