(* ===== verification/Verdicts.thy ===== *)
theory Verdicts
  imports BreakingFacts
begin

text \<open>
  The verdict on numeric bounds. \<open>accepted attr v\<close> is the set of measures (the number
  itself, the length, the number of items or properties) a keyword admits; the verdict of
  \<open>_constraint_change_is_tightening\<close> is compared with the inclusion of these sets. The
  second half follows a bound from the differ's message back into the rule engine, which
  reads the attribute out of the message.
\<close>

section \<open>What a bound accepts\<close>

definition bound_accepts :: "string \<Rightarrow> pyfloat \<Rightarrow> pyfloat \<Rightarrow> bool" where
  "bound_accepts attr b x =
     (if attr = ''exclusive_minimum'' then flt_lt b x
      else if attr = ''exclusive_maximum'' then flt_lt x b
      else if attr \<in> set tighten_on_increase then flt_le b x
      else flt_le x b)"

definition accepted :: "string \<Rightarrow> pyval \<Rightarrow> pyfloat set" where
  "accepted attr v = {x. case num_of v of None \<Rightarrow> True | Some b \<Rightarrow> bound_accepts attr b x}"

text \<open>The keywords that bound a measure from one side.\<close>

definition range_attrs :: "string list" where
  "range_attrs = filter (\<lambda>a. a \<noteq> ''multiple_of'') tighten_on_increase @ tighten_on_decrease"

definition bound_value :: "pyval \<Rightarrow> bool" where
  "bound_value v \<longleftrightarrow> v = PNone \<or> is_num v"

lemma flt_smaller: "\<exists>x. flt_lt x b"
proof (cases b)
  case (Flt m e)
  then have "flt_lt (Flt (m - 1) e) b" by (simp add: flt_lt_def flt_le_def flt_exp_def scaled_def)
  then show ?thesis by blast
qed

lemma flt_larger: "\<exists>x. flt_lt b x"
proof (cases b)
  case (Flt m e)
  then have "flt_lt b (Flt (m + 1) e)" by (simp add: flt_lt_def flt_le_def flt_exp_def scaled_def)
  then show ?thesis by blast
qed

lemma flt_order:
  "flt_lt x y \<Longrightarrow> flt_le x y" "flt_lt x y \<Longrightarrow> flt_le y z \<Longrightarrow> flt_lt x z" "flt_le x y \<Longrightarrow> flt_lt y z \<Longrightarrow> flt_lt x z"
  "\<not> flt_lt x y \<longleftrightarrow> flt_le y x" "\<not> flt_le x y \<longleftrightarrow> flt_lt y x"
  using flt_le_linear flt_le_trans unfolding flt_lt_def by blast+

text \<open>The four shapes of a bound are monotone in the bound, strictly.\<close>

lemma half_lines:
  assumes "flt_lt b c"
  shows "{x. flt_le c x} \<subset> {x. flt_le b x}" "{x. flt_lt c x} \<subset> {x. flt_lt b x}"
    "{x. flt_le x b} \<subset> {x. flt_le x c}" "{x. flt_lt x b} \<subset> {x. flt_lt x c}"
proof -
  have "b \<in> {x. flt_le b x} - {x. flt_le c x}" "c \<in> {x. flt_lt b x} - {x. flt_lt c x}"
    "c \<in> {x. flt_le x c} - {x. flt_le x b}" "b \<in> {x. flt_lt x c} - {x. flt_lt x b}"
    using assms by (auto simp: flt_order(4,5) dest: flt_order(1))
  moreover have "{x. flt_le c x} \<subseteq> {x. flt_le b x}" "{x. flt_lt c x} \<subseteq> {x. flt_lt b x}"
    "{x. flt_le x b} \<subseteq> {x. flt_le x c}" "{x. flt_lt x b} \<subseteq> {x. flt_lt x c}"
    using assms flt_le_trans flt_order(1-3) flt_lt_trans by blast+
  ultimately show "{x. flt_le c x} \<subset> {x. flt_le b x}" "{x. flt_lt c x} \<subset> {x. flt_lt b x}"
    "{x. flt_le x b} \<subset> {x. flt_le x c}" "{x. flt_lt x b} \<subset> {x. flt_lt x c}" by blast+
qed

lemma half_lines_eq:
  assumes "flt_eq b c"
  shows "{x. flt_le c x} = {x. flt_le b x}" "{x. flt_lt c x} = {x. flt_lt b x}"
    "{x. flt_le x b} = {x. flt_le x c}" "{x. flt_lt x b} = {x. flt_lt x c}"
  using assms flt_le_trans flt_order(2,3) unfolding flt_eq_def by blast+

lemma half_lines_proper:
  "{x. flt_le b x} \<subset> UNIV" "{x. flt_lt b x} \<subset> UNIV" "{x. flt_le x b} \<subset> UNIV" "{x. flt_lt x b} \<subset> UNIV"
proof -
  have "\<exists>x. \<not> flt_le b x" "\<exists>x. \<not> flt_lt b x" "\<exists>x. \<not> flt_le x b" "\<exists>x. \<not> flt_lt x b"
    using flt_smaller [of b] flt_larger [of b] by (auto simp: flt_order(4,5) dest: flt_order(1))
  then show "{x. flt_le b x} \<subset> UNIV" "{x. flt_lt b x} \<subset> UNIV" "{x. flt_le x b} \<subset> UNIV" "{x. flt_lt x b} \<subset> UNIV"
    by blast+
qed

lemma flt_trichotomy: "flt_lt b c \<or> flt_eq b c \<or> flt_lt c b"
  by (auto simp: flt_eq_def flt_lt_def)

lemma accepted_unbounded: "accepted attr PNone = UNIV"
  by (simp add: accepted_def num_of_def)

lemma accepted_bound: "num_of v = Some b \<Longrightarrow> accepted attr v = {x. bound_accepts attr b x}"
  by (simp add: accepted_def)

lemma range_attrs_eq:
  "range_attrs = [''minimum'', ''exclusive_minimum'', ''min_length'', ''min_items'', ''min_properties'',
     ''maximum'', ''exclusive_maximum'', ''max_length'', ''max_items'', ''max_properties'']"
  by (simp add: range_attrs_def tighten_on_increase_def tighten_on_decrease_def)

lemma range_attr_cases:
  assumes "attr \<in> set range_attrs"
  obtains (up) "attr \<in> set tighten_on_increase" "\<And>b. {x. bound_accepts attr b x} = {x. flt_le b x}"
  | (up_strict) "attr \<in> set tighten_on_increase" "\<And>b. {x. bound_accepts attr b x} = {x. flt_lt b x}"
  | (down) "attr \<notin> set tighten_on_increase" "attr \<in> set tighten_on_decrease"
      "\<And>b. {x. bound_accepts attr b x} = {x. flt_le x b}"
  | (down_strict) "attr \<notin> set tighten_on_increase" "attr \<in> set tighten_on_decrease"
      "\<And>b. {x. bound_accepts attr b x} = {x. flt_lt x b}"
proof -
  have "attr \<in> set [''minimum'', ''min_length'', ''min_items'', ''min_properties'']
      \<or> attr = ''exclusive_minimum''
      \<or> attr \<in> set [''maximum'', ''max_length'', ''max_items'', ''max_properties'']
      \<or> attr = ''exclusive_maximum''"
    using assms unfolding range_attrs_eq list.set by (elim insertE emptyE) simp_all
  then consider "attr \<in> set [''minimum'', ''min_length'', ''min_items'', ''min_properties'']"
    | "attr = ''exclusive_minimum''"
    | "attr \<in> set [''maximum'', ''max_length'', ''max_items'', ''max_properties'']"
    | "attr = ''exclusive_maximum''" by (elim disjE) assumption+
  then show thesis
  proof cases
    case 1
    then have "attr \<in> set tighten_on_increase" "attr \<noteq> ''exclusive_minimum''" "attr \<noteq> ''exclusive_maximum''"
      unfolding tighten_on_increase_def list.set by (elim insertE emptyE, simp_all)+
    then show ?thesis by (intro up) (simp_all add: bound_accepts_def)
  next
    case 2
    then show ?thesis by (intro up_strict) (simp_all add: bound_accepts_def tighten_on_increase_def)
  next
    case 3
    then have "attr \<notin> set tighten_on_increase" "attr \<in> set tighten_on_decrease"
      "attr \<noteq> ''exclusive_minimum''" "attr \<noteq> ''exclusive_maximum''"
      unfolding tighten_on_increase_def tighten_on_decrease_def list.set
      by (elim insertE emptyE, simp_all)+
    then show ?thesis by (intro down) (simp_all add: bound_accepts_def)
  next
    case 4
    then show ?thesis
      by (intro down_strict) (simp_all add: bound_accepts_def tighten_on_increase_def tighten_on_decrease_def)
  qed
qed

lemma not_special_attr:
  "attr \<in> set range_attrs \<Longrightarrow> attr \<noteq> ''pattern'' \<and> attr \<noteq> ''const'' \<and> attr \<noteq> ''unique_items''"
  unfolding range_attrs_eq list.set by (elim insertE emptyE) simp_all

definition set_verdict :: "pyfloat set \<Rightarrow> pyfloat set \<Rightarrow> bool option" where
  "set_verdict before after =
     (if after \<subset> before then Some True else if before \<subset> after then Some False else None)"

lemma set_verdict_simps:
  "A \<subset> B \<Longrightarrow> set_verdict B A = Some True" "A \<subset> B \<Longrightarrow> set_verdict A B = Some False"
  "set_verdict A A = None"
  by (auto simp: set_verdict_def)

lemma verdict_is_inclusion:
  assumes attr: "attr \<in> set range_attrs" and "bound_value old" and "bound_value new"
  shows "constraint_change_is_tightening attr old new = set_verdict (accepted attr old) (accepted attr new)"
proof -
  note plain = not_special_attr [OF attr]
  consider (both) b c where "num_of old = Some b" "num_of new = Some c"
    | (gained) c where "old = PNone" "num_of new = Some c" | (lost) b where "num_of old = Some b" "new = PNone"
    | (none) "old = PNone" "new = PNone"
    using assms(2,3) by (auto simp: bound_value_def is_num_def)
  then show ?thesis
  proof cases
    case both
    have "old \<noteq> PNone" "new \<noteq> PNone" using both by (auto simp: num_of_def)
    note sets = accepted_bound [OF both(1), of attr] accepted_bound [OF both(2), of attr]
    from flt_trichotomy [of b c] have irr: "flt_lt b c \<Longrightarrow> \<not> flt_lt c b \<and> \<not> flt_eq b c"
      "flt_lt c b \<Longrightarrow> \<not> flt_lt b c \<and> \<not> flt_eq b c" using flt_le_linear [of b c] by (auto simp: flt_lt_def flt_eq_def)
    from attr flt_trichotomy [of b c] show ?thesis
      using \<open>old \<noteq> PNone\<close> \<open>new \<noteq> PNone\<close> plain both irr
      by (cases rule: range_attr_cases)
        (auto simp: constraint_change_is_tightening_def sets set_verdict_simps half_lines half_lines_eq)
  next
    case gained
    from attr show ?thesis using plain gained
      by (cases rule: range_attr_cases)
        (simp_all add: constraint_change_is_tightening_def is_num_def accepted_unbounded
          accepted_bound [OF gained(2)] set_verdict_simps half_lines_proper)
  next
    case lost
    then have "old \<noteq> PNone" by (auto simp: num_of_def)
    with attr show ?thesis using plain lost
      by (cases rule: range_attr_cases)
        (simp_all add: constraint_change_is_tightening_def is_num_def accepted_unbounded num_of_def [of PNone]
          accepted_bound [OF lost(1)] set_verdict_simps half_lines_proper)
  next
    case none
    with attr show ?thesis using plain
      by (simp add: constraint_change_is_tightening_def is_num_def num_of_def set_verdict_simps)
  qed
qed

section \<open>From the message back to the attribute\<close>

lemma contains_set: "contains m s \<Longrightarrow> set m \<subseteq> set s"
  by (auto simp: contains_def sublist_def)

lemma not_contains: "x \<in> set m \<Longrightarrow> x \<notin> set s \<Longrightarrow> \<not> contains m s"
  using contains_set by fastforce

lemma split_from_first:
  assumes "sep \<noteq> []" and "\<And>i. i < length a \<Longrightarrow> \<not> prefix sep (drop i (a @ sep @ b))"
  shows "split_from sep acc (a @ sep @ b) = (rev acc @ a) # split_from sep [] b"
  using assms(2)
proof (induction a arbitrary: acc)
  case Nil
  from assms(1) obtain c t where "sep = c # t" by (cases sep) auto
  then show ?case by simp
next
  case (Cons x a)
  have "\<not> prefix sep (x # a @ sep @ b)" using Cons.prems [of 0] by simp
  moreover have "\<not> prefix sep (drop i (a @ sep @ b))" if "i < length a" for i
    using Cons.prems [of "Suc i"] that by simp
  ultimately show ?case using Cons.IH [of "x # acc"] by simp
qed

lemma split_at_char:
  assumes "c \<notin> set a"
  shows "split_from [c] acc (a @ c # b) = (rev acc @ a) # split_from [c] [] b"
proof -
  have "\<not> prefix [c] (drop i (a @ [c] @ b))" if "i < length a" for i
  proof
    assume "prefix [c] (drop i (a @ [c] @ b))"
    then have "a ! i = c" using that by (auto simp: prefix_def nth_append dest!: arg_cong [of _ _ hd]
        simp flip: hd_drop_conv_nth)
    with that assms show False by (metis nth_mem)
  qed
  from split_from_first [of "[c]", OF _ this] show ?thesis by simp
qed

lemma prefix_drop_contains:
  assumes "prefix m (drop i (a @ c # b))" and "i \<le> length a" and "c \<notin> set m" and "m \<noteq> []"
  shows "contains m a"
proof -
  obtain zs where zs: "drop i a @ c # b = m @ zs" using assms(1,2) by (auto simp: prefix_def)
  have "length m \<le> length (drop i a)"
  proof (rule ccontr)
    assume long: "\<not> length m \<le> length (drop i a)"
    then have "m ! length (drop i a) = (m @ zs) ! length (drop i a)" by (simp add: nth_append)
    also have "\<dots> = (drop i a @ c # b) ! length (drop i a)" by (simp only: zs)
    also have "\<dots> = c" by (rule nth_append_length)
    finally show False using long assms(3) nth_mem [of "length (drop i a)" m] by simp
  qed
  moreover have "prefix m (drop i a @ c # b)" by (simp add: zs)
  moreover have "prefix (drop i a) (drop i a @ c # b)" by (rule prefixI) (rule refl)
  ultimately have "prefix m (drop i a)" by (rule prefix_length_prefix [rotated 2])
  then obtain ys where "drop i a = m @ ys" by (auto simp: prefix_def)
  then have "a = take i a @ m @ ys" by (metis append_take_drop_id)
  then show ?thesis by (metis contains_middle)
qed

abbreviation constraint_message :: "string \<Rightarrow> string \<Rightarrow> string \<Rightarrow> string" where
  "constraint_message label attr values \<equiv>
     label @ '': constraint '' @ quoted attr @ '' changed '' @ values"

lemma split_from_none: "\<not> contains sep s \<Longrightarrow> split_from sep acc s = [rev acc @ s]"
proof (induction s arbitrary: acc)
  case (Cons c s)
  from Cons.prems have "\<not> prefix sep (c # s)" by (auto simp: contains_def prefix_imp_sublist)
  moreover have "\<not> contains sep s"
    using Cons.prems contains_append_right [of sep s "[c]"] by auto
  ultimately show ?case using Cons.IH [of "c # acc"] by simp
qed simp

lemma constraint_attr_of_message:
  assumes "\<not> contains (''constraint '' @ sq) label" and "CHR 0x27 \<notin> set attr"
    and "\<not> contains (''constraint '' @ sq) (attr @ sq @ '' changed '' @ values)"
  shows "constraint_attr (constraint_message label attr values) = attr"
proof -
  let ?sep = "''constraint '' @ sq" and ?rest = "attr @ sq @ '' changed '' @ values"
  have desc: "constraint_message label attr values = (label @ '': '') @ ?sep @ ?rest"
    by (simp add: quoted_def sq_def)
  have "\<not> prefix ?sep (drop i ((label @ '': '') @ ?sep @ ?rest))" if "i < length (label @ '': '')" for i
  proof
    assume p: "prefix ?sep (drop i ((label @ '': '') @ ?sep @ ?rest))"
    show False
    proof (cases "i \<le> length label")
      case True
      have "prefix ?sep (drop i (label @ CHR '':'' # '' '' @ ?sep @ ?rest))" using p by simp
      from prefix_drop_contains [OF this True] assms(1) show False by (simp add: sq_def)
    next
      case False
      with that have "i = Suc (length label)" by simp
      then have "drop i ((label @ '': '') @ ?sep @ ?rest) = '' '' @ ?sep @ ?rest" by simp
      with p show False by simp
    qed
  qed
  from split_from_first [OF _ this, of "[]"]
  have "split_on ?sep (constraint_message label attr values) = [label @ '': '', ?rest]"
    using split_from_none [OF assms(3), of "[]"] unfolding split_on_def desc by simp
  moreover have "split_on sq ?rest = attr # split_on sq ('' changed '' @ values)"
    using split_at_char [OF assms(2), of "[]" "'' changed '' @ values"] by (simp add: split_on_def sq_def)
  moreover have "contains ?sep (constraint_message label attr values)"
    unfolding desc by (rule contains_middle)
  ultimately show ?thesis unfolding constraint_attr_def by simp
qed

section \<open>Messages about numeric bounds\<close>

definition number_chars :: "char set" where
  "number_chars = set ''NoneTrueFals0123456789.e+-''"

lemma number_chars_digits: "set (nat_str n) \<subseteq> number_chars"
proof -
  have "list_all (\<lambda>d. digit_char d \<in> number_chars) [0..<10]" by code_simp
  then have "digit_char ` {..<10} \<subseteq> number_chars" by (auto simp: list_all_iff)
  with nat_str_digits [of n] show ?thesis by blast
qed

lemma set_strip_zeros: "set (strip_zeros ds) \<subseteq> set ds"
proof (induction ds rule: strip_zeros.induct)
  case (1 s)
  show ?case
  proof (cases "s \<noteq> [] \<and> last s = CHR ''0''")
    case True
    with 1 have "set (strip_zeros (butlast s)) \<subseteq> set s" by (auto dest: in_set_butlastD)
    with True show ?thesis by (subst strip_zeros.simps) simp
  qed (subst strip_zeros.simps, auto)
qed

lemma number_chars_float: "set (float_repr x) \<subseteq> number_chars"
proof (cases x)
  case (Flt m e)
  have digits: "set (strip_zeros (nat_str n)) \<subseteq> number_chars" for n
    using set_strip_zeros number_chars_digits by blast
  have chars: "set ''0.0'' \<subseteq> number_chars" "set ''e'' \<subseteq> number_chars" "set ''0.'' \<subseteq> number_chars"
    "set ''.0'' \<subseteq> number_chars" "set ''.'' \<subseteq> number_chars" "set ''-'' \<subseteq> number_chars"
    "set ''+'' \<subseteq> number_chars" "set ''0'' \<subseteq> number_chars"
    by (simp_all add: number_chars_def)
  have exponent: "set (exponent_str k) \<subseteq> number_chars" for k
    using chars number_chars_digits by (auto simp: exponent_str_def split: if_splits)
  have app: "set a \<subseteq> number_chars \<Longrightarrow> set b \<subseteq> number_chars \<Longrightarrow> set (a @ b) \<subseteq> number_chars" for a b
    by simp
  have cond: "set a \<subseteq> number_chars \<Longrightarrow> set b \<subseteq> number_chars \<Longrightarrow> set (if P then a else b) \<subseteq> number_chars"
    for P and a b :: string by simp
  have parts: "set (take k (strip_zeros (nat_str n))) \<subseteq> number_chars"
    "set (drop k (strip_zeros (nat_str n))) \<subseteq> number_chars" "set (replicate k (CHR ''0'')) \<subseteq> number_chars" for k n
    using digits [of n] set_take_subset set_drop_subset chars(8) by fastforce+
  have scientific: "set (case ds of [] \<Rightarrow> [] | d # r \<Rightarrow>
      d # (if r = [] then [] else ''.'' @ r) @ ''e'' @ exponent_str k) \<subseteq> number_chars"
    if "set ds \<subseteq> number_chars" for ds k
    using that chars(2,5) exponent [of k] by (cases ds) auto
  have nil: "set [] \<subseteq> number_chars" by simp
  show ?thesis
    unfolding float_repr_def Flt pyfloat.case Let_def
    by (intro cond app parts scientific digits chars nil)
qed

lemma bound_repr_chars:
  assumes "bound_value v"
  shows "set (py_repr v) \<subseteq> number_chars"
proof -
  have chars: "set ''None'' \<subseteq> number_chars" "set ''True'' \<subseteq> number_chars" "set ''False'' \<subseteq> number_chars"
    "CHR ''-'' \<in> number_chars" by (simp_all add: number_chars_def)
  show ?thesis
  proof (cases v)
    case (PBool b)
    then show ?thesis using chars(2,3) by (cases b) (simp_all only: py_repr.simps bool_str_def if_True if_False)
  next
    case (PInt i)
    then show ?thesis using chars(4) number_chars_digits by (simp add: int_str_def)
  qed (use assms chars number_chars_float in \<open>auto simp: bound_value_def is_num_def num_of_def\<close>)
qed

text \<open>Labels that do not themselves hold one of the markers the rule engine looks for.\<close>

definition clean_label :: "string \<Rightarrow> bool" where
  "clean_label label \<longleftrightarrow> \<not> contains (''constraint '' @ sq) label \<and> \<not> contains ''format changed'' label
     \<and> \<not> contains (quoted ''pattern'' @ '' changed'') label"

abbreviation bound_values :: "pyval \<Rightarrow> pyval \<Rightarrow> string" where
  "bound_values old new \<equiv> py_repr old @ '' -> '' @ py_repr new"

lemma bound_values_chars:
  assumes "bound_value old" and "bound_value new" and "c \<notin> number_chars" and "c \<notin> set '' -> ''"
  shows "c \<notin> set (bound_values old new)"
  using assms bound_repr_chars by fastforce

lemma range_attr_letters:
  assumes "attr \<in> set range_attrs"
  shows "CHR 0x27 \<notin> set attr" "CHR ''f'' \<notin> set attr"
    "\<not> contains (''constraint '' @ sq) (attr @ sq @ '' chan'')"
    "\<not> contains (sq @ ''p'') (quoted attr)"
proof -
  have "list_all (\<lambda>attr. CHR 0x27 \<notin> set attr \<and> CHR ''f'' \<notin> set attr
    \<and> \<not> contains (''constraint '' @ sq) (attr @ sq @ '' chan'') \<and> \<not> contains (sq @ ''p'') (quoted attr)) range_attrs"
    by code_simp
  then show "CHR 0x27 \<notin> set attr" "CHR ''f'' \<notin> set attr"
    "\<not> contains (''constraint '' @ sq) (attr @ sq @ '' chan'')"
    "\<not> contains (sq @ ''p'') (quoted attr)"
    using assms by (auto simp: list_all_iff)
qed

lemma message_attr:
  assumes "attr \<in> set range_attrs" and "clean_label label" and "bound_value old" and "bound_value new"
  shows "constraint_attr (constraint_message label attr (bound_values old new)) = attr"
proof (rule constraint_attr_of_message)
  show "\<not> contains (''constraint '' @ sq) label" using assms(2) by (simp add: clean_label_def)
  show "CHR 0x27 \<notin> set attr" by (rule range_attr_letters [OF assms(1)])
  let ?m = "''constraint '' @ sq"
  have "CHR ''c'' \<notin> set (bound_values old new)"
    by (rule bound_values_chars [OF assms(3,4)]) (simp_all add: number_chars_def)
  then have "\<not> contains ?m (''ed '' @ bound_values old new)"
    by (intro not_contains [of "CHR ''c''"]) simp_all
  then have "\<not> contains ?m ((attr @ sq @ '' chan'') @ CHR ''g'' # (''ed '' @ bound_values old new))"
    using range_attr_letters(3) [OF assms(1)] by (subst contains_separated) (simp_all add: sq_def)
  then show "\<not> contains ?m (attr @ sq @ '' changed '' @ bound_values old new)" by simp
qed

lemma message_no_format:
  assumes "attr \<in> set range_attrs" and "clean_label label" and "bound_value old" and "bound_value new"
  shows "\<not> contains ''format changed'' (constraint_message label attr (bound_values old new))"
proof -
  let ?rest = "'' constraint '' @ quoted attr @ '' changed '' @ bound_values old new"
  have "CHR ''f'' \<notin> set (bound_values old new)"
    by (rule bound_values_chars [OF assms(3,4)]) (simp_all add: number_chars_def)
  then have "\<not> contains ''format changed'' ?rest"
    using range_attr_letters(2) [OF assms(1)]
    by (intro not_contains [of "CHR ''f''"]) (simp_all add: quoted_def sq_def)
  then have "\<not> contains ''format changed'' (label @ CHR '':'' # ?rest)"
    using assms(2) by (subst contains_separated) (simp_all add: clean_label_def)
  then show ?thesis by simp
qed

lemma message_no_pattern:
  assumes "attr \<in> set range_attrs" and "clean_label label" and "bound_value old" and "bound_value new"
  shows "\<not> contains (quoted ''pattern'' @ '' changed'') (constraint_message label attr (bound_values old new))"
proof -
  let ?m = "quoted ''pattern'' @ '' changed''" and ?q = "sq @ ''p''"
  have sep: "contains ?q (a @ CHR '' '' # b) \<longleftrightarrow> contains ?q a \<or> contains ?q b" for a b
    by (rule contains_separated) (simp_all add: sq_def)
  have "CHR 0x27 \<notin> set (bound_values old new)"
    by (rule bound_values_chars [OF assms(3,4)]) (simp_all add: number_chars_def)
  then have "\<not> contains ?q (bound_values old new)"
    by (intro not_contains [of "CHR 0x27"]) (simp_all add: sq_def)
  moreover have "\<not> contains ?q ''constraint''" "\<not> contains ?q ''changed''" "\<not> contains ?q []"
    by (rule not_contains [of "CHR 0x27"]; simp add: sq_def)+
  ultimately have "\<not> contains ?q
      ([] @ CHR '' '' # ''constraint'' @ CHR '' '' # quoted attr @ CHR '' '' # ''changed'' @ CHR '' '' # bound_values old new)"
    unfolding sep using range_attr_letters(4) [OF assms(1)] by blast
  moreover have "contains ?q ?m" by (auto simp: contains_def sublist_def quoted_def)
  ultimately have "\<not> contains ?m
      ([] @ CHR '' '' # ''constraint'' @ CHR '' '' # quoted attr @ CHR '' '' # ''changed'' @ CHR '' '' # bound_values old new)"
    unfolding contains_def using sublist_order.order_trans by blast
  then have "\<not> contains ?m (label @ CHR '':'' # ([] @ CHR '' '' # ''constraint'' @ CHR '' '' # quoted attr
      @ CHR '' '' # ''changed'' @ CHR '' '' # bound_values old new))"
    using assms(2) by (subst contains_separated) (simp_all add: clean_label_def quoted_def sq_def)
  then show ?thesis by simp
qed

definition bound_rule :: "string \<Rightarrow> bool \<Rightarrow> string" where
  "bound_rule d tightened =
     (if d = ''request'' then
        (if tightened then ''BRK-CONSTRAINT-TIGHTENED'' else ''BRK-CONSTRAINT-LOOSENED'')
      else (if tightened then ''BRK-RESP-CONSTRAINT-TIGHTENED'' else ''BRK-RESP-CONSTRAINT-LOOSENED''))"

lemma bound_change_evaluates:
  assumes "attr \<in> set range_attrs" and "clean_label label" and "bound_value old" and "bound_value new"
    and "c_kind c = PARAMETER_CONSTRAINT_CHANGED"
    and "c_description c = constraint_message label attr (bound_values old new)"
    and "c_old_value c = old" and "c_new_value c = new"
  shows "evaluate_change eng c =
    report_opt eng c (map_option (bound_rule (c_direction c)) (set_verdict (accepted attr old) (accepted attr new)))"
proof -
  note facts = message_attr [OF assms(1-4)] message_no_format [OF assms(1-4)] message_no_pattern [OF assms(1-4)]
    verdict_is_inclusion [OF assms(1,3,4)]
  have "evaluate_change eng c = evaluate_constraint eng c"
    by (simp only: evaluate_change_def evaluate_request_kinds_def assms(5) change_kind.case change_kind.distinct
        simp_thms if_False)
  also have "\<dots> = (case set_verdict (accepted attr old) (accepted attr new) of None \<Rightarrow> Inr []
      | Some t \<Rightarrow> report eng c (bound_rule (c_direction c) t))"
    unfolding evaluate_constraint_def Let_def assms(6-8) facts bound_rule_def
    by (simp only: facts if_False)
  finally show ?thesis by (simp add: report_opt_def split: option.splits)
qed

end
