(* ===== verification/CanonicalFacts.thy ===== *)
theory CanonicalFacts
  imports Canonical Verdicts "HOL-Library.Multiset"
begin

text \<open>
  What canonicalization keeps. Operation keys, statuses and property names are untouched;
  findings are only ever appended; and when nothing is reported, the values a schema admits
  through its numeric bounds, its own and those of its \<open>allOf\<close> branches at any depth, are
  exactly those of the canonical schema, although the branches are gone.
\<close>

section \<open>Findings are only appended\<close>

definition appends :: "('a \<Rightarrow> finding list \<Rightarrow> 'b \<times> finding list) \<Rightarrow> 'a \<Rightarrow> bool" where
  "appends f x \<longleftrightarrow> (\<forall>fs. prefix fs (snd (f x fs)))"

lemma prefix_bind:
  assumes "prefix fs (snd r)" and "\<And>x gs. r = (x, gs) \<Longrightarrow> prefix gs (snd (k x gs))"
  shows "prefix fs (snd (case r of (x, gs) \<Rightarrow> k x gs))"
  using assms prefix_order.trans by (cases r) fastforce

lemma map_acc_appends: "(\<And>x. x \<in> set xs \<Longrightarrow> appends f x) \<Longrightarrow> prefix fs (snd (map_acc f xs fs))"
proof (induction xs arbitrary: fs)
  case (Cons x xs)
  have "prefix fs (snd (f x fs))" using Cons.prems by (simp add: appends_def)
  moreover have "prefix (snd (f x fs)) (snd (map_acc f xs (snd (f x fs))))" using Cons by simp
  ultimately show ?case by (auto simp: split_beta dest: prefix_order.trans)
qed simp

lemma canon_dict_appends:
  "(\<And>c l. c \<in> snd ` set d \<Longrightarrow> appends (\<lambda>c. rec c l) c) \<Longrightarrow> prefix fs (snd (canon_dict rec place d fs))"
  unfolding canon_dict_def
  by (rule map_acc_appends) (force simp: appends_def split_beta)

lemma canon_list_appends:
  assumes "\<And>c l. c \<in> set (list_or_empty v) \<Longrightarrow> appends (\<lambda>c. rec c l) c"
  shows "prefix fs (snd (canon_list rec place v fs))"
proof (cases v)
  case (Some vs)
  have "prefix fs (snd (map_acc (\<lambda>(i, v). rec v (place i)) (List.enumerate 0 vs) fs))"
    using assms Some
    by (intro map_acc_appends) (auto simp: appends_def list_or_empty_def enumerate_eq_zip dest!: set_zip_rightD)
  with Some show ?thesis by (simp add: canon_list_def opt_acc_def split_beta)
qed (simp add: canon_list_def opt_acc_def)

lemma canon_opt_appends:
  "(\<And>c l. v = Some c \<Longrightarrow> appends (\<lambda>c. rec c l) c) \<Longrightarrow> prefix fs (snd (canon_opt rec place v fs))"
  by (cases v) (auto simp: canon_opt_def opt_acc_def appends_def split_beta)

lemma canonicalize_children_appends:
  assumes "\<And>c l. c \<in> set (sub_schemas n) \<Longrightarrow> appends (\<lambda>c. rec c l) c"
  shows "prefix fs (snd (canonicalize_children rec n location fs))"
proof -
  have "prefix fs (snd (canon_dict rec place (properties n) fs))" for place fs
    by (rule canon_dict_appends, rule assms) (auto simp: sub_schemas_def)
  moreover have "prefix fs (snd (canon_opt rec place (items n) fs))" for place fs
    by (rule canon_opt_appends, rule assms) (simp add: sub_schemas_def)
  moreover have "prefix fs (snd (canonicalize_additional rec place (additional_properties n) fs))" for place fs
    using assms by (auto simp: canonicalize_additional_def appends_def sub_schemas_def split_beta
        split: additional.splits)
  moreover have "prefix fs (snd (canon_list rec place v fs))" if "v \<in> {one_of n, any_of n}" for place v fs
    using that by (intro canon_list_appends assms) (auto simp: sub_schemas_def)
  ultimately show ?thesis
    unfolding canonicalize_children_def Let_def by (intro prefix_bind) auto
qed

lemma canonicalize_2020_12_appends:
  assumes "\<And>c l. c \<in> set (late_schemas n) \<Longrightarrow> appends (\<lambda>c. rec c l) c"
  shows "prefix fs (snd (canonicalize_2020_12 rec n location fs))"
proof -
  have "prefix fs (snd (canon_list rec place (prefix_items n) fs))" for place fs
    by (rule canon_list_appends, rule assms) (simp add: late_schemas_def)
  moreover have "prefix fs (snd (canon_opt rec place v fs))"
    if "v \<in> {contains_schema n, property_names n, if_schema n, then_schema n, else_schema n}" for place v fs
    using that by (intro canon_opt_appends assms) (auto simp: late_schemas_def opt_nodes_def)
  moreover have "prefix fs (snd (canon_dict rec place d fs))"
    if "d \<in> {pattern_properties n, dependent_schemas n}" for place d fs
    using that by (intro canon_dict_appends assms) (auto simp: late_schemas_def)
  ultimately show ?thesis
    unfolding canonicalize_2020_12_def Let_def by (intro prefix_bind) auto
qed

lemma collapse_branches_appends: "prefix fs (snd (collapse_branches node branches location fs))"
  by (simp add: collapse_branches_def split_beta Let_def)

lemma collapse_all_of_appends:
  assumes "\<And>c l. c \<in> set (sub_schemas n) \<Longrightarrow> appends (\<lambda>c. rec c l) c"
  shows "prefix fs (snd (collapse_all_of rec n m location fs))"
  unfolding collapse_all_of_def Let_def
  by (intro prefix_bind map_acc_appends collapse_branches_appends, rule assms) (simp add: sub_schemas_def)

lemma canonicalize_body_appends:
  assumes "\<And>c l. c \<in> set (sub_schemas n) \<Longrightarrow> appends (\<lambda>c. rec c l) c"
  shows "prefix fs (snd (canonicalize_body rec n location fs))"
proof -
  have "prefix gs (snd (canonicalize_2020_12 rec m location gs))"
    if "canonicalize_children rec n location fs = (m, gs)" for m gs
    using canonicalize_children_keeps [OF that] late_schemas_sub [of n]
    by (intro canonicalize_2020_12_appends assms) auto
  moreover have "prefix gs (snd (collapse_all_of rec n m location gs))" for m gs
    by (rule collapse_all_of_appends) (rule assms)
  ultimately show ?thesis
    unfolding canonicalize_body_def Let_def
    by (intro prefix_bind canonicalize_children_appends assms) (auto split: if_splits)
qed

lemma canonicalize_schema_appends: "prefix fs (snd (canonicalize_schema s location fs))"
proof (induction s arbitrary: location fs rule: measure_induct_rule [where f = size])
  case (less s)
  show ?case
    unfolding canonicalize_schema.simps [of s]
    by (rule canonicalize_body_appends) (simp add: appends_def less sub_schema_size)
qed

section \<open>Merging reports every disagreement\<close>

lemma fold_prefix:
  assumes "\<And>x props cs ad. prefix cs (fst (snd (f x (props, cs, ad))))"
  shows "prefix (fst (snd st)) (fst (snd (fold f xs st)))"
proof (induction xs arbitrary: st)
  case (Cons x xs)
  obtain props cs ad where st: "st = (props, cs, ad)" by (cases st) auto
  have "prefix cs (fst (snd (f x st)))" using assms st by simp
  then show ?case using Cons [of "f x st"] st by (auto intro: prefix_order.trans)
qed simp

lemma fold_prefix_on:
  assumes "\<And>x props cs ad. x \<in> set xs \<Longrightarrow> prefix cs (fst (snd (f x (props, cs, ad))))"
  shows "prefix (fst (snd st)) (fst (snd (fold f xs st)))"
proof -
  have "fold f xs st = fold (\<lambda>x st. if x \<in> set xs then f x st else st) xs st"
    by (rule fold_cong) simp_all
  then show ?thesis using fold_prefix [of "\<lambda>x st. if x \<in> set xs then f x st else st"] assms by auto
qed

lemma merge_property_prefix:
  assumes "\<And>q existing cs ad. prefix cs (fst (snd (merge_into q (snd x) existing cs ad)))"
  shows "prefix cs (fst (snd (merge_property path x (props, cs, ad))))"
  using assms by (auto simp: merge_property_def Let_def split_beta split: option.splits)

lemma merge_into_conflicts: "prefix conflicts (fst (snd (merge_into path branch target conflicts adopted)))"
proof (induction branch arbitrary: path target conflicts adopted rule: measure_induct_rule [where f = size])
  case (less branch)
  have "prefix cs (fst (snd (merge_property path x (props, cs, ad))))"
    if "x \<in> set (properties branch)" for x props cs ad
    using that by (intro merge_property_prefix less property_size [of "fst x"]) simp
  from fold_prefix_on [of "properties branch" "merge_property path" "(properties target, conflicts, adopted)", OF this]
  have "prefix conflicts (fst (snd (fold (merge_property path) (properties branch)
      (properties target, conflicts, adopted))))" by simp
  then have "prefix conflicts (fst (snd (fold (merge_property path) (properties branch)
      (properties target, conflicts, adopted))) @ unmergeable branch)" by (rule prefix_prefix)
  then show ?case
    by (simp add: merge_into_fold [of path branch] Let_def split_beta)
qed

text \<open>When nothing disagrees, the attributes of the result are merged and its composition is the target's.\<close>

definition with_type_of :: "schema_facts \<Rightarrow> schema_facts \<Rightarrow> schema_facts" where
  "with_type_of b t = (if sn_type b \<noteq> None then t\<lparr>sn_type := sn_type b\<rparr> else t)"

lemma merge_into_agrees:
  assumes "merge_into path branch target conflicts adopted = (merged, [], ad)"
  shows "conflicts = [] \<and> facts merged = merge_facts (facts branch) (with_type_of (facts branch) (facts target))
    \<and> all_of merged = all_of target"
proof -
  have "conflicts = []"
    using merge_into_conflicts [of conflicts path branch target adopted] assms by simp
  then show ?thesis
    using assms unfolding merge_into_fold [of path branch]
    by (auto simp: Let_def split_beta with_parts_def with_type_of_def split: if_splits)
qed

lemma merge_all_agrees:
  assumes "merge_all bs target conflicts = (merged, [], paths)"
  shows "conflicts = [] \<and> facts merged = fold (\<lambda>b t. merge_facts b (with_type_of b t)) (map facts bs) (facts target)
    \<and> all_of merged = all_of target"
  using assms
proof (induction bs arbitrary: target conflicts paths)
  case (Cons b bs)
  obtain t cs ps where step: "merge_into [] b target conflicts [] = (t, cs, ps)"
    by (cases "merge_into [] b target conflicts []") auto
  with Cons.prems obtain pss where "merge_all bs t cs = (merged, [], pss)"
    by (auto split: prod.splits)
  from Cons.IH [OF this] step merge_into_agrees show ?case by auto
qed simp

text \<open>What a merge without disagreement leaves of the attributes that are not bounds.\<close>

lemma merge_facts_fields:
  "sn_required (merge_facts b t) = sorted_union (sn_required t) (sn_required b)"
  "sn_nullable (merge_facts b t) \<longleftrightarrow> sn_nullable t \<or> sn_nullable b"
  "sn_multiple_of (merge_facts b t) = sn_multiple_of t" "sn_unique_items (merge_facts b t) = sn_unique_items t"
  "sn_required (with_type_of b t) = sn_required t" "sn_nullable (with_type_of b t) = sn_nullable t"
  "sn_multiple_of (with_type_of b t) = sn_multiple_of t" "sn_unique_items (with_type_of b t) = sn_unique_items t"
  by (simp_all add: merge_facts_def Let_def with_type_of_def merge_annotations_def tighten_def)

lemma merge_all_fields:
  assumes "merge_all bs target conflicts = (merged, [], paths)"
  shows "set (sn_required (facts merged)) = set (sn_required (facts target)) \<union> (\<Union>b \<in> set bs. set (sn_required (facts b)))"
    and "sn_nullable (facts merged) \<longleftrightarrow> sn_nullable (facts target) \<or> (\<exists>b \<in> set bs. sn_nullable (facts b))"
    and "sn_multiple_of (facts merged) = sn_multiple_of (facts target)"
    and "sn_unique_items (facts merged) = sn_unique_items (facts target)"
proof -
  let ?f = "\<lambda>b t. merge_facts b (with_type_of b t)"
  have fields: "set (sn_required (fold ?f fs t)) = set (sn_required t) \<union> (\<Union>b \<in> set fs. set (sn_required b))"
    "sn_nullable (fold ?f fs t) \<longleftrightarrow> sn_nullable t \<or> (\<exists>b \<in> set fs. sn_nullable b)"
    "sn_multiple_of (fold ?f fs t) = sn_multiple_of t" "sn_unique_items (fold ?f fs t) = sn_unique_items t" for fs t
    by (induction fs arbitrary: t) (auto simp: merge_facts_fields)
  show "set (sn_required (facts merged)) = set (sn_required (facts target)) \<union> (\<Union>b \<in> set bs. set (sn_required (facts b)))"
    "sn_nullable (facts merged) \<longleftrightarrow> sn_nullable (facts target) \<or> (\<exists>b \<in> set bs. sn_nullable (facts b))"
    "sn_multiple_of (facts merged) = sn_multiple_of (facts target)"
    "sn_unique_items (facts merged) = sn_unique_items (facts target)"
    using merge_all_agrees [OF assms] fields by simp_all
qed

section \<open>Bounds are intersected\<close>

lemma flt_max:
  "flt_le (if flt_lt a b then b else a) x \<longleftrightarrow> flt_le a x \<and> flt_le b x"
  "flt_lt (if flt_lt a b then b else a) x \<longleftrightarrow> flt_lt a x \<and> flt_lt b x"
  using flt_order(1) [of a b] flt_order(3) [of a b x] flt_le_trans [of a b x] flt_le_trans [of b a x]
    flt_order(3) [of b a x] flt_order(4) [of a b] flt_lt_trans [of a b x] by auto

lemma flt_min:
  "flt_le x (if flt_lt b a then b else a) \<longleftrightarrow> flt_le x a \<and> flt_le x b"
  "flt_lt x (if flt_lt b a then b else a) \<longleftrightarrow> flt_lt x a \<and> flt_lt x b"
  using flt_order(1) [of b a] flt_order(2) [of x b a] flt_order(2) [of x a b] flt_le_trans [of x b a]
    flt_le_trans [of x a b] flt_order(4) [of b a] flt_lt_trans [of x b a] by auto

lemma int_num_less [simp]: "flt_lt (int_num i) (int_num j) \<longleftrightarrow> i < j"
  by (auto simp: flt_lt_def flt_le_def int_num_def flt_exp_def scaled_def)

lemma accepted_flt_val: "accepted attr (flt_val v) = {x. \<forall>b. v = Some b \<longrightarrow> bound_accepts attr b x}"
  by (cases v) (simp_all add: accepted_def flt_val_def opt_val_def num_of_def)

lemma accepted_int_val: "accepted attr (int_val v) = {x. \<forall>i. v = Some i \<longrightarrow> bound_accepts attr (int_num i) x}"
  by (cases v) (simp_all add: accepted_def int_val_def opt_val_def num_of_def)

lemma accepted_larger:
  assumes "\<And>a b x. bound_accepts attr (if flt_lt a b then b else a) x \<longleftrightarrow> bound_accepts attr a x \<and> bound_accepts attr b x"
  shows "accepted attr (flt_val (larger_of u v)) = accepted attr (flt_val u) \<inter> accepted attr (flt_val v)"
    and "accepted attr (int_val (larger_int i j)) = accepted attr (int_val i) \<inter> accepted attr (int_val j)"
proof -
  show "accepted attr (flt_val (larger_of u v)) = accepted attr (flt_val u) \<inter> accepted attr (flt_val v)"
    unfolding accepted_flt_val larger_of_def using assms by (cases u; cases v) auto
  have "bound_accepts attr (int_num (if a < b then b else a)) x \<longleftrightarrow>
      bound_accepts attr (int_num a) x \<and> bound_accepts attr (int_num b) x" for a b x
    using assms [of "int_num a" "int_num b" x] by (auto split: if_splits)
  then show "accepted attr (int_val (larger_int i j)) = accepted attr (int_val i) \<inter> accepted attr (int_val j)"
    unfolding accepted_int_val larger_int_def by (cases i; cases j) auto
qed

lemma accepted_smaller:
  assumes "\<And>a b x. bound_accepts attr (if flt_lt b a then b else a) x \<longleftrightarrow> bound_accepts attr a x \<and> bound_accepts attr b x"
  shows "accepted attr (flt_val (smaller_of u v)) = accepted attr (flt_val u) \<inter> accepted attr (flt_val v)"
    and "accepted attr (int_val (smaller_int i j)) = accepted attr (int_val i) \<inter> accepted attr (int_val j)"
proof -
  show "accepted attr (flt_val (smaller_of u v)) = accepted attr (flt_val u) \<inter> accepted attr (flt_val v)"
    unfolding accepted_flt_val smaller_of_def using assms by (cases u; cases v) auto
  have "bound_accepts attr (int_num (if b < a then b else a)) x \<longleftrightarrow>
      bound_accepts attr (int_num a) x \<and> bound_accepts attr (int_num b) x" for a b x
    using assms [of "int_num b" "int_num a" x] by (auto split: if_splits)
  then show "accepted attr (int_val (smaller_int i j)) = accepted attr (int_val i) \<inter> accepted attr (int_val j)"
    unfolding accepted_int_val smaller_int_def by (cases i; cases j) auto
qed

lemma range_attr_values:
  "constraint_value ''minimum'' f = flt_val (sn_minimum f)"
  "constraint_value ''exclusive_minimum'' f = flt_val (sn_exclusive_minimum f)"
  "constraint_value ''min_length'' f = int_val (sn_min_length f)"
  "constraint_value ''min_items'' f = int_val (sn_min_items f)"
  "constraint_value ''min_properties'' f = int_val (sn_min_properties f)"
  "constraint_value ''maximum'' f = flt_val (sn_maximum f)"
  "constraint_value ''exclusive_maximum'' f = flt_val (sn_exclusive_maximum f)"
  "constraint_value ''max_length'' f = int_val (sn_max_length f)"
  "constraint_value ''max_items'' f = int_val (sn_max_items f)"
  "constraint_value ''max_properties'' f = int_val (sn_max_properties f)"
  by (simp_all add: constraint_value_def)

lemma merged_bounds:
  "sn_minimum (merge_facts b (with_type_of b t)) = larger_of (sn_minimum t) (sn_minimum b)"
  "sn_exclusive_minimum (merge_facts b (with_type_of b t)) = larger_of (sn_exclusive_minimum t) (sn_exclusive_minimum b)"
  "sn_min_length (merge_facts b (with_type_of b t)) = larger_int (sn_min_length t) (sn_min_length b)"
  "sn_min_items (merge_facts b (with_type_of b t)) = larger_int (sn_min_items t) (sn_min_items b)"
  "sn_min_properties (merge_facts b (with_type_of b t)) = larger_int (sn_min_properties t) (sn_min_properties b)"
  "sn_maximum (merge_facts b (with_type_of b t)) = smaller_of (sn_maximum t) (sn_maximum b)"
  "sn_exclusive_maximum (merge_facts b (with_type_of b t)) = smaller_of (sn_exclusive_maximum t) (sn_exclusive_maximum b)"
  "sn_max_length (merge_facts b (with_type_of b t)) = smaller_int (sn_max_length t) (sn_max_length b)"
  "sn_max_items (merge_facts b (with_type_of b t)) = smaller_int (sn_max_items t) (sn_max_items b)"
  "sn_max_properties (merge_facts b (with_type_of b t)) = smaller_int (sn_max_properties t) (sn_max_properties b)"
  by (simp_all add: merge_facts_def Let_def with_type_of_def merge_annotations_def tighten_def)

text \<open>What a node's own keyword admits.\<close>

definition own_bound :: "string \<Rightarrow> schema_facts \<Rightarrow> pyfloat set" where
  "own_bound attr f = accepted attr (constraint_value attr f)"

lemma bound_accepts_cases:
  "bound_accepts ''minimum'' b x = flt_le b x" "bound_accepts ''exclusive_minimum'' b x = flt_lt b x"
  "bound_accepts ''min_length'' b x = flt_le b x" "bound_accepts ''min_items'' b x = flt_le b x"
  "bound_accepts ''min_properties'' b x = flt_le b x" "bound_accepts ''maximum'' b x = flt_le x b"
  "bound_accepts ''exclusive_maximum'' b x = flt_lt x b" "bound_accepts ''max_length'' b x = flt_le x b"
  "bound_accepts ''max_items'' b x = flt_le x b" "bound_accepts ''max_properties'' b x = flt_le x b"
  by (simp_all add: bound_accepts_def tighten_on_increase_def)

lemma own_bound_merge:
  assumes "attr \<in> set range_attrs"
  shows "own_bound attr (merge_facts b (with_type_of b t)) = own_bound attr t \<inter> own_bound attr b"
  using assms unfolding range_attrs_eq list.set own_bound_def
  by (elim insertE emptyE)
    (simp_all only: range_attr_values merged_bounds,
     (rule accepted_larger accepted_smaller, simp only: bound_accepts_cases flt_max flt_min)+)

section \<open>The bounds of a composition\<close>

text \<open>What a node admits through the keyword, its \<open>allOf\<close> branches included at any depth.\<close>

function allowed :: "string \<Rightarrow> schema_node \<Rightarrow> pyfloat set" where
  "allowed attr n = own_bound attr (facts n) \<inter> \<Inter> (allowed attr ` set (list_or_empty (all_of n)))"
  by pat_completeness auto
termination
  by (relation "measure (\<lambda>(attr, n). size n)") (auto intro!: sub_schema_size simp: sub_schemas_def)

declare allowed.simps [simp del]

lemma canonicalize_children_node:
  "canonicalize_children rec n location fs = (m, gs) \<Longrightarrow> facts m = facts n \<and> all_of m = all_of n"
  by (auto simp: canonicalize_children_def Let_def split: prod.splits)

lemma own_bound_unaffected [simp]:
  "own_bound attr (f\<lparr>sn_dependent_required := d\<rparr>) = own_bound attr f"
  "own_bound attr (f\<lparr>sn_enum := e, sn_required := r\<rparr>) = own_bound attr f"
  by (simp_all add: own_bound_def constraint_value_def)

lemma canonicalize_2020_12_node:
  "canonicalize_2020_12 rec n location fs = (m, gs) \<Longrightarrow>
     own_bound attr (facts m) = own_bound attr (facts n) \<and> all_of m = all_of n"
  by (auto simp: canonicalize_2020_12_def Let_def split: prod.splits)

lemma order_facts_node:
  "own_bound attr (facts (order_facts n)) = own_bound attr (facts n)" "all_of (order_facts n) = all_of n"
  by (simp_all add: order_facts_def with_parts_def)

lemma map_acc_silent:
  assumes "map_acc f xs fs = (ys, fs)" and "\<And>x. x \<in> set xs \<Longrightarrow> appends f x"
  shows "list_all2 (\<lambda>x y. f x fs = (y, fs)) xs ys"
  using assms
proof (induction xs arbitrary: ys)
  case (Cons x xs)
  obtain y gs where y: "f x fs = (y, gs)" by (cases "f x fs")
  obtain zs hs where zs: "map_acc f xs gs = (zs, hs)" by (cases "map_acc f xs gs")
  have "ys = y # zs" "hs = fs" using Cons.prems(1) y zs by auto
  have "prefix fs gs" using Cons.prems(2) [of x] y by (auto simp: appends_def dest: spec [of _ fs])
  moreover have "prefix gs hs"
    using map_acc_appends [of xs f gs] Cons.prems(2) zs by simp
  ultimately have "gs = fs" using \<open>hs = fs\<close> by (simp add: prefix_order.antisym)
  with Cons y zs \<open>ys = y # zs\<close> \<open>hs = fs\<close> show ?case by simp
qed simp

lemma own_bound_fold:
  assumes "attr \<in> set range_attrs"
  shows "own_bound attr (fold (\<lambda>b t. merge_facts b (with_type_of b t)) bs t)
    = own_bound attr t \<inter> \<Inter> (own_bound attr ` set bs)"
  by (induction bs arbitrary: t) (auto simp: own_bound_merge [OF assms])

lemma collapse_branches_silent:
  assumes "collapse_branches node branches location fs = (m, fs)" and "attr \<in> set range_attrs"
  shows "all_of m = None \<and> own_bound attr (facts m) = own_bound attr (facts node) \<inter> \<Inter> (own_bound attr ` facts ` set branches)"
proof -
  obtain merged cs paths where mg: "merge_all branches (with_all_of None node) [] = (merged, cs, paths)"
    by (cases "merge_all branches (with_all_of None node) []") auto
  then have "cs = []" "m = merged"
    using assms(1) by (auto simp: collapse_branches_def split: if_splits)
  with merge_all_agrees [of branches "with_all_of None node" "[]" merged paths] mg own_bound_fold [OF assms(2)]
  show ?thesis by (simp add: with_all_of_def)
qed

lemma images_match:
  assumes "\<And>b c. b \<in> set xs \<Longrightarrow> R b c \<Longrightarrow> g (facts c) = h b" and "list_all2 R xs ys"
  shows "g ` facts ` set ys = h ` set xs"
  using assms(2,1)
proof (induction rule: list_all2_induct)
  case (Cons x xs y ys)
  have "g (facts y) = h x" using Cons.hyps Cons.prems by simp
  moreover have "g ` facts ` set ys = h ` set xs" using Cons by simp
  ultimately show ?case by simp
qed simp

text \<open>Two prefix steps with equal ends.\<close>

lemma prefix_squeeze: "prefix a b \<Longrightarrow> prefix b c \<Longrightarrow> c = a \<Longrightarrow> b = a"
  by (simp add: prefix_order.antisym)

lemma canonicalize_schema_allowed:
  assumes "canonicalize_schema s location fs = (n, fs)" and "attr \<in> set range_attrs"
  shows "list_or_empty (all_of n) = [] \<and> allowed attr n = allowed attr s"
  using assms(1)
proof (induction s arbitrary: n location rule: measure_induct_rule [where f = size])
  case (less s)
  let ?rec = canonicalize_schema
  obtain m1 f1 where s1: "canonicalize_children ?rec s location fs = (m1, f1)" by fastforce
  obtain m2 f2 where s2: "canonicalize_2020_12 ?rec m1 location f1 = (m2, f2)" by fastforce
  obtain m3 f3 where s3: "(if list_or_empty (all_of s) \<noteq> [] then collapse_all_of ?rec s m2 location f2 else (m2, f2)) = (m3, f3)"
    by fastforce
  have end3: "n = order_facts m3" "f3 = fs"
    using less.prems s1 s2 s3 unfolding canonicalize_schema.simps [of s] canonicalize_body_def by auto
  have app: "appends (\<lambda>c. ?rec c l) c" for c l by (simp add: appends_def canonicalize_schema_appends)
  have "prefix fs f1" using canonicalize_children_appends [of s ?rec fs location] app s1 by simp
  moreover have "prefix f1 f2" using canonicalize_2020_12_appends [of m1 ?rec f1 location] app s2 by simp
  moreover have "prefix f2 f3"
    using s3 collapse_all_of_appends [of s ?rec f2 m2 location] app by (auto split: if_splits)
  ultimately have silent: "f2 = fs" using end3(2) by (metis prefix_order.antisym prefix_order.trans)
  have node: "all_of m2 = all_of s" "own_bound attr (facts m2) = own_bound attr (facts s)"
    using canonicalize_children_node [OF s1] canonicalize_2020_12_node [OF s2] by auto
  show ?case
  proof (cases "list_or_empty (all_of s) = []")
    case True
    with s3 end3 node show ?thesis
      by (simp add: order_facts_node allowed.simps [of attr s] allowed.simps [of attr "order_facts m3"])
  next
    case False
    obtain bs g where bs: "map_acc (\<lambda>b. ?rec b (location @ ''/allOf'')) (list_or_empty (all_of s)) fs = (bs, g)"
      by fastforce
    with False s3 silent have collapse: "collapse_branches m2 bs location g = (m3, f3)"
      by (simp add: collapse_all_of_def)
    have "prefix fs g" using map_acc_appends [of "list_or_empty (all_of s)" "\<lambda>b. ?rec b (location @ ''/allOf'')" fs] app bs by simp
    moreover have "prefix g f3" using collapse_branches_appends [of g m2 bs location] collapse by simp
    ultimately have "g = fs" using end3(2) by (rule prefix_squeeze)
    have each: "list_all2 (\<lambda>b c. ?rec b (location @ ''/allOf'') fs = (c, fs)) (list_or_empty (all_of s)) bs"
      using map_acc_silent [OF bs [unfolded \<open>g = fs\<close>] app] .
    have branch: "own_bound attr (facts c) = allowed attr b"
      if "b \<in> set (list_or_empty (all_of s))" "?rec b (location @ ''/allOf'') fs = (c, fs)" for b c
    proof -
      have "size b < size s" using that(1) by (intro sub_schema_size) (simp add: sub_schemas_def)
      from less.IH [OF this that(2)] show ?thesis by (auto simp: allowed.simps [of attr c])
    qed
    have "own_bound attr ` facts ` set bs = allowed attr ` set (list_or_empty (all_of s))"
      using each branch by (rule images_match [rotated])
    moreover from collapse_branches_silent [OF _ assms(2)] collapse \<open>g = fs\<close> end3(2)
    have "all_of m3 = None" "own_bound attr (facts m3) = own_bound attr (facts m2) \<inter> \<Inter> (own_bound attr ` facts ` set bs)"
      by auto
    ultimately show ?thesis using end3(1) node
      by (simp add: order_facts_node list_or_empty_def allowed.simps [of attr s] allowed.simps [of attr "order_facts m3"])
  qed
qed

section \<open>Conflicts and enums\<close>

text \<open>Branches that disagree stay, in number, and one warning is added.\<close>

lemma conflict_keeps_composition:
  assumes "merge_all branches (with_all_of None node) [] = (merged, conflicts, paths)" and "conflicts \<noteq> []"
  shows "\<exists>bs. collapse_branches node branches location fs
      = (with_all_of (Some bs) node, fs @ [conflict_finding location conflicts]) \<and> length bs = length branches"
proof -
  have "length (snd (snd (merge_all bs t cs))) = length bs" for bs t cs
    by (induction bs arbitrary: t cs) (simp_all add: split_beta Let_def)
  from this [of branches "with_all_of None node" "[]"] have "length paths = length branches"
    using assms(1) by simp
  with assms show ?thesis by (auto simp: collapse_branches_def)
qed

definition value_key :: "pyval \<Rightarrow> string \<times> string" where
  "value_key v = (type_name v, py_repr v)"

lemma unique_values_keys:
  "value_key ` set (unique_values ks vs) = value_key ` set vs - set ks"
  "distinct (map value_key (unique_values ks vs))" "set (unique_values ks vs) \<subseteq> set vs"
proof (induction ks vs rule: unique_values.induct)
  case (2 ks v vs)
  {
    case 1
    with 2 show ?case by (auto simp: Let_def value_key_def split: if_splits)
  next
    case 2
    have "value_key v \<notin> value_key ` set (unique_values (value_key v # ks) vs)" if "value_key v \<notin> set ks"
      using \<open>\<And>x. x = (type_name v, py_repr v) \<Longrightarrow> x \<notin> set ks \<Longrightarrow>
          value_key ` set (unique_values (x # ks) vs) = value_key ` set vs - set (x # ks)\<close> that
      by (simp add: value_key_def)
    with "2.IH" show ?case by (auto simp: Let_def value_key_def)
  next
    case 3
    with "2.IH" show ?case by (auto simp: Let_def)
  }
qed simp_all

lemma mset_insert_key: "mset (insert_key v ws) = add_mset v (mset ws)"
  by (induction ws) auto

lemma mset_sort_keys: "mset (foldr insert_key vs []) = mset vs"
  by (induction vs) (auto simp: mset_insert_key)

lemma stable_unique_keys:
  "value_key ` set (stable_unique vs) = value_key ` set vs"
  "distinct (map value_key (stable_unique vs))" "set (stable_unique vs) \<subseteq> set vs"
proof -
  have same: "mset (stable_unique vs) = mset (unique_values [] vs)"
    by (simp add: stable_unique_def Let_def mset_sort_keys)
  then have sets: "set (stable_unique vs) = set (unique_values [] vs)" by (rule mset_eq_setD)
  have "mset (map value_key (stable_unique vs)) = mset (map value_key (unique_values [] vs))" using same by simp
  from mset_eq_imp_distinct_iff [OF this] show "distinct (map value_key (stable_unique vs))"
    by (simp add: unique_values_keys)
  show "value_key ` set (stable_unique vs) = value_key ` set vs" "set (stable_unique vs) \<subseteq> set vs"
    unfolding sets using unique_values_keys [of "[]" vs] by simp_all
qed

end
