(* ===== verification/DiffServices.thy ===== *)
theory DiffServices
  imports DiffReach CanonicalFacts
begin

text \<open>
  \<open>diff_services\<close> of \<open>apiverity/diff/engine.py\<close>, which canonicalizes both contracts
  first, and the exit code of the gate, \<open>_exit_for\<close> of
  \<open>apiverity/cli/commands/governance.py\<close>; then what the chain of differ, rule engine and
  gate guarantees as a whole. The threshold \<open>fail_on_threshold()\<close> reads a configuration
  file, so it is an argument here.
\<close>

definition diff_services :: "json_dumps \<Rightarrow> service \<Rightarrow> service \<Rightarrow> bool \<Rightarrow> change list result" where
  "diff_services dumps old new canonical =
     (if canonical then run dumps (fst (canonicalize_service old)) (fst (canonicalize_service new))
      else run dumps old new)"

definition EXIT_OK :: int where "EXIT_OK = 0"

definition EXIT_FINDINGS :: int where "EXIT_FINDINGS = 1"

definition exit_for :: "string \<Rightarrow> finding list \<Rightarrow> int" where
  "exit_for floor findings =
     (if floor = ''never'' then EXIT_OK
      else
        let wanted = (if floor = ''warn'' then [ERROR, WARN] else [ERROR])
        in if list_ex (\<lambda>f. f_severity f \<in> set wanted) findings then EXIT_FINDINGS else EXIT_OK)"

lemma gate_fails:
  "f \<in> set fs \<Longrightarrow> f_severity f = ERROR \<Longrightarrow> exit_for floor fs = (if floor = ''never'' then EXIT_OK else EXIT_FINDINGS)"
  by (auto simp: exit_for_def Let_def list_ex_iff)

section \<open>Canonicalization keeps the operations\<close>

lemma key_canonical_operation [simp]: "key (fst (canonical_operation op fs)) = key op"
  by (simp add: canonical_operation_def Let_def split_beta key_def)

lemma keys_canonical_operations: "map key (fst (map_acc canonical_operation ops fs)) = map key ops"
  by (induction ops arbitrary: fs) (simp_all add: split_beta Let_def)

lemma canonical_service_keys [simp]: "operation_keys (fst (canonicalize_service svc)) = operation_keys svc"
  by (simp add: canonicalize_service_def operation_keys_def Let_def split_beta keys_canonical_operations)

lemma canonical_service_fields [simp]:
  "svc_protocol (fst (canonicalize_service svc)) = svc_protocol svc"
  "svc_version (fst (canonicalize_service svc)) = svc_version svc"
  "svc_servers (fst (canonicalize_service svc)) = svc_servers svc"
  "svc_bindings (fst (canonicalize_service svc)) = svc_bindings svc"
  "svc_global_security (fst (canonicalize_service svc)) = svc_global_security svc"
  by (simp_all add: canonicalize_service_def Let_def split_beta)

section \<open>Removed and added operations\<close>

lemma run_removed_keys:
  assumes "run dumps old new = Inr cs"
  shows "c_operation_key ` {c \<in> set cs. removal_kind (c_kind c)} = set (operation_keys old) - set (operation_keys new)"
proof -
  have "k \<in> c_operation_key ` {c \<in> set cs. removal_kind (c_kind c)}"
    if "k \<in> set (operation_keys old) - set (operation_keys new)" for k
    using run_reports_removed [OF assms, of k] that by blast
  moreover have "c_operation_key c \<in> set (operation_keys old) - set (operation_keys new)"
    if "c \<in> set cs" "removal_kind (c_kind c)" for c
    using run_removed_sound [OF assms that] .
  ultimately show ?thesis by blast
qed

lemma run_added_keys:
  assumes "run dumps old new = Inr cs"
  shows "c_operation_key ` {c \<in> set cs. addition_kind (c_kind c)} = set (operation_keys new) - set (operation_keys old)"
proof -
  have "k \<in> c_operation_key ` {c \<in> set cs. addition_kind (c_kind c)}"
    if "k \<in> set (operation_keys new) - set (operation_keys old)" for k
    using run_reports_added [OF assms, of k] that by blast
  moreover have "c_operation_key c \<in> set (operation_keys new) - set (operation_keys old)"
    if "c \<in> set cs" "addition_kind (c_kind c)" for c
    using run_added_sound [OF assms that] .
  ultimately show ?thesis by blast
qed

lemma diff_services_run:
  assumes "diff_services dumps old new canonical = Inr cs"
  shows "\<exists>old' new'. run dumps old' new' = Inr cs \<and> operation_keys old' = operation_keys old
    \<and> operation_keys new' = operation_keys new"
  using assms canonical_service_keys unfolding diff_services_def by (metis (full_types))

section \<open>The rule engine on a run\<close>

text \<open>Every change a run records can be classified.\<close>

lemma run_name_lists:
  assumes "run dumps old new = Inr cs" and "c \<in> set cs"
  shows "name_lists c"
proof -
  have "run_emitter name_lists (run_steps dumps old new)"
    by (rule emitter_run_steps) (simp_all add: operation_change_def)
  from run_emits [OF this assms] show ?thesis by (simp add: name_lists_def strip_id_def)
qed

lemma no_overrides: "evaluate_breaking cs None = evaluate \<lparr>overrides = []\<rparr> cs"
  by (simp add: evaluate_breaking_def init_breaking_def list_or_empty_def)

lemma severity_default:
  "map_of catalog_severities r = Some s \<Longrightarrow> severity_for \<lparr>overrides = []\<rparr> r = Inr s"
  by (simp add: severity_for_eq dict_get_or_def)

lemma catalog_default_severities:
  "map_of catalog_severities ''BRK-OP-REMOVED'' = Some ERROR"
  "map_of catalog_severities ''BRK-RPC-REMOVED'' = Some ERROR"
  "map_of catalog_severities ''BRK-RESP-FIELD-REMOVED'' = Some ERROR"
  "map_of catalog_severities ''BRK-REQ-FIELD-REMOVED'' = Some ERROR"
  "map_of catalog_severities ''BRK-CONSTRAINT-TIGHTENED'' = Some ERROR"
  by (simp_all add: catalog_severities_def)

text \<open>A change whose verdict is one rule of severity \<open>s\<close> is among the findings.\<close>

lemma finding_of_change:
  assumes "run dumps old new = Inr cs" and "c \<in> set cs"
    and "evaluate_change \<lparr>overrides = []\<rparr> c = report \<lparr>overrides = []\<rparr> c r"
    and "map_of catalog_severities r = Some s"
  shows "\<exists>fs. evaluate_breaking cs None = Inr fs \<and> (\<exists>f \<in> set fs. f_rule_id f = r \<and> f_severity f = s
    \<and> f_operation_key f = Some (c_operation_key c) \<and> f_message f = c_description c)"
proof -
  let ?eng = "\<lparr>overrides = []\<rparr>"
  obtain fs where fs: "evaluate ?eng cs = Inr fs"
    using evaluate_succeeds [OF run_name_lists [OF assms(1)]] by blast
  obtain gs where gs: "evaluate_change ?eng c = Inr gs" "set gs \<subseteq> set fs"
    using evaluate_member [OF fs assms(2)] by blast
  have "known_rule r" using map_of_SomeD [OF assms(4)] by (force simp: known_rule_def)
  from report_known [OF this, of ?eng c] obtain f where
    "report ?eng c r = Inr [f]" "f_rule_id f = r" "finding_for ?eng c f" by blast
  with gs assms(3) severity_default [OF assms(4)]
  have "f \<in> set fs \<and> f_rule_id f = r \<and> f_severity f = s \<and> f_operation_key f = Some (c_operation_key c)
      \<and> f_message f = c_description c"
    by (auto simp: finding_for_def)
  with fs show ?thesis by (auto simp: no_overrides)
qed

lemma evaluate_removed_operation:
  assumes "removal_kind (c_kind c)"
  shows "evaluate_change eng c = report eng c (if c_kind c = RPC_REMOVED then ''BRK-RPC-REMOVED'' else ''BRK-OP-REMOVED'')"
  using assms by (auto simp: removal_kind_def evaluate_change_def)

lemma evaluate_removed_response_field:
  assumes "c_kind c = RESPONSE_SCHEMA_CHANGED"
    and "c_description c = label @ '': field '' @ quoted f @ '' was removed''"
    and "\<not> contains ''without reserving its number'' (c_description c)"
  shows "evaluate_change eng c = report eng c ''BRK-RESP-FIELD-REMOVED''"
proof -
  have "contains ''field'' (c_description c)" "contains ''was removed'' (c_description c)"
    using contains_middle [of "''field''" "label @ '': ''" "'' '' @ quoted f @ '' was removed''"]
      contains_middle [of "''was removed''" "label @ '': field '' @ quoted f @ '' ''" "[]"] assms(2) by simp_all
  then have "response_schema_rule (c_description c) = ''BRK-RESP-FIELD-REMOVED''"
    by (simp add: response_schema_rule_def)
  with assms(1,3) show ?thesis
    by (simp add: evaluate_change_def evaluate_request_kinds_def evaluate_shape_kinds_def)
qed

lemma evaluate_removed_request_field:
  assumes "c_kind c = PARAMETER_REMOVED"
    and "c_description c = label @ '': field '' @ quoted f @ '' was removed''"
  shows "evaluate_change eng c = report eng c ''BRK-REQ-FIELD-REMOVED''"
proof -
  have "is_body_field c"
    using contains_middle [of "''field '' @ sq" "label @ '': ''" "f @ sq @ '' was removed''"] assms(2)
    by (simp add: is_body_field_def quoted_def)
  with assms(1) show ?thesis by (simp add: evaluate_change_def evaluate_request_kinds_def)
qed

section \<open>Removed fields, from the contracts to the finding\<close>

text \<open>A change that a comparison reached by the run records is, up to its identifier, in the run.\<close>

lemma reached_change:
  assumes "run dumps old new = Inr cs" and "reaches (run_steps dumps old new) m"
    and "\<And>ds. outcome m = Inr ds \<Longrightarrow> \<exists>d \<in> set ds. P (c_kind d) (c_operation_key d) (c_direction d)
      (c_description d) (c_old_value d) (c_new_value d)"
  shows "\<exists>c \<in> set cs. P (c_kind c) (c_operation_key c) (c_direction c) (c_description c) (c_old_value c) (c_new_value c)"
proof -
  from reaches_outcome [OF assms(2) run_raws [OF assms(1)]]
  obtain ds where ds: "outcome m = Inr ds" "set ds \<subseteq> strip_id ` set cs" by auto
  from assms(3) [OF ds(1)] obtain d where d: "d \<in> set ds" "P (c_kind d) (c_operation_key d) (c_direction d)
      (c_description d) (c_old_value d) (c_new_value d)" by blast
  with ds(2) obtain c where "c \<in> set cs" "d = strip_id c" by blast
  with d(2) show ?thesis by auto
qed

lemma run_reports_removed_response_field:
  assumes "run dumps old new = Inr cs"
    and "dict_get (operations_by_key old) k = Some o_op" and "dict_get (operations_by_key new) k = Some n_op"
    and "dict_get (index_responses o_op) status = Some r_old" and "dict_get (index_responses n_op) status = Some r_new"
    and "dict_get (rs_content r_old) media = Some o_schema" and "dict_get (rs_content r_new) media = Some n_schema"
    and "at_path ps o_schema = Some o_node" and "at_path ps n_schema = Some n_node"
    and "f \<in> set (keys (properties o_node))" and "f \<notin> set (keys (properties n_node))"
  shows "\<exists>c \<in> set cs. c_kind c = RESPONSE_SCHEMA_CHANGED \<and> c_operation_key c = k
    \<and> c_description c = ''response '' @ status @ '' body ('' @ media @ '')'' @ dotted ps
        @ '': field '' @ quoted f @ '' was removed''"
proof -
  have k: "key o_op = k" using operations_by_key_SomeD [OF assms(2)] by simp
  let ?m = "diff_schema k (''response '' @ status @ '' body ('' @ media @ '')'') ''response'' o_schema n_schema []"
  have reach: "reaches (run_steps dumps old new) ?m"
    using reaches_trans [OF reaches_operation [OF assms(2,3)] reaches_response_schema [OF assms(4-7)]] k by simp
  have found: "\<exists>d \<in> set ds. c_kind d = RESPONSE_SCHEMA_CHANGED \<and> c_operation_key d = k
      \<and> c_description d = ''response '' @ status @ '' body ('' @ media @ '')'' @ dotted ps @ '': field '' @ quoted f @ '' was removed''"
    if "outcome ?m = Inr ds" for ds
    using removed_at_path [OF that assms(8-11)] by (elim bexE) (intro bexI conjI, simp_all)
  show ?thesis
    by (rule reached_change [OF assms(1) reach, of "\<lambda>kind op d desc _ _. kind = RESPONSE_SCHEMA_CHANGED \<and> op = k
        \<and> desc = ''response '' @ status @ '' body ('' @ media @ '')'' @ dotted ps @ '': field '' @ quoted f @ '' was removed''"])
      (rule found)
qed

lemma run_reports_removed_request_field:
  assumes "run dumps old new = Inr cs"
    and "dict_get (operations_by_key old) k = Some o_op" and "dict_get (operations_by_key new) k = Some n_op"
    and "payload_direction_of n_op = ''request''"
    and "op_request_body o_op = Some b_old" and "op_request_body n_op = Some b_new"
    and "dict_get (rb_content b_old) media = Some o_schema" and "dict_get (rb_content b_new) media = Some n_schema"
    and "at_path ps o_schema = Some o_node" and "at_path ps n_schema = Some n_node"
    and "f \<in> set (keys (properties o_node))" and "f \<notin> set (keys (properties n_node))"
  shows "\<exists>c \<in> set cs. c_kind c = PARAMETER_REMOVED \<and> c_operation_key c = k
    \<and> c_description c = ''request body ('' @ media @ '')'' @ dotted ps @ '': field '' @ quoted f @ '' was removed''"
proof -
  have k: "key o_op = k" using operations_by_key_SomeD [OF assms(2)] by simp
  let ?m = "diff_schema k (''request body ('' @ media @ '')'') ''request'' o_schema n_schema []"
  have reach: "reaches (run_steps dumps old new) ?m"
    using reaches_trans [OF reaches_operation [OF assms(2,3)] reaches_request_schema [OF assms(5-8)]] k assms(4) by simp
  have found: "\<exists>d \<in> set ds. c_kind d = PARAMETER_REMOVED \<and> c_operation_key d = k
      \<and> c_description d = ''request body ('' @ media @ '')'' @ dotted ps @ '': field '' @ quoted f @ '' was removed''"
    if "outcome ?m = Inr ds" for ds
    using removed_at_path [OF that assms(9-12)] by (elim bexE) (intro bexI conjI, simp_all)
  show ?thesis
    by (rule reached_change [OF assms(1) reach, of "\<lambda>kind op d desc _ _. kind = PARAMETER_REMOVED \<and> op = k
        \<and> desc = ''request body ('' @ media @ '')'' @ dotted ps @ '': field '' @ quoted f @ '' was removed''"])
      (rule found)
qed

section \<open>Tightened bounds, from the contracts to the finding\<close>

lemma range_constraint_attrs: "attr \<in> set range_attrs \<Longrightarrow> attr \<in> set CONSTRAINT_ATTRS"
  unfolding range_attrs_eq list.set by (elim insertE emptyE) (simp_all add: CONSTRAINT_ATTRS_def)

lemma range_value_bound: "attr \<in> set range_attrs \<Longrightarrow> bound_value (constraint_value attr f)"
  unfolding range_attrs_eq list.set
  by (elim insertE emptyE)
    (simp_all add: range_attr_values flt_val_def int_val_def opt_val_def bound_value_def is_num_def num_of_def
      split: option.splits)

lemma equal_bounds_accept:
  assumes "attr \<in> set range_attrs" and "bound_value v" and "bound_value w" and "py_eq v w"
  shows "\<not> accepted attr w \<subset> accepted attr v"
proof
  assume "accepted attr w \<subset> accepted attr v"
  then have "constraint_change_is_tightening attr v w = Some True"
    using verdict_is_inclusion [OF assms(1-3)] by (simp add: set_verdict_def)
  moreover have "constraint_change_is_tightening attr v w = None"
  proof (cases "v = PNone")
    case True
    with assms(4) not_special_attr [OF assms(1)] show ?thesis
      by (simp add: constraint_change_is_tightening_def is_num_def num_of_def)
  next
    case False
    with assms(2) obtain x where x: "num_of v = Some x" by (auto simp: bound_value_def is_num_def)
    with assms(4) obtain y where y: "num_of w = Some y" "flt_eq x y" by (auto simp: py_eq_num)
    then have "w \<noteq> PNone" by (auto simp: num_of_def)
    with False x y not_special_attr [OF assms(1)] show ?thesis
      by (simp add: constraint_change_is_tightening_def)
  qed
  ultimately show False by simp
qed

lemma reaches_request_node:
  assumes "dict_get (operations_by_key old) k = Some o_op" and "dict_get (operations_by_key new) k = Some n_op"
    and "payload_direction_of n_op = ''request''"
    and "op_request_body o_op = Some b_old" and "op_request_body n_op = Some b_new"
    and "dict_get (rb_content b_old) media = Some o_schema" and "dict_get (rb_content b_new) media = Some n_schema"
    and "at_path ps o_schema = Some o_node" and "at_path ps n_schema = Some n_node"
  shows "reaches (run_steps dumps old new)
    (diff_schema k (''request body ('' @ media @ '')'') ''request'' o_node n_node (dotted ps))"
proof -
  have k: "key o_op = k" using operations_by_key_SomeD [OF assms(1)] by simp
  have "reaches (run_steps dumps old new) (diff_operation old new o_op n_op)"
    by (rule reaches_operation [OF assms(1,2)])
  also have "reaches \<dots> (diff_schema k (''request body ('' @ media @ '')'') ''request'' o_schema n_schema [])"
    using reaches_request_schema [OF assms(4-7), of old new] k assms(3) by simp
  also have "reaches \<dots> (diff_schema k (''request body ('' @ media @ '')'') ''request'' o_node n_node ([] @ dotted ps))"
    by (rule reaches_path [OF assms(8,9)])
  finally show ?thesis by simp
qed

lemma run_reports_tightened_bound:
  assumes "run dumps old new = Inr cs" and "attr \<in> set range_attrs"
    and reach: "reaches (run_steps dumps old new) (diff_schema k w ''request'' o_node n_node p)"
    and "own_bound attr (facts n_node) \<subset> own_bound attr (facts o_node)" and "clean_label (w @ p)"
  shows "\<exists>c \<in> set cs. c_operation_key c = k \<and> evaluate_change eng c = report eng c ''BRK-CONSTRAINT-TIGHTENED''"
proof -
  let ?o = "constraint_value attr (facts o_node)" and ?n = "constraint_value attr (facts n_node)"
  note bounds = range_value_bound [OF assms(2), of "facts o_node"] range_value_bound [OF assms(2), of "facts n_node"]
  have "\<not> py_eq ?o ?n"
    using equal_bounds_accept [OF assms(2) bounds] assms(4) by (auto simp: own_bound_def)
  note found = bound_reported [OF _ range_constraint_attrs [OF assms(2)] this, of k w "''request''" p]
  have "\<exists>c \<in> set cs. c_kind c = PARAMETER_CONSTRAINT_CHANGED \<and> c_operation_key c = k \<and> c_direction c = ''request''
      \<and> c_old_value c = ?o \<and> c_new_value c = ?n \<and> c_description c = constraint_message (w @ p) attr (bound_values ?o ?n)"
    by (rule reached_change [OF assms(1) reach, of "\<lambda>kind op d desc v v'. kind = PARAMETER_CONSTRAINT_CHANGED
        \<and> op = k \<and> d = ''request'' \<and> v = ?o \<and> v' = ?n \<and> desc = constraint_message (w @ p) attr (bound_values ?o ?n)"])
      (rule found)
  then obtain c where c: "c \<in> set cs" "c_kind c = PARAMETER_CONSTRAINT_CHANGED" "c_operation_key c = k"
    "c_direction c = ''request''" "c_old_value c = ?o" "c_new_value c = ?n"
    "c_description c = constraint_message (w @ p) attr (bound_values ?o ?n)" by blast
  have "set_verdict (accepted attr ?o) (accepted attr ?n) = Some True"
    using assms(4) by (simp add: set_verdict_def own_bound_def)
  with bound_change_evaluates [OF assms(2,5) bounds c(2,7,5,6), of eng] c(4)
  have "evaluate_change eng c = report eng c ''BRK-CONSTRAINT-TIGHTENED''"
    by (simp add: report_opt_def bound_rule_def)
  with c(1,3) show ?thesis by blast
qed

end
