(* ===== verification/RequestBodies.thy ===== *)
theory RequestBodies
  imports DiffServices
begin

text \<open>
  What the gate makes of a request body that appears, and of one whose requiredness changes:
  the path from the two contracts through \<open>_diff_request_body\<close> of src/apiverity/diff/engine.py
  to the rule of src/apiverity/rules/breaking.py.
\<close>

lemma reaches_request_body: "reaches (diff_operation os ns old new) (diff_request_body old new (key old))"
  unfolding diff_operation_parts
  by (rule reaches_steps) (simp add: operation_parts_def Let_def, rule uniform_operation_parts)

text \<open>The run records a change that a compared pair of request bodies records.\<close>

lemma run_request_body_change:
  assumes "run dumps old new = Inr cs"
    and "dict_get (operations_by_key old) k = Some o_op" and "dict_get (operations_by_key new) k = Some n_op"
    and "reaches (diff_request_body o_op n_op k) (add_change kind k d desc args)"
  shows "\<exists>c \<in> set cs. c_kind c = kind \<and> c_operation_key c = k \<and> c_description c = desc"
proof -
  have k: "key o_op = k" using operations_by_key_SomeD [OF assms(2)] by simp
  have "reaches (run_steps dumps old new) (diff_operation old new o_op n_op)"
    by (rule reaches_operation [OF assms(2,3)])
  also have "reaches \<dots> (diff_request_body o_op n_op k)" using reaches_request_body [of old new o_op n_op] k by simp
  also have "reaches \<dots> (add_change kind k d desc args)" by (rule assms(4))
  finally have reach: "reaches (run_steps dumps old new) (add_change kind k d desc args)" .
  show ?thesis
    by (rule reached_change [OF assms(1) reach, of "\<lambda>kind' op d' desc' _ _. kind' = kind \<and> op = k \<and> desc' = desc"])
      (auto simp: outcome_simps raw_change_def)
qed

lemma run_reports_added_body:
  assumes "run dumps old new = Inr cs"
    and "dict_get (operations_by_key old) k = Some o_op" and "dict_get (operations_by_key new) k = Some n_op"
    and "op_request_body o_op = None" and "op_request_body n_op = Some b"
  shows "\<exists>c \<in> set cs. c_kind c = REQUEST_SCHEMA_CHANGED \<and> c_operation_key c = k
    \<and> c_description c = ''request body added''"
proof -
  have "diff_request_body o_op n_op k = add_change REQUEST_SCHEMA_CHANGED k ''request'' ''request body added''
      (no_args\<lparr>old_location := None, new_location := rb_source_location b,
        breaking_hint := (if rb_required b then Some ''request body added and required'' else None)\<rparr>)"
    using assms(4,5) by (simp add: diff_request_body_def diff_body_presence_def)
  then show ?thesis using run_request_body_change [OF assms(1-3)] reaches_refl by metis
qed

lemma run_reports_body_requiredness:
  assumes "run dumps old new = Inr cs"
    and "dict_get (operations_by_key old) k = Some o_op" and "dict_get (operations_by_key new) k = Some n_op"
    and "op_request_body o_op = Some b_old" and "op_request_body n_op = Some b_new"
    and "rb_required b_old \<noteq> rb_required b_new"
  shows "\<exists>c \<in> set cs. c_kind c = REQUEST_SCHEMA_CHANGED \<and> c_operation_key c = k
    \<and> c_description c = ''request body requiredness changed '' @ bool_str (rb_required b_old) @ '' -> ''
        @ bool_str (rb_required b_new)"
proof -
  let ?change = "add_change REQUEST_SCHEMA_CHANGED k ''request''
    (''request body requiredness changed '' @ bool_str (rb_required b_old) @ '' -> '' @ bool_str (rb_required b_new))
    (no_args\<lparr>breaking_hint := (if rb_required b_new then Some ''request body became required'' else None)\<rparr>)"
  have media: "uniform (diff_request_media b_old b_new k d)" for d
    unfolding diff_request_media_def Let_def by (auto intro!: emit_intro uniform_diff_schema)
  have "reaches (diff_request_body o_op n_op k) (only_if (rb_required b_old \<noteq> rb_required b_new) ?change)"
    unfolding diff_request_body_def Let_def assms(4,5) option.case prod.case
    by (rule reaches_steps) (auto intro!: emit_intro uniform_streaming media)
  then have "reaches (diff_request_body o_op n_op k) ?change" using assms(6) by (simp add: only_if_def)
  then show ?thesis by (rule run_request_body_change [OF assms(1-3)])
qed

section \<open>The rules\<close>

lemma evaluate_request_schema_changed:
  assumes "c_kind c = REQUEST_SCHEMA_CHANGED" and "\<not> contains ''without reserving its number'' (c_description c)"
  shows "evaluate_change eng c = report_opt eng c (request_schema_rule (c_description c))"
  using assms by (simp add: evaluate_change_def evaluate_request_kinds_def evaluate_shape_kinds_def Let_def)

lemma body_rules:
  "request_schema_rule ''request body added'' = Some ''BRK-REQ-BODY-ADDED-OPTIONAL''"
  "request_schema_rule ''request body requiredness changed False -> True'' = Some ''BRK-REQ-BODY-REQUIRED''"
  "request_schema_rule ''request body requiredness changed True -> False'' = None"
  "\<not> contains ''without reserving its number'' ''request body added''"
  "\<not> contains ''without reserving its number'' ''request body requiredness changed False -> True''"
  by code_simp+

lemma body_rule_severities:
  "map_of catalog_severities ''BRK-REQ-BODY-ADDED-OPTIONAL'' = Some INFO"
  "map_of catalog_severities ''BRK-REQ-BODY-ADDED-REQUIRED'' = Some ERROR"
  "map_of catalog_severities ''BRK-REQ-BODY-REQUIRED'' = Some ERROR"
  by (simp_all add: catalog_severities_def)

text \<open>The wording of every request body change, and what that leaves of the rules.\<close>

lemma no_request_rule_added_required:
  "request_schema_rule desc = Some ''BRK-REQ-BODY-ADDED-REQUIRED'' \<Longrightarrow> contains ''and required'' desc"
  by (auto simp: request_schema_rule_def split: if_splits)

end
