(* ===== verification/Samples.thy ===== *)
theory Samples
  imports DiffServices
begin

text \<open>
  Small contracts on which the properties are applied: a service with one HTTP operation
  whose request and response bodies are JSON objects of string fields.
\<close>

definition text_node :: schema_node where
  "text_node = leaf (empty_facts\<lparr>sn_type := Some ''string''\<rparr>)"

definition bounded_text :: "int option \<Rightarrow> schema_node" where
  "bounded_text bound = leaf (empty_facts\<lparr>sn_type := Some ''string'', sn_max_length := bound\<rparr>)"

definition object_node :: "(string, schema_node) dict \<Rightarrow> schema_node" where
  "object_node props = with_parts (empty_facts\<lparr>sn_type := Some ''object''\<rparr>) props None (leaf empty_facts)"

definition json_response :: "schema_node \<Rightarrow> response" where
  "json_response s = \<lparr>rs_status = ''200'', rs_description = None, rs_headers = [],
     rs_content = [(''application/json'', s)], rs_streaming = [], rs_links = [], rs_source_location = None\<rparr>"

definition json_body :: "schema_node \<Rightarrow> request_body" where
  "json_body s = \<lparr>rb_required = True, rb_description = None, rb_content = [(''application/json'', s)], rb_streaming = [],
     rb_source_location = None\<rparr>"

definition http_operation :: "string \<Rightarrow> string \<Rightarrow> request_body option \<Rightarrow> response list \<Rightarrow> operation" where
  "http_operation verb path body responses = \<lparr>
     op_kind = HTTP, op_operation_id = None, op_method = Some verb, op_path = Some path,
     op_rpc_name = None, op_service_name = None, op_summary = None, op_description = None,
     op_deprecated = False, op_tags = [], op_parameters = [], op_request_body = body,
     op_responses = responses, op_security = None, op_examples = [], op_extensions = [],
     op_client_streaming = False, op_server_streaming = False, op_channel = None,
     op_message_name = None, op_direction = None, op_source_action = None, op_bindings = [],
     op_lifecycle_state = None, op_deprecation = None, op_idempotent = None, op_pagination = None,
     op_source_location = None\<rparr>"

definition http_service :: "operation list \<Rightarrow> service" where
  "http_service ops = \<lparr>
     svc_title = ''Shop'', svc_version = ''1.0.0'', svc_protocol = OPENAPI, svc_description = None,
     svc_servers = [], svc_operations = ops, svc_security_schemes = [], svc_global_security = [],
     svc_tags = [], svc_owner = None, svc_team = None, svc_product = None, svc_lifecycle_state = None,
     svc_source_file = None, svc_source_location = None, svc_dependencies = [], svc_dependency_edges = [],
     svc_bindings = []\<rparr>"

definition sample_dumps :: json_dumps where
  "sample_dumps = \<lparr>dump_body = \<lambda>b. [], dump_response = \<lambda>r. []\<rparr>"

definition item_response :: "string list \<Rightarrow> response" where
  "item_response names = json_response (object_node [(''item'', object_node (map (\<lambda>f. (f, text_node)) names))])"

definition item_body :: "(string, schema_node) dict \<Rightarrow> request_body" where
  "item_body props = json_body (object_node [(''item'', object_node props)])"

text \<open>\<open>GET /items\<close>, answering an object whose \<open>item\<close> has the given fields.\<close>

definition get_items :: "string list \<Rightarrow> operation" where
  "get_items names = http_operation ''get'' ''/items'' None [item_response names]"

text \<open>\<open>POST /items\<close>, taking an object whose \<open>item\<close> has the given fields.\<close>

definition post_items :: "(string, schema_node) dict \<Rightarrow> operation" where
  "post_items props = http_operation ''post'' ''/items'' (Some (item_body props)) []"

lemmas sample_defs = text_node_def bounded_text_def object_node_def json_response_def json_body_def
  http_operation_def http_service_def item_response_def item_body_def get_items_def post_items_def
  leaf_def empty_facts_def with_parts_def

lemma post_items_indexed:
  "dict_get (operations_by_key (http_service [post_items props])) ''POST /items'' = Some (post_items props)"
proof -
  have "upper ''post'' = ''POST''" by code_simp
  then show ?thesis
    by (simp add: operations_by_key_def dict_of_def key_def str_or_def opt_str_def post_items_def
        http_operation_def http_service_def)
qed

lemma post_items_body:
  "payload_direction_of (post_items props) = ''request''"
  "op_request_body (post_items props) = Some (item_body props)"
  "dict_get (rb_content (item_body props)) ''application/json'' = Some (object_node [(''item'', object_node props)])"
  "at_path [''item''] (object_node [(''item'', object_node props)]) = Some (object_node props)"
  by (simp_all add: payload_direction_of_def sample_defs)

text \<open>The canonical form of a schema whose parts have no parts of their own, by evaluation.\<close>

abbreviation keep_schema :: canon_call where
  "keep_schema \<equiv> \<lambda>c l fs. (c, fs)"

lemma canonicalize_flat:
  "sub_schemas s = [] \<Longrightarrow> canonicalize_schema s location fs = canonicalize_body keep_schema s location fs"
  unfolding canonicalize_schema.simps [of s] by (intro canonicalize_body_cong refl) simp

lemma canonicalize_nested:
  assumes "list_all (\<lambda>c. sub_schemas c = []) (sub_schemas s)"
  shows "canonicalize_schema s location fs = canonicalize_body (canonicalize_body keep_schema) s location fs"
  unfolding canonicalize_schema.simps [of s]
  using assms by (intro canonicalize_body_cong refl) (simp add: list_all_iff canonicalize_flat)

end
