(* ===== verification/AuditLog.thy ===== *)
theory AuditLog
  imports PyValue Sha256
begin

text \<open>
  The hash-chained audit log as evidence: src/apiverity/server/audit_export.py. An entry is a
  row of \<open>audit_events\<close>; \<open>verify_chain\<close> walks the rows in id order, \<open>build_export\<close> puts them
  into a document and \<open>verify_export\<close> checks such a document, alone or against an earlier one.

  \<open>hmac\<close> over the canonical JSON of the document is the parameter \<open>hmac_of\<close> of the functions
  that seal and check a seal. The members of the document that are constant texts (algorithm,
  seal algorithm, limits) carry no information and are left out. Documents are taken to hold
  entries with all their fields, as \<open>json.loads\<close> of an export gives them.
\<close>

section \<open>Entries and the chain\<close>

record audit_entry =
  au_id :: int
  au_ts :: string
  au_actor :: string
  au_action :: string
  au_target :: string
  au_payload :: string
  au_prev :: string
  au_hash :: string

definition bar :: string where
  "bar = ''|''"

definition entry_basis :: "'a audit_entry_scheme \<Rightarrow> string" where
  "entry_basis e = au_prev e @ bar @ au_ts e @ bar @ au_actor e @ bar @ au_action e @ bar @ au_target e
     @ bar @ au_payload e"

definition entry_hash :: "'a audit_entry_scheme \<Rightarrow> string" where
  "entry_hash e = sha256_hexdigest (entry_basis e)"

record chain_status =
  ch_valid :: bool
  ch_entry_count :: nat
  ch_broken_at :: "int option"
  ch_reason :: "string option"

definition link_broken :: string where
  "link_broken = ''prev_hash does not match the preceding entry: an entry was inserted, removed or reordered here''"

definition entry_edited :: string where
  "entry_edited = ''entry_hash does not match the entry's own contents: it was edited''"

text \<open>The loop of \<open>verify_chain\<close>, from the hash the next entry has to link to.\<close>

fun verify_from :: "nat \<Rightarrow> string \<Rightarrow> 'a audit_entry_scheme list \<Rightarrow> chain_status" where
  "verify_from n previous [] =
     \<lparr>ch_valid = True, ch_entry_count = n, ch_broken_at = None, ch_reason = None\<rparr>"
| "verify_from n previous (e # es) =
     (if au_prev e \<noteq> previous then
        \<lparr>ch_valid = False, ch_entry_count = n, ch_broken_at = Some (au_id e), ch_reason = Some link_broken\<rparr>
      else if au_hash e \<noteq> entry_hash e then
        \<lparr>ch_valid = False, ch_entry_count = n, ch_broken_at = Some (au_id e), ch_reason = Some entry_edited\<rparr>
      else verify_from n (au_hash e) es)"

definition verify_chain :: "'a audit_entry_scheme list \<Rightarrow> chain_status" where
  "verify_chain entries = verify_from (length entries) [] entries"

section \<open>Exports\<close>

datatype seal_member = NoSeal | SealWithoutValue | SealValue string

record export_doc =
  ex_schema :: "string option"
  ex_tool_version :: string
  ex_exported_at :: string
  ex_org_id :: "int option"
  ex_org_name :: "string option"
  ex_entry_count :: "nat option"
  ex_first_hash :: "string option"
  ex_last_hash :: "string option"
  ex_chain :: chain_status
  ex_entries :: "audit_entry list option"
  ex_seal :: seal_member

definition EXPORT_SCHEMA :: string where
  "EXPORT_SCHEMA = ''apiverity-audit-export/1''"

type_synonym hmac = "string \<Rightarrow> export_doc \<Rightarrow> string"

definition seal :: "hmac \<Rightarrow> export_doc \<Rightarrow> string \<Rightarrow> string" where
  "seal hmac_of document key = hmac_of key (document\<lparr>ex_seal := NoSeal\<rparr>)"

definition first_hash :: "'a audit_entry_scheme list \<Rightarrow> string option" where
  "first_hash rows = (case rows of [] \<Rightarrow> None | r # _ \<Rightarrow> Some (au_hash r))"

definition final_hash :: "'a audit_entry_scheme list \<Rightarrow> string option" where
  "final_hash rows = (if rows = [] then None else Some (au_hash (last rows)))"

definition build_export ::
  "hmac \<Rightarrow> int \<Rightarrow> string option \<Rightarrow> 'a audit_entry_scheme list \<Rightarrow> string \<Rightarrow> string \<Rightarrow> string option \<Rightarrow> export_doc" where
  "build_export hmac_of org_id org_name entries exported_at tool_version hmac_key =
     (let rows = map audit_entry.truncate entries;
          document = \<lparr>ex_schema = Some EXPORT_SCHEMA, ex_tool_version = tool_version,
            ex_exported_at = exported_at, ex_org_id = Some org_id, ex_org_name = org_name,
            ex_entry_count = Some (length rows), ex_first_hash = first_hash rows,
            ex_last_hash = final_hash rows, ex_chain = verify_chain rows, ex_entries = Some rows,
            ex_seal = NoSeal\<rparr>
      in case hmac_key of
           None \<Rightarrow> document
         | Some key \<Rightarrow> document\<lparr>ex_seal := SealValue (seal hmac_of document key)\<rparr>)"

record export_verification =
  ev_ok :: bool
  ev_entry_count :: nat
  ev_chain :: "chain_status option"
  ev_seal_state :: string
  ev_continuity :: string
  ev_problems :: "string list"

definition opt_int_str :: "int option \<Rightarrow> string" where
  "opt_int_str v = (case v of None \<Rightarrow> ''None'' | Some i \<Rightarrow> int_str i)"

text \<open>The loop of \<open>_continuity\<close> over both logs: the problem of the first entry that differs.\<close>

fun first_rewritten :: "nat \<Rightarrow> audit_entry list \<Rightarrow> audit_entry list \<Rightarrow> string option" where
  "first_rewritten i (b # bs) (n # ns) =
     (if au_hash b \<noteq> au_hash n then
        Some (''entry '' @ nat_str i @ '' differs from the earlier export ('' @ take 12 (au_hash b)
          @ ''... -> '' @ take 12 (au_hash n) @ ''...): history was rewritten'')
      else first_rewritten (Suc i) bs ns)"
| "first_rewritten i _ _ = None"

text \<open>\<open>_continuity\<close>: the verdict, and the problem it appends.\<close>

definition continuity_of :: "export_doc \<Rightarrow> export_doc \<Rightarrow> string \<times> string list" where
  "continuity_of document previous =
     (case (ex_entries previous, ex_entries document) of
        (Some earlier, Some current) \<Rightarrow>
          if ex_org_id previous \<noteq> ex_org_id document then
            (''different org'', [''the earlier export is for org '' @ opt_int_str (ex_org_id previous)
               @ '', this one for '' @ opt_int_str (ex_org_id document)])
          else if length current < length earlier then
            (''truncated'', [''this export has '' @ nat_str (length current) @ '' entries, the earlier one had ''
               @ nat_str (length earlier) @ '': an append-only log cannot shrink''])
          else (case first_rewritten 0 earlier current of
              Some problem \<Rightarrow> (''rewritten'', [problem])
            | None \<Rightarrow> (''continuous ('' @ nat_str (length earlier) @ '' earlier entries unchanged)'', []))
      | _ \<Rightarrow> (''unreadable'', [''the earlier document has no `entries` to compare against'']))"

text \<open>The check of the seal: the state it reports, and the problem it appends.\<close>

definition seal_check :: "hmac \<Rightarrow> export_doc \<Rightarrow> string option \<Rightarrow> string \<times> string list" where
  "seal_check hmac_of document hmac_key =
     (case hmac_key of
        Some key \<Rightarrow> (case ex_seal document of
            SealValue v \<Rightarrow>
              if v = seal hmac_of document key then (''valid'', [])
              else (''invalid'', [''the seal does not match: the document was altered, or the key differs''])
          | _ \<Rightarrow> (''expected but absent'', [''a key was supplied and the document carries no seal'']))
      | None \<Rightarrow> (if ex_seal document \<noteq> NoSeal then ''present, not checked (no key supplied)'' else ''absent'', []))"

definition opt_nat_str :: "nat option \<Rightarrow> string" where
  "opt_nat_str v = (case v of None \<Rightarrow> ''None'' | Some n \<Rightarrow> nat_str n)"

definition chain_problems :: "export_doc \<Rightarrow> audit_entry list \<Rightarrow> string list" where
  "chain_problems document entries =
     (let status = verify_chain entries in
      (if ch_valid status then [] else
         [''chain broken at entry '' @ opt_int_str (ch_broken_at status) @ '': '' @ opt_str (ch_reason status)])
      @ (if ex_entry_count document \<noteq> Some (length entries) then
           [''entry_count says '' @ opt_nat_str (ex_entry_count document) @ '', the document carries ''
              @ nat_str (length entries)] else [])
      @ (if entries \<noteq> [] \<and> ex_first_hash document \<noteq> first_hash entries then
           [''first_entry_hash does not match the first entry''] else [])
      @ (if entries \<noteq> [] \<and> ex_last_hash document \<noteq> final_hash entries then
           [''last_entry_hash does not match the last entry''] else []))"

definition verify_export :: "hmac \<Rightarrow> export_doc \<Rightarrow> string option \<Rightarrow> export_doc option \<Rightarrow> export_verification" where
  "verify_export hmac_of document hmac_key against =
     (let refuse = (\<lambda>problem. \<lparr>ev_ok = False, ev_entry_count = 0, ev_chain = None, ev_seal_state = ''absent'',
            ev_continuity = ''not checked'', ev_problems = [problem]\<rparr>) in
      if ex_schema document \<noteq> Some EXPORT_SCHEMA then
        refuse (''not an '' @ EXPORT_SCHEMA @ '' document (schema: '' @ opt_repr (ex_schema document) @ '')'')
      else (case ex_entries document of
          None \<Rightarrow> refuse ''`entries` is missing or not a list''
        | Some entries \<Rightarrow>
            let (seal_state, seal_problems) = seal_check hmac_of document hmac_key;
                (continuity, continuity_problems) = (case against of
                    None \<Rightarrow> (''not checked'', []) | Some previous \<Rightarrow> continuity_of document previous);
                problems = chain_problems document entries @ seal_problems @ continuity_problems
            in \<lparr>ev_ok = (problems = []), ev_entry_count = length entries,
                 ev_chain = Some (verify_chain entries), ev_seal_state = seal_state,
                 ev_continuity = continuity, ev_problems = problems\<rparr>))"

section \<open>What a valid chain says\<close>

definition last_hash :: "'a audit_entry_scheme list \<Rightarrow> string" where
  "last_hash es = (if es = [] then [] else au_hash (last es))"

lemma verify_from_valid_append:
  "ch_valid (verify_from n p (es @ [e])) \<longleftrightarrow> ch_valid (verify_from m p es)
     \<and> au_prev e = (if es = [] then p else au_hash (last es)) \<and> au_hash e = entry_hash e"
  by (induction es arbitrary: p) auto

lemma verify_chain_append:
  "ch_valid (verify_chain (es @ [e])) \<longleftrightarrow>
     ch_valid (verify_chain es) \<and> au_prev e = last_hash es \<and> au_hash e = entry_hash e"
  unfolding verify_chain_def last_hash_def using verify_from_valid_append by blast

lemma verify_chain_Nil [simp]: "ch_valid (verify_chain [])"
  by (simp add: verify_chain_def)

lemma verify_chain_truncate: "verify_chain (map audit_entry.truncate es) = verify_chain es"
proof -
  have "verify_from n p (map audit_entry.truncate es) = verify_from n p es" for n p
    by (induction es arbitrary: p) (simp_all add: entry_hash_def entry_basis_def audit_entry.defs)
  then show ?thesis by (simp add: verify_chain_def)
qed

lemma last_hash_letters: "ch_valid (verify_chain es) \<Longrightarrow> CHR ''|'' \<notin> set (last_hash es)"
proof (cases es rule: rev_cases)
  case (snoc ds d)
  assume "ch_valid (verify_chain es)"
  then have "last_hash es = sha256_hexdigest (entry_basis d)"
    by (simp add: snoc verify_chain_append last_hash_def entry_hash_def)
  moreover have "CHR ''|'' \<notin> hex_chars" by (simp add: hex_chars_def)
  ultimately show ?thesis using sha256_hexdigest_hex [of "entry_basis d"] by auto
qed (simp add: last_hash_def)

lemma last_hash_empty: "ch_valid (verify_chain es) \<Longrightarrow> last_hash es = [] \<longleftrightarrow> es = []"
proof (cases es rule: rev_cases)
  case (snoc ds d)
  assume "ch_valid (verify_chain es)"
  then have "last_hash es = sha256_hexdigest (entry_basis d)"
    by (simp add: snoc verify_chain_append last_hash_def entry_hash_def)
  then show ?thesis using length_sha256_hexdigest [of "entry_basis d"] snoc by auto
qed (simp add: last_hash_def)

lemma split_at_bar:
  assumes "a @ bar @ b = c @ bar @ d" and "CHR ''|'' \<notin> set a" and "CHR ''|'' \<notin> set c"
  shows "a = c"
proof -
  have "takeWhile (\<lambda>x. x \<noteq> CHR ''|'') (a @ bar @ b) = a" if "CHR ''|'' \<notin> set a" for a b
    using that by (subst takeWhile_append2) (auto simp: bar_def)
  from this [OF assms(2), of b] this [OF assms(3), of d] assms(1) show ?thesis by simp
qed

lemma basis_prev:
  "entry_basis d = entry_basis e \<Longrightarrow> CHR ''|'' \<notin> set (au_prev d) \<Longrightarrow> CHR ''|'' \<notin> set (au_prev e)
   \<Longrightarrow> au_prev d = au_prev e"
  unfolding entry_basis_def by (rule split_at_bar)

text \<open>
  Two logs that verify and end in the same hash hold the same texts, or else the two logs
  exhibit a collision of the hash function.
\<close>

definition collision :: "'a audit_entry_scheme list \<Rightarrow> 'b audit_entry_scheme list \<Rightarrow> bool" where
  "collision es ds \<longleftrightarrow> (\<exists>e \<in> set es. \<exists>d \<in> set ds. entry_basis e \<noteq> entry_basis d \<and> entry_hash e = entry_hash d)"

lemma same_end_same_log:
  assumes "ch_valid (verify_chain es)" and "ch_valid (verify_chain ds)" and "last_hash es = last_hash ds"
  shows "map entry_basis es = map entry_basis ds \<or> collision es ds"
  using assms
proof (induction es arbitrary: ds rule: rev_induct)
  case Nil
  then show ?case using last_hash_empty [of ds] by (simp add: last_hash_def)
next
  case (snoc e es)
  from snoc.prems(1,3) have "last_hash ds \<noteq> []" using last_hash_empty [of "es @ [e]"] by simp
  then obtain d ds' where ds: "ds = ds' @ [d]" by (cases ds rule: rev_cases) (auto simp: last_hash_def)
  have e: "ch_valid (verify_chain es)" "au_prev e = last_hash es" "au_hash e = entry_hash e"
    and d: "ch_valid (verify_chain ds')" "au_prev d = last_hash ds'" "au_hash d = entry_hash d"
    using snoc.prems(1,2) by (simp_all add: ds verify_chain_append)
  have hashes: "entry_hash e = entry_hash d" using snoc.prems(3) e(3) d(3) by (simp add: ds last_hash_def)
  show ?case
  proof (cases "entry_basis e = entry_basis d")
    case True
    have "CHR ''|'' \<notin> set (au_prev e)" "CHR ''|'' \<notin> set (au_prev d)"
      using last_hash_letters [OF e(1)] last_hash_letters [OF d(1)] e(2) d(2) by simp_all
    then have "last_hash es = last_hash ds'" using basis_prev [OF True] e(2) d(2) by simp
    from snoc.IH [OF e(1) d(1) this] True show ?thesis by (auto simp: ds collision_def)
  next
    case False
    with hashes show ?thesis by (auto simp: ds collision_def)
  qed
qed

lemma verify_chain_take: "ch_valid (verify_chain es) \<Longrightarrow> ch_valid (verify_chain (take n es))"
proof (induction es rule: rev_induct)
  case (snoc e es)
  then show ?case by (cases "n \<le> length es") (simp_all add: verify_chain_append)
qed simp

lemma no_rewrite_same_hashes:
  "first_rewritten i bs ns = None \<Longrightarrow> length bs \<le> length ns \<Longrightarrow> map au_hash bs = map au_hash (take (length bs) ns)"
  by (induction i bs ns rule: first_rewritten.induct) (auto split: if_splits)

lemma last_hash_of_hashes: "map au_hash bs = map au_hash ns \<Longrightarrow> last_hash bs = last_hash ns"
  unfolding last_hash_def by (metis last_map map_is_Nil_conv)

lemma verify_export_ok:
  "ev_ok (verify_export h document k against) \<longleftrightarrow> ex_schema document = Some EXPORT_SCHEMA
     \<and> (\<exists>entries. ex_entries document = Some entries \<and> chain_problems document entries = [])
     \<and> snd (seal_check h document k) = []
     \<and> (\<forall>previous. against = Some previous \<longrightarrow> snd (continuity_of document previous) = [])"
  by (auto simp: verify_export_def Let_def split_beta split: option.splits)

lemma chain_problems_none: "chain_problems document entries = [] \<Longrightarrow> ch_valid (verify_chain entries)"
  by (simp add: chain_problems_def Let_def split: if_splits)

lemma continuity_none:
  assumes "snd (continuity_of document previous) = []"
  shows "\<exists>es ds. ex_entries previous = Some es \<and> ex_entries document = Some ds \<and> ex_org_id previous = ex_org_id document
    \<and> length es \<le> length ds \<and> map au_hash es = map au_hash (take (length es) ds)"
  using assms no_rewrite_same_hashes
  by (fastforce simp: continuity_of_def not_less split: option.splits if_splits)

text \<open>Entries that hash the same text, under the same id and links, cannot be told apart.\<close>

lemma verify_chain_same_basis:
  assumes "i < length es" and "au_id e = au_id (es ! i)" and "au_prev e = au_prev (es ! i)"
    and "au_hash e = au_hash (es ! i)" and "entry_basis e = entry_basis (es ! i)"
  shows "verify_chain (es[i := e]) = verify_chain es"
proof -
  have "verify_from n p (es[i := e]) = verify_from n p es" for n p
    using assms
  proof (induction es arbitrary: i p)
    case (Cons x es)
    then show ?case by (cases i) (simp_all add: entry_hash_def)
  qed simp
  then show ?thesis by (simp add: verify_chain_def)
qed

end
