(* ===== verification/ServerStore.thy ===== *)
theory ServerStore
  imports AuditLog
begin

text \<open>
  The store of the self-hosted server: src/apiverity/server/store.py and the state object of
  src/apiverity/server/freeze.py. A SQLite table is the list of its rows in rowid order with
  the \<open>AUTOINCREMENT\<close> counter; each method is a function on the record of the tables, its SQL
  statements written out as insertion, update, deletion and selection. Foreign keys are not
  enforced, as SQLite does not by default. \<open>_now()\<close> is read from a clock argument, the i-th
  reading of a call being \<open>clk i\<close>; JSON serialisation is the argument \<open>js\<close>.
\<close>

section \<open>Tables\<close>

record 'r table =
  tab_rows :: "'r list"
  tab_seq :: int

definition insert_row :: "(int \<Rightarrow> 'r) \<Rightarrow> 'r table \<Rightarrow> int \<times> 'r table" where
  "insert_row mk t = (let i = tab_seq t + 1 in (i, t\<lparr>tab_rows := tab_rows t @ [mk i], tab_seq := i\<rparr>))"

definition update_rows :: "('r \<Rightarrow> bool) \<Rightarrow> ('r \<Rightarrow> 'r) \<Rightarrow> 'r table \<Rightarrow> 'r table" where
  "update_rows P f t = t\<lparr>tab_rows := map (\<lambda>r. if P r then f r else r) (tab_rows t)\<rparr>"

definition delete_rows :: "('r \<Rightarrow> bool) \<Rightarrow> 'r table \<Rightarrow> 'r table" where
  "delete_rows P t = t\<lparr>tab_rows := filter (\<lambda>r. \<not> P r) (tab_rows t)\<rparr>"

definition select_rows :: "('r \<Rightarrow> bool) \<Rightarrow> 'r table \<Rightarrow> 'r list" where
  "select_rows P t = filter P (tab_rows t)"

definition fetchone :: "'r list \<Rightarrow> 'r option" where
  "fetchone rows = (case rows of [] \<Rightarrow> None | r # _ \<Rightarrow> Some r)"

text \<open>\<open>ORDER BY id DESC LIMIT n\<close>.\<close>

definition newest :: "nat \<Rightarrow> 'r list \<Rightarrow> 'r list" where
  "newest n rows = take n (rev rows)"

definition empty_table :: "'r table" where
  "empty_table = \<lparr>tab_rows = [], tab_seq = 0\<rparr>"

type_synonym clock = "nat \<Rightarrow> string"

record json_lib =
  js_dumps :: "pyval \<Rightarrow> string"
  js_sorted :: "pyval \<Rightarrow> string"
  js_loads :: "string \<Rightarrow> pyval"

section \<open>Rows\<close>

record org_row =
  og_id :: int
  og_name :: string
  og_created_at :: string

record user_row =
  us_id :: int
  us_org :: int
  us_subject :: string
  us_display_name :: string
  us_role :: string
  us_kind :: string
  us_token_hash :: "string option"

record environment_row =
  ev_id :: int
  ev_org :: int
  ev_name :: string
  ev_base_url :: string
  ev_safety_class :: string
  ev_owner :: "string option"
  ev_allowed_modes :: string

record policy_row =
  po_id :: int
  po_org :: int
  po_name :: string
  po_content :: string
  po_updated_at :: string

record webhook_row =
  wh_id :: int
  wh_org :: int
  wh_url :: string
  wh_secret_ref :: string
  wh_events :: "string list"
  wh_active :: bool
  wh_created_at :: string

record worker_row =
  wk_id :: int
  wk_org :: int
  wk_name :: string
  wk_labels :: "string list"
  wk_capacity :: int
  wk_last_seen :: string
  wk_active :: bool

record contract_row =
  ct_id :: int
  ct_org :: int
  ct_title :: string
  ct_version :: string
  ct_protocol :: string
  ct_checksum :: string
  ct_spec :: string
  ct_published_by :: string
  ct_published_at :: string

record finding_row =
  fr_id :: int
  fr_contract :: int
  fr_rule_id :: string
  fr_severity :: string
  fr_message :: string
  fr_operation_key :: "string option"
  fr_created_at :: string

record run_row =
  rn_id :: int
  rn_org :: int
  rn_kind :: string
  rn_status :: string
  rn_requested_by :: string
  rn_result :: "string option"
  rn_verification_for :: "string option"
  rn_environment :: "string option"
  rn_created_at :: string
  rn_updated_at :: string
  rn_worker :: "string option"
  rn_idempotency_key :: "string option"

record run_event =
  re_id :: int
  re_run :: int
  re_ts :: string
  re_message :: string
  re_pct :: "int option"

record approval_row =
  ap_id :: int
  ap_org :: int
  ap_title :: string
  ap_from_version :: string
  ap_to_version :: string
  ap_justification :: string
  ap_migration_guide :: "string option"
  ap_status :: string
  ap_requested_by :: string
  ap_decided_by :: "string option"
  ap_created_at :: string
  ap_decided_at :: "string option"

record freeze_row =
  fz_id :: int
  fz_org :: int
  fz_reason :: string
  fz_actor :: string
  fz_created_at :: string
  fz_review_by :: "string option"
  fz_lifted_at :: "string option"
  fz_lifted_by :: "string option"
  fz_lift_reason :: "string option"

record audit_row = audit_entry +
  au_org :: int

record store =
  st_orgs :: "org_row table"
  st_users :: "user_row table"
  st_environments :: "environment_row table"
  st_policies :: "policy_row table"
  st_webhooks :: "webhook_row table"
  st_workers :: "worker_row table"
  st_contracts :: "contract_row table"
  st_findings :: "finding_row table"
  st_runs :: "run_row table"
  st_events :: "run_event table"
  st_approvals :: "approval_row table"
  st_freezes :: "freeze_row table"
  st_audit :: "audit_row table"

definition empty_store :: store where
  "empty_store = \<lparr>st_orgs = empty_table, st_users = empty_table, st_environments = empty_table,
     st_policies = empty_table, st_webhooks = empty_table, st_workers = empty_table, st_contracts = empty_table, st_findings = empty_table, st_runs = empty_table,
     st_events = empty_table, st_approvals = empty_table, st_freezes = empty_table, st_audit = empty_table\<rparr>"

section \<open>Contracts and findings\<close>

text \<open>\<open>UNIQUE (org_id, title, version)\<close>: a second publication raises.\<close>

definition publish_contract ::
  "json_lib \<Rightarrow> clock \<Rightarrow> int \<Rightarrow> string \<Rightarrow> string \<Rightarrow> string \<Rightarrow> pyval \<Rightarrow> string \<Rightarrow> store \<Rightarrow> (string + int \<times> store)" where
  "publish_contract js clk org title version proto spec published_by s =
     (if \<exists>c \<in> set (tab_rows (st_contracts s)). ct_org c = org \<and> ct_title c = title \<and> ct_version c = version
      then Inl ''IntegrityError''
      else let (i, t) = insert_row (\<lambda>i. \<lparr>ct_id = i, ct_org = org, ct_title = title, ct_version = version,
                 ct_protocol = proto, ct_checksum = sha256_hexdigest (js_sorted js spec),
                 ct_spec = js_dumps js spec, ct_published_by = published_by, ct_published_at = clk 0\<rparr>)
               (st_contracts s)
           in Inr (i, s\<lparr>st_contracts := t\<rparr>))"

definition list_contracts :: "int \<Rightarrow> string option \<Rightarrow> store \<Rightarrow> contract_row list" where
  "list_contracts org title s = sort_key ct_published_at (select_rows (\<lambda>c. ct_org c = org
     \<and> (truthy_str title \<longrightarrow> title = Some (ct_title c))) (st_contracts s))"

definition get_contract :: "int \<Rightarrow> store \<Rightarrow> contract_row option" where
  "get_contract i s = fetchone (select_rows (\<lambda>c. ct_id c = i) (st_contracts s))"

record new_finding =
  nf_rule_id :: string
  nf_severity :: string
  nf_message :: string
  nf_operation_key :: "string option"

fun insert_findings :: "clock \<Rightarrow> int \<Rightarrow> nat \<Rightarrow> new_finding list \<Rightarrow> finding_row table \<Rightarrow> finding_row table" where
  "insert_findings clk contract n [] t = t"
| "insert_findings clk contract n (f # fs) t = insert_findings clk contract (Suc n) fs
     (snd (insert_row (\<lambda>i. \<lparr>fr_id = i, fr_contract = contract, fr_rule_id = nf_rule_id f,
        fr_severity = nf_severity f, fr_message = nf_message f, fr_operation_key = nf_operation_key f,
        fr_created_at = clk n\<rparr>) t))"

definition add_findings :: "clock \<Rightarrow> int \<Rightarrow> new_finding list \<Rightarrow> store \<Rightarrow> nat \<times> store" where
  "add_findings clk contract fs s = (length fs, s\<lparr>st_findings := insert_findings clk contract 0 fs (st_findings s)\<rparr>)"

definition list_findings :: "int \<Rightarrow> store \<Rightarrow> finding_row list" where
  "list_findings contract s = select_rows (\<lambda>f. fr_contract f = contract) (st_findings s)"

section \<open>Runs\<close>

definition update_run :: "clock \<Rightarrow> int \<Rightarrow> string \<Rightarrow> string option \<Rightarrow> store \<Rightarrow> store" where
  "update_run clk i status result s = s\<lparr>st_runs := update_rows (\<lambda>r. rn_id r = i)
     (\<lambda>r. r\<lparr>rn_status := status, rn_result := (if result = None then rn_result r else result),
            rn_updated_at := clk 0\<rparr>) (st_runs s)\<rparr>"

definition list_runs :: "int \<Rightarrow> nat \<Rightarrow> store \<Rightarrow> run_row list" where
  "list_runs org limit s = newest limit (select_rows (\<lambda>r. rn_org r = org) (st_runs s))"

definition get_run :: "int \<Rightarrow> store \<Rightarrow> run_row option" where
  "get_run i s = fetchone (select_rows (\<lambda>r. rn_id r = i) (st_runs s))"

definition cancel_run :: "clock \<Rightarrow> int \<Rightarrow> store \<Rightarrow> bool \<times> store" where
  "cancel_run clk i s = (case get_run i s of
       None \<Rightarrow> (False, s)
     | Some row \<Rightarrow> if rn_status row \<notin> {''queued'', ''running''} then (False, s)
                   else (True, update_run clk i ''cancelled'' None s))"

text \<open>The row that violates \<open>idx_runs_idem\<close>, if inserting this key would.\<close>

definition find_run_by_idempotency_key :: "int \<Rightarrow> string \<Rightarrow> store \<Rightarrow> run_row option" where
  "find_run_by_idempotency_key org k s =
     fetchone (select_rows (\<lambda>r. rn_org r = org \<and> rn_idempotency_key r = Some k) (st_runs s))"

record new_run =
  nr_kind :: string
  nr_requested_by :: string
  nr_result :: "string option"
  nr_status :: string
  nr_verification_for :: "string option"
  nr_environment :: "string option"
  nr_idempotency_key :: "string option"

definition record_run :: "clock \<Rightarrow> int \<Rightarrow> new_run \<Rightarrow> store \<Rightarrow> int \<times> store" where
  "record_run clk org n s =
     (case Option.bind (nr_idempotency_key n) (\<lambda>k. find_run_by_idempotency_key org k s) of
        Some row \<Rightarrow> (rn_id row, s)
      | None \<Rightarrow>
          let (i, t) = insert_row (\<lambda>i. \<lparr>rn_id = i, rn_org = org, rn_kind = nr_kind n, rn_status = nr_status n,
                 rn_requested_by = nr_requested_by n, rn_result = nr_result n,
                 rn_verification_for = nr_verification_for n, rn_environment = nr_environment n,
                 rn_created_at = clk 0, rn_updated_at = clk 0, rn_worker = None,
                 rn_idempotency_key = nr_idempotency_key n\<rparr>) (st_runs s)
          in (i, s\<lparr>st_runs := t\<rparr>))"

definition append_run_event :: "clock \<Rightarrow> int \<Rightarrow> string \<Rightarrow> int option \<Rightarrow> store \<Rightarrow> store" where
  "append_run_event clk run message pct s = s\<lparr>st_events := snd (insert_row (\<lambda>i.
     \<lparr>re_id = i, re_run = run, re_ts = clk 0, re_message = message, re_pct = pct\<rparr>) (st_events s))\<rparr>"

definition list_run_events :: "int \<Rightarrow> store \<Rightarrow> run_event list" where
  "list_run_events run s = select_rows (\<lambda>e. re_run e = run) (st_events s)"

definition queued_in :: "int \<Rightarrow> run_row \<Rightarrow> bool" where
  "queued_in org r \<longleftrightarrow> rn_org r = org \<and> rn_status r = ''queued''"

definition claim_next_run :: "clock \<Rightarrow> int \<Rightarrow> string \<Rightarrow> store \<Rightarrow> run_row option \<times> store" where
  "claim_next_run clk org worker s =
     (case fetchone (select_rows (queued_in org) (st_runs s)) of
        None \<Rightarrow> (None, s)
      | Some row \<Rightarrow>
          let s = s\<lparr>st_runs := update_rows (\<lambda>r. rn_id r = rn_id row)
                     (\<lambda>r. r\<lparr>rn_status := ''running'', rn_worker := Some worker, rn_updated_at := clk 0\<rparr>) (st_runs s)\<rparr>;
              claimed = get_run (rn_id row) s
          in (claimed, append_run_event (\<lambda>i. clk (Suc i)) (rn_id row) (''claimed by worker '' @ quoted worker) (Some 0) s))"

definition active_in :: "int \<Rightarrow> run_row \<Rightarrow> bool" where
  "active_in org r \<longleftrightarrow> rn_org r = org \<and> rn_status r \<in> {''queued'', ''running''}"

definition active_run_count :: "int \<Rightarrow> store \<Rightarrow> nat" where
  "active_run_count org s = length (select_rows (active_in org) (st_runs s))"

section \<open>Approvals\<close>

definition request_approval ::
  "clock \<Rightarrow> int \<Rightarrow> string \<Rightarrow> string \<Rightarrow> string \<Rightarrow> string \<Rightarrow> string \<Rightarrow> string option \<Rightarrow> store \<Rightarrow> int \<times> store" where
  "request_approval clk org title from_v to_v justification requested_by guide s =
     (let (i, t) = insert_row (\<lambda>i. \<lparr>ap_id = i, ap_org = org, ap_title = title, ap_from_version = from_v,
            ap_to_version = to_v, ap_justification = justification, ap_migration_guide = guide,
            ap_status = ''pending'', ap_requested_by = requested_by, ap_decided_by = None,
            ap_created_at = clk 0, ap_decided_at = None\<rparr>) (st_approvals s)
      in (i, s\<lparr>st_approvals := t\<rparr>))"

definition decide_approval :: "clock \<Rightarrow> int \<Rightarrow> string \<Rightarrow> string \<Rightarrow> store \<Rightarrow> (bool \<times> store) result" where
  "decide_approval clk i decision decided_by s =
     (if decision \<notin> {''approved'', ''rejected''} then Inl (ValueError decision)
      else let pending = (\<lambda>a. ap_id a = i \<and> ap_status a = ''pending'') in
        Inr (select_rows pending (st_approvals s) \<noteq> [],
             s\<lparr>st_approvals := update_rows pending
                (\<lambda>a. a\<lparr>ap_status := decision, ap_decided_by := Some decided_by, ap_decided_at := Some (clk 0)\<rparr>)
                (st_approvals s)\<rparr>))"

definition list_approvals :: "int \<Rightarrow> string option \<Rightarrow> nat \<Rightarrow> store \<Rightarrow> approval_row list" where
  "list_approvals org status limit s = newest limit (select_rows
     (\<lambda>a. ap_org a = org \<and> (truthy_str status \<longrightarrow> status = Some (ap_status a))) (st_approvals s))"

definition get_approval :: "int \<Rightarrow> store \<Rightarrow> approval_row option" where
  "get_approval i s = fetchone (select_rows (\<lambda>a. ap_id a = i) (st_approvals s))"

section \<open>The audit log\<close>

definition audit_all :: "int \<Rightarrow> store \<Rightarrow> audit_row list" where
  "audit_all org s = select_rows (\<lambda>a. au_org a = org) (st_audit s)"

definition audit_list :: "int \<Rightarrow> nat \<Rightarrow> store \<Rightarrow> audit_row list" where
  "audit_list org limit s = newest limit (audit_all org s)"

definition audit_append :: "json_lib \<Rightarrow> clock \<Rightarrow> int \<Rightarrow> string \<Rightarrow> string \<Rightarrow> string \<Rightarrow> (string \<times> pyval) list \<Rightarrow> store \<Rightarrow> store" where
  "audit_append js clk org actor action target payload s =
     (let prev = (case newest 1 (audit_all org s) of [] \<Rightarrow> [] | r # _ \<Rightarrow> au_hash r);
          payload_json = js_sorted js (PDict payload);
          basis = prev @ bar @ clk 0 @ bar @ actor @ bar @ action @ bar @ target @ bar @ payload_json
      in s\<lparr>st_audit := snd (insert_row (\<lambda>i. \<lparr>au_id = i, au_ts = clk 0, au_actor = actor, au_action = action,
             au_target = target, au_payload = payload_json, au_prev = prev, au_hash = sha256_hexdigest basis,
             au_org = org\<rparr>) (st_audit s))\<rparr>)"

definition audit_status :: "int \<Rightarrow> store \<Rightarrow> chain_status" where
  "audit_status org s = verify_chain (audit_all org s)"

definition audit_verify_chain :: "int \<Rightarrow> store \<Rightarrow> bool" where
  "audit_verify_chain org s = ch_valid (audit_status org s)"

text \<open>\<open>audit_export\<close>; the name of the organisation and the tool's version are arguments.\<close>

definition audit_export ::
  "hmac \<Rightarrow> string \<Rightarrow> clock \<Rightarrow> string option \<Rightarrow> int \<Rightarrow> string option \<Rightarrow> store \<Rightarrow> export_doc" where
  "audit_export hmac_of tool_version clk org_name org hmac_key s =
     build_export hmac_of org org_name (audit_all org s) (clk 0) tool_version hmac_key"

section \<open>The emergency freeze\<close>

record freeze_info =
  fs_active :: bool
  fs_reason :: "string option"
  fs_actor :: "string option"
  fs_since :: "string option"
  fs_review_by :: "string option"
  fs_overdue :: bool

definition not_frozen :: freeze_info where
  "not_frozen = \<lparr>fs_active = False, fs_reason = None, fs_actor = None, fs_since = None,
     fs_review_by = None, fs_overdue = False\<rparr>"

definition refusal :: "freeze_info \<Rightarrow> string" where
  "refusal f = ''deployments are frozen''
     @ (case fs_actor f of Some a \<Rightarrow> if a \<noteq> [] then '' by '' @ a else [] | None \<Rightarrow> [])
     @ (case fs_since f of Some t \<Rightarrow> if t \<noteq> [] then '' since '' @ t else [] | None \<Rightarrow> [])
     @ (case fs_reason f of Some r \<Rightarrow> if r \<noteq> [] then '': '' @ r else [] | None \<Rightarrow> [])"

definition open_freeze :: "int \<Rightarrow> freeze_row \<Rightarrow> bool" where
  "open_freeze org f \<longleftrightarrow> fz_org f = org \<and> fz_lifted_at f = None"

definition freeze_state :: "string \<Rightarrow> int \<Rightarrow> store \<Rightarrow> freeze_info" where
  "freeze_state now org s =
     (case newest 1 (select_rows (open_freeze org) (st_freezes s)) of
        [] \<Rightarrow> not_frozen
      | row # _ \<Rightarrow> \<lparr>fs_active = True, fs_reason = Some (fz_reason row), fs_actor = Some (fz_actor row),
          fs_since = Some (fz_created_at row), fs_review_by = fz_review_by row,
          fs_overdue = (case fz_review_by row of None \<Rightarrow> False | Some t \<Rightarrow> t \<noteq> [] \<and> t < now)\<rparr>)"

definition FROZEN :: string where "FROZEN = ''org.frozen''"

definition LIFTED :: string where "LIFTED = ''org.freeze_lifted''"

definition freeze :: "json_lib \<Rightarrow> clock \<Rightarrow> int \<Rightarrow> string \<Rightarrow> string \<Rightarrow> string option \<Rightarrow> store \<Rightarrow> freeze_info \<times> store" where
  "freeze js clk org actor reason review_by s =
     (let current = freeze_state (clk 0) org s in
      if fs_active current then (current, s)
      else
        let s = s\<lparr>st_freezes := snd (insert_row (\<lambda>i. \<lparr>fz_id = i, fz_org = org, fz_reason = reason, fz_actor = actor,
                   fz_created_at = clk 1, fz_review_by = review_by, fz_lifted_at = None, fz_lifted_by = None,
                   fz_lift_reason = None\<rparr>) (st_freezes s))\<rparr>;
            s = audit_append js (\<lambda>i. clk (i + 2)) org actor FROZEN (''org:'' @ int_str org) [(''reason'', PStr reason)] s
        in (freeze_state (clk 3) org s, s))"

definition lift_freeze :: "json_lib \<Rightarrow> clock \<Rightarrow> int \<Rightarrow> string \<Rightarrow> string \<Rightarrow> store \<Rightarrow> freeze_info \<times> store" where
  "lift_freeze js clk org actor reason s =
     (case newest 1 (select_rows (open_freeze org) (st_freezes s)) of
        [] \<Rightarrow> (not_frozen, s)
      | row # _ \<Rightarrow>
          let s = s\<lparr>st_freezes := update_rows (\<lambda>f. fz_id f = fz_id row)
                     (\<lambda>f. f\<lparr>fz_lifted_at := Some (clk 0), fz_lifted_by := Some actor, fz_lift_reason := Some reason\<rparr>)
                     (st_freezes s)\<rparr>
          in (not_frozen, audit_append js (\<lambda>i. clk (Suc i)) org actor LIFTED (''org:'' @ int_str org)
                [(''reason'', PStr reason)] s))"

definition freeze_history :: "int \<Rightarrow> nat \<Rightarrow> store \<Rightarrow> freeze_row list" where
  "freeze_history org limit s = newest limit (select_rows (\<lambda>f. fz_org f = org) (st_freezes s))"

section \<open>Retention\<close>

definition purge_older_than :: "string \<Rightarrow> store \<Rightarrow> store" where
  "purge_older_than cutoff s = s\<lparr>
     st_findings := delete_rows (\<lambda>f. fr_created_at f \<le> cutoff) (st_findings s),
     st_runs := delete_rows (\<lambda>r. rn_created_at r \<le> cutoff) (st_runs s)\<rparr>"

end
