(* ===== verification/ServerDirectory.thy ===== *)
theory ServerDirectory
  imports ServerStore
begin

text \<open>
  The rest of src/apiverity/server/store.py: organisations and users, workers, environments,
  policies and webhooks, and the snapshot of an organisation that \<open>export_org\<close> takes and
  \<open>import_org\<close> restores. Lists of labels and of events are stored as JSON text in the code and
  as lists here. An upsert leaves the counter of its table alone; SQLite documents that the
  counter may skip numbers there. A constraint that fails raises \<open>IntegrityError\<close>.
\<close>

section \<open>Organisations and users\<close>

definition create_org :: "clock \<Rightarrow> string \<Rightarrow> store \<Rightarrow> (string + int \<times> store)" where
  "create_org clk name s =
     (if \<exists>o' \<in> set (tab_rows (st_orgs s)). og_name o' = name then Inl ''IntegrityError''
      else let (i, t) = insert_row (\<lambda>i. \<lparr>og_id = i, og_name = name, og_created_at = clk 0\<rparr>) (st_orgs s)
           in Inr (i, s\<lparr>st_orgs := t\<rparr>))"

definition get_org :: "int \<Rightarrow> store \<Rightarrow> org_row option" where
  "get_org org s = fetchone (select_rows (\<lambda>r. og_id r = org) (st_orgs s))"

definition hash_token :: "string \<Rightarrow> string" where
  "hash_token token = sha256_hexdigest token"

record new_user =
  nu_subject :: string
  nu_role :: string
  nu_display_name :: string
  nu_kind :: string
  nu_token :: "string option"

definition add_user :: "int \<Rightarrow> new_user \<Rightarrow> store \<Rightarrow> (string + int \<times> store)" where
  "add_user org u s =
     (if nu_role u \<notin> {''owner'', ''admin'', ''member'', ''viewer''} \<or> nu_kind u \<notin> {''user'', ''service_account''}
         \<or> (\<exists>r \<in> set (tab_rows (st_users s)). us_org r = org \<and> us_subject r = nu_subject u)
      then Inl ''IntegrityError''
      else let (i, t) = insert_row (\<lambda>i. \<lparr>us_id = i, us_org = org, us_subject = nu_subject u,
                 us_display_name = nu_display_name u, us_role = nu_role u, us_kind = nu_kind u,
                 us_token_hash = (case nu_token u of
                    None \<Rightarrow> None | Some token \<Rightarrow> if token = [] then None else Some (hash_token token))\<rparr>) (st_users s)
           in Inr (i, s\<lparr>st_users := t\<rparr>))"

definition resolve_token :: "string \<Rightarrow> store \<Rightarrow> user_row option" where
  "resolve_token token s = fetchone (select_rows (\<lambda>u. us_token_hash u = Some (hash_token token)) (st_users s))"

text \<open>\<open>list_users\<close> selects all columns but the organisation and the hash.\<close>

definition list_users :: "int \<Rightarrow> store \<Rightarrow> new_user list" where
  "list_users org s = map (\<lambda>u. \<lparr>nu_subject = us_subject u, nu_role = us_role u, nu_display_name = us_display_name u,
     nu_kind = us_kind u, nu_token = None\<rparr>) (select_rows (\<lambda>u. us_org u = org) (st_users s))"

section \<open>Workers\<close>

definition register_worker :: "clock \<Rightarrow> int \<Rightarrow> string \<Rightarrow> string list \<Rightarrow> int \<Rightarrow> store \<Rightarrow> int option \<times> store" where
  "register_worker clk org name labels capacity s =
     (let same = (\<lambda>w. wk_org w = org \<and> wk_name w = name);
          t = (if \<exists>w \<in> set (tab_rows (st_workers s)). same w
               then update_rows same (\<lambda>w. w\<lparr>wk_labels := labels, wk_capacity := capacity,
                      wk_last_seen := clk 0, wk_active := True\<rparr>) (st_workers s)
               else snd (insert_row (\<lambda>i. \<lparr>wk_id = i, wk_org = org, wk_name = name, wk_labels = labels,
                      wk_capacity = capacity, wk_last_seen = clk 0, wk_active = True\<rparr>) (st_workers s)))
      in (map_option wk_id (fetchone (select_rows same t)), s\<lparr>st_workers := t\<rparr>))"

definition list_workers :: "int \<Rightarrow> store \<Rightarrow> worker_row list" where
  "list_workers org s = select_rows (\<lambda>w. wk_org w = org) (st_workers s)"

section \<open>Environments, policies and webhooks\<close>

record new_environment =
  ne_name :: string
  ne_base_url :: string
  ne_safety_class :: string
  ne_owner :: "string option"
  ne_allowed_modes :: string

text \<open>\<open>INSERT OR REPLACE\<close> deletes the row in conflict and inserts a new one.\<close>

definition register_environment :: "int \<Rightarrow> new_environment \<Rightarrow> store \<Rightarrow> int \<times> store" where
  "register_environment org e s =
     (let (i, t) = insert_row (\<lambda>i. \<lparr>ev_id = i, ev_org = org, ev_name = ne_name e, ev_base_url = ne_base_url e,
            ev_safety_class = ne_safety_class e, ev_owner = ne_owner e, ev_allowed_modes = ne_allowed_modes e\<rparr>)
          (delete_rows (\<lambda>r. ev_org r = org \<and> ev_name r = ne_name e) (st_environments s))
      in (i, s\<lparr>st_environments := t\<rparr>))"

definition list_environments :: "int \<Rightarrow> store \<Rightarrow> environment_row list" where
  "list_environments org s = select_rows (\<lambda>e. ev_org e = org) (st_environments s)"

definition set_policy :: "clock \<Rightarrow> int \<Rightarrow> string \<Rightarrow> string \<Rightarrow> store \<Rightarrow> store" where
  "set_policy clk org name content s =
     (let same = (\<lambda>p. po_org p = org \<and> po_name p = name) in
      s\<lparr>st_policies :=
         (if \<exists>p \<in> set (tab_rows (st_policies s)). same p
          then update_rows same (\<lambda>p. p\<lparr>po_content := content, po_updated_at := clk 0\<rparr>) (st_policies s)
          else snd (insert_row (\<lambda>i. \<lparr>po_id = i, po_org = org, po_name = name, po_content = content,
                 po_updated_at = clk 0\<rparr>) (st_policies s)))\<rparr>)"

definition get_policy :: "int \<Rightarrow> string \<Rightarrow> store \<Rightarrow> policy_row option" where
  "get_policy org name s = fetchone (select_rows (\<lambda>p. po_org p = org \<and> po_name p = name) (st_policies s))"

definition list_policies :: "int \<Rightarrow> store \<Rightarrow> policy_row list" where
  "list_policies org s = select_rows (\<lambda>p. po_org p = org) (st_policies s)"

definition register_webhook :: "clock \<Rightarrow> int \<Rightarrow> string \<Rightarrow> string \<Rightarrow> string list \<Rightarrow> store \<Rightarrow> int \<times> store" where
  "register_webhook clk org url secret_ref events s =
     (let (i, t) = insert_row (\<lambda>i. \<lparr>wh_id = i, wh_org = org, wh_url = url, wh_secret_ref = secret_ref,
            wh_events = events, wh_active = True, wh_created_at = clk 0\<rparr>) (st_webhooks s)
      in (i, s\<lparr>st_webhooks := t\<rparr>))"

definition list_webhooks :: "int \<Rightarrow> string option \<Rightarrow> store \<Rightarrow> webhook_row list" where
  "list_webhooks org event s = filter (\<lambda>w. case event of None \<Rightarrow> True | Some e \<Rightarrow> e \<in> set (wh_events w))
     (select_rows (\<lambda>w. wh_org w = org \<and> wh_active w) (st_webhooks s))"

section \<open>Snapshots\<close>

record contract_copy =
  cc_title :: string
  cc_version :: string
  cc_protocol :: string
  cc_spec :: pyval
  cc_published_by :: string

record snapshot =
  sp_org_name :: string
  sp_users :: "new_user list"
  sp_contracts :: "contract_copy option list"
  sp_environments :: "new_environment list"
  sp_policies :: "(string \<times> string) list"
  sp_webhooks :: "webhook_row list"

text \<open>What \<open>import_org\<close> reads of a contract that \<open>get_contract\<close> returned.\<close>

definition contract_copy_of :: "json_lib \<Rightarrow> contract_row \<Rightarrow> contract_copy" where
  "contract_copy_of js c = \<lparr>cc_title = ct_title c, cc_version = ct_version c, cc_protocol = ct_protocol c,
     cc_spec = js_loads js (ct_spec c), cc_published_by = ct_published_by c\<rparr>"

definition environment_copy_of :: "environment_row \<Rightarrow> new_environment" where
  "environment_copy_of e = \<lparr>ne_name = ev_name e, ne_base_url = ev_base_url e, ne_safety_class = ev_safety_class e,
     ne_owner = ev_owner e, ne_allowed_modes = ev_allowed_modes e\<rparr>"

definition export_org :: "json_lib \<Rightarrow> int \<Rightarrow> store \<Rightarrow> (string + snapshot)" where
  "export_org js org s = (case get_org org s of
     None \<Rightarrow> Inl ''KeyError''
   | Some r \<Rightarrow> Inr \<lparr>sp_org_name = og_name r, sp_users = list_users org s,
       sp_contracts = map (\<lambda>c. map_option (contract_copy_of js) (get_contract (ct_id c) s)) (list_contracts org None s),
       sp_environments = map environment_copy_of (list_environments org s),
       sp_policies = map (\<lambda>p. (po_name p, po_content p)) (list_policies org s),
       sp_webhooks = list_webhooks org None s\<rparr>)"

text \<open>
  The loops of \<open>import_org\<close>; the clock is read once for every contract and policy. Every statement
  is committed as it is made, so a loop that raises leaves what was imported before.
\<close>

fun import_users :: "int \<Rightarrow> new_user list \<Rightarrow> store \<Rightarrow> string option \<times> store" where
  "import_users org [] s = (None, s)"
| "import_users org (u # us) s = (case add_user org (u\<lparr>nu_token := None\<rparr>) s of
     Inl e \<Rightarrow> (Some e, s) | Inr (_, t) \<Rightarrow> import_users org us t)"

fun import_contracts :: "json_lib \<Rightarrow> clock \<Rightarrow> int \<Rightarrow> contract_copy option list \<Rightarrow> store \<Rightarrow> string option \<times> store" where
  "import_contracts js clk org [] s = (None, s)"
| "import_contracts js clk org (None # cs) s = import_contracts js clk org cs s"
| "import_contracts js clk org (Some c # cs) s =
     (case publish_contract js clk org (cc_title c) (cc_version c) (cc_protocol c) (cc_spec c) (cc_published_by c) s of
        Inl e \<Rightarrow> (Some e, s) | Inr (_, t) \<Rightarrow> import_contracts js (\<lambda>n. clk (Suc n)) org cs t)"

fun import_environments :: "int \<Rightarrow> new_environment list \<Rightarrow> store \<Rightarrow> store" where
  "import_environments org [] s = s"
| "import_environments org (e # es) s = import_environments org es (snd (register_environment org e s))"

fun import_policies :: "clock \<Rightarrow> int \<Rightarrow> (string \<times> string) list \<Rightarrow> store \<Rightarrow> store" where
  "import_policies clk org [] s = s"
| "import_policies clk org ((name, content) # ps) s =
     import_policies (\<lambda>n. clk (Suc n)) org ps (set_policy clk org name content s)"

definition import_org :: "json_lib \<Rightarrow> clock \<Rightarrow> snapshot \<Rightarrow> store \<Rightarrow> (string + int) \<times> store" where
  "import_org js clk snap s =
     (let name = sp_org_name snap @ ''-restored-'' @ clk 0;
          contracts = length (filter (\<lambda>c. c \<noteq> None) (sp_contracts snap));
          policies = length (sp_policies snap)
      in case create_org (\<lambda>n. clk (n + 1)) name s of
        Inl e \<Rightarrow> (Inl e, s)
      | Inr (org, s) \<Rightarrow> (case import_users org (sp_users snap) s of
            (Some e, s) \<Rightarrow> (Inl e, s)
          | (None, s) \<Rightarrow> (case import_contracts js (\<lambda>n. clk (n + 2)) org (sp_contracts snap) s of
                (Some e, s) \<Rightarrow> (Inl e, s)
              | (None, s) \<Rightarrow>
                  let s = import_environments org (sp_environments snap) s;
                      s = import_policies (\<lambda>n. clk (n + 2 + contracts)) org (sp_policies snap) s
                  in (Inr org, audit_append js (\<lambda>n. clk (n + 2 + contracts + policies)) org ''system'' ''org.imported'' name [] s))))"

end
