(* ===== verification/StoreFacts.thy ===== *)
theory StoreFacts
  imports ServerDirectory
begin

text \<open>
  The states the store can reach, one rule per method that writes, and what holds in all of
  them: every organisation's audit chain verifies, at most one freeze of an organisation is
  open, identifiers increase and idempotency keys are unique.
\<close>

section \<open>Tables\<close>

definition ids_increase :: "('r \<Rightarrow> int) \<Rightarrow> 'r table \<Rightarrow> bool" where
  "ids_increase ident t \<longleftrightarrow> sorted_wrt (<) (map ident (tab_rows t)) \<and> (\<forall>r \<in> set (tab_rows t). ident r \<le> tab_seq t)"

lemma ids_increase_empty [simp]: "ids_increase ident empty_table"
  by (simp add: ids_increase_def empty_table_def)

lemma ids_increase_insert:
  "ids_increase ident t \<Longrightarrow> (\<And>i. ident (mk i) = i) \<Longrightarrow> ids_increase ident (snd (insert_row mk t))"
  by (fastforce simp: ids_increase_def insert_row_def Let_def sorted_wrt_append)

lemma ids_increase_update:
  assumes "ids_increase ident t" and "\<And>r. ident (f r) = ident r"
  shows "ids_increase ident (update_rows P f t)"
proof -
  have "map ident (map (\<lambda>r. if P r then f r else r) rs) = map ident rs" for rs
    using assms(2) by simp
  with assms show ?thesis by (auto simp: ids_increase_def update_rows_def simp del: map_map)
qed

lemma ids_increase_delete: "ids_increase ident t \<Longrightarrow> ids_increase ident (delete_rows P t)"
  by (auto simp: ids_increase_def delete_rows_def sorted_wrt_map intro: sorted_wrt_filter)

lemma rows_insert_row [simp]: "tab_rows (snd (insert_row mk t)) = tab_rows t @ [mk (tab_seq t + 1)]"
  by (simp add: insert_row_def Let_def)

lemma fst_insert_row [simp]: "fst (insert_row mk t) = tab_seq t + 1"
  by (simp add: insert_row_def Let_def)

lemma rows_update_rows [simp]: "tab_rows (update_rows P f t) = map (\<lambda>r. if P r then f r else r) (tab_rows t)"
  by (simp add: update_rows_def)

lemma rows_delete_rows [simp]: "tab_rows (delete_rows P t) = filter (\<lambda>r. \<not> P r) (tab_rows t)"
  by (simp add: delete_rows_def)

lemma newest_one: "newest (Suc 0) rows = (if rows = [] then [] else [last rows])"
  by (cases rows rule: rev_cases) (simp_all add: newest_def)

section \<open>The audit chain\<close>

lemma audit_all_append:
  "audit_all org' (audit_append js clk org actor action target payload s) =
     audit_all org' s @ (if org' = org then [let prev = last_hash (audit_all org s);
        payload_json = js_sorted js (PDict payload) in
        \<lparr>au_id = tab_seq (st_audit s) + 1, au_ts = clk 0, au_actor = actor, au_action = action, au_target = target,
         au_payload = payload_json, au_prev = prev,
         au_hash = sha256_hexdigest (prev @ bar @ clk 0 @ bar @ actor @ bar @ action @ bar @ target @ bar @ payload_json),
         au_org = org\<rparr>] else [])"
  by (simp add: audit_all_def audit_append_def select_rows_def Let_def newest_one last_hash_def)

lemma audit_append_valid:
  assumes "ch_valid (verify_chain (audit_all org' s))"
  shows "ch_valid (verify_chain (audit_all org' (audit_append js clk org actor action target payload s)))"
  using assms by (cases "org' = org") (simp_all add: audit_all_append verify_chain_append Let_def entry_hash_def entry_basis_def)

lemma audit_append_frame [simp]:
  "st_contracts (audit_append js clk org actor action target payload s) = st_contracts s"
  "st_findings (audit_append js clk org actor action target payload s) = st_findings s"
  "st_runs (audit_append js clk org actor action target payload s) = st_runs s"
  "st_events (audit_append js clk org actor action target payload s) = st_events s"
  "st_approvals (audit_append js clk org actor action target payload s) = st_approvals s"
  "st_freezes (audit_append js clk org actor action target payload s) = st_freezes s"
  by (simp_all add: audit_append_def Let_def)

lemma audit_all_cong: "st_audit s = st_audit t \<Longrightarrow> audit_all org s = audit_all org t"
  by (simp add: audit_all_def)

section \<open>Steps and reachable stores\<close>

inductive store_step :: "json_lib \<Rightarrow> store \<Rightarrow> store \<Rightarrow> bool" for js where
  publish: "publish_contract js clk org title version proto spec who s = Inr (i, t) \<Longrightarrow> store_step js s t"
| findings: "store_step js s (snd (add_findings clk contract fs s))"
| run_update: "store_step js s (update_run clk i status res s)"
| run_cancel: "store_step js s (snd (cancel_run clk i s))"
| run_record: "store_step js s (snd (record_run clk org n s))"
| run_event: "store_step js s (append_run_event clk i message pct s)"
| run_claim: "store_step js s (snd (claim_next_run clk org worker s))"
| approval_request: "store_step js s (snd (request_approval clk org title v w why who guide s))"
| approval_decide: "decide_approval clk i decision who s = Inr (ok, t) \<Longrightarrow> store_step js s t"
| audit: "store_step js s (audit_append js clk org actor action target payload s)"
| freeze_on: "store_step js s (snd (freeze js clk org actor reason review_by s))"
| freeze_off: "store_step js s (snd (lift_freeze js clk org actor reason s))"
| org_create: "create_org clk name s = Inr (i, t) \<Longrightarrow> store_step js s t"
| user_add: "add_user org u s = Inr (i, t) \<Longrightarrow> store_step js s t"
| worker: "store_step js s (snd (register_worker clk org name labels capacity s))"
| environment: "store_step js s (snd (register_environment org e s))"
| policy: "store_step js s (set_policy clk org name content s)"
| webhook: "store_step js s (snd (register_webhook clk org url secret_ref events s))"
| purge: "store_step js s (purge_older_than cutoff s)"

inductive reachable_store :: "json_lib \<Rightarrow> store \<Rightarrow> bool" for js where
  start: "reachable_store js empty_store"
| step: "reachable_store js s \<Longrightarrow> store_step js s t \<Longrightarrow> reachable_store js t"

lemmas store_method_defs = publish_contract_def add_findings_def update_run_def cancel_run_def record_run_def
  append_run_event_def claim_next_run_def request_approval_def decide_approval_def purge_older_than_def
  create_org_def add_user_def register_worker_def register_environment_def set_policy_def register_webhook_def

subsection \<open>Chains stay valid\<close>

definition chains_valid :: "store \<Rightarrow> bool" where
  "chains_valid s \<longleftrightarrow> (\<forall>org. ch_valid (verify_chain (audit_all org s)))"

lemma chains_valid_cong: "st_audit t = st_audit s \<Longrightarrow> chains_valid s \<Longrightarrow> chains_valid t"
  by (simp add: chains_valid_def audit_all_def)

lemma chains_valid_append: "chains_valid s \<Longrightarrow> chains_valid (audit_append js clk org actor action target payload s)"
  by (simp add: chains_valid_def audit_append_valid)

lemma store_step_chains: "store_step js s t \<Longrightarrow> chains_valid s \<Longrightarrow> chains_valid t"
proof (induction rule: store_step.induct)
  case (freeze_on s clk org actor reason review_by)
  then show ?case
    by (auto simp: freeze_def Let_def intro!: chains_valid_append elim: chains_valid_cong [rotated])
next
  case (freeze_off s clk org actor reason)
  then show ?case
    by (auto simp: lift_freeze_def Let_def intro!: chains_valid_append elim: chains_valid_cong [rotated] split: list.splits)
next
  case (audit s clk org actor action target payload)
  then show ?case by (intro chains_valid_append)
qed (auto elim!: chains_valid_cong [rotated] simp: store_method_defs Let_def split_beta split: option.splits if_splits)

subsection \<open>At most one open freeze\<close>

definition open_freezes :: "int \<Rightarrow> store \<Rightarrow> freeze_row list" where
  "open_freezes org s = select_rows (open_freeze org) (st_freezes s)"

definition freezes_ok :: "store \<Rightarrow> bool" where
  "freezes_ok s \<longleftrightarrow> ids_increase fz_id (st_freezes s) \<and> (\<forall>org. length (open_freezes org s) \<le> 1)"

lemma freezes_ok_cong: "st_freezes t = st_freezes s \<Longrightarrow> freezes_ok s \<Longrightarrow> freezes_ok t"
  by (simp add: freezes_ok_def open_freezes_def)

lemma freeze_state_active: "fs_active (freeze_state now org s) \<longleftrightarrow> open_freezes org s \<noteq> []"
  by (auto simp: freeze_state_def open_freezes_def newest_one not_frozen_def)

lemma freeze_rows:
  "st_freezes (snd (freeze js clk org actor reason review_by s)) =
     (if open_freezes org s \<noteq> [] then st_freezes s
      else snd (insert_row (\<lambda>i. \<lparr>fz_id = i, fz_org = org, fz_reason = reason, fz_actor = actor,
        fz_created_at = clk 1, fz_review_by = review_by, fz_lifted_at = None, fz_lifted_by = None,
        fz_lift_reason = None\<rparr>) (st_freezes s)))"
  by (simp add: freeze_def Let_def freeze_state_active)

lemma open_freezes_freeze:
  "open_freezes org' (snd (freeze js clk org actor reason review_by s)) =
     open_freezes org' s @ (if org' = org \<and> open_freezes org s = [] then
       [\<lparr>fz_id = tab_seq (st_freezes s) + 1, fz_org = org, fz_reason = reason, fz_actor = actor, fz_created_at = clk 1,
         fz_review_by = review_by, fz_lifted_at = None, fz_lifted_by = None, fz_lift_reason = None\<rparr>] else [])"
  by (auto simp: freeze_rows open_freezes_def select_rows_def open_freeze_def)

lemma lift_rows:
  "st_freezes (snd (lift_freeze js clk org actor reason s)) =
     (if open_freezes org s = [] then st_freezes s
      else update_rows (\<lambda>f. fz_id f = fz_id (last (open_freezes org s)))
        (\<lambda>f. f\<lparr>fz_lifted_at := Some (clk 0), fz_lifted_by := Some actor, fz_lift_reason := Some reason\<rparr>) (st_freezes s))"
  by (simp add: lift_freeze_def open_freezes_def newest_one Let_def)

lemma filter_close_subset:
  assumes "\<And>f. open_freeze org (g f) \<Longrightarrow> open_freeze org f \<and> g f = f"
  shows "filter (open_freeze org) (map g fs) = filter (\<lambda>f. open_freeze org f \<and> open_freeze org (g f)) fs"
  using assms by (induction fs) auto

lemma open_freezes_lift:
  assumes "freezes_ok s"
  shows "open_freezes org' (snd (lift_freeze js clk org actor reason s)) = (if org' = org then [] else open_freezes org' s)"
proof (cases "open_freezes org s = []")
  case True
  then show ?thesis by (auto simp: open_freezes_def lift_rows [unfolded open_freezes_def])
next
  case False
  let ?row = "last (open_freezes org s)"
  let ?close = "\<lambda>f. if fz_id f = fz_id ?row then f\<lparr>fz_lifted_at := Some (clk 0), fz_lifted_by := Some actor,
    fz_lift_reason := Some reason\<rparr> else f"
  have row: "?row \<in> set (tab_rows (st_freezes s))" "fz_org ?row = org" "fz_lifted_at ?row = None"
    using last_in_set [OF False] by (auto simp: open_freezes_def select_rows_def open_freeze_def)
  have same: "f = ?row" if "f \<in> set (tab_rows (st_freezes s))" "fz_id f = fz_id ?row" for f
  proof -
    have "distinct (map fz_id (tab_rows (st_freezes s)))"
      using assms unfolding freezes_ok_def ids_increase_def by (metis strict_sorted_iff)
    with that row(1) show ?thesis by (auto simp: distinct_map inj_on_def)
  qed
  have closed: "open_freezes org' (snd (lift_freeze js clk org actor reason s)) =
      filter (\<lambda>f. open_freeze org' f \<and> fz_id f \<noteq> fz_id ?row) (tab_rows (st_freezes s))"
  proof -
    have "filter (open_freeze org') (map ?close fs) = filter (\<lambda>f. open_freeze org' f \<and> open_freeze org' (?close f)) fs" for fs
      by (rule filter_close_subset) (simp add: open_freeze_def split: if_splits)
    also have "\<dots> fs = filter (\<lambda>f. open_freeze org' f \<and> fz_id f \<noteq> fz_id ?row) fs" for fs
      by (rule filter_cong) (auto simp: open_freeze_def)
    finally show ?thesis using False by (simp add: open_freezes_def [of org'] select_rows_def lift_rows)
  qed
  show ?thesis
  proof (cases "org' = org")
    case True
    have "open_freezes org s = [?row]"
    proof -
      have "length (open_freezes org s) \<le> 1" using assms by (simp add: freezes_ok_def)
      with False show ?thesis by (cases "open_freezes org s") auto
    qed
    then have "set (open_freezes org s) = {?row}" by (metis list.set(1) list.set(2))
    moreover have "f \<in> set (open_freezes org s)" if "f \<in> set (tab_rows (st_freezes s))" "open_freeze org f" for f
      using that by (simp add: open_freezes_def select_rows_def)
    ultimately have "f = ?row" if "f \<in> set (tab_rows (st_freezes s))" "open_freeze org f" for f
      using that by blast
    then show ?thesis unfolding closed using True by (auto simp: filter_empty_conv)
  next
    case False
    have "open_freeze org' f \<and> fz_id f \<noteq> fz_id ?row \<longleftrightarrow> open_freeze org' f" if "f \<in> set (tab_rows (st_freezes s))" for f
      using same [OF that] row(2) False by (auto simp: open_freeze_def)
    then show ?thesis unfolding closed using False by (simp add: open_freezes_def select_rows_def cong: filter_cong)
  qed
qed

lemma store_step_freezes: "store_step js s t \<Longrightarrow> freezes_ok s \<Longrightarrow> freezes_ok t"
proof (induction rule: store_step.induct)
  case (freeze_on s clk org actor reason review_by)
  have "ids_increase fz_id (st_freezes (snd (freeze js clk org actor reason review_by s)))"
    using freeze_on by (auto simp: freeze_rows freezes_ok_def intro: ids_increase_insert)
  moreover have "length (open_freezes org' (snd (freeze js clk org actor reason review_by s))) \<le> 1" for org'
    using freeze_on by (auto simp: freezes_ok_def open_freezes_freeze)
  ultimately show ?case by (simp add: freezes_ok_def)
next
  case (freeze_off s clk org actor reason)
  have "ids_increase fz_id (st_freezes (snd (lift_freeze js clk org actor reason s)))"
    using freeze_off by (auto simp: lift_rows freezes_ok_def intro: ids_increase_update)
  moreover have "length (open_freezes org' (snd (lift_freeze js clk org actor reason s))) \<le> 1" for org'
    using freeze_off open_freezes_lift [OF freeze_off] by (simp add: freezes_ok_def)
  ultimately show ?case by (simp add: freezes_ok_def)
qed (auto elim!: freezes_ok_cong [rotated] simp: store_method_defs Let_def split_beta split: option.splits if_splits)

subsection \<open>The audit log only grows\<close>

lemma prefix_audit_append: "prefix (audit_all org s) (audit_all org (audit_append js clk org' actor action target payload s))"
  by (simp add: audit_all_append)

lemma freeze_audit:
  "audit_all org (snd (freeze js clk org' actor reason review_by s)) =
     (if open_freezes org' s \<noteq> [] then audit_all org s
      else audit_all org (audit_append js (\<lambda>i. clk (i + 2)) org' actor FROZEN (''org:'' @ int_str org')
             [(''reason'', PStr reason)] s))"
  by (simp add: freeze_def Let_def freeze_state_active audit_all_append audit_all_def audit_append_def)

lemma lift_freeze_audit:
  "audit_all org (snd (lift_freeze js clk org' actor reason s)) =
     (if open_freezes org' s = [] then audit_all org s
      else audit_all org (audit_append js (\<lambda>i. clk (Suc i)) org' actor LIFTED (''org:'' @ int_str org')
             [(''reason'', PStr reason)] s))"
  by (simp add: lift_freeze_def open_freezes_def newest_one Let_def audit_all_append audit_all_def audit_append_def)

lemma store_step_audit: "store_step js s t \<Longrightarrow> prefix (audit_all org s) (audit_all org t)"
proof (induction rule: store_step.induct)
  case (freeze_on s clk org' actor reason review_by)
  show ?case by (simp add: freeze_audit prefix_audit_append)
next
  case (freeze_off s clk org' actor reason)
  show ?case by (simp add: lift_freeze_audit prefix_audit_append)
next
  case (audit s clk org' actor action target payload)
  show ?case by (rule prefix_audit_append)
qed (auto simp: store_method_defs audit_all_def Let_def split_beta split: option.splits if_splits)

lemma store_steps_audit: "(store_step js)\<^sup>*\<^sup>* s t \<Longrightarrow> prefix (audit_all org s) (audit_all org t)"
  by (induction rule: rtranclp_induct) (auto intro: store_step_audit prefix_order.trans)

lemma reachable_steps: "(store_step js)\<^sup>*\<^sup>* s t \<Longrightarrow> reachable_store js s \<Longrightarrow> reachable_store js t"
  by (induction rule: rtranclp_induct) (auto intro: reachable_store.step)

lemma reachable_chains: "reachable_store js s \<Longrightarrow> chains_valid s"
proof (induction rule: reachable_store.induct)
  case start
  show ?case by (simp add: chains_valid_def audit_all_def empty_store_def empty_table_def select_rows_def)
qed (rule store_step_chains)

lemma reachable_freezes: "reachable_store js s \<Longrightarrow> freezes_ok s"
proof (induction rule: reachable_store.induct)
  case start
  show ?case
    by (simp add: freezes_ok_def open_freezes_def empty_store_def select_rows_def) (simp add: empty_table_def)
qed (rule store_step_freezes)

section \<open>Exports of a reachable store\<close>

lemma build_export_chain:
  assumes "ch_valid (verify_chain entries)"
  shows "chain_problems (build_export h org name entries at version key) (map audit_entry.truncate entries) = []"
  using assms by (auto simp: chain_problems_def build_export_def Let_def verify_chain_truncate split: option.split)

lemma build_export_fields:
  "ex_schema (build_export h org name entries at version key) = Some EXPORT_SCHEMA"
  "ex_entries (build_export h org name entries at version key) = Some (map audit_entry.truncate entries)"
  "ex_org_id (build_export h org name entries at version key) = Some org"
  by (simp_all add: build_export_def Let_def split: option.split)

lemma build_export_seal:
  "seal_check h (build_export h org name entries at version key) key = (if key = None then ''absent'' else ''valid'', [])"
  by (simp add: seal_check_def build_export_def seal_def Let_def split: option.split)

lemma first_rewritten_prefix: "prefix bs ns \<Longrightarrow> first_rewritten i bs ns = None"
  by (induction i bs ns rule: first_rewritten.induct) auto

lemma continuity_prefix:
  assumes "prefix earlier later"
  shows "snd (continuity_of (build_export h org name later at version key)
    (build_export h org name' earlier at' version' key')) = []"
proof -
  have "prefix (map audit_entry.truncate earlier) (map audit_entry.truncate later)"
    using assms by (rule map_mono_prefix)
  with assms show ?thesis
    by (simp add: continuity_of_def build_export_fields first_rewritten_prefix not_less prefix_length_le)
qed

lemma audit_exports_verify:
  assumes "reachable_store js s" and "(store_step js)\<^sup>*\<^sup>* s t"
  shows "ev_ok (verify_export h (audit_export h v clk name org key t) key
    (Some (audit_export h v' clk' name' org key' s)))"
proof -
  have "chains_valid t" by (rule reachable_chains [OF reachable_steps [OF assms(2,1)]])
  then have "ch_valid (verify_chain (audit_all org t))" by (simp add: chains_valid_def)
  with store_steps_audit [OF assms(2)] show ?thesis
    by (simp add: audit_export_def verify_export_ok build_export_fields build_export_chain build_export_seal continuity_prefix)
qed

lemma audit_export_seal:
  "fst (seal_check h (audit_export h v clk name org key s) key) = (if key = None then ''absent'' else ''valid'')"
  by (simp add: audit_export_def build_export_seal)

end
