(* ===== verification/JobQueue.thy ===== *)
theory JobQueue
  imports StoreFacts
begin

text \<open>
  The job queue: src/apiverity/server/jobs.py over the runs of the store. A call is an event;
  a history of calls is a list of events, each with the clock readings it makes. The locale
  \<open>load_limited\<close> is the contract of an admission limit, interpreted on the queue.
\<close>

section \<open>Operations\<close>

datatype queue_full = QueueFull int int

record new_job =
  nj_kind :: string
  nj_requested_by :: string
  nj_verification_for :: "string option"
  nj_environment :: "string option"
  nj_idempotency_key :: "string option"

text \<open>The run an idempotent replay answers with.\<close>

definition replayed :: "int \<Rightarrow> new_job \<Rightarrow> store \<Rightarrow> run_row option" where
  "replayed org j s =
     (case nj_idempotency_key j of
        None \<Rightarrow> None
      | Some k \<Rightarrow> if k = [] then None else (case find_run_by_idempotency_key org k s of
            None \<Rightarrow> None
          | Some r \<Rightarrow> if rn_status r \<in> {''cancelled'', ''failed''} then None else Some r))"

text \<open>The part of \<open>enqueue\<close> after the limit was checked.\<close>

definition enqueue_admitted :: "clock \<Rightarrow> int \<Rightarrow> new_job \<Rightarrow> store \<Rightarrow> int \<times> store" where
  "enqueue_admitted clk org j s =
     (let (i, s) = record_run clk org \<lparr>nr_kind = nj_kind j, nr_requested_by = nj_requested_by j, nr_result = None,
            nr_status = ''queued'', nr_verification_for = nj_verification_for j,
            nr_environment = nj_environment j, nr_idempotency_key = nj_idempotency_key j\<rparr> s
      in (i, append_run_event (\<lambda>n. clk (Suc n)) i
            (''queued '' @ quoted (nj_kind j) @ '' by '' @ nj_requested_by j) (Some 0) s))"

definition enqueue :: "int \<Rightarrow> clock \<Rightarrow> int \<Rightarrow> new_job \<Rightarrow> store \<Rightarrow> (queue_full + int \<times> bool) \<times> store" where
  "enqueue max_active clk org j s =
     (case replayed org j s of
        Some r \<Rightarrow> (Inr (rn_id r, False), s)
      | None \<Rightarrow>
          if int (active_run_count org s) \<ge> max_active then (Inl (QueueFull org max_active), s)
          else let (i, s) = enqueue_admitted clk org j s in (Inr (i, True), s))"

definition claim :: "clock \<Rightarrow> int \<Rightarrow> string \<Rightarrow> store \<Rightarrow> run_row option \<times> store" where
  "claim = claim_next_run"

definition progress :: "clock \<Rightarrow> int \<Rightarrow> string \<Rightarrow> int option \<Rightarrow> store \<Rightarrow> store" where
  "progress = append_run_event"

definition complete :: "clock \<Rightarrow> int \<Rightarrow> string option \<Rightarrow> bool \<Rightarrow> store \<Rightarrow> store" where
  "complete clk i res passed s =
     (let status = (if passed then ''passed'' else ''failed'') in
      append_run_event (\<lambda>n. clk (Suc n)) i (''finished: '' @ status) (Some 100) (update_run clk i status res s))"

definition cancel :: "clock \<Rightarrow> int \<Rightarrow> store \<Rightarrow> bool \<times> store" where
  "cancel clk i s =
     (let (done, t) = cancel_run clk i s in
      if done then (True, append_run_event (\<lambda>n. clk (Suc n)) i ''cancelled'' None t) else (False, t))"

datatype queue_event =
    Enqueue clock int new_job
  | Claim clock int string
  | Progress clock int string "int option"
  | Complete clock int "string option" bool
  | Cancel clock int

fun queue_act :: "int \<Rightarrow> queue_event \<Rightarrow> store \<Rightarrow> store" where
  "queue_act m (Enqueue clk org j) s = snd (enqueue m clk org j s)"
| "queue_act m (Claim clk org worker) s = snd (claim clk org worker s)"
| "queue_act m (Progress clk i message pct) s = progress clk i message pct s"
| "queue_act m (Complete clk i res passed) s = complete clk i res passed s"
| "queue_act m (Cancel clk i) s = snd (cancel clk i s)"

text \<open>The runs that the claims of a history hand out to workers of an organisation.\<close>

fun claimed_now :: "int \<Rightarrow> queue_event \<Rightarrow> store \<Rightarrow> int list" where
  "claimed_now org (Claim clk org' worker) s =
     (if org' = org then map rn_id (case fst (claim clk org' worker s) of None \<Rightarrow> [] | Some r \<Rightarrow> [r]) else [])"
| "claimed_now org e s = []"

fun claimed_runs :: "int \<Rightarrow> int \<Rightarrow> queue_event list \<Rightarrow> store \<Rightarrow> int list" where
  "claimed_runs m org [] s = []"
| "claimed_runs m org (e # es) s = claimed_now org e s @ claimed_runs m org es (queue_act m e s)"

section \<open>Runs\<close>

lemma append_run_event_frame [simp]:
  "st_runs (append_run_event clk i message pct s) = st_runs s"
  "st_freezes (append_run_event clk i message pct s) = st_freezes s"
  "st_audit (append_run_event clk i message pct s) = st_audit s"
  by (simp_all add: append_run_event_def)

lemma update_run_rows:
  "tab_rows (st_runs (update_run clk i status res s)) = map (\<lambda>r. if rn_id r = i then r\<lparr>rn_status := status,
     rn_result := (if res = None then rn_result r else res), rn_updated_at := clk 0\<rparr> else r) (tab_rows (st_runs s))"
  by (simp add: update_run_def)

lemma active_count_update:
  assumes "status \<notin> {''queued'', ''running''}"
  shows "active_run_count org (update_run clk i status res s) \<le> active_run_count org s"
proof -
  have "length (filter (active_in org) (map (\<lambda>r. if rn_id r = i then r\<lparr>rn_status := status,
      rn_result := (if res = None then rn_result r else res), rn_updated_at := clk 0\<rparr> else r) rs))
    \<le> length (filter (active_in org) rs)" for rs
    using assms by (induction rs) (auto simp: active_in_def)
  then show ?thesis by (simp add: active_run_count_def select_rows_def update_run_rows)
qed

lemma active_count_frame:
  "st_runs s = st_runs t \<Longrightarrow> active_run_count org s = active_run_count org t"
  by (simp add: active_run_count_def)

lemma active_count_cancel: "active_run_count org (snd (cancel_run clk i s)) \<le> active_run_count org s"
  by (auto simp: cancel_run_def active_count_update split: option.splits)

definition start_row :: "clock \<Rightarrow> string \<Rightarrow> run_row \<Rightarrow> run_row" where
  "start_row clk worker r = r\<lparr>rn_status := ''running'', rn_worker := Some worker, rn_updated_at := clk 0\<rparr>"

lemma start_row_fields [simp]:
  "rn_id (start_row clk worker r) = rn_id r" "rn_org (start_row clk worker r) = rn_org r"
  "rn_status (start_row clk worker r) = ''running''"
  "rn_idempotency_key (start_row clk worker r) = rn_idempotency_key r"
  by (simp_all add: start_row_def)

lemma claim_rows:
  "st_runs (snd (claim clk org worker s)) =
     (case fetchone (select_rows (queued_in org) (st_runs s)) of
        None \<Rightarrow> st_runs s
      | Some row \<Rightarrow> update_rows (\<lambda>r. rn_id r = rn_id row) (start_row clk worker) (st_runs s))"
  by (simp add: claim_def claim_next_run_def Let_def start_row_def [abs_def] split: option.split)

lemma fetchone_filter_SomeD: "fetchone (filter P xs) = Some x \<Longrightarrow> x \<in> set xs \<and> P x"
  by (auto simp: fetchone_def filter_eq_Cons_iff split: list.splits)

lemma fetchone_filter_None: "fetchone (filter P xs) = None \<longleftrightarrow> (\<forall>x \<in> set xs. \<not> P x)"
proof (cases "filter P xs")
  case (Cons y ys)
  then have "y \<in> {x \<in> set xs. P x}" by (metis list.set_intros(1) set_filter)
  with Cons show ?thesis by (auto simp: fetchone_def)
qed (simp add: fetchone_def filter_empty_conv)

definition runs_ok :: "store \<Rightarrow> bool" where
  "runs_ok s \<longleftrightarrow> ids_increase rn_id (st_runs s)"

lemma runs_ok_same: "runs_ok s \<Longrightarrow> r \<in> set (tab_rows (st_runs s)) \<Longrightarrow> q \<in> set (tab_rows (st_runs s))
  \<Longrightarrow> rn_id r = rn_id q \<Longrightarrow> r = q"
  unfolding runs_ok_def ids_increase_def by (metis distinct_map inj_on_def strict_sorted_iff)

lemma active_count_claim:
  assumes "runs_ok s"
  shows "active_run_count org' (snd (claim clk org worker s)) = active_run_count org' s"
proof (cases "fetchone (select_rows (queued_in org) (st_runs s))")
  case None
  then show ?thesis by (simp add: active_run_count_def claim_rows)
next
  case (Some row)
  from Some have row: "row \<in> set (tab_rows (st_runs s))" "queued_in org row"
    unfolding select_rows_def by (auto dest: fetchone_filter_SomeD)
  have same: "active_in org' (if rn_id r = rn_id row then start_row clk worker r else r) = active_in org' r"
    if "r \<in> set (tab_rows (st_runs s))" for r
    using runs_ok_same [OF assms that row(1)] row(2) by (auto simp: active_in_def queued_in_def)
  have "length (filter (active_in org') (map g rs)) = length (filter (active_in org') rs)"
    if "\<And>r. r \<in> set rs \<Longrightarrow> active_in org' (g r) = active_in org' r" for g :: "run_row \<Rightarrow> run_row" and rs
    using that by (induction rs) auto
  from this [of "tab_rows (st_runs s)", OF same] show ?thesis
    by (simp add: active_run_count_def select_rows_def claim_rows Some [unfolded select_rows_def])
qed

lemma record_run_rows:
  "tab_rows (st_runs (snd (record_run clk org n s))) = tab_rows (st_runs s) @
     (if Option.bind (nr_idempotency_key n) (\<lambda>k. find_run_by_idempotency_key org k s) = None then
        [\<lparr>rn_id = tab_seq (st_runs s) + 1, rn_org = org, rn_kind = nr_kind n, rn_status = nr_status n,
          rn_requested_by = nr_requested_by n, rn_result = nr_result n, rn_verification_for = nr_verification_for n,
          rn_environment = nr_environment n, rn_created_at = clk 0, rn_updated_at = clk 0, rn_worker = None,
          rn_idempotency_key = nr_idempotency_key n\<rparr>] else [])"
  by (simp add: record_run_def Let_def split_beta split: option.split)

lemma runs_ok_record: "runs_ok s \<Longrightarrow> runs_ok (snd (record_run clk org n s))"
  by (auto simp: runs_ok_def record_run_def Let_def split_beta intro: ids_increase_insert split: option.split)

lemma runs_ok_update: "runs_ok s \<Longrightarrow> runs_ok (update_run clk i status res s)"
  by (auto simp: runs_ok_def update_run_def intro: ids_increase_update)

lemma runs_ok_frame: "st_runs t = st_runs s \<Longrightarrow> runs_ok s \<Longrightarrow> runs_ok t"
  by (simp add: runs_ok_def)

lemma enqueue_admitted_runs:
  "st_runs (snd (enqueue_admitted clk org j s)) = st_runs (snd (record_run clk org \<lparr>nr_kind = nj_kind j,
     nr_requested_by = nj_requested_by j, nr_result = None, nr_status = ''queued'',
     nr_verification_for = nj_verification_for j, nr_environment = nj_environment j,
     nr_idempotency_key = nj_idempotency_key j\<rparr> s))"
  by (simp add: enqueue_admitted_def Let_def split_beta)

lemma active_count_enqueue_admitted:
  "active_run_count org' (snd (enqueue_admitted clk org j s)) \<le> active_run_count org' s + (if org' = org then 1 else 0)"
  by (auto simp: active_run_count_def select_rows_def enqueue_admitted_runs record_run_rows active_in_def)

lemma runs_ok_act: "runs_ok s \<Longrightarrow> runs_ok (queue_act m e s)"
proof (cases e)
  case (Enqueue clk org j)
  assume "runs_ok s"
  then have "runs_ok (snd (enqueue_admitted clk org j s))"
    using runs_ok_record runs_ok_frame [OF enqueue_admitted_runs] by blast
  with \<open>runs_ok s\<close> show ?thesis by (simp add: Enqueue enqueue_def Let_def split_beta split: option.split)
next
  case (Claim clk org worker)
  assume "runs_ok s"
  then show ?thesis by (auto simp: Claim runs_ok_def claim_rows intro: ids_increase_update split: option.split)
next
  case (Cancel clk i)
  assume "runs_ok s"
  then have "runs_ok (snd (cancel_run clk i s))"
    by (auto simp: cancel_run_def intro: runs_ok_update split: option.split)
  then show ?thesis by (auto simp: Cancel cancel_def Let_def split_beta elim: runs_ok_frame [rotated])
qed (auto simp: progress_def complete_def Let_def runs_ok_def update_run_def intro: ids_increase_update)

section \<open>The limit on active runs\<close>

locale load_limited =
  fixes ok :: "'s \<Rightarrow> bool" and load :: "'s \<Rightarrow> nat" and cap :: nat and act :: "'e \<Rightarrow> 's \<Rightarrow> 's"
  assumes act_ok: "ok s \<Longrightarrow> ok (act e s)"
    and act_load: "ok s \<Longrightarrow> load (act e s) \<le> max cap (load s)"
begin

lemma history_ok: "ok s \<Longrightarrow> ok (fold act es s)"
  by (induction es arbitrary: s) (simp_all add: act_ok)

lemma history_load: "ok s \<Longrightarrow> load s \<le> cap \<Longrightarrow> load (fold act es s) \<le> cap"
proof (induction es arbitrary: s)
  case (Cons e es)
  have "load (act e s) \<le> cap" using act_load [OF Cons.prems(1), of e] Cons.prems(2) by simp
  with Cons.IH [OF act_ok [OF Cons.prems(1)]] show ?case by simp
qed simp

end

lemma queue_act_load:
  assumes "runs_ok s"
  shows "active_run_count org (queue_act m e s) \<le> max (nat m) (active_run_count org s)"
proof (cases e)
  case (Enqueue clk org' j)
  have "active_run_count org (snd (enqueue_admitted clk org' j s)) \<le> max (nat m) (active_run_count org s)"
    if "\<not> int (active_run_count org' s) \<ge> m"
    using active_count_enqueue_admitted [of org clk org' j s] that by (auto split: if_splits)
  then show ?thesis by (auto simp: Enqueue enqueue_def Let_def split_beta split: option.split)
next
  case (Claim clk org' worker)
  then show ?thesis using active_count_claim [OF assms, of org clk org' worker] by simp
next
  case (Progress clk i message pct)
  then show ?thesis by (simp add: progress_def active_run_count_def)
next
  case (Complete clk i res passed)
  have "active_run_count org (complete clk i res passed s) \<le> active_run_count org s"
    using active_count_update [of "if passed then ''passed'' else ''failed''" org clk i res s]
    by (simp add: complete_def Let_def active_run_count_def split: if_splits)
  then show ?thesis by (simp add: Complete)
next
  case (Cancel clk i)
  then show ?thesis using active_count_cancel [of org clk i s]
    by (auto simp: cancel_def Let_def split_beta active_run_count_def)
qed

interpretation job_limit: load_limited runs_ok "active_run_count org" "nat m" "queue_act m" for org m
  by unfold_locales (simp_all add: runs_ok_act queue_act_load)

end
