(* ===== verification/QueueFacts.thy ===== *)
theory QueueFacts
  imports JobQueue
begin

text \<open>
  How the queue serves its runs: in the order of their identifiers, each to one worker only,
  and every queued run after finitely many claims; what an idempotent retry gives back; and
  what \<open>complete\<close> does to a run that was cancelled.
\<close>

section \<open>Order of service\<close>

text \<open>All runs waiting in an organisation are newer than a given one.\<close>

definition waiting_after :: "int \<Rightarrow> int \<Rightarrow> store \<Rightarrow> bool" where
  "waiting_after org i s \<longleftrightarrow> (\<forall>r \<in> set (tab_rows (st_runs s)). queued_in org r \<longrightarrow> i < rn_id r) \<and> i \<le> tab_seq (st_runs s)"

lemma waiting_after_frame: "st_runs t = st_runs s \<Longrightarrow> waiting_after org i s \<Longrightarrow> waiting_after org i t"
  by (simp add: waiting_after_def)

lemma waiting_after_update:
  "status \<noteq> ''queued'' \<Longrightarrow> waiting_after org i s \<Longrightarrow> waiting_after org i (update_run clk j status res s)"
  by (auto simp: waiting_after_def update_run_rows queued_in_def) (simp_all add: update_run_def update_rows_def)

lemma record_run_seq: "tab_seq (st_runs (snd (record_run clk org n s))) \<ge> tab_seq (st_runs s)"
  by (auto simp: record_run_def Let_def insert_row_def split: option.split)

lemma waiting_after_record: "waiting_after org i s \<Longrightarrow> waiting_after org i (snd (record_run clk org' n s))"
  using record_run_seq [of s clk org' n] by (auto simp: waiting_after_def record_run_rows split: if_splits)

lemma waiting_after_claim:
  assumes "waiting_after org i s"
  shows "waiting_after org i (snd (claim clk org' worker s))"
  using assms by (auto simp: waiting_after_def claim_rows queued_in_def update_rows_def split: option.split if_splits)

lemma waiting_after_act: "waiting_after org i s \<Longrightarrow> waiting_after org i (queue_act m e s)"
proof (cases e)
  case (Enqueue clk org' j)
  assume "waiting_after org i s"
  then have "waiting_after org i (snd (enqueue_admitted clk org' j s))"
    using waiting_after_record waiting_after_frame [OF enqueue_admitted_runs] by blast
  with \<open>waiting_after org i s\<close> show ?thesis
    by (simp add: Enqueue enqueue_def Let_def split_beta split: option.split)
next
  case (Claim clk org' worker)
  then show "waiting_after org i s \<Longrightarrow> ?thesis" by (simp add: waiting_after_claim)
next
  case (Cancel clk j)
  assume "waiting_after org i s"
  then have "waiting_after org i (snd (cancel_run clk j s))"
    by (auto simp: cancel_run_def intro: waiting_after_update split: option.split)
  then show ?thesis by (auto simp: Cancel cancel_def Let_def split_beta elim: waiting_after_frame [rotated])
qed (auto simp: progress_def complete_def Let_def elim: waiting_after_frame [rotated]
      intro!: waiting_after_frame [OF append_run_event_frame(1)] waiting_after_update)

text \<open>A claim takes the oldest waiting run, and leaves only newer ones waiting.\<close>

lemma claim_result:
  assumes "runs_ok s"
  shows "map_option rn_id (fst (claim clk org worker s)) =
    map_option rn_id (fetchone (filter (queued_in org) (tab_rows (st_runs s))))"
proof (cases "fetchone (filter (queued_in org) (tab_rows (st_runs s)))")
  case None
  then show ?thesis by (simp add: claim_def claim_next_run_def select_rows_def)
next
  case (Some row)
  then have row: "row \<in> set (tab_rows (st_runs s))" using fetchone_filter_SomeD by fastforce
  let ?rows = "map (\<lambda>r. if rn_id r = rn_id row then start_row clk worker r else r) (tab_rows (st_runs s))"
  have "start_row clk worker row \<in> set ?rows" using row by (auto simp: image_iff intro!: bexI [of _ row])
  then have "fetchone (filter (\<lambda>r. rn_id r = rn_id row) ?rows) \<noteq> None"
    unfolding fetchone_filter_None using start_row_fields(1) [of clk worker row] by blast
  then obtain q where q: "fetchone (filter (\<lambda>r. rn_id r = rn_id row) ?rows) = Some q" by blast
  then have "rn_id q = rn_id row" using fetchone_filter_SomeD [OF q] by simp
  with q [unfolded start_row_def] Some show ?thesis
    by (simp add: claim_def claim_next_run_def select_rows_def Let_def get_run_def)
qed

lemma oldest_waiting:
  assumes "runs_ok s" and "fetchone (filter (queued_in org) (tab_rows (st_runs s))) = Some row"
    and "r \<in> set (tab_rows (st_runs s))" and "queued_in org r"
  shows "rn_id row \<le> rn_id r"
proof -
  have sorted: "sorted_wrt (<) (map rn_id (filter (queued_in org) (tab_rows (st_runs s))))"
    using assms(1) unfolding runs_ok_def ids_increase_def sorted_wrt_map by (blast intro: sorted_wrt_filter)
  obtain rest where rest: "filter (queued_in org) (tab_rows (st_runs s)) = row # rest"
    using assms(2) by (auto simp: fetchone_def split: list.splits)
  have "r \<in> set (filter (queued_in org) (tab_rows (st_runs s)))" using assms(3,4) by simp
  with sorted show ?thesis unfolding rest by auto
qed

lemma claim_leaves_newer:
  assumes "runs_ok s" and "fst (claim clk org worker s) = Some r"
  shows "waiting_after org (rn_id r) (snd (claim clk org worker s))"
proof -
  obtain row where row: "fetchone (filter (queued_in org) (tab_rows (st_runs s))) = Some row" "rn_id row = rn_id r"
    using claim_result [OF assms(1), of clk org worker] assms(2)
    by (cases "fetchone (filter (queued_in org) (tab_rows (st_runs s)))") auto
  have member: "row \<in> set (tab_rows (st_runs s))" using fetchone_filter_SomeD [OF row(1)] by simp
  have newer: "rn_id row < rn_id q" if "q \<in> set (tab_rows (st_runs s))" "queued_in org q" "rn_id q \<noteq> rn_id row" for q
    using oldest_waiting [OF assms(1) row(1) that(1,2)] that(3) by simp
  have "rn_id row \<le> tab_seq (st_runs s)" using assms(1) member by (simp add: runs_ok_def ids_increase_def)
  with newer row show ?thesis
    by (auto simp: waiting_after_def claim_rows select_rows_def queued_in_def update_rows_def)
qed

lemma claim_takes_waiting:
  assumes "runs_ok s" and "fst (claim clk org worker s) = Some r"
  shows "\<exists>row \<in> set (tab_rows (st_runs s)). queued_in org row \<and> rn_id row = rn_id r"
proof -
  obtain row where row: "fetchone (filter (queued_in org) (tab_rows (st_runs s))) = Some row" "rn_id row = rn_id r"
    using claim_result [OF assms(1), of clk org worker] assms(2)
    by (cases "fetchone (filter (queued_in org) (tab_rows (st_runs s)))") auto
  with fetchone_filter_SomeD [OF row(1)] show ?thesis by blast
qed

lemma claimed_now_elim:
  assumes "claimed_now org e s = [] \<Longrightarrow> P"
    and "\<And>clk worker r. e = Claim clk org worker \<Longrightarrow> fst (claim clk org worker s) = Some r
      \<Longrightarrow> claimed_now org e s = [rn_id r] \<Longrightarrow> P"
  shows P
proof (cases e)
  case (Claim clk org' worker)
  show P
  proof (cases "org' = org")
    case True
    show P
    proof (cases "fst (claim clk org worker s)")
      case None
      with Claim True show P by (intro assms(1)) simp
    next
      case (Some r)
      with Claim True show P by (intro assms(2)) simp_all
    qed
  next
    case False
    with Claim show P by (intro assms(1)) simp
  qed
qed (auto intro: assms(1))

lemma claimed_after:
  assumes "runs_ok s" and "waiting_after org i s" and "j \<in> set (claimed_runs m org es s)"
  shows "i < j"
  using assms
proof (induction es arbitrary: s)
  case (Cons e es)
  have later: "i < j" if "j \<in> set (claimed_runs m org es (queue_act m e s))"
    using Cons.IH [OF runs_ok_act [OF Cons.prems(1)] waiting_after_act [OF Cons.prems(2)] that] .
  have now: "i < rn_id r" if "fst (claim clk org worker s) = Some r" for clk worker r
    using claim_takes_waiting [OF Cons.prems(1) that] Cons.prems(2) by (auto simp: waiting_after_def)
  show ?case
  proof (rule claimed_now_elim [of org e s])
    assume "claimed_now org e s = []"
    with Cons.prems(3) later show ?thesis by simp
  next
    fix clk worker r
    assume "fst (claim clk org worker s) = Some r" and "claimed_now org e s = [rn_id r]"
    with Cons.prems(3) later now [of clk worker r] show ?thesis by auto
  qed
qed simp

lemma claimed_runs_increase:
  assumes "runs_ok s"
  shows "sorted_wrt (<) (claimed_runs m org es s)"
  using assms
proof (induction es arbitrary: s)
  case (Cons e es)
  note IH = Cons.IH [OF runs_ok_act [OF Cons.prems], of m e]
  have now: "\<forall>j \<in> set (claimed_runs m org es (queue_act m (Claim clk org worker) s)). rn_id r < j"
    if "fst (claim clk org worker s) = Some r" for clk worker r
    using claimed_after [OF runs_ok_act [OF Cons.prems, of m "Claim clk org worker"], of org "rn_id r"]
      claim_leaves_newer [OF Cons.prems that] by simp
  show ?case
  proof (rule claimed_now_elim [of org e s])
    assume "claimed_now org e s = []"
    with IH show ?thesis by simp
  next
    fix clk worker r
    assume "e = Claim clk org worker" and "fst (claim clk org worker s) = Some r" and "claimed_now org e s = [rn_id r]"
    with IH now [of clk worker r] show ?thesis by simp
  qed
qed simp

text \<open>Claims alone serve the waiting runs one after the other.\<close>

lemma waiting_after_one_claim:
  assumes "runs_ok s"
  shows "map rn_id (filter (queued_in org) (tab_rows (st_runs (snd (claim clk org worker s))))) =
    tl (map rn_id (filter (queued_in org) (tab_rows (st_runs s))))"
proof (cases "filter (queued_in org) (tab_rows (st_runs s))")
  case Nil
  then show ?thesis by (simp add: claim_rows select_rows_def fetchone_def)
next
  case (Cons row rest)
  let ?rows = "tab_rows (st_runs s)"
  have dist: "distinct (map rn_id ?rows)" using assms unfolding runs_ok_def ids_increase_def by (metis strict_sorted_iff)
  have "map rn_id (filter (queued_in org) (map (\<lambda>r. if rn_id r = i then start_row clk worker r else r) rs))
      = filter (\<lambda>j. j \<noteq> i) (map rn_id (filter (queued_in org) rs))" for rs i
    by (induction rs) (auto simp: queued_in_def)
  then have after: "map rn_id (filter (queued_in org) (tab_rows (st_runs (snd (claim clk org worker s))))) =
      filter (\<lambda>j. j \<noteq> rn_id row) (map rn_id (filter (queued_in org) ?rows))"
    using Cons by (simp add: claim_rows select_rows_def fetchone_def)
  have "distinct (map rn_id (filter (queued_in org) ?rows))" using dist distinct_map_filter by blast
  then have "rn_id row \<notin> set (map rn_id rest)" unfolding Cons by simp
  then have "filter (\<lambda>j. j \<noteq> rn_id row) (map rn_id rest) = map rn_id rest" by (intro filter_True ballI) blast
  then show ?thesis unfolding after unfolding Cons by simp
qed

lemma claims_serve:
  assumes "runs_ok s"
  shows "claimed_runs m org (map (\<lambda>(clk, worker). Claim clk org worker) ws) s =
    take (length ws) (map rn_id (filter (queued_in org) (tab_rows (st_runs s))))"
  using assms
proof (induction ws arbitrary: s)
  case (Cons w ws)
  obtain clk worker where w: "w = (clk, worker)" by (cases w)
  let ?t = "snd (claim clk org worker s)"
  have t: "runs_ok ?t" using runs_ok_act [OF Cons.prems, of m "Claim clk org worker"] by simp
  have next_one: "map_option rn_id (fst (claim clk org worker s)) =
      map_option rn_id (fetchone (filter (queued_in org) (tab_rows (st_runs s))))"
    by (rule claim_result [OF Cons.prems])
  show ?case
  proof (cases "filter (queued_in org) (tab_rows (st_runs s))")
    case Nil
    with next_one Cons.IH [OF t] waiting_after_one_claim [OF Cons.prems, of org clk worker]
    show ?thesis by (simp add: w fetchone_def)
  next
    case (Cons row rest)
    with next_one Cons.IH [OF t] waiting_after_one_claim [OF Cons.prems, of org clk worker]
    show ?thesis by (auto simp: w fetchone_def split: option.splits)
  qed
qed simp

section \<open>Idempotency keys\<close>

text \<open>The run a key stands for, once there is one, is the same in every later state.\<close>

definition key_run :: "int \<Rightarrow> string \<Rightarrow> store \<Rightarrow> int option" where
  "key_run org k s = map_option rn_id (find_run_by_idempotency_key org k s)"

lemma fetchone_filter_map:
  "(\<And>r. P (g r) \<longleftrightarrow> P r) \<Longrightarrow> fetchone (filter P (map g rs)) = map_option g (fetchone (filter P rs))"
  by (induction rs) (simp_all add: fetchone_def)

lemma fetchone_append: "fetchone xs \<noteq> None \<Longrightarrow> fetchone (xs @ ys) = fetchone xs"
  by (cases xs) (simp_all add: fetchone_def)

lemma key_run_frame: "st_runs t = st_runs s \<Longrightarrow> key_run org k t = key_run org k s"
  by (simp add: key_run_def find_run_by_idempotency_key_def)

lemma fetchone_id_map:
  "(\<And>r. P (g r) \<longleftrightarrow> P r) \<Longrightarrow> (\<And>r. rn_id (g r) = rn_id r)
    \<Longrightarrow> map_option rn_id (fetchone (filter P (map g rs))) = map_option rn_id (fetchone (filter P rs))"
  by (induction rs) (simp_all add: fetchone_def)

lemma key_run_update: "key_run org k (update_run clk i status res s) = key_run org k s"
  unfolding key_run_def find_run_by_idempotency_key_def select_rows_def update_run_rows
  by (rule fetchone_id_map) simp_all

lemma key_run_claim: "key_run org k (snd (claim clk org' worker s)) = key_run org k s"
proof (cases "fetchone (select_rows (queued_in org') (st_runs s))")
  case (Some row)
  then show ?thesis
    unfolding key_run_def find_run_by_idempotency_key_def claim_rows select_rows_def option.simps rows_update_rows
    by (simp only: option.simps rows_update_rows, intro fetchone_id_map) simp_all
qed (simp add: key_run_def find_run_by_idempotency_key_def claim_rows)

lemma key_run_record: "key_run org k s = Some i \<Longrightarrow> key_run org k (snd (record_run clk org' n s)) = Some i"
  by (auto simp: key_run_def find_run_by_idempotency_key_def select_rows_def record_run_rows fetchone_append)

lemma key_run_act:
  assumes "key_run org k s = Some i"
  shows "key_run org k (queue_act m e s) = Some i"
proof (cases e)
  case (Enqueue clk org' j)
  have "key_run org k (snd (enqueue_admitted clk org' j s)) = Some i"
    using key_run_record [OF assms] key_run_frame [OF enqueue_admitted_runs] by metis
  with assms show ?thesis by (simp add: Enqueue enqueue_def Let_def split_beta split: option.split)
next
  case (Cancel clk j)
  have "key_run org k (snd (cancel_run clk j s)) = Some i"
    using assms by (auto simp: cancel_run_def key_run_update split: option.split)
  then show ?thesis
    by (auto simp: Cancel cancel_def Let_def split_beta key_run_frame [OF append_run_event_frame(1)])
qed (simp_all add: assms key_run_claim progress_def complete_def Let_def key_run_update
      key_run_frame [OF append_run_event_frame(1)])

lemma key_run_history: "key_run org k s = Some i \<Longrightarrow> key_run org k (fold (queue_act m) es s) = Some i"
  by (induction es arbitrary: s) (simp_all add: key_run_act)

text \<open>An enqueue under a key that has a run adds no run: not even when that run failed or was cancelled.\<close>

lemma enqueue_known_key:
  assumes "key_run org k s = Some i" and "nj_idempotency_key j = Some k" and "k \<noteq> []"
  shows "fst (enqueue m clk org j s) \<in> {Inr (i, False), Inr (i, True), Inl (QueueFull org m)}
    \<and> st_runs (snd (enqueue m clk org j s)) = st_runs s"
  using assms
  by (auto simp: key_run_def enqueue_def replayed_def enqueue_admitted_def record_run_def Let_def split: option.split)

lemma enqueue_dead_key:
  assumes "find_run_by_idempotency_key org k s = Some r" and "rn_status r \<in> {''cancelled'', ''failed''}"
    and "nj_idempotency_key j = Some k" and "k \<noteq> []" and "int (active_run_count org s) < m"
  shows "fst (enqueue m clk org j s) = Inr (rn_id r, True) \<and> st_runs (snd (enqueue m clk org j s)) = st_runs s"
  using assms by (auto simp: enqueue_def replayed_def enqueue_admitted_def record_run_def Let_def)

section \<open>Completion\<close>

text \<open>\<open>complete\<close> sets the status whatever it was before.\<close>

lemma complete_sets_status:
  assumes "get_run i s = Some r"
  shows "\<exists>q. get_run i (complete clk i res passed s) = Some q
    \<and> rn_status q = (if passed then ''passed'' else ''failed'') \<and> rn_org q = rn_org r
    \<and> rn_verification_for q = rn_verification_for r \<and> rn_environment q = rn_environment r"
proof -
  have found: "fetchone (filter (\<lambda>r. rn_id r = i) (map (\<lambda>r. if rn_id r = i then g r else r) rs)) =
      map_option (\<lambda>r. if rn_id r = i then g r else r) (fetchone (filter (\<lambda>r. rn_id r = i) rs))"
    if "\<And>r. rn_id (g r) = rn_id r" for g and rs :: "run_row list"
    by (rule fetchone_filter_map) (simp add: that)
  have "rn_id r = i" using assms fetchone_filter_SomeD by (fastforce simp: get_run_def select_rows_def)
  with assms show ?thesis
    by (simp add: complete_def Let_def get_run_def select_rows_def update_run_rows found)
qed

end
