(* ===== verification/SnapshotFacts.thy ===== *)
theory SnapshotFacts
  imports StoreFacts "HOL-Library.Multiset"
begin

text \<open>
  Snapshots of an organisation: what every reachable store keeps of its constraints, and that
  importing an exported snapshot restores the organisation under a new identifier.
\<close>

section \<open>Constraints that hold in every reachable store\<close>

definition valid_user :: "new_user \<Rightarrow> bool" where
  "valid_user u \<longleftrightarrow> nu_role u \<in> {''owner'', ''admin'', ''member'', ''viewer''} \<and> nu_kind u \<in> {''user'', ''service_account''}"

definition users_ok :: "store \<Rightarrow> bool" where
  "users_ok s \<longleftrightarrow> (\<forall>org. list_all valid_user (list_users org s) \<and> distinct (map nu_subject (list_users org s)))"

definition written_spec :: "json_lib \<Rightarrow> contract_row \<Rightarrow> bool" where
  "written_spec js c \<longleftrightarrow> (\<exists>v. ct_spec c = js_dumps js v \<and> ct_checksum c = sha256_hexdigest (js_sorted js v))"

definition contract_name :: "contract_row \<Rightarrow> string \<times> string" where
  "contract_name c = (ct_title c, ct_version c)"

definition org_contracts :: "int \<Rightarrow> store \<Rightarrow> contract_row list" where
  "org_contracts org s = select_rows (\<lambda>c. ct_org c = org) (st_contracts s)"

definition contracts_ok :: "json_lib \<Rightarrow> store \<Rightarrow> bool" where
  "contracts_ok js s \<longleftrightarrow> ids_increase ct_id (st_contracts s) \<and> (\<forall>c \<in> set (tab_rows (st_contracts s)). written_spec js c)
     \<and> (\<forall>org. distinct (map contract_name (org_contracts org s)))"

definition environments_ok :: "store \<Rightarrow> bool" where
  "environments_ok s \<longleftrightarrow> (\<forall>org. distinct (map ev_name (list_environments org s)))"

definition policies_ok :: "store \<Rightarrow> bool" where
  "policies_ok s \<longleftrightarrow> (\<forall>org. distinct (map po_name (list_policies org s)))"

definition directory_ok :: "json_lib \<Rightarrow> store \<Rightarrow> bool" where
  "directory_ok js s \<longleftrightarrow> users_ok s \<and> contracts_ok js s \<and> environments_ok s \<and> policies_ok s"

lemma directory_ok_cong:
  "st_users t = st_users s \<Longrightarrow> st_contracts t = st_contracts s \<Longrightarrow> st_environments t = st_environments s
    \<Longrightarrow> st_policies t = st_policies s \<Longrightarrow> directory_ok js s \<Longrightarrow> directory_ok js t"
  by (simp add: directory_ok_def users_ok_def contracts_ok_def environments_ok_def policies_ok_def list_users_def
      org_contracts_def list_environments_def list_policies_def)

definition user_row_of :: "int \<Rightarrow> new_user \<Rightarrow> int \<Rightarrow> user_row" where
  "user_row_of org u i = \<lparr>us_id = i, us_org = org, us_subject = nu_subject u, us_display_name = nu_display_name u,
     us_role = nu_role u, us_kind = nu_kind u, us_token_hash = (case nu_token u of
       None \<Rightarrow> None | Some token \<Rightarrow> if token = [] then None else Some (hash_token token))\<rparr>"

lemma add_user_result:
  "add_user org u s = (if valid_user u \<and> nu_subject u \<notin> set (map nu_subject (list_users org s))
     then Inr (tab_seq (st_users s) + 1, s\<lparr>st_users := snd (insert_row (user_row_of org u) (st_users s))\<rparr>)
     else Inl ''IntegrityError'')"
proof -
  have "nu_subject u \<in> set (map nu_subject (list_users org s)) \<longleftrightarrow>
      (\<exists>r \<in> set (tab_rows (st_users s)). us_org r = org \<and> us_subject r = nu_subject u)"
    by (auto simp: list_users_def select_rows_def image_iff)
  then show ?thesis
    by (simp add: add_user_def valid_user_def Let_def split_beta user_row_of_def [abs_def])
qed

lemma list_users_insert:
  "list_users org' (s\<lparr>st_users := snd (insert_row (user_row_of org u) (st_users s))\<rparr>) =
     list_users org' s @ (if org' = org then [u\<lparr>nu_token := None\<rparr>] else [])"
  by (cases u) (simp add: list_users_def select_rows_def user_row_of_def)

lemma list_users_add:
  assumes "add_user org u s = Inr (i, t)"
  shows "list_users org' t = list_users org' s @ (if org' = org then [u\<lparr>nu_token := None\<rparr>] else [])"
    and "valid_user u" and "nu_subject u \<notin> set (map nu_subject (list_users org s))"
  using assms by (auto simp: add_user_result list_users_insert split: if_splits)

lemma users_ok_add: "users_ok s \<Longrightarrow> add_user org u s = Inr (i, t) \<Longrightarrow> users_ok t"
  using list_users_add [of org u s i t] by (auto simp: users_ok_def valid_user_def)

lemma publish_contract_row:
  assumes "publish_contract js clk org title version proto spec who s = Inr (i, t)"
  obtains c where "t = s\<lparr>st_contracts := snd (insert_row (\<lambda>i. c\<lparr>ct_id := i\<rparr>) (st_contracts s))\<rparr>"
    and "ct_org c = org" and "written_spec js c" and "contract_name c = (title, version)"
    and "ct_protocol c = proto" and "ct_published_by c = who" and "ct_published_at c = clk 0"
    and "ct_spec c = js_dumps js spec" and "ct_checksum c = sha256_hexdigest (js_sorted js spec)"
    and "(title, version) \<notin> set (map contract_name (org_contracts org s))"
proof
  let ?c = "\<lparr>ct_id = 0, ct_org = org, ct_title = title, ct_version = version, ct_protocol = proto,
    ct_checksum = sha256_hexdigest (js_sorted js spec), ct_spec = js_dumps js spec, ct_published_by = who, ct_published_at = clk 0\<rparr>"
  show "t = s\<lparr>st_contracts := snd (insert_row (\<lambda>i. ?c\<lparr>ct_id := i\<rparr>) (st_contracts s))\<rparr>"
    using assms by (simp add: publish_contract_def Let_def split_beta split: if_splits)
  show "(title, version) \<notin> set (map contract_name (org_contracts org s))"
    using assms by (auto simp: publish_contract_def contract_name_def org_contracts_def select_rows_def split: if_splits)
qed (auto simp: written_spec_def contract_name_def)

lemma written_spec_id [simp]: "written_spec js (c\<lparr>ct_id := i\<rparr>) \<longleftrightarrow> written_spec js c"
  by (simp add: written_spec_def)

lemma contract_name_id [simp]: "contract_name (c\<lparr>ct_id := i\<rparr>) = contract_name c"
  by (simp add: contract_name_def)

lemma contracts_ok_publish:
  assumes ok: "contracts_ok js s" and run: "publish_contract js clk org title version proto spec who s = Inr (i, t)"
  shows "contracts_ok js t"
proof (rule publish_contract_row [OF run])
  fix c
  assume t: "t = s\<lparr>st_contracts := snd (insert_row (\<lambda>i. c\<lparr>ct_id := i\<rparr>) (st_contracts s))\<rparr>"
    and c: "ct_org c = org" "written_spec js c" "contract_name c = (title, version)"
    and new: "(title, version) \<notin> set (map contract_name (org_contracts org s))"
  have "ids_increase ct_id (st_contracts t)"
    using ok by (simp add: t contracts_ok_def ids_increase_insert)
  moreover have "distinct (map contract_name (org_contracts org' t))" for org'
    using ok c new by (auto simp: t contracts_ok_def org_contracts_def select_rows_def)
  ultimately show ?thesis using ok c by (simp add: t contracts_ok_def)
qed

lemma list_environments_register:
  "list_environments org' (snd (register_environment org e s)) =
     (if org' = org then filter (\<lambda>r. ev_name r \<noteq> ne_name e) (list_environments org s)
        @ [\<lparr>ev_id = tab_seq (st_environments s) + 1, ev_org = org, ev_name = ne_name e, ev_base_url = ne_base_url e,
            ev_safety_class = ne_safety_class e, ev_owner = ne_owner e, ev_allowed_modes = ne_allowed_modes e\<rparr>]
      else list_environments org' s)"
  by (auto simp: register_environment_def list_environments_def select_rows_def Let_def delete_rows_def insert_row_def
      intro!: filter_cong)

lemma environments_ok_register: "environments_ok s \<Longrightarrow> environments_ok (snd (register_environment org e s))"
  by (auto simp: environments_ok_def list_environments_register distinct_map_filter)

lemma list_policies_set:
  "list_policies org' (set_policy clk org name content s) =
     (if org' = org \<and> name \<notin> set (map po_name (list_policies org s)) then
        list_policies org s @ [\<lparr>po_id = tab_seq (st_policies s) + 1, po_org = org, po_name = name, po_content = content, po_updated_at = clk 0\<rparr>]
      else map (\<lambda>p. if po_org p = org \<and> po_name p = name then p\<lparr>po_content := content, po_updated_at := clk 0\<rparr> else p) (list_policies org' s))"
proof -
  let ?g = "\<lambda>p. if po_org p = org \<and> po_name p = name then p\<lparr>po_content := content, po_updated_at := clk 0\<rparr> else p"
  have map: "filter (\<lambda>p. po_org p = org') (map ?g ps) = map ?g (filter (\<lambda>p. po_org p = org') ps)" for ps
    by (induction ps) auto
  have same: "map ?g ps = ps" if "\<And>p. p \<in> set ps \<Longrightarrow> po_org p = org \<Longrightarrow> po_name p \<noteq> name" for ps
    using that by (intro map_idI) auto
  show ?thesis
    by (auto simp: set_policy_def list_policies_def select_rows_def Let_def map image_iff intro!: same [symmetric])
qed

lemma policies_ok_set: "policies_ok s \<Longrightarrow> policies_ok (set_policy clk org name content s)"
proof -
  assume ok: "policies_ok s"
  have names: "map po_name (map (\<lambda>p. if po_org p = org \<and> po_name p = name then p\<lparr>po_content := content, po_updated_at := clk 0\<rparr> else p) ps)
      = map po_name ps" for ps by simp
  from ok show ?thesis unfolding policies_ok_def list_policies_set by (simp add: names del: map_map)
qed

lemma store_step_directory: "store_step js s t \<Longrightarrow> directory_ok js s \<Longrightarrow> directory_ok js t"
proof (induction rule: store_step.induct)
  case (publish clk org title version proto spec who s i t)
  have "st_users t = st_users s" "st_environments t = st_environments s" "st_policies t = st_policies s"
    using publish(1) by (auto simp: publish_contract_def Let_def split_beta split: if_splits)
  with publish contracts_ok_publish [OF _ publish(1)] show ?case
    by (simp add: directory_ok_def users_ok_def list_users_def environments_ok_def list_environments_def policies_ok_def list_policies_def)
next
  case (user_add org u s i t)
  have "st_contracts t = st_contracts s" "st_environments t = st_environments s" "st_policies t = st_policies s"
    using user_add(1) by (auto simp: add_user_def Let_def split_beta split: if_splits)
  with user_add users_ok_add [OF _ user_add(1)] show ?case
    by (simp add: directory_ok_def contracts_ok_def org_contracts_def environments_ok_def list_environments_def policies_ok_def list_policies_def)
next
  case (environment s org e)
  then show ?case using environments_ok_register [of s org e]
    by (simp add: directory_ok_def users_ok_def list_users_def contracts_ok_def org_contracts_def policies_ok_def list_policies_def
        register_environment_def Let_def split_beta)
next
  case (policy s clk org name content)
  then show ?case using policies_ok_set [of s clk org name content]
    by (simp add: directory_ok_def users_ok_def list_users_def contracts_ok_def org_contracts_def environments_ok_def
        list_environments_def set_policy_def Let_def)
next
  case (freeze_on s clk org actor reason review_by)
  then show ?case by (auto simp: freeze_def audit_append_def Let_def elim!: directory_ok_cong [rotated 4])
next
  case (freeze_off s clk org actor reason)
  then show ?case
    by (auto simp: lift_freeze_def audit_append_def Let_def elim!: directory_ok_cong [rotated 4] split: list.splits)
qed (auto elim!: directory_ok_cong [rotated 4] simp: store_method_defs audit_append_def Let_def split_beta split: option.splits if_splits)

lemma reachable_directory: "reachable_store js s \<Longrightarrow> directory_ok js s"
proof (induction rule: reachable_store.induct)
  case start
  show ?case
    by (simp add: directory_ok_def users_ok_def contracts_ok_def environments_ok_def policies_ok_def list_users_def
        org_contracts_def list_environments_def list_policies_def empty_store_def select_rows_def)
      (simp add: empty_table_def)
qed (rule store_step_directory)

section \<open>Importing what was exported\<close>

lemma import_users_all:
  assumes "list_all valid_user us" and "distinct (map nu_subject (list_users org s @ us))"
  shows "\<exists>T. import_users org us s = (None, s\<lparr>st_users := T\<rparr>)
    \<and> list_users org (s\<lparr>st_users := T\<rparr>) = list_users org s @ map (\<lambda>u. u\<lparr>nu_token := None\<rparr>) us"
  using assms
proof (induction us arbitrary: s)
  case Nil
  show ?case by (rule exI [of _ "st_users s"]) simp
next
  case (Cons u us)
  let ?v = "u\<lparr>nu_token := None\<rparr>"
  let ?s = "s\<lparr>st_users := snd (insert_row (user_row_of org ?v) (st_users s))\<rparr>"
  have add: "add_user org ?v s = Inr (tab_seq (st_users s) + 1, ?s)"
    using Cons.prems by (auto simp: add_user_result valid_user_def)
  have users: "list_users org ?s = list_users org s @ [?v]" by (simp add: list_users_insert)
  have "distinct (map nu_subject (list_users org ?s @ us))" using Cons.prems(2) unfolding users by auto
  with Cons.IH [of ?s] Cons.prems(1) obtain T where
    "import_users org us ?s = (None, ?s\<lparr>st_users := T\<rparr>)"
    "list_users org (?s\<lparr>st_users := T\<rparr>) = list_users org ?s @ map (\<lambda>u. u\<lparr>nu_token := None\<rparr>) us" by auto
  then show ?case using users add by (intro exI [of _ T]) simp
qed

text \<open>What a contract row says, apart from its identifier, organisation and time.\<close>

definition contract_text :: "contract_row \<Rightarrow> string \<times> string \<times> string \<times> string \<times> string \<times> string" where
  "contract_text c = (ct_title c, ct_version c, ct_protocol c, ct_checksum c, ct_spec c, ct_published_by c)"

definition json_faithful :: "json_lib \<Rightarrow> bool" where
  "json_faithful js \<longleftrightarrow> (\<forall>v. js_dumps js (js_loads js (js_dumps js v)) = js_dumps js v
     \<and> js_sorted js (js_loads js (js_dumps js v)) = js_sorted js v)"

definition clock_runs :: "clock \<Rightarrow> bool" where
  "clock_runs clk \<longleftrightarrow> (\<forall>n. clk n \<le> clk (Suc n))"

lemma clock_runs_shift: "clock_runs clk \<Longrightarrow> clock_runs (\<lambda>n. clk (n + k))"
  by (simp add: clock_runs_def)

text \<open>The contracts are imported one by one, in the order of their times.\<close>

lemma publish_copy:
  assumes "written_spec js c" and "json_faithful js" and "contract_name c \<notin> set (map contract_name (org_contracts org s))"
  obtains d where "publish_contract js clk org (ct_title c) (ct_version c) (ct_protocol c) (js_loads js (ct_spec c))
      (ct_published_by c) s = Inr (tab_seq (st_contracts s) + 1, s\<lparr>st_contracts := snd (insert_row (\<lambda>i. d\<lparr>ct_id := i\<rparr>) (st_contracts s))\<rparr>)"
    and "ct_org d = org" and "contract_text d = contract_text c" and "ct_published_at d = clk 0"
proof
  let ?d = "c\<lparr>ct_org := org, ct_published_at := clk 0\<rparr>"
  obtain v where v: "ct_spec c = js_dumps js v" "ct_checksum c = sha256_hexdigest (js_sorted js v)"
    using assms(1) by (auto simp: written_spec_def)
  have "js_dumps js (js_loads js (ct_spec c)) = ct_spec c"
    "sha256_hexdigest (js_sorted js (js_loads js (ct_spec c))) = ct_checksum c"
    using assms(2) by (simp_all add: v json_faithful_def)
  moreover have "\<not> (\<exists>r \<in> set (tab_rows (st_contracts s)). ct_org r = org \<and> ct_title r = ct_title c \<and> ct_version r = ct_version c)"
    using assms(3) by (simp add: contract_name_def org_contracts_def select_rows_def image_iff) metis
  ultimately show "publish_contract js clk org (ct_title c) (ct_version c) (ct_protocol c) (js_loads js (ct_spec c))
      (ct_published_by c) s = Inr (tab_seq (st_contracts s) + 1, s\<lparr>st_contracts := snd (insert_row (\<lambda>i. ?d\<lparr>ct_id := i\<rparr>) (st_contracts s))\<rparr>)"
    by (cases c) (simp add: publish_contract_def Let_def split_beta)
qed (simp_all add: contract_text_def)

lemma import_contracts_all:
  assumes "\<And>c. c \<in> set cs \<Longrightarrow> written_spec js c" and "json_faithful js" and "clock_runs clk"
    and "distinct (map contract_name (org_contracts org s @ cs))"
    and "sorted (map ct_published_at (org_contracts org s))"
    and "\<And>c. c \<in> set (org_contracts org s) \<Longrightarrow> ct_published_at c \<le> clk 0"
  shows "\<exists>T. import_contracts js clk org (map (\<lambda>c. Some (contract_copy_of js c)) cs) s = (None, s\<lparr>st_contracts := T\<rparr>)
    \<and> map contract_text (org_contracts org (s\<lparr>st_contracts := T\<rparr>)) = map contract_text (org_contracts org s @ cs)
    \<and> sorted (map ct_published_at (org_contracts org (s\<lparr>st_contracts := T\<rparr>)))"
  using assms
proof (induction cs arbitrary: s clk)
  case Nil
  then show ?case by (intro exI [of _ "st_contracts s"]) simp
next
  case (Cons c cs)
  have "contract_name c \<notin> set (map contract_name (org_contracts org s))" using Cons.prems(4) by simp
  then obtain d where d: "publish_contract js clk org (ct_title c) (ct_version c) (ct_protocol c) (js_loads js (ct_spec c))
      (ct_published_by c) s = Inr (tab_seq (st_contracts s) + 1, s\<lparr>st_contracts := snd (insert_row (\<lambda>i. d\<lparr>ct_id := i\<rparr>) (st_contracts s))\<rparr>)"
    and org: "ct_org d = org" and same: "contract_text d = contract_text c" and time: "ct_published_at d = clk 0"
    using publish_copy [OF Cons.prems(1) Cons.prems(2), of c org s clk] by auto
  let ?s = "s\<lparr>st_contracts := snd (insert_row (\<lambda>i. d\<lparr>ct_id := i\<rparr>) (st_contracts s))\<rparr>"
  let ?d = "d\<lparr>ct_id := tab_seq (st_contracts s) + 1\<rparr>"
  have rows: "org_contracts org ?s = org_contracts org s @ [?d]" using org by (simp add: org_contracts_def select_rows_def)
  have name: "contract_name ?d = contract_name c" using same by (simp add: contract_text_def contract_name_def)
  have later: "clk 0 \<le> clk (Suc 0)" using Cons.prems(3) by (simp add: clock_runs_def)
  have names: "distinct (map contract_name (org_contracts org ?s @ cs))"
    using Cons.prems(4) unfolding rows by (simp add: name [simplified])
  have sorted: "sorted (map ct_published_at (org_contracts org ?s))"
    using Cons.prems(5,6) unfolding rows by (auto simp: sorted_append time)
  have times: "ct_published_at r \<le> clk (Suc 0)" if "r \<in> set (org_contracts org ?s)" for r
    using that Cons.prems(6) [of r] later unfolding rows by (auto simp: time intro: order.trans)
  obtain T where T: "import_contracts js (\<lambda>n. clk (Suc n)) org (map (\<lambda>c. Some (contract_copy_of js c)) cs) ?s = (None, ?s\<lparr>st_contracts := T\<rparr>)"
      "map contract_text (org_contracts org (?s\<lparr>st_contracts := T\<rparr>)) = map contract_text (org_contracts org ?s @ cs)"
      "sorted (map ct_published_at (org_contracts org (?s\<lparr>st_contracts := T\<rparr>)))"
    using Cons.IH [of "\<lambda>n. clk (Suc n)" ?s] Cons.prems(1,2) clock_runs_shift [OF Cons.prems(3), of 1] names sorted times by auto
  have "contract_text ?d = contract_text c" using same by (simp add: contract_text_def)
  with T d show ?case by (intro exI [of _ T]) (simp add: contract_copy_of_def rows)
qed

lemma import_environments_all:
  assumes "distinct (map ev_name (list_environments org s) @ map ne_name es)"
  shows "\<exists>T. import_environments org es s = s\<lparr>st_environments := T\<rparr>
    \<and> map environment_copy_of (list_environments org (s\<lparr>st_environments := T\<rparr>)) = map environment_copy_of (list_environments org s) @ es"
  using assms
proof (induction es arbitrary: s)
  case Nil
  show ?case by (rule exI [of _ "st_environments s"]) simp
next
  case (Cons e es)
  let ?s = "snd (register_environment org e s)"
  have kept: "filter (\<lambda>r. ev_name r \<noteq> ne_name e) (list_environments org s) = list_environments org s"
    using Cons.prems by (force simp: filter_id_conv)
  obtain U where U: "?s = s\<lparr>st_environments := U\<rparr>" by (simp add: register_environment_def Let_def split_beta)
  have envs: "\<exists>r. list_environments org ?s = list_environments org s @ [r] \<and> environment_copy_of r = e"
    by (simp add: list_environments_register kept environment_copy_of_def)
  then have "map ev_name (list_environments org ?s) @ map ne_name es = map ev_name (list_environments org s) @ map ne_name (e # es)"
    by (auto simp: environment_copy_of_def)
  then have "distinct (map ev_name (list_environments org ?s) @ map ne_name es)" using Cons.prems by (simp only:)
  from Cons.IH [OF this] envs show ?case by (auto simp: U)
qed

lemma import_policies_all:
  assumes "distinct (map po_name (list_policies org s) @ map fst ps)"
  shows "\<exists>T. import_policies clk org ps s = s\<lparr>st_policies := T\<rparr>
    \<and> map (\<lambda>p. (po_name p, po_content p)) (list_policies org (s\<lparr>st_policies := T\<rparr>)) =
        map (\<lambda>p. (po_name p, po_content p)) (list_policies org s) @ ps"
  using assms
proof (induction ps arbitrary: s clk)
  case Nil
  show ?case by (rule exI [of _ "st_policies s"]) simp
next
  case (Cons p ps)
  obtain name content where p: "p = (name, content)" by (cases p)
  let ?s = "set_policy clk org name content s"
  obtain U where U: "?s = s\<lparr>st_policies := U\<rparr>" by (simp add: set_policy_def Let_def)
  have pols: "\<exists>r. list_policies org ?s = list_policies org s @ [r] \<and> po_name r = name \<and> po_content r = content"
    using Cons.prems unfolding list_policies_set p by simp
  then have "map po_name (list_policies org ?s) @ map fst ps = map po_name (list_policies org s) @ map fst (p # ps)"
    by (auto simp: p)
  then have "distinct (map po_name (list_policies org ?s) @ map fst ps)" using Cons.prems by (simp only:)
  from Cons.IH [OF this, of "\<lambda>n. clk (Suc n)"] pols show ?case by (auto simp: U p)
qed

section \<open>The round trip\<close>

lemma sort_key_sorted: "sorted (map f xs) \<Longrightarrow> sort_key f xs = xs"
  by (induction xs) (auto simp: insort_is_Cons)

lemma list_contracts_all: "list_contracts org None s = sort_key ct_published_at (org_contracts org s)"
  by (simp add: list_contracts_def org_contracts_def truthy_str_def)

lemma exported_contracts:
  assumes "contracts_ok js s"
  shows "map (\<lambda>c. map_option (contract_copy_of js) (get_contract (ct_id c) s)) (list_contracts org None s) =
    map (\<lambda>c. Some (contract_copy_of js c)) (list_contracts org None s)"
proof (rule map_cong [OF refl])
  fix c
  assume "c \<in> set (list_contracts org None s)"
  then have c: "c \<in> set (tab_rows (st_contracts s))" by (simp add: list_contracts_all org_contracts_def select_rows_def)
  have dist: "distinct (map ct_id (tab_rows (st_contracts s)))"
    using assms unfolding contracts_ok_def ids_increase_def by (metis strict_sorted_iff)
  have "fetchone (filter (\<lambda>r. ct_id r = ct_id c) rs) = Some c" if "c \<in> set rs" "distinct (map ct_id rs)" for rs
    using that by (induction rs) (auto simp: fetchone_def image_iff)
  with c dist show "map_option (contract_copy_of js) (get_contract (ct_id c) s) = Some (contract_copy_of js c)"
    by (simp add: get_contract_def select_rows_def)
qed

text \<open>No row belongs to the identifier that the next organisation will get.\<close>

definition unused_org :: "int \<Rightarrow> store \<Rightarrow> bool" where
  "unused_org org s \<longleftrightarrow> list_users org s = [] \<and> org_contracts org s = [] \<and> list_environments org s = []
     \<and> list_policies org s = [] \<and> list_webhooks org None s = []"

definition same_content :: "int \<Rightarrow> store \<Rightarrow> int \<Rightarrow> store \<Rightarrow> bool" where
  "same_content org s org' t \<longleftrightarrow> list_users org' t = list_users org s
     \<and> map contract_text (list_contracts org' None t) = map contract_text (list_contracts org None s)
     \<and> map environment_copy_of (list_environments org' t) = map environment_copy_of (list_environments org s)
     \<and> map (\<lambda>p. (po_name p, po_content p)) (list_policies org' t) = map (\<lambda>p. (po_name p, po_content p)) (list_policies org s)"

lemma without_token: "map (\<lambda>u. u\<lparr>nu_token := None\<rparr>) (list_users org s) = list_users org s"
  by (simp add: list_users_def comp_def)

lemma list_frames:
  "list_users org (s\<lparr>st_orgs := A\<rparr>) = list_users org s" "org_contracts org (s\<lparr>st_orgs := A\<rparr>) = org_contracts org s"
  "list_environments org (s\<lparr>st_orgs := A\<rparr>) = list_environments org s" "list_policies org (s\<lparr>st_orgs := A\<rparr>) = list_policies org s"
  "org_contracts org (s\<lparr>st_users := B\<rparr>) = org_contracts org s" "list_environments org (s\<lparr>st_users := B\<rparr>) = list_environments org s"
  "list_policies org (s\<lparr>st_users := B\<rparr>) = list_policies org s" "list_users org (s\<lparr>st_contracts := C\<rparr>) = list_users org s"
  "list_environments org (s\<lparr>st_contracts := C\<rparr>) = list_environments org s" "list_policies org (s\<lparr>st_contracts := C\<rparr>) = list_policies org s"
  "list_users org (s\<lparr>st_environments := D\<rparr>) = list_users org s" "org_contracts org (s\<lparr>st_environments := D\<rparr>) = org_contracts org s"
  "list_policies org (s\<lparr>st_environments := D\<rparr>) = list_policies org s" "list_users org (s\<lparr>st_policies := E\<rparr>) = list_users org s"
  "org_contracts org (s\<lparr>st_policies := E\<rparr>) = org_contracts org s" "list_environments org (s\<lparr>st_policies := E\<rparr>) = list_environments org s"
  "list_users org (s\<lparr>st_audit := F\<rparr>) = list_users org s" "org_contracts org (s\<lparr>st_audit := F\<rparr>) = org_contracts org s"
  "list_environments org (s\<lparr>st_audit := F\<rparr>) = list_environments org s" "list_policies org (s\<lparr>st_audit := F\<rparr>) = list_policies org s"
  "list_webhooks org None (s\<lparr>st_orgs := A\<rparr>) = list_webhooks org None s" "list_webhooks org None (s\<lparr>st_users := B\<rparr>) = list_webhooks org None s"
  "list_webhooks org None (s\<lparr>st_contracts := C\<rparr>) = list_webhooks org None s" "list_webhooks org None (s\<lparr>st_environments := D\<rparr>) = list_webhooks org None s"
  "list_webhooks org None (s\<lparr>st_policies := E\<rparr>) = list_webhooks org None s" "list_webhooks org None (s\<lparr>st_audit := F\<rparr>) = list_webhooks org None s"
  by (simp_all add: list_users_def org_contracts_def list_environments_def list_policies_def list_webhooks_def)

lemma import_org_result:
  assumes "create_org (\<lambda>n. clk (n + 1)) (sp_org_name snap @ ''-restored-'' @ clk 0) s = Inr (org, s0)"
    and "import_users org (sp_users snap) s0 = (None, s1)"
    and "import_contracts js (\<lambda>n. clk (n + 2)) org (sp_contracts snap) s1 = (None, s2)"
    and "import_environments org (sp_environments snap) s2 = s3"
    and "import_policies (\<lambda>n. clk (n + 2 + length (filter (\<lambda>c. c \<noteq> None) (sp_contracts snap)))) org (sp_policies snap) s3 = s4"
  shows "\<exists>F. import_org js clk snap s = (Inr org, s4\<lparr>st_audit := F\<rparr>)"
proof -
  have "\<exists>F. audit_append js clk' org a b c d s4 = s4\<lparr>st_audit := F\<rparr>" for clk' a b c d
    by (auto simp: audit_append_def Let_def)
  then show ?thesis by (simp only: import_org_def Let_def assms sum.case prod.case option.case) blast
qed

lemma create_org_free:
  "name \<notin> og_name ` set (tab_rows (st_orgs s)) \<Longrightarrow> \<exists>A. create_org clk name s = Inr (tab_seq (st_orgs s) + 1, s\<lparr>st_orgs := A\<rparr>)"
  by (auto simp: create_org_def Let_def split_beta)

lemma import_settings:
  assumes ok: "directory_ok js s" and unused: "list_environments org' t = []" "list_policies org' t = []"
  shows "\<exists>D E. import_environments org' (map environment_copy_of (list_environments org s)) t = t\<lparr>st_environments := D\<rparr>
    \<and> map environment_copy_of (list_environments org' (t\<lparr>st_environments := D\<rparr>)) = map environment_copy_of (list_environments org s)
    \<and> import_policies clk org' (map (\<lambda>p. (po_name p, po_content p)) (list_policies org s)) (t\<lparr>st_environments := D\<rparr>)
        = t\<lparr>st_environments := D, st_policies := E\<rparr>
    \<and> map (\<lambda>p. (po_name p, po_content p)) (list_policies org' (t\<lparr>st_environments := D, st_policies := E\<rparr>))
        = map (\<lambda>p. (po_name p, po_content p)) (list_policies org s)"
proof -
  have "map ne_name (map environment_copy_of es) = map ev_name es" for es by (simp add: environment_copy_of_def)
  then have "distinct (map ev_name (list_environments org' t) @ map ne_name (map environment_copy_of (list_environments org s)))"
    using ok unused by (simp add: directory_ok_def environments_ok_def del: map_map)
  from import_environments_all [OF this] unused(1) obtain D where
    D: "import_environments org' (map environment_copy_of (list_environments org s)) t = t\<lparr>st_environments := D\<rparr>"
      "map environment_copy_of (list_environments org' (t\<lparr>st_environments := D\<rparr>)) = map environment_copy_of (list_environments org s)"
    by auto
  let ?ps = "map (\<lambda>p. (po_name p, po_content p)) (list_policies org s)"
  have "map fst ?ps = map po_name (list_policies org s)" by simp
  then have "distinct (map po_name (list_policies org' (t\<lparr>st_environments := D\<rparr>)) @ map fst ?ps)"
    using ok unused(2) by (simp add: directory_ok_def policies_ok_def list_frames del: map_map)
  from import_policies_all [OF this, of clk] D unused(2) show ?thesis by (auto simp: list_frames)
qed

lemma import_restores:
  assumes ok: "directory_ok js s" and export: "export_org js org s = Inr snap" and json: "json_faithful js"
    and clk: "clock_runs clk" and unused: "unused_org (tab_seq (st_orgs s') + 1) s'"
    and free: "sp_org_name snap @ ''-restored-'' @ clk 0 \<notin> og_name ` set (tab_rows (st_orgs s'))"
  shows "\<exists>t. import_org js clk snap s' = (Inr (tab_seq (st_orgs s') + 1), t)
    \<and> same_content org s (tab_seq (st_orgs s') + 1) t \<and> list_webhooks (tab_seq (st_orgs s') + 1) None t = []"
proof -
  let ?org = "tab_seq (st_orgs s') + 1"
  define cs where "cs = list_contracts org None s"
  have snap: "sp_users snap = list_users org s" "sp_contracts snap = map (\<lambda>c. Some (contract_copy_of js c)) cs"
    "sp_environments snap = map environment_copy_of (list_environments org s)"
    "sp_policies snap = map (\<lambda>p. (po_name p, po_content p)) (list_policies org s)"
    using export ok exported_contracts [of js s org] unfolding cs_def
    by (auto simp: export_org_def directory_ok_def split: option.splits)
  obtain A where create: "create_org (\<lambda>n. clk (n + 1)) (sp_org_name snap @ ''-restored-'' @ clk 0) s' = Inr (?org, s'\<lparr>st_orgs := A\<rparr>)"
    using create_org_free [OF free] by blast
  let ?s0 = "s'\<lparr>st_orgs := A\<rparr>"
  have "list_all valid_user (list_users org s)" "distinct (map nu_subject (list_users ?org ?s0 @ list_users org s))"
    using ok unused by (simp_all add: directory_ok_def users_ok_def unused_org_def list_frames)
  from import_users_all [OF this] obtain B where users: "import_users ?org (list_users org s) ?s0 = (None, ?s0\<lparr>st_users := B\<rparr>)"
      "list_users ?org (?s0\<lparr>st_users := B\<rparr>) = list_users org s"
    using unused by (auto simp: without_token unused_org_def list_frames)
  let ?s1 = "?s0\<lparr>st_users := B\<rparr>"
  have written: "written_spec js c" if "c \<in> set cs" for c
    using that ok by (simp add: cs_def list_contracts_all org_contracts_def select_rows_def directory_ok_def contracts_ok_def)
  have "mset cs = mset (org_contracts org s)" by (simp add: cs_def list_contracts_all)
  moreover have "distinct (map contract_name (org_contracts org s))" using ok by (simp add: directory_ok_def contracts_ok_def)
  ultimately have names: "distinct (map contract_name cs)" by (metis mset_map mset_eq_imp_distinct_iff)
  obtain C where contracts: "import_contracts js (\<lambda>n. clk (n + 2)) ?org (map (\<lambda>c. Some (contract_copy_of js c)) cs) ?s1
        = (None, ?s1\<lparr>st_contracts := C\<rparr>)"
      "map contract_text (org_contracts ?org (?s1\<lparr>st_contracts := C\<rparr>)) = map contract_text cs"
      "sorted (map ct_published_at (org_contracts ?org (?s1\<lparr>st_contracts := C\<rparr>)))"
    using import_contracts_all [OF written json clock_runs_shift [OF clk, of 2], of cs ?org ?s1] names unused
    by (auto simp: unused_org_def list_frames)
  let ?s2 = "?s1\<lparr>st_contracts := C\<rparr>"
  obtain D E where envs: "import_environments ?org (map environment_copy_of (list_environments org s)) ?s2 = ?s2\<lparr>st_environments := D\<rparr>"
      "map environment_copy_of (list_environments ?org (?s2\<lparr>st_environments := D\<rparr>)) = map environment_copy_of (list_environments org s)"
    and pols: "import_policies (\<lambda>n. clk (n + 2 + length cs)) ?org (map (\<lambda>p. (po_name p, po_content p)) (list_policies org s))
        (?s2\<lparr>st_environments := D\<rparr>) = ?s2\<lparr>st_environments := D, st_policies := E\<rparr>"
      "map (\<lambda>p. (po_name p, po_content p)) (list_policies ?org (?s2\<lparr>st_environments := D, st_policies := E\<rparr>))
        = map (\<lambda>p. (po_name p, po_content p)) (list_policies org s)"
    using import_settings [OF ok, of ?org ?s2 org "\<lambda>n. clk (n + 2 + length cs)"] unused
    by (auto simp: unused_org_def list_frames)
  let ?s3 = "?s2\<lparr>st_environments := D\<rparr>"
  have count: "length (filter (\<lambda>c. c \<noteq> None) (map (\<lambda>c. Some (contract_copy_of js c)) cs)) = length cs"
    by (simp add: filter_map comp_def)
  have "sort_key ct_published_at (org_contracts ?org ?s2) = org_contracts ?org ?s2"
    using contracts(3) by (rule sort_key_sorted)
  with users(2) contracts(2) envs(2) pols(2)
  have content: "same_content org s ?org (?s3\<lparr>st_policies := E, st_audit := F\<rparr>)
      \<and> list_webhooks ?org None (?s3\<lparr>st_policies := E, st_audit := F\<rparr>) = []" for F
    using unused by (simp add: same_content_def list_contracts_all list_frames cs_def unused_org_def)
  have pols': "import_policies (\<lambda>n. clk (n + 2 + length (filter (\<lambda>c. c \<noteq> None) (sp_contracts snap)))) ?org (sp_policies snap) ?s3
      = ?s3\<lparr>st_policies := E\<rparr>"
    unfolding snap(2,4) count by (rule pols(1))
  from import_org_result [OF create users(1) [folded snap(1)] contracts(1) [folded snap(2)] envs(1) [folded snap(3)] pols']
  show ?thesis using content by auto
qed

end
