(* ===== verification/Deploy.thy ===== *)
theory Deploy
  imports QueueFacts SnapshotFacts Model
begin

text \<open>
  Decisions about releases: src/apiverity/server/decision.py, the permissions of
  src/apiverity/server/auth.py with the providers that resolve a token, and the guard
  \<open>current_identity\<close> of src/apiverity/server/api.py.
\<close>

section \<open>May this version be deployed?\<close>

record decision =
  dc_deployable :: bool
  dc_reason :: string
  dc_freeze :: "freeze_info option"
  dc_verified_by :: "string list option"

definition verifies :: "string \<Rightarrow> string \<Rightarrow> string \<Rightarrow> run_row \<Rightarrow> bool" where
  "verifies provider version environment r \<longleftrightarrow>
     rn_verification_for r = Some (provider @ ''@'' @ version) \<and> rn_environment r = Some environment
     \<and> rn_status r = ''passed''"

definition compute_can_i_deploy :: "string \<Rightarrow> int \<Rightarrow> string \<Rightarrow> string \<Rightarrow> string \<Rightarrow> store \<Rightarrow> decision" where
  "compute_can_i_deploy now org provider version environment s =
     (let frozen = freeze_state now org s in
      if fs_active frozen then
        \<lparr>dc_deployable = False, dc_reason = refusal frozen, dc_freeze = Some frozen, dc_verified_by = None\<rparr>
      else if \<forall>c \<in> set (list_contracts org (Some provider) s). ct_version c \<noteq> version then
        \<lparr>dc_deployable = False, dc_reason = provider @ ''@'' @ version @ '' has never been published'',
         dc_freeze = None, dc_verified_by = None\<rparr>
      else
        let verifications = filter (verifies provider version environment)
              (select_rows (\<lambda>r. rn_org r = org) (st_runs s)) in
        if verifications = [] then
          \<lparr>dc_deployable = False, dc_reason = ''no passed verification of '' @ provider @ ''@'' @ version @ '' against ''
             @ str_repr environment, dc_freeze = None, dc_verified_by = None\<rparr>
        else
          \<lparr>dc_deployable = True, dc_reason = nat_str (length verifications) @ '' passed verification(s) recorded'',
           dc_freeze = None, dc_verified_by = Some (sorted_set (map rn_requested_by verifications))\<rparr>)"

section \<open>Permissions\<close>

datatype role = OWNER | ADMIN | MEMBER | VIEWER

fun role_rank :: "role \<Rightarrow> nat" where
  "role_rank OWNER = 4"
| "role_rank ADMIN = 3"
| "role_rank MEMBER = 2"
| "role_rank VIEWER = 1"

definition ACTION_MIN_ROLE :: "(string, role) dict" where
  "ACTION_MIN_ROLE = [(''read'', VIEWER), (''publish_contract'', MEMBER), (''record_run'', MEMBER),
     (''register_environment'', ADMIN), (''set_policy'', ADMIN), (''request_approval'', MEMBER),
     (''decide_approval'', ADMIN), (''manage_users'', ADMIN), (''create_org'', OWNER),
     (''register_webhook'', ADMIN), (''view_audit'', ADMIN)]"

record identity =
  who_subject :: string
  who_org :: int
  who_role :: role

definition authorize :: "identity \<Rightarrow> string \<Rightarrow> bool" where
  "authorize who action = (case dict_get ACTION_MIN_ROLE action of
     None \<Rightarrow> False | Some required \<Rightarrow> role_rank required \<le> role_rank (who_role who))"

text \<open>
  A provider verifies a token; what it says of the caller are claims. A provider of another
  kind than the local one is an argument. Any exception means that the caller is unknown.
\<close>

record claims =
  cl_org :: "int option"
  cl_role :: "string option"

type_synonym provider = "string \<Rightarrow> (string \<times> claims) option result"

definition verify_local :: "store \<Rightarrow> provider" where
  "verify_local s token = (case resolve_token token s of
     None \<Rightarrow> Inr None
   | Some u \<Rightarrow> Inr (Some (us_subject u, \<lparr>cl_org = Some (us_org u), cl_role = Some (us_role u)\<rparr>)))"

fun role_of_value :: "string \<Rightarrow> role result" where
  "role_of_value v = (if v = ''owner'' then Inr OWNER else if v = ''admin'' then Inr ADMIN
     else if v = ''member'' then Inr MEMBER else if v = ''viewer'' then Inr VIEWER else Inl (ValueError v))"

fun authenticate :: "provider list \<Rightarrow> string \<Rightarrow> identity option result" where
  "authenticate [] token = Inr None"
| "authenticate (p # ps) token = (case p token of
     Inl e \<Rightarrow> Inl e
   | Inr None \<Rightarrow> authenticate ps token
   | Inr (Some (subject, cl)) \<Rightarrow> (case cl_org cl of
        None \<Rightarrow> Inr None
      | Some org \<Rightarrow> (case role_of_value (case cl_role cl of None \<Rightarrow> ''viewer'' | Some r \<Rightarrow> r) of
            Inl e \<Rightarrow> Inl e
          | Inr r \<Rightarrow> Inr (Some \<lparr>who_subject = subject, who_org = org, who_role = r\<rparr>))))"

definition authenticate_safe :: "provider list \<Rightarrow> string \<Rightarrow> identity option" where
  "authenticate_safe providers token = (if token = [] then None
     else case authenticate providers token of Inl _ \<Rightarrow> None | Inr i \<Rightarrow> i)"

text \<open>\<open>current_identity\<close>: the status to answer with, or the identity to go on with.\<close>

definition current_identity :: "identity option \<Rightarrow> string \<Rightarrow> (int + identity)" where
  "current_identity who action = (case who of
     None \<Rightarrow> Inl 401 | Some i \<Rightarrow> if authorize i action then Inr i else Inl 403)"

definition guarded :: "identity option \<Rightarrow> string \<Rightarrow> (identity \<Rightarrow> store \<Rightarrow> int \<times> store) \<Rightarrow> store \<Rightarrow> int \<times> store" where
  "guarded who action handle s = (case current_identity who action of
     Inl status \<Rightarrow> (status, s) | Inr i \<Rightarrow> handle i s)"

section \<open>Facts\<close>

lemma frozen_not_deployable:
  assumes "open_freezes org s \<noteq> []"
  shows "dc_deployable (compute_can_i_deploy now org provider version environment s) = False"
    "dc_freeze (compute_can_i_deploy now org provider version environment s) = Some (freeze_state now org s)"
  using assms
  by (simp_all add: compute_can_i_deploy_def Let_def freeze_state_active)

lemma deployable_iff:
  "dc_deployable (compute_can_i_deploy now org provider version environment s) \<longleftrightarrow>
     open_freezes org s = []
     \<and> (\<exists>c \<in> set (list_contracts org (Some provider) s). ct_version c = version)
     \<and> (\<exists>r \<in> set (tab_rows (st_runs s)). rn_org r = org \<and> verifies provider version environment r)"
  by (auto simp: compute_can_i_deploy_def Let_def freeze_state_active filter_empty_conv select_rows_def)

text \<open>A step either leaves the open freezes of an organisation alone, or adds one, or lifts them.\<close>

lemma freezes_frame: "st_freezes t = st_freezes s \<Longrightarrow> open_freezes org t = open_freezes org s"
  by (simp add: open_freezes_def)

lemma store_step_open_freezes:
  assumes "store_step js s t" and "freezes_ok s"
  shows "prefix (open_freezes org s) (open_freezes org t)
    \<or> (\<exists>clk actor reason. t = snd (lift_freeze js clk org actor reason s))"
  using assms
proof (induction rule: store_step.induct)
  case (freeze_on s clk org' actor reason review_by)
  show ?case by (simp add: open_freezes_freeze)
next
  case (freeze_off s clk org' actor reason)
  show ?case
  proof (cases "org' = org")
    case True
    then show ?thesis by blast
  next
    case False
    then show ?thesis by (simp add: open_freezes_lift [OF freeze_off])
  qed
qed (auto simp: store_method_defs open_freezes_def Let_def split_beta split: option.splits if_splits)

lemma lift_freeze_audits:
  assumes "open_freezes org s \<noteq> []"
  shows "\<exists>e. audit_all org (snd (lift_freeze js clk org actor reason s)) = audit_all org s @ [e]
    \<and> au_action e = LIFTED \<and> au_actor e = actor"
proof -
  have "audit_all org (s\<lparr>st_freezes := f\<rparr>) = audit_all org s" for f by (simp add: audit_all_def)
  with assms show ?thesis by (simp add: lift_freeze_def open_freezes_def newest_one Let_def audit_all_append)
qed

text \<open>A decided approval is final.\<close>

lemma decided_stays:
  assumes "store_step js s t" and "a \<in> set (tab_rows (st_approvals s))" and "ap_status a \<noteq> ''pending''"
  shows "a \<in> set (tab_rows (st_approvals t))"
  using assms
proof (induction rule: store_step.induct)
  case (approval_decide clk i decision who s ok t)
  have "a \<in> set (map (\<lambda>r. if P r then f r else r) rows)" if "a \<in> set rows" "\<not> P a" for P f and rows :: "approval_row list"
    using that by (auto simp: image_iff intro!: bexI [of _ a])
  with approval_decide show ?case
    by (auto simp: decide_approval_def Let_def simp del: set_map split: if_splits)
next
  case (freeze_on s clk org actor reason review_by)
  then show ?case by (simp add: freeze_def Let_def)
next
  case (freeze_off s clk org actor reason)
  then show ?case by (simp add: lift_freeze_def Let_def split: list.split)
next
  case (run_claim s clk org worker)
  then show ?case by (simp add: claim_next_run_def Let_def append_run_event_def split: option.split)
qed (auto simp: store_method_defs Let_def split_beta split: option.splits if_splits)

end
