(* ===== verification/Handlers.thy ===== *)
theory Handlers
  imports Deploy
begin

text \<open>
  The routes of src/apiverity/server/api.py that write. A handler takes the identity that the
  token resolved to (\<open>None\<close> when it did not) and answers the HTTP status with the new store;
  the bodies of the answers and the webhooks are left out, and so are malformed bodies.
\<close>

section \<open>Handlers\<close>

text \<open>A failing constraint is an internal error: status 500.\<close>

definition api_create_org :: "json_lib \<Rightarrow> clock \<Rightarrow> string \<Rightarrow> string option \<Rightarrow> string \<Rightarrow> store \<Rightarrow> int \<times> store" where
  "api_create_org js clk name owner_token owner_subject s =
     (case create_org clk name s of
        Inl _ \<Rightarrow> (500, s)
      | Inr (org, s) \<Rightarrow>
          let token = str_or owner_token (''vlk-'' @ int_str org @ ''-bootstrap'') in
          (case add_user org \<lparr>nu_subject = owner_subject, nu_role = ''owner'', nu_display_name = [],
                  nu_kind = ''user'', nu_token = Some token\<rparr> s of
             Inl _ \<Rightarrow> (500, s)
           | Inr (_, s) \<Rightarrow> (201, audit_append js (\<lambda>n. clk (Suc n)) org ''system'' ''org.created'' name [] s)))"

definition api_add_user :: "json_lib \<Rightarrow> clock \<Rightarrow> identity option \<Rightarrow> int \<Rightarrow> new_user \<Rightarrow> store \<Rightarrow> int \<times> store" where
  "api_add_user js clk who org u = guarded who ''manage_users'' (\<lambda>i s.
     case add_user org u s of
       Inl _ \<Rightarrow> (500, s)
     | Inr (_, t) \<Rightarrow> (201, audit_append js clk org (who_subject i) ''user.added'' (nu_subject u)
           [(''role'', PStr (nu_role u))] t))"

definition api_cancel_run :: "clock \<Rightarrow> identity option \<Rightarrow> int \<Rightarrow> store \<Rightarrow> int \<times> store" where
  "api_cancel_run clk who run = guarded who ''record_run'' (\<lambda>i s.
     let (ok, t) = cancel_run clk run s in (if ok then 200 else 409, t))"

definition api_enqueue_job :: "int \<Rightarrow> clock \<Rightarrow> identity option \<Rightarrow> new_job \<Rightarrow> store \<Rightarrow> int \<times> store" where
  "api_enqueue_job max_active clk who job = guarded who ''record_run'' (\<lambda>i s.
     case enqueue max_active clk (who_org i) (job\<lparr>nj_requested_by := who_subject i\<rparr>) s of
       (Inl _, t) \<Rightarrow> (409, t)
     | (Inr (_, created), t) \<Rightarrow> (if created then 201 else 200, t))"

definition api_claim_job :: "clock \<Rightarrow> identity option \<Rightarrow> string option \<Rightarrow> store \<Rightarrow> int \<times> store" where
  "api_claim_job clk who worker = guarded who ''record_run'' (\<lambda>i s.
     let (job, t) = claim clk (who_org i) (str_or worker (''anon-'' @ who_subject i)) s
     in (if job = None then 204 else 200, t))"

definition api_decide_approval :: "json_lib \<Rightarrow> clock \<Rightarrow> identity option \<Rightarrow> int \<Rightarrow> string \<Rightarrow> store \<Rightarrow> int \<times> store" where
  "api_decide_approval js clk who approval decision = guarded who ''decide_approval'' (\<lambda>i s.
     if fs_active (freeze_state (clk 0) (who_org i) s) \<and> decision = ''approved'' then (409, s)
     else (case decide_approval (\<lambda>n. clk (Suc n)) approval decision (who_subject i) s of
         Inl _ \<Rightarrow> (400, s)
       | Inr (ok, t) \<Rightarrow>
           if \<not> ok then (409, t)
           else (200, audit_append js (\<lambda>n. clk (n + 2)) (who_org i) (who_subject i) (''approval.'' @ decision)
                  (int_str approval) [] t)))"

definition api_freeze_on :: "json_lib \<Rightarrow> clock \<Rightarrow> identity option \<Rightarrow> string \<Rightarrow> string option \<Rightarrow> store \<Rightarrow> int \<times> store" where
  "api_freeze_on js clk who reason review_by = guarded who ''request_approval'' (\<lambda>i s.
     if strip reason = [] then (400, s)
     else (201, snd (freeze js clk (who_org i) (who_subject i) (strip reason) review_by s)))"

definition api_freeze_off :: "json_lib \<Rightarrow> clock \<Rightarrow> identity option \<Rightarrow> string \<Rightarrow> store \<Rightarrow> int \<times> store" where
  "api_freeze_off js clk who reason = guarded who ''decide_approval'' (\<lambda>i s.
     (200, snd (lift_freeze js clk (who_org i) (who_subject i) reason s)))"

definition api_publish_contract :: "json_lib \<Rightarrow> clock \<Rightarrow> identity option \<Rightarrow> string \<Rightarrow> string \<Rightarrow> string \<Rightarrow> pyval
    \<Rightarrow> new_finding list option \<Rightarrow> store \<Rightarrow> int \<times> store" where
  "api_publish_contract js clk who title version proto spec findings = guarded who ''publish_contract'' (\<lambda>i s.
     case publish_contract js clk (who_org i) title version proto spec (who_subject i) s of
       Inl _ \<Rightarrow> (500, s)
     | Inr (contract, s) \<Rightarrow>
         let fs = (case findings of None \<Rightarrow> [] | Some fs \<Rightarrow> fs);
             s = (if findings = None then s else snd (add_findings (\<lambda>n. clk (Suc n)) contract fs s))
         in (201, audit_append js (\<lambda>n. clk (n + 1 + length fs)) (who_org i) (who_subject i) ''contract.published''
               (title @ ''@'' @ version) [(''checksum'', PBool True)] s))"

definition api_add_findings :: "clock \<Rightarrow> identity option \<Rightarrow> int \<Rightarrow> new_finding list \<Rightarrow> store \<Rightarrow> int \<times> store" where
  "api_add_findings clk who contract findings = guarded who ''publish_contract'' (\<lambda>i s.
     case get_contract contract s of
       None \<Rightarrow> (404, s)
     | Some c \<Rightarrow> if ct_org c \<noteq> who_org i then (404, s) else (201, snd (add_findings clk contract findings s)))"

definition api_record_run :: "clock \<Rightarrow> identity option \<Rightarrow> new_run \<Rightarrow> store \<Rightarrow> int \<times> store" where
  "api_record_run clk who n = guarded who ''record_run'' (\<lambda>i s.
     (201, snd (record_run clk (who_org i) (n\<lparr>nr_requested_by := who_subject i, nr_idempotency_key := None\<rparr>) s)))"

definition api_enroll_worker :: "json_lib \<Rightarrow> clock \<Rightarrow> identity option \<Rightarrow> string \<Rightarrow> string list \<Rightarrow> int \<Rightarrow> store \<Rightarrow> int \<times> store" where
  "api_enroll_worker js clk who name labels capacity = guarded who ''record_run'' (\<lambda>i s.
     (201, audit_append js (\<lambda>n. clk (Suc n)) (who_org i) (who_subject i) ''worker.enrolled'' name []
        (snd (register_worker clk (who_org i) name labels capacity s))))"

definition api_register_environment :: "json_lib \<Rightarrow> clock \<Rightarrow> identity option \<Rightarrow> new_environment \<Rightarrow> store \<Rightarrow> int \<times> store" where
  "api_register_environment js clk who e = guarded who ''register_environment'' (\<lambda>i s.
     (201, audit_append js clk (who_org i) (who_subject i) ''environment.registered'' (ne_name e)
        [(''safety_class'', PStr (ne_safety_class e))] (snd (register_environment (who_org i) e s))))"

definition api_set_policy :: "json_lib \<Rightarrow> clock \<Rightarrow> identity option \<Rightarrow> string \<Rightarrow> string \<Rightarrow> store \<Rightarrow> int \<times> store" where
  "api_set_policy js clk who name content = guarded who ''set_policy'' (\<lambda>i s.
     (200, audit_append js (\<lambda>n. clk (Suc n)) (who_org i) (who_subject i) ''policy.updated'' name []
        (set_policy clk (who_org i) name content s)))"

definition api_request_approval ::
  "clock \<Rightarrow> identity option \<Rightarrow> string \<Rightarrow> string \<Rightarrow> string \<Rightarrow> string \<Rightarrow> string option \<Rightarrow> store \<Rightarrow> int \<times> store" where
  "api_request_approval clk who title from_v to_v justification guide = guarded who ''request_approval'' (\<lambda>i s.
     (201, snd (request_approval clk (who_org i) title from_v to_v justification (who_subject i) guide s)))"

definition api_register_webhook :: "clock \<Rightarrow> identity option \<Rightarrow> string \<Rightarrow> string \<Rightarrow> string list \<Rightarrow> store \<Rightarrow> int \<times> store" where
  "api_register_webhook clk who url secret_ref events = guarded who ''register_webhook'' (\<lambda>i s.
     (201, snd (register_webhook clk (who_org i) url secret_ref events s)))"

datatype request =
    CreateOrg string "string option" string
  | AddUser int new_user
  | PublishContract string string string pyval "new_finding list option"
  | AddFindings int "new_finding list"
  | RecordRun new_run
  | CancelRun int
  | EnrollWorker string "string list" int
  | EnqueueJob new_job
  | ClaimJob "string option"
  | RegisterEnvironment new_environment
  | SetPolicy string string
  | RequestApproval string string string string "string option"
  | DecideApproval int string
  | FreezeOn string "string option"
  | FreezeOff string
  | RegisterWebhook string string "string list"

text \<open>The routes that write, with the limit on active jobs the server was started with.\<close>

fun handle :: "json_lib \<Rightarrow> int \<Rightarrow> clock \<Rightarrow> identity option \<Rightarrow> request \<Rightarrow> store \<Rightarrow> int \<times> store" where
  "handle js m clk who (CreateOrg name token subject) s = api_create_org js clk name token subject s"
| "handle js m clk who (AddUser org u) s = api_add_user js clk who org u s"
| "handle js m clk who (PublishContract title version proto spec findings) s =
     api_publish_contract js clk who title version proto spec findings s"
| "handle js m clk who (AddFindings contract findings) s = api_add_findings clk who contract findings s"
| "handle js m clk who (RecordRun n) s = api_record_run clk who n s"
| "handle js m clk who (CancelRun run) s = api_cancel_run clk who run s"
| "handle js m clk who (EnrollWorker name labels capacity) s = api_enroll_worker js clk who name labels capacity s"
| "handle js m clk who (EnqueueJob job) s = api_enqueue_job m clk who job s"
| "handle js m clk who (ClaimJob worker) s = api_claim_job clk who worker s"
| "handle js m clk who (RegisterEnvironment e) s = api_register_environment js clk who e s"
| "handle js m clk who (SetPolicy name content) s = api_set_policy js clk who name content s"
| "handle js m clk who (RequestApproval title v w why guide) s = api_request_approval clk who title v w why guide s"
| "handle js m clk who (DecideApproval approval decision) s = api_decide_approval js clk who approval decision s"
| "handle js m clk who (FreezeOn reason review_by) s = api_freeze_on js clk who reason review_by s"
| "handle js m clk who (FreezeOff reason) s = api_freeze_off js clk who reason s"
| "handle js m clk who (RegisterWebhook url secret_ref events) s = api_register_webhook clk who url secret_ref events s"

section \<open>What the handlers check\<close>

text \<open>
  The handlers of approvals and of cancelled runs look at the caller's organisation only to
  ask whether it is frozen and where to write the audit entry.
\<close>

lemma decide_approval_takes_effect:
  assumes "get_approval i s = Some a" and "ap_status a = ''pending''" and "decision \<in> {''approved'', ''rejected''}"
  shows "\<exists>t. decide_approval clk i decision who s = Inr (True, t)
    \<and> get_approval i t = Some (a\<lparr>ap_status := decision, ap_decided_by := Some who, ap_decided_at := Some (clk 0)\<rparr>)"
proof -
  let ?p = "\<lambda>a. ap_id a = i \<and> ap_status a = ''pending''"
  let ?g = "\<lambda>a. if ?p a then a\<lparr>ap_status := decision, ap_decided_by := Some who, ap_decided_at := Some (clk 0)\<rparr> else a"
  have a: "a \<in> set (tab_rows (st_approvals s))" "ap_id a = i"
    using assms(1) fetchone_filter_SomeD by (fastforce simp: get_approval_def select_rows_def)+
  have "select_rows ?p (st_approvals s) \<noteq> []"
    using a assms(2) by (auto simp: select_rows_def filter_empty_conv)
  moreover have "fetchone (filter (\<lambda>a. ap_id a = i) (map ?g (tab_rows (st_approvals s)))) =
      map_option ?g (fetchone (filter (\<lambda>a. ap_id a = i) (tab_rows (st_approvals s))))"
    by (rule fetchone_filter_map) simp
  ultimately show ?thesis
    using assms a by (auto simp: decide_approval_def get_approval_def select_rows_def Let_def)
qed

lemma api_decision_takes_effect:
  assumes "get_approval i s = Some a" and "ap_status a = ''pending''"
    and "authorize who ''decide_approval''" and "open_freezes (who_org who) s = []"
  shows "fst (api_decide_approval js clk (Some who) i ''approved'' s) = 200
    \<and> map_option ap_status (get_approval i (snd (api_decide_approval js clk (Some who) i ''approved'' s))) = Some ''approved''
    \<and> st_freezes (snd (api_decide_approval js clk (Some who) i ''approved'' s)) = st_freezes s"
proof -
  obtain t where t: "decide_approval (\<lambda>n. clk (Suc n)) i ''approved'' (who_subject who) s = Inr (True, t)"
      "map_option ap_status (get_approval i t) = Some ''approved''"
    using decide_approval_takes_effect [OF assms(1,2), of "''approved''" "\<lambda>n. clk (Suc n)" "who_subject who"] by auto
  have "st_freezes t = st_freezes s" using t(1) by (auto simp: decide_approval_def Let_def)
  with t assms(3,4) show ?thesis
    by (simp add: api_decide_approval_def guarded_def current_identity_def freeze_state_active get_approval_def)
qed

text \<open>The organisation of the path is not compared with the caller's.\<close>

lemma resolve_token_frame: "st_users t = st_users s \<Longrightarrow> resolve_token token t = resolve_token token s"
  by (simp add: resolve_token_def)

lemma audit_append_users [simp]: "st_users (audit_append js clk org actor action target payload s) = st_users s"
  by (simp add: audit_append_def Let_def)

lemma resolve_token_inserted:
  assumes "resolve_token token s = None" and "nu_token u = Some token" and "token \<noteq> []"
  shows "resolve_token token (s\<lparr>st_users := snd (insert_row (user_row_of org u) (st_users s))\<rparr>) =
    Some (user_row_of org u (tab_seq (st_users s) + 1))"
proof -
  have "fetchone (xs @ [x]) = Some x" if "fetchone xs = None" for xs :: "user_row list" and x
    using that by (cases xs) (simp_all add: fetchone_def)
  with assms show ?thesis by (simp add: resolve_token_def select_rows_def user_row_of_def)
qed

lemma api_add_user_grants:
  assumes "authorize who ''manage_users''" and "valid_user u" and "nu_subject u \<notin> set (map nu_subject (list_users org s))"
    and "nu_token u = Some token" and "token \<noteq> []" and "resolve_token token s = None" and "role_of_value (nu_role u) = Inr r"
    and "(status, t) = api_add_user js clk (Some who) org u s"
  shows "status = 201 \<and> authenticate_safe [verify_local t] token = Some \<lparr>who_subject = nu_subject u, who_org = org, who_role = r\<rparr>"
proof -
  let ?t = "s\<lparr>st_users := snd (insert_row (user_row_of org u) (st_users s))\<rparr>"
  have t: "status = 201" "st_users t = st_users ?t"
    using assms by (simp_all add: api_add_user_def guarded_def current_identity_def add_user_result)
  have "resolve_token token t = Some (user_row_of org u (tab_seq (st_users s) + 1))"
    using resolve_token_inserted [OF assms(6,4,5), of org] resolve_token_frame [OF t(2)] by simp
  with assms t(1) show ?thesis by (simp add: authenticate_safe_def verify_local_def user_row_of_def del: role_of_value.simps)
qed

end
