(* ===== verification/Tenants.thy ===== *)
theory Tenants
  imports Handlers
begin

text \<open>
  Organisations share one database. What a request does to the rows of an organisation that
  the caller does not belong to: nothing, for every route but three.
\<close>

section \<open>The rows of an organisation\<close>

definition org_runs :: "int \<Rightarrow> store \<Rightarrow> run_row list" where
  "org_runs org s = select_rows (\<lambda>r. rn_org r = org) (st_runs s)"

definition org_findings :: "int \<Rightarrow> store \<Rightarrow> finding_row list" where
  "org_findings org s = select_rows (\<lambda>f. fr_contract f \<in> ct_id ` set (org_contracts org s)) (st_findings s)"

definition org_events :: "int \<Rightarrow> store \<Rightarrow> run_event list" where
  "org_events org s = select_rows (\<lambda>e. re_run e \<in> rn_id ` set (org_runs org s)) (st_events s)"

definition tenant_unchanged :: "int \<Rightarrow> store \<Rightarrow> store \<Rightarrow> bool" where
  "tenant_unchanged org s t \<longleftrightarrow>
     select_rows (\<lambda>u. us_org u = org) (st_users t) = select_rows (\<lambda>u. us_org u = org) (st_users s)
     \<and> org_contracts org t = org_contracts org s \<and> org_findings org t = org_findings org s
     \<and> org_runs org t = org_runs org s \<and> org_events org t = org_events org s
     \<and> select_rows (\<lambda>a. ap_org a = org) (st_approvals t) = select_rows (\<lambda>a. ap_org a = org) (st_approvals s)
     \<and> select_rows (\<lambda>f. fz_org f = org) (st_freezes t) = select_rows (\<lambda>f. fz_org f = org) (st_freezes s)
     \<and> audit_all org t = audit_all org s \<and> list_environments org t = list_environments org s
     \<and> list_policies org t = list_policies org s \<and> list_workers org t = list_workers org s
     \<and> select_rows (\<lambda>w. wh_org w = org) (st_webhooks t) = select_rows (\<lambda>w. wh_org w = org) (st_webhooks s)"

lemma tenant_unchanged_refl [simp]: "tenant_unchanged org s s"
  by (simp add: tenant_unchanged_def)

lemma tenant_unchanged_trans: "tenant_unchanged org s t \<Longrightarrow> tenant_unchanged org t u \<Longrightarrow> tenant_unchanged org s u"
  by (simp add: tenant_unchanged_def)

lemmas tenant_defs = tenant_unchanged_def org_contracts_def org_findings_def org_runs_def org_events_def
  audit_all_def list_environments_def list_policies_def list_workers_def

text \<open>Updating rows of another organisation leaves the selected ones alone.\<close>

lemma select_update_other:
  assumes "\<And>r. r \<in> set (tab_rows t) \<Longrightarrow> P r \<Longrightarrow> Q r = Q (f r) \<and> \<not> Q r"
  shows "select_rows Q (update_rows P f t) = select_rows Q t"
proof -
  have "filter Q (map (\<lambda>r. if P r then f r else r) rs) = filter Q rs"
    if "\<And>r. r \<in> set rs \<Longrightarrow> P r \<Longrightarrow> Q r = Q (f r) \<and> \<not> Q r" for rs
    using that by (induction rs) auto
  then show ?thesis unfolding select_rows_def rows_update_rows by this (rule assms)
qed

lemma select_insert_other: "\<not> Q (mk (tab_seq t + 1)) \<Longrightarrow> select_rows Q (snd (insert_row mk t)) = select_rows Q t"
  by (simp add: select_rows_def)

lemma select_delete_other: "(\<And>r. P r \<Longrightarrow> \<not> Q r) \<Longrightarrow> select_rows Q (delete_rows P t) = select_rows Q t"
  by (auto simp: select_rows_def delete_rows_def intro!: filter_cong)

section \<open>The methods of the store\<close>

lemma unchanged_audit: "org' \<noteq> org \<Longrightarrow> tenant_unchanged org s (audit_append js clk org' actor action target payload s)"
  by (simp add: tenant_unchanged_def audit_all_append org_contracts_def org_findings_def org_runs_def org_events_def
      list_environments_def list_policies_def list_workers_def) (simp add: audit_append_def Let_def)

lemma unchanged_user: "org' \<noteq> org \<Longrightarrow> add_user org' u s = Inr (i, t) \<Longrightarrow> tenant_unchanged org s t"
  by (auto simp: add_user_result tenant_defs user_row_of_def select_insert_other split: if_splits)

lemma unchanged_org: "create_org clk name s = Inr (i, t) \<Longrightarrow> tenant_unchanged org s t"
  by (auto simp: create_org_def Let_def split_beta tenant_defs split: if_splits)

lemma unchanged_publish:
  assumes "org' \<noteq> org" and run: "publish_contract js clk org' title version proto spec who s = Inr (i, t)"
  shows "tenant_unchanged org s t"
proof (rule publish_contract_row [OF run])
  fix c
  assume "t = s\<lparr>st_contracts := snd (insert_row (\<lambda>i. c\<lparr>ct_id := i\<rparr>) (st_contracts s))\<rparr>" and "ct_org c = org'"
  with assms(1) show ?thesis by (simp add: tenant_defs select_insert_other)
qed

lemma unchanged_findings:
  assumes "contract \<notin> ct_id ` set (org_contracts org s)"
  shows "tenant_unchanged org s (snd (add_findings clk contract fs s))"
proof -
  have "select_rows Q (insert_findings clk contract n fs t) = select_rows Q t"
    if "\<And>f. fr_contract f = contract \<Longrightarrow> \<not> Q f" for Q n t
    using that by (induction clk contract n fs t rule: insert_findings.induct) (simp_all add: select_insert_other)
  with assms show ?thesis by (simp add: add_findings_def tenant_defs)
qed

lemma unchanged_record: "org' \<noteq> org \<Longrightarrow> tenant_unchanged org s (snd (record_run clk org' n s))"
  by (auto simp: record_run_def Let_def split_beta tenant_defs select_insert_other split: option.split)

lemma unchanged_event:
  assumes "i \<notin> rn_id ` set (org_runs org s)"
  shows "tenant_unchanged org s (append_run_event clk i message pct s)"
  using assms by (simp add: append_run_event_def tenant_defs select_insert_other)

lemma unchanged_worker: "org' \<noteq> org \<Longrightarrow> tenant_unchanged org s (snd (register_worker clk org' name labels capacity s))"
  by (auto simp: register_worker_def Let_def tenant_defs select_insert_other intro!: select_update_other)

lemma unchanged_environment: "org' \<noteq> org \<Longrightarrow> tenant_unchanged org s (snd (register_environment org' e s))"
  by (auto simp: register_environment_def Let_def split_beta tenant_defs select_insert_other intro!: select_delete_other)

lemma unchanged_policy: "org' \<noteq> org \<Longrightarrow> tenant_unchanged org s (set_policy clk org' name content s)"
  by (auto simp: set_policy_def Let_def tenant_defs select_insert_other intro!: select_update_other)

lemma unchanged_webhook: "org' \<noteq> org \<Longrightarrow> tenant_unchanged org s (snd (register_webhook clk org' url secret_ref events s))"
  by (simp add: register_webhook_def Let_def split_beta tenant_defs select_insert_other)

lemma unchanged_approval: "org' \<noteq> org \<Longrightarrow> tenant_unchanged org s (snd (request_approval clk org' title v w why who guide s))"
  by (simp add: request_approval_def Let_def split_beta tenant_defs select_insert_other)

lemma unchanged_freeze:
  assumes "org' \<noteq> org"
  shows "tenant_unchanged org s (snd (freeze js clk org' actor reason review_by s))"
proof (cases "open_freezes org' s = []")
  case True
  let ?s = "s\<lparr>st_freezes := snd (insert_row (\<lambda>i. \<lparr>fz_id = i, fz_org = org', fz_reason = reason, fz_actor = actor,
     fz_created_at = clk 1, fz_review_by = review_by, fz_lifted_at = None, fz_lifted_by = None, fz_lift_reason = None\<rparr>) (st_freezes s))\<rparr>"
  have "tenant_unchanged org s ?s" using assms by (simp add: tenant_defs select_insert_other)
  with unchanged_audit [OF assms] True show ?thesis
    by (auto simp: freeze_def Let_def freeze_state_active intro: tenant_unchanged_trans)
qed (simp add: freeze_def Let_def freeze_state_active)

lemma unchanged_lift:
  assumes "org' \<noteq> org" and "freezes_ok s"
  shows "tenant_unchanged org s (snd (lift_freeze js clk org' actor reason s))"
proof (cases "open_freezes org' s = []")
  case False
  let ?row = "last (open_freezes org' s)"
  let ?f = "\<lambda>f. f\<lparr>fz_lifted_at := Some (clk 0), fz_lifted_by := Some actor, fz_lift_reason := Some reason\<rparr>"
  let ?s = "s\<lparr>st_freezes := update_rows (\<lambda>f. fz_id f = fz_id ?row) ?f (st_freezes s)\<rparr>"
  have row: "?row \<in> set (tab_rows (st_freezes s))" "fz_org ?row = org'"
    using last_in_set [OF False] by (auto simp: open_freezes_def select_rows_def open_freeze_def)
  have "distinct (map fz_id (tab_rows (st_freezes s)))"
    using assms(2) unfolding freezes_ok_def ids_increase_def by (metis strict_sorted_iff)
  then have same: "f = ?row" if "f \<in> set (tab_rows (st_freezes s))" "fz_id f = fz_id ?row" for f
    using that row(1) by (auto simp: distinct_map inj_on_def)
  have foreign: "fz_org f \<noteq> org" if "f \<in> set (tab_rows (st_freezes s))" "fz_id f = fz_id ?row" for f
    using same [OF that] row(2) assms(1) by simp
  have "select_rows (\<lambda>f. fz_org f = org) (update_rows (\<lambda>f. fz_id f = fz_id ?row) ?f (st_freezes s)) =
      select_rows (\<lambda>f. fz_org f = org) (st_freezes s)"
    by (rule select_update_other) (simp add: foreign)
  then have "tenant_unchanged org s ?s" by (simp add: tenant_defs)
  with unchanged_audit [OF assms(1)] False show ?thesis
    by (auto simp: lift_freeze_def open_freezes_def newest_one Let_def intro: tenant_unchanged_trans)
qed (simp add: lift_freeze_def open_freezes_def newest_one)

lemma unchanged_claim:
  assumes "org' \<noteq> org" and "runs_ok s"
  shows "tenant_unchanged org s (snd (claim clk org' worker s))"
proof (cases "fetchone (select_rows (queued_in org') (st_runs s))")
  case None
  then show ?thesis by (simp add: claim_def claim_next_run_def)
next
  case (Some row)
  then have row: "row \<in> set (tab_rows (st_runs s))" "rn_org row = org'"
    unfolding select_rows_def by (auto dest: fetchone_filter_SomeD simp: queued_in_def)
  let ?s = "s\<lparr>st_runs := update_rows (\<lambda>r. rn_id r = rn_id row) (start_row clk worker) (st_runs s)\<rparr>"
  have foreign: "rn_org r \<noteq> org" if "r \<in> set (tab_rows (st_runs s))" "rn_id r = rn_id row" for r
    using runs_ok_same [OF assms(2) that(1) row(1) that(2)] row(2) assms(1) by simp
  have runs: "org_runs org ?s = org_runs org s"
    unfolding org_runs_def by (simp, rule select_update_other) (simp add: foreign)
  then have "tenant_unchanged org s ?s" by (simp add: tenant_unchanged_def org_contracts_def org_findings_def org_events_def
      audit_all_def list_environments_def list_policies_def list_workers_def)
  moreover have "rn_id row \<notin> rn_id ` set (org_runs org ?s)"
    unfolding runs by (auto simp: org_runs_def select_rows_def dest: foreign [OF _ sym])
  ultimately show ?thesis using Some unchanged_event [of "rn_id row" org ?s]
    by (auto simp: claim_def claim_next_run_def Let_def start_row_def [abs_def] intro: tenant_unchanged_trans)
qed

lemma unchanged_enqueue:
  assumes "org' \<noteq> org" and "runs_ok s"
  shows "tenant_unchanged org s (snd (enqueue m clk org' j s))"
proof -
  let ?n = "\<lparr>nr_kind = nj_kind j, nr_requested_by = nj_requested_by j, nr_result = None, nr_status = ''queued'',
     nr_verification_for = nj_verification_for j, nr_environment = nj_environment j, nr_idempotency_key = nj_idempotency_key j\<rparr>"
  let ?r = "record_run clk org' ?n s"
  have runs: "org_runs org (snd ?r) = org_runs org s"
    using unchanged_record [OF assms(1), of s clk ?n] by (simp add: tenant_unchanged_def)
  have "fst ?r \<notin> rn_id ` set (org_runs org s)"
  proof (cases "Option.bind (nr_idempotency_key ?n) (\<lambda>k. find_run_by_idempotency_key org' k s)")
    case None
    have "rn_id r \<le> tab_seq (st_runs s)" if "r \<in> set (tab_rows (st_runs s))" for r
      using that assms(2) by (simp add: runs_ok_def ids_increase_def)
    with None show ?thesis by (force simp: record_run_def Let_def split_beta org_runs_def select_rows_def)
  next
    case (Some row)
    then have row: "row \<in> set (tab_rows (st_runs s))" "rn_org row = org'"
      unfolding find_run_by_idempotency_key_def select_rows_def
      by (auto simp: bind_eq_Some_conv dest!: fetchone_filter_SomeD)
    from Some have same_id: "fst ?r = rn_id row" by (simp add: record_run_def)
    have "rn_org q \<noteq> org" if "q \<in> set (tab_rows (st_runs s))" "rn_id q = rn_id row" for q
      using runs_ok_same [OF assms(2) that(1) row(1) that(2)] row(2) assms(1) by simp
    then have "rn_id row \<notin> rn_id ` set (org_runs org s)"
      unfolding org_runs_def select_rows_def image_iff Bex_def set_filter by (metis (lifting) mem_Collect_eq)
    then show ?thesis unfolding same_id .
  qed
  then have "fst ?r \<notin> rn_id ` set (org_runs org (snd ?r))" unfolding runs .
  note event = unchanged_event [OF this]
  have "tenant_unchanged org s (snd (enqueue_admitted clk org' j s))"
    unfolding enqueue_admitted_def Let_def split_beta snd_conv
    by (rule tenant_unchanged_trans [OF unchanged_record [OF assms(1)] event])
  then show ?thesis by (simp add: enqueue_def Let_def split_beta split: option.split)
qed

section \<open>Routes\<close>

definition crosses_tenants :: "request \<Rightarrow> bool" where
  "crosses_tenants r \<longleftrightarrow> (case r of
     AddUser _ _ \<Rightarrow> True | CancelRun _ \<Rightarrow> True | DecideApproval _ _ \<Rightarrow> True | CreateOrg _ _ _ \<Rightarrow> True | _ \<Rightarrow> False)"

lemma unchanged_guarded:
  assumes "\<And>i. who = Some i \<Longrightarrow> tenant_unchanged org s (snd (h i s))"
  shows "tenant_unchanged org s (snd (guarded who action h s))"
  using assms by (auto simp: guarded_def current_identity_def split: option.split)

lemma unchanged_publish_route:
  assumes "who_org i \<noteq> org" and "contracts_ok js s"
  shows "tenant_unchanged org s (snd (api_publish_contract js clk (Some i) title version proto spec findings s))"
  unfolding api_publish_contract_def
proof (rule unchanged_guarded, simp only: option.inject)
  fix i'
  assume i': "i = i'"
  show "tenant_unchanged org s (snd (case publish_contract js clk (who_org i') title version proto spec (who_subject i') s of
       Inl _ \<Rightarrow> (500, s)
     | Inr (contract, s) \<Rightarrow>
         let fs = (case findings of None \<Rightarrow> [] | Some fs \<Rightarrow> fs);
             s = (if findings = None then s else snd (add_findings (\<lambda>n. clk (Suc n)) contract fs s))
         in (201, audit_append js (\<lambda>n. clk (n + 1 + length fs)) (who_org i') (who_subject i') ''contract.published''
               (title @ ''@'' @ version) [(''checksum'', PBool True)] s)))"
  proof (cases "publish_contract js clk (who_org i') title version proto spec (who_subject i') s")
    case (Inr r)
    obtain c t where r: "r = (c, t)" by (cases r)
    have run: "publish_contract js clk (who_org i') title version proto spec (who_subject i') s = Inr (c, t)"
      using Inr r by simp
    have step: "tenant_unchanged org s t" using unchanged_publish [OF _ run] assms(1) i' by simp
    have "c = tab_seq (st_contracts s) + 1"
      using run by (auto simp: publish_contract_def Let_def split_beta split: if_splits)
    moreover have "ct_id d \<le> tab_seq (st_contracts s)" if "d \<in> set (org_contracts org s)" for d
      using that assms(2) by (simp add: contracts_ok_def ids_increase_def org_contracts_def select_rows_def)
    ultimately have "c \<notin> ct_id ` set (org_contracts org t)"
      using step by (force simp: tenant_unchanged_def)
    from unchanged_findings [OF this] have "tenant_unchanged org s (snd (add_findings clk' c fs t))" for clk' fs
      by (rule tenant_unchanged_trans [OF step])
    with step show ?thesis
      using assms(1) i' by (auto simp: Inr r Let_def intro: tenant_unchanged_trans [OF _ unchanged_audit])
  qed simp
qed

lemma unchanged_findings_route:
  assumes "who_org i \<noteq> org" and "contracts_ok js s"
  shows "tenant_unchanged org s (snd (api_add_findings clk (Some i) contract findings s))"
  unfolding api_add_findings_def
proof (rule unchanged_guarded, simp only: option.inject)
  fix i'
  assume i': "i = i'"
  have "tenant_unchanged org s (snd (add_findings clk contract findings s))"
    if "get_contract contract s = Some c" "ct_org c = who_org i'" for c
  proof (rule unchanged_findings, rule notI)
    assume "contract \<in> ct_id ` set (org_contracts org s)"
    then obtain d where d: "d \<in> set (tab_rows (st_contracts s))" "ct_org d = org" "ct_id d = contract"
      by (auto simp: org_contracts_def select_rows_def)
    have c: "c \<in> set (tab_rows (st_contracts s))" "ct_id c = contract"
      using that(1) unfolding get_contract_def select_rows_def by (auto dest: fetchone_filter_SomeD)
    have "distinct (map ct_id (tab_rows (st_contracts s)))"
      using assms(2) unfolding contracts_ok_def ids_increase_def by (metis strict_sorted_iff)
    with c d have "c = d" by (auto simp: distinct_map inj_on_def)
    with d that(2) assms(1) i' show False by simp
  qed
  then show "tenant_unchanged org s (snd (case get_contract contract s of
       None \<Rightarrow> (404, s)
     | Some c \<Rightarrow> if ct_org c \<noteq> who_org i' then (404, s) else (201, snd (add_findings clk contract findings s))))"
    by (auto split: option.split)
qed

lemma unchanged_simple_routes:
  assumes "who_org i \<noteq> org" and "runs_ok s" and "freezes_ok s"
  shows "tenant_unchanged org s (snd (api_record_run clk (Some i) n s))"
    "tenant_unchanged org s (snd (api_enroll_worker js clk (Some i) name labels capacity s))"
    "tenant_unchanged org s (snd (api_enqueue_job m clk (Some i) job s))"
    "tenant_unchanged org s (snd (api_claim_job clk (Some i) worker s))"
    "tenant_unchanged org s (snd (api_register_environment js clk (Some i) e s))"
    "tenant_unchanged org s (snd (api_set_policy js clk (Some i) name content s))"
    "tenant_unchanged org s (snd (api_request_approval clk (Some i) title v w why guide s))"
    "tenant_unchanged org s (snd (api_freeze_on js clk (Some i) reason review_by s))"
    "tenant_unchanged org s (snd (api_freeze_off js clk (Some i) reason s))"
    "tenant_unchanged org s (snd (api_register_webhook clk (Some i) url secret_ref events s))"
proof -
  note audit = tenant_unchanged_trans [OF _ unchanged_audit [OF assms(1)]]
  show "tenant_unchanged org s (snd (api_record_run clk (Some i) n s))"
    unfolding api_record_run_def by (rule unchanged_guarded) (simp add: unchanged_record assms(1))
  show "tenant_unchanged org s (snd (api_enroll_worker js clk (Some i) name labels capacity s))"
    unfolding api_enroll_worker_def by (rule unchanged_guarded) (simp add: audit unchanged_worker assms(1))
  have "snd (case enqueue m clk (who_org i) j s of (Inl _, t) \<Rightarrow> (409 :: int, t) | (Inr (_, created), t) \<Rightarrow> (if created then 201 else 200, t))
      = snd (enqueue m clk (who_org i) j s)" for j
    by (auto split: prod.split sum.split)
  then show "tenant_unchanged org s (snd (api_enqueue_job m clk (Some i) job s))"
    unfolding api_enqueue_job_def by (intro unchanged_guarded) (auto simp: unchanged_enqueue assms(1,2))
  show "tenant_unchanged org s (snd (api_claim_job clk (Some i) worker s))"
    unfolding api_claim_job_def
    by (rule unchanged_guarded) (simp add: Let_def split_beta unchanged_claim assms(1,2))
  show "tenant_unchanged org s (snd (api_register_environment js clk (Some i) e s))"
    unfolding api_register_environment_def by (rule unchanged_guarded) (simp add: audit unchanged_environment assms(1))
  show "tenant_unchanged org s (snd (api_set_policy js clk (Some i) name content s))"
    unfolding api_set_policy_def by (rule unchanged_guarded) (simp add: audit unchanged_policy assms(1))
  show "tenant_unchanged org s (snd (api_request_approval clk (Some i) title v w why guide s))"
    unfolding api_request_approval_def by (rule unchanged_guarded) (simp add: unchanged_approval assms(1))
  show "tenant_unchanged org s (snd (api_freeze_on js clk (Some i) reason review_by s))"
    unfolding api_freeze_on_def by (rule unchanged_guarded) (simp add: unchanged_freeze assms(1))
  show "tenant_unchanged org s (snd (api_freeze_off js clk (Some i) reason s))"
    unfolding api_freeze_off_def by (rule unchanged_guarded) (simp add: unchanged_lift assms(1,3))
  show "tenant_unchanged org s (snd (api_register_webhook clk (Some i) url secret_ref events s))"
    unfolding api_register_webhook_def by (rule unchanged_guarded) (simp add: unchanged_webhook assms(1))
qed

lemma handle_unauthenticated: "\<not> crosses_tenants r \<Longrightarrow> snd (handle js m clk None r s) = s"
  by (cases r) (simp_all add: crosses_tenants_def guarded_def current_identity_def api_publish_contract_def
      api_add_findings_def api_record_run_def api_enroll_worker_def api_enqueue_job_def api_claim_job_def
      api_register_environment_def api_set_policy_def api_request_approval_def api_freeze_on_def api_freeze_off_def
      api_register_webhook_def)

lemma handle_isolates:
  assumes "\<not> crosses_tenants r" and "\<And>i. who = Some i \<Longrightarrow> who_org i \<noteq> org"
    and "runs_ok s" and "contracts_ok js s" and "freezes_ok s"
  shows "tenant_unchanged org s (snd (handle js m clk who r s))"
proof (cases who)
  case None
  with handle_unauthenticated [OF assms(1)] show ?thesis by simp
next
  case (Some i)
  note other = assms(2) [OF Some]
  note routes = unchanged_simple_routes [OF other assms(3,5)] unchanged_publish_route [OF other assms(4)]
    unchanged_findings_route [OF other assms(4)]
  from assms(1) show ?thesis by (cases r) (simp_all add: Some routes crosses_tenants_def)
qed

section \<open>Requests are sequences of store steps\<close>

lemma reachable_runs: "reachable_store js s \<Longrightarrow> runs_ok s"
proof (induction rule: reachable_store.induct)
  case start
  show ?case by (simp add: runs_ok_def empty_store_def)
next
  case (step s t)
  from step(2) have "runs_ok s \<Longrightarrow> runs_ok t"
  proof (induction rule: store_step.induct)
    case (run_claim s clk org worker)
    then show ?case using runs_ok_act [of s 0 "Claim clk org worker"] by (simp add: claim_def)
  next
    case (run_cancel s clk i)
    then show ?case by (auto simp: cancel_run_def intro: runs_ok_update split: option.split)
  next
    case (run_update s clk i status res)
    then show ?case by (rule runs_ok_update)
  next
    case (run_record s clk org n)
    then show ?case by (rule runs_ok_record)
  next
    case (purge s cutoff)
    then show ?case by (simp add: purge_older_than_def runs_ok_def ids_increase_delete)
  next
    case (freeze_on s clk org actor reason review_by)
    then show ?case by (auto simp: freeze_def Let_def elim!: runs_ok_frame [rotated])
  next
    case (freeze_off s clk org actor reason)
    then show ?case by (auto simp: lift_freeze_def Let_def elim!: runs_ok_frame [rotated] split: list.splits)
  qed (auto elim!: runs_ok_frame [rotated] simp: store_method_defs Let_def split_beta split: option.splits if_splits)
  with step.IH show ?case by blast
qed

lemma guarded_steps:
  assumes "\<And>i. (store_step js)\<^sup>*\<^sup>* s (snd (h i s))"
  shows "(store_step js)\<^sup>*\<^sup>* s (snd (guarded who action h s))"
  using assms by (simp add: guarded_def split: sum.split)

lemma one_step: "store_step js s t \<Longrightarrow> (store_step js)\<^sup>*\<^sup>* s t"
  by (rule r_into_rtranclp)

lemma next_step: "(store_step js)\<^sup>*\<^sup>* s t \<Longrightarrow> store_step js t u \<Longrightarrow> (store_step js)\<^sup>*\<^sup>* s u"
  by (rule rtranclp.rtrancl_into_rtrancl)

lemma audit_after: "(store_step js)\<^sup>*\<^sup>* s t \<Longrightarrow> (store_step js)\<^sup>*\<^sup>* s (audit_append js clk org actor action target payload t)"
  by (rule next_step [OF _ store_step.audit])

lemma event_after: "(store_step js)\<^sup>*\<^sup>* s t \<Longrightarrow> (store_step js)\<^sup>*\<^sup>* s (append_run_event clk i message pct t)"
  by (rule next_step [OF _ store_step.run_event])

lemma enqueue_steps: "(store_step js)\<^sup>*\<^sup>* s (snd (enqueue m clk org j s))"
proof -
  have "(store_step js)\<^sup>*\<^sup>* s (snd (enqueue_admitted clk org j s))"
    unfolding enqueue_admitted_def Let_def split_beta snd_conv
    by (rule event_after [OF one_step [OF store_step.run_record]])
  then show ?thesis by (simp add: enqueue_def Let_def split_beta split: option.split)
qed

lemma handle_steps: "(store_step js)\<^sup>*\<^sup>* s (snd (handle js m clk who r s))"
proof (cases r)
  case (CreateOrg name token subject)
  have "(store_step js)\<^sup>*\<^sup>* s u" if "create_org clk name s = Inr (i, t)" "add_user i v t = Inr (j, u)" for i t v j u
    using that by (blast intro: next_step [OF one_step] store_step.org_create store_step.user_add)
  then show ?thesis by (auto simp: CreateOrg api_create_org_def Let_def intro!: audit_after split: sum.split
        intro: one_step store_step.org_create)
next
  case (AddUser org u)
  show ?thesis unfolding AddUser handle.simps api_add_user_def
    by (rule guarded_steps) (auto intro!: audit_after intro: one_step store_step.user_add split: sum.split)
next
  case (PublishContract title version proto spec findings)
  have "(store_step js)\<^sup>*\<^sup>* s (snd (add_findings clk' c fs t))"
    if "publish_contract js clk org title version proto spec subject s = Inr (c, t)" for org subject c t clk' fs
    by (rule next_step [OF one_step [OF store_step.publish [OF that]] store_step.findings])
  then show ?thesis unfolding PublishContract handle.simps api_publish_contract_def
    by (intro guarded_steps)
      (auto simp: Let_def intro!: audit_after intro: one_step store_step.publish split: sum.split)
next
  case (AddFindings contract findings)
  show ?thesis unfolding AddFindings handle.simps api_add_findings_def
    by (rule guarded_steps) (auto intro: one_step store_step.findings split: option.split)
next
  case (RecordRun n)
  show ?thesis unfolding RecordRun handle.simps api_record_run_def
    by (rule guarded_steps) (auto intro: one_step store_step.run_record)
next
  case (CancelRun run)
  show ?thesis unfolding CancelRun handle.simps api_cancel_run_def
    by (rule guarded_steps) (auto simp: Let_def split_beta intro: one_step store_step.run_cancel)
next
  case (EnrollWorker name labels capacity)
  show ?thesis unfolding EnrollWorker handle.simps api_enroll_worker_def
    by (rule guarded_steps) (auto intro!: audit_after intro: one_step store_step.worker)
next
  case (EnqueueJob job)
  have "snd (case enqueue m clk org j s of (Inl _, t) \<Rightarrow> (409 :: int, t) | (Inr (_, created), t) \<Rightarrow> (if created then 201 else 200, t))
      = snd (enqueue m clk org j s)" for org j
    by (auto split: prod.split sum.split)
  then show ?thesis unfolding EnqueueJob handle.simps api_enqueue_job_def
    by (intro guarded_steps) (simp add: enqueue_steps)
next
  case (ClaimJob worker)
  show ?thesis unfolding ClaimJob handle.simps api_claim_job_def
    by (rule guarded_steps) (auto simp: Let_def split_beta claim_def intro: one_step store_step.run_claim)
next
  case (RegisterEnvironment e)
  show ?thesis unfolding RegisterEnvironment handle.simps api_register_environment_def
    by (rule guarded_steps) (auto intro!: audit_after intro: one_step store_step.environment)
next
  case (SetPolicy name content)
  show ?thesis unfolding SetPolicy handle.simps api_set_policy_def
    by (rule guarded_steps) (auto intro!: audit_after intro: one_step store_step.policy)
next
  case (RequestApproval title v w why guide)
  show ?thesis unfolding RequestApproval handle.simps api_request_approval_def
    by (rule guarded_steps) (auto intro: one_step store_step.approval_request)
next
  case (DecideApproval approval decision)
  show ?thesis unfolding DecideApproval handle.simps api_decide_approval_def
    by (rule guarded_steps)
      (auto intro!: audit_after intro: one_step store_step.approval_decide split: sum.split prod.split)
next
  case (FreezeOn reason review_by)
  show ?thesis unfolding FreezeOn handle.simps api_freeze_on_def
    by (rule guarded_steps) (auto intro: one_step store_step.freeze_on)
next
  case (FreezeOff reason)
  show ?thesis unfolding FreezeOff handle.simps api_freeze_off_def
    by (rule guarded_steps) (auto intro: one_step store_step.freeze_off)
next
  case (RegisterWebhook url secret_ref events)
  show ?thesis unfolding RegisterWebhook handle.simps api_register_webhook_def
    by (rule guarded_steps) (auto intro: one_step store_step.webhook)
qed

text \<open>A history of requests: each with its clock and its caller.\<close>

definition serve :: "json_lib \<Rightarrow> int \<Rightarrow> (clock \<times> identity option \<times> request) list \<Rightarrow> store \<Rightarrow> store" where
  "serve js m = fold (\<lambda>(clk, who, r) s. snd (handle js m clk who r s))"

lemma serve_reachable: "reachable_store js s \<Longrightarrow> reachable_store js (serve js m rs s)"
proof (induction rs arbitrary: s)
  case (Cons q rs)
  obtain clk who r where q: "q = (clk, who, r)" by (cases q)
  have "reachable_store js (snd (handle js m clk who r s))" by (rule reachable_steps [OF handle_steps Cons.prems])
  from Cons.IH [OF this] show ?case by (simp add: serve_def q)
qed (simp add: serve_def)

end
