(* ===== verification/ServerSamples.thy ===== *)
theory ServerSamples
  imports Tenants
begin

text \<open>Small logs, stores and callers on which the properties of the server are applied.\<close>

definition plain_json :: json_lib where
  "plain_json = \<lparr>js_dumps = (\<lambda>_. ''{}''), js_sorted = (\<lambda>_. ''{}''), js_loads = (\<lambda>_. PDict [])\<rparr>"

definition noon :: clock where
  "noon = (\<lambda>_. ''12:00'')"

definition no_hmac :: hmac where
  "no_hmac = (\<lambda>key document. key)"

definition sign_in :: audit_entry where
  "sign_in = (let e = \<lparr>au_id = 1, au_ts = ''12:00'', au_actor = ''ann|ops'', au_action = ''run'', au_target = ''t'',
     au_payload = ''{}'', au_prev = [], au_hash = []\<rparr> in e\<lparr>au_hash := entry_hash e\<rparr>)"

definition frozen_store :: store where
  "frozen_store = snd (freeze plain_json noon 1 ''ann'' ''outage'' None empty_store)"

definition lifted_store :: store where
  "lifted_store = snd (lift_freeze plain_json noon 1 ''bob'' ''fixed'' frozen_store)"

definition export_of :: "store \<Rightarrow> export_doc" where
  "export_of s = audit_export no_hmac ''1'' noon (Some ''acme'') 1 (Some ''key'') s"

definition nightly :: "string \<Rightarrow> new_job" where
  "nightly k = \<lparr>nj_kind = ''fuzz'', nj_requested_by = ''ci'', nj_verification_for = None, nj_environment = None,
     nj_idempotency_key = Some k\<rparr>"

definition two_jobs :: store where
  "two_jobs = fold (queue_act 4) [Enqueue noon 1 (nightly ''a''), Enqueue noon 1 (nightly ''b'')] empty_store"

definition cancelled_job :: store where
  "cancelled_job = fold (queue_act 4) [Enqueue noon 1 (nightly ''a''), Cancel noon 1] empty_store"

definition release_request :: "store \<Rightarrow> store" where
  "release_request s = snd (request_approval noon 1 ''shop'' ''1.0'' ''2.0'' ''fix'' ''ann'' None s)"

definition stranger :: identity where
  "stranger = \<lparr>who_subject = ''eve'', who_org = 2, who_role = ADMIN\<rparr>"

definition ann :: new_user where
  "ann = \<lparr>nu_subject = ''ann'', nu_role = ''owner'', nu_display_name = ''Ann'', nu_kind = ''user'', nu_token = Some ''t0''\<rparr>"

definition mallory :: new_user where
  "mallory = \<lparr>nu_subject = ''mal'', nu_role = ''owner'', nu_display_name = [], nu_kind = ''user'', nu_token = Some ''t1''\<rparr>"

definition acme :: store where
  "acme = (case create_org noon ''acme'' empty_store of Inr (_, s) \<Rightarrow>
     (case add_user 1 ann s of Inr (_, s) \<Rightarrow>
       (case publish_contract plain_json noon 1 ''shop'' ''1.0'' ''openapi'' (PDict []) ''ann'' s of Inr (_, s) \<Rightarrow>
          set_policy noon 1 ''gate'' ''strict'' (snd (register_environment 1 \<lparr>ne_name = ''prod'', ne_base_url = ''http://p'',
            ne_safety_class = ''prod'', ne_owner = None, ne_allowed_modes = ''read-only''\<rparr> s)))))"

lemma acme_reachable: "reachable_store plain_json acme"
proof -
  obtain s1 where s1: "create_org noon ''acme'' empty_store = Inr (1, s1)"
    by (simp add: create_org_def empty_store_def empty_table_def insert_row_def Let_def)
  have "st_users s1 = empty_table" "st_contracts s1 = empty_table"
    using s1 by (auto simp: create_org_def Let_def empty_store_def empty_table_def insert_row_def)
  moreover then obtain s2 where s2: "add_user 1 ann s1 = Inr (1, s2)"
    by (simp add: add_user_result ann_def valid_user_def list_users_def select_rows_def empty_table_def)
  moreover have "st_contracts s2 = st_contracts s1" using s2 by (auto simp: add_user_result split: if_splits)
  ultimately obtain s3 where
    s3: "publish_contract plain_json noon 1 ''shop'' ''1.0'' ''openapi'' (PDict []) ''ann'' s2 = Inr (1, s3)"
    by (simp add: publish_contract_def empty_table_def insert_row_def Let_def)
  from reachable_store.step [OF reachable_store.start store_step.org_create [OF s1]]
  have "reachable_store plain_json s1" .
  from reachable_store.step [OF this store_step.user_add [OF s2]] have "reachable_store plain_json s2" .
  from reachable_store.step [OF this store_step.publish [OF s3]] have "reachable_store plain_json s3" .
  from reachable_store.step [OF reachable_store.step [OF this store_step.environment] store_step.policy]
  show ?thesis by (simp add: acme_def s1 s2 s3)
qed

lemma plain_json_faithful: "json_faithful plain_json"
  by (simp add: json_faithful_def plain_json_def)

lemma noon_runs: "clock_runs noon"
  by (simp add: clock_runs_def noon_def)

lemmas acme_eval = acme_def create_org_def add_user_def publish_contract_def register_environment_def set_policy_def
  empty_store_def empty_table_def insert_row_def delete_rows_def Let_def ann_def

lemma sign_in_valid: "ch_valid (verify_chain [sign_in])"
  by (simp add: sign_in_def verify_chain_def entry_hash_def entry_basis_def Let_def)

lemma frozen_store_reachable: "reachable_store plain_json frozen_store"
  unfolding frozen_store_def by (intro reachable_store.step [OF reachable_store.start] store_step.freeze_on)

lemma freeze_lifted: "(store_step plain_json)\<^sup>*\<^sup>* frozen_store lifted_store"
  unfolding lifted_store_def by (intro r_into_rtranclp store_step.freeze_off)

lemma frozen_store_frozen: "open_freezes 1 frozen_store \<noteq> []"
  by (simp add: frozen_store_def open_freezes_freeze)

lemma runs_ok_empty [simp]: "runs_ok empty_store"
  by (simp add: runs_ok_def empty_store_def)

lemma two_jobs_ok: "runs_ok two_jobs"
  unfolding two_jobs_def by (rule job_limit.history_ok) simp

lemma acme_next_unused: "unused_org 2 acme"
  by (simp add: unused_org_def list_users_def org_contracts_def list_environments_def list_policies_def list_webhooks_def
      select_rows_def acme_eval)

lemma acme_orgs: "tab_seq (st_orgs acme) = 1" "og_name ` set (tab_rows (st_orgs acme)) = {''acme''}"
  by (simp_all add: acme_eval)

lemma acme_exports: "\<exists>snap. export_org plain_json 1 acme = Inr snap \<and> sp_org_name snap = ''acme''"
  by (simp add: export_org_def get_org_def select_rows_def fetchone_def acme_eval)

end
