(* ===== verification/Workflows.thy ===== *)
theory Workflows
  imports Model
begin

text \<open>
  Stateful testing: the workflow models of src/apiverity/stateful/models.py, the validation of
  src/apiverity/stateful/graph.py and the execution of src/apiverity/stateful/engine.py. The
  HTTP client is the argument \<open>exchange\<close>: the answer to the n-th request, or the text of the
  error it raised. Durations are left out. Names, digits and white space are read as ASCII.
\<close>

section \<open>Models\<close>

record wf_request =
  wr_method :: string
  wr_path :: string
  wr_body :: pyval
  wr_headers :: "(string, string) dict"
  wr_query :: "(string, pyval) dict"

record wf_step =
  ws_name :: string
  ws_request :: wf_request
  ws_extract :: "(string, string) dict"
  ws_assert_status :: "int list option"
  ws_assert_jsonpath :: "(string, pyval) dict"

record workflow =
  wf_name :: string
  wf_inputs :: "string list"
  wf_allowed_methods :: "string list"
  wf_steps :: "wf_step list"
  wf_cleanup :: "wf_step list"

section \<open>Variables\<close>

definition name_start :: "char \<Rightarrow> bool" where
  "name_start c \<longleftrightarrow> (let n = of_char c :: int in (65 \<le> n \<and> n \<le> 90) \<or> (97 \<le> n \<and> n \<le> 122) \<or> n = 95)"

definition digit :: "char \<Rightarrow> bool" where
  "digit c \<longleftrightarrow> (let n = of_char c :: int in 48 \<le> n \<and> n \<le> 57)"

definition name_char :: "char \<Rightarrow> bool" where
  "name_char c \<longleftrightarrow> name_start c \<or> digit c"

definition is_name :: "string \<Rightarrow> bool" where
  "is_name s \<longleftrightarrow> s \<noteq> [] \<and> name_start (hd s) \<and> list_all name_char s"

definition open_brace :: char where "open_brace = CHR 0x7B"

definition close_brace :: char where "close_brace = CHR 0x7D"

definition placeholder :: "string \<Rightarrow> string" where
  "placeholder name = [open_brace] @ name @ [close_brace]"

text \<open>\<open>VARIABLE_RE\<close> after its opening brace: the name, and what follows the closing brace.\<close>

definition match_name :: "string \<Rightarrow> (string \<times> string) option" where
  "match_name s = (let name = takeWhile name_char s in
     case dropWhile name_char s of
       [] \<Rightarrow> None
     | c # rest \<Rightarrow> if c = close_brace \<and> is_name name then Some (name, rest) else None)"

lemma match_name_length: "match_name s = Some (name, rest) \<Longrightarrow> length rest < length s"
proof -
  assume "match_name s = Some (name, rest)"
  then obtain c where "dropWhile name_char s = c # rest"
    by (auto simp: match_name_def Let_def split: list.splits if_splits)
  then have "length (c # rest) \<le> length s" by (metis length_dropWhile_le)
  then show ?thesis by simp
qed

text \<open>\<open>findall\<close>: the names, in order of occurrence.\<close>

function find_names :: "string \<Rightarrow> string list" where
  "find_names [] = []"
| "find_names (c # s) = (if c = open_brace then
     (case match_name s of None \<Rightarrow> find_names s | Some (name, rest) \<Rightarrow> name # find_names rest)
     else find_names s)"
  by pat_completeness auto
termination
  by (relation "measure length") (auto dest: match_name_length)

fun variables_in :: "pyval \<Rightarrow> string list" where
  "variables_in (PStr s) = find_names s"
| "variables_in _ = []"

section \<open>Validation of a workflow as a graph\<close>

fun deep_vars :: "pyval \<Rightarrow> string list" where
  "deep_vars (PDict kvs) = concat (map (\<lambda>(k, v). find_names k @ deep_vars v) kvs)"
| "deep_vars (PList vs) = concat (map deep_vars vs)"
| "deep_vars v = variables_in v"

text \<open>\<open>request.model_dump()\<close>.\<close>

definition request_dump :: "wf_request \<Rightarrow> pyval" where
  "request_dump r = PDict [(''method'', PStr (wr_method r)), (''path'', PStr (wr_path r)), (''body'', wr_body r),
     (''headers'', PDict (map (\<lambda>(k, v). (k, PStr v)) (wr_headers r))), (''query'', PDict (wr_query r))]"

record graph_issue =
  gi_rule_id :: string
  gi_severity :: severity
  gi_message :: string

definition DESTRUCTIVE :: "string list" where
  "DESTRUCTIVE = [''POST'', ''PUT'', ''PATCH'', ''DELETE'']"

record graph_state =
  gs_issues :: "graph_issue list"
  gs_available :: "string list"
  gs_names :: "string list"
  gs_extracted :: "(string, string) dict"

definition graph_step :: "wf_step \<Rightarrow> graph_state \<Rightarrow> graph_state" where
  "graph_step step g =
     (let missing = sorted_diff (deep_vars (request_dump (ws_request step))) (gs_available g);
          dup = (if ws_name step \<in> set (gs_names g) then
            [\<lparr>gi_rule_id = ''WF-DUP-STEP'', gi_severity = ERROR, gi_message = ''duplicate step name '' @ quoted (ws_name step)\<rparr>]
            else []);
          unbound = (if missing \<noteq> [] then
            [\<lparr>gi_rule_id = ''WF-MISSING-VAR'', gi_severity = ERROR, gi_message = ''step '' @ quoted (ws_name step)
               @ '' uses undefined variables: '' @ py_repr (str_list missing)\<rparr>]
            else [])
      in g\<lparr>gs_issues := gs_issues g @ dup @ unbound,
           gs_names := ws_name step # gs_names g,
           gs_extracted := (if upper (wr_method (ws_request step)) \<in> set DESTRUCTIVE \<and> ws_extract step \<noteq> []
             then fold (\<lambda>var. dict_set var (ws_name step)) (keys (ws_extract step)) (gs_extracted g) else gs_extracted g),
           gs_available := gs_available g @ keys (ws_extract step)\<rparr>)"

definition addressed :: "workflow \<Rightarrow> string list" where
  "addressed w = concat (map (\<lambda>step. find_names (wr_path (ws_request step))) (wf_steps w @ wf_cleanup w))"

definition delete_vars :: "workflow \<Rightarrow> string list" where
  "delete_vars w = find_names (join '' '' (map (\<lambda>step. wr_path (ws_request step))
     (filter (\<lambda>step. upper (wr_method (ws_request step)) = ''DELETE'') (wf_cleanup w))))"

definition graph_walk :: "workflow \<Rightarrow> graph_state" where
  "graph_walk w = fold graph_step (wf_steps w)
     \<lparr>gs_issues = [], gs_available = wf_inputs w, gs_names = [], gs_extracted = []\<rparr>"

definition validate_workflow_graph :: "workflow \<Rightarrow> graph_issue list" where
  "validate_workflow_graph w =
     (let g = graph_walk w;
          created = filter (\<lambda>var. var \<in> set (addressed w)) (sorted_set (keys (gs_extracted g)));
          incomplete = map (\<lambda>var. \<lparr>gi_rule_id = ''WF-INCOMPLETE-CLEANUP'', gi_severity = WARN,
              gi_message = ''resource '' @ quoted var @ '' created by '' @ quoted (dict_get_or (gs_extracted g) var [])
                @ '' is never deleted in cleanup''\<rparr>)
            (filter (\<lambda>var. var \<notin> set (delete_vars w)) created);
          unused = sorted_diff (delete_vars w) (keys (gs_extracted g) @ wf_inputs w)
      in gs_issues g @ incomplete @ (if unused \<noteq> [] then
           [\<lparr>gi_rule_id = ''WF-CLEANUP-UNKNOWN-VAR'', gi_severity = ERROR,
             gi_message = ''cleanup deletes undefined variables: '' @ py_repr (str_list unused)\<rparr>] else []))"

definition graph_ok :: "workflow \<Rightarrow> bool" where
  "graph_ok w \<longleftrightarrow> \<not> (\<exists>i \<in> set (validate_workflow_graph w). gi_severity i = ERROR)"

section \<open>Substitution\<close>

text \<open>\<open>str.replace\<close> of a text that is not empty.\<close>

function replace_all :: "string \<Rightarrow> string \<Rightarrow> string \<Rightarrow> string" where
  "replace_all old new s = (if old = [] \<or> s = [] then s
     else if prefix old s then new @ replace_all old new (drop (length old) s)
     else hd s # replace_all old new (tl s))"
  by pat_completeness auto
termination
  by (relation "measure (\<lambda>(old, new, s). length s)") (auto simp: neq_Nil_conv)

declare replace_all.simps [simp del]

definition substitute :: "string \<Rightarrow> (string, pyval) dict \<Rightarrow> string" where
  "substitute text variables = fold (\<lambda>(key, value) out. replace_all (placeholder key) (py_str value) out) variables text"

fun deep_substitute :: "(string, pyval) dict \<Rightarrow> pyval \<Rightarrow> pyval" where
  "deep_substitute variables (PStr s) = PStr (substitute s variables)"
| "deep_substitute variables (PDict kvs) = PDict (map (\<lambda>(k, v). (k, deep_substitute variables v)) kvs)"
| "deep_substitute variables (PList vs) = PList (map (deep_substitute variables) vs)"
| "deep_substitute variables v = v"

section \<open>The JSONPath subset\<close>

fun split_dots :: "string \<Rightarrow> string list" where
  "split_dots [] = [[]]"
| "split_dots (c # s) = (if c = CHR ''.'' then [] # split_dots s
     else (case split_dots s of [] \<Rightarrow> [[c]] | p # ps \<Rightarrow> (c # p) # ps))"

definition path_char :: "char \<Rightarrow> bool" where
  "path_char c \<longleftrightarrow> name_char c \<or> c = CHR ''.''"

fun digits_value :: "nat \<Rightarrow> string \<Rightarrow> nat" where
  "digits_value n [] = n"
| "digits_value n (c # s) = digits_value (10 * n + (of_char c - 48)) s"

text \<open>\<open>_JSONPATH_RE\<close>: the parts of the path, and the index if there is one.\<close>

definition parse_jsonpath :: "string \<Rightarrow> (string list \<times> nat option) option" where
  "parse_jsonpath expression = (case strip expression of
       d # p # s \<Rightarrow>
         if d = CHR ''$'' \<and> p = CHR ''.'' \<and> s \<noteq> [] \<and> name_start (hd s) then
           let path = split_dots (takeWhile path_char s) in
           (case dropWhile path_char s of
              [] \<Rightarrow> Some (path, None)
            | b # index \<Rightarrow>
                if b = CHR ''['' \<and> index \<noteq> [] \<and> last index = CHR '']'' \<and> butlast index \<noteq> [] \<and> list_all digit (butlast index)
                then Some (path, Some (digits_value 0 (butlast index))) else None)
         else None
     | _ \<Rightarrow> None)"

fun walk_path :: "string list \<Rightarrow> pyval \<Rightarrow> pyval option" where
  "walk_path [] v = Some v"
| "walk_path (k # ks) (PDict kvs) = (case map_of kvs k of None \<Rightarrow> None | Some v \<Rightarrow> walk_path ks v)"
| "walk_path (k # ks) _ = None"

definition extract_jsonpath :: "pyval \<Rightarrow> string \<Rightarrow> pyval option" where
  "extract_jsonpath data expression = (case parse_jsonpath expression of
     None \<Rightarrow> None
   | Some (path, index) \<Rightarrow> (case (walk_path path data, index) of
         (None, _) \<Rightarrow> None
       | (Some v, None) \<Rightarrow> Some v
       | (Some (PList vs), Some i) \<Rightarrow> if i < length vs then Some (vs ! i) else None
       | _ \<Rightarrow> None))"

end
