(* ===== verification/WorkflowRun.thy ===== *)
theory WorkflowRun
  imports Workflows
begin

text \<open>
  The execution of a workflow, \<open>WorkflowEngine\<close> of src/apiverity/stateful/engine.py: the steps
  until the first that does not pass, then every cleanup step. The requests sent so far are
  part of the state; the check of the host allowlist and the headers that every request of the
  engine carries are left out.
\<close>

section \<open>Requests and results\<close>

record sent_request =
  sq_method :: string
  sq_path :: string
  sq_query :: pyval
  sq_headers :: "(string, string) dict"
  sq_json :: pyval

datatype payload = NoContent | NotJson | Json pyval

record wf_response =
  rp_status :: int
  rp_payload :: payload

type_synonym exchange = "nat \<Rightarrow> sent_request \<Rightarrow> string + wf_response"

record step_result =
  sr_step :: string
  sr_status :: string
  sr_actual_status :: "int option"
  sr_violations :: "string list"
  sr_extracted :: "(string, pyval) dict"

record workflow_result =
  wo_workflow :: string
  wo_status :: string
  wo_steps :: "step_result list"
  wo_cleanup_steps :: "step_result list"
  wo_variables :: "(string, pyval) dict"

section \<open>One step\<close>

definition request_of :: "wf_request \<Rightarrow> (string, pyval) dict \<Rightarrow> sent_request" where
  "request_of r variables = \<lparr>sq_method = wr_method r, sq_path = substitute (wr_path r) variables,
     sq_query = deep_substitute variables (PDict (wr_query r)),
     sq_headers = map (\<lambda>(k, v). (k, substitute v variables)) (wr_headers r),
     sq_json = deep_substitute variables (wr_body r)\<rparr>"

definition status_violations :: "wf_step \<Rightarrow> int \<Rightarrow> string list" where
  "status_violations step status =
     (let expected = (case ws_assert_status step of None \<Rightarrow> [200, 201, 202, 204] | Some xs \<Rightarrow> xs) in
      if status \<in> set expected then []
      else [''status '' @ int_str status @ '' not in expected '' @ py_repr (PList (map PInt expected))])"

definition payload_value :: "payload \<Rightarrow> pyval" where
  "payload_value p = (case p of Json v \<Rightarrow> v | _ \<Rightarrow> PNone)"

definition payload_violations :: "wf_step \<Rightarrow> payload \<Rightarrow> string list" where
  "payload_violations step p = (if p = NotJson \<and> ws_extract step \<noteq> [] then
     [''response body is not JSON but extraction was requested''] else [])"

fun extract_all :: "(string \<times> string) list \<Rightarrow> pyval \<Rightarrow> (string, pyval) dict \<times> string list \<Rightarrow> (string, pyval) dict \<times> string list" where
  "extract_all [] data acc = acc"
| "extract_all ((var, expression) # es) data (extracted, violations) =
     (case extract_jsonpath data expression of
        Some v \<Rightarrow> extract_all es data (dict_set var v extracted, violations)
      | None \<Rightarrow> extract_all es data (extracted, violations @ [''could not extract '' @ quoted var @ '' from '' @ expression]))"

definition assert_violations :: "wf_step \<Rightarrow> pyval \<Rightarrow> string list" where
  "assert_violations step data = concat (map (\<lambda>(expression, expected).
     case extract_jsonpath data expression of
       None \<Rightarrow> [''assertion path '' @ quoted expression @ '' not found'']
     | Some actual \<Rightarrow> if py_eq actual expected then []
         else [''assertion failed at '' @ quoted expression @ '': expected '' @ py_repr expected @ '', got '' @ py_repr actual])
     (ws_assert_jsonpath step))"

definition judge :: "wf_step \<Rightarrow> bool \<Rightarrow> wf_response \<Rightarrow> step_result" where
  "judge step strict response =
     (let data = payload_value (rp_payload response);
          (extracted, violations) = extract_all (ws_extract step) data
            ([], status_violations step (rp_status response) @ payload_violations step (rp_payload response));
          violations = violations @ assert_violations step data;
          status = (if violations = [] then ''pass'' else ''fail'');
          status = (if \<not> strict \<and> status = ''fail'' then ''pass'' else status)
      in \<lparr>sr_step = ws_name step, sr_status = status, sr_actual_status = Some (rp_status response),
           sr_violations = violations, sr_extracted = extracted\<rparr>)"

definition run_step :: "workflow \<Rightarrow> exchange \<Rightarrow> bool \<Rightarrow> wf_step \<Rightarrow> (string, pyval) dict \<Rightarrow> sent_request list
    \<Rightarrow> step_result \<times> sent_request list" where
  "run_step w exchange strict step variables log =
     (if wr_method (ws_request step) \<notin> set (wf_allowed_methods w) then
        (\<lparr>sr_step = ws_name step, sr_status = ''fail'', sr_actual_status = None,
          sr_violations = [''method '' @ wr_method (ws_request step) @ '' not in allowed_methods''], sr_extracted = []\<rparr>, log)
      else
        let request = request_of (ws_request step) variables;
            log' = log @ [request]
        in case exchange (length log) request of
             Inl exc \<Rightarrow> (\<lparr>sr_step = ws_name step, sr_status = ''error'', sr_actual_status = None,
               sr_violations = [''request failed: '' @ exc], sr_extracted = []\<rparr>, log')
           | Inr response \<Rightarrow> (judge step strict response, log'))"

section \<open>The run\<close>

definition updated :: "(string, pyval) dict \<Rightarrow> (string, pyval) dict \<Rightarrow> (string, pyval) dict" where
  "updated new d = fold (\<lambda>(k, v). dict_set k v) new d"

fun run_until_failure :: "workflow \<Rightarrow> exchange \<Rightarrow> wf_step list \<Rightarrow> (string, pyval) dict \<Rightarrow> sent_request list
    \<Rightarrow> step_result list \<times> string \<times> (string, pyval) dict \<times> sent_request list" where
  "run_until_failure w exchange [] variables log = ([], ''pass'', variables, log)"
| "run_until_failure w exchange (step # rest) variables log =
     (let (r, log) = run_step w exchange True step variables log;
          variables = updated (sr_extracted r) variables
      in if sr_status r \<noteq> ''pass'' then ([r], if sr_status r = ''fail'' then ''fail'' else ''error'', variables, log)
         else let (rs, status, variables, log) = run_until_failure w exchange rest variables log in (r # rs, status, variables, log))"

fun run_cleanup :: "workflow \<Rightarrow> exchange \<Rightarrow> wf_step list \<Rightarrow> (string, pyval) dict \<Rightarrow> sent_request list
    \<Rightarrow> step_result list \<times> sent_request list" where
  "run_cleanup w exchange [] variables log = ([], log)"
| "run_cleanup w exchange (step # rest) variables log =
     (let (r, log) = run_step w exchange False step variables log;
          (rs, log) = run_cleanup w exchange rest variables log
      in (r # rs, log))"

definition run_workflow :: "workflow \<Rightarrow> exchange \<Rightarrow> (string, pyval) dict \<Rightarrow> workflow_result \<times> sent_request list" where
  "run_workflow w exchange inputs =
     (let (results, status, variables, log) = run_until_failure w exchange (wf_steps w) inputs [];
          (cleanup, log) = run_cleanup w exchange (wf_cleanup w) variables log
      in (\<lparr>wo_workflow = wf_name w, wo_status = status, wo_steps = results, wo_cleanup_steps = cleanup,
            wo_variables = variables\<rparr>, log))"

text \<open>\<open>_check_inputs\<close>, then the run.\<close>

definition start_workflow :: "workflow \<Rightarrow> exchange \<Rightarrow> (string, pyval) dict \<Rightarrow> (workflow_result \<times> sent_request list) result" where
  "start_workflow w exchange inputs =
     (let missing = filter (\<lambda>name. name \<notin> set (keys inputs)) (wf_inputs w) in
      if missing \<noteq> [] then Inl (ValueError (''workflow '' @ quoted (wf_name w) @ '' declares input(s) ''
        @ py_repr (str_list missing) @ '' that were not supplied; pass --input name=value for each''))
      else Inr (run_workflow w exchange inputs))"

section \<open>What a run does\<close>

lemma run_step_methods:
  "\<forall>q \<in> set log. sq_method q \<in> set (wf_allowed_methods w)
    \<Longrightarrow> \<forall>q \<in> set (snd (run_step w exchange strict step variables log)). sq_method q \<in> set (wf_allowed_methods w)"
  by (auto simp: run_step_def request_of_def Let_def split: sum.split)

lemma run_until_failure_methods:
  "\<forall>q \<in> set log. sq_method q \<in> set (wf_allowed_methods w) \<Longrightarrow> run_until_failure w exchange ss variables log = (rs, status, vs, log')
    \<Longrightarrow> \<forall>q \<in> set log'. sq_method q \<in> set (wf_allowed_methods w)"
proof (induction ss arbitrary: variables log rs)
  case (Cons s ss)
  then show ?case using run_step_methods [of log w exchange True s variables]
    by (auto simp: Let_def split: prod.splits if_splits)
qed simp

lemma run_cleanup_methods:
  "\<forall>q \<in> set log. sq_method q \<in> set (wf_allowed_methods w) \<Longrightarrow> run_cleanup w exchange ss variables log = (rs, log')
    \<Longrightarrow> (\<forall>q \<in> set log'. sq_method q \<in> set (wf_allowed_methods w)) \<and> map sr_step rs = map ws_name ss"
proof (induction ss arbitrary: log rs)
  case (Cons s ss)
  have "sr_step (fst (run_step w exchange False s variables log)) = ws_name s"
    by (auto simp: run_step_def judge_def Let_def split_beta split: sum.split)
  with Cons show ?case using run_step_methods [of log w exchange False s variables]
    by (auto simp: Let_def split: prod.splits)
qed simp

lemma run_until_failure_results:
  "run_until_failure w exchange ss variables log = (rs, status, vs, log')
    \<Longrightarrow> map sr_step rs = take (length rs) (map ws_name ss) \<and> (\<forall>r \<in> set (butlast rs). sr_status r = ''pass'')
      \<and> (status = ''pass'' \<longleftrightarrow> length rs = length ss \<and> (\<forall>r \<in> set rs. sr_status r = ''pass''))"
proof (induction ss arbitrary: variables log rs)
  case (Cons s ss)
  have "sr_step (fst (run_step w exchange True s variables log)) = ws_name s"
    by (auto simp: run_step_def judge_def Let_def split_beta split: sum.split)
  with Cons show ?case by (fastforce simp: Let_def split: prod.splits if_splits)
qed simp

section \<open>Validated workflows\<close>

text \<open>The variables that are bound when the k-th step starts.\<close>

definition bound_before :: "nat \<Rightarrow> step_result list \<Rightarrow> (string, pyval) dict \<Rightarrow> (string, pyval) dict" where
  "bound_before k rs inputs = fold updated (map sr_extracted (take k rs)) inputs"

definition used_vars :: "wf_step \<Rightarrow> string set" where
  "used_vars step = set (deep_vars (request_dump (ws_request step)))"

lemma keys_Nil [simp]: "keys [] = []"
  by (simp add: keys_def)

lemma keys_Cons [simp]: "keys ((k, v) # d) = k # keys d"
  by (simp add: keys_def)

lemma keys_updated: "set (keys (updated new d)) = set (keys d) \<union> set (keys new)"
proof (induction new arbitrary: d)
  case (Cons kv new)
  obtain k v where "kv = (k, v)" by (cases kv)
  with Cons show ?case by (simp add: updated_def set_keys_dict_set)
qed (simp add: updated_def)

lemma extract_all_violations: "set violations \<subseteq> set (snd (extract_all es data (extracted, violations)))"
  by (induction es data "(extracted, violations)" arbitrary: extracted violations rule: extract_all.induct)
    (fastforce split: option.splits)+

lemma extract_all_bound:
  assumes "snd (extract_all es data (extracted, [])) = []"
  shows "set (keys (fst (extract_all es data (extracted, [])))) = set (keys extracted) \<union> set (keys es)"
  using assms
proof (induction es arbitrary: extracted)
  case (Cons e es)
  obtain var expression where e: "e = (var, expression)" by (cases e)
  show ?case
  proof (cases "extract_jsonpath data expression")
    case None
    with Cons.prems extract_all_violations [of "[''could not extract '' @ quoted var @ '' from '' @ expression]" es data extracted]
    show ?thesis by (simp add: e)
  next
    case (Some v)
    with Cons show ?thesis by (simp add: e set_keys_dict_set)
  qed
qed simp

lemma passed_step_extracts:
  assumes "sr_status (fst (run_step w exchange True step variables log)) = ''pass''"
  shows "set (keys (ws_extract step)) \<subseteq> set (keys (sr_extracted (fst (run_step w exchange True step variables log))))"
proof -
  from assms obtain response where response: "fst (run_step w exchange True step variables log) = judge step True response"
    "sr_status (judge step True response) = ''pass''"
    by (auto simp: run_step_def Let_def split: if_splits sum.splits)
  let ?v = "status_violations step (rp_status response) @ payload_violations step (rp_payload response)"
  let ?x = "extract_all (ws_extract step) (payload_value (rp_payload response)) ([], ?v)"
  have none: "snd ?x = []" using response(2) by (simp add: judge_def Let_def split_beta split: if_splits)
  then have "?v = []"
    using extract_all_violations [of ?v "ws_extract step" "payload_value (rp_payload response)" "[]"] by (simp only: set_empty list.set(1) subset_empty)
  with none have "set (keys (ws_extract step)) \<subseteq> set (keys (fst ?x))" using extract_all_bound [of "ws_extract step"] by auto
  then show ?thesis by (simp add: response(1) judge_def Let_def split_beta)
qed

lemma bound_when_started:
  assumes "run_until_failure w exchange ss variables log = (rs, status, vs, log')" and "k < length rs"
  shows "set (keys variables) \<union> (\<Union>s \<in> set (take k ss). set (keys (ws_extract s))) \<subseteq> set (keys (bound_before k rs variables))"
  using assms
proof (induction ss arbitrary: variables log rs k status vs log')
  case (Cons s ss)
  obtain r log1 where r: "run_step w exchange True s variables log = (r, log1)" by fastforce
  show ?case
  proof (cases k)
    case 0
    then show ?thesis by (simp add: bound_before_def)
  next
    case (Suc j)
    with Cons.prems r have pass: "sr_status r = ''pass''" by (auto simp: Let_def split: if_splits)
    obtain rs' status' vs' log2 where rest: "run_until_failure w exchange ss (updated (sr_extracted r) variables) log1 = (rs', status', vs', log2)"
      using prod_cases4 by blast
    with Cons.prems r pass have rs: "rs = r # rs'" by (simp add: Let_def)
    have "set (keys (ws_extract s)) \<subseteq> set (keys (sr_extracted r))"
      using passed_step_extracts [of w exchange s variables log] r pass by simp
    moreover have "bound_before k rs variables = bound_before j rs' (updated (sr_extracted r) variables)"
      by (simp add: bound_before_def rs Suc)
    moreover have "set (keys (updated (sr_extracted r) variables)) \<union> (\<Union>s \<in> set (take j ss). set (keys (ws_extract s)))
        \<subseteq> set (keys (bound_before j rs' (updated (sr_extracted r) variables)))"
      using Cons.IH [OF rest] Cons.prems(2) by (simp add: rs Suc)
    ultimately show ?thesis by (auto simp: Suc keys_updated)
  qed
qed simp

lemma graph_step_issues: "set (gs_issues g) \<subseteq> set (gs_issues (graph_step step g))"
  by (auto simp: graph_step_def Let_def)

lemma graph_fold_issues: "set (gs_issues g) \<subseteq> set (gs_issues (fold graph_step ss g))"
  by (induction ss arbitrary: g) (use graph_step_issues in fastforce)+

lemma graph_fold_available:
  "set (gs_available (fold graph_step ss g)) = set (gs_available g) \<union> (\<Union>s \<in> set ss. set (keys (ws_extract s)))"
  by (induction ss arbitrary: g) (auto simp: graph_step_def Let_def)

lemma graph_ok_bound:
  assumes "graph_ok w" and "k < length (wf_steps w)"
  shows "used_vars (wf_steps w ! k) \<subseteq> set (wf_inputs w) \<union> (\<Union>s \<in> set (take k (wf_steps w)). set (keys (ws_extract s)))"
proof (rule ccontr)
  assume not: "\<not> ?thesis"
  let ?init = "\<lparr>gs_issues = [], gs_available = wf_inputs w, gs_names = [], gs_extracted = []\<rparr>"
  let ?g = "fold graph_step (take k (wf_steps w)) ?init"
  let ?step = "wf_steps w ! k"
  have "set (gs_available ?g) = set (wf_inputs w) \<union> (\<Union>s \<in> set (take k (wf_steps w)). set (keys (ws_extract s)))"
    by (simp add: graph_fold_available)
  with not have "sorted_diff (deep_vars (request_dump (ws_request ?step))) (gs_available ?g) \<noteq> []"
    by (metis Diff_eq_empty_iff set_empty2 set_sorted_ops(1) used_vars_def)
  then have "\<exists>i \<in> set (gs_issues (graph_step ?step ?g)). gi_severity i = ERROR"
    by (auto simp: graph_step_def Let_def)
  moreover have "graph_walk w = fold graph_step (drop (Suc k) (wf_steps w)) (graph_step ?step ?g)"
  proof -
    have "wf_steps w = take k (wf_steps w) @ ?step # drop (Suc k) (wf_steps w)" using assms(2) by (rule id_take_nth_drop)
    then show ?thesis unfolding graph_walk_def by (metis comp_apply fold_append fold_simps(2))
  qed
  ultimately have "\<exists>i \<in> set (gs_issues (graph_walk w)). gi_severity i = ERROR"
    using graph_fold_issues [of "graph_step ?step ?g" "drop (Suc k) (wf_steps w)"] by auto
  with assms(1) show False by (auto simp: graph_ok_def validate_workflow_graph_def Let_def)
qed

lemma validated_steps_bound:
  assumes "graph_ok w" and "start_workflow w exchange inputs = Inr (outcome, log)" and "k < length (wo_steps outcome)"
  shows "used_vars (wf_steps w ! k) \<subseteq> set (keys (bound_before k (wo_steps outcome) inputs))"
proof -
  obtain rs status vs log' where run: "run_until_failure w exchange (wf_steps w) inputs [] = (rs, status, vs, log')"
    using prod_cases4 by blast
  have outcome: "wo_steps outcome = rs" and supplied: "set (wf_inputs w) \<subseteq> set (keys inputs)"
    using assms(2) run by (auto simp: start_workflow_def run_workflow_def Let_def split_beta filter_empty_conv split: if_splits)
  have "map sr_step rs = take (length rs) (map ws_name (wf_steps w))" using run_until_failure_results [OF run] by blast
  then have "length rs \<le> length (wf_steps w)" by (metis length_map length_take min.cobounded1)
  then have "used_vars (wf_steps w ! k) \<subseteq> set (wf_inputs w) \<union> (\<Union>s \<in> set (take k (wf_steps w)). set (keys (ws_extract s)))"
    using assms(3) graph_ok_bound [OF assms(1)] by (simp add: outcome)
  with bound_when_started [OF run, of k] supplied assms(3) show ?thesis unfolding outcome by blast
qed

section \<open>What is sent\<close>

lemma run_step_log:
  "\<exists>sent. snd (run_step w exchange strict step variables log) = log @ sent \<and> (sr_status (fst (run_step w exchange True step variables log)) = ''pass''
     \<longrightarrow> wr_method (ws_request step) \<in> set (wf_allowed_methods w))
   \<and> (wr_method (ws_request step) \<in> set (wf_allowed_methods w) \<longrightarrow> sent = [request_of (ws_request step) variables])"
  by (auto simp: run_step_def Let_def split: sum.split)

lemma run_cleanup_log: "\<exists>sent. snd (run_cleanup w exchange ss variables log) = log @ sent"
proof (induction ss arbitrary: log)
  case (Cons s ss)
  obtain r log1 where r: "run_step w exchange False s variables log = (r, log1)" by fastforce
  with run_step_log [of w exchange False s variables log] obtain sent1 where "log1 = log @ sent1" by auto
  moreover obtain sent2 where "snd (run_cleanup w exchange ss variables log1) = log1 @ sent2" using Cons.IH by blast
  ultimately show ?case using r by (simp add: split_beta)
qed simp

lemma run_until_failure_extends:
  "run_until_failure w exchange ss variables log = (rs, status, vs, log') \<Longrightarrow> \<exists>sent. log' = log @ sent"
proof (induction ss arbitrary: variables log rs)
  case (Cons s ss)
  obtain r log1 where r: "run_step w exchange True s variables log = (r, log1)" by fastforce
  with run_step_log [of w exchange True s variables log] obtain sent1 where sent1: "log1 = log @ sent1" by auto
  obtain rs' status' vs' log2 where rest: "run_until_failure w exchange ss (updated (sr_extracted r) variables) log1 = (rs', status', vs', log2)"
    using prod_cases4 by blast
  show ?case
  proof (cases "sr_status r = ''pass''")
    case False
    with Cons.prems r sent1 show ?thesis by (auto simp: Let_def)
  next
    case True
    with Cons.prems r rest have more: "log' = log2" "status = status'" "vs = vs'" by (auto simp: Let_def)
    then obtain sent2 where "log2 = log1 @ sent2" using Cons.IH rest by blast
    with sent1 more show ?thesis by simp
  qed
qed simp

lemma run_until_failure_log:
  assumes "run_until_failure w exchange ss variables log = (rs, status, vs, log')" and "k < length rs"
    and "wr_method (ws_request (ss ! k)) \<in> set (wf_allowed_methods w)"
  shows "\<exists>sent. log' = log @ sent \<and> k < length sent \<and> sent ! k = request_of (ws_request (ss ! k)) (bound_before k rs variables)"
  using assms
proof (induction ss arbitrary: variables log rs k status vs log')
  case (Cons s ss)
  obtain r log1 where r: "run_step w exchange True s variables log = (r, log1)" by fastforce
  obtain sent1 where sent1: "log1 = log @ sent1"
    and passed: "sr_status r = ''pass'' \<longrightarrow> wr_method (ws_request s) \<in> set (wf_allowed_methods w)"
    and one: "wr_method (ws_request s) \<in> set (wf_allowed_methods w) \<longrightarrow> sent1 = [request_of (ws_request s) variables]"
    using run_step_log [of w exchange True s variables log] r by auto
  obtain rs' status' vs' log2 where rest: "run_until_failure w exchange ss (updated (sr_extracted r) variables) log1 = (rs', status', vs', log2)"
    using prod_cases4 by blast
  show ?case
  proof (cases "sr_status r = ''pass''")
    case False
    with Cons.prems r sent1 one show ?thesis by (auto simp: Let_def bound_before_def)
  next
    case True
    with passed one have one: "sent1 = [request_of (ws_request s) variables]" by simp
    from True Cons.prems(1) r rest have rs: "rs = r # rs'" and log': "log' = log2" by (auto simp: Let_def)
    show ?thesis
    proof (cases k)
      case 0
      obtain sent2 where "log2 = log1 @ sent2" using rest run_until_failure_extends by blast
      then show ?thesis by (simp add: 0 log' sent1 one bound_before_def)
    next
      case (Suc j)
      with Cons.IH [OF rest, of j] Cons.prems(2,3) obtain sent2 where "log2 = log1 @ sent2" "j < length sent2"
        "sent2 ! j = request_of (ws_request (ss ! j)) (bound_before j rs' (updated (sr_extracted r) variables))"
        by (auto simp: rs)
      then show ?thesis by (simp add: Suc log' sent1 one rs bound_before_def)
    qed
  qed
qed simp

lemma nth_request_sent:
  assumes "run_workflow w exchange inputs = (outcome, log)" and "k < length (wo_steps outcome)"
    and "wr_method (ws_request (wf_steps w ! k)) \<in> set (wf_allowed_methods w)"
  shows "k < length log \<and> log ! k = request_of (ws_request (wf_steps w ! k)) (bound_before k (wo_steps outcome) inputs)"
proof -
  obtain rs status vs log1 where run: "run_until_failure w exchange (wf_steps w) inputs [] = (rs, status, vs, log1)"
    using prod_cases4 by blast
  obtain cs log2 where cleanup: "run_cleanup w exchange (wf_cleanup w) vs log1 = (cs, log2)" by fastforce
  have outcome: "wo_steps outcome = rs" "log = log2"
    using assms(1) run cleanup by (auto simp: run_workflow_def)
  obtain sent where "log1 = sent" "k < length sent" "sent ! k = request_of (ws_request (wf_steps w ! k)) (bound_before k rs inputs)"
    using run_until_failure_log [OF run _ assms(3)] assms(2) by (auto simp: outcome)
  moreover obtain more where "log2 = log1 @ more" using run_cleanup_log [of w exchange "wf_cleanup w" vs log1] cleanup by auto
  ultimately show ?thesis by (simp add: outcome nth_append)
qed

lemma run_workflow_facts:
  assumes "run_workflow w exchange inputs = (outcome, log)"
  shows "(\<forall>q \<in> set log. sq_method q \<in> set (wf_allowed_methods w))
    \<and> map sr_step (wo_cleanup_steps outcome) = map ws_name (wf_cleanup w)
    \<and> map sr_step (wo_steps outcome) = take (length (wo_steps outcome)) (map ws_name (wf_steps w))
    \<and> (\<forall>r \<in> set (butlast (wo_steps outcome)). sr_status r = ''pass'')
    \<and> (wo_status outcome = ''pass'' \<longleftrightarrow> length (wo_steps outcome) = length (wf_steps w) \<and> (\<forall>r \<in> set (wo_steps outcome). sr_status r = ''pass''))"
proof -
  obtain rs status vs log1 where run: "run_until_failure w exchange (wf_steps w) inputs [] = (rs, status, vs, log1)"
    using prod_cases4 by blast
  obtain cs log2 where cleanup: "run_cleanup w exchange (wf_cleanup w) vs log1 = (cs, log2)" by fastforce
  have outcome: "wo_steps outcome = rs" "wo_status outcome = status" "wo_cleanup_steps outcome = cs" "log = log2"
    using assms run cleanup by (auto simp: run_workflow_def)
  have "\<forall>q \<in> set log1. sq_method q \<in> set (wf_allowed_methods w)" using run_until_failure_methods [OF _ run] by simp
  with run_cleanup_methods [OF _ cleanup] run_until_failure_results [OF run] show ?thesis by (simp add: outcome)
qed

end
