(* ===== verification/CallBudget.thy ===== *)
theory CallBudget
  imports Model
begin

text \<open>
  Call budgets: src/apiverity/rules/budget.py. An instant is a \<open>datetime\<close>, with or without a
  time zone: the offset of the zone, if it has one, and the time on the common scale of all
  instants, both in microseconds. Parsing and printing of instants are the argument \<open>dt\<close>;
  \<open>MixedInstants\<close> is the \<open>TypeError\<close> of a comparison. A budget
  file is taken after \<open>yaml.safe_load(...) or {}\<close>. Digits and white space are read as ASCII.
\<close>

section \<open>Windows\<close>

datatype budget_error = BudgetError string | WindowOverflow | DigitLimit | MixedInstants

type_synonym 'a budget_result = "budget_error + 'a"

definition DEFAULT_WINDOW :: string where "DEFAULT_WINDOW = ''1h''"

definition UNITS :: "(char, int) dict" where
  "UNITS = [(CHR ''s'', 1), (CHR ''m'', 60), (CHR ''h'', 3600), (CHR ''d'', 86400)]"

definition is_digit :: "char \<Rightarrow> bool" where
  "is_digit c \<longleftrightarrow> (let n = of_char c :: int in 48 \<le> n \<and> n \<le> 57)"

fun decimal :: "int \<Rightarrow> string \<Rightarrow> int" where
  "decimal n [] = n"
| "decimal n (c # s) = decimal (10 * n + (of_char c - 48)) s"

definition window_error :: "string \<Rightarrow> string" where
  "window_error text = ''window '' @ str_repr text @ '' is not understood; use a number and one of s, m, h, d (e.g. ''
     @ quoted ''15m'' @ '')''"

text \<open>Seconds; \<open>int\<close> refuses more than 4300 digits and \<open>timedelta\<close> more than 999999999 days.\<close>

definition parse_window :: "string \<Rightarrow> int budget_result" where
  "parse_window text =
     (let s = strip text; number = takeWhile is_digit s; rest = dropWhile is_space (dropWhile is_digit s) in
      case rest of
        [u] \<Rightarrow> (case map_of UNITS u of
            None \<Rightarrow> Inl (BudgetError (window_error text))
          | Some unit \<Rightarrow>
              if number = [] then Inl (BudgetError (window_error text))
              else if int (length number) > 4300 then Inl DigitLimit
              else let seconds = decimal 0 number * unit in
                if seconds \<ge> 86400 * 1000000000 then Inl WindowOverflow else Inr seconds)
      | _ \<Rightarrow> Inl (BudgetError (window_error text)))"

section \<open>Budgets\<close>

record limit =
  lm_operation_key :: string
  lm_max_calls :: int
  lm_window :: string

definition forbidden :: "limit \<Rightarrow> bool" where
  "forbidden l \<longleftrightarrow> lm_max_calls l = 0"

record budget =
  bg_window :: string
  bg_deny_by_default :: bool
  bg_limits :: "limit list"
  bg_source :: string

definition for_operation :: "budget \<Rightarrow> string \<Rightarrow> limit option" where
  "for_operation b k = List.find (\<lambda>l. lm_operation_key l = k) (bg_limits b)"

definition bind_budget :: "'a budget_result \<Rightarrow> ('a \<Rightarrow> 'b budget_result) \<Rightarrow> 'b budget_result" where
  "bind_budget r f = (case r of Inl e \<Rightarrow> Inl e | Inr a \<Rightarrow> f a)"

definition operation_key_of :: "(string \<times> pyval) list \<Rightarrow> string budget_result" where
  "operation_key_of entry = (case val_get entry ''tool'' of
     PStr tool \<Rightarrow> Inr (''tool '' @ tool)
   | _ \<Rightarrow> (case val_get entry ''operation'' of
       PStr operation \<Rightarrow> Inr operation
     | _ \<Rightarrow> Inl (BudgetError ''each limit needs either `operation` or `tool`'')))"

definition limit_of :: "string \<Rightarrow> string \<Rightarrow> pyval \<Rightarrow> limit budget_result" where
  "limit_of source default_window entry = (case entry of
     PDict kvs \<Rightarrow> bind_budget (operation_key_of kvs) (\<lambda>k.
       case val_get kvs ''max_calls'' of
         PInt n \<Rightarrow>
           if n < 0 then Inl (BudgetError (source @ '': `max_calls` for '' @ str_repr k @ '' must be a non-negative integer''))
           else let w = val_get kvs ''window''; window = (if truthy w then py_str w else default_window) in
             bind_budget (parse_window window) (\<lambda>_. Inr \<lparr>lm_operation_key = k, lm_max_calls = n, lm_window = window\<rparr>)
       | _ \<Rightarrow> Inl (BudgetError (source @ '': `max_calls` for '' @ str_repr k @ '' must be a non-negative integer'')))
   | _ \<Rightarrow> Inl (BudgetError (source @ '': each limit is a mapping'')))"

fun limits_of :: "string \<Rightarrow> string \<Rightarrow> pyval list \<Rightarrow> limit list budget_result" where
  "limits_of source default_window [] = Inr []"
| "limits_of source default_window (e # es) = bind_budget (limit_of source default_window e) (\<lambda>l.
     bind_budget (limits_of source default_window es) (\<lambda>ls. Inr (l # ls)))"

definition load_budget :: "string \<Rightarrow> pyval \<Rightarrow> budget budget_result" where
  "load_budget source raw = (case raw of
     PDict kvs \<Rightarrow>
       if \<not> py_eq (val_get kvs ''version'') (PInt 1) then
         Inl (BudgetError (source @ '': budget version '' @ py_repr (val_get kvs ''version'')
           @ '' is not supported; this build understands 1''))
       else
         let w = val_get kvs ''window''; default_window = (if truthy w then py_str w else DEFAULT_WINDOW) in
         bind_budget (parse_window default_window) (\<lambda>_.
           case val_get kvs ''limits'' of
             PList entries \<Rightarrow> bind_budget (limits_of source default_window entries) (\<lambda>limits.
               Inr \<lparr>bg_window = default_window, bg_deny_by_default = truthy (val_get kvs ''deny_by_default''),
                 bg_limits = limits, bg_source = source\<rparr>)
           | _ \<Rightarrow> Inl (BudgetError (source @ '': `limits` must be a list'')))
   | _ \<Rightarrow> Inl (BudgetError (source @ '': a budget file is a mapping at the top level'')))"

section \<open>Observed calls\<close>

record instant =
  it_zone :: "int option"
  it_time :: int

record date_lib =
  dt_parse :: "string \<Rightarrow> instant option"
  dt_format :: "instant \<Rightarrow> string"

record observation =
  ob_total :: nat
  ob_instants :: "instant list"
  ob_undated :: nat

definition parse_instant :: "date_lib \<Rightarrow> pyval \<Rightarrow> instant option" where
  "parse_instant dt raw = (case raw of PStr s \<Rightarrow> if s = [] then None else dt_parse dt s | _ \<Rightarrow> None)"

definition call_key :: "(string \<times> pyval) list \<Rightarrow> string" where
  "call_key call = (let k = val_get call ''operation_key'' in if truthy k then py_str k else [])"

definition observe_call :: "date_lib \<Rightarrow> (string \<times> pyval) list \<Rightarrow> (string, observation) dict \<Rightarrow> (string, observation) dict" where
  "observe_call dt call seen =
     (let k = call_key call in
      if k = [] then seen
      else
        let r = dict_get_or seen k \<lparr>ob_total = 0, ob_instants = [], ob_undated = 0\<rparr>;
            r = r\<lparr>ob_total := ob_total r + 1\<rparr>
        in dict_set k (case parse_instant dt (val_get call ''at'') of
             None \<Rightarrow> r\<lparr>ob_undated := ob_undated r + 1\<rparr>
           | Some i \<Rightarrow> r\<lparr>ob_instants := ob_instants r @ [i]\<rparr>) seen)"

definition observe :: "date_lib \<Rightarrow> (string \<times> pyval) list list \<Rightarrow> (string, observation) dict" where
  "observe dt calls = fold (observe_call dt) calls []"

section \<open>The busiest window\<close>

text \<open>\<open>while moment - ordered[start] > window: start += 1\<close>.\<close>

function advance :: "instant list \<Rightarrow> int \<Rightarrow> int \<Rightarrow> nat \<Rightarrow> nat" where
  "advance ordered window moment start =
     (if start < length ordered \<and> moment - it_time (ordered ! start) > window then advance ordered window moment (Suc start) else start)"
  by pat_completeness auto
termination by (relation "measure (\<lambda>(ordered, window, moment, start). length ordered - start)") auto

declare advance.simps [simp del]

fun scan :: "instant list \<Rightarrow> int \<Rightarrow> nat list \<Rightarrow> nat \<Rightarrow> nat \<times> instant \<Rightarrow> nat \<times> instant" where
  "scan ordered window [] start best = best"
| "scan ordered window (e # es) start best =
     (let start = advance ordered window (it_time (ordered ! e)) start; size = e - start + 1 in
      scan ordered window es start (if size > fst best then (size, ordered ! start) else best))"

text \<open>Comparing a \<open>datetime\<close> with a time zone and one without raises.\<close>

definition mixed :: "instant list \<Rightarrow> bool" where
  "mixed instants \<longleftrightarrow> (\<exists>i \<in> set instants. it_zone i \<noteq> None) \<and> (\<exists>i \<in> set instants. it_zone i = None)"

definition busiest_window :: "instant list \<Rightarrow> int \<Rightarrow> (nat \<times> instant option) budget_result" where
  "busiest_window instants window =
     (if instants = [] then Inr (0, None)
      else if mixed instants then Inl MixedInstants
      else
        let ordered = sort_key it_time instants;
            (best, at) = scan ordered window [0..<length ordered] 0 (0, hd ordered)
        in Inr (best, Some at))"

section \<open>Evaluation\<close>

definition budget_finding :: "string \<Rightarrow> severity \<Rightarrow> string \<Rightarrow> string \<Rightarrow> finding" where
  "budget_finding rule sev k message = \<lparr>f_rule_id = rule, f_severity = sev, f_message = message, f_operation_key = Some k,
     f_location = None, f_new_location = None, f_change_id = None, f_hint = None, f_metadata = []\<rparr>"

definition unknown_limits :: "budget \<Rightarrow> string list option \<Rightarrow> finding list" where
  "unknown_limits b declared = (case declared of
     None \<Rightarrow> []
   | Some ops \<Rightarrow> map (\<lambda>l. budget_finding ''BUDGET-OPERATION-UNKNOWN'' ERROR (lm_operation_key l)
       (''the budget limits '' @ str_repr (lm_operation_key l) @ '', which the contract does not declare. This limit can ''
         @ ''never match anything, so the file looks like protection and is not''))
       (filter (\<lambda>l. lm_operation_key l \<notin> set ops) (bg_limits b)))"

definition check_limit :: "date_lib \<Rightarrow> (string, observation) dict \<Rightarrow> limit \<Rightarrow> finding list budget_result" where
  "check_limit dt observations l =
     (let k = lm_operation_key l in
      case map_of observations k of
        None \<Rightarrow> Inr [budget_finding ''BUDGET-UNUSED'' INFO k (''nothing in this traffic called '' @ str_repr k
          @ ''; its limit was not exercised, so this run says nothing about whether it holds'')]
      | Some r \<Rightarrow>
          if ob_total r = 0 then Inr [budget_finding ''BUDGET-UNUSED'' INFO k (''nothing in this traffic called ''
            @ str_repr k @ ''; its limit was not exercised, so this run says nothing about whether it holds'')]
          else if forbidden l then Inr [budget_finding ''BUDGET-FORBIDDEN'' ERROR k (str_repr k
            @ '' is budgeted at zero calls and was called '' @ nat_str (ob_total r) @ '' time(s)'')]
          else (case parse_window (lm_window l) of
              Inl e \<Rightarrow> Inl e
            | Inr seconds \<Rightarrow> bind_budget (busiest_window (ob_instants r) (seconds * 1000000)) (\<lambda>(peak, at).
                Inr ((if int peak > lm_max_calls l then [budget_finding ''BUDGET-EXCEEDED'' ERROR k (str_repr k @ '' allows ''
                        @ int_str (lm_max_calls l) @ '' call(s) per '' @ lm_window l @ '' and reached '' @ nat_str peak
                        @ '' in the window beginning '' @ (case at of None \<Rightarrow> ''unknown'' | Some i \<Rightarrow> dt_format dt i))] else [])
                   @ (if ob_undated r > 0 then [budget_finding ''BUDGET-UNDATED-CALLS'' WARN k (nat_str (ob_undated r)
                        @ '' of '' @ nat_str (ob_total r) @ '' call(s) to '' @ str_repr k
                        @ '' carry no timestamp and could not be placed in any window; the peak above is a lower bound'')] else [])))))"

fun check_limits :: "date_lib \<Rightarrow> (string, observation) dict \<Rightarrow> limit list \<Rightarrow> finding list budget_result" where
  "check_limits dt observations [] = Inr []"
| "check_limits dt observations (l # ls) = bind_budget (check_limit dt observations l) (\<lambda>fs.
     bind_budget (check_limits dt observations ls) (\<lambda>gs. Inr (fs @ gs)))"

definition unbudgeted :: "budget \<Rightarrow> (string, observation) dict \<Rightarrow> finding list" where
  "unbudgeted b observations = map (\<lambda>k.
     budget_finding ''BUDGET-UNBUDGETED'' (if bg_deny_by_default b then ERROR else INFO) k
       (str_repr k @ '' was called '' @ nat_str (case map_of observations k of None \<Rightarrow> 0 | Some r \<Rightarrow> ob_total r)
         @ '' time(s) and no limit covers it'' @ (if bg_deny_by_default b then ''; this budget denies by default''
           else ''. Add a limit if that traffic is meant to be bounded'')))
     (filter (\<lambda>k. k \<notin> lm_operation_key ` set (bg_limits b)) (sorted_set (keys observations)))"

definition evaluate_budget :: "date_lib \<Rightarrow> budget \<Rightarrow> (string \<times> pyval) list list \<Rightarrow> string list option \<Rightarrow> finding list budget_result" where
  "evaluate_budget dt b calls declared =
     (let observations = observe dt calls in
      bind_budget (check_limits dt observations (bg_limits b)) (\<lambda>fs.
        Inr (unknown_limits b declared @ fs @ unbudgeted b observations)))"

section \<open>The busiest window is the busiest\<close>

definition calls_within :: "int \<Rightarrow> instant list \<Rightarrow> int \<Rightarrow> nat" where
  "calls_within window instants t = length (filter (\<lambda>i. t \<le> it_time i \<and> it_time i \<le> t + window) instants)"

text \<open>\<open>s\<close> is the first index whose distance to the index \<open>e\<close> is within the window.\<close>

definition first_within :: "int \<Rightarrow> instant list \<Rightarrow> nat \<Rightarrow> nat \<Rightarrow> bool" where
  "first_within window ordered e s \<longleftrightarrow> s \<le> e \<and> it_time (ordered ! e) - it_time (ordered ! s) \<le> window
     \<and> (\<forall>i < s. it_time (ordered ! e) - it_time (ordered ! i) > window)"

lemma advance_first:
  assumes "0 \<le> window" and "e < length ordered" and "start \<le> e"
    and "\<forall>i < start. it_time (ordered ! e) - it_time (ordered ! i) > window"
  shows "first_within window ordered e (advance ordered window (it_time (ordered ! e)) start)"
  using assms
proof (induction ordered window "it_time (ordered ! e)" start rule: advance.induct)
  case (1 ordered window start)
  show ?case
  proof (cases "start < length ordered \<and> it_time (ordered ! e) - it_time (ordered ! start) > window")
    case True
    then have "start \<noteq> e" using "1.prems"(1) by auto
    with "1.prems" have "Suc start \<le> e" by simp
    with 1 True show ?thesis by (subst advance.simps) (simp add: less_Suc_eq)
  next
    case False
    with "1.prems" show ?thesis by (subst advance.simps) (auto simp: first_within_def)
  qed
qed

definition window_size :: "nat \<Rightarrow> nat \<Rightarrow> nat" where
  "window_size e s = e - s + 1"

lemma scan_windows:
  assumes "0 \<le> window" and "sorted (map it_time ordered)" and "n = length ordered" and "start \<le> e"
    and "e < n \<Longrightarrow> \<forall>i < start. it_time (ordered ! e) - it_time (ordered ! i) > window"
    and "scan ordered window [e..<n] start best = (b, at)"
  shows "fst best \<le> b \<and> (\<forall>e' s. e \<le> e' \<longrightarrow> e' < n \<longrightarrow> first_within window ordered e' s \<longrightarrow> window_size e' s \<le> b)
    \<and> ((b, at) = best \<or> (\<exists>e' s. e' < n \<and> first_within window ordered e' s \<and> b = window_size e' s \<and> at = ordered ! s))"
  using assms
proof (induction "n - e" arbitrary: e start best)
  case 0
  then show ?case by auto
next
  case (Suc k)
  then have e: "e < n" by simp
  define s where "s = advance ordered window (it_time (ordered ! e)) start"
  define best' where "best' = (if window_size e s > fst best then (window_size e s, ordered ! s) else best)"
  have first: "first_within window ordered e s"
    unfolding s_def by (rule advance_first) (use Suc.prems e in auto)
  have scan: "scan ordered window [Suc e..<n] s best' = (b, at)"
    unfolding s_def best'_def window_size_def
    using Suc.prems(6) by (simp only: upt_conv_Cons [OF e] scan.simps Let_def)
  have "\<forall>i < s. it_time (ordered ! Suc e) - it_time (ordered ! i) > window" if "Suc e < n"
  proof -
    have "it_time (ordered ! e) \<le> it_time (ordered ! Suc e)"
      using Suc.prems(2,3) that sorted_nth_mono [of "map it_time ordered" e "Suc e"] by simp
    with first show ?thesis unfolding first_within_def by (meson diff_right_mono less_le_trans)
  qed
  with Suc.hyps(1) [of "Suc e" s best'] Suc.hyps(2) Suc.prems first scan
  have later: "fst best' \<le> b \<and> (\<forall>e' s. Suc e \<le> e' \<longrightarrow> e' < n \<longrightarrow> first_within window ordered e' s \<longrightarrow> window_size e' s \<le> b)
      \<and> ((b, at) = best' \<or> (\<exists>e' s. e' < n \<and> first_within window ordered e' s \<and> b = window_size e' s \<and> at = ordered ! s))"
    by (simp add: first_within_def)
  have unique: "s' = s" if "first_within window ordered e s'" for s'
  proof (rule ccontr)
    assume "s' \<noteq> s"
    then consider "s' < s" | "s < s'" by linarith
    then show False
    proof cases
      case 1
      with first that show False unfolding first_within_def by fastforce
    next
      case 2
      with first that show False unfolding first_within_def by fastforce
    qed
  qed
  have "window_size e s \<le> b" "fst best \<le> b" using later by (auto simp: best'_def split: if_splits)
  moreover have "window_size e' s' \<le> b" if "e \<le> e'" "e' < n" "first_within window ordered e' s'" for e' s'
  proof (cases "e' = e")
    case True
    with that(3) unique \<open>window_size e s \<le> b\<close> show ?thesis by auto
  next
    case False
    with that later show ?thesis by simp
  qed
  moreover have "(b, at) = best \<or> (\<exists>e' s. e' < n \<and> first_within window ordered e' s \<and> b = window_size e' s \<and> at = ordered ! s)"
    using later first e by (auto simp: best'_def split: if_splits)
  ultimately show ?case by blast
qed

lemma calls_within_sorted: "calls_within window (sort_key it_time instants) t = calls_within window instants t"
  by (simp add: calls_within_def filter_sort)

lemma calls_within_indices:
  "calls_within window ordered t = card {i. i < length ordered \<and> t \<le> it_time (ordered ! i) \<and> it_time (ordered ! i) \<le> t + window}"
  unfolding calls_within_def by (rule length_filter_conv_card)

lemma busiest_window_correct:
  assumes "instants \<noteq> []" and "0 \<le> window" and "busiest_window instants window = Inr (best, at)"
  shows "\<exists>i. at = Some i \<and> calls_within window instants (it_time i) = best" and "calls_within window instants t \<le> best"
proof -
  let ?o = "sort_key it_time instants" and ?n = "length instants"
  have sorted: "sorted (map it_time ?o)" by simp
  define i where "i = snd (scan ?o window [0..<?n] 0 (0, hd ?o))"
  have "fst (scan ?o window [0..<?n] 0 (0, hd ?o)) = best" and at: "at = Some i"
    using assms by (auto simp: busiest_window_def Let_def split_beta i_def split: if_splits)
  then have scan: "scan ?o window [0..<?n] 0 (0, hd ?o) = (best, i)" by (simp add: i_def prod_eq_iff)
  have *: "(\<forall>e' s. e' < ?n \<longrightarrow> first_within window ?o e' s \<longrightarrow> window_size e' s \<le> best)
    \<and> ((best, i) = (0, hd ?o) \<or> (\<exists>e' s. e' < ?n \<and> first_within window ?o e' s \<and> best = window_size e' s \<and> i = ?o ! s))"
    using scan_windows [OF assms(2) sorted _ _ _ scan] by simp
  have mono: "it_time (?o ! a) \<le> it_time (?o ! b)" if "a \<le> b" "b < ?n" for a b
    using sorted_nth_mono [OF sorted that(1)] that by simp
  have exists: "\<exists>s. first_within window ?o e s" if "e < ?n" for e
    using advance_first [OF assms(2), of e ?o 0] that by auto
  have upper: "calls_within window instants u \<le> best" for u
  proof (cases "{j. j < ?n \<and> u \<le> it_time (?o ! j) \<and> it_time (?o ! j) \<le> u + window} = {}")
    case True
    then have "calls_within window ?o u = 0" unfolding calls_within_indices length_sort by (simp only: card.empty)
    then show ?thesis by (simp add: calls_within_sorted)
  next
    case False
    let ?S = "{j. j < ?n \<and> u \<le> it_time (?o ! j) \<and> it_time (?o ! j) \<le> u + window}"
    have finite: "finite ?S" by simp
    obtain m where m: "m \<in> ?S" and above: "\<And>j. j \<in> ?S \<Longrightarrow> j \<le> m"
      using Max_in [OF finite False] Max_ge [OF finite] by blast
    obtain s where s: "first_within window ?o m s" using exists m by blast
    have "?S \<subseteq> {s..m}"
    proof
      fix j assume j: "j \<in> ?S"
      have "\<not> j < s" using s j m by (force simp: first_within_def)
      with above [OF j] show "j \<in> {s..m}" by simp
    qed
    then have "card ?S \<le> card {s..m}" by (intro card_mono) simp_all
    also have "\<dots> = window_size m s" using s by (simp add: window_size_def first_within_def Suc_diff_le)
    finally have small: "card ?S \<le> window_size m s" .
    have "m < ?n" using m by simp
    with * s have "window_size m s \<le> best" by simp
    with small have "card ?S \<le> best" by (rule order.trans)
    then show ?thesis using calls_within_sorted [of window instants u] unfolding calls_within_indices length_sort by simp
  qed
  from assms(1) exists [of 0] * have "(best, i) \<noteq> (0, hd ?o)" by (auto simp: window_size_def)
  with * obtain e s where es: "e < ?n" "first_within window ?o e s" "best = window_size e s" "i = ?o ! s" by blast
  have "{s..e} \<subseteq> {j. j < ?n \<and> it_time i \<le> it_time (?o ! j) \<and> it_time (?o ! j) \<le> it_time i + window}"
  proof
    fix j assume j: "j \<in> {s..e}"
    then have "it_time (?o ! s) \<le> it_time (?o ! j)" "it_time (?o ! j) \<le> it_time (?o ! e)" using es(1) by (auto intro!: mono)
    with j es show "j \<in> {j. j < ?n \<and> it_time i \<le> it_time (?o ! j) \<and> it_time (?o ! j) \<le> it_time i + window}"
      by (auto simp: first_within_def)
  qed
  then have "card {s..e} \<le> calls_within window ?o (it_time i)"
    unfolding calls_within_indices length_sort by (intro card_mono) simp_all
  with es upper [of "it_time i"] have "calls_within window instants (it_time i) = best"
    by (simp add: calls_within_sorted window_size_def first_within_def Suc_diff_le)
  with at show "\<exists>i. at = Some i \<and> calls_within window instants (it_time i) = best" by blast
  show "calls_within window instants t \<le> best" by (rule upper)
qed

end
