(* ===== verification/BudgetFacts.thy ===== *)
theory BudgetFacts
  imports CallBudget
begin

text \<open>
  What a verdict of src/apiverity/rules/budget.py says about the traffic: which calls an
  observation holds, when a limit counts as exceeded, and when an evaluation raises.
\<close>

section \<open>Observations\<close>

definition calls_to :: "string \<Rightarrow> (string \<times> pyval) list list \<Rightarrow> (string \<times> pyval) list list" where
  "calls_to k calls = filter (\<lambda>c. call_key c = k \<and> k \<noteq> []) calls"

definition instants_of :: "date_lib \<Rightarrow> (string \<times> pyval) list list \<Rightarrow> instant list" where
  "instants_of dt calls = List.map_filter (\<lambda>c. parse_instant dt (val_get c ''at'')) calls"

definition call_summary :: "date_lib \<Rightarrow> (string \<times> pyval) list list \<Rightarrow> observation" where
  "call_summary dt calls = \<lparr>ob_total = length calls, ob_instants = instants_of dt calls,
     ob_undated = length (filter (\<lambda>c. parse_instant dt (val_get c ''at'') = None) calls)\<rparr>"

lemma call_summary_snoc: "call_summary dt (calls @ [c]) = (let r = call_summary dt calls; r = r\<lparr>ob_total := ob_total r + 1\<rparr> in
   case parse_instant dt (val_get c ''at'') of
     None \<Rightarrow> r\<lparr>ob_undated := ob_undated r + 1\<rparr>
   | Some i \<Rightarrow> r\<lparr>ob_instants := ob_instants r @ [i]\<rparr>)"
  by (simp add: call_summary_def instants_of_def Let_def List.map_filter_def split: option.split)

lemma observe_snoc: "observe dt (calls @ [c]) = observe_call dt c (observe dt calls)"
  by (simp add: observe_def)

lemma observe_lookup:
  "map_of (observe dt calls) k = (if calls_to k calls = [] then None else Some (call_summary dt (calls_to k calls)))"
proof (induction calls rule: rev_induct)
  case Nil
  then show ?case by (simp add: observe_def calls_to_def)
next
  case (snoc c calls)
  show ?case
  proof (cases "call_key c = k \<and> k \<noteq> []")
    case True
    then have "calls_to k (calls @ [c]) = calls_to k calls @ [c]" by (simp add: calls_to_def)
    moreover have "dict_get_or (observe dt calls) k \<lparr>ob_total = 0, ob_instants = [], ob_undated = 0\<rparr> = call_summary dt (calls_to k calls)"
      by (simp add: dict_get_or_def snoc) (simp add: call_summary_def instants_of_def List.map_filter_def)
    ultimately show ?thesis using True
      by (simp add: observe_snoc observe_call_def call_summary_snoc Let_def map_of_dict_set)
  next
    case False
    then have "calls_to k (calls @ [c]) = calls_to k calls" by (simp add: calls_to_def)
    with False snoc show ?thesis by (auto simp: observe_snoc observe_call_def Let_def map_of_dict_set)
  qed
qed

section \<open>Limits\<close>

lemma limits_of_sound:
  assumes "limits_of source w entries = Inr limits" and "l \<in> set limits"
  shows "0 \<le> lm_max_calls l \<and> (\<exists>seconds. parse_window (lm_window l) = Inr seconds)"
  using assms
proof (induction entries arbitrary: limits)
  case (Cons e es)
  then obtain l' ls where l': "limit_of source w e = Inr l'" and ls: "limits_of source w es = Inr ls" "limits = l' # ls"
    by (auto simp: bind_budget_def split: sum.splits)
  have "0 \<le> lm_max_calls l' \<and> (\<exists>seconds. parse_window (lm_window l') = Inr seconds)"
    using l' by (auto simp: limit_of_def bind_budget_def Let_def split: pyval.splits sum.splits if_splits)
  with Cons ls show ?case by auto
qed simp

lemma loaded_limits:
  assumes "load_budget source raw = Inr b" and "l \<in> set (bg_limits b)"
  shows "0 \<le> lm_max_calls l \<and> (\<exists>seconds. parse_window (lm_window l) = Inr seconds)"
proof -
  from assms(1) obtain w entries where "limits_of source w entries = Inr (bg_limits b)"
    by (auto simp: load_budget_def bind_budget_def Let_def split: pyval.splits sum.splits if_splits)
  then show ?thesis using assms(2) by (rule limits_of_sound)
qed

section \<open>Verdicts\<close>

lemma decimal_nonneg: "list_all is_digit s \<Longrightarrow> 0 \<le> n \<Longrightarrow> 0 \<le> decimal n s"
  by (induction n s rule: decimal.induct) (simp_all add: is_digit_def Let_def)

lemma parse_window_nonneg:
  assumes "parse_window text = Inr seconds"
  shows "0 \<le> seconds"
proof -
  have "list_all is_digit (takeWhile is_digit s)" for s by (auto simp: list_all_iff dest: set_takeWhileD)
  note decimal_nonneg [OF this, of 0]
  with assms show ?thesis
    by (auto simp: parse_window_def UNITS_def Let_def split: list.splits option.splits if_splits)
qed

lemma calls_within_Nil [simp]: "calls_within window [] t = 0"
  by (simp add: calls_within_def)

text \<open>The peak that is reported is exceeded by no window, and some window reaches it.\<close>

lemma peak_exceeds:
  assumes "busiest_window instants window = Inr (peak, at)" and "0 \<le> window" and "0 \<le> m"
  shows "int peak > m \<longleftrightarrow> (\<exists>t. int (calls_within window instants t) > m)"
proof (cases "instants = []")
  case True
  with assms show ?thesis by (simp add: busiest_window_def)
next
  case False
  obtain i :: instant where i: "calls_within window instants (it_time i) = peak"
    using busiest_window_correct(1) [OF False assms(2,1)] by blast
  have upper: "int (calls_within window instants t) \<le> int peak" for t
    using busiest_window_correct(2) [OF False assms(2,1)] by simp
  show ?thesis
  proof
    assume "int peak > m"
    with i show "\<exists>t. int (calls_within window instants t) > m" by blast
  next
    assume "\<exists>t. int (calls_within window instants t) > m"
    then obtain t where "int (calls_within window instants t) > m" by blast
    with upper [of t] show "int peak > m" by simp
  qed
qed


definition exceeded :: "string \<Rightarrow> finding list \<Rightarrow> bool" where
  "exceeded k findings \<longleftrightarrow> (\<exists>f \<in> set findings. f_rule_id f = ''BUDGET-EXCEEDED'' \<and> f_operation_key f = Some k)"

lemma exceeded_append: "exceeded k (fs @ gs) \<longleftrightarrow> exceeded k fs \<or> exceeded k gs"
  by (auto simp: exceeded_def)

lemma other_findings_exceed_nothing:
  "\<not> exceeded k (unknown_limits b declared)" "\<not> exceeded k (unbudgeted b observations)"
  by (auto simp: exceeded_def unknown_limits_def unbudgeted_def budget_finding_def split: option.splits)

text \<open>A limit that is overrun: some stretch as long as its window holds more calls than it allows.\<close>

definition overrun :: "date_lib \<Rightarrow> (string \<times> pyval) list list \<Rightarrow> limit \<Rightarrow> bool" where
  "overrun dt calls l \<longleftrightarrow> (\<exists>seconds t. parse_window (lm_window l) = Inr seconds
     \<and> int (calls_within (seconds * 1000000) (instants_of dt (calls_to (lm_operation_key l) calls)) t) > lm_max_calls l)"

lemma check_limit_exceeds:
  assumes "check_limit dt (observe dt calls) l = Inr fs" and max_calls: "0 \<le> lm_max_calls l"
  shows "exceeded k fs \<longleftrightarrow> lm_operation_key l = k \<and> lm_max_calls l \<noteq> 0 \<and> overrun dt calls l"
proof (cases "calls_to (lm_operation_key l) calls = [] \<or> lm_max_calls l = 0")
  case True
  moreover have "\<not> overrun dt calls l" if "calls_to (lm_operation_key l) calls = []"
    using that max_calls by (simp add: overrun_def instants_of_def List.map_filter_def)
  ultimately show ?thesis using assms(1)
    by (auto simp: check_limit_def observe_lookup call_summary_def forbidden_def exceeded_def budget_finding_def Let_def split: if_splits)
next
  case False
  let ?is = "instants_of dt (calls_to (lm_operation_key l) calls)"
  from assms(1) False obtain seconds peak at where seconds: "parse_window (lm_window l) = Inr seconds"
    and peak: "busiest_window ?is (seconds * 1000000) = Inr (peak, at)"
    by (auto simp: check_limit_def observe_lookup call_summary_def forbidden_def bind_budget_def Let_def split: if_splits sum.splits)
  have "exceeded k fs \<longleftrightarrow> lm_operation_key l = k \<and> int peak > lm_max_calls l"
    using assms(1) False
    by (auto simp: check_limit_def observe_lookup call_summary_def forbidden_def bind_budget_def seconds peak exceeded_def budget_finding_def Let_def)
  moreover have "int peak > lm_max_calls l \<longleftrightarrow> overrun dt calls l"
    using peak_exceeds [OF peak _ max_calls] parse_window_nonneg [OF seconds] by (simp add: overrun_def seconds)
  ultimately show ?thesis using False by blast
qed

lemma check_limits_exceed:
  assumes "check_limits dt (observe dt calls) ls = Inr fs" and "\<And>l. l \<in> set ls \<Longrightarrow> 0 \<le> lm_max_calls l"
  shows "exceeded k fs \<longleftrightarrow> (\<exists>l \<in> set ls. lm_operation_key l = k \<and> lm_max_calls l \<noteq> 0 \<and> overrun dt calls l)"
  using assms
proof (induction ls arbitrary: fs)
  case Nil
  then show ?case by (simp add: exceeded_def)
next
  case (Cons l ls)
  then obtain fs1 fs2 where "check_limit dt (observe dt calls) l = Inr fs1" "check_limits dt (observe dt calls) ls = Inr fs2"
    "fs = fs1 @ fs2"
    by (auto simp: bind_budget_def split: sum.splits)
  with Cons check_limit_exceeds [of dt calls l fs1 k] show ?case by (simp add: exceeded_append)
qed

lemma evaluate_exceeds:
  assumes "load_budget source raw = Inr b" and "evaluate_budget dt b calls declared = Inr findings"
  shows "exceeded k findings \<longleftrightarrow> (\<exists>l \<in> set (bg_limits b). lm_operation_key l = k \<and> lm_max_calls l \<noteq> 0 \<and> overrun dt calls l)"
proof -
  from assms(2) obtain fs where "check_limits dt (observe dt calls) (bg_limits b) = Inr fs"
    "findings = unknown_limits b declared @ fs @ unbudgeted b (observe dt calls)"
    by (auto simp: evaluate_budget_def bind_budget_def Let_def split: sum.splits)
  with check_limits_exceed [of dt calls "bg_limits b" fs k] loaded_limits [OF assms(1)] show ?thesis
    by (simp add: exceeded_append other_findings_exceed_nothing)
qed

section \<open>Exceptions\<close>

lemma check_limit_error:
  assumes "parse_window (lm_window l) = Inr seconds"
  shows "check_limit dt (observe dt calls) l = Inl e \<longleftrightarrow> e = MixedInstants \<and> lm_max_calls l \<noteq> 0
    \<and> mixed (instants_of dt (calls_to (lm_operation_key l) calls))"
proof -
  let ?is = "instants_of dt (calls_to (lm_operation_key l) calls)"
  have none: "instants_of dt [] = []" "\<not> mixed []" by (simp_all add: instants_of_def List.map_filter_def mixed_def)
  note limit = check_limit_def observe_lookup call_summary_def forbidden_def bind_budget_def assms Let_def
  have peak: "busiest_window ?is window = (if mixed ?is then Inl MixedInstants else Inr (case busiest_window ?is window of
      Inr p \<Rightarrow> p | Inl _ \<Rightarrow> (0, None)))" for window
    using none(2) by (auto simp: busiest_window_def Let_def split_beta)
  show ?thesis
  proof (cases "mixed ?is")
    case True
    with peak have "busiest_window ?is window = Inl MixedInstants" for window by simp
    with True none show ?thesis by (auto simp: limit)
  next
    case False
    with peak obtain p where "busiest_window ?is (seconds * 1000000) = Inr p" by metis
    with False show ?thesis by (cases p) (simp add: limit)
  qed
qed

lemma check_limits_error:
  assumes "\<And>l. l \<in> set ls \<Longrightarrow> \<exists>seconds. parse_window (lm_window l) = Inr seconds"
  shows "check_limits dt (observe dt calls) ls = Inl e \<longleftrightarrow> e = MixedInstants
    \<and> (\<exists>l \<in> set ls. lm_max_calls l \<noteq> 0 \<and> mixed (instants_of dt (calls_to (lm_operation_key l) calls)))"
  using assms
proof (induction ls)
  case (Cons l ls)
  from Cons.prems [of l] obtain seconds where "parse_window (lm_window l) = Inr seconds" by auto
  from check_limit_error [OF this, of dt calls] Cons show ?case
    by (cases "check_limit dt (observe dt calls) l") (auto simp: bind_budget_def split: sum.splits)
qed simp

lemma evaluate_error:
  assumes "load_budget source raw = Inr b"
  shows "evaluate_budget dt b calls declared = Inl e \<longleftrightarrow> e = MixedInstants
    \<and> (\<exists>l \<in> set (bg_limits b). lm_max_calls l \<noteq> 0 \<and> mixed (instants_of dt (calls_to (lm_operation_key l) calls)))"
  using check_limits_error [of "bg_limits b" dt calls e] loaded_limits [OF assms]
  by (auto simp: evaluate_budget_def bind_budget_def Let_def split: sum.splits)

end
