(* ===== verification/WorkflowSamples.thy ===== *)
theory WorkflowSamples
  imports WorkflowRun BudgetFacts
begin

text \<open>A small workflow and a small call budget on which the properties are applied.\<close>

definition get_request :: "string \<Rightarrow> string \<Rightarrow> pyval \<Rightarrow> wf_request" where
  "get_request method path body = \<lparr>wr_method = method, wr_path = path, wr_body = body, wr_headers = [], wr_query = []\<rparr>"

definition plain_step :: "string \<Rightarrow> wf_request \<Rightarrow> (string, string) dict \<Rightarrow> wf_step" where
  "plain_step name request extracts = \<lparr>ws_name = name, ws_request = request, ws_extract = extracts,
     ws_assert_status = None, ws_assert_jsonpath = []\<rparr>"

definition order_flow :: workflow where
  "order_flow = \<lparr>wf_name = ''orders'', wf_inputs = [''sku''], wf_allowed_methods = [''GET'', ''POST'', ''DELETE''],
     wf_steps = [plain_step ''create'' (get_request ''POST'' ''/orders'' (PDict [(''sku'', PStr (placeholder ''sku''))])) [(''id'', ''$.id'')],
       plain_step ''read'' (get_request ''GET'' (''/orders/'' @ placeholder ''id'') PNone) []],
     wf_cleanup = [plain_step ''delete'' (get_request ''DELETE'' (''/orders/'' @ placeholder ''id'') PNone) []]\<rparr>"

definition order_server :: exchange where
  "order_server n request = Inr \<lparr>rp_status = 200, rp_payload = Json (PDict [(''id'', PInt 7)])\<rparr>"

definition order_inputs :: "(string, pyval) dict" where
  "order_inputs = [(''sku'', PStr ''a'')]"

definition order_run :: "workflow_result \<times> sent_request list" where
  "order_run = run_workflow order_flow order_server order_inputs"

definition tick_dates :: date_lib where
  "tick_dates = \<lparr>dt_parse = (\<lambda>s. Some \<lparr>it_zone = (if hd s = CHR ''Z'' then Some 0 else None), it_time = int (length s)\<rparr>), dt_format = (\<lambda>_. ''now'')\<rparr>"

definition search_budget :: pyval where
  "search_budget = PDict [(''version'', PInt 1), (''limits'', PList [PDict [(''tool'', PStr ''search''), (''max_calls'', PInt 1)]])]"

definition search_at :: "string \<Rightarrow> (string \<times> pyval) list" where
  "search_at t = [(''operation_key'', PStr ''tool search''), (''at'', PStr t)]"

lemma order_flow_runs:
  "graph_ok order_flow" "start_workflow order_flow order_server order_inputs = Inr order_run"
  "map sr_status (wo_steps (fst order_run)) = [''pass'', ''pass'']"
  "map sq_path (snd order_run) = [''/orders'', ''/orders/7'', ''/orders/7'']"
  by code_simp+

definition loaded_budget :: budget where
  "loaded_budget = \<lparr>bg_window = ''1h'', bg_deny_by_default = False,
     bg_limits = [\<lparr>lm_operation_key = ''tool search'', lm_max_calls = 1, lm_window = ''1h''\<rparr>], bg_source = ''b.yaml''\<rparr>"

lemma search_budget_loads: "load_budget ''b.yaml'' search_budget = Inr loaded_budget"
  by code_simp

lemma two_searches_exceed:
  "map_sum id (map (\<lambda>f. (f_rule_id f, f_operation_key f))) (evaluate_budget tick_dates loaded_budget [search_at ''1'', search_at ''12''] None)
    = Inr [(''BUDGET-EXCEEDED'', Some ''tool search'')]"
  by code_simp

lemma mixed_searches_raise:
  "map_sum id (map f_rule_id) (evaluate_budget tick_dates loaded_budget [search_at ''1'', search_at ''Z2''] None) = Inl MixedInstants"
  by code_simp

end
