(* ===== verification/Suppressions.thy ===== *)
theory Suppressions
  imports Model
begin

text \<open>
  The suppressions file, src/apiverity/rules/suppressions.py: which entries of the file are
  justified and bounded, and which findings they take out of a run. A day is its proleptic
  ordinal, \<open>date.toordinal()\<close>; \<open>date.fromisoformat\<close> is the argument \<open>dates\<close>, which answers
  nothing for a text that it refuses with a \<open>ValueError\<close>. A file is taken as the document
  that \<open>json.loads\<close> yields.
\<close>

section \<open>Entries\<close>

definition DEFAULT_MAX_LIFETIME_DAYS :: int where
  "DEFAULT_MAX_LIFETIME_DAYS = 90"

record suppression =
  su_rule_id :: string
  su_operation_key :: pyval
  su_owner :: string
  su_reason :: string
  su_expires :: pyval
  su_approved_by :: string

type_synonym iso_dates = "string \<Rightarrow> int option"

definition is_expired :: "iso_dates \<Rightarrow> int \<Rightarrow> suppression \<Rightarrow> bool result" where
  "is_expired dates today s = (case su_expires s of
       PNone \<Rightarrow> Inr False
     | PStr text \<Rightarrow> Inr (case dates text of None \<Rightarrow> True | Some day \<Rightarrow> day < today)
     | _ \<Rightarrow> Inl (TypeError ''fromisoformat: argument must be str''))"

text \<open>\<open>day + timedelta(days=n)\<close>, up to 9999-12-31.\<close>

definition day_after :: "int \<Rightarrow> int \<Rightarrow> int result" where
  "day_after day n =
     (if abs n > 999999999 \<or> day + n < 1 \<or> 3652059 < day + n then Inl (OverflowError ''date value out of range'')
      else Inr (day + n))"

definition name_problems :: "bool \<Rightarrow> suppression \<Rightarrow> string list" where
  "name_problems require_approver s =
     (if strip (su_rule_id s) = [] then [''it names no `rule_id`, so there is nothing for it to suppress''] else [])
     @ (if strip (su_owner s) = [] then [''it has no `owner`; a suppression nobody owns is nobody'' @ sq @ ''s to revisit''] else [])
     @ (if strip (su_reason s) = [] then [''it has no `reason`; the next reader cannot tell a decision from an oversight''] else [])
     @ (if require_approver \<and> strip (su_approved_by s) = [] then
          [''it has no `approved_by`, and this project sets `suppression_require_approver: true`''] else [])"

definition problems :: "iso_dates \<Rightarrow> int \<Rightarrow> int \<Rightarrow> bool \<Rightarrow> suppression \<Rightarrow> string list result" where
  "problems dates today max_days require_approver s =
     (let out = name_problems require_approver s in
      case su_expires s of
        PNone \<Rightarrow> Inr (out @ [''it has no `expires` date, so it is permanent -- which is the thing this format exists to prevent''])
      | PStr text \<Rightarrow> (case dates text of
            None \<Rightarrow> Inr (out @ [''its `expires` value '' @ str_repr text @ '' is not an ISO date (YYYY-MM-DD)''])
          | Some expiry \<Rightarrow> bind_result (day_after today max_days) (\<lambda>limit.
              Inr (out @ (if expiry > limit then [''it expires on '' @ text @ '', more than '' @ int_str max_days
                @ '' days out; an expiry far enough away is a permanent ignore with a date on it''] else []))))
      | _ \<Rightarrow> Inl (TypeError ''fromisoformat: argument must be str''))"

section \<open>The file\<close>

text \<open>\<open>str(item.get(name, ''))\<close>.\<close>

definition text_field :: "(string \<times> pyval) list \<Rightarrow> string \<Rightarrow> string" where
  "text_field item name = (case map_of item name of None \<Rightarrow> [] | Some v \<Rightarrow> py_str v)"

fun entry_of :: "pyval \<Rightarrow> suppression list" where
  "entry_of (PDict item) = [\<lparr>su_rule_id = text_field item ''rule_id'', su_operation_key = val_get item ''operation_key'',
     su_owner = text_field item ''owner'', su_reason = text_field item ''reason'', su_expires = val_get item ''expires'',
     su_approved_by = text_field item ''approved_by''\<rparr>]"
| "entry_of _ = []"

definition load_suppressions :: "pyval \<Rightarrow> suppression list result" where
  "load_suppressions data =
     (let items = (case data of PDict kvs \<Rightarrow> (case map_of kvs ''suppressions'' of None \<Rightarrow> data | Some v \<Rightarrow> v) | _ \<Rightarrow> data)
      in if \<not> truthy items then Inr [] else bind_result (py_iter items) (\<lambda>xs. Inr (concat (map entry_of xs))))"

section \<open>Applying it\<close>

record suppression_result =
  sr_active :: "finding list"
  sr_suppressed :: "(finding \<times> suppression) list"
  sr_expired :: "suppression list"
  sr_incomplete :: "(suppression \<times> string list) list"
  sr_unscoped :: "suppression list"

record triage =
  tr_expired :: "suppression list"
  tr_incomplete :: "(suppression \<times> string list) list"
  tr_live :: "suppression list"

fun triage_entries :: "iso_dates \<Rightarrow> int \<Rightarrow> int \<Rightarrow> bool \<Rightarrow> suppression list \<Rightarrow> triage result" where
  "triage_entries dates today max_days approver [] = Inr \<lparr>tr_expired = [], tr_incomplete = [], tr_live = []\<rparr>"
| "triage_entries dates today max_days approver (s # ss) =
     bind_result (problems dates today max_days approver s) (\<lambda>ps.
     bind_result (if ps \<noteq> [] then Inr False else is_expired dates today s) (\<lambda>expired.
     bind_result (triage_entries dates today max_days approver ss) (\<lambda>t.
       Inr (if ps \<noteq> [] then t\<lparr>tr_incomplete := (s, ps) # tr_incomplete t\<rparr>
            else if expired then t\<lparr>tr_expired := s # tr_expired t\<rparr>
            else t\<lparr>tr_live := s # tr_live t\<rparr>))))"

definition entry_covers :: "suppression \<Rightarrow> string \<Rightarrow> string option \<Rightarrow> bool" where
  "entry_covers s rule_id k \<longleftrightarrow> su_rule_id s = rule_id \<and> (su_operation_key s = PNone \<or> py_eq (su_operation_key s) (opt_val PStr k))"

definition suppresses :: "suppression \<Rightarrow> finding \<Rightarrow> bool" where
  "suppresses s f \<longleftrightarrow> entry_covers s (f_rule_id f) (f_operation_key f)"

definition first_match :: "suppression list \<Rightarrow> finding \<Rightarrow> suppression option" where
  "first_match live f = List.find (\<lambda>s. suppresses s f) live"

definition apply_suppressions :: "iso_dates \<Rightarrow> int \<Rightarrow> int \<Rightarrow> bool \<Rightarrow> finding list \<Rightarrow> suppression list \<Rightarrow> suppression_result result" where
  "apply_suppressions dates today max_days approver findings suppressions =
     bind_result (triage_entries dates today max_days approver suppressions) (\<lambda>t. Inr \<lparr>
       sr_active = filter (\<lambda>f. first_match (tr_live t) f = None) findings,
       sr_suppressed = List.map_filter (\<lambda>f. map_option (Pair f) (first_match (tr_live t) f)) findings,
       sr_expired = tr_expired t, sr_incomplete = tr_incomplete t,
       sr_unscoped = filter (\<lambda>s. su_operation_key s = PNone) (tr_live t)\<rparr>)"

section \<open>Findings about the file\<close>

definition plain_finding :: "string \<Rightarrow> severity \<Rightarrow> string \<Rightarrow> string option \<Rightarrow> finding" where
  "plain_finding rule sev message op = \<lparr>f_rule_id = rule, f_severity = sev, f_message = message, f_operation_key = op,
     f_location = None, f_new_location = None, f_change_id = None, f_hint = None, f_metadata = []\<rparr>"

text \<open>\<open>Finding(operation_key=...)\<close>: pydantic takes a text or \<open>None\<close>.\<close>

definition checked_key :: "pyval \<Rightarrow> string option result" where
  "checked_key v = (case v of PNone \<Rightarrow> Inr None | PStr s \<Rightarrow> Inr (Some s) | _ \<Rightarrow> Inl (ValueError ''operation_key''))"

definition on_operation :: "suppression \<Rightarrow> string" where
  "on_operation s = (if truthy (su_operation_key s) then '' on '' @ quoted (py_str (su_operation_key s)) else [])"

definition expired_suppression_findings :: "suppression list \<Rightarrow> finding list result" where
  "expired_suppression_findings = each (\<lambda>s. bind_result (checked_key (su_operation_key s)) (\<lambda>k.
     Inr (plain_finding ''SUPPRESSION-EXPIRED'' WARN (''suppression for '' @ quoted (su_rule_id s) @ on_operation s
       @ '' owned by '' @ quoted (if su_owner s = [] then ''unknown'' else su_owner s) @ '' expired on '' @ py_str (su_expires s)
       @ ''; re-justify it with an owner, reason and new expiry, or fix the issue'') k)))"

definition incomplete_suppression_findings :: "(suppression \<times> string list) list \<Rightarrow> finding list result" where
  "incomplete_suppression_findings = each (\<lambda>(s, ps). bind_result (checked_key (su_operation_key s)) (\<lambda>k.
     Inr (plain_finding ''SUPPRESSION-INCOMPLETE'' WARN (''the suppression for ''
       @ quoted (if su_rule_id s = [] then ''(no rule id)'' else su_rule_id s) @ on_operation s
       @ '' did not suppress anything, because '' @ join ''; and '' ps) k)))"

definition unscoped_suppression_findings :: "suppression list \<Rightarrow> finding list" where
  "unscoped_suppression_findings = map (\<lambda>s. plain_finding ''SUPPRESSION-UNSCOPED'' INFO (quoted (su_rule_id s)
     @ '' is suppressed across every operation until '' @ py_str (su_expires s) @ '' by '' @ quoted (su_owner s)
     @ ''; naming an `operation_key` would keep the rule live everywhere else'') None)"

section \<open>What a suppressed finding rests on\<close>

text \<open>An entry that counts on a day: named, owned, reasoned, and with an expiry that has not
  passed and is not further away than the project allows.\<close>

definition justified :: "iso_dates \<Rightarrow> int \<Rightarrow> int \<Rightarrow> bool \<Rightarrow> suppression \<Rightarrow> bool" where
  "justified dates today max_days approver s \<longleftrightarrow>
     strip (su_rule_id s) \<noteq> [] \<and> strip (su_owner s) \<noteq> [] \<and> strip (su_reason s) \<noteq> []
     \<and> (approver \<longrightarrow> strip (su_approved_by s) \<noteq> [])
     \<and> (\<exists>text expiry. su_expires s = PStr text \<and> dates text = Some expiry \<and> today \<le> expiry \<and> expiry \<le> today + max_days)"

lemma name_problems_none: "name_problems approver s = [] \<longleftrightarrow>
   strip (su_rule_id s) \<noteq> [] \<and> strip (su_owner s) \<noteq> [] \<and> strip (su_reason s) \<noteq> []
     \<and> (approver \<longrightarrow> strip (su_approved_by s) \<noteq> [])"
  by (simp add: name_problems_def)

lemma triage_live:
  assumes "triage_entries dates today max_days approver ss = Inr t"
  shows "set (tr_live t) = {s \<in> set ss. justified dates today max_days approver s}"
  using assms
proof (induction ss arbitrary: t)
  case (Cons s ss)
  from Cons.prems obtain ps ex u where s: "problems dates today max_days approver s = Inr ps"
    "(if ps \<noteq> [] then Inr False else is_expired dates today s) = Inr ex"
    and u: "triage_entries dates today max_days approver ss = Inr u"
    and t: "t = (if ps \<noteq> [] then u\<lparr>tr_incomplete := (s, ps) # tr_incomplete u\<rparr>
            else if ex then u\<lparr>tr_expired := s # tr_expired u\<rparr> else u\<lparr>tr_live := s # tr_live u\<rparr>)"
    by (auto simp: bind_result_def split: sum.splits)
  have "ps = [] \<and> \<not> ex \<longleftrightarrow> justified dates today max_days approver s"
    using s unfolding justified_def
    by (auto simp: name_problems_none problems_def is_expired_def day_after_def bind_result_def Let_def
        split: pyval.splits option.splits if_splits)
  with t Cons.IH [OF u] show ?case by auto
qed simp

lemma suppressed_justified:
  assumes "apply_suppressions dates today max_days approver findings suppressions = Inr r"
    and "(f, s) \<in> set (sr_suppressed r)"
  shows "s \<in> set suppressions \<and> justified dates today max_days approver s \<and> suppresses s f"
proof -
  obtain t where t: "triage_entries dates today max_days approver suppressions = Inr t"
    and r: "sr_suppressed r = List.map_filter (\<lambda>f. map_option (Pair f) (first_match (tr_live t) f)) findings"
    using assms(1) by (auto simp: apply_suppressions_def bind_result_def split: sum.splits)
  from assms(2) r have "first_match (tr_live t) f = Some s"
    by (auto simp: List.map_filter_def split: option.splits)
  then have "s \<in> set (tr_live t)" "suppresses s f" by (auto simp: first_match_def find_Some_iff)
  with triage_live [OF t] show ?thesis by auto
qed

lemma active_or_suppressed:
  assumes "apply_suppressions dates today max_days approver findings suppressions = Inr r"
  shows "sr_active r = filter (\<lambda>f. \<not> (\<exists>s \<in> set suppressions. justified dates today max_days approver s \<and> suppresses s f)) findings
    \<and> map fst (sr_suppressed r) = filter (\<lambda>f. \<exists>s \<in> set suppressions. justified dates today max_days approver s \<and> suppresses s f) findings"
proof -
  obtain t where t: "triage_entries dates today max_days approver suppressions = Inr t"
    and r: "sr_suppressed r = List.map_filter (\<lambda>f. map_option (Pair f) (first_match (tr_live t) f)) findings"
      "sr_active r = filter (\<lambda>f. first_match (tr_live t) f = None) findings"
    using assms(1) by (auto simp: apply_suppressions_def bind_result_def split: sum.splits)
  have match: "first_match (tr_live t) f = None \<longleftrightarrow> \<not> (\<exists>s \<in> set suppressions. justified dates today max_days approver s \<and> suppresses s f)" for f
    using triage_live [OF t] by (auto simp: first_match_def find_None_iff)
  have "map fst (List.map_filter (\<lambda>f. map_option (Pair f) (m f)) fs) = filter (\<lambda>f. \<not> m f = None) fs" for m :: "finding \<Rightarrow> suppression option" and fs
    by (induction fs) (auto simp: List.map_filter_def split: option.splits)
  then show ?thesis unfolding r by (simp only: match not_not simp_thms)
qed

text \<open>No entry counts for longer than the project allows.\<close>

lemma justification_ends:
  assumes "justified dates today max_days approver s" and "today + max_days < later"
  shows "\<not> justified dates later max_days' approver' s"
  using assms by (auto simp: justified_def)

end
