(* ===== verification/Consumers.thy ===== *)
theory Consumers
  imports Suppressions
begin

text \<open>
  The consumer registry, src/apiverity/rules/consumers.py: who calls which operation, the
  annotation of findings with the consumers they affect, and the only case in which it lowers
  a severity. A file is taken as the document that \<open>yaml.safe_load(...) or {}\<close> yields;
  \<open>Inl\<close> is the text of a \<open>RegistryError\<close>.
\<close>

section \<open>The registry\<close>

record consumer =
  co_name :: string
  co_operations :: "string list"
  co_team :: "string option"
  co_contact :: "string option"

record registry =
  rg_complete :: bool
  rg_consumers :: "consumer list"
  rg_source :: string

definition consumers_of :: "registry \<Rightarrow> string \<Rightarrow> consumer list" where
  "consumers_of r k = filter (\<lambda>c. k \<in> set (co_operations c)) (rg_consumers r)"

type_synonym 'a registry_result = "string + 'a"

definition bind_registry :: "'a registry_result \<Rightarrow> ('a \<Rightarrow> 'b registry_result) \<Rightarrow> 'b registry_result" where
  "bind_registry r f = (case r of Inl e \<Rightarrow> Inl e | Inr a \<Rightarrow> f a)"

definition use_key :: "pyval \<Rightarrow> string registry_result" where
  "use_key entry = (case entry of
       PStr s \<Rightarrow> Inr s
     | PDict kvs \<Rightarrow> (case val_get kvs ''tool'' of
           PStr tool \<Rightarrow> Inr (''tool '' @ tool)
         | _ \<Rightarrow> (case val_get kvs ''operation'' of
             PStr operation \<Rightarrow> Inr operation
           | _ \<Rightarrow> Inl ''each `uses` entry names an `operation` or a `tool`''))
     | _ \<Rightarrow> Inl ''each `uses` entry names an `operation` or a `tool`'')"

fun all_or_error :: "('a \<Rightarrow> 'b registry_result) \<Rightarrow> 'a list \<Rightarrow> 'b list registry_result" where
  "all_or_error f [] = Inr []"
| "all_or_error f (x # xs) = bind_registry (f x) (\<lambda>y. bind_registry (all_or_error f xs) (\<lambda>ys. Inr (y # ys)))"

fun text_or_none :: "pyval \<Rightarrow> string option" where
  "text_or_none (PStr s) = Some s"
| "text_or_none _ = None"

definition consumer_of :: "string \<Rightarrow> pyval \<Rightarrow> consumer registry_result" where
  "consumer_of source entry = (case entry of
     PDict kvs \<Rightarrow> (case val_get kvs ''name'' of
         PStr name \<Rightarrow>
           if strip name = [] then Inl (source @ '': each consumer needs a `name`'')
           else (case val_get kvs ''uses'' of
               PList uses \<Rightarrow> bind_registry (all_or_error use_key uses) (\<lambda>ops.
                 Inr \<lparr>co_name = name, co_operations = sorted_set ops,
                   co_team = text_or_none (val_get kvs ''team''), co_contact = text_or_none (val_get kvs ''contact'')\<rparr>)
             | _ \<Rightarrow> Inl (source @ '': consumer '' @ str_repr name @ '' needs a `uses` list''))
       | _ \<Rightarrow> Inl (source @ '': each consumer needs a `name`''))
   | _ \<Rightarrow> Inl (source @ '': each consumer is a mapping''))"

definition duplicate_names :: "consumer list \<Rightarrow> string list" where
  "duplicate_names cs = sorted_set (filter (\<lambda>n. count_list (map co_name cs) n > 1) (map co_name cs))"

definition load_registry :: "string \<Rightarrow> pyval \<Rightarrow> registry registry_result" where
  "load_registry source raw = (case raw of
     PDict kvs \<Rightarrow>
       if \<not> py_eq (val_get kvs ''version'') (PInt 1) then
         Inl (source @ '': registry version '' @ py_repr (val_get kvs ''version'') @ '' is not supported; this build understands 1'')
       else (case val_get kvs ''consumers'' of
           PList entries \<Rightarrow> bind_registry (all_or_error (consumer_of source) entries) (\<lambda>cs.
             if duplicate_names cs \<noteq> [] then Inl (source @ '': '' @ py_repr (str_list (duplicate_names cs)) @ '' appear more than once'')
             else Inr \<lparr>rg_complete = truthy (val_get kvs ''complete''), rg_consumers = cs, rg_source = source\<rparr>)
         | _ \<Rightarrow> Inl (source @ '': `consumers` must be a list''))
   | _ \<Rightarrow> Inl (source @ '': a consumer registry is a mapping at the top level''))"

definition validate_against :: "registry \<Rightarrow> string list \<Rightarrow> finding list" where
  "validate_against r declared = concat (map (\<lambda>c. map (\<lambda>op.
       plain_finding ''CONSUMER-UNKNOWN-OPERATION'' ERROR (rg_source r @ '': '' @ str_repr (co_name c) @ '' declares it uses ''
         @ str_repr op @ '', which this contract does not declare. The entry can never match a finding, so it is coverage in name only'')
         (Some op))
     (filter (\<lambda>op. op \<notin> set declared) (co_operations c))) (rg_consumers r))"

section \<open>Annotation\<close>

text \<open>The em dash, in UTF-8.\<close>

definition dash :: string where
  "dash = '' '' @ [CHR 0xE2, CHR 0x80, CHR 0x94] @ '' ''"

definition affected_finding :: "consumer list \<Rightarrow> finding \<Rightarrow> finding" where
  "affected_finding affected f = f\<lparr>
     f_metadata := dict_set ''consumer_teams'' (str_list (sorted_set (filter (\<lambda>t. t \<noteq> []) (List.map_filter co_team affected))))
       (dict_set ''consumers'' (str_list (map co_name affected)) (f_metadata f)),
     f_message := f_message f @ dash @ ''affects '' @ join '', '' (map co_name affected)\<rparr>"

definition downgraded_finding :: "registry \<Rightarrow> finding \<Rightarrow> finding" where
  "downgraded_finding r f = f\<lparr>
     f_severity := WARN,
     f_metadata := dict_set ''downgraded_from'' (PStr ''ERROR'') (dict_set ''consumers'' (PList []) (f_metadata f)),
     f_message := f_message f @ dash @ ''no registered consumer calls this, and '' @ rg_source r
       @ '' declares itself complete, so it is reported at WARN''\<rparr>"

definition annotate_finding :: "registry \<Rightarrow> bool \<Rightarrow> finding \<Rightarrow> finding" where
  "annotate_finding r adjust_severity f =
     (if starts_with (f_rule_id f) ''CONSUMER-'' then f
      else let affected = consumers_of r (case f_operation_key f of None \<Rightarrow> [] | Some k \<Rightarrow> k) in
        if affected = [] \<and> \<not> (adjust_severity \<and> rg_complete r) then f
        else if affected \<noteq> [] then affected_finding affected f
        else if adjust_severity \<and> rg_complete r \<and> f_severity f = ERROR \<and> truthy_str (f_operation_key f)
          then downgraded_finding r f
        else f)"

definition annotate :: "registry \<Rightarrow> bool \<Rightarrow> finding list \<Rightarrow> finding list" where
  "annotate r adjust_severity findings = map (annotate_finding r adjust_severity) findings"

section \<open>The blast radius\<close>

record consumer_impact =
  ci_team :: "string option"
  ci_contact :: "string option"
  ci_operations :: "string list"
  ci_findings :: nat

record blast =
  bl_registry :: string
  bl_complete :: bool
  bl_consumers_registered :: nat
  bl_unclaimed_operations :: "string list"
  bl_by_operation :: "(string, string list) dict"
  bl_by_consumer :: "(string, consumer_impact) dict"

definition hit_consumer :: "string \<Rightarrow> consumer \<Rightarrow> (string, consumer_impact) dict \<Rightarrow> (string, consumer_impact) dict" where
  "hit_consumer k c per =
     (let r = dict_get_or per (co_name c) \<lparr>ci_team = co_team c, ci_contact = co_contact c, ci_operations = [], ci_findings = 0\<rparr>
      in dict_set (co_name c) (r\<lparr>ci_findings := ci_findings r + 1,
           ci_operations := (if k \<in> set (ci_operations r) then ci_operations r else ci_operations r @ [k])\<rparr>) per)"

type_synonym tally = "(string, consumer_impact) dict \<times> (string, string list) dict"

definition tally_finding :: "registry \<Rightarrow> finding \<Rightarrow> tally \<Rightarrow> tally" where
  "tally_finding r f = (\<lambda>(per_consumer, per_operation).
     if f_severity f \<noteq> ERROR then (per_consumer, per_operation)
     else let k = (case f_operation_key f of None \<Rightarrow> [] | Some k \<Rightarrow> k); affected = consumers_of r k in
       (fold (hit_consumer k) affected per_consumer,
        if k \<noteq> [] \<and> k \<notin> set (keys per_operation)
        then dict_set k (sort (map co_name affected)) per_operation else per_operation))"

definition by_key :: "(string, 'a) dict \<Rightarrow> (string, 'a) dict" where
  "by_key d = map (\<lambda>k. (k, the (map_of d k))) (sorted_set (keys d))"

definition blast_radius :: "finding list \<Rightarrow> registry \<Rightarrow> blast" where
  "blast_radius findings r =
     (let (per_consumer, per_operation) = fold (tally_finding r) findings ([], [])
      in \<lparr>bl_registry = rg_source r, bl_complete = rg_complete r, bl_consumers_registered = length (rg_consumers r),
          bl_unclaimed_operations = sort (map fst (filter (\<lambda>(k, v). v = []) per_operation)),
          bl_by_operation = by_key per_operation, bl_by_consumer = by_key per_consumer\<rparr>)"

section \<open>When a severity is lowered\<close>

lemma annotate_finding_keeps:
  "f_rule_id (annotate_finding r adjust f) = f_rule_id f \<and> f_operation_key (annotate_finding r adjust f) = f_operation_key f
    \<and> (f_severity (annotate_finding r adjust f) = f_severity f
      \<or> (f_severity f = ERROR \<and> f_severity (annotate_finding r adjust f) = WARN \<and> adjust \<and> rg_complete r
          \<and> (\<exists>k. f_operation_key f = Some k \<and> k \<noteq> [] \<and> consumers_of r k = [])
          \<and> map_of (f_metadata (annotate_finding r adjust f)) ''downgraded_from'' = Some (PStr ''ERROR'')))"
  by (auto simp: annotate_finding_def affected_finding_def downgraded_finding_def Let_def truthy_str_def dict_simps
      split: option.splits)

end
