(* ===== verification/Semver.thy ===== *)
theory Semver
  imports Suppressions
begin

text \<open>
  The version policy, src/apiverity/rules/semver.py. A \<open>Version\<close> of the package \<open>packaging\<close> is an
  argument: its parser, the three numbers the code reads, its order and its text.
\<close>

record 'v version_lib =
  vl_parse :: "string \<Rightarrow> 'v option"
  vl_major :: "'v \<Rightarrow> nat"
  vl_minor :: "'v \<Rightarrow> nat"
  vl_micro :: "'v \<Rightarrow> nat"
  vl_less :: "'v \<Rightarrow> 'v \<Rightarrow> bool"
  vl_text :: "'v \<Rightarrow> string"

section \<open>Advice\<close>

record version_advice =
  va_required_bump :: string
  va_suggested_version :: "string option"
  va_reasons :: "string list"
  va_satisfied :: bool

definition dotted_version :: "nat \<Rightarrow> nat \<Rightarrow> nat \<Rightarrow> string" where
  "dotted_version a b c = nat_str a @ ''.'' @ nat_str b @ ''.'' @ nat_str c"

definition bump :: "'v version_lib \<Rightarrow> 'v \<Rightarrow> string \<Rightarrow> string" where
  "bump lib v kind =
     (if kind = ''major'' then dotted_version (vl_major lib v + 1) 0 0
      else if kind = ''minor'' then dotted_version (vl_major lib v) (vl_minor lib v + 1) 0
      else if kind = ''patch'' then dotted_version (vl_major lib v) (vl_minor lib v) (vl_micro lib v + 1)
      else vl_text lib v)"

definition is_additive :: "change list \<Rightarrow> bool" where
  "is_additive changes = list_ex (\<lambda>c. contains ''_added'' (kind_value (c_kind c))) changes"

definition satisfies :: "'v version_lib \<Rightarrow> 'v \<Rightarrow> 'v \<Rightarrow> string \<Rightarrow> bool" where
  "satisfies lib old declared kind =
     (if kind = ''major'' then vl_major lib declared > vl_major lib old
      else if kind = ''minor'' then vl_major lib declared > vl_major lib old \<or> vl_minor lib declared > vl_minor lib old
      else if kind = ''patch'' then vl_less lib old declared
      else True)"

definition rules_of :: "severity \<Rightarrow> finding list \<Rightarrow> string list" where
  "rules_of sev findings = sorted_set (map f_rule_id (filter (\<lambda>f. f_severity f = sev) findings))"

definition required_bump :: "finding list \<Rightarrow> change list \<Rightarrow> bool \<Rightarrow> (string \<times> string list) option" where
  "required_bump findings changes require_minor =
     (let breaking = rules_of ERROR findings; risky = rules_of WARN findings in
      if breaking \<noteq> [] then Some (''major'', map (\<lambda>r. r @ '' (ERROR)'') breaking)
      else if risky \<noteq> [] \<and> require_minor then Some (''minor'', map (\<lambda>r. r @ '' (WARN)'') risky)
      else if changes \<noteq> [] \<or> findings \<noteq> [] then
        Some (if risky \<noteq> [] \<or> is_additive changes then ''minor'' else ''patch'',
          if risky \<noteq> [] then map (\<lambda>r. r @ '' (WARN)'') risky
          else [nat_str (length changes) @ '' change(s) with no breaking finding''])
      else None)"

definition suggest_bump :: "'v version_lib \<Rightarrow> string \<Rightarrow> finding list \<Rightarrow> change list \<Rightarrow> bool \<Rightarrow> string option \<Rightarrow> version_advice" where
  "suggest_bump lib current findings changes require_minor declared_new =
     (case required_bump findings changes require_minor of
        None \<Rightarrow> \<lparr>va_required_bump = ''none'', va_suggested_version = (if current = [] then None else Some current),
          va_reasons = [], va_satisfied = True\<rparr>
      | Some (kind, reasons) \<Rightarrow> (case vl_parse lib current of
            None \<Rightarrow> \<lparr>va_required_bump = kind, va_suggested_version = None,
              va_reasons = reasons @ [''current version '' @ str_repr current @ '' is unparseable''], va_satisfied = False\<rparr>
          | Some v \<Rightarrow> \<lparr>va_required_bump = kind, va_suggested_version = Some (bump lib v kind), va_reasons = reasons,
              va_satisfied = (case declared_new of None \<Rightarrow> False | Some text \<Rightarrow>
                (case vl_parse lib text of None \<Rightarrow> False | Some d \<Rightarrow> satisfies lib v d kind))\<rparr>))"

section \<open>The policy\<close>

definition semver_evaluate :: "'v version_lib \<Rightarrow> string \<Rightarrow> string \<Rightarrow> bool \<Rightarrow> finding list \<Rightarrow> change list \<Rightarrow> finding list" where
  "semver_evaluate lib old_version new_version require_minor findings changes =
     (let has_breaking = list_ex (\<lambda>f. f_severity f = ERROR) findings;
          has_risky = list_ex (\<lambda>f. f_severity f = WARN) findings;
          has_material = (findings \<noteq> [] \<or> changes \<noteq> []) in
      case (vl_parse lib old_version, vl_parse lib new_version) of
        (Some old, Some new) \<Rightarrow>
          if vl_less lib new old then
            [plain_finding ''SEMVER-DECREASE'' ERROR (''version decreased '' @ quoted old_version @ '' -> '' @ quoted new_version
               @ ''; published versions must never decrease'') None]
          else
            let major_bump = vl_major lib new > vl_major lib old;
                minor_bump = vl_minor lib new > vl_minor lib old;
                any_bump = vl_less lib old new in
            if has_breaking \<and> \<not> major_bump then
              [plain_finding ''SEMVER-MAJOR-REQUIRED'' ERROR (''breaking changes detected but version only moved '' @ quoted old_version
                 @ '' -> '' @ quoted new_version @ ''; a MAJOR bump is required'') None]
            else if require_minor \<and> has_risky \<and> \<not> (minor_bump \<or> major_bump) then
              [plain_finding ''SEMVER-MINOR-REQUIRED'' WARN (''risky (WARN) changes detected without a MINOR bump (''
                 @ quoted old_version @ '' -> '' @ quoted new_version @ '')'') None]
            else if has_material \<and> \<not> any_bump then
              [plain_finding ''SEMVER-NO-BUMP'' WARN (''material contract changes detected but the version stayed at ''
                 @ quoted new_version) None]
            else []
      | _ \<Rightarrow> [plain_finding ''SEMVER-UNPARSEABLE'' WARN (''cannot parse versions '' @ quoted old_version @ '' -> ''
               @ quoted new_version @ '' for semver policy'') None])"

section \<open>The advice satisfies the policy\<close>

text \<open>What \<open>packaging\<close> documents of a version without an epoch: a text of three numbers that comes
  after the three numbers of the version parses to exactly these numbers, and is later.\<close>

definition orders_releases :: "'v version_lib \<Rightarrow> 'v \<Rightarrow> bool" where
  "orders_releases lib v \<longleftrightarrow> (\<forall>a b c. (vl_major lib v, vl_minor lib v, vl_micro lib v) < (a, b, c) \<longrightarrow>
     (\<exists>w. vl_parse lib (dotted_version a b c) = Some w \<and> vl_major lib w = a \<and> vl_minor lib w = b \<and> vl_micro lib w = c
        \<and> vl_less lib v w \<and> \<not> vl_less lib w v))"

lemma rules_of_empty: "rules_of sev findings = [] \<longleftrightarrow> \<not> list_ex (\<lambda>f. f_severity f = sev) findings"
proof -
  have "rules_of sev findings = [] \<longleftrightarrow> set (rules_of sev findings) = {}" by (simp only: set_empty)
  then show ?thesis by (auto simp: rules_of_def list_ex_iff)
qed

lemma bumped_version:
  assumes "orders_releases lib v" and "kind \<in> {''major'', ''minor'', ''patch''}"
  shows "\<exists>w. vl_parse lib (bump lib v kind) = Some w \<and> vl_less lib v w \<and> \<not> vl_less lib w v
    \<and> (kind = ''major'' \<longrightarrow> vl_major lib w > vl_major lib v) \<and> (kind = ''minor'' \<longrightarrow> vl_minor lib w > vl_minor lib v)"
proof -
  obtain a b c where numbers: "bump lib v kind = dotted_version a b c" and later: "(vl_major lib v, vl_minor lib v, vl_micro lib v) < (a, b, c)"
    and "kind = ''major'' \<longrightarrow> a > vl_major lib v" "kind = ''minor'' \<longrightarrow> b > vl_minor lib v"
    using assms(2) by (auto simp: bump_def less_prod_def)
  moreover obtain w where "vl_parse lib (dotted_version a b c) = Some w" "vl_major lib w = a" "vl_minor lib w = b"
    "vl_less lib v w" "\<not> vl_less lib w v"
    using assms(1) later unfolding orders_releases_def by blast
  ultimately show ?thesis by auto
qed

lemma advice_satisfies_policy:
  assumes "vl_parse lib current = Some v" and "orders_releases lib v" and "\<not> vl_less lib v v" and "current \<noteq> []"
  shows "\<exists>text. va_suggested_version (suggest_bump lib current findings changes require_minor declared) = Some text
    \<and> semver_evaluate lib current text require_minor findings changes = []"
proof (cases "required_bump findings changes require_minor")
  case None
  then have "findings = []" "changes = []" by (auto simp: required_bump_def Let_def split: if_splits)
  with None assms show ?thesis by (simp add: suggest_bump_def semver_evaluate_def)
next
  case (Some r)
  obtain kind reasons where r: "r = (kind, reasons)" by fastforce
  have kinds: "kind \<in> {''major'', ''minor'', ''patch''}"
    and breaking: "list_ex (\<lambda>f. f_severity f = ERROR) findings \<Longrightarrow> kind = ''major''"
    and risky: "require_minor \<Longrightarrow> list_ex (\<lambda>f. f_severity f = WARN) findings \<Longrightarrow> kind \<in> {''major'', ''minor''}"
    using Some by (auto simp: r required_bump_def rules_of_empty Let_def split: if_splits)
  from bumped_version [OF assms(2) kinds] obtain w where w: "vl_parse lib (bump lib v kind) = Some w" "vl_less lib v w" "\<not> vl_less lib w v"
    "kind = ''major'' \<Longrightarrow> vl_major lib w > vl_major lib v" "kind = ''minor'' \<Longrightarrow> vl_minor lib w > vl_minor lib v" by blast
  have "va_suggested_version (suggest_bump lib current findings changes require_minor declared) = Some (bump lib v kind)"
    by (simp add: suggest_bump_def Some r assms(1))
  moreover have "semver_evaluate lib current (bump lib v kind) require_minor findings changes = []"
    using w breaking risky by (auto simp: semver_evaluate_def assms(1) Let_def)
  ultimately show ?thesis by blast
qed

end
