(* ===== verification/Compat.thy ===== *)
theory Compat
  imports Suppressions
begin

text \<open>
  Whole-contract compatibility: src/apiverity/diff/compat.py, \<open>CompatAnalyzer\<close>, and
  src/apiverity/diff/protocol_compat.py. The analyses append to one list of findings; here each
  is the list it appends. \<open>urlsplit(url).hostname\<close> is the argument \<open>hostname\<close>; it raises a
  \<open>ValueError\<close> on some malformed addresses.
\<close>

type_synonym url_lib = "string \<Rightarrow> string option result"

section \<open>Reading an operation\<close>

definition LOCAL_HOSTS :: "string list" where
  "LOCAL_HOSTS = [''localhost'', ''127.0.0.1'', ''0.0.0.0'', ''::1'', ''[::1]'']"

definition media_types :: "operation \<Rightarrow> string list" where
  "media_types op = (case op_request_body op of None \<Rightarrow> [] | Some b \<Rightarrow> keys (rb_content b))
     @ concat (map (\<lambda>r. keys (rs_content r)) (op_responses op))"

definition status_codes :: "operation \<Rightarrow> string list" where
  "status_codes op = map rs_status (op_responses op)"

definition header_param :: "parameter \<Rightarrow> bool" where
  "header_param p \<longleftrightarrow> location_value (p_location p) = ''header''"

definition set_default :: "string \<Rightarrow> 'v \<Rightarrow> (string, 'v) dict \<Rightarrow> (string, 'v) dict" where
  "set_default k v d = (if k \<in> set (keys d) then d else dict_set k v d)"

text \<open>Header name to \<open>request\<close> or the response that documents it first.\<close>

definition op_headers :: "operation \<Rightarrow> (string, string) dict" where
  "op_headers op = fold (\<lambda>r d. fold (\<lambda>h. set_default (lower h) (''response:'' @ rs_status r)) (keys (rs_headers r)) d) (op_responses op)
     (fold (\<lambda>p. dict_set (lower (p_name p)) ''request'') (filter header_param (op_parameters op)) [])"

section \<open>The analyses\<close>

text \<open>The operations of the old contract that the new one still has.\<close>

definition for_common :: "service \<Rightarrow> service \<Rightarrow> (string \<Rightarrow> operation \<Rightarrow> operation \<Rightarrow> finding list) \<Rightarrow> finding list" where
  "for_common old new f = concat (map (\<lambda>k. case (find_operation old k, find_operation new k) of
       (Some o_op, Some n_op) \<Rightarrow> f k o_op n_op | _ \<Rightarrow> []) (operation_keys old))"

definition with_hint :: "string \<Rightarrow> finding \<Rightarrow> finding" where
  "with_hint h f = f\<lparr>f_hint := Some h\<rparr>"

definition compat_status_codes :: "string \<Rightarrow> operation \<Rightarrow> operation \<Rightarrow> finding list" where
  "compat_status_codes k o_op n_op =
     map (\<lambda>status. with_hint ''keep documenting legacy statuses until consumers migrate''
       (plain_finding ''COMPAT-STATUS-REMOVED'' (if starts_with status ''2'' then WARN else INFO)
         (if starts_with status ''2'' then quoted k @ '' no longer documents '' @ status @ ''; clients handling that outcome may break''
          else quoted k @ '' removed documented status '' @ status) (Some k)))
       (sorted_diff (status_codes o_op) (status_codes n_op))
     @ map (\<lambda>status. plain_finding ''COMPAT-STATUS-ADDED'' INFO (quoted k @ '' now documents status '' @ status) (Some k))
       (sorted_diff (status_codes n_op) (status_codes o_op))"

definition compat_content :: "string \<Rightarrow> operation \<Rightarrow> operation \<Rightarrow> finding list" where
  "compat_content k o_op n_op =
     map (\<lambda>media. plain_finding ''COMPAT-MEDIA-REMOVED'' WARN (quoted k @ '' dropped media type '' @ quoted media
         @ ''; clients sending or parsing it lose contract coverage'') (Some k))
       (sorted_diff (media_types o_op) (media_types n_op))
     @ map (\<lambda>media. plain_finding ''COMPAT-MEDIA-ADDED'' INFO (quoted k @ '' added media type '' @ quoted media) (Some k))
       (sorted_diff (media_types n_op) (media_types o_op))"

definition newly_required_headers :: "operation \<Rightarrow> operation \<Rightarrow> string list" where
  "newly_required_headers o_op n_op = map p_name (filter (\<lambda>p. header_param p \<and> p_required p
     \<and> \<not> list_ex (\<lambda>q. header_param q \<and> p_name q = p_name p \<and> p_required q) (op_parameters o_op)) (op_parameters n_op))"

definition compat_headers :: "string \<Rightarrow> operation \<Rightarrow> operation \<Rightarrow> finding list" where
  "compat_headers k o_op n_op =
     map (\<lambda>name. let kind = dict_get_or (op_headers o_op) name [] in
         plain_finding ''COMPAT-HEADER-REMOVED'' (if kind = ''request'' then ERROR else INFO)
           (quoted k @ (if kind = ''request'' then '' removed required request header '' else '' removed documented response header '')
             @ quoted name) (Some k))
       (sorted_diff (keys (op_headers o_op)) (keys (op_headers n_op)))
     @ map (\<lambda>name. plain_finding ''COMPAT-HEADER-REQUIRED'' ERROR (quoted k @ '' now requires request header '' @ quoted name
         @ ''; existing clients omitting it will be rejected'') (Some k)) (newly_required_headers o_op n_op)"

definition compat_security :: "service \<Rightarrow> service \<Rightarrow> finding list" where
  "compat_security old new =
     map (\<lambda>name. plain_finding ''COMPAT-SECURITY-SCHEME-REMOVED'' ERROR (''security scheme '' @ quoted name
         @ '' was removed; clients authenticating with it have no documented alternative'') None)
       (sorted_diff (keys (svc_security_schemes old)) (keys (svc_security_schemes new)))
     @ concat (map (\<lambda>name. case (map_of (svc_security_schemes old) name, map_of (svc_security_schemes new) name) of
         (Some a, Some b) \<Rightarrow> if ss_type a = ss_type b then [] else
           [plain_finding ''COMPAT-SECURITY-TYPE-CHANGED'' ERROR (''security scheme '' @ quoted name @ '' changed type ''
              @ quoted (ss_type a) @ '' -> '' @ quoted (ss_type b)) None]
       | _ \<Rightarrow> []) (sorted_inter (keys (svc_security_schemes old)) (keys (svc_security_schemes new))))"

definition is_local :: "url_lib \<Rightarrow> string \<Rightarrow> bool result" where
  "is_local hostname url = bind_result (hostname url) (\<lambda>h. Inr (lower (str_or h []) \<in> set LOCAL_HOSTS))"

definition compat_servers :: "url_lib \<Rightarrow> service \<Rightarrow> service \<Rightarrow> finding list result" where
  "compat_servers hostname old new =
     (let old_urls = map sv_url (svc_servers old); new_urls = map sv_url (svc_servers new) in
      bind_result (each (\<lambda>url. bind_result (is_local hostname url) (\<lambda>here. Inr (plain_finding ''COMPAT-SERVER-ADDED'' INFO
          (''server '' @ quoted url @ '' added'' @ (if here then '' (local/dev target; low risk)'' else [])) None)))
        (sorted_diff new_urls old_urls)) (\<lambda>added.
      bind_result (each (\<lambda>url. bind_result (is_local hostname url) (\<lambda>here. Inr
          (with_hint ''verify each environment has a reachable replacement URL''
            (plain_finding ''COMPAT-SERVER-REMOVED'' (if here then WARN else INFO) (''server '' @ quoted url
              @ '' removed; environment-aware review needed '' @ [CHR 0xE2, CHR 0x80, CHR 0x94]
              @ '' hostname edits are only breaking if that environment'' @ sq @ ''s consumers have no replacement entry'') None))))
        (sorted_diff old_urls new_urls)) (\<lambda>removed.
      Inr (added @ removed))))"

definition same_pagination :: "(string, pyval) dict option \<Rightarrow> (string, pyval) dict option \<Rightarrow> bool" where
  "same_pagination a b = py_eq (opt_val PDict a) (opt_val PDict b)"

definition compat_metadata :: "string \<Rightarrow> operation \<Rightarrow> operation \<Rightarrow> finding list" where
  "compat_metadata k o_op n_op =
     (if op_idempotent o_op = Some True \<and> op_idempotent n_op = Some False then
        [plain_finding ''COMPAT-IDEMPOTENCY-REVOKED'' WARN (quoted k @ '' declared idempotent before but no longer does; ''
           @ ''clients relying on safe retries may double-apply effects'') (Some k)] else [])
     @ (if \<not> same_pagination (op_pagination o_op) (op_pagination n_op) \<and> op_pagination n_op \<noteq> None then
        [plain_finding ''COMPAT-PAGINATION-CHANGED'' WARN (quoted k @ '' pagination semantics changed; ''
           @ ''cursor/page/token consumers may see shifted windows'') (Some k)] else [])"

definition analyze_compat :: "url_lib \<Rightarrow> service \<Rightarrow> service \<Rightarrow> finding list result" where
  "analyze_compat hostname old new =
     bind_result (compat_servers hostname old new) (\<lambda>servers.
       Inr (for_common old new compat_status_codes @ for_common old new compat_content @ for_common old new compat_headers
         @ compat_security old new @ servers @ for_common old new compat_metadata))"

section \<open>GraphQL\<close>

definition graphql_media :: string where "graphql_media = ''application/graphql''"

fun return_schema_of :: "response list \<Rightarrow> schema_node option" where
  "return_schema_of [] = None"
| "return_schema_of (r # rs) = (case map_of (rs_content r) graphql_media of Some n \<Rightarrow> Some n | None \<Rightarrow> return_schema_of rs)"

definition return_schema :: "operation \<Rightarrow> schema_node option" where
  "return_schema op = return_schema_of (op_responses op)"

definition params_by_name :: "operation \<Rightarrow> (string, parameter) dict" where
  "params_by_name op = dict_of (map (\<lambda>p. (p_name p, p)) (op_parameters op))"

definition graphql_changed_argument :: "string \<Rightarrow> string \<Rightarrow> parameter \<Rightarrow> parameter \<Rightarrow> finding list" where
  "graphql_changed_argument k name was now =
     (if p_required was \<and> \<not> p_required now then
        [plain_finding ''GQL-DANGEROUS-ARGUMENT-RELAXED'' WARN (''argument '' @ quoted name @ '' of '' @ quoted k
           @ '' changed from required to nullable; clients relying on guaranteed presence may misbehave'') (Some k)]
      else if \<not> p_required was \<and> p_required now then
        [plain_finding ''GQL-ARGUMENT-NULLABILITY-TIGHTENED'' ERROR (''argument '' @ quoted name @ '' of '' @ quoted k
           @ '' became non-null; callers omitting it now fail validation'') (Some k)]
      else [])"

definition graphql_added_argument :: "string \<Rightarrow> string \<Rightarrow> parameter \<Rightarrow> finding" where
  "graphql_added_argument k name p =
     (if p_required p then plain_finding ''GQL-REQUIRED-ARGUMENT-ADDED'' ERROR
        (quoted k @ '' gained required argument '' @ quoted name @ ''; existing calls break'') (Some k)
      else plain_finding ''GQL-DANGEROUS-OPTIONAL-ARGUMENT-ADDED'' WARN
        (quoted k @ '' gained optional argument '' @ quoted name) (Some k))"

definition graphql_arguments :: "string \<Rightarrow> operation \<Rightarrow> operation \<Rightarrow> finding list" where
  "graphql_arguments k o_op n_op =
     (let old_args = params_by_name o_op; new_args = params_by_name n_op in
      map (\<lambda>name. plain_finding ''GQL-ARGUMENT-REMOVED'' ERROR (quoted k @ '' no longer accepts argument '' @ quoted name
          @ ''; callers passing it fail'') (Some k)) (sorted_diff (keys old_args) (keys new_args))
      @ concat (map (\<lambda>name. case map_of new_args name of None \<Rightarrow> [] | Some p \<Rightarrow> [graphql_added_argument k name p])
          (sorted_diff (keys new_args) (keys old_args)))
      @ concat (map (\<lambda>name. case (map_of old_args name, map_of new_args name) of
            (Some was, Some now) \<Rightarrow> graphql_changed_argument k name was now | _ \<Rightarrow> [])
          (sorted_inter (keys old_args) (keys new_args))))"

definition graphql_return :: "string \<Rightarrow> operation \<Rightarrow> operation \<Rightarrow> finding list" where
  "graphql_return k o_op n_op = (case (return_schema o_op, return_schema n_op) of
     (Some a, Some b) \<Rightarrow>
       (let ta = sn_title (facts a); tb = sn_title (facts b); na = sn_nullable (facts a); nb = sn_nullable (facts b) in
        (if truthy_str ta \<and> truthy_str tb \<and> ta \<noteq> tb then
           [plain_finding ''GQL-RETURN-TYPE-CHANGED'' ERROR (quoted k @ '' return type changed from '' @ opt_str ta @ '' to '' @ opt_str tb) (Some k)]
         else [])
        @ (if \<not> na \<and> nb then
             [plain_finding ''GQL-DANGEROUS-RETURN-RELAXED'' WARN (quoted k @ '' return became nullable ('' @ opt_str ta @ ''! -> ''
                @ opt_str tb @ ''); clients assuming non-null may crash'') (Some k)]
           else if na \<and> \<not> nb then
             [plain_finding ''GQL-RETURN-NONNULL-TIGHTENED'' ERROR (quoted k
                @ '' return became non-null; resolvers may error where they previously returned null'') (Some k)]
           else []))
   | _ \<Rightarrow> [])"

definition analyze_graphql :: "service \<Rightarrow> service \<Rightarrow> finding list" where
  "analyze_graphql old new =
     concat (map (\<lambda>k. case (find_operation old k, find_operation new k) of
         (Some o_op, Some n_op) \<Rightarrow> graphql_arguments k o_op n_op @ graphql_return k o_op n_op
       | _ \<Rightarrow> [plain_finding ''GQL-FIELD-REMOVED'' ERROR (''field '' @ quoted k @ '' was removed; queries selecting it fail validation'') (Some k)])
       (operation_keys old))
     @ concat (map (\<lambda>k. if find_operation old k = None then
         [plain_finding ''GQL-DANGEROUS-FIELD-ADDED'' WARN (''field '' @ quoted k
            @ '' was added; introspection-dependent clients (codegens, exhaustive switches) may need regeneration'') (Some k)] else [])
       (operation_keys new))"

section \<open>gRPC\<close>

definition proto_media :: string where "proto_media = ''application/x-protobuf''"

definition message_schema :: "operation \<Rightarrow> bool \<Rightarrow> schema_node option" where
  "message_schema op is_response =
     (if is_response then map_of (fold (\<lambda>r d. fold (\<lambda>(k, v). dict_set k v) (rs_content r) d) (op_responses op) []) proto_media
      else case op_request_body op of None \<Rightarrow> None | Some b \<Rightarrow> map_of (rb_content b) proto_media)"

definition message_change :: "string \<Rightarrow> string \<Rightarrow> schema_node option \<Rightarrow> schema_node option \<Rightarrow> finding list" where
  "message_change k label a b = (case (a, b) of
     (Some m, Some n) \<Rightarrow>
       (let tm = sn_title (facts m); tn = sn_title (facts n) in
        if truthy_str tm \<and> truthy_str tn \<and> tm \<noteq> tn then
          [plain_finding ''PROTO-MESSAGE-TYPE-CHANGED'' ERROR (''RPC '' @ quoted k @ '' '' @ label @ '' message changed from ''
             @ opt_str tm @ '' to '' @ opt_str tn @ ''; payloads decode incorrectly'') (Some k)]
        else [])
   | _ \<Rightarrow> [])"

definition wire_field :: "string \<Rightarrow> string \<Rightarrow> schema_facts \<Rightarrow> schema_facts \<Rightarrow> finding list" where
  "wire_field k name a b =
     (if sn_type a \<noteq> sn_type b \<and> truthy_str (sn_type a) \<and> truthy_str (sn_type b) then
        [plain_finding ''PROTO-WIRE-TYPE-CHANGED'' ERROR (''RPC '' @ quoted k @ '' field '' @ quoted name @ '' changed wire type ''
           @ opt_str (sn_type a) @ '' -> '' @ opt_str (sn_type b) @ ''; on-the-wire values become garbage'') (Some k)]
      else if sn_type a = sn_type b \<and> sn_type a = Some ''integer'' \<and> truthy_str (sn_format a) \<and> truthy_str (sn_format b)
          \<and> sn_format a \<noteq> sn_format b then
        [plain_finding ''PROTO-WIRE-WIDTH-CHANGED'' WARN (''RPC '' @ quoted k @ '' integer field '' @ quoted name @ '' changed ''
           @ opt_str (sn_format a) @ '' -> '' @ opt_str (sn_format b) @ ''; varint-compatible but overflow behavior differs'') (Some k)]
      else [])
     @ (let removed = filter (\<lambda>v. \<not> py_in v (list_or_empty (sn_enum b))) (list_or_empty (sn_enum a)) in
        if list_or_empty (sn_enum a) \<noteq> [] \<and> list_or_empty (sn_enum b) \<noteq> [] \<and> removed \<noteq> [] then
          [plain_finding ''PROTO-ENUM-VALUE-REMOVED'' ERROR (''RPC '' @ quoted k @ '' enum field '' @ quoted name @ '' removed value(s) ''
             @ py_repr (PList removed) @ ''; peers decoding unknown numerics break'') (Some k)]
        else [])"

definition proto_wire_fields :: "string \<Rightarrow> schema_node option \<Rightarrow> schema_node option \<Rightarrow> finding list" where
  "proto_wire_fields k a b = (case (a, b) of
     (Some m, Some n) \<Rightarrow>
       concat (map (\<lambda>name. case (map_of (properties m) name, map_of (properties n) name) of
           (Some x, Some y) \<Rightarrow> wire_field k name (facts x) (facts y) | _ \<Rightarrow> [])
         (sorted_inter (keys (properties m)) (keys (properties n))))
       @ map (\<lambda>name. plain_finding ''PROTO-FIELD-REMOVED'' WARN (''RPC '' @ quoted k @ '' message field '' @ quoted name
           @ '' removed; retire (don'' @ sq @ ''t reuse) its field number to keep wire safety'') (Some k))
         (sorted_diff (keys (properties m)) (keys (properties n)))
   | _ \<Rightarrow> [])"

definition analyze_grpc :: "service \<Rightarrow> service \<Rightarrow> finding list" where
  "analyze_grpc old new = concat (map (\<lambda>k. case (find_operation old k, find_operation new k) of
       (Some o_op, Some n_op) \<Rightarrow>
         message_change k ''request'' (message_schema o_op False) (message_schema n_op False)
         @ message_change k ''response'' (message_schema o_op True) (message_schema n_op True)
         @ proto_wire_fields k (message_schema o_op False) (message_schema n_op False)
     | _ \<Rightarrow> [plain_finding ''PROTO-RPC-REMOVED'' ERROR (''RPC '' @ quoted k @ '' was removed; existing stubs fail at runtime'') (Some k)])
     (operation_keys old))"

definition analyze_protocol_compat :: "service \<Rightarrow> service \<Rightarrow> finding list" where
  "analyze_protocol_compat old new =
     (if svc_protocol old = GRAPHQL \<and> svc_protocol new = GRAPHQL then analyze_graphql old new
      else if svc_protocol old = GRPC \<and> svc_protocol new = GRPC then analyze_grpc old new
      else [])"

end
