(* ===== verification/Migration.thy ===== *)
theory Migration
  imports Model
begin

text \<open>
  Migration guides: src/apiverity/rules/migration.py. What an operation's extensions say about
  its retirement, put on the findings about it.
\<close>

definition STRUCTURED_KEYS :: "string list" where
  "STRUCTURED_KEYS = [''x-deprecation'', ''x-deprecated'']"

definition GUIDE_KEYS :: "string list" where
  "GUIDE_KEYS = [''x-migration'', ''x-migration-guide'', ''x-deprecation-link'', ''x-sunset-link'']"

text \<open>Stripped text, or nothing.\<close>

definition text_value :: "pyval \<Rightarrow> string option" where
  "text_value v = (case v of PStr s \<Rightarrow> if strip s = [] then None else Some (strip s) | _ \<Rightarrow> None)"

text \<open>\<open>a or b\<close> on values, and on the texts found so far.\<close>

definition val_or :: "pyval \<Rightarrow> pyval \<Rightarrow> pyval" where
  "val_or a b = (if truthy a then a else b)"

definition text_or :: "string option \<Rightarrow> string option \<Rightarrow> string option" where
  "text_or a b = (case a of None \<Rightarrow> b | Some s \<Rightarrow> Some s)"

definition read_block :: "operation \<Rightarrow> string \<Rightarrow> deprecation_info \<Rightarrow> deprecation_info" where
  "read_block op k d = (case val_get (op_extensions op) k of
     PDict block \<Rightarrow> d\<lparr>
       di_announced_date := text_or (di_announced_date d) (text_value (val_or (val_get block ''announced'') (val_get block ''date''))),
       di_sunset_date := text_or (di_sunset_date d) (text_value (val_or (val_get block ''sunset'') (val_get block ''sunset_date''))),
       di_migration_guide := text_or (di_migration_guide d)
         (text_value (val_or (val_or (val_get block ''guide'') (val_get block ''link'')) (val_get block ''migration_guide''))),
       di_consumer_impact := text_or (di_consumer_impact d)
         (text_value (val_or (val_get block ''impact'') (val_get block ''consumer_impact'')))\<rparr>
   | block \<Rightarrow> d\<lparr>di_announced_date := text_or (di_announced_date d) (text_value block)\<rparr>)"

definition deprecation_of :: "operation \<Rightarrow> deprecation_info option" where
  "deprecation_of op =
     (let d = fold (read_block op) STRUCTURED_KEYS
            \<lparr>di_announced_date = None, di_sunset_date = None, di_migration_guide = None, di_consumer_impact = None\<rparr>;
          d = fold (\<lambda>k d. d\<lparr>di_migration_guide := text_or (di_migration_guide d) (text_value (val_get (op_extensions op) k))\<rparr>) GUIDE_KEYS d;
          d = fold (\<lambda>k d. d\<lparr>di_sunset_date := text_or (di_sunset_date d) (text_value (val_get (op_extensions op) k))\<rparr>)
            [''x-sunset'', ''x-sunset-date''] d
      in if di_announced_date d = None \<and> di_sunset_date d = None \<and> di_migration_guide d = None \<and> di_consumer_impact d = None
         then None else Some d)"

type_synonym guides = "(string, deprecation_info) dict"

definition guide_for :: "guides \<Rightarrow> string option \<Rightarrow> deprecation_info option" where
  "guide_for g k = map_of g (case k of None \<Rightarrow> [] | Some s \<Rightarrow> s)"

definition collect_guides :: "service \<Rightarrow> guides" where
  "collect_guides svc = fold (\<lambda>op found. case deprecation_of op of
       None \<Rightarrow> found
     | Some info \<Rightarrow> if di_migration_guide info \<noteq> None \<or> di_consumer_impact info \<noteq> None then dict_set (key op) info found else found)
     (svc_operations svc) []"

definition put_text :: "string \<Rightarrow> string option \<Rightarrow> (string, pyval) dict \<Rightarrow> (string, pyval) dict" where
  "put_text k v d = (case v of None \<Rightarrow> d | Some s \<Rightarrow> dict_set k (PStr s) d)"

definition attach_guide :: "guides \<Rightarrow> finding \<Rightarrow> finding" where
  "attach_guide g f = (case guide_for g (f_operation_key f) of
     None \<Rightarrow> f
   | Some info \<Rightarrow> f\<lparr>f_metadata := put_text ''sunset_date'' (di_sunset_date info)
       (put_text ''consumer_impact'' (di_consumer_impact info) (put_text ''migration_guide'' (di_migration_guide info) (f_metadata f)))\<rparr>)"

definition attach_guides :: "finding list \<Rightarrow> service \<Rightarrow> finding list" where
  "attach_guides findings old =
     (let g = collect_guides old in if g = [] then findings else map (attach_guide g) findings)"

section \<open>The summary of guides\<close>

record guide_entry =
  gd_operation :: string
  gd_guide :: string
  gd_impact :: "string option"

definition note_guide :: "finding \<Rightarrow> (string, guide_entry) dict \<Rightarrow> (string, guide_entry) dict" where
  "note_guide f seen =
     (let guide = val_get (f_metadata f) ''migration_guide''; impact = val_get (f_metadata f) ''consumer_impact'' in
      case f_operation_key f of
        None \<Rightarrow> seen
      | Some k \<Rightarrow> if \<not> truthy guide \<or> k = [] then seen
          else dict_set k \<lparr>gd_operation = k, gd_guide = py_str guide,
              gd_impact = (if truthy impact then Some (py_str impact)
                else case map_of seen k of None \<Rightarrow> None | Some e \<Rightarrow> gd_impact e)\<rparr> seen)"

definition summarize_guides :: "finding list \<Rightarrow> guide_entry list" where
  "summarize_guides findings =
     (let seen = fold note_guide findings [] in map (\<lambda>k. the (map_of seen k)) (sorted_set (keys seen)))"

lemma attach_guides_keeps:
  "map (\<lambda>f. (f_rule_id f, f_severity f, f_operation_key f)) (attach_guides findings old)
    = map (\<lambda>f. (f_rule_id f, f_severity f, f_operation_key f)) findings"
  by (simp add: attach_guides_def attach_guide_def Let_def split: option.split)

end
