(* ===== verification/ProjectConfig.thy ===== *)
theory ProjectConfig
  imports Breaking Suppressions
begin

text \<open>
  The project configuration: src/apiverity/core/config.py (validation and loading),
  src/apiverity/rules/profiles.py, and the part of src/apiverity/cli/commands/common.py that
  applies the settings. A file is taken as the document that \<open>yaml.safe_load(...) or {}\<close> yields.
  Arguments are \<open>close\<close>, which is \<open>difflib.get_close_matches\<close> with \<open>n=1\<close>, and \<open>check_ids\<close>, the
  identifiers of the check catalog, which only decide about a warning.
\<close>

section \<open>Profiles\<close>

definition PROFILES :: "string list" where
  "PROFILES = [''strict'', ''balanced'', ''advisory'']"

definition profile_thresholds :: "(string, string) dict" where
  "profile_thresholds = [(''strict'', ''error''), (''balanced'', ''error''), (''advisory'', ''never'')]"

definition severity_value :: "severity \<Rightarrow> string" where
  "severity_value s = (case s of ERROR \<Rightarrow> ''ERROR'' | WARN \<Rightarrow> ''WARN'' | INFO \<Rightarrow> ''INFO'')"

definition unknown_profile :: "string \<Rightarrow> py_error" where
  "unknown_profile name = ValueError (''unknown severity profile '' @ str_repr name @ ''; known profiles: '' @ join '', '' PROFILES)"

definition severity_overrides :: "string \<Rightarrow> (string, string) dict result" where
  "severity_overrides name =
     (if name \<notin> set PROFILES then Inl (unknown_profile name)
      else if name \<noteq> ''strict'' then Inr []
      else Inr (map (\<lambda>(r, spec). (r, severity_value ERROR)) (filter (\<lambda>(r, spec). ru_severity spec = WARN) CATALOG)))"

definition profile_fail_on :: "string \<Rightarrow> string result" where
  "profile_fail_on name = (case map_of profile_thresholds name of None \<Rightarrow> Inl (unknown_profile name) | Some t \<Rightarrow> Inr t)"

section \<open>Validation\<close>

definition SEVERITIES :: "string list" where
  "SEVERITIES = [''ERROR'', ''WARN'', ''INFO'']"

definition FIELDS :: "string list" where
  "FIELDS = [''version'', ''contracts'', ''profile'', ''severity_overrides'', ''fail_on'', ''suppressions'', ''check_semver'',
     ''suggest_version'', ''suppression_max_days'', ''suppression_require_approver'']"

type_synonym close_match = "string \<Rightarrow> string list \<Rightarrow> string option"

definition did_you_mean :: "close_match \<Rightarrow> string \<Rightarrow> string list \<Rightarrow> string" where
  "did_you_mean close s known = (case close s known of None \<Rightarrow> [] | Some c \<Rightarrow> ''; did you mean '' @ str_repr c @ ''?'')"

definition config_finding :: "string \<Rightarrow> severity \<Rightarrow> string \<Rightarrow> finding" where
  "config_finding r sev message = plain_finding r sev message None"

definition unknown_keys :: "close_match \<Rightarrow> string \<Rightarrow> (string \<times> pyval) list \<Rightarrow> finding list" where
  "unknown_keys close path raw = map (\<lambda>k. config_finding ''CONFIG-UNKNOWN-KEY'' ERROR
     (path @ '': unknown key '' @ str_repr k @ did_you_mean close k (sorted_set FIELDS))) (sorted_diff (keys raw) FIELDS)"

definition version_findings :: "string \<Rightarrow> pyval \<Rightarrow> finding list" where
  "version_findings path version =
     (if version = PNone then [config_finding ''CONFIG-VERSION-MISSING'' ERROR (path @ '': `version` is required; this file is version 1'')]
      else if \<not> py_eq version (PInt 1) then [config_finding ''CONFIG-VERSION-UNSUPPORTED'' ERROR
        (path @ '': config version '' @ py_repr version @ '' is not supported; this build understands 1'')]
      else [])"

definition override_findings :: "string list \<Rightarrow> string \<Rightarrow> pyval \<Rightarrow> finding list" where
  "override_findings check_ids path v = (case v of
     PNone \<Rightarrow> []
   | PDict kvs \<Rightarrow> concat (map (\<lambda>(rule_id, sev).
       (if upper (py_str sev) \<notin> set SEVERITIES then [config_finding ''CONFIG-SEVERITY-INVALID'' ERROR (path @ '': severity ''
          @ py_repr sev @ '' for '' @ str_repr rule_id @ '' is not one of '' @ join '', '' SEVERITIES)] else [])
       @ (if rule_id \<notin> set (keys CATALOG) \<union> set check_ids then [config_finding ''CONFIG-RULE-UNKNOWN'' WARN (path @ '': no rule with id ''
          @ str_repr rule_id @ ''; this override has no effect. Run `apiverity rules` for the catalog'')] else [])) kvs)
   | _ \<Rightarrow> [config_finding ''CONFIG-TYPE'' ERROR (path @ '': `severity_overrides` must be a mapping of rule id to severity'')])"

definition profile_findings :: "close_match \<Rightarrow> string \<Rightarrow> pyval \<Rightarrow> finding list" where
  "profile_findings close path v = (case v of
     PStr p \<Rightarrow> if p \<in> set PROFILES then [] else [config_finding ''CONFIG-PROFILE-INVALID'' ERROR (path @ '': `profile` must be one of ''
       @ join '', '' PROFILES @ '' (got '' @ str_repr p @ '')'' @ did_you_mean close p PROFILES)]
   | _ \<Rightarrow> [])"

definition max_days_findings :: "string \<Rightarrow> pyval \<Rightarrow> finding list" where
  "max_days_findings path v = (case v of
     PInt n \<Rightarrow> if n < 1 then [config_finding ''CONFIG-VALUE-INVALID'' ERROR (path @ '': `suppression_max_days` must be at least 1 (got ''
       @ int_str n @ ''); a maximum of zero would mean no suppression can ever be written'')] else []
   | _ \<Rightarrow> [])"

definition fail_on_findings :: "string \<Rightarrow> pyval \<Rightarrow> finding list" where
  "fail_on_findings path v =
     (if v \<noteq> PNone \<and> \<not> py_in v [PStr ''error'', PStr ''warn'', PStr ''never''] then
        [config_finding ''CONFIG-FAIL-ON-INVALID'' ERROR (path @ '': `fail_on` must be one of error, warn, never (got '' @ py_repr v @ '')'')]
      else [])"

datatype py_type = ListType | BoolType | StrType | IntType

definition is_instance :: "pyval \<Rightarrow> py_type \<Rightarrow> bool" where
  "is_instance v t = (case (t, v) of
       (ListType, PList _) \<Rightarrow> True | (BoolType, PBool _) \<Rightarrow> True | (StrType, PStr _) \<Rightarrow> True
     | (IntType, PInt _) \<Rightarrow> True | (IntType, PBool _) \<Rightarrow> True | _ \<Rightarrow> False)"

definition type_name :: "py_type \<Rightarrow> string" where
  "type_name t = (case t of ListType \<Rightarrow> ''list'' | BoolType \<Rightarrow> ''bool'' | StrType \<Rightarrow> ''str'' | IntType \<Rightarrow> ''int'')"

definition value_type_name :: "pyval \<Rightarrow> string" where
  "value_type_name v = (case v of PNone \<Rightarrow> ''NoneType'' | PBool _ \<Rightarrow> ''bool'' | PInt _ \<Rightarrow> ''int'' | PFloat _ \<Rightarrow> ''float''
     | PStr _ \<Rightarrow> ''str'' | PList _ \<Rightarrow> ''list'' | PDict _ \<Rightarrow> ''dict'')"

definition field_types :: "(string, py_type) dict" where
  "field_types = [(''contracts'', ListType), (''check_semver'', BoolType), (''suggest_version'', BoolType), (''profile'', StrType),
     (''suppressions'', StrType), (''suppression_max_days'', IntType), (''suppression_require_approver'', BoolType)]"

definition type_findings :: "string \<Rightarrow> (string \<times> pyval) list \<Rightarrow> finding list" where
  "type_findings path raw = concat (map (\<lambda>(k, t). let v = val_get raw k in
     if v \<noteq> PNone \<and> \<not> is_instance v t then [config_finding ''CONFIG-TYPE'' ERROR (path @ '': `'' @ k @ ''` must be ''
       @ type_name t @ '', got '' @ value_type_name v)] else []) field_types)"

definition validate_config :: "close_match \<Rightarrow> string list \<Rightarrow> string \<Rightarrow> (string \<times> pyval) list \<Rightarrow> finding list" where
  "validate_config close check_ids path raw =
     unknown_keys close path raw @ version_findings path (val_get raw ''version'')
     @ override_findings check_ids path (val_get raw ''severity_overrides'')
     @ profile_findings close path (val_get raw ''profile'')
     @ max_days_findings path (val_get raw ''suppression_max_days'')
     @ fail_on_findings path (val_get raw ''fail_on'')
     @ type_findings path raw"

section \<open>Loading\<close>

record config =
  cf_version :: int
  cf_contracts :: "pyval list"
  cf_profile :: pyval
  cf_severity_overrides :: "(string, string) dict"
  cf_fail_on :: "string option"
  cf_suppressions :: pyval
  cf_check_semver :: bool
  cf_suggest_version :: bool
  cf_suppression_max_days :: "int option"
  cf_suppression_require_approver :: bool
  cf_source_path :: string

definition override_items :: "pyval \<Rightarrow> (string \<times> pyval) list result" where
  "override_items v = (if \<not> truthy v then Inr [] else case v of PDict kvs \<Rightarrow> Inr kvs | _ \<Rightarrow> Inl (AttributeError ''items''))"

definition load_config :: "close_match \<Rightarrow> string list \<Rightarrow> string \<Rightarrow> pyval \<Rightarrow> (config \<times> finding list) result" where
  "load_config close check_ids source raw = (case raw of
     PDict kvs \<Rightarrow>
       bind_result (py_int (case map_of kvs ''version'' of None \<Rightarrow> PInt 1 | Some v \<Rightarrow> v)) (\<lambda>version.
       bind_result (if truthy (val_get kvs ''contracts'') then py_iter (val_get kvs ''contracts'') else Inr []) (\<lambda>contracts.
       bind_result (override_items (val_get kvs ''severity_overrides'')) (\<lambda>items.
         Inr (\<lparr>cf_version = version, cf_contracts = contracts, cf_profile = val_get kvs ''profile'',
             cf_severity_overrides = dict_of (map (\<lambda>(k, v). (k, upper (py_str v))) items),
             cf_fail_on = (if val_get kvs ''fail_on'' = PNone then None else Some (py_str (val_get kvs ''fail_on''))),
             cf_suppressions = val_get kvs ''suppressions'',
             cf_check_semver = truthy (val_get kvs ''check_semver''), cf_suggest_version = truthy (val_get kvs ''suggest_version''),
             cf_suppression_max_days = (case val_get kvs ''suppression_max_days'' of PInt n \<Rightarrow> Some n | _ \<Rightarrow> None),
             cf_suppression_require_approver = truthy (val_get kvs ''suppression_require_approver''),
             cf_source_path = source\<rparr>, validate_config close check_ids source kvs))))
   | _ \<Rightarrow> Inl (ValueError (source @ '': a config file is a mapping at the top level'')))"

definition EXIT_USAGE :: int where "EXIT_USAGE = 2"

text \<open>What the search for a file and its parsing yield.\<close>

datatype config_file = NoFile | MissingFile | NotYaml | Document string pyval

text \<open>\<open>Inl\<close> is the code with which the process ends.\<close>

definition load_project_config :: "close_match \<Rightarrow> string list \<Rightarrow> bool \<Rightarrow> config_file \<Rightarrow> int + config option" where
  "load_project_config close check_ids disabled file =
     (if disabled then Inr None
      else case file of
        NoFile \<Rightarrow> Inr None
      | MissingFile \<Rightarrow> Inl EXIT_USAGE
      | NotYaml \<Rightarrow> Inl EXIT_USAGE
      | Document source raw \<Rightarrow> (case load_config close check_ids source raw of
            Inl _ \<Rightarrow> Inl EXIT_USAGE
          | Inr (config, findings) \<Rightarrow> if list_ex (\<lambda>f. f_severity f = ERROR) findings then Inl EXIT_USAGE else Inr (Some config)))"

section \<open>Settings\<close>

definition setting_text :: "pyval \<Rightarrow> string option" where
  "setting_text v = (case v of PStr s \<Rightarrow> if s = [] then None else Some s | _ \<Rightarrow> None)"

definition active_profile :: "string option \<Rightarrow> config option \<Rightarrow> string option" where
  "active_profile flag cfg = (if truthy_str flag then flag else case cfg of None \<Rightarrow> None | Some c \<Rightarrow> setting_text (cf_profile c))"

definition dict_update :: "('k, 'v) dict \<Rightarrow> ('k, 'v) dict \<Rightarrow> ('k, 'v) dict" where
  "dict_update d new = fold (\<lambda>(k, v). dict_set k v) new d"

definition merged_severity_overrides :: "string option \<Rightarrow> config option \<Rightarrow> (string, string) dict \<Rightarrow> (string, string) dict option result" where
  "merged_severity_overrides flag cfg cli =
     bind_result (case active_profile flag cfg of None \<Rightarrow> Inr [] | Some p \<Rightarrow> severity_overrides p) (\<lambda>from_profile.
       let merged = dict_update (dict_update from_profile (case cfg of None \<Rightarrow> [] | Some c \<Rightarrow> cf_severity_overrides c)) cli
       in Inr (if merged = [] then None else Some merged))"

fun override_finding :: "(string, string) dict \<Rightarrow> finding \<Rightarrow> finding result" where
  "override_finding ovr f = (case map_of ovr (f_rule_id f) of
     None \<Rightarrow> Inr f
   | Some wanted \<Rightarrow>
       if wanted \<noteq> [] \<and> upper wanted \<noteq> severity_value (f_severity f) then
         bind_result (severity_of_value (upper wanted)) (\<lambda>s. Inr (f\<lparr>f_severity := s\<rparr>))
       else Inr f)"

definition apply_severity_overrides :: "finding list \<Rightarrow> (string, string) dict option \<Rightarrow> finding list result" where
  "apply_severity_overrides findings ovr = (case ovr of None \<Rightarrow> Inr findings | Some d \<Rightarrow> each (override_finding d) findings)"

definition fail_on_threshold :: "string option \<Rightarrow> config option \<Rightarrow> string result" where
  "fail_on_threshold flag cfg = (case (case cfg of None \<Rightarrow> None | Some c \<Rightarrow> cf_fail_on c) of
     Some t \<Rightarrow> if t \<noteq> [] then Inr (lower t)
       else (case active_profile flag cfg of Some p \<Rightarrow> profile_fail_on p | None \<Rightarrow> Inr ''error'')
   | None \<Rightarrow> (case active_profile flag cfg of Some p \<Rightarrow> profile_fail_on p | None \<Rightarrow> Inr ''error''))"

end
