(* ===== verification/Gate.thy ===== *)
theory Gate
  imports DiffServices Consumers Semver Compat Migration ProjectConfig
begin

text \<open>
  The command \<open>apiverity breaking\<close>: \<open>cmd_breaking\<close> of src/apiverity/cli/commands/governance.py with
  \<open>apply_project_suppressions\<close> of cli/commands/common.py and the handler of \<open>main\<close>, from two
  contracts to the findings and the exit code. Left out are the options that add text or
  findings of engines outside the model (\<open>--sdk\<close>, \<open>--suggest-fix\<close>) and the report itself.

  A command either ends early with a code (\<open>Inl\<close>) or yields its findings and its code.
\<close>

section \<open>Surroundings and options\<close>

text \<open>What the command reads from outside: libraries, the day, the documents of the files.\<close>

record 'v gate_env =
  ge_dumps :: json_dumps
  ge_hostname :: url_lib
  ge_versions :: "'v version_lib"
  ge_dates :: iso_dates
  ge_today :: int
  ge_suppressions_file :: "string \<Rightarrow> string \<Rightarrow> pyval option"
  ge_registry_file :: "string \<Rightarrow> pyval option"

record breaking_args =
  ba_profile :: "string option"
  ba_severity_override :: "string list"
  ba_consumers :: "string option"
  ba_severity_by_consumers :: bool
  ba_check_semver :: bool
  ba_old_version :: "string option"
  ba_new_version :: "string option"
  ba_require_minor_for_warnings :: bool

type_synonym 'a command = "int + 'a"

definition EXIT_INTERNAL :: int where "EXIT_INTERNAL = 4"

text \<open>An exception that no handler of the command takes ends in \<open>main\<close>.\<close>

definition attempt :: "'a result \<Rightarrow> 'a command" where
  "attempt r = (case r of Inl _ \<Rightarrow> Inl EXIT_INTERNAL | Inr a \<Rightarrow> Inr a)"

definition and_then :: "'a command \<Rightarrow> ('a \<Rightarrow> 'b command) \<Rightarrow> 'b command" where
  "and_then r f = (case r of Inl code \<Rightarrow> Inl code | Inr a \<Rightarrow> f a)"

lemma and_then_Inr: "and_then r f = Inr b \<longleftrightarrow> (\<exists>a. r = Inr a \<and> f a = Inr b)"
  by (simp add: and_then_def split: sum.split)

lemma attempt_Inr [simp]: "attempt r = Inr a \<longleftrightarrow> r = Inr a"
  by (simp add: attempt_def split: sum.split)

section \<open>The stages of the gate\<close>

definition suppression_days :: "config \<Rightarrow> int" where
  "suppression_days cfg = (case cf_suppression_max_days cfg of None \<Rightarrow> DEFAULT_MAX_LIFETIME_DAYS | Some n \<Rightarrow> n)"

text \<open>The entries of the project's file; a file that cannot be read or parsed ends the command.\<close>

definition project_suppressions :: "'v gate_env \<Rightarrow> config option \<Rightarrow> (config \<times> suppression list) option command" where
  "project_suppressions env cfg = (case cfg of
     None \<Rightarrow> Inr None
   | Some c \<Rightarrow> (case setting_text (cf_suppressions c) of
       None \<Rightarrow> Inr None
     | Some path \<Rightarrow> (case ge_suppressions_file env (cf_source_path c) path of
         None \<Rightarrow> Inl EXIT_USAGE
       | Some data \<Rightarrow> (case load_suppressions data of
             Inl (ValueError _) \<Rightarrow> Inl EXIT_USAGE
           | Inl _ \<Rightarrow> Inl EXIT_INTERNAL
           | Inr ss \<Rightarrow> Inr (Some (c, ss))))))"

definition apply_project_suppressions :: "'v gate_env \<Rightarrow> config option \<Rightarrow> finding list \<Rightarrow> finding list command" where
  "apply_project_suppressions env cfg findings =
     and_then (project_suppressions env cfg) (\<lambda>loaded. case loaded of
       None \<Rightarrow> Inr findings
     | Some (c, ss) \<Rightarrow>
         and_then (attempt (apply_suppressions (ge_dates env) (ge_today env) (suppression_days c)
           (cf_suppression_require_approver c) findings ss)) (\<lambda>r.
         and_then (attempt (expired_suppression_findings (sr_expired r))) (\<lambda>expired.
         and_then (attempt (incomplete_suppression_findings (sr_incomplete r))) (\<lambda>incomplete.
           Inr (sr_active r @ expired @ incomplete @ unscoped_suppression_findings (sr_unscoped r))))))"

definition read_registry :: "'v gate_env \<Rightarrow> breaking_args \<Rightarrow> registry option command" where
  "read_registry env args =
     (if \<not> truthy_str (ba_consumers args) then Inr None
      else let path = opt_str (ba_consumers args) in
        (case ge_registry_file env path of
           None \<Rightarrow> Inl EXIT_USAGE
         | Some raw \<Rightarrow> (case load_registry path raw of Inl _ \<Rightarrow> Inl EXIT_USAGE | Inr r \<Rightarrow> Inr (Some r))))"

definition consumer_stage :: "'v gate_env \<Rightarrow> breaking_args \<Rightarrow> service \<Rightarrow> service \<Rightarrow> finding list \<Rightarrow> finding list command" where
  "consumer_stage env args old new findings =
     and_then (read_registry env args) (\<lambda>r. Inr (case r of
       None \<Rightarrow> findings
     | Some r \<Rightarrow> annotate r (ba_severity_by_consumers args)
         (findings @ validate_against r (operation_keys old @ operation_keys new))))"

definition semver_stage :: "'v gate_env \<Rightarrow> breaking_args \<Rightarrow> config option \<Rightarrow> service \<Rightarrow> service \<Rightarrow> change list
    \<Rightarrow> finding list \<Rightarrow> finding list command" where
  "semver_stage env args cfg old new changes findings =
     Inr (if ba_check_semver args \<or> (case cfg of None \<Rightarrow> False | Some c \<Rightarrow> cf_check_semver c) then
            findings @ semver_evaluate (ge_versions env) (str_or (ba_old_version args) (svc_version old))
              (str_or (ba_new_version args) (svc_version new)) (ba_require_minor_for_warnings args) findings changes
          else findings)"

section \<open>The command\<close>

text \<open>\<open>item.partition('=')\<close>, then \<open>overrides[rule_id] = sev.upper()\<close>.\<close>

definition cli_overrides :: "string list \<Rightarrow> (string, string) dict" where
  "cli_overrides args = dict_of (map (\<lambda>item. (takeWhile (\<lambda>c. c \<noteq> CHR ''='') item,
     upper (drop 1 (dropWhile (\<lambda>c. c \<noteq> CHR ''='') item)))) args)"

definition raw_findings :: "'v gate_env \<Rightarrow> (string, string) dict option \<Rightarrow> service \<Rightarrow> service \<Rightarrow> change list \<Rightarrow> finding list result" where
  "raw_findings env ovr old new changes =
     bind_result (evaluate_breaking changes ovr) (\<lambda>findings.
     bind_result (analyze_compat (ge_hostname env) old new) (\<lambda>compat.
     bind_result (apply_severity_overrides (compat @ analyze_protocol_compat old new) ovr) (\<lambda>more.
       Inr (findings @ more))))"

definition cmd_breaking :: "'v gate_env \<Rightarrow> config option \<Rightarrow> breaking_args \<Rightarrow> service \<Rightarrow> service \<Rightarrow> (finding list \<times> int) command" where
  "cmd_breaking env cfg args old new =
     and_then (attempt (diff_services (ge_dumps env) old new True)) (\<lambda>changes.
     and_then (attempt (merged_severity_overrides (ba_profile args) cfg (cli_overrides (ba_severity_override args)))) (\<lambda>ovr.
     and_then (attempt (raw_findings env ovr old new changes)) (\<lambda>findings.
     and_then (apply_project_suppressions env cfg (attach_guides findings old)) (\<lambda>findings.
     and_then (consumer_stage env args old new findings) (\<lambda>findings.
     and_then (semver_stage env args cfg old new changes findings) (\<lambda>findings.
     and_then (attempt (fail_on_threshold (ba_profile args) cfg)) (\<lambda>floor.
       Inr (findings, exit_for floor findings))))))))"

section \<open>What a stage may do\<close>

definition blocks :: "finding list \<Rightarrow> string \<Rightarrow> string option \<Rightarrow> bool" where
  "blocks fs r k \<longleftrightarrow> (\<exists>f \<in> set fs. f_severity f = ERROR \<and> f_rule_id f = r \<and> f_operation_key f = k)"

lemma blocks_append [simp]: "blocks (fs @ gs) r k \<longleftrightarrow> blocks fs r k \<or> blocks gs r k"
  by (auto simp: blocks_def)

text \<open>A stage takes an error away only with an excuse for its rule and operation.\<close>

locale gate_stage =
  fixes stage :: "finding list \<Rightarrow> finding list command"
    and excuse :: "string \<Rightarrow> string option \<Rightarrow> bool"
  assumes keeps: "stage fs = Inr gs \<Longrightarrow> blocks fs r k \<Longrightarrow> \<not> excuse r k \<Longrightarrow> blocks gs r k"
begin

lemma fails_after:
  assumes "stage fs = Inr gs" and "blocks fs r k" and "\<not> excuse r k" and "floor \<noteq> ''never''"
  shows "exit_for floor gs = EXIT_FINDINGS"
  using keeps [OF assms(1-3)] assms(4) gate_fails by (fastforce simp: blocks_def)

end

text \<open>Two stages in a row are a stage, whose excuses are those of either.\<close>

locale stage_pair = first: gate_stage stage1 excuse1 + second: gate_stage stage2 excuse2
  for stage1 excuse1 stage2 excuse2

sublocale stage_pair \<subseteq> both: gate_stage "\<lambda>fs. and_then (stage1 fs) stage2" "\<lambda>r k. excuse1 r k \<or> excuse2 r k"
proof
  fix fs gs r k
  assume "and_then (stage1 fs) stage2 = Inr gs" and blocked: "blocks fs r k" "\<not> (excuse1 r k \<or> excuse2 r k)"
  then obtain hs where "stage1 fs = Inr hs" "stage2 hs = Inr gs" by (auto simp: and_then_Inr)
  with blocked show "blocks gs r k" using first.keeps second.keeps by blast
qed

section \<open>The excuses of the gate\<close>

definition suppression_excuse :: "'v gate_env \<Rightarrow> config option \<Rightarrow> string \<Rightarrow> string option \<Rightarrow> bool" where
  "suppression_excuse env cfg r k \<longleftrightarrow> (\<exists>c ss s. project_suppressions env cfg = Inr (Some (c, ss)) \<and> s \<in> set ss \<and> entry_covers s r k
     \<and> justified (ge_dates env) (ge_today env) (suppression_days c) (cf_suppression_require_approver c) s)"

definition registry_excuse :: "'v gate_env \<Rightarrow> breaking_args \<Rightarrow> string \<Rightarrow> string option \<Rightarrow> bool" where
  "registry_excuse env args r k \<longleftrightarrow> ba_severity_by_consumers args
     \<and> (\<exists>reg op. read_registry env args = Inr (Some reg) \<and> rg_complete reg \<and> k = Some op \<and> op \<noteq> [] \<and> consumers_of reg op = [])"

lemma blocks_attach: "blocks (attach_guides fs old) r k \<longleftrightarrow> blocks fs r k"
proof -
  let ?view = "\<lambda>f. (f_rule_id f, f_severity f, f_operation_key f)"
  have "blocks gs r k \<longleftrightarrow> (r, ERROR, k) \<in> set (map ?view gs)" for gs by (force simp: blocks_def)
  then show ?thesis by (simp only: attach_guides_keeps)
qed

interpretation guides: gate_stage "\<lambda>fs. Inr (attach_guides fs old)" "\<lambda>r k. False" for old
  by unfold_locales (auto simp: blocks_attach)

interpretation suppressing: gate_stage "apply_project_suppressions env cfg" "suppression_excuse env cfg" for env cfg
proof
  fix fs gs r k
  assume run: "apply_project_suppressions env cfg fs = Inr gs" and blocked: "blocks fs r k" and none: "\<not> suppression_excuse env cfg r k"
  from run obtain loaded where loaded: "project_suppressions env cfg = Inr loaded"
    by (auto simp: apply_project_suppressions_def and_then_Inr)
  show "blocks gs r k"
  proof (cases loaded)
    case None
    with run blocked loaded show ?thesis by (auto simp: apply_project_suppressions_def and_then_def)
  next
    case (Some p)
    obtain c ss where p: "p = (c, ss)" by fastforce
    from run obtain rs more where rs: "apply_suppressions (ge_dates env) (ge_today env) (suppression_days c)
        (cf_suppression_require_approver c) fs ss = Inr rs" and gs: "gs = sr_active rs @ more"
      by (auto simp: apply_project_suppressions_def and_then_Inr loaded Some p)
    from active_or_suppressed [OF rs] none have "blocks (sr_active rs) r k"
      using blocked loaded by (fastforce simp: blocks_def suppression_excuse_def suppresses_def Some p)
    with gs show ?thesis by simp
  qed
qed

interpretation consulting: gate_stage "consumer_stage env args old new" "registry_excuse env args" for env args old new
proof
  fix fs gs r k
  assume run: "consumer_stage env args old new fs = Inr gs" and blocked: "blocks fs r k" and none: "\<not> registry_excuse env args r k"
  from run obtain reg where reg: "read_registry env args = Inr reg" by (auto simp: consumer_stage_def and_then_Inr)
  show "blocks gs r k"
  proof (cases reg)
    case None
    with run blocked reg show ?thesis by (simp add: consumer_stage_def and_then_def)
  next
    case (Some rg)
    let ?a = "annotate_finding rg (ba_severity_by_consumers args)"
    from blocked obtain f where f: "f \<in> set fs" "f_severity f = ERROR" "f_rule_id f = r" "f_operation_key f = k"
      by (auto simp: blocks_def)
    with annotate_finding_keeps [of rg "ba_severity_by_consumers args" f] none reg Some
    have "f_severity (?a f) = ERROR \<and> f_rule_id (?a f) = r \<and> f_operation_key (?a f) = k"
      by (auto simp: registry_excuse_def)
    moreover have "?a f \<in> set gs" using run f(1) by (auto simp: consumer_stage_def and_then_def reg Some annotate_def)
    ultimately show ?thesis by (auto simp: blocks_def)
  qed
qed

interpretation versioning: gate_stage "semver_stage env args cfg old new changes" "\<lambda>r k. False" for env args cfg old new changes
  by unfold_locales (auto simp: semver_stage_def split: if_splits)


interpretation files: stage_pair "apply_project_suppressions env cfg" "suppression_excuse env cfg"
    "consumer_stage env args old new" "registry_excuse env args" for env cfg args old new ..

interpretation tail: stage_pair "\<lambda>fs. and_then (apply_project_suppressions env cfg fs) (consumer_stage env args old new)"
    "\<lambda>r k. suppression_excuse env cfg r k \<or> registry_excuse env args r k"
    "semver_stage env args cfg old new changes" "\<lambda>r k. False" for env cfg args old new changes ..

section \<open>From a blocking finding to the exit code\<close>

lemma cmd_breaking_stages:
  assumes "cmd_breaking env cfg args old new = Inr (findings, code)"
  shows "\<exists>changes ovr fs floor. diff_services (ge_dumps env) old new True = Inr changes
    \<and> merged_severity_overrides (ba_profile args) cfg (cli_overrides (ba_severity_override args)) = Inr ovr
    \<and> raw_findings env ovr old new changes = Inr fs
    \<and> and_then (and_then (apply_project_suppressions env cfg (attach_guides fs old)) (consumer_stage env args old new))
        (semver_stage env args cfg old new changes) = Inr findings
    \<and> fail_on_threshold (ba_profile args) cfg = Inr floor \<and> code = exit_for floor findings"
  using assms by (auto simp: cmd_breaking_def and_then_Inr)

lemma gate_blocks:
  assumes "and_then (and_then (apply_project_suppressions env cfg (attach_guides fs old)) (consumer_stage env args old new))
      (semver_stage env args cfg old new changes) = Inr findings"
    and "blocks fs r k" and "\<not> suppression_excuse env cfg r k" and "\<not> registry_excuse env args r k" and "floor \<noteq> ''never''"
  shows "exit_for floor findings = EXIT_FINDINGS"
  using tail.both.fails_after [OF assms(1), of r k floor] assms(2-5) blocks_attach [of fs old r k] by simp

section \<open>Removed operations\<close>

text \<open>An override that takes a rule below ERROR, which is where the catalog has it.\<close>

definition lowers_error :: "(string, string) dict option \<Rightarrow> string \<Rightarrow> bool" where
  "lowers_error ovr r \<longleftrightarrow> (\<exists>d v. ovr = Some d \<and> map_of d r = Some v \<and> v \<noteq> ''ERROR'')"

lemma parse_overrides_lookup:
  "parse_overrides d = Inr p \<Longrightarrow> map_of p r = (case map_of d r of None \<Rightarrow> None | Some v \<Rightarrow>
     (case severity_of_value v of Inr s \<Rightarrow> Some s | Inl _ \<Rightarrow> None))"
  by (induction d arbitrary: p rule: parse_overrides.induct)
    (auto simp: bind_result_def split: sum.splits if_splits)

lemma overridden_severity:
  assumes "init_breaking ovr = Inr eng" and "\<not> lowers_error ovr r" and "map_of catalog_severities r = Some ERROR"
  shows "severity_for eng r = Inr ERROR"
proof -
  from assms(1) obtain p where p: "parse_overrides (list_or_empty ovr) = Inr p" and eng: "eng = \<lparr>overrides = p\<rparr>"
    by (auto simp: init_breaking_def bind_result_def split: sum.splits)
  have "map_of p r \<in> {None, Some ERROR}"
    using parse_overrides_lookup [OF p, of r] assms(2) by (auto simp: lowers_error_def list_or_empty_def split: option.splits)
  then show ?thesis by (auto simp: severity_for_eq assms(3) eng dict_get_or_def)
qed

lemma removed_operation_blocks:
  assumes "diff_services dumps old new True = Inr changes" and "raw_findings env ovr old new changes = Inr fs"
    and "k \<in> set (operation_keys old)" and "k \<notin> set (operation_keys new)"
    and "\<not> lowers_error ovr ''BRK-OP-REMOVED''" and "\<not> lowers_error ovr ''BRK-RPC-REMOVED''"
  shows "\<exists>r \<in> {''BRK-OP-REMOVED'', ''BRK-RPC-REMOVED''}. blocks fs r (Some k)"
proof -
  obtain old' new' where run: "run dumps old' new' = Inr changes"
    and keys: "operation_keys old' = operation_keys old" "operation_keys new' = operation_keys new"
    using diff_services_run [OF assms(1)] by blast
  obtain c where c: "c \<in> set changes" "removal_kind (c_kind c)" "c_operation_key c = k"
    using run_reports_removed [OF run] assms(3,4) keys by metis
  let ?r = "if c_kind c = RPC_REMOVED then ''BRK-RPC-REMOVED'' else ''BRK-OP-REMOVED''"
  from assms(2) obtain es more eng where es: "fs = es @ more" and eng: "init_breaking ovr = Inr eng" "evaluate eng changes = Inr es"
    by (auto simp: raw_findings_def evaluate_breaking_def bind_result_def split: sum.splits)
  have error: "map_of catalog_severities ?r = Some ERROR" by (simp add: catalog_default_severities)
  then have "known_rule ?r" using map_of_SomeD [OF error] by (force simp: known_rule_def)
  from report_known [OF this, of eng c] evaluate_removed_operation [OF c(2), of eng] obtain f where
    f: "evaluate_change eng c = Inr [f]" "f_rule_id f = ?r" "finding_for eng c f" by auto
  have "severity_for eng ?r = Inr ERROR" using overridden_severity [OF eng(1) _ error] assms(5,6) by simp
  with f have "f_severity f = ERROR" "f_operation_key f = Some k" using c(3) by (simp_all add: finding_for_def)
  moreover have "f \<in> set fs" using evaluate_member [OF eng(2) c(1)] f(1) es by auto
  ultimately have "blocks fs ?r (Some k)" using f(2) by (auto simp: blocks_def)
  then show ?thesis by (auto split: if_splits)
qed

lemma unexcused_removal_fails:
  assumes "cmd_breaking env cfg args old new = Inr (findings, code)"
    and "k \<in> set (operation_keys old)" and "k \<notin> set (operation_keys new)"
    and "merged_severity_overrides (ba_profile args) cfg (cli_overrides (ba_severity_override args)) = Inr ovr"
    and "\<not> lowers_error ovr ''BRK-OP-REMOVED''" and "\<not> lowers_error ovr ''BRK-RPC-REMOVED''"
    and "\<And>r. r \<in> {''BRK-OP-REMOVED'', ''BRK-RPC-REMOVED''} \<Longrightarrow> \<not> suppression_excuse env cfg r (Some k)"
    and "\<And>r. \<not> registry_excuse env args r (Some k)"
    and "fail_on_threshold (ba_profile args) cfg \<noteq> Inr ''never''"
  shows "code = EXIT_FINDINGS"
proof -
  from cmd_breaking_stages [OF assms(1)] assms(4) obtain changes fs floor where
    changes: "diff_services (ge_dumps env) old new True = Inr changes" and fs: "raw_findings env ovr old new changes = Inr fs"
    and stages: "and_then (and_then (apply_project_suppressions env cfg (attach_guides fs old)) (consumer_stage env args old new))
        (semver_stage env args cfg old new changes) = Inr findings"
    and floor: "fail_on_threshold (ba_profile args) cfg = Inr floor" "code = exit_for floor findings" by auto
  from removed_operation_blocks [OF changes fs assms(2,3,5,6)] obtain r where
    r: "r \<in> {''BRK-OP-REMOVED'', ''BRK-RPC-REMOVED''}" "blocks fs r (Some k)" by blast
  show ?thesis
    using gate_blocks [OF stages r(2) assms(7) [OF r(1)] assms(8), of floor] floor assms(9) by simp
qed

end
