(* ===== verification/GateFacts.thy ===== *)
theory GateFacts
  imports Gate
begin

text \<open>
  What the parts of the gate guarantee: a configuration that was accepted is well typed and
  crashes no later stage; a contract is compatible with itself.
\<close>

section \<open>Accepted configurations\<close>

definition well_typed_config :: "config \<Rightarrow> bool" where
  "well_typed_config c \<longleftrightarrow> snd ` set (cf_severity_overrides c) \<subseteq> set SEVERITIES
     \<and> cf_fail_on c \<in> {None, Some ''error'', Some ''warn'', Some ''never''}
     \<and> cf_profile c \<in> insert PNone (PStr ` set PROFILES)
     \<and> (\<forall>n. cf_suppression_max_days c = Some n \<longrightarrow> 1 \<le> n)
     \<and> (cf_suppressions c = PNone \<or> is_str (cf_suppressions c))"

lemma no_errors_parts:
  assumes "\<not> list_ex (\<lambda>f. f_severity f = ERROR) (validate_config close ids path raw)"
  shows "\<not> list_ex (\<lambda>f. f_severity f = ERROR) (override_findings ids path (val_get raw ''severity_overrides''))"
    "\<not> list_ex (\<lambda>f. f_severity f = ERROR) (profile_findings close path (val_get raw ''profile''))"
    "\<not> list_ex (\<lambda>f. f_severity f = ERROR) (max_days_findings path (val_get raw ''suppression_max_days''))"
    "\<not> list_ex (\<lambda>f. f_severity f = ERROR) (fail_on_findings path (val_get raw ''fail_on''))"
    "\<not> list_ex (\<lambda>f. f_severity f = ERROR) (type_findings path raw)"
  using assms by (simp_all add: validate_config_def)

lemma typed_field:
  assumes "\<not> list_ex (\<lambda>f. f_severity f = ERROR) (type_findings path raw)" and "(k, t) \<in> set field_types"
  shows "val_get raw k = PNone \<or> is_instance (val_get raw k) t"
  using assms by (force simp: type_findings_def list_ex_iff config_finding_def plain_finding_def Let_def)

lemma values_of_dict_set: "snd ` set (dict_set k v d) \<subseteq> insert v (snd ` set d)"
  by (induction k v d rule: dict_set.induct) auto

lemma values_of_fold_set: "snd ` set (fold (\<lambda>(k, v). dict_set k v) kvs d) \<subseteq> snd ` set d \<union> snd ` set kvs"
proof (induction kvs arbitrary: d)
  case (Cons kv kvs)
  obtain k v where "kv = (k, v)" by fastforce
  with Cons [of "dict_set k v d"] values_of_dict_set [of k v d] show ?case by auto
qed simp

lemma accepted_overrides:
  assumes "\<not> list_ex (\<lambda>f. f_severity f = ERROR) (override_findings ids path v)" and "override_items v = Inr kvs"
  shows "snd ` set (dict_of (map (\<lambda>(k, v). (k, upper (py_str v))) kvs)) \<subseteq> set SEVERITIES"
proof -
  have "upper (py_str s) \<in> set SEVERITIES" if "(r, s) \<in> set kvs" for r s
    using assms that by (cases v) (force simp: override_items_def override_findings_def list_ex_iff config_finding_def
        plain_finding_def truthy_def split: if_splits)+
  then show ?thesis
    using values_of_fold_set [of "map (\<lambda>(k, v). (k, upper (py_str v))) kvs" "[]"] by (force simp: dict_of_def)
qed

lemma accepted_threshold:
  assumes "\<not> list_ex (\<lambda>f. f_severity f = ERROR) (fail_on_findings path v)"
  shows "v = PNone \<or> v \<in> {PStr ''error'', PStr ''warn'', PStr ''never''}"
  using assms by (cases v) (auto simp: fail_on_findings_def py_in_def config_finding_def plain_finding_def num_of_def split: if_splits)

lemma loaded_config_well_typed:
  assumes "load_config close ids source raw = Inr (c, findings)" and "\<not> list_ex (\<lambda>f. f_severity f = ERROR) findings"
  shows "well_typed_config c"
proof -
  from assms(1) obtain kvs version contracts items where kvs: "findings = validate_config close ids source kvs"
    and items: "override_items (val_get kvs ''severity_overrides'') = Inr items"
    and c: "cf_severity_overrides c = dict_of (map (\<lambda>(k, v). (k, upper (py_str v))) items)"
      "cf_fail_on c = (if val_get kvs ''fail_on'' = PNone then None else Some (py_str (val_get kvs ''fail_on'')))"
      "cf_profile c = val_get kvs ''profile''" "cf_suppressions c = val_get kvs ''suppressions''"
      "cf_suppression_max_days c = (case val_get kvs ''suppression_max_days'' of PInt n \<Rightarrow> Some n | _ \<Rightarrow> None)"
    by (auto simp: load_config_def bind_result_def split: pyval.splits sum.splits)
  note parts = no_errors_parts [OF assms(2) [unfolded kvs]]
  have "val_get kvs ''profile'' \<in> insert PNone (PStr ` set PROFILES)"
    using parts(2) typed_field [OF parts(5), of "''profile''" StrType]
    by (cases "val_get kvs ''profile''") (auto simp: field_types_def is_instance_def profile_findings_def config_finding_def
        plain_finding_def split: if_splits)
  moreover have "val_get kvs ''suppressions'' = PNone \<or> is_str (val_get kvs ''suppressions'')"
    using typed_field [OF parts(5), of "''suppressions''" StrType]
    by (cases "val_get kvs ''suppressions''") (auto simp: field_types_def is_instance_def)
  moreover have "1 \<le> n" if "cf_suppression_max_days c = Some n" for n
    using parts(3) that c(5)
    by (cases "val_get kvs ''suppression_max_days''") (auto simp: max_days_findings_def config_finding_def plain_finding_def split: if_splits)
  moreover have "cf_fail_on c \<in> {None, Some ''error'', Some ''warn'', Some ''never''}"
    using accepted_threshold [OF parts(4)] by (auto simp: c(2) py_str_def)
  ultimately show ?thesis
    using accepted_overrides [OF parts(1) items] by (simp add: well_typed_config_def c)
qed

lemma accepted_config_well_typed: "load_project_config close ids disabled file = Inr (Some c) \<Longrightarrow> well_typed_config c"
  by (auto simp: load_project_config_def loaded_config_well_typed split: if_splits config_file.splits sum.splits)

section \<open>Later stages do not crash on it\<close>

definition severity_names :: "(string, string) dict \<Rightarrow> bool" where
  "severity_names d \<longleftrightarrow> snd ` set d \<subseteq> set SEVERITIES"

lemma severity_names_update: "severity_names d \<Longrightarrow> severity_names e \<Longrightarrow> severity_names (dict_update d e)"
  unfolding severity_names_def dict_update_def by (rule order.trans [OF values_of_fold_set]) (rule Un_least)

lemma severity_of_name: "v \<in> set SEVERITIES \<Longrightarrow> \<exists>s. severity_of_value v = Inr s" "v \<in> set SEVERITIES \<Longrightarrow> upper v = v"
  by (auto simp: SEVERITIES_def upper_def upper_char_def)

lemma parse_severity_names: "severity_names d \<Longrightarrow> \<exists>p. parse_overrides d = Inr p"
proof (induction d)
  case (Cons kv d)
  obtain k v where kv: "kv = (k, v)" by fastforce
  with Cons.prems have "v \<in> set SEVERITIES" "severity_names d" by (auto simp: severity_names_def)
  with Cons.IH severity_of_name(1) [of v] obtain s p where "severity_of_value v = Inr s" "parse_overrides d = Inr p" by blast
  then show ?case by (simp add: kv del: severity_of_value.simps)
qed simp

lemma each_succeeds: "(\<And>x. x \<in> set xs \<Longrightarrow> \<exists>y. f x = Inr y) \<Longrightarrow> \<exists>ys. each f xs = Inr ys"
proof (induction xs)
  case (Cons x xs)
  then obtain y ys where "f x = Inr y" "each f xs = Inr ys" by fastforce
  then show ?case by simp
qed simp

lemma override_finding_succeeds: "severity_names d \<Longrightarrow> \<exists>g. override_finding d f = Inr g"
proof (cases "map_of d (f_rule_id f)")
  case (Some v)
  moreover assume "severity_names d"
  ultimately have "v \<in> set SEVERITIES" by (force simp: severity_names_def dest: map_of_SomeD)
  with severity_of_name [of v] obtain s where "severity_of_value (upper v) = Inr s" by auto
  with Some show ?thesis by (simp del: severity_of_value.simps)
qed simp

lemma profile_overrides_named:
  assumes "p \<in> set PROFILES"
  shows "\<exists>d. severity_overrides p = Inr d \<and> severity_names d"
  using assms by (auto simp: severity_overrides_def severity_names_def SEVERITIES_def severity_value_def)

lemma profile_threshold: "p \<in> set PROFILES \<Longrightarrow> \<exists>t \<in> {''error'', ''never''}. profile_fail_on p = Inr t"
  by (auto simp: PROFILES_def profile_fail_on_def profile_thresholds_def)

lemma active_profile_known:
  assumes "\<And>p. flag = Some p \<Longrightarrow> p \<in> set PROFILES" and "\<And>c. cfg = Some c \<Longrightarrow> well_typed_config c" and "active_profile flag cfg = Some p"
  shows "p \<in> set PROFILES"
  using assms by (auto simp: active_profile_def well_typed_config_def setting_text_def split: if_splits option.splits pyval.splits)

lemma well_typed_config_runs:
  assumes flag: "\<And>p. flag = Some p \<Longrightarrow> p \<in> set PROFILES" and cfg: "\<And>c. cfg = Some c \<Longrightarrow> well_typed_config c"
    and cli: "severity_names cli"
  shows "\<exists>ovr eng t. merged_severity_overrides flag cfg cli = Inr ovr \<and> init_breaking ovr = Inr eng
    \<and> (\<forall>fs. \<exists>gs. apply_severity_overrides fs ovr = Inr gs)
    \<and> fail_on_threshold flag cfg = Inr t \<and> t \<in> {''error'', ''warn'', ''never''}"
proof -
  have known: "p \<in> set PROFILES" if "active_profile flag cfg = Some p" for p
    by (rule active_profile_known [OF flag cfg that])
  obtain d where d: "(case active_profile flag cfg of None \<Rightarrow> Inr [] | Some p \<Rightarrow> severity_overrides p) = Inr d" "severity_names d"
  proof (cases "active_profile flag cfg")
    case None
    then show ?thesis using that [of "[]"] by (simp add: severity_names_def)
  next
    case (Some p)
    then show ?thesis using that profile_overrides_named [OF known [OF Some]] by auto
  qed
  let ?c = "case cfg of None \<Rightarrow> [] | Some c \<Rightarrow> cf_severity_overrides c"
  let ?m = "dict_update (dict_update d ?c) cli"
  have "severity_names ?c" using cfg by (auto simp: severity_names_def well_typed_config_def split: option.split)
  with d(2) cli have names: "severity_names ?m" by (intro severity_names_update)
  then obtain p where p: "parse_overrides ?m = Inr p" using parse_severity_names by blast
  let ?ovr = "if ?m = [] then None else Some ?m"
  have "merged_severity_overrides flag cfg cli = Inr ?ovr" by (simp add: merged_severity_overrides_def d(1) Let_def)
  moreover have "init_breaking ?ovr = Inr \<lparr>overrides = p\<rparr>" using p by (auto simp: init_breaking_def list_or_empty_def)
  moreover have "\<exists>gs. apply_severity_overrides fs ?ovr = Inr gs" for fs
    using each_succeeds [of fs "override_finding ?m"] override_finding_succeeds [OF names] by (simp add: apply_severity_overrides_def)
  moreover have "\<exists>t. fail_on_threshold flag cfg = Inr t \<and> t \<in> {''error'', ''warn'', ''never''}"
  proof -
    have from_profile: "\<exists>t. (case active_profile flag cfg of Some p \<Rightarrow> profile_fail_on p | None \<Rightarrow> Inr ''error'') = Inr t
        \<and> t \<in> {''error'', ''warn'', ''never''}"
      using known profile_threshold by (cases "active_profile flag cfg") auto
    have "cf_fail_on c \<in> {None, Some ''error'', Some ''warn'', Some ''never''}" if "cfg = Some c" for c
      using cfg [OF that] by (simp add: well_typed_config_def)
    with from_profile show ?thesis by (cases cfg) (auto simp: fail_on_threshold_def lower_def lower_char_def)
  qed
  ultimately show ?thesis by blast
qed

section \<open>A contract is compatible with itself\<close>

lemma for_common_same: "(\<And>k op. find_operation s k = Some op \<Longrightarrow> f k op op = []) \<Longrightarrow> for_common s s f = []"
  by (auto simp: for_common_def split: option.split)

lemma find_operation_key: "k \<in> set (operation_keys s) \<Longrightarrow> \<exists>op. find_operation s k = Some op"
  by (cases "find_operation s k") (auto simp: operation_keys_def find_operation_def find_None_iff)

lemma sorted_symmetric_parts [simp]: "newly_required_headers op op = []"
  by (auto simp: newly_required_headers_def list_ex_iff filter_empty_conv)

lemma same_contract_compatible: "analyze_compat hostname s s = Inr []"
proof -
  have "compat_security s s = []" by (auto simp: compat_security_def split: option.split)
  moreover have "for_common s s compat_status_codes = []" "for_common s s compat_content = []"
    "for_common s s compat_headers = []" "for_common s s compat_metadata = []"
    by (rule for_common_same; simp add: compat_status_codes_def compat_content_def compat_headers_def compat_metadata_def same_pagination_def)+
  ultimately show ?thesis by (simp add: analyze_compat_def compat_servers_def)
qed

lemma wire_field_same: "wire_field k name f f = []"
proof -
  have "filter (\<lambda>v. \<not> py_in v xs) xs = []" for xs by (auto simp: filter_empty_conv py_in_def list_ex_iff intro: py_eq_refl)
  then show ?thesis by (simp add: wire_field_def)
qed

lemma same_contract_protocol_compatible: "analyze_protocol_compat s s = []"
proof -
  have "graphql_arguments k op op = []" "graphql_return k op op = []" for k op
    by (auto simp: graphql_arguments_def graphql_changed_argument_def graphql_return_def Let_def split: option.split)
  moreover have "proto_wire_fields k m m = []" "message_change k label m m = []" for k label m
    by (auto simp: proto_wire_fields_def message_change_def wire_field_same Let_def split: option.split)
  ultimately show ?thesis
    using find_operation_key by (fastforce simp: analyze_protocol_compat_def analyze_graphql_def analyze_grpc_def split: option.split)
qed

section \<open>A contract compared with itself passes\<close>

lemma truncated_canonical: "truncated_manifest (fst (canonicalize_service s)) \<longleftrightarrow> truncated_manifest s"
  by (simp add: truncated_manifest_def)

lemma identical_contract_passes:
  assumes "wf_service (fst (canonicalize_service s))" and "\<not> truncated_manifest s"
    and flag: "\<And>p. ba_profile args = Some p \<Longrightarrow> p \<in> set PROFILES"
    and cfg: "\<And>c. cfg = Some c \<Longrightarrow> well_typed_config c \<and> setting_text (cf_suppressions c) = None \<and> \<not> cf_check_semver c"
    and cli: "severity_names (cli_overrides (ba_severity_override args))" and "\<not> truthy_str (ba_consumers args)" and "\<not> ba_check_semver args"
  shows "cmd_breaking env cfg args s s = Inr ([], EXIT_OK)"
proof -
  have diff: "diff_services (ge_dumps env) s s True = Inr []"
    using run_self_iff [OF assms(1), of "ge_dumps env"] assms(2) by (simp add: diff_services_def truncated_canonical)
  have "well_typed_config c" if "cfg = Some c" for c using cfg that by blast
  from well_typed_config_runs [of "ba_profile args" cfg, OF flag this cli] obtain ovr eng t where
    ovr: "merged_severity_overrides (ba_profile args) cfg (cli_overrides (ba_severity_override args)) = Inr ovr" "init_breaking ovr = Inr eng"
    and threshold: "fail_on_threshold (ba_profile args) cfg = Inr t" by blast
  have raw: "raw_findings env ovr s s [] = Inr []"
    using ovr(2) by (simp add: raw_findings_def evaluate_breaking_def same_contract_compatible same_contract_protocol_compatible
        apply_severity_overrides_def split: option.split)
  have guides: "attach_guides [] s = []" by (simp add: attach_guides_def Let_def)
  have "project_suppressions env cfg = Inr None" using cfg by (cases cfg) (auto simp: project_suppressions_def)
  then have suppressed: "apply_project_suppressions env cfg [] = Inr []" by (simp add: apply_project_suppressions_def and_then_def)
  have consulted: "consumer_stage env args s s [] = Inr []" using assms(6) by (simp add: consumer_stage_def read_registry_def and_then_def)
  have versioned: "semver_stage env args cfg s s [] [] = Inr []" using assms(7) cfg by (cases cfg) (auto simp: semver_stage_def)
  with diff ovr(1) raw guides suppressed consulted threshold show ?thesis
    by (simp add: cmd_breaking_def attempt_def and_then_def exit_for_def Let_def)
qed

end
