(* ===== verification/GateSamples.thy ===== *)
theory GateSamples
  imports GateFacts Samples
begin

text \<open>Small surroundings, registries and suppressions on which the properties of the gate are applied.\<close>

section \<open>Versions of three numbers\<close>

fun number_of :: "nat \<Rightarrow> string \<Rightarrow> nat" where
  "number_of n [] = n"
| "number_of n (c # s) = number_of (10 * n + (of_char c - 48)) s"

definition dot :: char where "dot = CHR ''.''"

definition parse_triple :: "string \<Rightarrow> (nat \<times> nat \<times> nat) option" where
  "parse_triple s =
     (let a = takeWhile (\<lambda>c. c \<noteq> dot) s; r = drop 1 (dropWhile (\<lambda>c. c \<noteq> dot) s);
          b = takeWhile (\<lambda>c. c \<noteq> dot) r; c = drop 1 (dropWhile (\<lambda>c. c \<noteq> dot) r)
      in if s = [] then None else Some (number_of 0 a, number_of 0 b, number_of 0 c))"

definition triple_versions :: "(nat \<times> nat \<times> nat) version_lib" where
  "triple_versions = \<lparr>vl_parse = parse_triple, vl_major = fst, vl_minor = fst \<circ> snd, vl_micro = snd \<circ> snd,
     vl_less = (<), vl_text = (\<lambda>(a, b, c). dotted_version a b c)\<rparr>"

lemma number_of_append: "number_of n (s @ t) = number_of (number_of n s) t"
  by (induction n s rule: number_of.induct) simp_all

lemma digit_char_value: "d < 10 \<Longrightarrow> of_char (digit_char d) = 48 + d \<and> dot \<noteq> digit_char d"
  by (auto simp: digit_char_def dot_def dest: arg_cong [where f = "of_char :: char \<Rightarrow> nat"])

lemma number_of_nat_str: "number_of 0 (nat_str n) = n \<and> dot \<notin> set (nat_str n) \<and> nat_str n \<noteq> []"
proof (induction n rule: nat_str.induct)
  case (1 n)
  show ?case
  proof (cases "n < 10")
    case True
    then show ?thesis using digit_char_value [of n] by (simp add: nat_str.simps [of n])
  next
    case False
    then have "nat_str n = nat_str (n div 10) @ [digit_char (n mod 10)]" by (simp add: nat_str.simps [of n])
    with 1 [OF False] digit_char_value [of "n mod 10"] show ?thesis by (simp add: number_of_append)
  qed
qed

lemma parse_dotted: "parse_triple (dotted_version a b c) = Some (a, b, c)"
proof -
  have "takeWhile (\<lambda>c. c \<noteq> dot) (x @ dot # y) = x" "drop 1 (dropWhile (\<lambda>c. c \<noteq> dot) (x @ dot # y)) = y" if "dot \<notin> set x" for x y
    using that by (simp_all add: takeWhile_tail takeWhile_eq_all_conv dropWhile_append)
      (metis append.right_neutral takeWhile_eq_all_conv takeWhile_tail)
  then show ?thesis
    using number_of_nat_str by (simp add: parse_triple_def dotted_version_def dot_def [symmetric] Let_def)
qed

lemma triple_orders: "orders_releases triple_versions v"
  by (auto simp: orders_releases_def triple_versions_def parse_dotted)

section \<open>Surroundings\<close>

definition sample_env :: "(nat \<times> nat \<times> nat) gate_env" where
  "sample_env = \<lparr>ge_dumps = sample_dumps, ge_hostname = (\<lambda>_. Inr None), ge_versions = triple_versions,
     ge_dates = (\<lambda>s. if s = ''2026-01-31'' then Some 739647 else None), ge_today = 739617,
     ge_suppressions_file = (\<lambda>_ _. None), ge_registry_file = (\<lambda>_. None)\<rparr>"

definition advisory_args :: breaking_args where
  "advisory_args = \<lparr>ba_profile = Some ''advisory'', ba_severity_override = [], ba_consumers = None,
     ba_severity_by_consumers = False, ba_check_semver = False, ba_old_version = None, ba_new_version = None,
     ba_require_minor_for_warnings = False\<rparr>"

lemma advisory_run:
  assumes "diff_services (ge_dumps env) old new True = Inr changes" and "svc_servers old = []" and "svc_servers new = []"
  shows "\<exists>findings. cmd_breaking env None advisory_args old new = Inr (findings, EXIT_OK)"
proof -
  have merged: "merged_severity_overrides (ba_profile advisory_args) None (cli_overrides (ba_severity_override advisory_args)) = Inr None"
    by (simp add: merged_severity_overrides_def advisory_args_def active_profile_def truthy_str_def severity_overrides_def
        PROFILES_def cli_overrides_def dict_of_def dict_update_def)
  obtain old' new' where run: "run (ge_dumps env) old' new' = Inr changes" using diff_services_run [OF assms(1)] by blast
  obtain fs where fs: "evaluate_breaking changes None = Inr fs"
    using evaluate_succeeds [where eng = "\<lparr>overrides = []\<rparr>", OF run_name_lists [OF run]] by (auto simp: no_overrides)
  then obtain gs where raw: "raw_findings env None old new changes = Inr gs"
    by (simp add: raw_findings_def analyze_compat_def compat_servers_def assms(2,3) apply_severity_overrides_def)
  have "fail_on_threshold (ba_profile advisory_args) None = Inr ''never''"
    by (simp add: fail_on_threshold_def advisory_args_def active_profile_def truthy_str_def profile_fail_on_def profile_thresholds_def)
  then show ?thesis
    using assms(1) merged raw
    by (simp add: cmd_breaking_def attempt_def and_then_def apply_project_suppressions_def project_suppressions_def
        consumer_stage_def read_registry_def semver_stage_def exit_for_def advisory_args_def truthy_str_def)
qed

definition bare_items :: operation where
  "bare_items = http_operation ''get'' ''/items'' None []"

lemma canonical_bare: "fst (canonicalize_service (http_service [bare_items])) = http_service [bare_items]"
  by code_simp

section \<open>Suppressions, a registry, a configuration\<close>

definition owned_entry :: suppression where
  "owned_entry = \<lparr>su_rule_id = ''R1'', su_operation_key = PStr ''GET /items'', su_owner = ''ann'', su_reason = ''pilot'',
     su_expires = PStr ''2026-01-31'', su_approved_by = []\<rparr>"

definition blocked_item :: finding where
  "blocked_item = plain_finding ''R1'' ERROR ''removed'' (Some ''GET /items'')"

definition warning_config :: pyval where
  "warning_config = PDict [(''version'', PInt 1), (''fail_on'', PStr ''warn'')]"

lemma warning_config_loads:
  "map_sum id (map_option cf_fail_on) (load_project_config (\<lambda>_ _. None) [] False (Document ''c.yaml'' warning_config)) = Inr (Some (Some ''warn''))"
  by code_simp

lemma owned_entry_suppresses:
  "map_sum id sr_active (apply_suppressions (ge_dates sample_env) 739617 90 False [blocked_item] [owned_entry]) = Inr []"
  by code_simp

end
