(* ===== verification/Remarks.thy ===== *)
theory Remarks
  imports RequestBodies Samples ServerSamples WorkflowSamples GateSamples
begin

text \<open>
  Single verdicts worth knowing beside the properties of the root theory: what a bound's
  verdict means, how a required body is reported, what a merge keeps, who can approve; and facts of single components that the
  properties of the root build on or complement.
\<close>

text \<open>
  The verdict on a one-sided numeric bound is set inclusion: tightened exactly when
  strictly fewer values remain accepted, loosened exactly when strictly more do, no verdict
  when the sets agree. A missing bound accepts everything.
\<close>

theorem bound_verdict_is_inclusion:
  assumes "attr \<in> set range_attrs" and "bound_value old" and "bound_value new"
  shows "constraint_change_is_tightening attr old new =
    (if accepted attr new \<subset> accepted attr old then Some True
     else if accepted attr old \<subset> accepted attr new then Some False else None)"
  using verdict_is_inclusion [OF assms] by (auto simp: set_verdict_def)

theorem bound_verdict_is_inclusion_witness:
  "accepted ''max_length'' (PInt 5) \<subset> accepted ''max_length'' PNone"
proof -
  have attr: "''max_length'' \<in> set range_attrs" by (simp add: range_attrs_eq)
  have "bound_value PNone" "bound_value (PInt 5)" "constraint_change_is_tightening ''max_length'' PNone (PInt 5) = Some True"
    by code_simp+
  with bound_verdict_is_inclusion [OF attr, of PNone "PInt 5"] show ?thesis by (auto split: if_splits)
qed

text \<open>
  A request body that becomes required is an ERROR.
\<close>

theorem newly_required_body_is_error:
  assumes "run dumps old new = Inr cs"
    and "dict_get (operations_by_key old) k = Some o_op" and "dict_get (operations_by_key new) k = Some n_op"
    and "op_request_body o_op = Some b_old" and "op_request_body n_op = Some b_new"
    and "\<not> rb_required b_old" and "rb_required b_new"
  shows "\<exists>fs. evaluate_breaking cs None = Inr fs \<and> (\<exists>g \<in> set fs. f_rule_id g = ''BRK-REQ-BODY-REQUIRED''
    \<and> f_severity g = ERROR \<and> f_operation_key g = Some k)"
proof -
  obtain c where c: "c \<in> set cs" "c_kind c = REQUEST_SCHEMA_CHANGED" "c_operation_key c = k"
    "c_description c = ''request body requiredness changed False -> True''"
    using run_reports_body_requiredness [OF assms(1-5)] assms(6,7) by (auto simp: bool_str_def)
  have "evaluate_change eng c = report eng c ''BRK-REQ-BODY-REQUIRED''" for eng
    using evaluate_request_schema_changed [OF c(2), of eng] c(4) by (simp add: body_rules report_opt_def)
  from finding_of_change [OF assms(1) c(1) this body_rule_severities(3)] c(3) show ?thesis by auto
qed

theorem newly_required_body_is_error_witness:
  "\<exists>cs fs. run sample_dumps (http_service [http_operation ''post'' ''/items'' (Some (item_body []\<lparr>rb_required := False\<rparr>)) []])
      (http_service [post_items []]) = Inr cs
    \<and> evaluate_breaking cs None = Inr fs \<and> (\<exists>g \<in> set fs. f_rule_id g = ''BRK-REQ-BODY-REQUIRED''
    \<and> f_severity g = ERROR \<and> f_operation_key g = Some ''POST /items'')"
proof -
  let ?loose = "http_operation ''post'' ''/items'' (Some (item_body []\<lparr>rb_required := False\<rparr>)) []"
  have "calm_service (http_service [?loose])" "calm_service (http_service [post_items []])" by code_simp+
  then obtain cs where cs: "run sample_dumps (http_service [?loose]) (http_service [post_items []]) = Inr cs"
    using run_calm by blast
  have old: "dict_get (operations_by_key (http_service [?loose])) ''POST /items'' = Some ?loose"
    "op_request_body ?loose = Some (item_body []\<lparr>rb_required := False\<rparr>)" "\<not> rb_required (item_body []\<lparr>rb_required := False\<rparr>)"
    by code_simp+
  have "rb_required (item_body [])" by (simp add: sample_defs)
  from newly_required_body_is_error [OF cs old(1) post_items_indexed old(2) post_items_body(2) old(3) this] cs
  show ?thesis by blast
qed

text \<open>
  Branches that disagree are never resolved silently: the composition is kept, with as
  many branches as before, every other attribute of the node is untouched, and exactly one
  finding is appended that names the place.
\<close>

theorem disagreeing_branches_are_kept:
  assumes "merge_all branches (with_all_of None node) [] = (merged, conflicts, paths)" and "conflicts \<noteq> []"
  shows "\<exists>bs. collapse_branches node branches location fs
      = (with_all_of (Some bs) node, fs @ [conflict_finding location conflicts]) \<and> length bs = length branches"
  by (rule conflict_keeps_composition [OF assms])

theorem disagreeing_branches_are_kept_witness:
  "\<exists>bs fs. collapse_branches (leaf empty_facts) [text_node, object_node []] ''here'' [] = (with_all_of (Some bs) (leaf empty_facts), fs)
    \<and> length bs = 2 \<and> length fs = 1"
proof -
  let ?merge = "merge_all [text_node, object_node []] (with_all_of None (leaf empty_facts)) []"
  have "fst (snd ?merge) \<noteq> []" by code_simp
  moreover have "?merge = (fst ?merge, fst (snd ?merge), snd (snd ?merge))" by simp
  ultimately have "\<exists>bs. collapse_branches (leaf empty_facts) [text_node, object_node []] ''here'' []
      = (with_all_of (Some bs) (leaf empty_facts), [] @ [conflict_finding ''here'' (fst (snd ?merge))])
      \<and> length bs = length [text_node, object_node []]"
    by (intro disagreeing_branches_are_kept)
  then show ?thesis by force
qed

text \<open>
  A merge without disagreement requires what any branch requires. It also makes the
  result nullable as soon as one branch is, and keeps the parent's \<open>multiple_of\<close> and
  \<open>unique_items\<close> whatever the branches say, so that these are wider than the conjunction.
\<close>

theorem agreeing_merge_fields:
  assumes "merge_all bs target [] = (merged, [], paths)"
  shows "set (sn_required (facts merged)) = set (sn_required (facts target)) \<union> (\<Union>b \<in> set bs. set (sn_required (facts b)))
    \<and> (sn_nullable (facts merged) \<longleftrightarrow> sn_nullable (facts target) \<or> (\<exists>b \<in> set bs. sn_nullable (facts b)))
    \<and> sn_multiple_of (facts merged) = sn_multiple_of (facts target)
    \<and> sn_unique_items (facts merged) = sn_unique_items (facts target)"
  using merge_all_fields [OF assms] by blast

theorem agreeing_merge_fields_witness:
  "\<exists>merged paths. merge_all [leaf (empty_facts\<lparr>sn_nullable := True, sn_multiple_of := Some (int_num 3)\<rparr>), text_node] text_node []
      = (merged, [], paths) \<and> sn_nullable (facts merged) \<and> sn_multiple_of (facts merged) = None"
proof -
  let ?m = "merge_all [leaf (empty_facts\<lparr>sn_nullable := True, sn_multiple_of := Some (int_num 3)\<rparr>), text_node] text_node []"
  have "fst (snd ?m) = []" by code_simp
  then have run: "?m = (fst ?m, [], snd (snd ?m))" by (metis prod.collapse)
  from agreeing_merge_fields [OF run] have "sn_nullable (facts (fst ?m)) \<and> sn_multiple_of (facts (fst ?m)) = None"
    by (simp add: text_node_def leaf_def empty_facts_def)
  with run show ?thesis by blast
qed

text \<open>
  The handler that decides approvals never compares the organisation of the approval with
  the caller's: an administrator of another organisation, which is not frozen, can approve a
  release of an organisation that is.
\<close>

theorem strangers_approve_during_freeze:
  assumes "get_approval i s = Some a" and "ap_status a = ''pending''" and "open_freezes (ap_org a) s \<noteq> []"
    and "authorize who ''decide_approval''" and "open_freezes (who_org who) s = []"
  shows "fst (api_decide_approval js clk (Some who) i ''approved'' s) = 200
    \<and> map_option ap_status (get_approval i (snd (api_decide_approval js clk (Some who) i ''approved'' s))) = Some ''approved''
    \<and> open_freezes (ap_org a) (snd (api_decide_approval js clk (Some who) i ''approved'' s)) \<noteq> []"
  using api_decision_takes_effect [OF assms(1,2,4,5), of js clk] assms(3) by (simp add: open_freezes_def)

theorem strangers_approve_during_freeze_witness:
  "fst (api_decide_approval plain_json noon (Some stranger) 1 ''approved'' (release_request frozen_store)) = 200"
proof -
  let ?s = "release_request frozen_store"
  have "map_option (\<lambda>a. (ap_status a, ap_org a)) (get_approval 1 ?s) = Some (''pending'', 1)"
    by (simp add: release_request_def request_approval_def get_approval_def frozen_store_def freeze_def
        empty_store_def empty_table_def insert_row_def Let_def select_rows_def fetchone_def freeze_state_active open_freezes_def)
  then obtain a where a: "get_approval 1 ?s = Some a" "ap_status a = ''pending''" "ap_org a = 1"
    by (cases "get_approval 1 ?s") auto
  have frozen: "open_freezes n ?s = open_freezes n frozen_store" for n
    by (simp add: release_request_def request_approval_def Let_def open_freezes_def split_beta)
  have "open_freezes 2 frozen_store = []"
    by (simp add: frozen_store_def open_freezes_freeze) (simp add: open_freezes_def empty_store_def empty_table_def select_rows_def)
  moreover have "authorize stranger ''decide_approval''" by code_simp
  ultimately show ?thesis
    using strangers_approve_during_freeze [OF a(1,2), of stranger plain_json noon] frozen_store_frozen a(3)
    by (simp add: frozen stranger_def)
qed

text \<open>
  Identifiers are stable: two runs that record the same changes, identifiers aside, for
  the operations of one hash give these changes the same identifiers, whatever else either
  run recorded for other operations.
\<close>

theorem change_ids_stable:
  assumes "run dumps old new = Inr cs" and "run dumps' old' new' = Inr ds"
    and "map strip_id (filter (\<lambda>c. operation_hash (c_operation_key c) = h) cs)
       = map strip_id (filter (\<lambda>c. operation_hash (c_operation_key c) = h) ds)"
  shows "filter (\<lambda>c. operation_hash (c_operation_key c) = h) cs = filter (\<lambda>c. operation_hash (c_operation_key c) = h) ds"
  by (rule run_ids_local [OF assms(1,2) refl assms(3)])

theorem change_ids_stable_witness:
  "\<exists>cs ds. run sample_dumps (http_service []) (http_service []) = Inr cs \<and> cs = ds
    \<and> filter (\<lambda>c. operation_hash (c_operation_key c) = ''global'') cs
      = filter (\<lambda>c. operation_hash (c_operation_key c) = ''global'') ds"
proof -
  have "calm_service (http_service [])" by code_simp
  then obtain cs where cs: "run sample_dumps (http_service []) (http_service []) = Inr cs" using run_calm by blast
  from change_ids_stable [OF cs cs refl] cs show ?thesis by blast
qed

text \<open>
  The canonical enum holds one representative of every value of the document and no
  other: values count as the same only with the same type and representation, so \<open>1\<close> and
  \<open>true\<close> stay apart.
\<close>

theorem canonical_enum_loses_nothing:
  "value_key ` set (stable_unique vs) = value_key ` set vs \<and> distinct (map value_key (stable_unique vs))
    \<and> set (stable_unique vs) \<subseteq> set vs"
  using stable_unique_keys [of vs] by blast

text \<open>
  A field of a JSON request body that the new contract no longer declares is reported as
  \<open>BRK-REQ-FIELD-REMOVED\<close> with severity ERROR.
\<close>

theorem removed_request_field_is_error:
  assumes "run dumps old new = Inr cs"
    and "dict_get (operations_by_key old) k = Some o_op" and "dict_get (operations_by_key new) k = Some n_op"
    and "payload_direction_of n_op = ''request''"
    and "op_request_body o_op = Some b_old" and "op_request_body n_op = Some b_new"
    and "dict_get (rb_content b_old) media = Some o_schema" and "dict_get (rb_content b_new) media = Some n_schema"
    and "at_path ps o_schema = Some o_node" and "at_path ps n_schema = Some n_node"
    and "f \<in> set (keys (properties o_node))" and "f \<notin> set (keys (properties n_node))"
  shows "\<exists>fs. evaluate_breaking cs None = Inr fs \<and> (\<exists>g \<in> set fs. f_rule_id g = ''BRK-REQ-FIELD-REMOVED''
    \<and> f_severity g = ERROR \<and> f_operation_key g = Some k
    \<and> f_message g = ''request body ('' @ media @ '')'' @ dotted ps @ '': field '' @ quoted f @ '' was removed'')"
proof -
  obtain c where c: "c \<in> set cs" "c_kind c = PARAMETER_REMOVED" "c_operation_key c = k"
    "c_description c = (''request body ('' @ media @ '')'' @ dotted ps) @ '': field '' @ quoted f @ '' was removed''"
    using run_reports_removed_request_field [OF assms] by auto
  from finding_of_change [OF assms(1) c(1) evaluate_removed_request_field [OF c(2,4)] catalog_default_severities(4)]
    c(3,4)
  show ?thesis by simp
qed

theorem removed_request_field_is_error_witness:
  "\<exists>cs fs. run sample_dumps (http_service [post_items [(''id'', text_node), (''name'', text_node)]])
      (http_service [post_items [(''id'', text_node)]]) = Inr cs
    \<and> evaluate_breaking cs None = Inr fs \<and> (\<exists>g \<in> set fs. f_rule_id g = ''BRK-REQ-FIELD-REMOVED''
    \<and> f_severity g = ERROR \<and> f_operation_key g = Some ''POST /items''
    \<and> f_message g = ''request body (application/json).item: field '' @ quoted ''name'' @ '' was removed'')"
proof -
  let ?two = "[(''id'', text_node), (''name'', text_node)]" and ?one = "[(''id'', text_node)]"
  have "calm_service (http_service [post_items ?two])" "calm_service (http_service [post_items ?one])"
    by code_simp+
  then obtain cs where cs: "run sample_dumps (http_service [post_items ?two]) (http_service [post_items ?one]) = Inr cs"
    using run_calm by blast
  note ops = post_items_indexed and body = post_items_body
  have field: "''name'' \<in> set (keys (properties (object_node ?two)))" "''name'' \<notin> set (keys (properties (object_node ?one)))"
    by code_simp+
  from removed_request_field_is_error [OF cs ops ops body(1) body(2) body(2) body(3) body(3) body(4) body(4) field] cs
  show ?thesis by (auto simp: dotted_def)
qed

text \<open>
  Whatever the contracts, the only exception a run can end in is a \<open>TypeError\<close>: the
  dict lookups and the \<open>next()\<close> of the rename detection never fail.
\<close>

theorem run_raises_only_type_errors:
  "case run dumps old new of Inl e \<Rightarrow> (\<exists>s. e = TypeError s) | Inr cs \<Rightarrow> True"
proof (cases "run dumps old new")
  case (Inl e)
  with run_raises_type_error [of dumps old new e] show ?thesis by (cases e) auto
qed simp

text \<open>
  A contract compared with itself yields no change at all, unless it is the truncated
  page of an MCP manifest, which is always reported. Well-formed means that every
  discriminator mapping is a dict.
\<close>

theorem identical_contracts_no_change:
  assumes "wf_service svc"
  shows "run dumps svc svc = Inr [] \<longleftrightarrow> \<not> truncated_manifest svc"
  by (rule run_self_iff [OF assms])

theorem identical_contracts_no_change_witness:
  "run sample_dumps (http_service [get_items [''id''], post_items [(''name'', bounded_text (Some 9))]])
     (http_service [get_items [''id''], post_items [(''name'', bounded_text (Some 9))]]) = Inr []"
proof -
  let ?svc = "http_service [get_items [''id''], post_items [(''name'', bounded_text (Some 9))]]"
  have "wf_service ?svc" "\<not> truncated_manifest ?svc" by code_simp+
  then show ?thesis using identical_contracts_no_change [of ?svc sample_dumps] by blast
qed

text \<open>
  An export taken from any reachable store verifies, with a valid seal when a key is given, and
  so it does against any export taken of the same organisation at an earlier time.
\<close>

theorem later_exports_verify:
  assumes "reachable_store js s" and "(store_step js)\<^sup>*\<^sup>* s t"
  shows "ev_ok (verify_export h (audit_export h v clk name org secret t) secret
      (Some (audit_export h v' clk' name' org secret' s)))
    \<and> fst (seal_check h (audit_export h v clk name org secret t) secret) = (if secret = None then ''absent'' else ''valid'')"
  using audit_exports_verify [OF assms] audit_export_seal by blast

theorem later_exports_verify_witness:
  "ev_ok (verify_export no_hmac (export_of lifted_store) (Some ''key'') (Some (export_of frozen_store)))"
  using later_exports_verify [OF frozen_store_reachable freeze_lifted] unfolding export_of_def by blast

text \<open>
  Once an idempotency key has a run it keeps it: later enqueues under the key, at any
  time, answer with that run or with a full queue, and never add another.
\<close>

theorem one_run_per_key:
  assumes "key_run org k s = Some i" and "nj_idempotency_key j = Some k" and "k \<noteq> []"
    and "t = fold (queue_act m) es s"
  shows "fst (enqueue m clk org j t) \<in> {Inr (i, False), Inr (i, True), Inl (QueueFull org m)}
    \<and> st_runs (snd (enqueue m clk org j t)) = st_runs t"
  using enqueue_known_key [OF key_run_history [OF assms(1)] assms(2,3)] assms(4) by simp

theorem one_run_per_key_witness:
  "fst (enqueue 4 noon 1 (nightly ''a'') (fold (queue_act 4) [Claim noon 1 ''w''] two_jobs))
    \<in> {Inr (1, False), Inr (1, True), Inl (QueueFull 1 4)}"
proof -
  have "key_run 1 ''a'' two_jobs = Some 1" by code_simp
  moreover have "nj_idempotency_key (nightly ''a'') = Some ''a''" by (simp add: nightly_def)
  ultimately show ?thesis using one_run_per_key [OF _ _ _ refl] by blast
qed

text \<open>
  The runs handed to the workers of an organisation are handed out in the order of their
  identifiers, none of them twice, whatever else happens in between.
\<close>

theorem no_run_is_claimed_twice:
  assumes "runs_ok s"
  shows "sorted_wrt (<) (claimed_runs m org es s)"
  by (rule claimed_runs_increase [OF assms])

theorem no_run_is_claimed_twice_witness:
  "claimed_runs 4 1 [Claim noon 1 ''w'', Claim noon 1 ''v'', Claim noon 1 ''w''] two_jobs = [1, 2]
    \<and> sorted_wrt (<) (claimed_runs 4 1 [Claim noon 1 ''w'', Claim noon 1 ''v'', Claim noon 1 ''w''] two_jobs)"
proof
  show "claimed_runs 4 1 [Claim noon 1 ''w'', Claim noon 1 ''v'', Claim noon 1 ''w''] two_jobs = [1, 2]" by code_simp
  show "sorted_wrt (<) (claimed_runs 4 1 [Claim noon 1 ''w'', Claim noon 1 ''v'', Claim noon 1 ''w''] two_jobs)"
    by (rule no_run_is_claimed_twice [OF two_jobs_ok])
qed

text \<open>
  A budget that loads evaluates to findings on all traffic but one kind: it raises the
  \<open>TypeError\<close> of Python exactly when the calls of an operation with a limit above zero carry
  timestamps both with and without a time zone.
\<close>

theorem budgets_fail_on_mixed_timestamps:
  assumes "load_budget source raw = Inr b"
  shows "evaluate_budget dt b calls declared = Inl e \<longleftrightarrow> e = MixedInstants
    \<and> (\<exists>l \<in> set (bg_limits b). lm_max_calls l \<noteq> 0 \<and> mixed (instants_of dt (calls_to (lm_operation_key l) calls)))"
  using assms by (rule evaluate_error)

theorem budgets_fail_on_mixed_timestamps_witness:
  "mixed (instants_of tick_dates (calls_to ''tool search'' [search_at ''1'', search_at ''Z2'']))"
proof -
  have "evaluate_budget tick_dates loaded_budget [search_at ''1'', search_at ''Z2''] None = Inl MixedInstants"
    using mixed_searches_raise by (cases "evaluate_budget tick_dates loaded_budget [search_at ''1'', search_at ''Z2''] None") simp_all
  with budgets_fail_on_mixed_timestamps [OF search_budget_loads] show ?thesis by (simp add: loaded_budget_def)
qed

text \<open>
  The consumer registry keeps every finding with its rule and operation. It lowers a
  severity in one case only, from ERROR to WARN, and leaves a mark: the caller asked for it, the
  registry declares itself complete, and lists nobody who calls the operation.
\<close>

theorem only_complete_registries_lower_severities:
  "list_all2 (\<lambda>f g. f_rule_id g = f_rule_id f \<and> f_operation_key g = f_operation_key f
     \<and> (f_severity g = f_severity f
       \<or> (f_severity f = ERROR \<and> f_severity g = WARN \<and> adjust \<and> rg_complete r
          \<and> (\<exists>k. f_operation_key f = Some k \<and> k \<noteq> [] \<and> consumers_of r k = [])
          \<and> map_of (f_metadata g) ''downgraded_from'' = Some (PStr ''ERROR''))))
   findings (annotate r adjust findings)"
  unfolding annotate_def list_all2_map2 by (rule list_all2_refl) (rule annotate_finding_keeps)

end
