(* ===== verification/Floats.thy ===== *)
theory Floats
  imports PyValue
begin

text \<open>
  Arithmetic on Python's floats where the code divides them: binary64 with rounding to
  nearest, ties to even, gradual underflow and overflow. A double is a mantissa of at most
  53 bits times a power of two. A literal enters as the decimal its \<open>repr\<close> prints
  (\<open>pyfloat\<close>), an \<open>int\<close> as itself; both are rounded once on the way in.
\<close>

datatype double = Dbl int int

text \<open>The nearest integer to \<open>n / d\<close> for positive \<open>d\<close>, ties to even.\<close>

definition round_div :: "int \<Rightarrow> int \<Rightarrow> int" where
  "round_div n d = (let q = n div d; r = n mod d in
     if 2 * r < d then q else if d < 2 * r then q + 1 else if even q then q else q + 1)"

fun bit_len :: "int \<Rightarrow> int" where
  "bit_len n = (if n \<le> 0 then 0 else 1 + bit_len (n div 2))"

declare bit_len.simps [simp del]

text \<open>\<open>floor (log 2 (n / d))\<close> for positive \<open>n\<close> and \<open>d\<close>.\<close>

definition log_floor :: "int \<Rightarrow> int \<Rightarrow> int" where
  "log_floor n d = (let k = bit_len n - bit_len d in
     if d * 2 ^ nat k \<le> n * 2 ^ nat (- k) then k else k - 1)"

text \<open>\<open>n / d\<close> rounded to a double, \<open>None\<close> when it overflows to an infinity.\<close>

definition to_double :: "int \<Rightarrow> int \<Rightarrow> double option" where
  "to_double n d = (if n = 0 then Some (Dbl 0 0) else
     let e = max (log_floor (abs n) d - 52) (- 1074);
         m = round_div (n * 2 ^ nat (- e)) (d * 2 ^ nat e)
     in if 971 < e \<or> (e = 971 \<and> 2 ^ 53 \<le> abs m) then None else Some (Dbl m e))"

definition float_double :: "pyfloat \<Rightarrow> double option" where
  "float_double x = (case x of Flt m e \<Rightarrow> to_double (m * 10 ^ nat e) (10 ^ nat (- e)))"

text \<open>An operand of \<open>/\<close>: \<open>int\<close> too large for a float raises.\<close>

definition val_double :: "pyval \<Rightarrow> double result" where
  "val_double v = (case v of
       PFloat x \<Rightarrow> (case float_double x of
           None \<Rightarrow> Inl (OverflowError ''float out of range'')
         | Some y \<Rightarrow> Inr y)
     | _ \<Rightarrow> (case num_of v of
           None \<Rightarrow> Inl (TypeError ''unsupported operand'')
         | Some x \<Rightarrow> (case float_double x of
               None \<Rightarrow> Inl (OverflowError ''int too large to convert to float'')
             | Some y \<Rightarrow> Inr y)))"

definition div_double :: "double \<Rightarrow> double \<Rightarrow> double option result" where
  "div_double x y = (case (x, y) of (Dbl m e, Dbl n f) \<Rightarrow>
     if n = 0 then Inl ZeroDivisionError
     else Inr (to_double (m * sgn n * 2 ^ nat (e - f)) (abs n * 2 ^ nat (f - e))))"

text \<open>\<open>round(q)\<close> and the exact distance of \<open>q\<close> from it, in units of \<open>2 ^ min e 0\<close>.\<close>

definition round_double :: "double \<Rightarrow> int" where
  "round_double q = (case q of Dbl m e \<Rightarrow> round_div (m * 2 ^ nat e) (2 ^ nat (- e)))"

definition grid_distance :: "double \<Rightarrow> int" where
  "grid_distance q = (case q of Dbl m e \<Rightarrow> abs (m * 2 ^ nat e - round_double q * 2 ^ nat (- e)))"

text \<open>
  \<open>abs(q - round(q)) > 1e-9\<close>. The subtraction is exact: where \<open>q\<close> is no integer its
  exponent is negative, the rounded value has at most 53 bits, and the difference is a
  smaller multiple of the same power of two. The bound is the double nearest to the literal.
\<close>

definition TOLERANCE :: double where
  "TOLERANCE = (case to_double 1 (10 ^ 9) of Some t \<Rightarrow> t | None \<Rightarrow> Dbl 0 0)"

definition off_grid :: "double \<Rightarrow> bool" where
  "off_grid q = (case (q, TOLERANCE) of (Dbl m e, Dbl t f) \<Rightarrow>
     t * 2 ^ nat (- e) < grid_distance q * 2 ^ nat (- f))"

text \<open>\<open>abs(value / step - round(value / step)) > 1e-9\<close>\<close>

definition not_multiple :: "pyval \<Rightarrow> pyfloat \<Rightarrow> bool result" where
  "not_multiple v step =
     bind_result (val_double v) (\<lambda>x. bind_result (val_double (PFloat step)) (\<lambda>y.
     bind_result (div_double x y) (\<lambda>q.
       case q of
         None \<Rightarrow> Inl (OverflowError ''cannot convert float infinity to integer'')
       | Some r \<Rightarrow> Inr (off_grid r))))"

section \<open>Rounding\<close>

lemma round_div_exact: "0 < d \<Longrightarrow> round_div (a * d) d = a"
  by (simp add: round_div_def)

lemma round_div_near:
  assumes "0 < d"
  shows "2 * abs (round_div n d * d - n) \<le> d"
proof -
  have "n = (n div d) * d + n mod d" "0 \<le> n mod d" "n mod d < d" using assms by simp_all
  then show ?thesis unfolding round_div_def Let_def
    by (smt (verit, best) distrib_right mult_cancel_right1)
qed

subsection \<open>Rounding depends on the value only\<close>

text \<open>\<open>2 ^ j \<le> n / d\<close>, over the integers.\<close>

definition pow_le :: "int \<Rightarrow> int \<Rightarrow> int \<Rightarrow> bool" where
  "pow_le j n d \<longleftrightarrow> d * 2 ^ nat j \<le> n * 2 ^ nat (- j)"

lemma pow_le_shift:
  assumes "0 \<le> N" and "0 \<le> j + N"
  shows "pow_le j n d \<longleftrightarrow> d * 2 ^ nat (j + N) \<le> n * 2 ^ nat N"
proof -
  define s where "s = nat N - nat (- j)"
  have "nat (j + N) = nat j + s" "nat N = nat (- j) + s" using assms by (simp_all add: s_def)
  then have eqs: "d * 2 ^ nat (j + N) = (d * 2 ^ nat j) * 2 ^ s" "n * 2 ^ nat N = (n * 2 ^ nat (- j)) * 2 ^ s"
    by (simp_all only: power_add mult.assoc)
  show ?thesis unfolding eqs pow_le_def by (rule mult_le_cancel_right_pos [symmetric]) simp
qed

lemma pow_le_antimono:
  assumes "pow_le k n d" and "j \<le> k" and "0 < d"
  shows "pow_le j n d"
proof -
  let ?N = "max 0 (- j)"
  have "(2::int) ^ nat (j + ?N) \<le> 2 ^ nat (k + ?N)" using assms(2) by (intro power_increasing) auto
  then have "d * 2 ^ nat (j + ?N) \<le> d * 2 ^ nat (k + ?N)" using assms(3) by simp
  also have "\<dots> \<le> n * 2 ^ nat ?N" using assms(1,2) pow_le_shift [of ?N k] by auto
  finally show ?thesis using pow_le_shift [of ?N j] by auto
qed

lemma pow_le_scale: "0 < c \<Longrightarrow> pow_le j (n * c) (d * c) = pow_le j n d"
  using mult_le_cancel_right [of "d * 2 ^ nat j" c "n * 2 ^ nat (- j)"] by (simp add: pow_le_def algebra_simps)

lemma bit_len_bounds: "0 < n \<Longrightarrow> 0 < bit_len n \<and> 2 ^ nat (bit_len n - 1) \<le> n \<and> n < 2 ^ nat (bit_len n)"
proof (induction n rule: bit_len.induct)
  case (1 n)
  show ?case
  proof (cases "n = 1")
    case True
    then show ?thesis by (simp add: bit_len.simps [of 1] bit_len.simps [of 0])
  next
    case False
    let ?b = "bit_len (n div 2)"
    have half: "0 < ?b" "2 ^ nat (?b - 1) \<le> n div 2" "n div 2 < 2 ^ nat ?b" using 1 False by auto
    have "(2::int) ^ nat ?b = 2 * 2 ^ nat (?b - 1)"
      using half(1) by (simp flip: power_Suc add: Suc_nat_eq_nat_zadd1)
    moreover have "nat (1 + ?b) = Suc (nat ?b)" using half(1) by simp
    moreover have "bit_len n = 1 + ?b" using 1(2) by (simp add: bit_len.simps [of n])
    moreover have "2 * (n div 2) \<le> n" "n < 2 * (n div 2) + 2" by auto
    ultimately show ?thesis using half by (simp only: power_Suc add_diff_cancel_left' ) arith
  qed
qed

lemma log_floor_spec:
  assumes "0 < n" and "0 < d"
  shows "pow_le (log_floor n d) n d" and "\<not> pow_le (log_floor n d + 1) n d"
proof -
  let ?a = "bit_len n" and ?b = "bit_len d"
  note a = bit_len_bounds [OF assms(1)] and b = bit_len_bounds [OF assms(2)]
  have low: "pow_le (?a - ?b - 1) n d"
  proof -
    have "d * 2 ^ nat (?a - 1) \<le> 2 ^ nat ?b * 2 ^ nat (?a - 1)" using b by simp
    also have "\<dots> \<le> 2 ^ nat ?b * n" using a by simp
    finally show ?thesis using pow_le_shift [of ?b "?a - ?b - 1"] a b by (simp add: mult.commute)
  qed
  have high: "\<not> pow_le (?a - ?b + 1) n d"
  proof -
    have "n * 2 ^ nat (?b - 1) < 2 ^ nat ?a * 2 ^ nat (?b - 1)" using a by simp
    also have "\<dots> \<le> 2 ^ nat ?a * d" using b by simp
    finally show ?thesis using pow_le_shift [of "?b - 1" "?a - ?b + 1"] a b by (simp add: mult.commute)
  qed
  show "pow_le (log_floor n d) n d" "\<not> pow_le (log_floor n d + 1) n d"
    using low high by (simp_all add: log_floor_def Let_def pow_le_def [symmetric])
qed

lemma log_floor_eqI:
  assumes "0 < n" and "0 < d" and "pow_le k n d" and "\<not> pow_le (k + 1) n d"
  shows "log_floor n d = k"
proof (rule antisym; rule ccontr)
  assume "\<not> log_floor n d \<le> k"
  then have "pow_le (k + 1) n d" 
    using pow_le_antimono [OF log_floor_spec(1) [OF assms(1,2)] _ assms(2)] by simp
  with assms(4) show False ..
next
  assume "\<not> k \<le> log_floor n d"
  then have "pow_le (log_floor n d + 1) n d" 
    using pow_le_antimono [OF assms(3) _ assms(2)] by simp
  with log_floor_spec(2) [OF assms(1,2)] show False ..
qed

lemma round_div_scale:
  assumes "0 < c"
  shows "round_div (n * c) (d * c) = round_div n d"
proof -
  have "n * c div (d * c) = n div d" "n * c mod (d * c) = n mod d * c"
    using assms by (simp_all add: mod_mult_mult2)
  moreover have "2 * (r * c) < d * c \<longleftrightarrow> 2 * r < d" "d * c < 2 * (r * c) \<longleftrightarrow> d < 2 * r" for r
    using assms mult_less_cancel_right_pos [of c "2 * r" d] mult_less_cancel_right_pos [of c d "2 * r"]
    by (simp_all only: mult.assoc)
  ultimately show ?thesis by (simp only: round_div_def Let_def)
qed

lemma to_double_scale:
  assumes "0 < c" and "0 < d"
  shows "to_double (n * c) (d * c) = to_double n d"
proof (cases "n = 0")
  case False
  then have "0 < abs n" by simp
  have "log_floor (abs n * c) (d * c) = log_floor (abs n) d"
    using log_floor_spec [OF \<open>0 < abs n\<close> assms(2)] assms \<open>0 < abs n\<close>
    by (intro log_floor_eqI) (simp_all add: pow_le_scale)
  moreover have "abs (n * c) = abs n * c" using assms(1) by (simp add: abs_mult)
  moreover have "round_div (n * c * x) (d * c * y) = round_div (n * x) (d * y)" for x y
    using round_div_scale [OF assms(1), of "n * x" "d * y"] by (simp add: ac_simps)
  ultimately show ?thesis using False assms(1) by (simp add: to_double_def)
qed (simp add: to_double_def)

lemma to_double_cross:
  assumes "n * d' = n' * d" and "0 < d" and "0 < d'"
  shows "to_double n d = to_double n' d'"
  using to_double_scale [of d' d n] to_double_scale [of d d' n'] assms by (simp add: mult.commute)

lemma flt_eq_cross:
  assumes "flt_eq (Flt m e) (Flt m' e')" and "e' \<le> e"
  shows "(m * 10 ^ nat e) * 10 ^ nat (- e') = (m' * 10 ^ nat e') * 10 ^ nat (- e)"
proof -
  have "m' = m * 10 ^ nat (e - e')" using assms by (auto simp: flt_eq_def flt_le_def flt_exp_def scaled_def min_absorb2 min_absorb1 Let_def)
  moreover have "nat e + nat (- e') = nat (e - e') + nat e' + nat (- e)" using assms(2) by simp
  ultimately show ?thesis by (simp flip: power_add)
qed

lemma float_double_eq: "flt_eq x y \<Longrightarrow> float_double x = float_double y"
proof (induction "flt_exp y" "flt_exp x" arbitrary: x y rule: linorder_wlog)
  case le
  then show ?case
    using flt_eq_cross by (cases x; cases y) (auto simp: float_double_def flt_exp_def intro!: to_double_cross)
next
  case sym
  then show ?case using flt_eq_sym by metis
qed

lemma not_multiple_eq: "flt_eq step step' \<Longrightarrow> not_multiple v step = not_multiple v step'"
  using float_double_eq [of step step'] by (simp add: not_multiple_def val_double_def)

end
