(* ===== verification/Validation.thy ===== *)
theory Validation
  imports Model Floats
begin

text \<open>
  \<open>apiverity/core/validation.py\<close>: checking a value against a schema node. The list of
  violation messages is built by pieces in the order of the source's statements, so a piece
  that raises hides what follows it. The function is recursive in the schema, not in the
  value (\<open>dependentSchemas\<close>, \<open>if\<close> and the variants apply to the same value); its
  body takes the recursive call as an argument, as the comparison of schemas does.

  Python's \<open>re\<close> is the parameter \<open>search\<close>: \<open>search p s\<close> is \<open>None\<close> when \<open>p\<close>
  does not compile, and else tells whether \<open>p\<close> matches somewhere in \<open>s\<close>.
\<close>

type_synonym regex = "string \<Rightarrow> string \<Rightarrow> bool option"
type_synonym violations = "string list"
type_synonym validator = "schema_node \<Rightarrow> pyval \<Rightarrow> string \<Rightarrow> violations result"

section \<open>Types\<close>

definition plain_type_matches :: "string \<Rightarrow> pyval \<Rightarrow> bool" where
  "plain_type_matches expected v =
     (if expected = ''object'' then (case v of PDict d \<Rightarrow> True | _ \<Rightarrow> False)
      else if expected = ''array'' then (case v of PList xs \<Rightarrow> True | _ \<Rightarrow> False)
      else if expected = ''string'' then (case v of PStr s \<Rightarrow> True | _ \<Rightarrow> False)
      else if expected = ''boolean'' then (case v of PBool b \<Rightarrow> True | _ \<Rightarrow> False)
      else if expected = ''integer'' then (case v of PInt i \<Rightarrow> True | _ \<Rightarrow> False)
      else if expected = ''number'' then (case v of PInt i \<Rightarrow> True | PFloat x \<Rightarrow> True | _ \<Rightarrow> False)
      else if expected = ''null'' then v = PNone
      else True)"

definition type_matches :: "string option \<Rightarrow> pyval \<Rightarrow> bool" where
  "type_matches expected v = (case expected of
       None \<Rightarrow> True
     | Some e \<Rightarrow> if CHR ''|'' \<in> set e then list_ex (\<lambda>t. plain_type_matches t v) (split_char (CHR ''|'') e)
         else plain_type_matches e v)"

definition py_typename :: "pyval \<Rightarrow> string" where
  "py_typename v = (case v of
       PNone \<Rightarrow> ''NoneType'' | PBool b \<Rightarrow> ''bool'' | PInt i \<Rightarrow> ''int'' | PFloat x \<Rightarrow> ''float''
     | PStr s \<Rightarrow> ''str'' | PList xs \<Rightarrow> ''list'' | PDict d \<Rightarrow> ''dict'')"

section \<open>Strings and numbers\<close>

text \<open>\<open>len\<close> of a \<open>str\<close> counts code points: the bytes of the text that do not
  continue one.\<close>

definition str_len :: "string \<Rightarrow> int" where
  "str_len s = int (length (filter (\<lambda>c. let n = of_char c :: nat in n < 128 \<or> 192 \<le> n) s))"

definition check :: "bool \<Rightarrow> string \<Rightarrow> violations result" where
  "check bad msg = Inr (if bad then [msg] else [])"

text \<open>\<open>if bound is not None and ...\<close>\<close>

definition check_bound :: "'a option \<Rightarrow> ('a \<Rightarrow> bool) \<Rightarrow> ('a \<Rightarrow> string) \<Rightarrow> violations result" where
  "check_bound bound bad msg = (case bound of None \<Rightarrow> Inr [] | Some b \<Rightarrow> check (bad b) (msg b))"

definition validate_string :: "regex \<Rightarrow> schema_facts \<Rightarrow> string \<Rightarrow> string \<Rightarrow> violations result" where
  "validate_string search f s path = seq_results [
     check_bound (sn_min_length f) (\<lambda>n. str_len s < n)
       (\<lambda>n. path @ '': length '' @ int_str (str_len s) @ '' < minLength '' @ int_str n),
     check_bound (sn_max_length f) (\<lambda>n. n < str_len s)
       (\<lambda>n. path @ '': length '' @ int_str (str_len s) @ '' > maxLength '' @ int_str n),
     (case sn_pattern f of
        None \<Rightarrow> Inr []
      | Some p \<Rightarrow> (case search p s of
            None \<Rightarrow> Inl (ReError p)
          | Some found \<Rightarrow> check (\<not> found) (path @ '': does not match pattern '' @ str_repr p)))]"

definition validate_number :: "schema_facts \<Rightarrow> pyval \<Rightarrow> pyfloat \<Rightarrow> string \<Rightarrow> violations result" where
  "validate_number f v x path = (let value = path @ '': '' @ py_str v in seq_results [
     check_bound (sn_minimum f) (\<lambda>b. flt_lt x b) (\<lambda>b. value @ '' < minimum '' @ float_repr b),
     check_bound (sn_maximum f) (\<lambda>b. flt_lt b x) (\<lambda>b. value @ '' > maximum '' @ float_repr b),
     check_bound (sn_exclusive_minimum f) (\<lambda>b. flt_le x b) (\<lambda>b. value @ '' <= exclusiveMinimum '' @ float_repr b),
     check_bound (sn_exclusive_maximum f) (\<lambda>b. flt_le b x) (\<lambda>b. value @ '' >= exclusiveMaximum '' @ float_repr b),
     (case sn_multiple_of f of
        None \<Rightarrow> Inr []
      | Some step \<Rightarrow> if flt_eq step (int_num 0) then Inr [] else
          bind_result (not_multiple v step) (\<lambda>bad.
            check bad (value @ '' not a multiple of '' @ float_repr step)))])"

section \<open>Arrays\<close>

definition item_path :: "string \<Rightarrow> nat \<Rightarrow> string" where
  "item_path path i = path @ ''['' @ int_str (int i) @ '']''"

definition validate_prefix :: "validator \<Rightarrow> schema_node list \<Rightarrow> pyval list \<Rightarrow> string \<Rightarrow> violations result" where
  "validate_prefix rec positions xs path = seq_results
     (map (\<lambda>(i, sub, v). rec sub v (item_path path i)) (List.enumerate 0 (zip positions xs)))"

definition validate_items :: "validator \<Rightarrow> schema_node option \<Rightarrow> nat \<Rightarrow> pyval list \<Rightarrow> string \<Rightarrow> violations result" where
  "validate_items rec sub n xs path = (case sub of
       None \<Rightarrow> Inr []
     | Some c \<Rightarrow> seq_results (map (\<lambda>(i, v). rec c v (item_path path i)) (List.enumerate n (drop n xs))))"

text \<open>\<open>sum(1 for item in value if not validate_value(...))\<close>: every member is validated.\<close>

definition matching :: "validator \<Rightarrow> schema_node \<Rightarrow> pyval list \<Rightarrow> int result" where
  "matching rec c xs =
     bind_result (seq_results (map (\<lambda>v. bind_result (rec c v ''$'') (\<lambda>es. Inr [es = []])) xs))
       (\<lambda>oks. Inr (int (length (filter id oks))))"

definition validate_contains :: "validator \<Rightarrow> schema_node \<Rightarrow> pyval list \<Rightarrow> string \<Rightarrow> violations result" where
  "validate_contains rec n xs path = (case contains_schema n of
       None \<Rightarrow> Inr []
     | Some c \<Rightarrow> bind_result (matching rec c xs) (\<lambda>k.
         let lower = (case sn_min_contains (facts n) of None \<Rightarrow> 1 | Some m \<Rightarrow> m) in seq_results [
           check (k < lower) (path @ '': '' @ int_str k @ '' item(s) match `contains`, minContains is '' @ int_str lower),
           check_bound (sn_max_contains (facts n)) (\<lambda>m. m < k)
             (\<lambda>m. path @ '': '' @ int_str k @ '' item(s) match `contains`, maxContains is '' @ int_str m)]))"

definition validate_array :: "validator \<Rightarrow> schema_node \<Rightarrow> pyval list \<Rightarrow> string \<Rightarrow> violations result" where
  "validate_array rec n xs path =
     (let f = facts n; len = int (length xs); positions = list_or_empty (prefix_items n) in seq_results [
        check_bound (sn_min_items f) (\<lambda>m. len < m)
          (\<lambda>m. path @ '': '' @ int_str len @ '' items < minItems '' @ int_str m),
        check_bound (sn_max_items f) (\<lambda>m. m < len)
          (\<lambda>m. path @ '': '' @ int_str len @ '' items > maxItems '' @ int_str m),
        check (sn_unique_items f = Some True \<and> length (remdups (map py_repr xs)) \<noteq> length xs)
          (path @ '': items are not unique''),
        validate_prefix rec positions xs path,
        validate_items rec (items n) (length positions) xs path,
        validate_contains rec n xs path])"

section \<open>Objects\<close>

type_synonym payload = "(string, pyval) dict"

definition has_field :: "payload \<Rightarrow> string \<Rightarrow> bool" where
  "has_field d name = (name \<in> set (keys d))"

definition validate_required :: "schema_facts \<Rightarrow> payload \<Rightarrow> string \<Rightarrow> violations result" where
  "validate_required f d path = Inr (map (\<lambda>req. path @ '': missing required field '' @ quoted req)
     (filter (\<lambda>req. \<not> has_field d req) (sn_required f)))"

text \<open>\<open>for name, sub in subs.items(): if name in value: ...\<close>\<close>

definition for_present ::
  "(string \<times> 'a) list \<Rightarrow> payload \<Rightarrow> (string \<Rightarrow> 'a \<Rightarrow> pyval \<Rightarrow> violations result) \<Rightarrow> violations result" where
  "for_present subs d f = seq_results (map (\<lambda>(name, sub). case dict_get d name of
       None \<Rightarrow> Inr [] | Some v \<Rightarrow> f name sub v) subs)"

definition validate_properties :: "validator \<Rightarrow> schema_node \<Rightarrow> payload \<Rightarrow> string \<Rightarrow> violations result" where
  "validate_properties rec n d path =
     for_present (properties n) d (\<lambda>name sub v. rec sub v (path @ ''.'' @ name))"

definition validate_dependent_required :: "schema_facts \<Rightarrow> payload \<Rightarrow> string \<Rightarrow> violations result" where
  "validate_dependent_required f d path =
     for_present (sn_dependent_required f) d (\<lambda>trigger dependents v.
       Inr (map (\<lambda>dep. path @ '': '' @ quoted trigger @ '' is present, so '' @ quoted dep @ '' is required'')
         (filter (\<lambda>dep. \<not> has_field d dep) dependents)))"

definition validate_dependent_schemas :: "validator \<Rightarrow> schema_node \<Rightarrow> payload \<Rightarrow> string \<Rightarrow> violations result" where
  "validate_dependent_schemas rec n d path =
     for_present (dependent_schemas n) d (\<lambda>trigger sub v. rec sub (PDict d) path)"

definition validate_property_names :: "validator \<Rightarrow> schema_node option \<Rightarrow> payload \<Rightarrow> string \<Rightarrow> violations result" where
  "validate_property_names rec sub d path = (case sub of
       None \<Rightarrow> Inr []
     | Some c \<Rightarrow> seq_results (map (\<lambda>name. rec c (PStr name) (path @ ''.<name:'' @ name @ ''>'')) (keys d)))"

text \<open>A pattern compiles or not whatever it is searched in.\<close>

definition matches_name :: "regex \<Rightarrow> string \<Rightarrow> string \<Rightarrow> bool" where
  "matches_name search expression name = (search expression name = Some True)"

definition validate_pattern_properties :: "regex \<Rightarrow> validator \<Rightarrow> schema_node \<Rightarrow> payload \<Rightarrow> string \<Rightarrow> violations result" where
  "validate_pattern_properties search rec n d path = seq_results (map (\<lambda>(expression, sub).
     if search expression [] = None then
       Inr [path @ '': patternProperties key '' @ str_repr expression @ '' is not a valid regex'']
     else seq_results (map (\<lambda>(name, v). rec sub v (path @ ''.'' @ name))
       (filter (\<lambda>(name, v). matches_name search expression name) d))) (pattern_properties n))"

definition matched_by_pattern :: "regex \<Rightarrow> schema_node \<Rightarrow> string \<Rightarrow> bool" where
  "matched_by_pattern search n name = list_ex (\<lambda>expression.
     search expression [] \<noteq> None \<and> matches_name search expression name) (keys (pattern_properties n))"

definition validate_conditional :: "validator \<Rightarrow> schema_node \<Rightarrow> payload \<Rightarrow> string \<Rightarrow> violations result" where
  "validate_conditional rec n d path = (case if_schema n of
       None \<Rightarrow> Inr []
     | Some c \<Rightarrow> bind_result (rec c (PDict d) ''$'') (\<lambda>es.
         case (if es = [] then then_schema n else else_schema n) of
           None \<Rightarrow> Inr []
         | Some branch \<Rightarrow> rec branch (PDict d) path))"

definition undeclared :: "regex \<Rightarrow> schema_node \<Rightarrow> payload \<Rightarrow> string list" where
  "undeclared search n d =
     filter (\<lambda>name. name \<notin> set (keys (properties n)) \<and> \<not> matched_by_pattern search n name) (keys d)"

definition validate_additional ::
  "regex \<Rightarrow> validator \<Rightarrow> bool \<Rightarrow> schema_node \<Rightarrow> payload \<Rightarrow> string \<Rightarrow> violations result" where
  "validate_additional search rec forbid n d path =
     (let extra = undeclared search n d;
          msg = path @ '': undeclared field(s) '' @ py_repr (str_list (sort extra)) in
      if extra = [] then Inr [] else
      (case additional_properties n of
         AddlBool allowed \<Rightarrow> check (\<not> allowed) (msg @ '' (additionalProperties: false)'')
       | AddlNone \<Rightarrow> check forbid msg
       | AddlSchema sub \<Rightarrow> seq_results (map (\<lambda>name. rec sub (val_get d name) (path @ ''.'' @ name)) extra)))"

definition validate_object ::
  "regex \<Rightarrow> validator \<Rightarrow> bool \<Rightarrow> schema_node \<Rightarrow> payload \<Rightarrow> string \<Rightarrow> violations result" where
  "validate_object search rec forbid n d path = seq_results [
     validate_required (facts n) d path,
     validate_properties rec n d path,
     validate_dependent_required (facts n) d path,
     validate_dependent_schemas rec n d path,
     validate_property_names rec (property_names n) d path,
     validate_pattern_properties search rec n d path,
     validate_conditional rec n d path,
     validate_additional search rec forbid n d path]"

section \<open>Composition and the whole function\<close>

text \<open>\<open>any(not validate_value(v, ...) for v in variants)\<close> stops at the first match.\<close>

fun any_valid :: "violations result list \<Rightarrow> bool result" where
  "any_valid [] = Inr False"
| "any_valid (r # rs) = bind_result r (\<lambda>es. if es = [] then Inr True else any_valid rs)"

definition validate_variants ::
  "validator \<Rightarrow> schema_node list option \<Rightarrow> string \<Rightarrow> pyval \<Rightarrow> string \<Rightarrow> violations result" where
  "validate_variants rec variants label v path = (let vs = list_or_empty variants in
     if vs = [] then Inr [] else
     bind_result (any_valid (map (\<lambda>c. rec c v path) vs)) (\<lambda>ok.
       check (\<not> ok) (path @ '': does not match any '' @ label @ '' variant'')))"

definition validate_typed ::
  "regex \<Rightarrow> validator \<Rightarrow> bool \<Rightarrow> schema_node \<Rightarrow> pyval \<Rightarrow> string \<Rightarrow> violations result" where
  "validate_typed search rec forbid n v path =
     (if node_type n = Some ''string'' then
        (case v of PStr s \<Rightarrow> validate_string search (facts n) s path | _ \<Rightarrow> Inl AssertionError)
      else if node_type n = Some ''integer'' \<or> node_type n = Some ''number'' then
        (case num_of v of Some x \<Rightarrow> validate_number (facts n) v x path | None \<Rightarrow> Inl AssertionError)
      else if node_type n = Some ''array'' then
        (case v of PList xs \<Rightarrow> validate_array rec n xs path | _ \<Rightarrow> Inl AssertionError)
      else if node_type n = Some ''object'' then
        (case v of PDict d \<Rightarrow> validate_object search rec forbid n d path | _ \<Rightarrow> Inl AssertionError)
      else Inr [])"

definition validate_body ::
  "regex \<Rightarrow> validator \<Rightarrow> bool \<Rightarrow> schema_node \<Rightarrow> pyval \<Rightarrow> string \<Rightarrow> violations result" where
  "validate_body search rec forbid n v path =
     (let f = facts n; value = path @ '': value '' @ py_repr v in
      if v = PNone then check (\<not> sn_nullable f) (path @ '': null is not allowed'')
      else if sn_enum f \<noteq> None \<and> \<not> py_in v (list_or_empty (sn_enum f)) then
        Inr [value @ '' not in enum '' @ py_repr (PList (list_or_empty (sn_enum f)))]
      else if sn_const f \<noteq> PNone \<and> \<not> py_eq v (sn_const f) then
        Inr [value @ '' != const '' @ py_repr (sn_const f)]
      else if \<not> type_matches (sn_type f) v then
        Inr [path @ '': expected type '' @ opt_str (sn_type f) @ '', got '' @ py_typename v]
      else seq_results [
        validate_typed search rec forbid n v path,
        validate_variants rec (any_of n) ''anyOf'' v path,
        validate_variants rec (one_of n) ''oneOf'' v path])"

section \<open>The recursion\<close>

text \<open>The body calls \<open>rec\<close> on direct sub-schemas only.\<close>

definition same_below :: "schema_node \<Rightarrow> validator \<Rightarrow> validator \<Rightarrow> bool" where
  "same_below n rec rec' \<longleftrightarrow> (\<forall>c \<in> set (sub_schemas n). rec c = rec' c)"

lemma same_belowD: "same_below n rec rec' \<Longrightarrow> c \<in> set (sub_schemas n) \<Longrightarrow> rec c = rec' c"
  by (simp add: same_below_def)

lemma child_members [intro]:
  "(x, c) \<in> set (properties n) \<Longrightarrow> c \<in> set (sub_schemas n)"
  "(x, c) \<in> set (pattern_properties n) \<Longrightarrow> c \<in> set (sub_schemas n)"
  "(x, c) \<in> set (dependent_schemas n) \<Longrightarrow> c \<in> set (sub_schemas n)"
  "additional_properties n = AddlSchema c \<Longrightarrow> c \<in> set (sub_schemas n)"
  "items n = Some c \<Longrightarrow> c \<in> set (sub_schemas n)"
  "property_names n = Some c \<Longrightarrow> c \<in> set (sub_schemas n)"
  "contains_schema n = Some c \<Longrightarrow> c \<in> set (sub_schemas n)"
  "if_schema n = Some c \<Longrightarrow> c \<in> set (sub_schemas n)"
  "then_schema n = Some c \<Longrightarrow> c \<in> set (sub_schemas n)"
  "else_schema n = Some c \<Longrightarrow> c \<in> set (sub_schemas n)"
  "c \<in> set (list_or_empty (one_of n)) \<Longrightarrow> c \<in> set (sub_schemas n)"
  "c \<in> set (list_or_empty (any_of n)) \<Longrightarrow> c \<in> set (sub_schemas n)"
  "c \<in> set (list_or_empty (prefix_items n)) \<Longrightarrow> c \<in> set (sub_schemas n)"
  by (force simp: sub_schemas_def opt_nodes_def)+

lemma enumerate_zip_fst: "(i, b, a) \<in> set (List.enumerate n (zip xs ys)) \<Longrightarrow> b \<in> set xs"
  by (auto simp: enumerate_eq_zip dest: set_zip_rightD set_zip_leftD)

lemma seq_results_cong: "(\<And>x. x \<in> set xs \<Longrightarrow> f x = g x) \<Longrightarrow> seq_results (map f xs) = seq_results (map g xs)"
  by (rule arg_cong [where f = seq_results]) simp

lemma array_cong:
  assumes "same_below n rec rec'"
  shows "validate_array rec n xs path = validate_array rec' n xs path"
proof -
  note below = same_belowD [OF assms]
  have "validate_prefix rec (list_or_empty (prefix_items n)) xs path
      = validate_prefix rec' (list_or_empty (prefix_items n)) xs path"
    unfolding validate_prefix_def
    by (rule seq_results_cong) (auto dest!: enumerate_zip_fst simp: below child_members)
  moreover have "validate_items rec (items n) m xs path = validate_items rec' (items n) m xs path" for m
    using below [OF child_members(5)] by (simp add: validate_items_def split: option.splits)
  moreover have "validate_contains rec n xs path = validate_contains rec' n xs path"
    by (auto simp: validate_contains_def below child_members matching_def split: option.splits)
  ultimately show ?thesis by (simp add: validate_array_def Let_def)
qed

lemma object_cong:
  assumes "same_below n rec rec'"
  shows "validate_object search rec forbid n d path = validate_object search rec' forbid n d path"
proof -
  note below = same_belowD [OF assms]
  have "validate_properties rec n d path = validate_properties rec' n d path"
    unfolding validate_properties_def for_present_def
    by (rule seq_results_cong) (auto simp: below child_members split: option.split)
  moreover have "validate_dependent_schemas rec n d path = validate_dependent_schemas rec' n d path"
    unfolding validate_dependent_schemas_def for_present_def
    by (rule seq_results_cong) (auto simp: below child_members split: option.split)
  moreover have "validate_property_names rec (property_names n) d path
      = validate_property_names rec' (property_names n) d path"
    using below [OF child_members(6)] by (simp add: validate_property_names_def split: option.splits)
  moreover have "validate_pattern_properties search rec n d path = validate_pattern_properties search rec' n d path"
    unfolding validate_pattern_properties_def
    by (rule seq_results_cong) (auto simp: below child_members)
  moreover have "validate_conditional rec n d path = validate_conditional rec' n d path"
    using below [OF child_members(8)] below [OF child_members(9)] below [OF child_members(10)]
    by (auto simp: validate_conditional_def intro!: arg_cong2 [where f = bind_result] split: option.splits)
  moreover have "validate_additional search rec forbid n d path = validate_additional search rec' forbid n d path"
    using below [OF child_members(4)] by (simp add: validate_additional_def Let_def split: additional.splits)
  ultimately show ?thesis by (simp add: validate_object_def)
qed

lemma variants_cong:
  "(\<And>c. c \<in> set (list_or_empty vs) \<Longrightarrow> rec c = rec' c) \<Longrightarrow>
   validate_variants rec vs label v path = validate_variants rec' vs label v path"
  by (simp add: validate_variants_def Let_def cong: map_cong)

lemma validate_body_cong [fundef_cong]:
  assumes "search = search'" "forbid = forbid'" "n = n'" "v = v'" "path = path'"
    and "\<And>c w q. c \<in> set (sub_schemas n') \<Longrightarrow> rec c w q = rec' c w q"
  shows "validate_body search rec forbid n v path = validate_body search' rec' forbid' n' v' path'"
proof -
  have below: "same_below n rec rec'" using assms by (auto simp: same_below_def fun_eq_iff)
  have "validate_typed search rec forbid n v path = validate_typed search rec' forbid n v path"
    by (simp add: validate_typed_def array_cong [OF below] object_cong [OF below] split: pyval.splits)
  moreover have "validate_variants rec (any_of n) label v path = validate_variants rec' (any_of n) label v path"
    "validate_variants rec (one_of n) label v path = validate_variants rec' (one_of n) label v path" for label
    by (auto intro!: variants_cong same_belowD [OF below])
  ultimately show ?thesis using assms(1-5) by (simp add: validate_body_def Let_def)
qed

function validate_node ::
  "regex \<Rightarrow> bool \<Rightarrow> schema_node \<Rightarrow> pyval \<Rightarrow> string \<Rightarrow> violations result" where
  "validate_node search forbid n v path =
     validate_body search (\<lambda>sub w q. validate_node search False sub w q) forbid n v path"
  by pat_completeness auto
termination
  by (relation "measure (\<lambda>(search, forbid, n, v, path). size n)") (simp_all add: sub_schema_size)

declare validate_node.simps [simp del]

definition validate_value :: "regex \<Rightarrow> bool \<Rightarrow> schema_node option \<Rightarrow> pyval \<Rightarrow> string \<Rightarrow> violations result" where
  "validate_value search forbid schema v path = (case schema of
       None \<Rightarrow> Inr []
     | Some n \<Rightarrow> validate_node search forbid n v path)"

end
