(* ===== verification/OpenApiSchema.thy ===== *)
theory OpenApiSchema
  imports Model
begin

text \<open>
  The first half of \<open>apiverity/specs/openapi/parser.py\<close>: references and schemas. A document
  is the value \<open>json.loads\<close> yields; a JSON source has pointer-only provenance, so a location is
  the file and the pointer.

  The parser appends to \<open>self.findings\<close> and never reads them, so a method returns its value
  with the findings it adds. \<open>to_schema\<close> calls itself without a bound of its own: what stops
  it is Python's recursion limit, the argument \<open>fuel\<close>, and running out of it is
  \<open>RecursionError\<close>. Constraint attributes are assigned without validation; a value outside the
  type the model declares (\<open>maxLength: "5"\<close>) is kept by the source and has no place in the
  record, which is the outcome \<open>Untyped\<close>.
\<close>

section \<open>Results with findings\<close>

datatype load_error = Raised py_error | RecursionError | Untyped string

type_synonym 'a load = "load_error + ('a \<times> finding list)"

definition gives :: "'a \<Rightarrow> 'a load" where
  "gives a = Inr (a, [])"

definition bind_load :: "'a load \<Rightarrow> ('a \<Rightarrow> 'b load) \<Rightarrow> 'b load" where
  "bind_load m f = (case m of
       Inl e \<Rightarrow> Inl e
     | Inr (a, fs) \<Rightarrow> (case f a of Inl e \<Rightarrow> Inl e | Inr (b, gs) \<Rightarrow> Inr (b, fs @ gs)))"

definition reports :: "finding \<Rightarrow> 'a \<Rightarrow> 'a load" where
  "reports f a = Inr (a, [f])"

definition raises :: "py_error \<Rightarrow> 'a load" where
  "raises e = Inl (Raised e)"

text \<open>A loop that keeps what its body does not answer with \<open>None\<close>.\<close>

fun keep_some :: "('a \<Rightarrow> 'b option load) \<Rightarrow> 'a list \<Rightarrow> 'b list load" where
  "keep_some f [] = gives []"
| "keep_some f (x # xs) = bind_load (f x) (\<lambda>y. bind_load (keep_some f xs) (\<lambda>ys.
     gives (case y of None \<Rightarrow> ys | Some b \<Rightarrow> b # ys)))"

lemma bind_load_simps [simp]:
  "bind_load (Inl e) f = Inl e"
  "bind_load (gives a) f = f a"
  by (auto simp: bind_load_def gives_def split: sum.split)

lemma bind_load_Inr:
  "bind_load m f = Inr (b, hs) \<longleftrightarrow> (\<exists>a fs gs. m = Inr (a, fs) \<and> f a = Inr (b, gs) \<and> hs = fs @ gs)"
  by (auto simp: bind_load_def split: sum.splits)

section \<open>References\<close>

definition loc :: "string \<Rightarrow> string \<Rightarrow> source_location option" where
  "loc file pointer = Some \<lparr>loc_file = file, loc_line = 0, loc_column = 0, loc_pointer = pointer\<rparr>"

definition escape_pointer :: "string \<Rightarrow> string" where
  "escape_pointer part = str_replace ''/'' ''~1'' (str_replace ''~'' ''~0'' part)"

definition unescape_pointer :: "string \<Rightarrow> string" where
  "unescape_pointer part = str_replace ''~0'' ''~'' (str_replace ''~1'' ''/'' part)"

definition spec_finding :: "string \<Rightarrow> severity \<Rightarrow> string \<Rightarrow> source_location option \<Rightarrow> finding" where
  "spec_finding rule_id sev message location = \<lparr>f_rule_id = rule_id, f_severity = sev, f_message = message,
     f_operation_key = None, f_location = location, f_new_location = None, f_change_id = None,
     f_hint = None, f_metadata = []\<rparr>"

text \<open>\<open>xs[int(part)]\<close>, from the end for a negative index.\<close>

definition list_item :: "pyval list \<Rightarrow> string \<Rightarrow> pyval option" where
  "list_item xs part = (case int_of_text part of
       Inl e \<Rightarrow> None
     | Inr i \<Rightarrow> if 0 \<le> i \<and> nat i < length xs then Some (xs ! nat i)
         else if i < 0 \<and> nat (- i) \<le> length xs then Some (xs ! (length xs - nat (- i)))
         else None)"

fun resolve_parts :: "string \<Rightarrow> string \<Rightarrow> string \<Rightarrow> string list \<Rightarrow> pyval \<Rightarrow> pyval load" where
  "resolve_parts file ref pointer [] node = gives node"
| "resolve_parts file ref pointer (raw # parts) node =
     (let part = unescape_pointer raw;
          unresolved = (\<lambda>detail. reports (spec_finding ''SPEC-REF-UNRESOLVED'' ERROR
            (''unresolved reference '' @ quoted ref @ detail) (loc file pointer)) PNone)
      in case node of
           PDict d \<Rightarrow> (case map_of d part of
               None \<Rightarrow> unresolved ('' (missing segment '' @ quoted part @ '')'')
             | Some v \<Rightarrow> resolve_parts file ref pointer parts v)
         | PList xs \<Rightarrow> (case list_item xs part of
               None \<Rightarrow> unresolved []
             | Some v \<Rightarrow> resolve_parts file ref pointer parts v)
         | _ \<Rightarrow> unresolved '': traversal dead-end'')"

definition resolve_ref :: "string \<Rightarrow> pyval \<Rightarrow> string \<Rightarrow> string \<Rightarrow> pyval load" where
  "resolve_ref file root ref pointer =
     (if starts_with ref ''#/'' then resolve_parts file ref pointer (split_char (CHR ''/'') (drop 2 ref)) root
      else gives PNone)"

definition ref_of :: "pyval \<Rightarrow> string option" where
  "ref_of node = (case node of PDict d \<Rightarrow> map_option py_str (map_of d ''$ref'') | _ \<Rightarrow> None)"

text \<open>The chain of references from a node; \<open>hops\<close> counts the ones left before the cap.\<close>

fun deref_chain :: "string \<Rightarrow> pyval \<Rightarrow> string \<Rightarrow> string list \<Rightarrow> nat \<Rightarrow> pyval \<Rightarrow> pyval load" where
  "deref_chain file root pointer seen hops node = (case ref_of node of
       None \<Rightarrow> gives node
     | Some ref \<Rightarrow>
         if ref \<in> set seen then reports (spec_finding ''SPEC-REF-CYCLE'' ERROR
           (''circular reference detected at '' @ quoted ref) (loc file pointer)) PNone
         else bind_load (resolve_ref file root ref pointer) (\<lambda>target.
           if target = PNone then gives PNone
           else (case hops of
               0 \<Rightarrow> reports (spec_finding ''SPEC-REF-DEEP'' ERROR
                 (''reference chain too deep at '' @ quoted ref) (loc file pointer)) PNone
             | Suc h \<Rightarrow> deref_chain file root pointer (ref # seen) h target)))"

declare deref_chain.simps [simp del]

definition deref :: "string \<Rightarrow> pyval \<Rightarrow> pyval \<Rightarrow> string \<Rightarrow> pyval load" where
  "deref file root node pointer = deref_chain file root pointer [] 64 node"

section \<open>The attributes of a schema\<close>

text \<open>A \<open>str | None\<close> argument of a pydantic constructor.\<close>

definition str_field :: "pyval \<Rightarrow> string option load" where
  "str_field v = (case v of PNone \<Rightarrow> gives None | PStr s \<Rightarrow> gives (Some s)
     | _ \<Rightarrow> raises (ValueError ''Input should be a valid string''))"

text \<open>\<open>setattr(out, attr, node[key])\<close> for the declared types of the attributes.\<close>

definition assigned :: "(pyval \<Rightarrow> 'a option) \<Rightarrow> (string \<times> pyval) list \<Rightarrow> string \<Rightarrow> 'a option load" where
  "assigned typed d k = (case val_get d k of
       PNone \<Rightarrow> gives None
     | v \<Rightarrow> (case typed v of None \<Rightarrow> Inl (Untyped k) | Some a \<Rightarrow> gives (Some a)))"

fun as_int :: "pyval \<Rightarrow> int option" where
  "as_int (PInt i) = Some i"
| "as_int v = None"

fun as_bool :: "pyval \<Rightarrow> bool option" where
  "as_bool (PBool b) = Some b"
| "as_bool v = None"

fun as_str :: "pyval \<Rightarrow> string option" where
  "as_str (PStr s) = Some s"
| "as_str v = None"

fun as_list :: "pyval \<Rightarrow> pyval list option" where
  "as_list (PList xs) = Some xs"
| "as_list v = None"

fun as_dict :: "pyval \<Rightarrow> (string \<times> pyval) list option" where
  "as_dict (PDict d) = Some d"
| "as_dict v = None"

definition is_dict :: "pyval \<Rightarrow> bool" where
  "is_dict v = (as_dict v \<noteq> None)"

definition is_dict_or_bool :: "pyval \<Rightarrow> bool" where
  "is_dict_or_bool v = (is_dict v \<or> as_bool v \<noteq> None)"

text \<open>\<open>node.get(k)\<close> as a list, or nothing.\<close>

definition list_at :: "(string \<times> pyval) list \<Rightarrow> string \<Rightarrow> pyval list" where
  "list_at d k = list_or_empty (as_list (val_get d k))"

definition dict_at :: "(string \<times> pyval) list \<Rightarrow> string \<Rightarrow> (string \<times> pyval) list" where
  "dict_at d k = list_or_empty (as_dict (val_get d k))"

definition declared_type :: "(string \<times> pyval) list \<Rightarrow> pyval \<times> bool" where
  "declared_type d =
     (let declared = val_get d ''type''; nullable = (val_get d ''nullable'' = PBool True) in
      case declared of
        PList xs \<Rightarrow>
          (let all_types = map py_str xs; types = filter (\<lambda>t. t \<noteq> ''null'') all_types in
           (PStr (if types = [] then ''null'' else join ''|'' types), nullable \<or> ''null'' \<in> set all_types))
      | _ \<Rightarrow> (declared, nullable))"

definition discriminator_of :: "(string \<times> pyval) list \<Rightarrow> (string, pyval) dict option load" where
  "discriminator_of d = (case val_get d ''discriminator'' of
       PDict disc \<Rightarrow>
         (let found = (\<lambda>m. gives (Some [(''propertyName'', val_get disc ''propertyName''), (''mapping'', PDict m)])) in
          if \<not> truthy (val_get disc ''mapping'') then found []
          else (case val_get disc ''mapping'' of
              PDict m \<Rightarrow> found m
            | PList xs \<Rightarrow> Inl (Untyped ''mapping'')
            | PStr s \<Rightarrow> raises (ValueError ''dictionary update sequence'')
            | _ \<Rightarrow> raises (TypeError ''object is not iterable'')))
     | _ \<Rightarrow> gives None)"

definition dependent_required_of :: "(string \<times> pyval) list \<Rightarrow> (string, string list) dict" where
  "dependent_required_of d = concat (map (\<lambda>(name, v). case v of
       PList names \<Rightarrow> [(name, sort (map py_str names))] | _ \<Rightarrow> []) (dict_at d ''dependentRequired''))"

definition schema_attributes :: "string \<Rightarrow> (string \<times> pyval) list \<Rightarrow> string \<Rightarrow> schema_facts load" where
  "schema_attributes file d pointer =
     (let (declared, nullable) = declared_type d in
      bind_load (str_field declared) (\<lambda>type.
      bind_load (str_field (val_get d ''format'')) (\<lambda>format.
      bind_load (str_field (val_get d ''title'')) (\<lambda>title.
      bind_load (str_field (val_get d ''description'')) (\<lambda>description.
      bind_load (assigned as_int d ''minProperties'') (\<lambda>min_properties.
      bind_load (assigned as_int d ''maxProperties'') (\<lambda>max_properties.
      bind_load (assigned as_int d ''minItems'') (\<lambda>min_items.
      bind_load (assigned as_int d ''maxItems'') (\<lambda>max_items.
      bind_load (assigned as_bool d ''uniqueItems'') (\<lambda>unique_items.
      bind_load (assigned as_int d ''minLength'') (\<lambda>min_length.
      bind_load (assigned as_int d ''maxLength'') (\<lambda>max_length.
      bind_load (assigned as_str d ''pattern'') (\<lambda>pattern.
      bind_load (assigned num_of d ''minimum'') (\<lambda>minimum.
      bind_load (assigned num_of d ''maximum'') (\<lambda>maximum.
      bind_load (assigned num_of d ''exclusiveMinimum'') (\<lambda>exclusive_minimum.
      bind_load (assigned num_of d ''exclusiveMaximum'') (\<lambda>exclusive_maximum.
      bind_load (assigned num_of d ''multipleOf'') (\<lambda>multiple_of.
        gives (empty_facts\<lparr>
          sn_type := type, sn_format := format, sn_title := title, sn_description := description,
          sn_nullable := nullable, sn_deprecated := truthy (val_get d ''deprecated''),
          sn_data_classification := as_str (val_get d ''x-data-classification''),
          sn_enum := as_list (val_get d ''enum''), sn_const := val_get d ''const'',
          sn_default := val_get d ''default'', sn_example := val_get d ''example'',
          sn_required := map py_str (list_at d ''required''),
          sn_min_properties := min_properties, sn_max_properties := max_properties,
          sn_min_items := min_items, sn_max_items := max_items, sn_unique_items := unique_items,
          sn_min_length := min_length, sn_max_length := max_length, sn_pattern := pattern,
          sn_minimum := minimum, sn_maximum := maximum, sn_exclusive_minimum := exclusive_minimum,
          sn_exclusive_maximum := exclusive_maximum, sn_multiple_of := multiple_of,
          sn_min_contains := as_int (val_get d ''minContains''),
          sn_max_contains := as_int (val_get d ''maxContains''),
          sn_dependent_required := dependent_required_of d,
          sn_source_location := loc file pointer\<rparr>)))))))))))))))))))"

section \<open>Sub-schemas\<close>

type_synonym schema_call = "pyval \<Rightarrow> string \<Rightarrow> schema_node option load"

definition named_schemas :: "schema_call \<Rightarrow> (string \<times> pyval) list \<Rightarrow> string \<Rightarrow> (string \<times> schema_node) list load" where
  "named_schemas rec subs base = keep_some (\<lambda>(name, sub).
     bind_load (rec sub (base @ ''/'' @ escape_pointer name)) (\<lambda>c. gives (map_option (Pair name) c))) subs"

definition listed_schemas :: "schema_call \<Rightarrow> pyval \<Rightarrow> string \<Rightarrow> schema_node list option load" where
  "listed_schemas rec v base = (case v of
       PList subs \<Rightarrow> bind_load (keep_some (\<lambda>(i, sub). rec sub (base @ ''/'' @ int_str (int i))) (List.enumerate 0 subs))
         (\<lambda>cs. gives (Some cs))
     | _ \<Rightarrow> gives None)"

definition schema_at :: "schema_call \<Rightarrow> (pyval \<Rightarrow> bool) \<Rightarrow> pyval \<Rightarrow> string \<Rightarrow> schema_node option load" where
  "schema_at rec allowed v pointer = (if allowed v then rec v pointer else gives None)"

definition additional_of :: "schema_call \<Rightarrow> pyval \<Rightarrow> string \<Rightarrow> schema_node additional load" where
  "additional_of rec v pointer = (case v of
       PBool b \<Rightarrow> gives (AddlBool b)
     | PDict d \<Rightarrow> bind_load (rec v pointer) (\<lambda>c. gives (case c of None \<Rightarrow> AddlNone | Some m \<Rightarrow> AddlSchema m))
     | _ \<Rightarrow> gives AddlNone)"

definition convert_object :: "string \<Rightarrow> schema_call \<Rightarrow> (string \<times> pyval) list \<Rightarrow> string \<Rightarrow> schema_node load" where
  "convert_object file rec d pointer =
     bind_load (schema_attributes file d pointer) (\<lambda>f.
     bind_load (named_schemas rec (dict_at d ''properties'') (pointer @ ''/properties'')) (\<lambda>props.
     bind_load (additional_of rec (val_get d ''additionalProperties'') (pointer @ ''/additionalProperties'')) (\<lambda>addl.
     bind_load (schema_at rec is_dict_or_bool (val_get d ''items'') (pointer @ ''/items'')) (\<lambda>item.
     bind_load (discriminator_of d) (\<lambda>discriminator.
     bind_load (listed_schemas rec (val_get d ''oneOf'') (pointer @ ''/oneOf'')) (\<lambda>ones.
     bind_load (listed_schemas rec (val_get d ''anyOf'') (pointer @ ''/anyOf'')) (\<lambda>anys.
     bind_load (listed_schemas rec (val_get d ''allOf'') (pointer @ ''/allOf'')) (\<lambda>alls.
     bind_load (listed_schemas rec (val_get d ''prefixItems'') (pointer @ ''/prefixItems'')) (\<lambda>positions.
     bind_load (schema_at rec is_dict_or_bool (val_get d ''contains'') (pointer @ ''/contains'')) (\<lambda>cont.
     bind_load (named_schemas rec (dict_at d ''patternProperties'') (pointer @ ''/patternProperties'')) (\<lambda>patterns.
     bind_load (schema_at rec is_dict (val_get d ''propertyNames'') (pointer @ ''/propertyNames'')) (\<lambda>names.
     bind_load (named_schemas rec (dict_at d ''dependentSchemas'') (pointer @ ''/dependentSchemas'')) (\<lambda>deps.
     bind_load (schema_at rec is_dict (val_get d ''if'') (pointer @ ''/if'')) (\<lambda>ifs.
     bind_load (schema_at rec is_dict (val_get d ''then'') (pointer @ ''/then'')) (\<lambda>thens.
     bind_load (schema_at rec is_dict (val_get d ''else'') (pointer @ ''/else'')) (\<lambda>elses.
       gives (SchemaNode (f\<lparr>sn_discriminator := discriminator\<rparr>) props addl item ones anys alls None positions cont
         patterns names deps ifs thens elses)))))))))))))))))"

definition convert_schema :: "string \<Rightarrow> pyval \<Rightarrow> schema_call \<Rightarrow> pyval \<Rightarrow> string \<Rightarrow> schema_node option load" where
  "convert_schema file root rec node pointer =
     bind_load (deref file root node pointer) (\<lambda>target. case target of
       PNone \<Rightarrow> gives None
     | PDict d \<Rightarrow> bind_load (convert_object file rec d pointer) (\<lambda>n. gives (Some n))
     | _ \<Rightarrow> reports (spec_finding ''SPEC-SCHEMA-INVALID'' ERROR
         (''schema at '' @ quoted pointer @ '' is not an object'') (loc file pointer)) None)"

fun to_schema :: "nat \<Rightarrow> string \<Rightarrow> pyval \<Rightarrow> pyval \<Rightarrow> string \<Rightarrow> schema_node option load" where
  "to_schema 0 file root node pointer = Inl RecursionError"
| "to_schema (Suc fuel) file root node pointer = convert_schema file root (to_schema fuel file root) node pointer"

end
