(* ===== verification/Infer.thy ===== *)
theory Infer
  imports Validation OpenApiSchema
begin

text \<open>
  \<open>apiverity/specs/infer.py\<close>, the part that describes bodies: \<open>observe_value\<close> folds recorded JSON
  values into a description of each position, \<open>inferred_schema\<close> (\<open>to_schema\<close>) writes the
  description as a JSON Schema. Sets are lists without repetition; the format patterns are
  searched with the engine \<open>search\<close>, all of them being anchored at the start.
\<close>

definition MIN_SAMPLES_FOR_REQUIRED :: nat where
  "MIN_SAMPLES_FOR_REQUIRED = 3"

definition MIN_SAMPLES_FOR_ENUM :: nat where
  "MIN_SAMPLES_FOR_ENUM = 8"

definition MAX_ENUM_VALUES :: nat where
  "MAX_ENUM_VALUES = 12"

datatype observed = Observed
  (ob_types: "string list")
  (ob_seen: nat)
  (ob_values: "pyval list")
  (ob_properties: "(string \<times> observed) list")
  (ob_items: "observed option")
  (ob_formats: "string list")

definition unseen :: observed where
  "unseen = Observed [] 0 [] [] None []"

definition FORMAT_HINTS :: "(string \<times> string) list" where
  "FORMAT_HINTS = [
     (''uuid'', ''^[0-9a-fA-F]{8}-[0-9a-fA-F]{4}-[0-9a-fA-F]{4}-[0-9a-fA-F]{4}-[0-9a-fA-F]{12}$''),
     (''date-time'', ''^'' @ [CHR 0x5C] @ ''d{4}-'' @ [CHR 0x5C] @ ''d{2}-'' @ [CHR 0x5C] @ ''d{2}[T ]'' @ [CHR 0x5C] @ ''d{2}:''
        @ [CHR 0x5C] @ ''d{2}:'' @ [CHR 0x5C] @ ''d{2}''),
     (''date'', ''^'' @ [CHR 0x5C] @ ''d{4}-'' @ [CHR 0x5C] @ ''d{2}-'' @ [CHR 0x5C] @ ''d{2}$''),
     (''email'', ''^[^@'' @ [CHR 0x5C] @ ''s]+@[^@'' @ [CHR 0x5C] @ ''s]+'' @ [CHR 0x5C] @ ''.[^@'' @ [CHR 0x5C] @ ''s]+$''),
     (''uri'', ''^https?://'' @ [CHR 0x5C] @ ''S+$'')]"

definition format_of :: "regex \<Rightarrow> string \<Rightarrow> string list" where
  "format_of search s = (case find (\<lambda>h. search (snd h) s = Some True) FORMAT_HINTS of
       None \<Rightarrow> [] | Some h \<Rightarrow> [fst h])"

definition json_type :: "pyval \<Rightarrow> string" where
  "json_type v = (case v of
       PNone \<Rightarrow> ''null'' | PBool b \<Rightarrow> ''boolean'' | PInt i \<Rightarrow> ''integer'' | PFloat x \<Rightarrow> ''number''
     | PStr s \<Rightarrow> ''string'' | PList xs \<Rightarrow> ''array'' | PDict d \<Rightarrow> ''object'')"

definition keep_value :: "pyval \<Rightarrow> pyval list \<Rightarrow> pyval list" where
  "keep_value v vs = (if length vs < 64 then vs @ [v] else vs)"

definition or_unseen :: "observed option \<Rightarrow> observed" where
  "or_unseen x = (case x of None \<Rightarrow> unseen | Some n \<Rightarrow> n)"

fun observe_value :: "regex \<Rightarrow> pyval \<Rightarrow> observed \<Rightarrow> observed" where
  "observe_value search v (Observed types seen vals props item formats) =
     (let types = List.insert (json_type v) types; seen = Suc seen in
      case v of
        PStr s \<Rightarrow> Observed types seen (keep_value v vals) props item (fold List.insert (format_of search s) formats)
      | PInt i \<Rightarrow> Observed types seen (keep_value v vals) props item formats
      | PFloat x \<Rightarrow> Observed types seen (keep_value v vals) props item formats
      | PBool b \<Rightarrow> Observed types seen (keep_value v vals) props item formats
      | PDict d \<Rightarrow> Observed types seen vals
          (fold (\<lambda>kv ps. dict_set (fst kv) (observe_value search (snd kv) (or_unseen (dict_get ps (fst kv)))) ps) d props) item formats
      | PList xs \<Rightarrow> Observed types seen vals props
          (fold (\<lambda>x it. Some (observe_value search x (or_unseen it))) xs item) formats
      | PNone \<Rightarrow> Observed types seen vals props item formats)"

section \<open>The schema\<close>

definition concrete_types :: "observed \<Rightarrow> string list" where
  "concrete_types node = sorted_set (filter (\<lambda>t. t \<noteq> ''null'') (ob_types node))"

definition type_entry :: "observed \<Rightarrow> (string \<times> pyval) list" where
  "type_entry node = (let concrete = concrete_types node in
     if concrete = [] then []
     else if ''null'' \<in> set (ob_types node) then [(''type'', PList (map PStr (concrete @ [''null''])))]
     else if length concrete = 1 then [(''type'', PStr (hd concrete))]
     else [(''type'', PList (map PStr concrete))])"

definition format_entry :: "observed \<Rightarrow> (string \<times> pyval) list" where
  "format_entry node = (case ob_formats node of [f] \<Rightarrow> [(''format'', PStr f)] | _ \<Rightarrow> [])"

definition required_entry :: "observed \<Rightarrow> (string \<times> pyval) list" where
  "required_entry node =
     (let required = sort (map fst (filter (\<lambda>(name, child). ob_seen child = ob_seen node
            \<and> MIN_SAMPLES_FOR_REQUIRED \<le> ob_seen node) (ob_properties node)))
      in if required = [] then [] else [(''required'', PList (map PStr required))])"

definition enum_entry :: "bool \<Rightarrow> observed \<Rightarrow> (string \<times> pyval) list" where
  "enum_entry infer_enums node =
     (if infer_enums \<and> set (ob_types node) = {''string''} \<and> MIN_SAMPLES_FOR_ENUM \<le> ob_seen node \<and> ob_values node \<noteq> [] then
        let distinct_values = sorted_set (map py_str (ob_values node)) in
        if length distinct_values \<le> MAX_ENUM_VALUES then [(''enum'', PList (map PStr distinct_values))] else []
      else [])"

fun inferred_schema :: "bool \<Rightarrow> observed \<Rightarrow> pyval" where
  "inferred_schema infer_enums (Observed types seen vals props item formats) =
     (let node = Observed types seen vals props item formats in PDict (
        type_entry node @ format_entry node
        @ (if props = [] then [] else
             (''properties'', PDict (sort_key fst (map (\<lambda>kv. (fst kv, inferred_schema infer_enums (snd kv))) props)))
             # required_entry node)
        @ (case item of None \<Rightarrow> [] | Some n \<Rightarrow> [(''items'', inferred_schema infer_enums n)])
        @ enum_entry infer_enums node
        @ [(''x-apiverity-samples'', PInt (int seen))]))"

text \<open>What a list of samples says.\<close>

definition observed_from :: "regex \<Rightarrow> pyval list \<Rightarrow> observed" where
  "observed_from search vs = fold (observe_value search) vs unseen"

end
