(* ===== verification/InferDocument.thy ===== *)
theory InferDocument
  imports Infer ChangeIds
begin

text \<open>
  The rest of \<open>apiverity/specs/infer.py\<close>: folding paths into templates and writing the
  document. A recorded request is the record \<open>exchange_entry\<close> of what the code reads of its
  dict, a field being present when it has the type the code asks for. \<open>urlparse\<close> is the
  parameter \<open>url_path\<close>, \<open>isidentifier\<close> with the \<open>fullmatch\<close> beside it the parameter \<open>is_word\<close>.
\<close>

section \<open>Path templates\<close>

definition MIN_SIBLINGS_FOR_PARAMETER :: nat where
  "MIN_SIBLINGS_FOR_PARAMETER = 4"

definition INTEGER_RE :: string where
  "INTEGER_RE = ''^'' @ [CHR 0x5C] @ ''d+$''"

definition looks_like_identifier :: "regex \<Rightarrow> string \<Rightarrow> string option" where
  "looks_like_identifier search segment = map_option fst (find (\<lambda>h. search (snd h) segment = Some True)
     [(''uuid'', ''^[0-9a-fA-F]{8}-[0-9a-fA-F]{4}-[0-9a-fA-F]{4}-[0-9a-fA-F]{4}-[0-9a-fA-F]{12}$''),
      (''integer'', INTEGER_RE), (''hex'', ''^[0-9a-fA-F]{16,}$''), (''prefixed id'', ''^[a-z]{2,10}_[A-Za-z0-9]{8,}$'')])"

text \<open>\<open>while name in taken\<close>: one of the next names is free, so as many steps as there are
  names taken are enough.\<close>

fun free_name :: "nat \<Rightarrow> string \<Rightarrow> nat \<Rightarrow> string \<Rightarrow> string list \<Rightarrow> string" where
  "free_name 0 base index name taken = name"
| "free_name (Suc fuel) base index name taken =
     (if name \<in> set taken then free_name fuel base (Suc index) (base @ nat_str index) taken else name)"

definition ascii_alnum :: "char \<Rightarrow> bool" where
  "ascii_alnum c = (let n = of_char c :: nat in (48 \<le> n \<and> n \<le> 57) \<or> (65 \<le> n \<and> n \<le> 90) \<or> (97 \<le> n \<and> n \<le> 122))"

definition parameter_base :: "(string \<Rightarrow> bool) \<Rightarrow> string option \<Rightarrow> string" where
  "parameter_base is_word parent = (case parent of
       None \<Rightarrow> ''id''
     | Some p \<Rightarrow> if p \<noteq> [] \<and> is_word p then
         filter ascii_alnum (if last p = CHR ''s'' \<and> 2 < str_len p then butlast p else p) @ ''Id''
       else ''id'')"

definition parameter_name :: "(string \<Rightarrow> bool) \<Rightarrow> string option \<Rightarrow> string list \<Rightarrow> string" where
  "parameter_name is_word parent taken =
     (let base = parameter_base is_word parent in free_name (Suc (length taken)) base 2 base taken)"

datatype path_node = PathNode (pn_children: "(string \<times> path_node) list") (pn_terminal: nat)

definition segments_of :: "string \<Rightarrow> string list" where
  "segments_of path = filter (\<lambda>s. s \<noteq> []) (split_char (CHR ''/'') path)"

definition new_node :: path_node where
  "new_node = PathNode [] 0"

fun add_path :: "string list \<Rightarrow> path_node \<Rightarrow> path_node" where
  "add_path [] node = PathNode (pn_children node) (Suc (pn_terminal node))"
| "add_path (s # rest) node = PathNode
     (dict_set s (add_path rest (case dict_get (pn_children node) s of None \<Rightarrow> new_node | Some c \<Rightarrow> c)) (pn_children node))
     (pn_terminal node)"

definition path_tree :: "string list \<Rightarrow> path_node" where
  "path_tree paths = fold (\<lambda>path. add_path (segments_of path)) paths new_node"

record templating =
  tp_template :: string
  tp_reason :: string

text \<open>Whether a segment becomes a parameter, and why.\<close>

definition collapse_reason :: "regex \<Rightarrow> string list \<Rightarrow> string \<Rightarrow> string option" where
  "collapse_reason search siblings segment = (case looks_like_identifier search segment of
       None \<Rightarrow> None
     | Some kind \<Rightarrow>
         if 1 < length siblings \<and> list_all (\<lambda>s. looks_like_identifier search s \<noteq> None) siblings then
           Some (''every sibling of '' @ str_repr segment @ '' looks like a '' @ kind)
         else if MIN_SIBLINGS_FOR_PARAMETER \<le> length siblings then
           Some (nat_str (length siblings) @ '' distinct values at this position; a literal set that '' @ ''large is not credible'')
         else None)"

fun render_path :: "regex \<Rightarrow> (string \<Rightarrow> bool) \<Rightarrow> string option \<Rightarrow> string list \<Rightarrow> path_node \<Rightarrow> string list
    \<Rightarrow> string list \<times> string list" where
  "render_path search is_word parent taken node [] = ([], [])"
| "render_path search is_word parent taken node (segment # rest) =
     (let child = (case dict_get (pn_children node) segment of None \<Rightarrow> new_node | Some c \<Rightarrow> c) in
      case collapse_reason search (keys (pn_children node)) segment of
        None \<Rightarrow> (let (rendered, reasons) = render_path search is_word (Some segment) taken child rest in (segment # rendered, reasons))
      | Some reason \<Rightarrow>
          (let name = parameter_name is_word parent taken;
               (rendered, reasons) = render_path search is_word (Some segment) (name # taken) child rest
           in ((''{'' @ name @ ''}'') # rendered, reason # reasons)))"

definition template_of :: "regex \<Rightarrow> (string \<Rightarrow> bool) \<Rightarrow> path_node \<Rightarrow> string \<Rightarrow> templating" where
  "template_of search is_word root path =
     (let (rendered, reasons) = render_path search is_word None [] root (segments_of path) in
      \<lparr>tp_template = (if rendered = [] then ''/'' else ''/'' @ join ''/'' rendered),
       tp_reason = (let reason = join ''; '' reasons in if reason = [] then ''every segment was a stable literal'' else reason)\<rparr>)"

definition infer_templates :: "regex \<Rightarrow> (string \<Rightarrow> bool) \<Rightarrow> string list \<Rightarrow> (string, templating) dict" where
  "infer_templates search is_word paths =
     (let root = path_tree paths in dict_of (map (\<lambda>path. (path, template_of search is_word root path)) paths))"

section \<open>Operations and document\<close>

record exchange_entry =
  xe_method :: "string option"
  xe_url :: "string option"
  xe_status :: "int option"
  xe_response_body :: pyval
  xe_started_at :: "string option"

record inferred_operation =
  io_method :: string
  io_template :: string
  io_statuses :: "(int, observed) dict"
  io_requests :: nat
  io_templating_reason :: string

definition io_mime :: string where
  "io_mime = ''application/json''"

type_synonym operation_table = "(string \<times> string, inferred_operation) dict"

definition usable :: "exchange_entry \<Rightarrow> bool" where
  "usable x \<longleftrightarrow> xe_method x \<noteq> None \<and> xe_url x \<noteq> None"

definition entry_path :: "(string \<Rightarrow> string) \<Rightarrow> exchange_entry \<Rightarrow> string" where
  "entry_path url_path x = (let p = url_path (the (xe_url x)) in if p = [] then ''/'' else p)"

definition entry_key :: "(string, templating) dict \<Rightarrow> (string \<Rightarrow> string) \<Rightarrow> exchange_entry \<Rightarrow> string \<times> string" where
  "entry_key templates url_path x =
     (upper (the (xe_method x)), tp_template (the (dict_get templates (entry_path url_path x))))"

definition record_status :: "regex \<Rightarrow> exchange_entry \<Rightarrow> (int, observed) dict \<Rightarrow> (int, observed) dict" where
  "record_status search x statuses = (case xe_status x of
       None \<Rightarrow> statuses
     | Some status \<Rightarrow>
         let here = or_unseen (dict_get statuses status) in
         dict_set status (if xe_response_body x = PNone then here else observe_value search (xe_response_body x) here) statuses)"

definition record_entry :: "regex \<Rightarrow> (string, templating) dict \<Rightarrow> (string \<Rightarrow> string) \<Rightarrow> exchange_entry
    \<Rightarrow> operation_table \<Rightarrow> operation_table" where
  "record_entry search templates url_path x operations =
     (let k = entry_key templates url_path x;
          op = (case dict_get operations k of
              Some op \<Rightarrow> op
            | None \<Rightarrow> \<lparr>io_method = fst k, io_template = snd k, io_statuses = [], io_requests = 0,
                io_templating_reason = tp_reason (the (dict_get templates (entry_path url_path x)))\<rparr>)
      in dict_set k (op\<lparr>io_requests := Suc (io_requests op), io_statuses := record_status search x (io_statuses op)\<rparr>) operations)"

definition infer_operations :: "regex \<Rightarrow> (string \<Rightarrow> bool) \<Rightarrow> (string \<Rightarrow> string) \<Rightarrow> exchange_entry list \<Rightarrow> operation_table" where
  "infer_operations search is_word url_path entries =
     (let xs = filter usable entries; templates = infer_templates search is_word (map (entry_path url_path) xs)
      in fold (record_entry search templates url_path) xs [])"

definition response_entry :: "bool \<Rightarrow> int \<times> observed \<Rightarrow> string \<times> pyval" where
  "response_entry infer_enums entry = (let (status, observed) = entry in (int_str status, PDict (
     [(''description'', PStr (if ob_seen observed \<noteq> 0 then ''Observed '' @ nat_str (ob_seen observed) @ '' time(s).''
        else ''Observed, with no response body recorded.''))]
     @ (if ob_seen observed \<noteq> 0 then
          [(''content'', PDict [(io_mime, PDict [(''schema'', inferred_schema infer_enums observed)])])] else []))))"

definition operation_entry :: "bool \<Rightarrow> string \<Rightarrow> inferred_operation \<Rightarrow> pyval" where
  "operation_entry infer_enums noun op = PDict [
     (''summary'', PStr (io_method op @ '' '' @ io_template op)),
     (''description'', PStr (''Inferred from '' @ nat_str (io_requests op) @ '' '' @ noun @ '' request(s). ''
        @ ''Path templating: '' @ io_templating_reason op @ ''.'')),
     (''responses'', PDict (let responses = map (response_entry infer_enums) (sort_key fst (io_statuses op)) in
        if responses = [] then [(''default'', PDict [(''description'', PStr ''No status was recorded.'')])] else responses)),
     (''x-apiverity-requests'', PInt (int (io_requests op)))]"

text \<open>\<open>paths[template][method.lower()] = ...\<close> over the operations in the order of their keys.\<close>

definition add_operation :: "bool \<Rightarrow> string \<Rightarrow> (string \<times> string) \<times> inferred_operation
    \<Rightarrow> (string, (string, pyval) dict) dict \<Rightarrow> (string, (string, pyval) dict) dict" where
  "add_operation infer_enums noun entry paths = (let ((method, template), op) = entry in
     dict_set template (dict_set (lower method) (operation_entry infer_enums noun op)
       (list_or_empty (dict_get paths template))) paths)"

definition path_items :: "bool \<Rightarrow> string \<Rightarrow> operation_table \<Rightarrow> (string, (string, pyval) dict) dict" where
  "path_items infer_enums noun operations = fold (add_operation infer_enums noun)
     (sort_key (fst \<circ> fst) (sort_key (snd \<circ> fst) operations)) []"

definition window_text :: "string list \<Rightarrow> string" where
  "window_text stamps = (case sort stamps of [] \<Rightarrow> []
     | first # rest \<Rightarrow> '' between '' @ first @ '' and '' @ last (first # rest))"

definition newline :: string where
  "newline = [CHR 0x0A]"

definition document_description :: "nat \<Rightarrow> string \<Rightarrow> string list \<Rightarrow> nat \<Rightarrow> string" where
  "document_description requests noun stamps bodies =
     ''Inferred by apiverity from '' @ nat_str requests @ '' '' @ noun @ '' request(s)'' @ window_text stamps @ ''. ''
     @ nat_str bodies @ '' response body/bodies were available to describe.'' @ newline @ newline
     @ ''This describes what was observed, which is not what the API supports. ''
     @ ''Absent operations were not exercised; a property marked required was ''
     @ ''present in every sample and every sample is a small number. Each schema ''
     @ ''carries `x-apiverity-samples` so a reader can weigh it, and nothing here ''
     @ ''should be published as a contract without being read by someone who '' @ ''knows the service.''"

definition infer_document :: "regex \<Rightarrow> (string \<Rightarrow> bool) \<Rightarrow> (string \<Rightarrow> string) \<Rightarrow> string \<Rightarrow> string \<Rightarrow> bool \<Rightarrow> string
    \<Rightarrow> exchange_entry list \<Rightarrow> (string \<times> pyval) list" where
  "infer_document search is_word url_path title version infer_enums noun entries =
     (let xs = filter usable entries;
          stamps = filter (\<lambda>s. s \<noteq> []) (List.map_filter xe_started_at xs);
          bodies = length (filter (\<lambda>x. xe_status x \<noteq> None \<and> xe_response_body x \<noteq> PNone) xs)
      in [(''openapi'', PStr ''3.1.0''),
          (''info'', PDict [(''title'', PStr (title @ '' (inferred draft)'')), (''version'', PStr version),
             (''description'', PStr (document_description (length xs) noun stamps bodies))]),
          (''x-apiverity-inferred'', PBool True),
          (''paths'', PDict (sort_key fst (map (\<lambda>(t, item). (t, PDict item))
             (path_items infer_enums noun (infer_operations search is_word url_path entries)))))])"

text \<open>The record of how the document was derived, and what \<open>infer\<close> returns.\<close>

definition infer_provenance :: "regex \<Rightarrow> (string \<Rightarrow> bool) \<Rightarrow> (string \<Rightarrow> string) \<Rightarrow> bool \<Rightarrow> exchange_entry list
    \<Rightarrow> (string \<times> pyval) list" where
  "infer_provenance search is_word url_path infer_enums entries =
     (let xs = filter usable entries;
          operations = infer_operations search is_word url_path entries;
          stamps = filter (\<lambda>s. s \<noteq> []) (List.map_filter xe_started_at xs);
          answered = filter (\<lambda>x. xe_status x \<noteq> None) xs
      in [(''requests_read'', PInt (int (length entries))),
          (''requests_usable'', PInt (int (length xs))),
          (''operations'', PInt (int (length operations))),
          (''bodies_observed'', PInt (int (length (filter (\<lambda>x. xe_response_body x \<noteq> PNone) answered)))),
          (''bodies_absent'', PInt (int (length (filter (\<lambda>x. xe_response_body x = PNone) answered)))),
          (''window'', (case sort stamps of [] \<Rightarrow> PNone
             | first # rest \<Rightarrow> PDict [(''first'', PStr first), (''last'', PStr (last (first # rest)))])),
          (''templating'', PDict (dict_of (map (\<lambda>(k, op). (io_template op, PStr (io_templating_reason op))) operations))),
          (''enums_inferred'', PBool infer_enums)])"

definition infer_contract :: "regex \<Rightarrow> (string \<Rightarrow> bool) \<Rightarrow> (string \<Rightarrow> string) \<Rightarrow> string \<Rightarrow> string \<Rightarrow> bool \<Rightarrow> string
    \<Rightarrow> exchange_entry list \<Rightarrow> (string \<times> pyval) list \<times> (string \<times> pyval) list" where
  "infer_contract search is_word url_path title version infer_enums noun entries =
     (infer_document search is_word url_path title version infer_enums noun entries,
      infer_provenance search is_word url_path infer_enums entries)"

section \<open>Parameter names\<close>

lemma free_name_taken:
  assumes "free_name fuel base index name taken \<in> set taken"
  shows "(\<lambda>i. base @ nat_str i) ` {index..<index + fuel} \<subseteq> set taken"
  using assms
proof (induction fuel arbitrary: index name)
  case (Suc fuel)
  then have here: "free_name fuel base (Suc index) (base @ nat_str index) taken \<in> set taken" by (auto split: if_splits)
  have "base @ nat_str index \<in> set taken" using here by (cases fuel) (auto split: if_splits)
  moreover have "{index..<index + Suc fuel} = insert index {Suc index..<Suc index + fuel}" by auto
  ultimately show ?case using Suc.IH [OF here] by simp
qed simp

lemma parameter_name_fresh [simp]: "parameter_name is_word parent taken \<notin> set taken"
proof
  let ?base = "parameter_base is_word parent"
  let ?names = "(\<lambda>i. ?base @ nat_str i) ` {2..<2 + Suc (length taken)}"
  assume "parameter_name is_word parent taken \<in> set taken"
  then have "?names \<subseteq> set taken" unfolding parameter_name_def Let_def by (rule free_name_taken)
  from card_mono [OF _ this] have "card ?names \<le> length taken" using card_length [of taken] by simp
  moreover have "inj_on (\<lambda>i. ?base @ nat_str i) {2..<2 + Suc (length taken)}" by (auto simp: inj_on_def nat_str_inject)
  ultimately show False by (simp add: card_image)
qed

text \<open>The parameters a template names, in the order of the path: no name twice.\<close>

fun parameters_of :: "regex \<Rightarrow> (string \<Rightarrow> bool) \<Rightarrow> string option \<Rightarrow> string list \<Rightarrow> path_node \<Rightarrow> string list \<Rightarrow> string list" where
  "parameters_of search is_word parent taken node [] = []"
| "parameters_of search is_word parent taken node (segment # rest) =
     (let child = (case dict_get (pn_children node) segment of None \<Rightarrow> new_node | Some c \<Rightarrow> c) in
      if collapse_reason search (keys (pn_children node)) segment = None then
        parameters_of search is_word (Some segment) taken child rest
      else (let name = parameter_name is_word parent taken in
        name # parameters_of search is_word (Some segment) (name # taken) child rest))"

lemma template_parameters_distinct:
  "distinct (parameters_of search is_word parent taken node segments)
    \<and> set (parameters_of search is_word parent taken node segments) \<inter> set taken = {}"
  by (induction search is_word parent taken node segments rule: parameters_of.induct)
    (auto simp: Let_def)

lemma template_renders_parameters:
  "set (fst (render_path search is_word parent taken node segments))
     \<subseteq> set segments \<union> (\<lambda>name. ''{'' @ name @ ''}'') ` set (parameters_of search is_word parent taken node segments)
   \<and> length (snd (render_path search is_word parent taken node segments))
     = length (parameters_of search is_word parent taken node segments)"
proof (induction search is_word parent taken node segments rule: parameters_of.induct)
  case (2 search is_word parent taken node segment rest)
  then show ?case
    by (cases "collapse_reason search (keys (pn_children node)) segment") (fastforce simp: Let_def split: prod.splits)+
qed simp

end
