(* ===== verification/OpenApi.thy ===== *)
theory OpenApi
  imports OpenApiSchema
begin

text \<open>
  The second half of \<open>apiverity/specs/openapi/parser.py\<close>: parameters, bodies, responses and
  the whole document. \<open>OpenApiParser\<close> has three inputs here: its \<open>file_label\<close>, the recursion
  limit \<open>fuel\<close> of the schema reader, and what \<open>specs/bundle.py\<close> makes of the document, which
  reads other files and is the argument \<open>bundle\<close>.
\<close>

section \<open>Parameters and encodings\<close>

definition lift_result :: "'a result \<Rightarrow> 'a load" where
  "lift_result r = (case r of Inl e \<Rightarrow> raises e | Inr a \<Rightarrow> gives a)"

definition with_findings :: "finding list \<Rightarrow> 'a \<Rightarrow> 'a load" where
  "with_findings fs a = Inr (a, fs)"

text \<open>\<open>str(d.get(k, fallback))\<close>\<close>

definition get_text :: "(string \<times> pyval) list \<Rightarrow> string \<Rightarrow> string \<Rightarrow> string" where
  "get_text d k fallback = (case map_of d k of None \<Rightarrow> fallback | Some v \<Rightarrow> py_str v)"

definition flag_at :: "(string \<times> pyval) list \<Rightarrow> string \<Rightarrow> bool" where
  "flag_at d k = truthy (val_get d k)"

definition location_of :: "string \<Rightarrow> parameter_location option" where
  "location_of s = find (\<lambda>l. location_value l = s) [PATH, QUERY, HEADER, COOKIE, QUERYSTRING]"

definition parameter_schema :: "schema_call \<Rightarrow> (string \<times> pyval) list \<Rightarrow> string \<Rightarrow> schema_node option load" where
  "parameter_schema rec d pointer =
     (if is_dict (val_get d ''schema'') then rec (val_get d ''schema'') (pointer @ ''/schema'')
      else (case dict_at d ''content'' of
          (media, PDict first) # rest \<Rightarrow> schema_at rec is_dict (val_get first ''schema'') (pointer @ ''/content'')
        | _ \<Rightarrow> gives None))"

definition to_parameter :: "string \<Rightarrow> pyval \<Rightarrow> schema_call \<Rightarrow> pyval \<Rightarrow> string \<Rightarrow> parameter option load" where
  "to_parameter file root rec node pointer = bind_load (deref file root node pointer) (\<lambda>target.
     case target of
       PDict d \<Rightarrow>
         (let loc_raw = get_text d ''in'' [] in
          bind_load (case location_of loc_raw of
              Some l \<Rightarrow> gives l
            | None \<Rightarrow> reports (spec_finding ''SPEC-PARAM-LOCATION'' ERROR
                (''parameter '' @ quoted (get_text d ''name'' ''?'') @ '' has invalid '' @ quoted ''in'' @ '' value '' @ quoted loc_raw)
                (loc file pointer)) QUERY) (\<lambda>location.
          bind_load (parameter_schema rec d pointer) (\<lambda>schema.
          bind_load (str_field (val_get d ''description'')) (\<lambda>description.
            gives (Some \<lparr>p_name = get_text d ''name'' [], p_location = location, p_required = flag_at d ''required'',
              p_deprecated = flag_at d ''deprecated'', p_description = description, p_schema_node = schema,
              p_example = val_get d ''example'', p_source_location = loc file pointer\<rparr>)))))
     | _ \<Rightarrow> gives None)"

definition no_encoding :: encoding where
  "no_encoding = \<lparr>en_content_type = None, en_style = None, en_explode = None, en_headers = []\<rparr>"

definition to_encoding :: "pyval \<Rightarrow> encoding option load" where
  "to_encoding node = (case node of
       PDict d \<Rightarrow>
         bind_load (str_field (val_get d ''contentType'')) (\<lambda>content_type.
         bind_load (str_field (val_get d ''style'')) (\<lambda>style.
           gives (Some \<lparr>en_content_type = content_type, en_style = style, en_explode = as_bool (val_get d ''explode''),
             en_headers = sort (keys (dict_at d ''headers''))\<rparr>)))
     | _ \<Rightarrow> gives None)"

section \<open>Sequential media\<close>

definition item_encodings :: "pyval \<Rightarrow> (string, encoding) dict load" where
  "item_encodings raw = (case raw of
       PDict d \<Rightarrow>
         if list_ex (\<lambda>k. k \<in> set (keys d)) [''contentType'', ''style'', ''explode'', ''allowReserved''] then
           bind_load (to_encoding raw) (\<lambda>single. gives (case single of None \<Rightarrow> [] | Some e \<Rightarrow> [([], e)]))
         else keep_some (\<lambda>(name, node). bind_load (to_encoding node) (\<lambda>e. gives (map_option (Pair name) e))) d
     | _ \<Rightarrow> gives [])"

definition prefix_encodings :: "pyval \<Rightarrow> encoding list load" where
  "prefix_encodings raw = keep_some (\<lambda>node. bind_load (to_encoding node) (\<lambda>e.
     gives (Some (case e of None \<Rightarrow> no_encoding | Some enc \<Rightarrow> enc)))) (list_or_empty (as_list raw))"

definition to_streaming :: "string \<Rightarrow> schema_call \<Rightarrow> string \<Rightarrow> (string \<times> pyval) list \<Rightarrow> string \<Rightarrow> streaming_media option load" where
  "to_streaming file rec media obj pointer =
     (let at = pointer @ ''/content/'' @ escape_pointer media in
      bind_load (schema_at rec is_dict (val_get obj ''itemSchema'') (at @ ''/itemSchema'')) (\<lambda>item_schema.
      bind_load (item_encodings (val_get obj ''itemEncoding'')) (\<lambda>item_encoding.
      bind_load (prefix_encodings (val_get obj ''prefixEncoding'')) (\<lambda>prefix_encoding.
        let streaming = \<lparr>st_item_schema = item_schema, st_item_encoding = item_encoding,
              st_prefix_encoding = prefix_encoding, st_source_location = loc file at\<rparr>
        in gives (if declares_anything streaming then Some streaming else None)))))"

definition stream_finding :: "string \<Rightarrow> string \<Rightarrow> string \<Rightarrow> string \<Rightarrow> source_location option \<Rightarrow> finding" where
  "stream_finding rule_id message k hint location =
     (spec_finding rule_id WARN message location)\<lparr>f_operation_key := Some k, f_hint := Some hint\<rparr>"

definition streaming_findings :: "string \<Rightarrow> string \<Rightarrow> (string \<times> pyval) list \<Rightarrow> string \<Rightarrow> string \<Rightarrow> finding list" where
  "streaming_findings file media obj pointer k =
     (let location = loc file (pointer @ ''/content/'' @ escape_pointer media);
          sequential = is_sequential_media media; has_item = is_dict (val_get obj ''itemSchema'') in
      (if sequential \<and> \<not> has_item then [stream_finding ''SPEC-STREAM-ITEM-SCHEMA-MISSING''
         (quoted media @ '' on '' @ k @ '' carries a sequence of items and declares no ''
          @ ''`itemSchema`, so nothing describes one item'') k
         (''Add `itemSchema` (OpenAPI 3.2). `schema` describes the whole body, ''
          @ ''and a stream has no whole body -- so every rule, mock and drift '' @ ''check sees nothing here.'') location] else [])
      @ (if has_item \<and> \<not> sequential then [stream_finding ''SPEC-STREAM-ITEM-SCHEMA-UNUSED''
         (quoted media @ '' on '' @ k @ '' declares `itemSchema` and is not a sequential ''
          @ ''media type, so nothing reads it'') k
         (''Use `schema` for a single document, or change the media type to a ''
          @ ''sequential one such as `application/jsonl` or `text/event-stream`.'') location] else []))"

definition streaming_findings_for :: "string \<Rightarrow> pyval \<Rightarrow> string \<Rightarrow> string \<Rightarrow> string option \<Rightarrow> finding list" where
  "streaming_findings_for file node pointer k status = (case node of
       PDict d \<Rightarrow> (let place = (case status of None \<Rightarrow> k | Some s \<Rightarrow> k @ '' response '' @ s) in
         concat (map (\<lambda>(media, v). case v of PDict obj \<Rightarrow> streaming_findings file media obj pointer place | _ \<Rightarrow> [])
           (dict_at d ''content'')))
     | _ \<Rightarrow> [])"

section \<open>Bodies and responses\<close>

definition body_of_media :: "schema_call \<Rightarrow> string \<Rightarrow> string \<times> pyval \<Rightarrow> schema_node option load" where
  "body_of_media rec pointer entry = schema_at rec is_dict (val_get (list_or_empty (as_dict (snd entry))) ''schema'')
     (pointer @ ''/content/'' @ escape_pointer (fst entry) @ ''/schema'')"

fun read_media :: "string \<Rightarrow> schema_call \<Rightarrow> string \<Rightarrow> (string \<times> pyval) list \<Rightarrow>
    ((string, schema_node) dict \<times> (string, streaming_media) dict) load" where
  "read_media file rec pointer [] = gives ([], [])"
| "read_media file rec pointer ((media, v) # entries) = (case v of
       PDict obj \<Rightarrow>
         bind_load (body_of_media rec pointer (media, v)) (\<lambda>schema.
         bind_load (to_streaming file rec media obj pointer) (\<lambda>sequence.
         bind_load (read_media file rec pointer entries) (\<lambda>(content, streaming).
           gives ((case schema of None \<Rightarrow> content | Some s \<Rightarrow> (media, s) # content),
                  (case sequence of None \<Rightarrow> streaming | Some st \<Rightarrow> (media, st) # streaming)))))
     | _ \<Rightarrow> read_media file rec pointer entries)"

definition to_request_body :: "string \<Rightarrow> pyval \<Rightarrow> schema_call \<Rightarrow> pyval \<Rightarrow> string \<Rightarrow> request_body option load" where
  "to_request_body file root rec node pointer = bind_load (deref file root node pointer) (\<lambda>target.
     case target of
       PDict d \<Rightarrow>
         bind_load (read_media file rec pointer (dict_at d ''content'')) (\<lambda>(content, streaming).
         bind_load (str_field (val_get d ''description'')) (\<lambda>description.
           gives (Some \<lparr>rb_required = flag_at d ''required'', rb_description = description, rb_content = content,
             rb_streaming = streaming, rb_source_location = loc file pointer\<rparr>)))
     | _ \<Rightarrow> gives None)"

definition header_schema :: "string \<Rightarrow> pyval \<Rightarrow> schema_call \<Rightarrow> string \<Rightarrow> string \<times> pyval \<Rightarrow> (string \<times> schema_node) option load" where
  "header_schema file root rec pointer entry =
     (let (name, obj) = entry; at = pointer @ ''/headers/'' @ name in
      if \<not> is_dict obj then gives None
      else bind_load (deref file root obj at) (\<lambda>target.
        bind_load (schema_at rec is_dict (val_get (list_or_empty (as_dict target)) ''schema'') (at @ ''/schema''))
          (\<lambda>s. gives (map_option (Pair name) s))))"

definition link_parameters :: "pyval \<Rightarrow> (string, string) dict load" where
  "link_parameters v = (if \<not> truthy v then gives [] else (case v of
       PDict ps \<Rightarrow> gives (map (\<lambda>(k, w). (k, py_str w)) ps)
     | _ \<Rightarrow> raises (AttributeError ''items'')))"

definition to_link :: "string \<times> pyval \<Rightarrow> link option load" where
  "to_link entry = (case snd entry of
       PDict d \<Rightarrow>
         bind_load (link_parameters (val_get d ''parameters'')) (\<lambda>parameters.
         bind_load (str_field (val_get d ''operationId'')) (\<lambda>operation_id.
         bind_load (str_field (val_get d ''operationRef'')) (\<lambda>operation_ref.
         bind_load (str_field (val_get d ''description'')) (\<lambda>description.
           gives (Some \<lparr>ln_name = fst entry, ln_operation_id = operation_id, ln_operation_ref = operation_ref,
             ln_description = description, ln_parameters = parameters, ln_request_body = val_get d ''requestBody''\<rparr>)))))
     | _ \<Rightarrow> gives None)"

definition to_response :: "string \<Rightarrow> pyval \<Rightarrow> schema_call \<Rightarrow> string \<Rightarrow> pyval \<Rightarrow> string \<Rightarrow> response option load" where
  "to_response file root rec status node pointer = bind_load (deref file root node pointer) (\<lambda>target.
     case target of
       PDict d \<Rightarrow>
         bind_load (keep_some (header_schema file root rec pointer) (dict_at d ''headers'')) (\<lambda>headers.
         bind_load (read_media file rec pointer (dict_at d ''content'')) (\<lambda>(content, streaming).
         bind_load (keep_some to_link (dict_at d ''links'')) (\<lambda>links.
         bind_load (str_field (val_get d ''description'')) (\<lambda>description.
           gives (Some \<lparr>rs_status = status, rs_description = description, rs_headers = headers, rs_content = content,
             rs_streaming = streaming, rs_links = links, rs_source_location = loc file pointer\<rparr>)))))
     | _ \<Rightarrow> gives None)"

definition to_examples :: "string \<Rightarrow> pyval \<Rightarrow> (string \<times> pyval) list \<Rightarrow> string \<Rightarrow> example_value list load" where
  "to_examples file root d pointer = keep_some (\<lambda>(name, ex).
     let at = pointer @ ''/examples/'' @ name in
     bind_load (deref file root ex at) (\<lambda>target. case target of
       PDict e \<Rightarrow> bind_load (str_field (val_get e ''summary'')) (\<lambda>summary.
         gives (Some \<lparr>ex_name = name, ex_value = val_get e ''value'', ex_summary = summary, ex_source_location = loc file at\<rparr>))
     | _ \<Rightarrow> gives None)) (dict_at d ''examples'')"

definition to_security_requirements :: "pyval \<Rightarrow> security_requirement list" where
  "to_security_requirements node = concat (map (\<lambda>entry.
     map (\<lambda>(scheme, scopes). \<lparr>sq_scheme_name = scheme, sq_scopes = map py_str (list_or_empty (as_list scopes))\<rparr>)
       (list_or_empty (as_dict entry))) (list_or_empty (as_list node)))"

section \<open>Operations\<close>

text \<open>\<open>x or []\<close> of a loop header.\<close>

definition iter_or_empty :: "pyval \<Rightarrow> pyval list load" where
  "iter_or_empty v = (if truthy v then lift_result (py_iter v) else gives [])"

definition parameters_at :: "string \<Rightarrow> pyval \<Rightarrow> schema_call \<Rightarrow> pyval \<Rightarrow> string \<Rightarrow> parameter list load" where
  "parameters_at file root rec raw pointer = bind_load (iter_or_empty raw) (\<lambda>ps.
     keep_some (\<lambda>(i, p). to_parameter file root rec p (pointer @ ''/parameters/'' @ int_str (int i))) (List.enumerate 0 ps))"

definition one_response :: "string \<Rightarrow> pyval \<Rightarrow> schema_call \<Rightarrow> string \<Rightarrow> string \<Rightarrow> string \<times> pyval \<Rightarrow> response option load" where
  "one_response file root rec k pointer entry =
     (let (status, resp) = entry; at = pointer @ ''/responses/'' @ status in
      bind_load (to_response file root rec status resp at) (\<lambda>converted.
      bind_load (deref file root resp at) (\<lambda>again.
      with_findings (streaming_findings_for file again at k (Some status)) converted)))"

definition responses_of :: "string \<Rightarrow> pyval \<Rightarrow> schema_call \<Rightarrow> string \<Rightarrow> (string \<times> pyval) list \<Rightarrow> string \<Rightarrow> response list load" where
  "responses_of file root rec k d pointer =
     bind_load (if flag_at d ''responses'' then gives () else
         reports (spec_finding ''SPEC-RESPONSE-MISSING'' WARN (''operation '' @ quoted k @ '' declares no responses'')
           (loc file pointer)) ()) (\<lambda>_.
     keep_some (one_response file root rec k pointer) (dict_at d ''responses''))"

text \<open>\<open>seen_keys\<close>, \<open>seen_operation_ids\<close> and \<open>service.operations\<close>.\<close>

record operation_index =
  ix_keys :: "string list"
  ix_ids :: "(string, string) dict"
  ix_operations :: "operation list"

definition register_id :: "string \<Rightarrow> string \<Rightarrow> pyval \<Rightarrow> string \<Rightarrow> (string, string) dict \<Rightarrow> (string option \<times> (string, string) dict) load" where
  "register_id file k v pointer seen = (if v = PNone then gives (None, seen) else
     (let i = py_str v in case map_of seen i of
        Some other \<Rightarrow> reports (spec_finding ''SPEC-OPID-DUPLICATE'' ERROR
          (''duplicate operationId '' @ quoted i @ '' (also used by '' @ other @ '')'') (loc file pointer)) (Some i, seen)
      | None \<Rightarrow> gives (Some i, seen @ [(i, k)])))"

definition to_operation :: "string \<Rightarrow> pyval \<Rightarrow> schema_call \<Rightarrow> string \<Rightarrow> pyval \<Rightarrow> string \<Rightarrow> string \<Rightarrow>
    (string \<times> pyval) list \<Rightarrow> string \<Rightarrow> operation_index \<Rightarrow> operation_index load" where
  "to_operation file root rec path_str path_params path_pointer verb d pointer ix =
     (let k = upper verb @ '' '' @ path_str in
      bind_load (if k \<in> set (ix_keys ix) then reports (spec_finding ''SPEC-OP-DUPLICATE'' ERROR
          (''duplicate/conflicting operation '' @ quoted k) (loc file pointer)) () else gives ()) (\<lambda>_.
      bind_load (parameters_at file root rec path_params path_pointer) (\<lambda>shared.
      bind_load (parameters_at file root rec (val_get d ''parameters'') pointer) (\<lambda>own.
      bind_load (if is_dict (val_get d ''requestBody'') then
          bind_load (to_request_body file root rec (val_get d ''requestBody'') (pointer @ ''/requestBody'')) (\<lambda>b.
            with_findings (streaming_findings_for file (val_get d ''requestBody'') (pointer @ ''/requestBody'') k None) b)
        else gives None) (\<lambda>body.
      bind_load (responses_of file root rec k d pointer) (\<lambda>responses.
      bind_load (register_id file k (val_get d ''operationId'') pointer (ix_ids ix)) (\<lambda>(op_id, ids).
      bind_load (iter_or_empty (val_get d ''tags'')) (\<lambda>tags.
      bind_load (to_examples file root d pointer) (\<lambda>examples.
      bind_load (str_field (val_get d ''summary'')) (\<lambda>summary.
      bind_load (str_field (val_get d ''description'')) (\<lambda>description.
        gives (ix\<lparr>ix_keys := k # ix_keys ix, ix_ids := ids, ix_operations := ix_operations ix @ [\<lparr>
          op_kind = HTTP, op_operation_id = op_id, op_method = Some (upper verb), op_path = Some path_str,
          op_rpc_name = None, op_service_name = None, op_summary = summary, op_description = description,
          op_deprecated = flag_at d ''deprecated'', op_tags = map py_str tags, op_parameters = shared @ own,
          op_request_body = body, op_responses = responses,
          op_security = (case map_of d ''security'' of None \<Rightarrow> None | Some v \<Rightarrow> Some (to_security_requirements v)),
          op_examples = examples, op_extensions = filter (\<lambda>(x, v). starts_with x ''x-'') d,
          op_client_streaming = False, op_server_streaming = False, op_channel = None, op_message_name = None,
          op_direction = None, op_source_action = None, op_bindings = [], op_lifecycle_state = None,
          op_deprecation = None, op_idempotent = None, op_pagination = None, op_source_location = loc file pointer\<rparr>]\<rparr>))))))))))))"

definition HTTP_METHODS :: "string list" where
  "HTTP_METHODS = [''delete'', ''get'', ''head'', ''options'', ''patch'', ''post'', ''put'', ''query'', ''trace'']"

text \<open>The operations of a path item: the named methods in order, then \<open>additionalOperations\<close>.\<close>

definition operation_nodes :: "(string \<times> pyval) list \<Rightarrow> string \<Rightarrow> (string \<times> pyval \<times> string) list" where
  "operation_nodes item pointer =
     map (\<lambda>m. (m, val_get item m, pointer @ ''/'' @ m)) (filter (\<lambda>m. val_get item m \<noteq> PNone) HTTP_METHODS)
     @ map (\<lambda>(verb, node). (lower verb, node, pointer @ ''/additionalOperations/'' @ escape_pointer verb))
         (sort_key fst (dict_at item ''additionalOperations''))"

fun fold_load :: "('a \<Rightarrow> 's \<Rightarrow> 's load) \<Rightarrow> 'a list \<Rightarrow> 's \<Rightarrow> 's load" where
  "fold_load f [] s = gives s"
| "fold_load f (x # xs) s = bind_load (f x s) (fold_load f xs)"

definition one_operation :: "string \<Rightarrow> pyval \<Rightarrow> schema_call \<Rightarrow> string \<Rightarrow> pyval \<Rightarrow> string \<Rightarrow>
    string \<times> pyval \<times> string \<Rightarrow> operation_index \<Rightarrow> operation_index load" where
  "one_operation file root rec path_str path_params path_pointer entry ix =
     (let (verb, node, pointer) = entry in
      if node = PNone then gives ix
      else bind_load (deref file root node pointer) (\<lambda>target. case target of
        PDict d \<Rightarrow> to_operation file root rec path_str path_params path_pointer verb d pointer ix
      | _ \<Rightarrow> gives ix))"

definition one_path :: "string \<Rightarrow> pyval \<Rightarrow> schema_call \<Rightarrow> string \<times> pyval \<Rightarrow> operation_index \<Rightarrow> operation_index load" where
  "one_path file root rec entry ix =
     (let (path_str, item) = entry; pointer = ''/paths/'' @ escape_pointer path_str in
      if \<not> is_dict item then gives ix
      else bind_load (deref file root item pointer) (\<lambda>target. case target of
        PDict d \<Rightarrow> fold_load (one_operation file root rec path_str (val_get d ''parameters'') pointer)
          (operation_nodes d pointer) ix
      | _ \<Rightarrow> gives ix))"

section \<open>Tags, servers and security schemes\<close>

definition captured_tag :: "pyval \<Rightarrow> (string, pyval) dict list" where
  "captured_tag tag = (case tag of
       PDict d \<Rightarrow> if truthy (val_get d ''name'') then
           [concat (map (\<lambda>k. case map_of d k of None \<Rightarrow> [] | Some v \<Rightarrow> [(k, v)])
              [''name'', ''summary'', ''description'', ''parent'', ''kind''])]
         else []
     | _ \<Rightarrow> [])"

definition orphan_tag_parents :: "string \<Rightarrow> (string, pyval) dict list \<Rightarrow> finding list" where
  "orphan_tag_parents file tags = concat (map (\<lambda>tag.
     let parent = val_get tag ''parent'' in
     if parent \<noteq> PNone \<and> py_str parent \<notin> set (map (\<lambda>t. py_str (val_get t ''name'')) tags) then
       [spec_finding ''SPEC-TAG-PARENT-UNKNOWN'' WARN
          (''tag '' @ quoted (py_str (val_get tag ''name'')) @ '' declares parent '' @ quoted (py_str parent)
           @ '', which is not a '' @ ''declared tag; the navigation branch cannot be built'') (loc file ''/tags'')]
     else []) tags)"

definition to_server :: "pyval \<Rightarrow> server option load" where
  "to_server srv = (case srv of
       PDict d \<Rightarrow> (case map_of d ''url'' of
           None \<Rightarrow> gives None
         | Some url \<Rightarrow> bind_load (str_field (val_get d ''description'')) (\<lambda>description.
             gives (Some \<lparr>sv_url = py_str url, sv_description = description\<rparr>)))
     | _ \<Rightarrow> gives None)"

definition KNOWN_OAUTH_FLOWS :: "string list" where
  "KNOWN_OAUTH_FLOWS = [''implicit'', ''password'', ''clientCredentials'', ''authorizationCode'', ''deviceAuthorization'']"

definition flow_scopes :: "(string \<times> pyval) list \<Rightarrow> (string, (string, string) dict) dict" where
  "flow_scopes flows = concat (map (\<lambda>(name, flow). case flow of
       PDict d \<Rightarrow> [(name, map (\<lambda>(k, v). (k, py_str v)) (dict_at d ''scopes''))] | _ \<Rightarrow> []) flows)"

definition flow_findings :: "string \<Rightarrow> string \<Rightarrow> (string, (string, string) dict) dict \<Rightarrow> finding list" where
  "flow_findings file name flows = concat (map (\<lambda>(flow, scopes).
     if flow \<in> set KNOWN_OAUTH_FLOWS then [] else
       [spec_finding ''SPEC-OAUTH-FLOW-UNKNOWN'' WARN
          (''security scheme '' @ quoted name @ '' declares OAuth flow '' @ quoted flow
           @ '', which no OpenAPI version defines'')
          (loc file (''/components/securitySchemes/'' @ name @ ''/flows/'' @ flow))]) flows)"

text \<open>\<open>loc_raw in _VALID_PARAM_LOCATIONS\<close>, which hashes its left side.\<close>

definition scheme_location :: "pyval \<Rightarrow> parameter_location option load" where
  "scheme_location v = (if hashable v then gives (case v of PStr s \<Rightarrow> location_of s | _ \<Rightarrow> None)
     else raises (TypeError ''unhashable type''))"

definition to_security_scheme :: "string \<Rightarrow> pyval \<Rightarrow> string \<times> pyval \<Rightarrow> (string \<times> security_scheme) option load" where
  "to_security_scheme file root entry =
     (let (name, sch) = entry; at = ''/components/securitySchemes/'' @ name in
      bind_load (deref file root sch at) (\<lambda>target. case target of
        PDict d \<Rightarrow>
          (let flows = flow_scopes (dict_at d ''flows'') in
           bind_load (with_findings (flow_findings file name flows) ()) (\<lambda>_.
           bind_load (scheme_location (val_get d ''in'')) (\<lambda>location.
           bind_load (str_field (val_get d ''scheme'')) (\<lambda>scheme.
           bind_load (str_field (val_get d ''bearerFormat'')) (\<lambda>bearer_format.
             gives (Some (name, \<lparr>ss_name = name, ss_type = get_text d ''type'' [], ss_location = location,
               ss_scheme = scheme, ss_bearer_format = bearer_format,
               ss_scopes = fold (\<lambda>(k, v). dict_set k v) (concat (map snd flows)) [],
               ss_oauth_flows = flows, ss_metadata_url = as_str (val_get d ''oauth2MetadataUrl''),
               ss_deprecated = flag_at d ''deprecated'', ss_source_location = loc file at\<rparr>)))))))
      | _ \<Rightarrow> gives None))"

section \<open>The document\<close>

text \<open>What \<open>specs/bundle.py\<close> answers: the document with its external references folded in.\<close>

record bundle_result =
  bn_document :: "(string \<times> pyval) list"
  bn_findings :: "finding list"
  bn_declared :: "string list"
  bn_edges :: "(string, pyval) dict list"

definition SUPPORTED_OPENAPI_VERSIONS :: "string list" where
  "SUPPORTED_OPENAPI_VERSIONS = [''3.0'', ''3.1'', ''3.2'']"

definition openapi_version_findings :: "string \<Rightarrow> string \<Rightarrow> finding list" where
  "openapi_version_findings file version =
     (if list_ex (starts_with version) SUPPORTED_OPENAPI_VERSIONS then [] else
        [spec_finding ''SPEC-VERSION-UNSUPPORTED'' ERROR
           (''unsupported OpenAPI version '' @ quoted (if version = [] then ''(missing)'' else version)
            @ ''; expected one of '' @ join '', '' (map (\<lambda>v. v @ ''.x'') SUPPORTED_OPENAPI_VERSIONS)) (loc file [])])"

text \<open>\<open>x or {}\<close> before a \<open>.get\<close>, and \<open>doc.get('components', {})\<close>.\<close>

definition mapping_or_empty :: "pyval \<Rightarrow> (string \<times> pyval) list load" where
  "mapping_or_empty v = (if truthy v then (case v of PDict d \<Rightarrow> gives d | _ \<Rightarrow> raises (AttributeError ''get'')) else gives [])"

definition components_of :: "(string \<times> pyval) list \<Rightarrow> (string \<times> pyval) list load" where
  "components_of doc = (case map_of doc ''components'' of
       None \<Rightarrow> gives [] | Some (PDict d) \<Rightarrow> gives d | Some _ \<Rightarrow> raises (AttributeError ''get''))"

definition parse_service :: "nat \<Rightarrow> string \<Rightarrow> (string \<times> pyval) list \<Rightarrow> string list \<Rightarrow> (string, pyval) dict list \<Rightarrow> service load" where
  "parse_service fuel file doc deps edges =
     (let root = PDict doc; rec = to_schema fuel file root in
      bind_load (with_findings (openapi_version_findings file (get_text doc ''openapi'' [])) ()) (\<lambda>_.
      bind_load (mapping_or_empty (val_get doc ''info'')) (\<lambda>info.
      bind_load (str_field (val_get info ''description'')) (\<lambda>description.
      let tags = concat (map captured_tag (list_at doc ''tags'')) in
      bind_load (with_findings (orphan_tag_parents file tags) ()) (\<lambda>_.
      bind_load (keep_some to_server (list_at doc ''servers'')) (\<lambda>servers.
      bind_load (components_of doc) (\<lambda>components.
      bind_load (keep_some (to_security_scheme file root) (dict_at components ''securitySchemes'')) (\<lambda>schemes.
      bind_load (fold_load (one_path file root rec) (dict_at doc ''paths'')
          \<lparr>ix_keys = [], ix_ids = [], ix_operations = []\<rparr>) (\<lambda>ix.
        gives \<lparr>svc_title = get_text info ''title'' ''Untitled API'', svc_version = get_text info ''version'' ''0.0.0'',
          svc_protocol = OPENAPI, svc_description = description, svc_servers = servers,
          svc_operations = sort_key key (ix_operations ix), svc_security_schemes = schemes,
          svc_global_security = to_security_requirements (val_get doc ''security''), svc_tags = tags,
          svc_owner = None, svc_team = None, svc_product = None, svc_lifecycle_state = None,
          svc_source_file = Some file, svc_source_location = loc file ''/info'', svc_dependencies = deps,
          svc_dependency_edges = edges, svc_bindings = []\<rparr>)))))))))"

definition parse :: "nat \<Rightarrow> string \<Rightarrow> ((string \<times> pyval) list \<Rightarrow> bundle_result) \<Rightarrow> (string \<times> pyval) list \<Rightarrow> service load" where
  "parse fuel file bundle raw =
     (let b = bundle raw in
      bind_load (with_findings (bn_findings b) ()) (\<lambda>_.
        parse_service fuel file (bn_document b) (sorted_set (bn_declared b)) (bn_edges b)))"

end
