(* ===== verification/OpenApiFacts.thy ===== *)
theory OpenApiFacts
  imports OpenApi
begin

text \<open>
  When reading a schema ends. \<open>unfolds\<close> relates a schema of the document to the ones its
  conversion converts. A schema that unfolds into itself is never read, whatever the recursion
  limit; a document whose references can be ranked is read within a limit computed from it.
\<close>

section \<open>The value of a reference\<close>

text \<open>The pointer only enters the findings.\<close>

definition value_of :: "'a load \<Rightarrow> 'a option" where
  "value_of m = (case m of Inl e \<Rightarrow> None | Inr (a, fs) \<Rightarrow> Some a)"

lemma value_of_simps [simp]:
  "value_of (gives a) = Some a" "value_of (reports g a) = Some a" "value_of (Inl e) = None"
  "value_of (bind_load m f) = Option.bind (value_of m) (\<lambda>a. value_of (f a))"
  by (auto simp: value_of_def gives_def reports_def bind_load_def split: sum.split)

lemma value_of_Some: "value_of m = Some a \<longleftrightarrow> (\<exists>fs. m = Inr (a, fs))"
  by (auto simp: value_of_def split: sum.split)

fun walk :: "string list \<Rightarrow> pyval \<Rightarrow> pyval" where
  "walk [] node = node"
| "walk (raw # parts) node = (case node of
       PDict d \<Rightarrow> (case map_of d (unescape_pointer raw) of None \<Rightarrow> PNone | Some v \<Rightarrow> walk parts v)
     | PList xs \<Rightarrow> (case list_item xs (unescape_pointer raw) of None \<Rightarrow> PNone | Some v \<Rightarrow> walk parts v)
     | _ \<Rightarrow> PNone)"

definition target_of :: "pyval \<Rightarrow> string \<Rightarrow> pyval" where
  "target_of root ref = (if starts_with ref ''#/'' then walk (split_char (CHR ''/'') (drop 2 ref)) root else PNone)"

lemma value_resolve_parts: "value_of (resolve_parts file ref pointer parts node) = Some (walk parts node)"
  by (induction parts node rule: walk.induct) (auto simp: Let_def split: pyval.split option.split)

lemma value_resolve_ref: "value_of (resolve_ref file root ref pointer) = Some (target_of root ref)"
  by (simp add: resolve_ref_def target_of_def value_resolve_parts)

fun chase :: "pyval \<Rightarrow> string list \<Rightarrow> nat \<Rightarrow> pyval \<Rightarrow> pyval" where
  "chase root seen hops node = (case ref_of node of
       None \<Rightarrow> node
     | Some ref \<Rightarrow> if ref \<in> set seen \<or> target_of root ref = PNone then PNone
         else (case hops of 0 \<Rightarrow> PNone | Suc h \<Rightarrow> chase root (ref # seen) h (target_of root ref)))"

declare chase.simps [simp del]

lemma value_deref_chain: "value_of (deref_chain file root pointer seen hops node) = Some (chase root seen hops node)"
proof (induction hops arbitrary: seen node)
  case 0
  show ?case by (subst deref_chain.simps, subst chase.simps) (simp add: value_resolve_ref split: option.split)
next
  case (Suc hops)
  then show ?case by (subst deref_chain.simps, subst chase.simps) (simp add: value_resolve_ref split: option.split)
qed

definition resolved :: "pyval \<Rightarrow> pyval \<Rightarrow> pyval" where
  "resolved root node = chase root [] 64 node"

lemma value_deref: "value_of (deref file root node pointer) = Some (resolved root node)"
  by (simp add: deref_def resolved_def value_deref_chain)

section \<open>What a conversion converts\<close>

definition sub_values :: "(string \<times> pyval) list \<Rightarrow> pyval list" where
  "sub_values d =
     map snd (dict_at d ''properties'')
     @ filter is_dict [val_get d ''additionalProperties'']
     @ filter is_dict_or_bool [val_get d ''items'', val_get d ''contains'']
     @ list_at d ''oneOf'' @ list_at d ''anyOf'' @ list_at d ''allOf'' @ list_at d ''prefixItems''
     @ map snd (dict_at d ''patternProperties'') @ map snd (dict_at d ''dependentSchemas'')
     @ filter is_dict [val_get d ''propertyNames'', val_get d ''if'', val_get d ''then'', val_get d ''else'']"

inductive unfolds :: "pyval \<Rightarrow> pyval \<Rightarrow> pyval \<Rightarrow> bool" for root where
  unfolds: "resolved root node = PDict d \<Longrightarrow> child \<in> set (sub_values d) \<Longrightarrow> unfolds root node child"

lemma value_bind_None:
  "value_of (bind_load m f) = None \<longleftrightarrow> value_of m = None \<or> (\<forall>a. value_of m = Some a \<longrightarrow> value_of (f a) = None)"
  by (cases "value_of m") auto

declare value_of_simps(4) [simp del]

section \<open>Recursive schemas\<close>

text \<open>A conversion needs the conversion of everything it unfolds to.\<close>

definition lost :: "schema_call \<Rightarrow> pyval \<Rightarrow> bool" where
  "lost rec c \<longleftrightarrow> (\<forall>p. value_of (rec c p) = None)"

lemma keep_some_lost: "x \<in> set xs \<Longrightarrow> value_of (f x) = None \<Longrightarrow> value_of (keep_some f xs) = None"
  by (induction xs) (auto simp: value_bind_None)

lemma named_lost: "lost rec c \<Longrightarrow> c \<in> snd ` set subs \<Longrightarrow> value_of (named_schemas rec subs base) = None"
  unfolding named_schemas_def
  by (elim imageE) (rule keep_some_lost, assumption, auto simp: lost_def value_bind_None split: prod.split)

lemma listed_lost:
  assumes "lost rec c" and "c \<in> set (list_or_empty (as_list v))"
  shows "value_of (listed_schemas rec v base) = None"
proof (cases v)
  case (PList subs)
  with assms(2) obtain i where "i < length subs" "subs ! i = c"
    by (auto simp: list_or_empty_def in_set_conv_nth)
  then have "(i, c) \<in> set (List.enumerate 0 subs)"
    by (auto simp: in_set_enumerate_eq)
  then show ?thesis
    using assms(1) by (auto simp: listed_schemas_def PList value_bind_None lost_def intro: keep_some_lost)
qed (use assms in \<open>simp_all add: list_or_empty_def\<close>)

lemma schema_at_lost: "lost rec v \<Longrightarrow> allowed v \<Longrightarrow> value_of (schema_at rec allowed v base) = None"
  by (simp add: schema_at_def lost_def)

lemma additional_lost: "lost rec v \<Longrightarrow> is_dict v \<Longrightarrow> value_of (additional_of rec v base) = None"
  by (cases v) (simp_all add: additional_of_def lost_def is_dict_def value_bind_None)

lemma convert_object_lost:
  assumes "lost rec c" and "c \<in> set (sub_values d)"
  shows "value_of (convert_object file rec d pointer) = None"
proof -
  note known = named_lost [OF assms(1)] listed_lost [OF assms(1)] schema_at_lost additional_lost
  from assms(2) consider
      "c \<in> snd ` set (dict_at d ''properties'')" | "c = val_get d ''additionalProperties''" "is_dict c"
    | "c = val_get d ''items''" "is_dict_or_bool c" | "c = val_get d ''contains''" "is_dict_or_bool c"
    | "c \<in> set (list_at d ''oneOf'')" | "c \<in> set (list_at d ''anyOf'')"
    | "c \<in> set (list_at d ''allOf'')" | "c \<in> set (list_at d ''prefixItems'')"
    | "c \<in> snd ` set (dict_at d ''patternProperties'')" | "c \<in> snd ` set (dict_at d ''dependentSchemas'')"
    | "c = val_get d ''propertyNames''" "is_dict c" | "c = val_get d ''if''" "is_dict c"
    | "c = val_get d ''then''" "is_dict c" | "c = val_get d ''else''" "is_dict c"
    unfolding sub_values_def set_append set_filter Un_iff by auto
  then show ?thesis
    using assms(1) by cases (simp_all add: convert_object_def value_bind_None known list_at_def)
qed

lemma to_schema_unfolds:
  assumes "unfolds root node child" and "lost (to_schema fuel file root) child"
  shows "lost (to_schema (Suc fuel) file root) node"
  using assms(1)
proof cases
  case (unfolds d)
  then show ?thesis
    using convert_object_lost [OF assms(2)]
    by (auto simp: lost_def convert_schema_def value_bind_None value_deref)
qed

theorem recursive_schema_lost:
  assumes "(unfolds root)\<^sup>+\<^sup>+ node node"
  shows "lost (to_schema fuel file root) node"
proof -
  have "\<forall>m. (unfolds root)\<^sup>+\<^sup>+ m m \<longrightarrow> lost (to_schema fuel file root) m"
  proof (induction fuel)
    case 0
    show ?case by (simp add: lost_def)
  next
    case (Suc fuel)
    show ?case
    proof (intro allI impI)
      fix m
      assume "(unfolds root)\<^sup>+\<^sup>+ m m"
      then obtain c where step: "unfolds root m c" and rest: "(unfolds root)\<^sup>*\<^sup>* c m"
        by (auto dest: tranclpD)
      then have "(unfolds root)\<^sup>+\<^sup>+ c c" by (metis rtranclp_into_tranclp1 rtranclp_tranclp_tranclp tranclp.r_into_trancl rtranclp_into_tranclp2)
      with Suc step show "lost (to_schema (Suc fuel) file root) m" by (blast intro: to_schema_unfolds)
    qed
  qed
  with assms show ?thesis by blast
qed

lemma unfolds_lost: "(unfolds root)\<^sup>*\<^sup>* start node \<Longrightarrow> (\<And>fuel. lost (to_schema fuel file root) node) \<Longrightarrow>
  lost (to_schema fuel file root) start"
proof (induction arbitrary: fuel rule: converse_rtranclp_induct)
  case (step m n)
  show ?case
  proof (cases fuel)
    case (Suc j)
    with step show ?thesis by (blast intro: to_schema_unfolds)
  qed (simp add: lost_def)
qed

text \<open>The schemas of the responses of a document.\<close>

inductive served :: "pyval \<Rightarrow> (string \<times> pyval) list \<Rightarrow> pyval \<Rightarrow> bool" for root doc where
  served: "served root doc (val_get media ''schema'')"
  if "(path_str, item) \<in> set (dict_at doc ''paths'')" "is_dict item" "resolved root item = PDict methods"
    and "(verb, node, pointer) \<in> set (operation_nodes methods (''/paths/'' @ escape_pointer path_str))"
      "node \<noteq> PNone" "resolved root node = PDict d"
    and "(status, resp) \<in> set (dict_at d ''responses'')" "resolved root resp = PDict r"
    and "(name, PDict media) \<in> set (dict_at r ''content'')" "is_dict (val_get media ''schema'')"

lemma read_media_lost:
  assumes "lost rec (val_get media ''schema'')" and "is_dict (val_get media ''schema'')"
  shows "(name, PDict media) \<in> set entries \<Longrightarrow> value_of (read_media file rec p entries) = None"
proof (induction entries)
  case (Cons entry entries)
  obtain m v where "entry = (m, v)" by (cases entry)
  with Cons assms show ?case
    by (cases v) (auto simp: value_bind_None body_of_media_def list_or_empty_def schema_at_lost)
qed simp

lemma fold_load_lost: "x \<in> set xs \<Longrightarrow> (\<And>s. value_of (f x s) = None) \<Longrightarrow> value_of (fold_load f xs s) = None"
  by (induction xs arbitrary: s) (auto simp: value_bind_None)

lemma one_response_lost:
  assumes "resolved root resp = PDict r" and "\<And>p. value_of (read_media file rec p (dict_at r ''content'')) = None"
  shows "value_of (one_response file root rec k p (status, resp)) = None"
  using assms by (simp add: one_response_def to_response_def Let_def value_bind_None value_deref)

lemma one_operation_lost:
  assumes "node \<noteq> PNone" and "resolved root node = PDict d" and "(status, resp) \<in> set (dict_at d ''responses'')"
    and "\<And>k p. value_of (one_response file root rec k p (status, resp)) = None"
  shows "value_of (one_operation file root rec path_str shared path_pointer (verb, node, pointer) ix) = None"
proof -
  have "value_of (responses_of file root rec k d pointer) = None" for k
    using keep_some_lost [OF assms(3), of "one_response file root rec k pointer"] assms(4)
    by (simp add: responses_of_def value_bind_None)
  then show ?thesis
    using assms(1,2) by (simp add: one_operation_def to_operation_def Let_def value_bind_None value_deref)
qed

theorem served_lost:
  assumes "served (PDict doc) doc s" and "lost (to_schema fuel file (PDict doc)) s"
  shows "value_of (parse_service fuel file doc deps edges) = None"
  using assms(1)
proof cases
  case (served path_str item methods verb node pointer d status resp r name media)
  let ?rec = "to_schema fuel file (PDict doc)"
  have "value_of (read_media file ?rec p (dict_at r ''content'')) = None" for p
    using assms(2) served by (intro read_media_lost) simp_all
  then have "value_of (one_operation file (PDict doc) ?rec path_str shared at (verb, node, pointer) ix) = None" for shared at ix
    using served by (intro one_operation_lost one_response_lost)
  then have "value_of (one_path file (PDict doc) ?rec (path_str, item) ix) = None" for ix
    using served by (simp add: one_path_def Let_def value_bind_None value_deref fold_load_lost)
  then have "value_of (fold_load (one_path file (PDict doc) ?rec) (dict_at doc ''paths'') ix) = None" for ix
    using served(2) by (rule fold_load_lost [rotated])
  then show ?thesis
    by (simp add: parse_service_def Let_def value_bind_None)
qed

section \<open>Weight and references\<close>

fun weight :: "pyval \<Rightarrow> nat" where
  "weight (PList xs) = Suc (sum_list (map weight xs))"
| "weight (PDict d) = Suc (sum_list (map (\<lambda>kv. weight (snd kv)) d))"
| "weight v = 0"

fun refs_in :: "pyval \<Rightarrow> string list" where
  "refs_in (PList xs) = concat (map refs_in xs)"
| "refs_in (PDict d) = (case map_of d ''$ref'' of None \<Rightarrow> [] | Some v \<Rightarrow> [py_str v]) @ concat (map (\<lambda>kv. refs_in (snd kv)) d)"
| "refs_in v = []"

definition within :: "pyval \<Rightarrow> pyval \<Rightarrow> bool" where
  "within v w \<longleftrightarrow> weight v \<le> weight w \<and> set (refs_in v) \<subseteq> set (refs_in w)"

lemma within_refl [simp]: "within v v"
  by (simp add: within_def)

lemma within_trans [trans]: "within u v \<Longrightarrow> within v w \<Longrightarrow> within u w"
  by (auto simp: within_def)

lemma within_PNone [simp]: "within PNone v"
  by (simp add: within_def)

definition inside :: "pyval \<Rightarrow> pyval \<Rightarrow> bool" where
  "inside v w \<longleftrightarrow> within v w \<and> weight v < weight w"

lemma inside_within: "inside v w \<Longrightarrow> within v w"
  by (simp add: inside_def)

lemma within_inside: "within u v \<Longrightarrow> inside v w \<Longrightarrow> inside u w"
  by (auto simp: inside_def within_def)

lemma inside_trans: "inside u v \<Longrightarrow> inside v w \<Longrightarrow> inside u w"
  by (auto simp: inside_def within_def)

lemma inside_list: "x \<in> set xs \<Longrightarrow> inside x (PList xs)"
  using member_le_sum_list [of "weight x" "map weight xs"]
  by (auto simp: inside_def within_def)

lemma inside_dict: "(k, v) \<in> set d \<Longrightarrow> inside v (PDict d)"
  using member_le_sum_list [of "weight v" "map (\<lambda>kv. weight (snd kv)) d"]
  by (force simp: inside_def within_def)

lemma ref_of_in: "ref_of v = Some r \<Longrightarrow> r \<in> set (refs_in v)"
  by (cases v) (auto simp: ref_of_def)

lemma list_item_in: "list_item xs p = Some v \<Longrightarrow> v \<in> set xs"
  by (auto simp: list_item_def split: sum.splits if_splits)

lemma within_walk: "within (walk parts node) node"
proof (induction parts arbitrary: node)
  case (Cons raw parts)
  have "inside v node \<Longrightarrow> within (walk parts v) node" for v
    using Cons by (blast intro: within_trans inside_within)
  then show ?case
    by (cases node) (auto split: option.split dest!: map_of_SomeD list_item_in intro: inside_list inside_dict)
qed simp

lemma within_target: "within (target_of root r) root"
  by (simp add: target_of_def within_walk)

lemma inside_val_get: "inside (val_get d k) (PDict d)"
  by (cases "map_of d k") (auto simp: val_get_def inside_def [of PNone] dest: inside_dict map_of_SomeD)

lemma inside_dict_at: "c \<in> snd ` set (dict_at d k) \<Longrightarrow> inside c (PDict d)"
  using inside_val_get [of d k]
  by (cases "val_get d k") (auto simp: dict_at_def list_or_empty_def intro: inside_trans [OF inside_dict])

lemma inside_list_at: "c \<in> set (list_at d k) \<Longrightarrow> inside c (PDict d)"
  using inside_val_get [of d k]
  by (cases "val_get d k") (auto simp: list_at_def list_or_empty_def intro: inside_trans [OF inside_list])

lemma inside_sub_values: "c \<in> set (sub_values d) \<Longrightarrow> inside c (PDict d)"
  unfolding sub_values_def set_append set_filter set_map Un_iff
  by (elim disjE) (auto intro: inside_val_get inside_dict_at inside_list_at simp del: set_map)

section \<open>Documents that are read\<close>

definition ends :: "'a load \<Rightarrow> bool" where
  "ends m \<longleftrightarrow> m \<noteq> Inl RecursionError"

lemma ends_simps [simp]:
  "ends (gives a)" "ends (reports g a)" "ends (raises e)" "ends (Inl (Untyped k))"
  by (simp_all add: ends_def gives_def reports_def raises_def)

lemma ends_bind: "ends (bind_load m f) \<longleftrightarrow> ends m \<and> (\<forall>a. value_of m = Some a \<longrightarrow> ends (f a))"
  by (auto simp: ends_def bind_load_def value_of_def split: sum.splits)

lemma ends_bindI: "ends m \<Longrightarrow> (\<And>a. value_of m = Some a \<Longrightarrow> ends (f a)) \<Longrightarrow> ends (bind_load m f)"
  by (simp add: ends_bind)

lemma value_ends: "value_of m = Some a \<Longrightarrow> ends m"
  by (auto simp: value_of_Some ends_def)

lemma ends_deref [simp]: "ends (deref file root node pointer)"
  by (rule value_ends [OF value_deref])

lemma ends_keep_some: "(\<And>x. x \<in> set xs \<Longrightarrow> ends (f x)) \<Longrightarrow> ends (keep_some f xs)"
  by (induction xs) (auto simp: ends_bind)

lemma ends_str_field [simp]: "ends (str_field v)"
  by (cases v) (simp_all add: str_field_def)

lemma ends_assigned [simp]: "ends (assigned typed d k)"
  by (simp add: assigned_def split: pyval.split option.split)

lemma ends_discriminator [simp]: "ends (discriminator_of d)"
  by (simp add: discriminator_of_def Let_def split: pyval.split)

lemma ends_attributes [simp]: "ends (schema_attributes file d pointer)"
  by (simp add: schema_attributes_def ends_bind split: prod.split)

lemma ends_named: "(\<And>c p. c \<in> snd ` set subs \<Longrightarrow> ends (rec c p)) \<Longrightarrow> ends (named_schemas rec subs base)"
  unfolding named_schemas_def by (rule ends_keep_some) (force simp: ends_bind)

lemma ends_listed: "(\<And>c p. c \<in> set (list_or_empty (as_list v)) \<Longrightarrow> ends (rec c p)) \<Longrightarrow> ends (listed_schemas rec v base)"
  by (cases v) (auto simp: listed_schemas_def ends_bind list_or_empty_def in_set_enumerate_eq intro!: ends_keep_some)

lemma ends_schema_at: "(\<And>p. allowed v \<Longrightarrow> ends (rec v p)) \<Longrightarrow> ends (schema_at rec allowed v base)"
  by (simp add: schema_at_def)

lemma ends_additional: "(\<And>p. is_dict v \<Longrightarrow> ends (rec v p)) \<Longrightarrow> ends (additional_of rec v base)"
  by (cases v) (auto simp: additional_of_def ends_bind is_dict_def)

lemma ends_convert_object:
  assumes "\<And>c p. c \<in> set (sub_values d) \<Longrightarrow> ends (rec c p)"
  shows "ends (convert_object file rec d pointer)"
  unfolding convert_object_def
  by (intro ends_bindI ends_attributes ends_named ends_listed ends_schema_at ends_additional ends_discriminator ends_simps assms)
    (auto simp: sub_values_def list_at_def)

text \<open>A ranking of the references: each leads to references of a smaller rank only.\<close>

definition ranked :: "(string \<Rightarrow> nat) \<Rightarrow> pyval \<Rightarrow> bool" where
  "ranked rank root \<longleftrightarrow> list_all (\<lambda>r. list_all (\<lambda>r'. rank r' < rank r) (refs_in (target_of root r))) (refs_in root)"

definition below :: "(string \<Rightarrow> nat) \<Rightarrow> nat \<Rightarrow> pyval \<Rightarrow> bool" where
  "below rank k v \<longleftrightarrow> (\<forall>r \<in> set (refs_in v). rank r < k)"

lemma below_within: "below rank k v \<Longrightarrow> within u v \<Longrightarrow> below rank k u"
  by (auto simp: below_def within_def)

lemma ranked_target:
  "ranked rank root \<Longrightarrow> within node root \<Longrightarrow> below rank k node \<Longrightarrow> ref_of node = Some r \<Longrightarrow>
   \<exists>j < k. below rank j (target_of root r)"
  by (rule exI [of _ "rank r"]) (auto simp: ranked_def below_def within_def list_all_iff dest: ref_of_in)

lemma below_chase:
  assumes "ranked rank root"
  shows "within node root \<Longrightarrow> below rank k node \<Longrightarrow>
    chase root seen hops node = node \<or> within (chase root seen hops node) root \<and> (\<exists>j < k. below rank j (chase root seen hops node))"
proof (induction hops arbitrary: seen node k)
  case 0
  then show ?case
    using ranked_target [OF assms 0] by (subst (1 2 3) chase.simps) (auto simp: below_def split: option.split)
next
  case (Suc h)
  show ?case
  proof (cases "ref_of node")
    case None
    then show ?thesis by (simp add: chase.simps)
  next
    case (Some r)
    let ?t = "target_of root r"
    from ranked_target [OF assms Suc.prems Some] obtain j where j: "j < k" "below rank j ?t" by blast
    from Suc.IH [OF within_target j(2)] j within_target [of root r]
    have "within (chase root (r # seen) h ?t) root \<and> (\<exists>i < k. below rank i (chase root (r # seen) h ?t))"
      by (metis less_trans)
    moreover have "within PNone root \<and> (\<exists>i < k. below rank i PNone)"
      using j(1) by (auto simp: below_def)
    moreover have "chase root seen (Suc h) node = PNone \<or> chase root seen (Suc h) node = chase root (r # seen) h ?t"
      by (simp add: chase.simps Some)
    ultimately show ?thesis by metis
  qed
qed

text \<open>A reference costs the whole document, anything else its own weight.\<close>

theorem ranked_schema_ends:
  assumes "ranked rank root"
  shows "within node root \<Longrightarrow> below rank k node \<Longrightarrow> k * Suc (weight root) + weight node < fuel \<Longrightarrow>
    ends (to_schema fuel file root node pointer)"
proof (induction fuel arbitrary: node k pointer)
  case (Suc fuel)
  let ?t = "resolved root node"
  from below_chase [OF assms Suc.prems(1,2)] obtain j where
    j: "within ?t root" "below rank j ?t" "j * Suc (weight root) + weight ?t \<le> k * Suc (weight root) + weight node"
  proof (rule disjE)
    assume "chase root [] 64 node = node"
    with Suc.prems that [of k] show thesis by (simp add: resolved_def)
  next
    assume "within (chase root [] 64 node) root \<and> (\<exists>j < k. below rank j (chase root [] 64 node))"
    then obtain j where "within ?t root" "j < k" "below rank j ?t" by (auto simp: resolved_def)
    moreover from \<open>j < k\<close> have "Suc j * Suc (weight root) \<le> k * Suc (weight root)" by (intro mult_le_mono1) simp
    ultimately show thesis using that [of j] by (simp add: within_def)
  qed
  have "ends (to_schema fuel file root c p)" if "?t = PDict d" "c \<in> set (sub_values d)" for d c p
  proof (rule Suc.IH)
    from inside_sub_values [OF that(2)] that(1) have "inside c ?t" by simp
    then show "within c root" "below rank j c" "j * Suc (weight root) + weight c < fuel"
      using j Suc.prems(3) by (auto simp: inside_def intro: within_trans below_within)
  qed
  then show ?case
    by (auto simp: convert_schema_def ends_bind value_deref intro!: ends_convert_object split: pyval.split)
qed simp

end
