(* ===== verification/InferFacts.thy ===== *)
theory InferFacts
  imports Infer OpenApiFacts
begin

text \<open>
  Reading an inferred schema back. The description of a position is a function of the values
  seen there, so the schema of every position is the one inferred from those values; the
  OpenAPI parser reads it, and the validator accepts the samples.
\<close>

section \<open>What a description says of the samples\<close>

definition field_values :: "string \<Rightarrow> pyval \<Rightarrow> pyval list" where
  "field_values k v = (case v of PDict d \<Rightarrow> map snd (filter (\<lambda>kv. fst kv = k) d) | _ \<Rightarrow> [])"

definition values_at :: "string \<Rightarrow> pyval list \<Rightarrow> pyval list" where
  "values_at k vs = concat (map (field_values k) vs)"

definition elements_of :: "pyval list \<Rightarrow> pyval list" where
  "elements_of vs = concat (map (\<lambda>v. list_or_empty (as_list v)) vs)"

lemma values_at_simps [simp]:
  "values_at k [] = []" "values_at k (v # vs) = field_values k v @ values_at k vs"
  by (simp_all add: values_at_def)

lemma elements_of_simps [simp]:
  "elements_of [] = []" "elements_of (v # vs) = list_or_empty (as_list v) @ elements_of vs"
  by (simp_all add: elements_of_def)

lemma fold_properties:
  "map_of (fold (\<lambda>kv ps. dict_set (fst kv) (f (snd kv) (or_unseen (map_of ps (fst kv)))) ps) d ps0) k
   = (let xs = map snd (filter (\<lambda>kv. fst kv = k) d) in
      if xs = [] then map_of ps0 k else Some (fold f xs (or_unseen (map_of ps0 k))))"
  by (induction d arbitrary: ps0) (auto simp: map_of_dict_set or_unseen_def Let_def)

lemma fold_items:
  "fold (\<lambda>x it. Some (f x (or_unseen it))) xs it = (if xs = [] then it else Some (fold f xs (or_unseen it)))"
  by (induction xs arbitrary: it) (auto simp: or_unseen_def)

lemma observe_seen: "ob_seen (observe_value search v n) = Suc (ob_seen n)"
  by (cases n; cases v) (simp_all add: Let_def)

lemma observe_types: "set (ob_types (observe_value search v n)) = insert (json_type v) (set (ob_types n))"
  by (cases n; cases v) (simp_all add: Let_def)

lemma observe_property:
  "map_of (ob_properties (observe_value search v n)) k =
     (if field_values k v = [] then map_of (ob_properties n) k
      else Some (fold (observe_value search) (field_values k v) (or_unseen (map_of (ob_properties n) k))))"
  by (cases n; cases v) (simp_all add: Let_def field_values_def fold_properties)

lemma observe_items:
  "ob_items (observe_value search v n) =
     (if list_or_empty (as_list v) = [] then ob_items n
      else Some (fold (observe_value search) (list_or_empty (as_list v)) (or_unseen (ob_items n))))"
  by (cases n; cases v) (simp_all add: Let_def list_or_empty_def fold_items)

lemma fold_observe:
  "ob_seen (fold (observe_value search) vs n) = ob_seen n + length vs"
  "set (ob_types (fold (observe_value search) vs n)) = set (ob_types n) \<union> json_type ` set vs"
  "map_of (ob_properties (fold (observe_value search) vs n)) k =
     (if values_at k vs = [] then map_of (ob_properties n) k
      else Some (fold (observe_value search) (values_at k vs) (or_unseen (map_of (ob_properties n) k))))"
  "ob_items (fold (observe_value search) vs n) =
     (if elements_of vs = [] then ob_items n
      else Some (fold (observe_value search) (elements_of vs) (or_unseen (ob_items n))))"
  by (induction vs arbitrary: n)
    (auto simp: observe_seen observe_types observe_property observe_items or_unseen_def)

lemma observe_distinct: "distinct (keys (ob_properties n)) \<Longrightarrow> distinct (keys (ob_properties (observe_value search v n)))"
proof -
  have "distinct (keys (fold (\<lambda>kv ps. dict_set (fst kv) (f kv ps) ps) d ps))" if "distinct (keys ps)" for f d ps
    using that by (induction d arbitrary: ps) (auto simp: distinct_keys_dict_set)
  then show "distinct (keys (ob_properties n)) \<Longrightarrow> ?thesis"
    by (cases n; cases v) (simp_all add: Let_def)
qed

lemma from_seen: "ob_seen (observed_from search vs) = length vs"
  by (simp add: observed_from_def fold_observe unseen_def)

lemma from_types: "set (ob_types (observed_from search vs)) = json_type ` set vs"
  by (simp add: observed_from_def fold_observe unseen_def)

lemma from_property: "map_of (ob_properties (observed_from search vs)) k =
    (if values_at k vs = [] then None else Some (observed_from search (values_at k vs)))"
  by (simp add: observed_from_def fold_observe unseen_def or_unseen_def)

lemma from_items: "ob_items (observed_from search vs) =
    (if elements_of vs = [] then None else Some (observed_from search (elements_of vs)))"
  by (simp add: observed_from_def fold_observe unseen_def or_unseen_def)

lemma from_distinct: "distinct (keys (ob_properties (observed_from search vs)))"
proof -
  have "distinct (keys (ob_properties n)) \<Longrightarrow> distinct (keys (ob_properties (fold (observe_value search) vs n)))" for n
    by (induction vs arbitrary: n) (simp_all add: observe_distinct)
  then show ?thesis by (simp add: observed_from_def unseen_def keys_def)
qed

lemma from_property_member:
  "(k, child) \<in> set (ob_properties (observed_from search vs)) \<Longrightarrow>
     values_at k vs \<noteq> [] \<and> child = observed_from search (values_at k vs)"
  using from_property [of search vs k] from_distinct [of search vs]
  by (auto simp: keys_def dest!: map_of_is_SomeI split: if_splits)

section \<open>The entries of an inferred schema\<close>

definition schema_entries :: "observed \<Rightarrow> (string \<times> pyval) list" where
  "schema_entries node =
     type_entry node @ format_entry node
     @ (if ob_properties node = [] then [] else
          (''properties'', PDict (sort_key fst (map (\<lambda>kv. (fst kv, inferred_schema False (snd kv))) (ob_properties node))))
          # required_entry node)
     @ (case ob_items node of None \<Rightarrow> [] | Some n \<Rightarrow> [(''items'', inferred_schema False n)])
     @ [(''x-apiverity-samples'', PInt (int (ob_seen node)))]"

lemma inferred_schema_entries: "inferred_schema False node = PDict (schema_entries node)"
  by (cases node) (simp add: schema_entries_def enum_entry_def Let_def)

lemma entry_lookup:
  "k \<noteq> ''type'' \<Longrightarrow> map_of (type_entry node) k = None"
  "k \<noteq> ''format'' \<Longrightarrow> map_of (format_entry node) k = None"
  "k \<noteq> ''required'' \<Longrightarrow> map_of (required_entry node) k = None"
  by (simp_all add: type_entry_def format_entry_def required_entry_def Let_def split: list.split)

lemma schema_lookup:
  "val_get (schema_entries node) ''type'' = val_get (type_entry node) ''type''"
  "val_get (schema_entries node) ''format'' = val_get (format_entry node) ''format''"
  "val_get (schema_entries node) ''required'' = (if ob_properties node = [] then PNone else val_get (required_entry node) ''required'')"
  "val_get (schema_entries node) ''properties'' = (if ob_properties node = [] then PNone else
     PDict (sort_key fst (map (\<lambda>kv. (fst kv, inferred_schema False (snd kv))) (ob_properties node))))"
  "val_get (schema_entries node) ''items'' = (case ob_items node of None \<Rightarrow> PNone | Some n \<Rightarrow> inferred_schema False n)"
  "k \<notin> {''type'', ''format'', ''required'', ''properties'', ''items'', ''x-apiverity-samples''} \<Longrightarrow>
     map_of (schema_entries node) k = None"
  "k \<notin> {''type'', ''format'', ''required'', ''properties'', ''items'', ''x-apiverity-samples''} \<Longrightarrow>
     val_get (schema_entries node) k = PNone"
  by (auto simp: schema_entries_def val_get_def entry_lookup map_add_def split: option.split)

lemma declared_inferred:
  "declared_type (schema_entries node) =
     (if concrete_types node = [] then PNone else PStr (join ''|'' (concrete_types node)),
      concrete_types node \<noteq> [] \<and> ''null'' \<in> set (ob_types node))"
proof -
  let ?ts = "concrete_types node"
  have null: "''null'' \<notin> set ?ts" by (simp add: concrete_types_def sorted_set_def)
  have strs: "map (py_str \<circ> PStr) ts = ts" for ts by (induction ts) (simp_all add: py_str_def)
  have filtered: "filter (\<lambda>t. t \<noteq> ''null'') ?ts = ?ts" using null by (auto simp: filter_id_conv)
  have entry: "val_get (schema_entries node) ''type'' = (if ?ts = [] then PNone
      else if ''null'' \<in> set (ob_types node) then PList (map PStr (?ts @ [''null'']))
      else if length ?ts = 1 then PStr (hd ?ts) else PList (map PStr ?ts))"
    unfolding schema_lookup(1) by (simp add: type_entry_def val_get_def Let_def)
  have "val_get (schema_entries node) ''nullable'' = PNone" by (simp add: schema_lookup)
  note defs = declared_type_def entry Let_def this
  consider "?ts = []" | "?ts \<noteq> []" "''null'' \<in> set (ob_types node)"
    | t where "?ts = [t]" "''null'' \<notin> set (ob_types node)"
    | "?ts \<noteq> []" "length ?ts \<noteq> 1" "''null'' \<notin> set (ob_types node)"
    by (cases ?ts; cases "tl ?ts") auto
  then show ?thesis
  proof cases
    case 2
    then show ?thesis by (simp add: defs strs filtered py_str_def)
  next
    case 4
    then show ?thesis using null by (simp add: defs strs filtered)
  qed (simp_all add: defs)
qed

lemma attributes_inferred:
  obtains f where "schema_attributes file (schema_entries node) p = gives f"
    and "sn_type f = (if concrete_types node = [] then None else Some (join ''|'' (concrete_types node)))"
    and "sn_nullable f \<longleftrightarrow> concrete_types node \<noteq> [] \<and> ''null'' \<in> set (ob_types node)"
    and "sn_enum f = None" "sn_const f = PNone" "sn_min_items f = None" "sn_max_items f = None" "sn_unique_items f = None"
    and "sn_min_length f = None" "sn_max_length f = None" "sn_pattern f = None" "sn_minimum f = None" "sn_maximum f = None"
    and "sn_exclusive_minimum f = None" "sn_exclusive_maximum f = None" "sn_multiple_of f = None"
    and "sn_dependent_required f = []"
    and "sn_required f = map py_str (list_at (schema_entries node) ''required'')"
proof -
  obtain fmt where fmt: "str_field (val_get (format_entry node) ''format'') = gives fmt"
    by (cases "ob_formats node"; cases "tl (ob_formats node)") (auto simp: format_entry_def val_get_def str_field_def)
  have type: "str_field (if c then PNone else PStr t) = gives (if c then None else Some t)" for c t
    by (simp add: str_field_def)
  show ?thesis
    by (rule that, simp add: schema_attributes_def declared_inferred Let_def schema_lookup fmt type assigned_def str_field_def [of PNone]
        dependent_required_of_def dict_at_def list_or_empty_def empty_facts_def del: if_split) simp_all
qed

section \<open>Reading the schema\<close>

lemma named_all:
  assumes "\<And>k c p. (k, c) \<in> set subs \<Longrightarrow> \<exists>n. rec c p = gives (Some n) \<and> Q k n"
  shows "\<exists>ns. named_schemas rec subs base = gives ns \<and> map fst ns = map fst subs \<and> (\<forall>(k, n) \<in> set ns. Q k n)"
  using assms
proof (induction subs)
  case (Cons kc subs)
  obtain k c where kc: "kc = (k, c)" by (cases kc)
  from Cons.prems [of k c "base @ ''/'' @ escape_pointer k"] kc obtain n where
    "rec c (base @ ''/'' @ escape_pointer k) = gives (Some n)" "Q k n" by auto
  moreover from Cons obtain ns where
    "named_schemas rec subs base = gives ns" "map fst ns = map fst subs" "\<forall>(k, n) \<in> set ns. Q k n" by fastforce
  ultimately show ?case
    by (intro exI [of _ "(k, n) # ns"]) (simp add: named_schemas_def kc)
qed (simp add: named_schemas_def)

lemma deref_plain: "map_of d ''$ref'' = None \<Longrightarrow> deref file root (PDict d) p = gives (PDict d)"
  by (simp add: deref_def deref_chain.simps ref_of_def)

definition accepts :: "regex \<Rightarrow> schema_node \<Rightarrow> pyval list \<Rightarrow> bool" where
  "accepts search n vs \<longleftrightarrow> (\<forall>v \<in> set vs. \<forall>q. validate_node search False n v q = Inr [])"

text \<open>The node that an inferred schema is read as; \<open>P\<close> relates its sub-schemas to the values seen below.\<close>

definition unconstrained :: "(schema_node \<Rightarrow> pyval list \<Rightarrow> bool) \<Rightarrow> pyval list \<Rightarrow> schema_node \<Rightarrow> bool" where
  "unconstrained P vs n \<longleftrightarrow> (let f = facts n in
     sn_enum f = None \<and> sn_const f = PNone \<and> sn_min_items f = None \<and> sn_max_items f = None \<and> sn_unique_items f = None
     \<and> sn_min_length f = None \<and> sn_max_length f = None \<and> sn_pattern f = None \<and> sn_minimum f = None \<and> sn_maximum f = None
     \<and> sn_exclusive_minimum f = None \<and> sn_exclusive_maximum f = None \<and> sn_multiple_of f = None
     \<and> sn_dependent_required f = []
     \<and> set (sn_required f) \<subseteq> {k. length (values_at k vs) = length vs}
     \<and> additional_properties n = AddlNone \<and> one_of n = None \<and> any_of n = None \<and> prefix_items n = None
     \<and> contains_schema n = None \<and> pattern_properties n = [] \<and> property_names n = None \<and> dependent_schemas n = []
     \<and> if_schema n = None
     \<and> (\<forall>(k, c) \<in> set (properties n). P c (values_at k vs))
     \<and> (\<forall>c. items n = Some c \<longrightarrow> P c (elements_of vs)))"

definition reading :: "regex \<Rightarrow> (schema_node \<Rightarrow> pyval list \<Rightarrow> bool) \<Rightarrow> pyval list \<Rightarrow> schema_node \<Rightarrow> bool" where
  "reading search P vs n \<longleftrightarrow> (let node = observed_from search vs; f = facts n in
     sn_type f = (if concrete_types node = [] then None else Some (join ''|'' (concrete_types node)))
     \<and> (sn_nullable f \<longleftrightarrow> concrete_types node \<noteq> [] \<and> ''null'' \<in> set (ob_types node))
     \<and> fst ` set (properties n) = {k. values_at k vs \<noteq> []} \<and> (items n = None \<longleftrightarrow> elements_of vs = [])
     \<and> unconstrained P vs n)"

lemma required_inferred:
  "set (map py_str (list_at (schema_entries (observed_from search vs)) ''required'')) \<subseteq> {k. length (values_at k vs) = length vs}"
proof -
  let ?node = "observed_from search vs"
  have "length (values_at k vs) = length vs"
    if "(k, child) \<in> set (ob_properties ?node)" "ob_seen child = ob_seen ?node" for k child
    using from_property_member [OF that(1)] that(2) by (simp add: from_seen)
  moreover have "list_at (schema_entries ?node) ''required'' = (if ob_properties ?node = [] then [] else
      map PStr (sort (map fst (filter (\<lambda>(name, child). ob_seen child = ob_seen ?node
        \<and> MIN_SAMPLES_FOR_REQUIRED \<le> ob_seen ?node) (ob_properties ?node)))))"
    unfolding list_at_def schema_lookup(3)
    by (simp add: required_entry_def val_get_def Let_def list_or_empty_def)
  ultimately show ?thesis by (auto simp: py_str_def)
qed

lemma reading_exists:
  assumes props: "\<And>k p. values_at k vs \<noteq> [] \<Longrightarrow>
      \<exists>n. rec (inferred_schema False (observed_from search (values_at k vs))) p = gives (Some n) \<and> P n (values_at k vs)"
    and elems: "\<And>p. elements_of vs \<noteq> [] \<Longrightarrow>
      \<exists>n. rec (inferred_schema False (observed_from search (elements_of vs))) p = gives (Some n) \<and> P n (elements_of vs)"
  shows "\<exists>n. convert_schema file root rec (inferred_schema False (observed_from search vs)) p = gives (Some n) \<and> reading search P vs n"
proof -
  let ?node = "observed_from search vs"
  let ?sd = "schema_entries ?node"
  obtain f where f: "schema_attributes file ?sd p = gives f"
    and facts: "sn_type f = (if concrete_types ?node = [] then None else Some (join ''|'' (concrete_types ?node)))"
      "sn_nullable f \<longleftrightarrow> concrete_types ?node \<noteq> [] \<and> ''null'' \<in> set (ob_types ?node)"
      "sn_enum f = None" "sn_const f = PNone" "sn_min_items f = None" "sn_max_items f = None" "sn_unique_items f = None"
      "sn_min_length f = None" "sn_max_length f = None" "sn_pattern f = None" "sn_minimum f = None" "sn_maximum f = None"
      "sn_exclusive_minimum f = None" "sn_exclusive_maximum f = None" "sn_multiple_of f = None" "sn_dependent_required f = []"
      "sn_required f = map py_str (list_at ?sd ''required'')"
    by (rule attributes_inferred)
  have "\<exists>ns. named_schemas rec (dict_at ?sd ''properties'') (p @ ''/properties'') = gives ns
      \<and> map fst ns = map fst (dict_at ?sd ''properties'') \<and> (\<forall>(k, n) \<in> set ns. P n (values_at k vs))"
  proof (rule named_all)
    fix k c q
    assume "(k, c) \<in> set (dict_at ?sd ''properties'')"
    then obtain child where "(k, child) \<in> set (ob_properties ?node)" "c = inferred_schema False child"
      by (auto simp: dict_at_def schema_lookup list_or_empty_def split: if_splits)
    with from_property_member props show "\<exists>n. rec c q = gives (Some n) \<and> P n (values_at k vs)" by metis
  qed
  then obtain ns where ns: "named_schemas rec (dict_at ?sd ''properties'') (p @ ''/properties'') = gives ns"
    "map fst ns = map fst (dict_at ?sd ''properties'')" "\<forall>(k, n) \<in> set ns. P n (values_at k vs)" by blast
  have "values_at k vs \<noteq> [] \<longleftrightarrow> k \<in> set (keys (ob_properties ?node))" for k
    using from_property [of search vs k] by (simp add: set_keys_eq_dom dom_def)
  moreover have "fst ` set (dict_at ?sd ''properties'') = set (keys (ob_properties ?node))"
    by (simp add: dict_at_def schema_lookup list_or_empty_def keys_def image_image)
  ultimately have fields: "fst ` set ns = {k. values_at k vs \<noteq> []}"
    by (simp add: ns(2) flip: set_map)
  have "\<exists>item. schema_at rec is_dict_or_bool (val_get ?sd ''items'') (p @ ''/items'') = gives item
      \<and> (item = None \<longleftrightarrow> elements_of vs = []) \<and> (\<forall>c. item = Some c \<longrightarrow> P c (elements_of vs))"
  proof (cases "elements_of vs = []")
    case True
    then show ?thesis
      by (intro exI [of _ None]) (simp add: schema_lookup from_items schema_at_def is_dict_or_bool_def is_dict_def)
  next
    case False
    then have "val_get ?sd ''items'' = inferred_schema False (observed_from search (elements_of vs))"
      by (simp add: schema_lookup from_items)
    moreover obtain n where "rec (inferred_schema False (observed_from search (elements_of vs))) (p @ ''/items'') = gives (Some n)"
      "P n (elements_of vs)"
      using elems [OF False] by blast
    ultimately show ?thesis using False
      by (intro exI [of _ "Some n"]) (simp add: schema_at_def is_dict_or_bool_def is_dict_def inferred_schema_entries)
  qed
  then obtain item where item: "schema_at rec is_dict_or_bool (val_get ?sd ''items'') (p @ ''/items'') = gives item"
    "item = None \<longleftrightarrow> elements_of vs = []" "\<forall>c. item = Some c \<longrightarrow> P c (elements_of vs)" by blast
  let ?n = "SchemaNode (f\<lparr>sn_discriminator := None\<rparr>) ns AddlNone item None None None None None None [] None [] None None None"
  have "convert_object file rec ?sd p = gives ?n"
    by (simp add: convert_object_def f ns(1) item(1))
      (simp add: schema_lookup additional_of_def schema_at_def discriminator_of_def listed_schemas_def
        dict_at_def list_or_empty_def named_schemas_def is_dict_def is_dict_or_bool_def)
  moreover have "reading search P vs ?n"
    using facts ns(3) fields item(2,3) required_inferred [of search vs] by (simp add: reading_def unconstrained_def Let_def)
  ultimately show ?thesis
    by (intro exI [of _ ?n]) (simp add: convert_schema_def inferred_schema_entries deref_plain schema_lookup)
qed

section \<open>The samples are accepted\<close>

fun proper_value :: "pyval \<Rightarrow> bool" where
  "proper_value (PDict d) = (distinct (keys d) \<and> (\<forall>kv \<in> set d. proper_value (snd kv)))"
| "proper_value (PList xs) = (\<forall>x \<in> set xs. proper_value x)"
| "proper_value v = True"

fun nesting :: "pyval \<Rightarrow> nat" where
  "nesting (PDict d) = Suc (foldr (\<lambda>kv. max (nesting (snd kv))) d 0)"
| "nesting (PList xs) = Suc (foldr (\<lambda>x. max (nesting x)) xs 0)"
| "nesting v = 1"

text \<open>No position held nothing but null.\<close>

fun typed_everywhere :: "observed \<Rightarrow> bool" where
  "typed_everywhere (Observed types seen vals props item formats) =
     (list_ex (\<lambda>t. t \<noteq> ''null'') types \<and> (\<forall>kv \<in> set props. typed_everywhere (snd kv))
      \<and> (case item of None \<Rightarrow> True | Some n \<Rightarrow> typed_everywhere n))"

lemma set_concrete_types: "set (concrete_types node) = {t \<in> set (ob_types node). t \<noteq> ''null''}"
  by (simp add: concrete_types_def sorted_set_def)

lemma typed_here: "typed_everywhere node \<Longrightarrow> concrete_types node \<noteq> []"
proof
  assume typed: "typed_everywhere node" and "concrete_types node = []"
  then have "{t \<in> set (ob_types node). t \<noteq> ''null''} = {}" by (simp flip: set_concrete_types)
  with typed show False by (cases node) (auto simp: list_ex_iff)
qed

lemma nesting_member: "(k, v) \<in> set d \<Longrightarrow> nesting v < nesting (PDict d)" "x \<in> set xs \<Longrightarrow> nesting x < nesting (PList xs)"
proof -
  have "y \<in> set ys \<Longrightarrow> f y \<le> foldr (\<lambda>y. max (f y)) ys 0" for y ys and f :: "'a \<Rightarrow> nat"
    by (induction ys) (auto simp: le_max_iff_disj)
  from this [of x xs nesting] this [of "(k, v)" d "\<lambda>kv. nesting (snd kv)"]
  show "(k, v) \<in> set d \<Longrightarrow> nesting v < nesting (PDict d)" "x \<in> set xs \<Longrightarrow> nesting x < nesting (PList xs)"
    by auto
qed

lemma values_at_member: "w \<in> set (values_at k vs) \<longleftrightarrow> (\<exists>d. PDict d \<in> set vs \<and> (k, w) \<in> set d)"
proof -
  have "w \<in> set (field_values k v) \<longleftrightarrow> (\<exists>d. v = PDict d \<and> (k, w) \<in> set d)" for v
    by (cases v) (force simp: field_values_def)+
  then show ?thesis by (auto simp: values_at_def)
qed

lemma elements_of_member: "w \<in> set (elements_of vs) \<longleftrightarrow> (\<exists>xs. PList xs \<in> set vs \<and> w \<in> set xs)"
proof -
  have "w \<in> set (list_or_empty (as_list v)) \<longleftrightarrow> (\<exists>xs. v = PList xs \<and> w \<in> set xs)" for v
    by (cases v) (auto simp: list_or_empty_def)
  then show ?thesis by (auto simp: elements_of_def)
qed

lemma plain_type: "v \<noteq> PNone \<Longrightarrow> plain_type_matches (json_type v) v"
  by (cases v) (simp_all add: plain_type_matches_def json_type_def)

lemma no_bar: "CHR ''|'' \<notin> set (json_type v)"
  by (cases v) (simp_all add: json_type_def)

lemma split_join:
  "\<forall>t \<in> set ts. sep \<notin> set t \<Longrightarrow> ts \<noteq> [] \<Longrightarrow> split_char sep (join [sep] ts) = ts"
proof (induction "[sep]" ts rule: join.induct)
  case (2 t)
  then show ?case by (induction t) auto
next
  case (3 x y ys)
  have "split_char sep (x @ sep # s) = x # split_char sep s" if "sep \<notin> set x" for s x
    using that by (induction x) auto
  with 3 show ?case by simp
qed simp

lemma bar_in_join: "length ts > 1 \<Longrightarrow> c \<in> set (join [c] ts)"
  by (cases ts; cases "tl ts") auto

lemma joined_type_matches:
  assumes "ts \<noteq> []" and "set ts \<subseteq> range json_type" and "json_type v \<in> set ts" and "v \<noteq> PNone"
  shows "type_matches (Some (join ''|'' ts)) v"
proof (cases "length ts = 1")
  case True
  then obtain t where "ts = [t]" by (auto simp: length_Suc_conv)
  with assms(3) no_bar [of v] plain_type [OF assms(4)] show ?thesis by (simp add: type_matches_def)
next
  case False
  with assms(1) have "CHR ''|'' \<in> set (join ''|'' ts)" by (intro bar_in_join) (cases ts; auto)
  moreover have "split_char (CHR ''|'') (join ''|'' ts) = ts"
    using assms(1,2) no_bar by (intro split_join) auto
  ultimately show ?thesis
    using assms(3) plain_type [OF assms(4)] by (auto simp: type_matches_def list_ex_iff)
qed

lemma every_sample_has:
  assumes "\<forall>v \<in> set vs. proper_value v" and "length (values_at k vs) = length vs"
  shows "\<forall>v \<in> set vs. \<exists>d. v = PDict d \<and> has_field d k"
proof -
  have one: "length (field_values k v) \<le> 1" if "proper_value v" for v
  proof (cases v)
    case (PDict d)
    with that have "distinct (map fst d)" by (simp add: keys_def)
    then have "length (filter (\<lambda>kv. fst kv = k) d) \<le> 1"
      by (induction d) (force simp: filter_empty_conv)+
    then show ?thesis by (simp add: field_values_def PDict)
  qed (simp_all add: field_values_def)
  have le: "length (values_at k vs) \<le> length vs" if "\<forall>v \<in> set vs. proper_value v" for vs
    using that by (induction vs) (auto dest!: one)
  have "\<forall>v \<in> set vs. field_values k v \<noteq> []"
    using assms
  proof (induction vs)
    case (Cons v vs)
    with le [of vs] one [of v] have "length (field_values k v) = 1" "length (values_at k vs) = length vs" by auto
    with Cons show ?case by auto
  qed simp
  moreover have "\<exists>d. v = PDict d \<and> has_field d k" if "field_values k v \<noteq> []" for v
    using that by (cases v) (auto simp: field_values_def has_field_def keys_def filter_empty_conv)
  ultimately show ?thesis by blast
qed

lemma seq_nothing: "\<forall>r \<in> set rs. r = Inr [] \<Longrightarrow> seq_results rs = Inr []"
  by (induction rs) simp_all

lemma reading_accepts:
  assumes reading: "reading search (accepts search) vs n" and proper: "\<forall>v \<in> set vs. proper_value v"
    and typed: "typed_everywhere (observed_from search vs)"
  shows "accepts search n vs"
  unfolding accepts_def
proof (intro ballI allI)
  fix v q
  assume v: "v \<in> set vs"
  let ?node = "observed_from search vs" and ?f = "facts n"
  let ?ts = "concrete_types ?node"
  have ts: "?ts \<noteq> []" using typed by (rule typed_here)
  have type: "sn_type ?f = Some (join ''|'' ?ts)" and null: "sn_nullable ?f \<longleftrightarrow> ''null'' \<in> set (ob_types ?node)"
    using reading ts by (simp_all add: reading_def Let_def)
  have plain: "unconstrained (accepts search) vs n" using reading by (simp add: reading_def Let_def)
  have subset: "set ?ts \<subseteq> range json_type" by (auto simp: set_concrete_types from_types)
  show "validate_node search False n v q = Inr []"
  proof (cases "v = PNone")
    case True
    with v have "''null'' \<in> set (ob_types ?node)" by (force simp: from_types json_type_def)
    with True null show ?thesis by (simp add: validate_node.simps validate_body_def check_def)
  next
    case False
    then have "json_type v \<noteq> ''null''" by (cases v) (simp_all add: json_type_def)
    with v have here: "json_type v \<in> set ?ts" by (simp add: set_concrete_types from_types)
    let ?rec = "\<lambda>sub w p. validate_node search False sub w p"
    have "validate_typed search ?rec False n v q = Inr []"
    proof (cases "length ?ts = 1")
      case False
      with ts have "CHR ''|'' \<in> set (join ''|'' ?ts)" by (intro bar_in_join) (cases ?ts; auto)
      then show ?thesis by (auto simp: validate_typed_def type)
    next
      case True
      with here have single: "sn_type ?f = Some (json_type v)" by (auto simp: type length_Suc_conv)
      show ?thesis
      proof (cases v)
        case (PList xs)
        have "validate_node search False c w p = Inr []" if "items n = Some c" "w \<in> set xs" for c w p
          using plain that v by (auto simp: unconstrained_def Let_def accepts_def elements_of_member PList)
        then have "validate_items ?rec (items n) 0 xs q = Inr []"
          by (auto simp: validate_items_def in_set_enumerate_eq intro!: seq_nothing split: option.split)
        then show ?thesis
          using plain single PList
          by (simp add: validate_typed_def json_type_def validate_array_def unconstrained_def Let_def check_bound_def check_def
              list_or_empty_def validate_prefix_def validate_contains_def)
      next
        case (PDict d)
        have "dict_get d k = Some w \<Longrightarrow> w \<in> set (values_at k vs)" for k w
          using v by (auto simp: PDict values_at_member dest: map_of_SomeD)
        then have "validate_node search False c w p = Inr []"
          if "(k, c) \<in> set (properties n)" "dict_get d k = Some w" for k c w p
          using plain that by (fastforce simp: unconstrained_def Let_def accepts_def)
        then have "validate_properties ?rec n d q = Inr []"
          by (auto simp: validate_properties_def for_present_def intro!: seq_nothing split: option.split)
        moreover have "validate_required ?f d q = Inr []"
        proof -
          have "has_field d k" if "k \<in> set (sn_required ?f)" for k
            using plain that v every_sample_has [OF proper, of k] by (auto simp: PDict unconstrained_def Let_def)
          then show ?thesis by (simp add: validate_required_def filter_empty_conv)
        qed
        ultimately show ?thesis
          using plain single PDict
          by (simp add: validate_typed_def json_type_def validate_object_def unconstrained_def Let_def check_def
              validate_dependent_required_def validate_dependent_schemas_def for_present_def validate_property_names_def
              validate_pattern_properties_def validate_conditional_def validate_additional_def)
      qed (use plain single in \<open>simp_all add: validate_typed_def json_type_def validate_string_def validate_number_def
            num_of_def unconstrained_def Let_def check_bound_def\<close>)
    qed
    moreover have "type_matches (sn_type ?f) v"
      unfolding type by (rule joined_type_matches [OF ts subset here False])
    ultimately show ?thesis
      using plain False
      by (simp add: validate_node.simps [of search False n] validate_body_def unconstrained_def Let_def validate_variants_def list_or_empty_def)
  qed
qed

lemma typed_below:
  assumes "typed_everywhere (observed_from search vs)"
  shows "values_at k vs \<noteq> [] \<Longrightarrow> typed_everywhere (observed_from search (values_at k vs))"
    and "elements_of vs \<noteq> [] \<Longrightarrow> typed_everywhere (observed_from search (elements_of vs))"
proof -
  obtain types seen vals props item formats where node: "observed_from search vs = Observed types seen vals props item formats"
    by (cases "observed_from search vs")
  show "typed_everywhere (observed_from search (values_at k vs))" if "values_at k vs \<noteq> []"
    using assms from_property [of search vs k] that by (force simp: node dest: map_of_SomeD)
  show "typed_everywhere (observed_from search (elements_of vs))" if "elements_of vs \<noteq> []"
    using assms from_items [of search vs] that by (simp add: node)
qed

theorem inferred_schema_read:
  assumes "\<forall>v \<in> set vs. proper_value v \<and> nesting v \<le> fuel" and "vs \<noteq> []"
    and "typed_everywhere (observed_from search vs)"
  shows "\<exists>n. to_schema fuel file root (inferred_schema False (observed_from search vs)) p = gives (Some n) \<and> accepts search n vs"
  using assms
proof (induction fuel arbitrary: vs p)
  case 0
  have "nesting v \<noteq> 0" for v by (cases v) simp_all
  with 0 show ?case by (cases vs) auto
next
  case (Suc fuel)
  have below: "proper_value w \<and> nesting w \<le> fuel" if "w \<in> set (values_at k vs) \<or> w \<in> set (elements_of vs)" for w k
    using that Suc.prems(1) by (fastforce simp: values_at_member elements_of_member dest: nesting_member)
  have "\<exists>n. convert_schema file root (to_schema fuel file root) (inferred_schema False (observed_from search vs)) p = gives (Some n)
      \<and> reading search (accepts search) vs n"
  proof (rule reading_exists)
    show "\<exists>n. to_schema fuel file root (inferred_schema False (observed_from search (values_at k vs))) q = gives (Some n)
        \<and> accepts search n (values_at k vs)" if "values_at k vs \<noteq> []" for k q
      by (rule Suc.IH) (use below typed_below(1) [OF Suc.prems(3)] that in blast)+
    show "\<exists>n. to_schema fuel file root (inferred_schema False (observed_from search (elements_of vs))) q = gives (Some n)
        \<and> accepts search n (elements_of vs)" if "elements_of vs \<noteq> []" for q
      by (rule Suc.IH) (use below typed_below(2) [OF Suc.prems(3)] that in blast)+
  qed
  then show ?case
    using reading_accepts Suc.prems by (metis to_schema.simps(2))
qed

end
