(* ===== verification/OpenApiReads.thy ===== *)
theory OpenApiReads
  imports OpenApiFacts DiffIdentity
begin

text \<open>
  What loading a whole document yields. Every inside of the parser only hands values of the
  document to the schema reader, so what holds of the schemas the reader returns holds of
  every schema of the contract, and the parser fails the way the reader fails: the locale
  \<open>schema_reader\<close>, interpreted on \<open>to_schema\<close>.
\<close>

section \<open>Outcomes\<close>

definition good :: "(load_error \<Rightarrow> bool) \<Rightarrow> ('a \<Rightarrow> bool) \<Rightarrow> 'a load \<Rightarrow> bool" where
  "good e Q m = (case m of Inl x \<Rightarrow> e x | Inr (a, fs) \<Rightarrow> Q a)"

named_theorems good_intros \<open>how the outcome of a loading step is established\<close>

lemma good_simps [good_intros]:
  "Q a \<Longrightarrow> good e Q (gives a)" "Q a \<Longrightarrow> good e Q (reports g a)" "Q a \<Longrightarrow> good e Q (with_findings fs a)"
  by (simp_all add: good_def gives_def reports_def with_findings_def)

lemma good_bind:
  assumes "good e R m" and "\<And>a. R a \<Longrightarrow> good e Q (f a)"
  shows "good e Q (bind_load m f)"
proof (cases m)
  case (Inr r)
  obtain a fs where "r = (a, fs)" by (cases r)
  with Inr assms(1) assms(2) [of a] show ?thesis
    by (cases "f a") (auto simp: good_def bind_load_def)
qed (use assms(1) in \<open>simp add: good_def bind_load_def\<close>)

lemma good_mono: "good e R m \<Longrightarrow> (\<And>a. R a \<Longrightarrow> Q a) \<Longrightarrow> good e Q m"
  by (auto simp: good_def split: sum.splits)

lemma good_skip: "good e (\<lambda>_. True) m \<Longrightarrow> (\<And>a. good e Q (f a)) \<Longrightarrow> good e Q (bind_load m f)"
  by (rule good_bind)

lemma good_keep_some:
  "(\<And>x. x \<in> set xs \<Longrightarrow> good e (pred_option Q) (f x)) \<Longrightarrow> good e (list_all Q) (keep_some f xs)"
proof (induction xs)
  case (Cons x xs)
  show ?case unfolding keep_some.simps
  proof (rule good_bind)
    show "good e (pred_option Q) (f x)" using Cons.prems by simp
    show "good e (list_all Q) (bind_load (keep_some f xs) (\<lambda>ys. gives (case y of None \<Rightarrow> ys | Some b \<Rightarrow> b # ys)))"
      if "pred_option Q y" for y
      using that Cons by (intro good_bind [where R = "list_all Q"] good_simps) (auto split: option.split)
  qed
qed (simp add: good_simps)

lemma keep_some_fails: "(\<And>x. x \<in> set xs \<Longrightarrow> good e (\<lambda>_. True) (f x)) \<Longrightarrow> good e (\<lambda>_. True) (keep_some f xs)"
  using good_keep_some [where Q = "\<lambda>_. True" and e = e and f = f and xs = xs]
  by (simp add: option.pred_True list.pred_True)

lemma good_fold:
  "(\<And>x s. x \<in> set xs \<Longrightarrow> Q s \<Longrightarrow> good e Q (f x s)) \<Longrightarrow> Q s \<Longrightarrow> good e Q (fold_load f xs s)"
  by (induction xs arbitrary: s) (auto intro!: good_simps good_bind [where R = Q])

section \<open>Values of the document\<close>

lemma within_val_get: "within (PDict d) root \<Longrightarrow> within (val_get d k) root"
  by (blast intro: within_trans inside_within inside_val_get)

lemma within_dict_at: "within (PDict d) root \<Longrightarrow> (n, c) \<in> set (dict_at d k) \<Longrightarrow> within c root"
  by (rule within_trans [OF inside_within [OF inside_dict_at]]) force+

lemma within_list_at: "within (PDict d) root \<Longrightarrow> c \<in> set (list_at d k) \<Longrightarrow> within c root"
  by (blast intro: within_trans inside_within inside_list_at)

lemma within_chase: "within node root \<Longrightarrow> within (chase root seen hops node) root"
proof (induction hops arbitrary: seen node)
  case (Suc h)
  then show ?case
    by (subst chase.simps) (auto intro: within_target split: option.split)
qed (auto simp: chase.simps split: option.split)

lemma good_deref:
  assumes "within node root"
  shows "good e (\<lambda>t. within t root) (deref file root node pointer)"
proof -
  have "value_of (deref file root node pointer) = Some (resolved root node)" by (rule value_deref)
  then show ?thesis
    using within_chase [OF assms] by (auto simp: value_of_Some good_def resolved_def)
qed

section \<open>A reader of schemas\<close>

definition good_parameter :: "(schema_node \<Rightarrow> bool) \<Rightarrow> parameter \<Rightarrow> bool" where
  "good_parameter P p = pred_option P (p_schema_node p)"

definition good_media :: "(schema_node \<Rightarrow> bool) \<Rightarrow> (string, schema_node) dict \<times> (string, streaming_media) dict \<Rightarrow> bool" where
  "good_media P m = (list_all (\<lambda>e. P (snd e)) (fst m) \<and> list_all (\<lambda>e. pred_option P (st_item_schema (snd e))) (snd m))"

definition good_body :: "(schema_node \<Rightarrow> bool) \<Rightarrow> request_body \<Rightarrow> bool" where
  "good_body P b = list_all P (body_schemas b)"

definition good_response :: "(schema_node \<Rightarrow> bool) \<Rightarrow> response \<Rightarrow> bool" where
  "good_response P r = list_all P (response_schemas r)"

definition good_index :: "(schema_node \<Rightarrow> bool) \<Rightarrow> operation_index \<Rightarrow> bool" where
  "good_index P ix = list_all (\<lambda>op. list_all P (operation_schemas op)) (ix_operations ix)"

lemma good_media_body: "good_media P (content, streaming) \<Longrightarrow>
    list_all P (map snd content @ List.map_filter (\<lambda>m. st_item_schema (snd m)) streaming)"
  by (auto simp: good_media_def list_all_iff List.map_filter_def)

locale schema_reader =
  fixes rec :: schema_call and root :: pyval and e :: "load_error \<Rightarrow> bool" and P :: "schema_node \<Rightarrow> bool"
  assumes rec_good: "within v root \<Longrightarrow> good e (pred_option P) (rec v p)"
    and plain_errors: "x \<noteq> RecursionError \<Longrightarrow> e x"
begin

lemma good_raises [good_intros]: "good e Q (raises err)"
  by (simp add: good_def raises_def plain_errors)

lemma good_untyped [good_intros]: "good e Q (Inl (Untyped k))"
  by (simp add: good_def plain_errors)

lemma good_str_field [good_intros]: "good e (\<lambda>_. True) (str_field v)"
  by (cases v) (auto simp: str_field_def intro: good_simps good_raises)

lemma good_schema_at: "within v root \<Longrightarrow> good e (pred_option P) (schema_at rec allowed v p)"
  by (auto simp: schema_at_def intro: rec_good good_simps)

lemma good_parameter_schema:
  assumes "within (PDict d) root"
  shows "good e (pred_option P) (parameter_schema rec d p)"
proof -
  have "within (PDict first) root" if "dict_at d ''content'' = (m, PDict first) # rest" for m first rest
    using within_dict_at [OF assms, of m "PDict first" "''content''"] that by simp
  then show ?thesis
    unfolding parameter_schema_def using assms
    by (auto split: list.split pyval.split prod.split intro!: rec_good good_simps good_schema_at within_val_get)
qed

lemma good_to_parameter:
  assumes "within node root"
  shows "good e (pred_option (good_parameter P)) (to_parameter file root rec node p)"
  unfolding to_parameter_def
  by (rule good_bind [OF good_deref [OF assms]])
    (auto simp: Let_def good_parameter_def split: option.split pyval.split
      intro!: good_simps good_skip good_bind [OF good_parameter_schema] good_str_field)

lemma good_encodings:
  "good e (\<lambda>_. True) (to_encoding node)" "good e (\<lambda>_. True) (item_encodings v)" "good e (\<lambda>_. True) (prefix_encodings v)"
proof -
  show one: "good e (\<lambda>_. True) (to_encoding node)" for node
    by (cases node) (auto simp: to_encoding_def intro!: good_simps good_skip good_str_field)
  show "good e (\<lambda>_. True) (item_encodings v)"
    by (cases v) (auto simp: item_encodings_def intro!: good_simps good_skip one keep_some_fails)
  show "good e (\<lambda>_. True) (prefix_encodings v)"
    unfolding prefix_encodings_def by (intro keep_some_fails good_skip one good_simps) simp
qed

lemma good_to_streaming:
  "within (PDict obj) root \<Longrightarrow>
   good e (pred_option (\<lambda>st. pred_option P (st_item_schema st))) (to_streaming file rec media obj p)"
  unfolding to_streaming_def Let_def
  by (intro good_bind [OF good_schema_at] good_skip [OF good_encodings(2)] good_skip [OF good_encodings(3)] good_simps within_val_get)
    auto

lemma good_read_media:
  "(\<And>m v. (m, v) \<in> set entries \<Longrightarrow> within v root) \<Longrightarrow> good e (good_media P) (read_media file rec p entries)"
proof (induction entries)
  case (Cons entry entries)
  obtain m v where entry: "entry = (m, v)" by (cases entry)
  have rest: "good e (good_media P) (read_media file rec p entries)" using Cons by auto
  show ?case
  proof (cases v)
    case (PDict obj)
    then have "within (PDict obj) root" using Cons.prems by (auto simp: entry)
    then have "good e (pred_option P) (body_of_media rec p (m, v))"
      by (auto simp: body_of_media_def PDict list_or_empty_def intro!: good_schema_at within_val_get)
    with \<open>within (PDict obj) root\<close> show ?thesis
      unfolding entry PDict
      by (auto simp: good_media_def intro!: good_simps good_bind [OF good_to_streaming] good_bind [OF rest]
          elim!: good_bind split: option.split)
  qed (use rest in \<open>simp_all add: entry\<close>)
qed (auto simp: good_media_def intro: good_simps)

lemma good_content: "within (PDict d) root \<Longrightarrow> good e (good_media P) (read_media file rec p (dict_at d ''content''))"
  by (rule good_read_media) (rule within_dict_at)

lemma good_to_request_body:
  assumes "within node root"
  shows "good e (pred_option (good_body P)) (to_request_body file root rec node p)"
  unfolding to_request_body_def
  by (rule good_bind [OF good_deref [OF assms]])
    (auto simp: good_body_def body_schemas_def good_media_body simp del: list_all_append split: pyval.split prod.split
      intro!: good_simps good_skip [OF good_str_field] good_bind [OF good_content])

lemma good_header_schema:
  assumes "within (snd entry) root"
  shows "good e (\<lambda>_. True) (header_schema file root rec p entry)"
proof -
  have "within (val_get (list_or_empty (as_dict t)) k) root" if "within t root" for t k
    using that by (cases t) (auto simp: list_or_empty_def val_get_def [of "[]"] intro: within_val_get)
  with assms show ?thesis
    by (cases entry) (auto simp: header_schema_def Let_def
      intro!: good_simps good_bind [OF good_deref] good_skip [OF good_mono [OF good_schema_at]])
qed

lemma good_to_link: "good e (\<lambda>_. True) (to_link entry)"
  by (auto simp: to_link_def link_parameters_def split: pyval.split
      intro!: good_simps good_skip good_str_field good_raises)

lemma good_to_response:
  assumes "within node root"
  shows "good e (pred_option (good_response P)) (to_response file root rec status node p)"
  unfolding to_response_def
proof (rule good_bind [OF good_deref [OF assms]])
  have headers: "good e (\<lambda>_. True) (keep_some (header_schema file root rec p) (dict_at d ''headers''))"
    if "within (PDict d) root" for d
    using within_dict_at [OF that] by (intro keep_some_fails good_header_schema) auto
  have links: "good e (\<lambda>_. True) (keep_some to_link xs)" for xs
    by (intro keep_some_fails good_to_link)
  show "within target root \<Longrightarrow> good e (pred_option (good_response P)) (case target of
       PDict d \<Rightarrow>
         bind_load (keep_some (header_schema file root rec p) (dict_at d ''headers'')) (\<lambda>headers.
         bind_load (read_media file rec p (dict_at d ''content'')) (\<lambda>(content, streaming).
         bind_load (keep_some to_link (dict_at d ''links'')) (\<lambda>links.
         bind_load (str_field (val_get d ''description'')) (\<lambda>description.
           gives (Some \<lparr>rs_status = status, rs_description = description, rs_headers = headers, rs_content = content,
             rs_streaming = streaming, rs_links = links, rs_source_location = loc file p\<rparr>)))))
     | _ \<Rightarrow> gives None)" for target
    by (auto simp: good_response_def response_schemas_def good_media_body simp del: list_all_append split: pyval.split prod.split
      intro!: good_simps good_skip [OF headers] good_skip [OF links] good_skip [OF good_str_field] good_bind [OF good_content])
qed

lemma good_to_examples:
  assumes "within (PDict d) root"
  shows "good e (\<lambda>_. True) (to_examples file root d p)"
  unfolding to_examples_def
  using within_dict_at [OF assms]
  by (intro keep_some_fails)
    (auto simp: Let_def split: pyval.split intro!: good_simps good_skip good_str_field good_bind [OF good_deref])

lemma good_iter_or_empty:
  assumes "within v root"
  shows "good e (list_all (\<lambda>x. within x root)) (iter_or_empty v)"
proof (cases v)
  case (PList xs)
  with assms show ?thesis
    by (auto simp: iter_or_empty_def lift_result_def list_all_iff
        intro!: good_simps intro: within_trans [OF inside_within [OF inside_list]])
qed (auto simp: iter_or_empty_def lift_result_def list_all_iff within_def intro!: good_simps good_raises)

lemma good_parameters_at:
  assumes "within v root"
  shows "good e (list_all (good_parameter P)) (parameters_at file root rec v p)"
  unfolding parameters_at_def
  by (rule good_bind [OF good_iter_or_empty [OF assms]])
    (auto simp: list_all_iff in_set_enumerate_eq intro!: good_keep_some good_to_parameter)

lemma good_one_response:
  assumes "within (snd entry) root"
  shows "good e (pred_option (good_response P)) (one_response file root rec k p entry)"
  using assms by (cases entry) (auto simp: one_response_def Let_def
    intro!: good_simps good_bind [OF good_to_response] good_skip [OF good_mono [OF good_deref]])

lemma good_responses_of:
  "within (PDict d) root \<Longrightarrow> good e (list_all (good_response P)) (responses_of file root rec k d p)"
  unfolding responses_of_def
  by (rule good_skip) (auto intro!: good_simps good_keep_some good_one_response dest: within_dict_at)

lemma good_register_id: "good e (\<lambda>_. True) (register_id file k v p seen)"
  by (auto simp: register_id_def Let_def split: option.split intro: good_simps)

lemma good_request_body_at:
  assumes "within (PDict d) root"
  shows "good e (pred_option (good_body P)) (if is_dict (val_get d ''requestBody'') then
      bind_load (to_request_body file root rec (val_get d ''requestBody'') p) (\<lambda>b. with_findings (fs b) b) else gives None)"
  using assms by (auto intro!: good_simps good_bind [OF good_to_request_body] within_val_get)

lemma good_to_operation:
  assumes "within (PDict d) root" and "within shared root" and "good_index P ix"
  shows "good e (good_index P) (to_operation file root rec path_str shared path_pointer verb d p ix)"
proof -
  have schemas: "list_all P (operation_schemas op)"
    if "list_all (good_parameter P) (op_parameters op)" and "pred_option (good_body P) (op_request_body op)"
      and "list_all (good_response P) (op_responses op)" for op
    using that by (cases "op_request_body op")
      (auto simp: operation_schemas_def good_parameter_def good_body_def good_response_def list_all_iff List.map_filter_def)
  show ?thesis
    unfolding to_operation_def Let_def
    apply (rule good_skip)
     apply (auto intro: good_simps) [1]
    apply (rule good_bind [OF good_parameters_at [OF assms(2)]])
    apply (rule good_bind [OF good_parameters_at [OF within_val_get [OF assms(1)]]])
    apply (rule good_bind [OF good_request_body_at [OF assms(1)]])
    apply (rule good_bind [OF good_responses_of [OF assms(1)]])
    apply (rule good_skip [OF good_register_id])
    apply (simp only: split_beta)
    apply (rule good_skip)
     apply (rule good_mono [OF good_iter_or_empty [OF within_val_get [OF assms(1)]]], simp)
    apply (rule good_skip [OF good_to_examples [OF assms(1)]])
    apply (rule good_skip [OF good_str_field])
    apply (rule good_skip [OF good_str_field])
    apply (rule good_simps)
    using assms(3) apply (simp add: good_index_def schemas)
    done
qed

lemma within_operation_nodes:
  "within (PDict d) root \<Longrightarrow> (verb, node, p) \<in> set (operation_nodes d p0) \<Longrightarrow> within node root"
  unfolding operation_nodes_def by (auto intro: within_val_get within_dict_at)

lemma good_one_operation:
  assumes "within (fst (snd entry)) root" and "within shared root" and "good_index P ix"
  shows "good e (good_index P) (one_operation file root rec path_str shared path_pointer entry ix)"
  using assms by (cases entry) (auto simp: one_operation_def split: pyval.split
    intro!: good_simps good_to_operation good_bind [OF good_deref])

lemma good_one_path:
  assumes "within (snd entry) root" and "good_index P ix"
  shows "good e (good_index P) (one_path file root rec entry ix)"
proof -
  have nodes: "good e (good_index P) (fold_load (one_operation file root rec path_str (val_get d ''parameters'') p)
      (operation_nodes d p) ix)" if "within (PDict d) root" for d path_str p
    using within_operation_nodes [OF that] that assms(2)
    by (intro good_fold good_one_operation) (auto intro: within_val_get)
  show ?thesis
    using assms by (cases entry) (auto simp: one_path_def Let_def split: pyval.split
      intro!: good_simps nodes good_bind [OF good_deref])
qed

lemma good_to_server: "good e (\<lambda>_. True) (to_server v)"
  by (auto simp: to_server_def split: pyval.split option.split intro!: good_simps good_skip good_str_field)

lemma good_to_security_scheme: "within (snd entry) root \<Longrightarrow> good e (\<lambda>_. True) (to_security_scheme file root entry)"
  by (cases entry) (auto simp: to_security_scheme_def scheme_location_def Let_def split: pyval.split option.split
    intro!: good_simps good_skip good_str_field good_raises good_bind [OF good_deref])

lemma good_fields: "good e (\<lambda>_. True) (mapping_or_empty v)"
  by (auto simp: mapping_or_empty_def split: pyval.split intro!: good_simps good_raises)

lemma good_components:
  "good e (\<lambda>d. within (PDict d) (PDict doc)) (components_of doc)"
  by (auto simp: components_of_def split: option.split pyval.split intro!: good_simps good_raises
      dest!: map_of_SomeD intro: inside_within inside_dict) (simp add: within_def)

end

lemma good_parse_service:
  assumes "schema_reader (to_schema fuel file (PDict doc)) (PDict doc) e P"
  shows "good e (\<lambda>svc. svc_protocol svc = OPENAPI \<and> list_all (\<lambda>op. list_all P (operation_schemas op)) (svc_operations svc))
     (parse_service fuel file doc deps edges)"
proof -
  let ?root = "PDict doc"
  note reader = schema_reader.good_str_field [OF assms] schema_reader.good_fields [OF assms]
  have servers: "good e (\<lambda>_. True) (keep_some to_server (list_at doc ''servers''))"
    by (intro keep_some_fails schema_reader.good_to_server [OF assms])
  have schemes: "good e (\<lambda>_. True) (keep_some (to_security_scheme file ?root) (dict_at components ''securitySchemes''))"
    if "within (PDict components) ?root" for components
    using within_dict_at [OF that] by (intro keep_some_fails schema_reader.good_to_security_scheme [OF assms]) auto
  have paths: "good e (good_index P) (fold_load (one_path file ?root (to_schema fuel file ?root)) (dict_at doc ''paths'')
      \<lparr>ix_keys = [], ix_ids = [], ix_operations = []\<rparr>)"
    using within_dict_at [of doc ?root]
    by (intro good_fold schema_reader.good_one_path [OF assms]) (auto simp: good_index_def)
  show ?thesis
    unfolding parse_service_def Let_def
    apply (rule good_skip, rule good_simps, rule TrueI)
    apply (rule good_skip [OF reader(2)])
    apply (rule good_skip [OF reader(1)])
    apply (rule good_skip, rule good_simps, rule TrueI)
    apply (rule good_skip [OF servers])
    apply (rule good_bind [OF schema_reader.good_components [OF assms]])
    apply (rule good_skip [OF schemes], assumption)
    apply (rule good_bind [OF paths])
    apply (rule good_simps)
    apply (simp add: good_index_def list_all_iff)
    done
qed

section \<open>The schemas the reader returns\<close>

text \<open>Every discriminator mapping is a dict; a \<open>not\<close> of the document is nowhere in the result.\<close>

fun plain_schema :: "schema_node \<Rightarrow> bool" where
  "plain_schema n = (discriminator_ok (facts n) \<and> not_schema n = None \<and> list_all plain_schema (sub_schemas n))"

declare plain_schema.simps [simp del]

lemma plain_schema_wf: "plain_schema n \<Longrightarrow> wf_schema n"
proof (induction n rule: plain_schema.induct)
  case (1 n)
  then have "discriminator_ok (facts n)" "\<forall>c \<in> set (sub_schemas n). plain_schema c"
    by (simp_all add: plain_schema.simps [of n] list_all_iff)
  with 1 show ?case by (simp add: wf_schema.simps [of n] list_all_iff)
qed

abbreviation returns :: "('a \<Rightarrow> bool) \<Rightarrow> 'a load \<Rightarrow> bool" where
  "returns \<equiv> good (\<lambda>_. True)"

lemma returns_any [simp]: "returns (\<lambda>_. True) m"
  by (auto simp: good_def split: sum.split)

lemma mapping_ok:
  "discriminator_ok (f\<lparr>sn_discriminator := None\<rparr>)"
  "discriminator_ok (f\<lparr>sn_discriminator := Some [(''propertyName'', n), (''mapping'', PDict m)]\<rparr>)"
  by (simp_all add: discriminator_ok_def list_or_empty_def val_get_def dict_of_val_def truthy_def)

lemma returns_discriminator: "returns (\<lambda>x. discriminator_ok (f\<lparr>sn_discriminator := x\<rparr>)) (discriminator_of d)"
  by (simp add: discriminator_of_def Let_def good_simps mapping_ok raises_def good_def gives_def truthy_def split: pyval.split)

lemma returns_named:
  assumes "\<And>c p. returns (pred_option P) (rec c p)"
  shows "returns (list_all (\<lambda>e. P (snd e))) (named_schemas rec subs base)"
  unfolding named_schemas_def
proof (rule good_keep_some)
  show "returns (pred_option (\<lambda>e. P (snd e))) (case entry of (name, sub) \<Rightarrow>
      bind_load (rec sub (base @ ''/'' @ escape_pointer name)) (\<lambda>c. gives (map_option (Pair name) c)))" for entry
    by (auto intro!: good_bind [OF assms] good_simps simp: option.pred_map comp_def split: prod.split)
qed

lemma returns_listed:
  assumes "\<And>c p. returns (pred_option P) (rec c p)"
  shows "returns (pred_option (list_all P)) (listed_schemas rec v base)"
  by (cases v) (auto simp: listed_schemas_def intro!: good_simps good_bind [OF good_keep_some] assms split: prod.split)

lemma returns_at: "(\<And>c p. returns (pred_option P) (rec c p)) \<Longrightarrow> returns (pred_option P) (schema_at rec allowed v base)"
  by (auto simp: schema_at_def intro: good_simps)

lemma returns_additional:
  assumes "\<And>c p. returns (pred_option P) (rec c p)"
  shows "returns (\<lambda>a. \<forall>m. a = AddlSchema m \<longrightarrow> P m) (additional_of rec v base)"
  by (cases v) (auto simp: additional_of_def intro!: good_simps good_bind [OF assms] split: option.splits)

lemma returns_convert_object:
  assumes "\<And>c p. returns (pred_option plain_schema) (rec c p)"
  shows "returns plain_schema (convert_object file rec d pointer)"
proof -
  note steps = returns_named [OF assms] returns_listed [OF assms] returns_at [OF assms] returns_additional [OF assms]
  have node: "plain_schema (SchemaNode (f\<lparr>sn_discriminator := disc\<rparr>) props addl item ones anys alls None positions cont
         patterns names deps ifs thens elses)"
    if "discriminator_ok (f\<lparr>sn_discriminator := disc\<rparr>)" "list_all (\<lambda>e. plain_schema (snd e)) props"
      "\<forall>m. addl = AddlSchema m \<longrightarrow> plain_schema m" "pred_option plain_schema item"
      "pred_option (list_all plain_schema) ones" "pred_option (list_all plain_schema) anys"
      "pred_option (list_all plain_schema) alls" "pred_option (list_all plain_schema) positions"
      "pred_option plain_schema cont" "list_all (\<lambda>e. plain_schema (snd e)) patterns" "pred_option plain_schema names"
      "list_all (\<lambda>e. plain_schema (snd e)) deps" "pred_option plain_schema ifs" "pred_option plain_schema thens"
      "pred_option plain_schema elses"
    for f disc props addl item ones anys alls positions cont patterns names deps ifs thens elses
    using that
    by (subst plain_schema.simps) (auto simp: sub_schemas_def opt_nodes_def list_or_empty_def list_all_iff
        split: additional.splits option.splits)
  show ?thesis
    unfolding convert_object_def
    apply (rule good_skip [OF returns_any])
    apply (rule good_bind [OF steps(1)])
    apply (rule good_bind [OF steps(4)])
    apply (rule good_bind [OF steps(3)])
    apply (rule good_bind [OF returns_discriminator])
    apply (rule good_bind [OF steps(2)])+
    apply (rule good_bind [OF steps(3)])
    apply (rule good_bind [OF steps(1)])
    apply (rule good_bind [OF steps(3)])
    apply (rule good_bind [OF steps(1)])
    apply (rule good_bind [OF steps(3)])+
    apply (rule good_simps, rule node; assumption)
    done
qed

theorem returns_plain_schemas: "returns (pred_option plain_schema) (to_schema fuel file root node pointer)"
proof (induction fuel arbitrary: node pointer)
  case (Suc fuel)
  have "returns (pred_option plain_schema) (case target of
       PNone \<Rightarrow> gives None
     | PDict d \<Rightarrow> bind_load (convert_object file (to_schema fuel file root) d pointer) (\<lambda>n. gives (Some n))
     | _ \<Rightarrow> reports g None)" for target g
    by (auto split: pyval.split intro!: good_simps good_bind [OF returns_convert_object] Suc)
  then show ?case
    by (simp add: convert_schema_def good_skip)
qed (simp add: good_def)

section \<open>Within the recursion limit\<close>

definition read_limit :: "(string \<Rightarrow> nat) \<Rightarrow> pyval \<Rightarrow> nat" where
  "read_limit rank root = foldr (\<lambda>r. max (Suc (rank r))) (refs_in root) 0 * Suc (weight root) + weight root"

text \<open>How a load may fail: never by recursion when the limit covers a ranked document.\<close>

definition load_failure :: "nat \<Rightarrow> pyval \<Rightarrow> load_error \<Rightarrow> bool" where
  "load_failure fuel root x \<longleftrightarrow> (x = RecursionError \<longrightarrow> \<not> (\<exists>rank. ranked rank root \<and> read_limit rank root < fuel))"

lemma below_top: "below rank (foldr (\<lambda>r. max (Suc (rank r))) (refs_in root) 0) root"
proof -
  have "r \<in> set rs \<Longrightarrow> rank r < foldr (\<lambda>r. max (Suc (rank r))) rs 0" for r rs
    by (induction rs) (auto simp: less_max_iff_disj)
  then show ?thesis by (simp add: below_def)
qed

lemma to_schema_ends:
  assumes "ranked rank root" and "read_limit rank root < fuel" and "within node root"
  shows "ends (to_schema fuel file root node pointer)"
  by (rule ranked_schema_ends [OF assms(1,3) below_within [OF below_top assms(3)]])
    (use assms(2,3) in \<open>simp add: read_limit_def within_def\<close>)

interpretation loader: schema_reader "to_schema fuel label root" root "load_failure fuel root" plain_schema
  for fuel label root
proof
  fix v p
  assume "within v root"
  then have "ends (to_schema fuel label root v p) \<or> \<not> (\<exists>rank. ranked rank root \<and> read_limit rank root < fuel)"
    by (blast intro: to_schema_ends)
  with returns_plain_schemas [of fuel label root v p]
  show "good (load_failure fuel root) (pred_option plain_schema) (to_schema fuel label root v p)"
    by (auto simp: good_def load_failure_def ends_def split: sum.splits)
qed (simp add: load_failure_def)

theorem parse_good:
  "good (load_failure fuel (PDict (bn_document (bundle raw))))
     (\<lambda>svc. svc_protocol svc = OPENAPI \<and> (\<forall>op \<in> set (svc_operations svc). list_all plain_schema (operation_schemas op)))
     (parse fuel label bundle raw)"
  unfolding parse_def Let_def
  by (rule good_skip, rule good_simps, rule TrueI,
      rule good_mono [OF good_parse_service [OF loader.schema_reader_axioms]])
    (simp add: list_all_iff)

lemma loaded_service:
  assumes "parse fuel label bundle raw = Inr (svc, fs)"
  shows "svc_protocol svc = OPENAPI" and "op \<in> set (svc_operations svc) \<Longrightarrow> list_all plain_schema (operation_schemas op)"
  using parse_good [of fuel "bundle" raw label] assms by (simp_all add: good_def)

lemma loaded_wf:
  assumes "parse fuel label bundle raw = Inr (svc, fs)"
  shows "wf_service svc" and "\<not> truncated_manifest svc"
proof -
  show "wf_service svc"
    using loaded_service(2) [OF assms]
    by (auto simp: wf_service_def wf_operation_def list_all_iff intro: plain_schema_wf)
  show "\<not> truncated_manifest svc" by (simp add: truncated_manifest_def loaded_service(1) [OF assms])
qed

lemma parse_ends:
  assumes "ranked rank (PDict (bn_document (bundle raw)))"
    and "read_limit rank (PDict (bn_document (bundle raw))) < fuel"
  shows "ends (parse fuel label bundle raw)"
  using parse_good [of fuel "bundle" raw label] assms
  by (auto simp: good_def load_failure_def ends_def split: sum.splits)

lemma lost_never_loads:
  assumes "served (PDict (bn_document (bundle raw))) (bn_document (bundle raw)) s"
    and "lost (to_schema fuel label (PDict (bn_document (bundle raw)))) s"
  shows "parse fuel label bundle raw \<noteq> Inr result"
proof -
  have "value_of (parse fuel label bundle raw) = None"
    using served_lost [OF assms] by (simp add: parse_def Let_def value_bind_None)
  then show ?thesis by (cases result) (auto simp: value_of_def)
qed

end
