(* ===== verification/InferReads.thy ===== *)
theory InferReads
  imports InferDocument InferFacts OpenApiReads
begin

text \<open>
  From recorded traffic to a contract and back: every recorded response is found in the
  inferred document at its method, template and status, and the contract that the OpenAPI
  parser reads from the document accepts its body.
\<close>

section \<open>The table of operations\<close>

definition status_of :: "operation_table \<Rightarrow> string \<times> string \<Rightarrow> int \<Rightarrow> observed option" where
  "status_of T k s = (case dict_get T k of None \<Rightarrow> None | Some op \<Rightarrow> dict_get (io_statuses op) s)"

definition bodies_for :: "(string, templating) dict \<Rightarrow> (string \<Rightarrow> string) \<Rightarrow> string \<times> string \<Rightarrow> int
    \<Rightarrow> exchange_entry list \<Rightarrow> pyval list" where
  "bodies_for templates url_path k s xs = map xe_response_body (filter (\<lambda>x. entry_key templates url_path x = k
     \<and> xe_status x = Some s \<and> xe_response_body x \<noteq> PNone) xs)"

lemma record_status_get:
  "dict_get (record_status search x m) s = (if xe_status x = Some s then
     Some (if xe_response_body x = PNone then or_unseen (dict_get m s) else observe_value search (xe_response_body x) (or_unseen (dict_get m s)))
   else dict_get m s)"
  by (auto simp: record_status_def map_of_dict_set Let_def split: option.split)

lemma status_of_record:
  "status_of (record_entry search templates url_path x T) k s =
    (if entry_key templates url_path x = k \<and> xe_status x = Some s then
       Some (if xe_response_body x = PNone then or_unseen (status_of T k s)
             else observe_value search (xe_response_body x) (or_unseen (status_of T k s)))
     else status_of T k s)"
  by (auto simp: record_entry_def status_of_def map_of_dict_set record_status_get Let_def split: option.split)

lemma status_of_fold:
  "or_unseen (status_of (fold (record_entry search templates url_path) xs T) k s)
     = fold (observe_value search) (bodies_for templates url_path k s xs) (or_unseen (status_of T k s))
   \<and> (status_of T k s \<noteq> None \<or> (\<exists>x \<in> set xs. entry_key templates url_path x = k \<and> xe_status x = Some s)
      \<longrightarrow> status_of (fold (record_entry search templates url_path) xs T) k s \<noteq> None)"
proof (induction xs arbitrary: T)
  case (Cons x xs)
  show ?case
    using Cons [of "record_entry search templates url_path x T"]
    by (auto simp: status_of_record bodies_for_def or_unseen_def [of "Some _"] split: if_splits)
qed (simp add: bodies_for_def)

lemma record_entry_keys:
  "distinct (keys T) \<Longrightarrow> distinct (keys (fold (record_entry search templates url_path) xs T))
   \<and> set (keys (fold (record_entry search templates url_path) xs T)) = set (keys T) \<union> entry_key templates url_path ` set xs"
  by (induction xs arbitrary: T) (auto simp: record_entry_def distinct_keys_dict_set set_keys_dict_set Let_def)

section \<open>The paths of the document\<close>

lemma upper_chars: "upper_char (upper_char c) = upper_char c" "upper_char (lower_char (upper_char c)) = upper_char c"
proof -
  have byte: "of_char (char_of n) = n" if "n < 256" for n :: nat
    using that by (simp add: of_char_of)
  define n :: nat where "n = of_char c"
  have "n < 256" unfolding n_def using of_char_mod_256 [of c, where 'a = nat] by (metis mod_less_divisor zero_less_numeral)
  moreover have c: "c = char_of n" by (simp add: n_def)
  ultimately show "upper_char (upper_char c) = upper_char c" "upper_char (lower_char (upper_char c)) = upper_char c"
    by (auto simp: c upper_char_def lower_char_def Let_def byte)
qed

lemma upper_upper [simp]: "upper (upper s) = upper s" "upper (lower (upper s)) = upper s"
  by (simp_all add: upper_def lower_def upper_chars)

definition item_of :: "(string, (string, pyval) dict) dict \<Rightarrow> string \<Rightarrow> string \<Rightarrow> pyval option" where
  "item_of paths t m = (case dict_get paths t of None \<Rightarrow> None | Some item \<Rightarrow> dict_get item m)"

lemma item_of_add:
  "item_of (add_operation infer_enums noun ((method, template), op) paths) t m =
     (if template = t \<and> lower method = m then Some (operation_entry infer_enums noun op) else item_of paths t m)"
  by (auto simp: add_operation_def item_of_def map_of_dict_set list_or_empty_def split: option.split)

lemma item_of_fold:
  assumes "\<forall>((method', t'), op') \<in> set es. t' = t \<and> lower method' = m \<longrightarrow> op' = op"
    and "item_of paths t m = Some (operation_entry infer_enums noun op) \<or> (\<exists>method'. lower method' = m \<and> ((method', t), op) \<in> set es)"
  shows "item_of (fold (add_operation infer_enums noun) es paths) t m = Some (operation_entry infer_enums noun op)"
  using assms
proof (induction es arbitrary: paths)
  case (Cons e es)
  obtain method' t' op' where e: "e = ((method', t'), op')" by (cases e) auto
  have "item_of (add_operation infer_enums noun e paths) t m = Some (operation_entry infer_enums noun op)
      \<or> (\<exists>method'. lower method' = m \<and> ((method', t), op) \<in> set es)"
    using Cons.prems by (auto simp: e item_of_add)
  then show ?case using Cons by simp
qed simp

lemma path_items_get:
  assumes "distinct (keys T)" and "\<forall>k \<in> set (keys T). upper (fst k) = fst k" and "dict_get T (method, t) = Some op"
  shows "item_of (path_items infer_enums noun T) t (lower method) = Some (operation_entry infer_enums noun op)"
  unfolding path_items_def
proof (rule item_of_fold)
  show "\<forall>((method', t'), op') \<in> set (sort_key (fst \<circ> fst) (sort_key (snd \<circ> fst) T)). t' = t \<and> lower method' = lower method \<longrightarrow> op' = op"
  proof (intro ballI, clarsimp)
    fix method' op'
    assume mem: "((method', t), op') \<in> set T" and same: "lower method' = lower method"
    have "(method, t) \<in> set (keys T)" using assms(3) by (auto simp: set_keys_eq_dom)
    moreover have "(method', t) \<in> set (keys T)" using mem by (force simp: keys_def)
    ultimately have "method' = method" using assms(2) arg_cong [OF same, of upper] upper_upper(2)
      by (metis fst_conv)
    with mem assms(1,3) show "op' = op" by (simp add: keys_def)
  qed
  show "item_of [] t (lower method) = Some (operation_entry infer_enums noun op)
      \<or> (\<exists>method'. lower method' = lower method \<and> ((method', t), op) \<in> set (sort_key (fst \<circ> fst) (sort_key (snd \<circ> fst) T)))"
    using map_of_SomeD [OF assms(3)] by auto
qed

definition methods_in :: "string list \<Rightarrow> (string, (string, pyval) dict) dict \<Rightarrow> bool" where
  "methods_in ms paths \<longleftrightarrow> (\<forall>(t, item) \<in> set paths. set (keys item) \<subseteq> set ms)"

lemma set_dict_set: "set (dict_set k v d) \<subseteq> insert (k, v) (set d)"
  by (induction k v d rule: dict_set.induct) auto

lemma methods_in_add:
  assumes "methods_in ms paths" and "lower method \<in> set ms"
  shows "methods_in ms (add_operation infer_enums noun ((method, template), op) paths)"
proof -
  let ?item = "dict_set (lower method) (operation_entry infer_enums noun op) (list_or_empty (dict_get paths template))"
  have "set (keys (list_or_empty (dict_get paths template))) \<subseteq> set ms"
  proof (cases "dict_get paths template")
    case (Some item)
    then show ?thesis using assms(1) map_of_SomeD [OF Some] by (auto simp: methods_in_def list_or_empty_def)
  qed (simp add: list_or_empty_def keys_def)
  then have "set (keys ?item) \<subseteq> set ms" using assms(2) by (simp add: set_keys_dict_set)
  moreover have "set (add_operation infer_enums noun ((method, template), op) paths) \<subseteq> insert (template, ?item) (set paths)"
    using set_dict_set [of template ?item paths] by (simp add: add_operation_def)
  ultimately show ?thesis using assms(1) unfolding methods_in_def by blast
qed

lemma path_items_methods:
  assumes "\<And>k. k \<in> set (keys T) \<Longrightarrow> lower (fst k) \<in> set ms"
  shows "methods_in ms (path_items infer_enums noun T)"
proof -
  have fold: "methods_in ms (fold (add_operation infer_enums noun) es paths)"
    if "methods_in ms paths" "\<And>e. e \<in> set es \<Longrightarrow> lower (fst (fst e)) \<in> set ms" for es paths
    using that
  proof (induction es arbitrary: paths)
    case (Cons e es)
    obtain mt t op where e: "e = ((mt, t), op)" by (cases e) auto
    with Cons.prems have "methods_in ms (add_operation infer_enums noun e paths)"
      using Cons.prems(2) [of e] by (simp add: methods_in_add)
    with Cons show ?case by simp
  qed simp
  show ?thesis
    unfolding path_items_def
    by (rule fold) (use assms in \<open>simp_all add: methods_in_def keys_def\<close>)
qed

section \<open>What a successful load contains\<close>

lemma value_with_findings [simp]: "value_of (with_findings fs a) = Some a"
  by (simp add: with_findings_def value_of_def)

lemmas value_bind_Some = value_of_simps(4) bind_eq_Some_conv

lemma keep_some_member:
  "value_of (keep_some f xs) = Some ys \<Longrightarrow> x \<in> set xs \<Longrightarrow> \<exists>r. value_of (f x) = Some r \<and> (\<forall>b. r = Some b \<longrightarrow> b \<in> set ys)"
  by (induction xs arbitrary: ys) (fastforce simp: value_bind_Some split: option.splits)+

lemma response_content:
  assumes "value_of (one_response file root rec k p (status, PDict rd)) = Some r"
    and "map_of rd ''$ref'' = None" and "dict_at rd ''content'' = [(mime, PDict [(''schema'', PDict sd)])]"
    and "\<And>q. \<exists>n. rec (PDict sd) q = gives (Some n) \<and> Q n"
  shows "\<exists>resp n. r = Some resp \<and> rs_status resp = status \<and> (mime, n) \<in> set (rs_content resp) \<and> Q n"
proof -
  obtain resp where resp: "value_of (to_response file root rec status (PDict rd) (p @ ''/responses/'' @ status)) = Some r"
    using assms(1) by (auto simp: one_response_def Let_def value_bind_Some)
  obtain n where n: "rec (PDict sd) (p @ ''/responses/'' @ status @ ''/content/'' @ escape_pointer mime @ ''/schema'') = gives (Some n)" "Q n"
    using assms(4) by blast
  have "(mime, n) \<in> set content"
    if "value_of (read_media file rec (p @ ''/responses/'' @ status) (dict_at rd ''content'')) = Some (content, streaming)" for content streaming
    using that n(1) by (auto simp: assms(3) value_bind_Some body_of_media_def schema_at_def is_dict_def val_get_def list_or_empty_def)
  with resp n(2) show ?thesis
    by (force simp: to_response_def deref_plain [OF assms(2)] value_bind_Some)
qed

lemma to_operation_result:
  assumes "value_of (to_operation file root rec path_str shared path_pointer verb d p ix) = Some ix'"
  shows "\<exists>op. ix_operations ix' = ix_operations ix @ [op] \<and> op_path op = Some path_str \<and> op_method op = Some (upper verb)
    \<and> value_of (responses_of file root rec (upper verb @ '' '' @ path_str) d p) = Some (op_responses op)"
  using assms by (auto simp: to_operation_def Let_def value_bind_Some split: prod.splits)

text \<open>Operations are only ever appended.\<close>

definition grows :: "('a \<Rightarrow> operation_index \<Rightarrow> operation_index load) \<Rightarrow> bool" where
  "grows f \<longleftrightarrow> (\<forall>x s s'. value_of (f x s) = Some s' \<longrightarrow> set (ix_operations s) \<subseteq> set (ix_operations s'))"

lemma growsD: "grows f \<Longrightarrow> value_of (f x s) = Some s' \<Longrightarrow> set (ix_operations s) \<subseteq> set (ix_operations s')"
  by (simp add: grows_def)

lemma fold_grows:
  "grows f \<Longrightarrow> value_of (fold_load f xs s) = Some s' \<Longrightarrow> set (ix_operations s) \<subseteq> set (ix_operations s')"
proof (induction xs arbitrary: s)
  case (Cons x xs)
  from Cons.prems(2) obtain t where t: "value_of (f x s) = Some t" "value_of (fold_load f xs t) = Some s'"
    by (auto simp: value_bind_Some)
  from growsD [OF Cons.prems(1) t(1)] Cons.IH [OF Cons.prems(1) t(2)] show ?case by blast
qed simp

lemma fold_contains:
  "grows f \<Longrightarrow> x \<in> set xs \<Longrightarrow> value_of (fold_load f xs s) = Some s' \<Longrightarrow>
    \<exists>t t'. value_of (f x t) = Some t' \<and> set (ix_operations t') \<subseteq> set (ix_operations s')"
proof (induction xs arbitrary: s)
  case (Cons y xs)
  from Cons.prems(3) obtain t where t: "value_of (f y s) = Some t" "value_of (fold_load f xs t) = Some s'"
    by (auto simp: value_bind_Some)
  show ?case
  proof (cases "y = x")
    case True
    with t(1) fold_grows [OF Cons.prems(1) t(2)] show ?thesis by blast
  next
    case False
    with Cons.IH [OF Cons.prems(1) _ t(2)] Cons.prems(2) show ?thesis by simp
  qed
qed simp

lemma one_operation_grows: "grows (one_operation file root rec path_str shared path_pointer)"
  unfolding grows_def
proof (intro allI impI)
  fix entry :: "string \<times> pyval \<times> string" and ix ix'
  obtain verb node p where entry: "entry = (verb, node, p)" by (cases entry)
  assume "value_of (one_operation file root rec path_str shared path_pointer entry ix) = Some ix'"
  then show "set (ix_operations ix) \<subseteq> set (ix_operations ix')"
    by (cases "resolved root node")
      (auto simp: entry one_operation_def value_bind_Some value_deref split: if_splits dest!: to_operation_result)
qed

lemma one_path_grows: "grows (one_path file root rec)"
  unfolding grows_def
proof (intro allI impI)
  fix entry :: "string \<times> pyval" and ix ix'
  obtain t item where entry: "entry = (t, item)" by (cases entry)
  assume "value_of (one_path file root rec entry ix) = Some ix'"
  then show "set (ix_operations ix) \<subseteq> set (ix_operations ix')"
    by (cases "resolved root item")
      (auto simp: entry one_path_def Let_def value_bind_Some value_deref split: if_splits
        dest!: fold_grows [OF one_operation_grows])
qed

lemma parse_contains:
  assumes "value_of (parse_service fuel file doc deps edges) = Some svc"
    and "(t, PDict item) \<in> set (dict_at doc ''paths'')" and "map_of item ''$ref'' = None"
    and "m \<in> set HTTP_METHODS" and "dict_get item m = Some (PDict d)" and "map_of d ''$ref'' = None"
  shows "\<exists>op \<in> set (svc_operations svc). op_path op = Some t \<and> op_method op = Some (upper m)
    \<and> (\<exists>k p. value_of (responses_of file (PDict doc) (to_schema fuel file (PDict doc)) k d p) = Some (op_responses op))"
proof -
  let ?root = "PDict doc"
  let ?rec = "to_schema fuel file ?root"
  obtain ix where ix: "value_of (fold_load (one_path file ?root ?rec) (dict_at doc ''paths'')
        \<lparr>ix_keys = [], ix_ids = [], ix_operations = []\<rparr>) = Some ix" "set (svc_operations svc) = set (ix_operations ix)"
    using assms(1) by (auto simp: parse_service_def Let_def value_bind_Some)
  from fold_contains [OF one_path_grows assms(2) ix(1)] obtain s s' where
    path: "value_of (one_path file ?root ?rec (t, PDict item) s) = Some s'" "set (ix_operations s') \<subseteq> set (ix_operations ix)" by blast
  have node: "(m, PDict d, ''/paths/'' @ escape_pointer t @ ''/'' @ m) \<in> set (operation_nodes item (''/paths/'' @ escape_pointer t))"
    using assms(4,5) by (force simp: operation_nodes_def val_get_def)
  have "value_of (fold_load (one_operation file ?root ?rec t (val_get item ''parameters'') (''/paths/'' @ escape_pointer t))
      (operation_nodes item (''/paths/'' @ escape_pointer t)) s) = Some s'"
    using path(1) by (simp add: one_path_def Let_def is_dict_def deref_plain [OF assms(3)])
  from fold_contains [OF one_operation_grows node this] obtain u u' where
    op: "value_of (one_operation file ?root ?rec t (val_get item ''parameters'') (''/paths/'' @ escape_pointer t)
      (m, PDict d, ''/paths/'' @ escape_pointer t @ ''/'' @ m) u) = Some u'" "set (ix_operations u') \<subseteq> set (ix_operations s')" by blast
  then obtain k p where "value_of (to_operation file ?root ?rec t (val_get item ''parameters'') (''/paths/'' @ escape_pointer t) m d p u) = Some u'"
    by (auto simp: one_operation_def deref_plain [OF assms(6)])
  from to_operation_result [OF this] op(2) path(2) ix(2) show ?thesis by fastforce
qed

section \<open>Recorded bodies are accepted\<close>

definition observed_bodies :: "regex \<Rightarrow> (string \<Rightarrow> bool) \<Rightarrow> (string \<Rightarrow> string) \<Rightarrow> exchange_entry list \<Rightarrow> string \<times> string \<Rightarrow> int \<Rightarrow> pyval list" where
  "observed_bodies search is_word url_path entries k s = (let xs = filter usable entries in
     bodies_for (infer_templates search is_word (map (entry_path url_path) xs)) url_path k s xs)"

definition inferred_key :: "regex \<Rightarrow> (string \<Rightarrow> bool) \<Rightarrow> (string \<Rightarrow> string) \<Rightarrow> exchange_entry list \<Rightarrow> exchange_entry \<Rightarrow> string \<times> string" where
  "inferred_key search is_word url_path entries x =
     entry_key (infer_templates search is_word (map (entry_path url_path) (filter usable entries))) url_path x"

lemma operations_record:
  assumes "x \<in> set entries" and "usable x" and "xe_status x = Some s"
  shows "status_of (infer_operations search is_word url_path entries) (inferred_key search is_word url_path entries x) s
    = Some (observed_from search (observed_bodies search is_word url_path entries (inferred_key search is_word url_path entries x) s))"
proof -
  let ?xs = "filter usable entries"
  let ?templates = "infer_templates search is_word (map (entry_path url_path) ?xs)"
  let ?k = "inferred_key search is_word url_path entries x" and ?T = "infer_operations search is_word url_path entries"
  have empty: "status_of [] k s = None" for k by (simp add: status_of_def)
  note fold = status_of_fold [of search ?templates url_path ?xs "[]" ?k s, unfolded empty]
  have "\<exists>y \<in> set ?xs. entry_key ?templates url_path y = ?k \<and> xe_status y = Some s"
    using assms by (auto simp: inferred_key_def)
  with fold have "status_of ?T ?k s \<noteq> None" by (auto simp: infer_operations_def Let_def)
  moreover have "or_unseen (status_of ?T ?k s) = observed_from search (observed_bodies search is_word url_path entries ?k s)"
    using fold by (simp add: infer_operations_def Let_def observed_bodies_def observed_from_def or_unseen_def)
  ultimately show ?thesis by (auto simp: or_unseen_def)
qed

lemma operations_keys:
  "distinct (keys (infer_operations search is_word url_path entries))"
  "k \<in> set (keys (infer_operations search is_word url_path entries)) \<Longrightarrow>
     \<exists>y \<in> set entries. usable y \<and> fst k = upper (the (xe_method y))"
proof -
  let ?xs = "filter usable entries"
  let ?templates = "infer_templates search is_word (map (entry_path url_path) ?xs)"
  have all: "distinct (keys (infer_operations search is_word url_path entries))
      \<and> set (keys (infer_operations search is_word url_path entries)) = entry_key ?templates url_path ` set ?xs"
    using record_entry_keys [of "[]" search ?templates url_path ?xs] by (simp add: infer_operations_def Let_def keys_def)
  then show "distinct (keys (infer_operations search is_word url_path entries))" by simp
  show "\<exists>y \<in> set entries. usable y \<and> fst k = upper (the (xe_method y))"
    if "k \<in> set (keys (infer_operations search is_word url_path entries))"
    using all that by (auto simp: entry_key_def)
qed

definition read_methods :: "exchange_entry list \<Rightarrow> bool" where
  "read_methods entries \<longleftrightarrow> (\<forall>y \<in> set entries. usable y \<longrightarrow> lower (upper (the (xe_method y))) \<in> set HTTP_METHODS)"

text \<open>Where the document keeps an operation.\<close>

lemma document_operation:
  assumes "read_methods entries"
    and "dict_get (infer_operations search is_word url_path entries) (method, t) = Some op"
  shows "\<exists>item. (t, PDict item) \<in> set (dict_at (infer_document search is_word url_path title version False noun entries) ''paths'')
    \<and> map_of item ''$ref'' = None \<and> lower method \<in> set HTTP_METHODS \<and> dict_get item (lower method) = Some (operation_entry False noun op)"
proof -
  let ?T = "infer_operations search is_word url_path entries"
  have methods: "lower (fst k) \<in> set HTTP_METHODS \<and> upper (fst k) = fst k" if "k \<in> set (keys ?T)" for k
    using operations_keys(2) [OF that] assms(1) by (auto simp: read_methods_def)
  have key: "(method, t) \<in> set (keys ?T)" using assms(2) by (auto simp: set_keys_eq_dom)
  have "item_of (path_items False noun ?T) t (lower method) = Some (operation_entry False noun op)"
    using methods by (intro path_items_get operations_keys(1) assms(2)) auto
  then obtain item where item: "dict_get (path_items False noun ?T) t = Some item"
      "dict_get item (lower method) = Some (operation_entry False noun op)"
    by (auto simp: item_of_def split: option.splits)
  have "methods_in HTTP_METHODS (path_items False noun ?T)"
    by (rule path_items_methods) (use methods in auto)
  with map_of_SomeD [OF item(1)] have "set (keys item) \<subseteq> set HTTP_METHODS" by (auto simp: methods_in_def)
  then have "map_of item ''$ref'' = None"
    by (auto simp: map_of_eq_None_iff keys_def HTTP_METHODS_def)
  moreover have "(t, PDict item) \<in> set (dict_at (infer_document search is_word url_path title version False noun entries) ''paths'')"
    using map_of_SomeD [OF item(1)] by (force simp: infer_document_def dict_at_def val_get_def list_or_empty_def Let_def)
  ultimately show ?thesis using item(2) methods [OF key] by auto
qed

lemma response_entry_observed:
  "ob_seen observed \<noteq> 0 \<Longrightarrow> \<exists>rd. response_entry False (s, observed) = (int_str s, PDict rd) \<and> map_of rd ''$ref'' = None
    \<and> dict_at rd ''content'' = [(io_mime, PDict [(''schema'', PDict (schema_entries observed))])]"
  by (simp add: response_entry_def inferred_schema_entries dict_at_def val_get_def list_or_empty_def)

theorem recorded_body_accepted:
  assumes loaded: "parse_service fuel label (infer_document search is_word url_path title version False noun entries) deps edges = Inr (svc, fs)"
    and x: "x \<in> set entries" "usable x" "xe_status x = Some s" "xe_response_body x \<noteq> PNone"
    and "read_methods entries"
    and plain: "\<forall>y \<in> set entries. proper_value (xe_response_body y) \<and> nesting (xe_response_body y) \<le> fuel"
    and typed: "typed_everywhere (observed_from search (observed_bodies search is_word url_path entries
        (inferred_key search is_word url_path entries x) s))"
  shows "\<exists>op \<in> set (svc_operations svc).
      op_method op = Some (fst (inferred_key search is_word url_path entries x))
    \<and> op_path op = Some (snd (inferred_key search is_word url_path entries x))
    \<and> (\<exists>r \<in> set (op_responses op). rs_status r = int_str s \<and> (\<exists>n. (io_mime, n) \<in> set (rs_content r)
        \<and> validate_value search False (Some n) (xe_response_body x) p = Inr []))"
proof -
  let ?doc = "infer_document search is_word url_path title version False noun entries"
  let ?k = "inferred_key search is_word url_path entries x"
  let ?vs = "observed_bodies search is_word url_path entries ?k s"
  have member: "xe_response_body x \<in> set ?vs"
    using x by (auto simp: observed_bodies_def bodies_for_def inferred_key_def Let_def)
  have vs: "\<forall>v \<in> set ?vs. proper_value v \<and> nesting v \<le> fuel"
    using plain by (auto simp: observed_bodies_def bodies_for_def Let_def)
  from operations_record [OF x(1-3), of search is_word url_path] obtain op where
    op: "dict_get (infer_operations search is_word url_path entries) (fst ?k, snd ?k) = Some op"
      "dict_get (io_statuses op) s = Some (observed_from search ?vs)"
    by (auto simp: status_of_def split: option.splits)
  from document_operation [OF assms(6) op(1)] obtain item where
    item: "(snd ?k, PDict item) \<in> set (dict_at ?doc ''paths'')" "map_of item ''$ref'' = None"
      "lower (fst ?k) \<in> set HTTP_METHODS" "dict_get item (lower (fst ?k)) = Some (operation_entry False noun op)"
    by metis
  obtain d where d: "operation_entry False noun op = PDict d" "map_of d ''$ref'' = None"
      "dict_at d ''responses'' = map (response_entry False) (sort_key fst (io_statuses op))"
  proof -
    have some: "sort_key fst (io_statuses op) \<noteq> []" using map_of_SomeD [OF op(2)] by (metis empty_iff empty_set set_sort)
    show thesis
      by (rule that, simp add: operation_entry_def Let_def some) (simp_all add: dict_at_def val_get_def list_or_empty_def)
  qed
  have "value_of (parse_service fuel label ?doc deps edges) = Some svc" using loaded by (simp add: value_of_def)
  from parse_contains [OF this item(1-3) item(4) [unfolded d(1)] d(2)] obtain op' k' p' where
    op': "op' \<in> set (svc_operations svc)" "op_path op' = Some (snd ?k)" "op_method op' = Some (upper (lower (fst ?k)))"
      "value_of (responses_of label (PDict ?doc) (to_schema fuel label (PDict ?doc)) k' d p') = Some (op_responses op')"
    by blast
  have "ob_seen (observed_from search ?vs) \<noteq> 0" using member by (cases ?vs) (auto simp: from_seen)
  then obtain rd where rd: "response_entry False (s, observed_from search ?vs) = (int_str s, PDict rd)" "map_of rd ''$ref'' = None"
      "dict_at rd ''content'' = [(io_mime, PDict [(''schema'', PDict (schema_entries (observed_from search ?vs)))])]"
    using response_entry_observed by blast
  have here: "(int_str s, PDict rd) \<in> set (dict_at d ''responses'')"
    using map_of_SomeD [OF op(2)] by (force simp: d(3) rd(1) [symmetric])
  have "value_of (keep_some (one_response label (PDict ?doc) (to_schema fuel label (PDict ?doc)) k' p') (dict_at d ''responses''))
      = Some (op_responses op')"
    using op'(4) by (auto simp: responses_of_def value_bind_Some)
  from keep_some_member [OF this here] obtain r where r: "value_of (one_response label (PDict ?doc) (to_schema fuel label (PDict ?doc)) k' p' (int_str s, PDict rd)) = Some r"
      "\<forall>b. r = Some b \<longrightarrow> b \<in> set (op_responses op')"
    by (elim exE conjE)
  have "\<exists>n. to_schema fuel label (PDict ?doc) (PDict (schema_entries (observed_from search ?vs))) q = gives (Some n) \<and> accepts search n ?vs" for q
    using inferred_schema_read [OF vs _ typed] member unfolding inferred_schema_entries by (metis empty_iff empty_set)
  from response_content [OF r(1) rd(2,3) this] obtain resp n where
    "r = Some resp" "rs_status resp = int_str s" "(io_mime, n) \<in> set (rs_content resp)" "accepts search n ?vs" by blast
  with r(2) op' member show ?thesis
    by (intro bexI [of _ op'] conjI bexI [of _ resp] exI [of _ n])
      (auto simp: accepts_def validate_value_def inferred_key_def entry_key_def)
qed

end
