(* ===== verification/PyEq.thy ===== *)
theory PyEq
  imports PyValue
begin

text \<open>
  Python's \<open>==\<close> on contract values is an equivalence. Dicts are compared regardless of the
  order of their keys, so two dicts are read as the values each key holds.
\<close>

definition held :: "string \<Rightarrow> (string \<times> pyval) list \<Rightarrow> pyval list" where
  "held k d = map snd (filter (\<lambda>p. fst p = k) d)"

lemma held_simps [simp]:
  "held k [] = []"
  "held k ((j, v) # d) = (if j = k then v # held k d else held k d)"
  by (simp_all add: held_def)

lemma held_member: "v \<in> set (held k d) \<Longrightarrow> (k, v) \<in> set d"
  by (auto simp: held_def)

lemma held_none: "(\<forall>k. held k d = []) \<longleftrightarrow> d = []"
  by (cases d) (auto split: if_splits)

lemma take_key_none: "take_key k d = None \<Longrightarrow> held k d = []"
  by (induction k d rule: take_key.induct) (auto split: if_splits)

lemma take_key_rest:
  "take_key k d = Some (w, r) \<Longrightarrow> held j d = (if j = k then w # held j r else held j r)"
  by (induction k d arbitrary: w r rule: take_key.induct) (auto split: if_splits)

lemma py_eq_list_all2: "py_eq_list xs ys = list_all2 py_eq xs ys"
  by (induction xs arbitrary: ys) (auto split: list.splits simp: list_all2_Cons1)

lemma py_eq_dict_held: "py_eq_dict d d' \<longleftrightarrow> (\<forall>k. list_all2 py_eq (held k d) (held k d'))"
proof (induction d arbitrary: d')
  case Nil
  show ?case using held_none [of d'] by simp
next
  case (Cons p d)
  obtain k v where p: "p = (k, v)" by (cases p)
  show ?case
  proof (cases "take_key k d'")
    case None
    then have "held k d' = []" by (rule take_key_none)
    then have "\<not> list_all2 py_eq (held k (p # d)) (held k d')" by (simp add: p)
    then show ?thesis using None by (auto simp: p)
  next
    case (Some wr)
    obtain w r where wr: "take_key k d' = Some (w, r)" using Some by (cases wr) simp
    show ?thesis using Cons.IH [of r] by (auto simp: p wr take_key_rest [OF wr])
  qed
qed

lemma py_eq_sym_step:
  "(\<And>x. x \<in> set xs \<Longrightarrow> \<forall>y. py_eq x y \<longrightarrow> py_eq y x) \<Longrightarrow> list_all2 py_eq xs ys \<Longrightarrow> list_all2 py_eq ys xs"
  by (simp add: list_all2_conv_all_nth)

lemma py_eq_num_sym:
  assumes "num_of v = Some x" and "py_eq v w"
  shows "py_eq w v"
proof -
  from assms obtain y where "num_of w = Some y" "flt_eq x y" by (auto simp: py_eq_num)
  with assms(1) show ?thesis by (auto simp: py_eq_num dest: flt_eq_sym)
qed

lemma num_of_simps [simp]:
  "num_of (PBool b) = Some (int_num (if b then 1 else 0))"
  "num_of (PInt i) = Some (int_num i)"
  "num_of (PFloat x) = Some x"
  "num_of PNone = None" "num_of (PStr s) = None" "num_of (PList xs) = None" "num_of (PDict d) = None"
  by (simp_all add: num_of_def)

lemma py_eq_sym: "py_eq v w \<Longrightarrow> py_eq w v"
proof (induction v arbitrary: w)
  case (PList xs)
  then obtain ys where "w = PList ys" "list_all2 py_eq xs ys"
    by (auto simp: py_eq_list_all2 split: pyval.splits)
  then show ?case using py_eq_sym_step [of xs ys] PList.IH by (simp add: py_eq_list_all2)
next
  case (PDict d)
  then obtain d' where d': "w = PDict d'" "\<And>k. list_all2 py_eq (held k d) (held k d')"
    by (auto simp: py_eq_dict_held split: pyval.splits)
  have "list_all2 py_eq (held k d') (held k d)" for k
    by (rule py_eq_sym_step [OF _ d'(2)]) (auto dest: held_member intro: PDict.IH)
  then show ?case by (simp add: d'(1) py_eq_dict_held)
next
  case (PBool b)
  show ?case by (rule py_eq_num_sym [OF num_of_simps(1) PBool])
next
  case (PInt i)
  show ?case by (rule py_eq_num_sym [OF num_of_simps(2) PInt])
next
  case (PFloat x)
  show ?case by (rule py_eq_num_sym [OF num_of_simps(3) PFloat])
qed simp_all

lemma py_eq_trans_step:
  "(\<And>x. x \<in> set xs \<Longrightarrow> \<forall>y z. py_eq x y \<longrightarrow> py_eq y z \<longrightarrow> py_eq x z) \<Longrightarrow> list_all2 py_eq xs ys \<Longrightarrow>
   list_all2 py_eq ys zs \<Longrightarrow> list_all2 py_eq xs zs"
  unfolding list_all2_conv_all_nth using nth_mem by metis

lemma py_eq_num_trans:
  assumes "num_of u = Some x" and "py_eq u v" and "py_eq v w"
  shows "py_eq u w"
proof -
  from assms(1,2) obtain y where y: "num_of v = Some y" "flt_eq x y" by (auto simp: py_eq_num)
  from y(1) assms(3) obtain z where "num_of w = Some z" "flt_eq y z" by (auto simp: py_eq_num)
  with y assms(1) show ?thesis by (auto simp: py_eq_num intro: flt_eq_trans)
qed

lemma py_eq_trans: "py_eq u v \<Longrightarrow> py_eq v w \<Longrightarrow> py_eq u w"
proof (induction u arbitrary: v w)
  case (PList xs)
  then obtain ys where ys: "v = PList ys" "list_all2 py_eq xs ys"
    by (auto simp: py_eq_list_all2 split: pyval.splits)
  with PList.prems(2) obtain zs where "w = PList zs" "list_all2 py_eq ys zs"
    by (auto simp: py_eq_list_all2 split: pyval.splits)
  moreover have "list_all2 py_eq xs zs"
    using PList.IH by (intro py_eq_trans_step [OF _ ys(2) \<open>list_all2 py_eq ys zs\<close>]) blast
  ultimately show ?case by (simp add: py_eq_list_all2)
next
  case (PDict d)
  then obtain d1 where d1: "v = PDict d1" "\<And>k. list_all2 py_eq (held k d) (held k d1)"
    by (auto simp: py_eq_dict_held split: pyval.splits)
  with PDict.prems(2) obtain d2 where d2: "w = PDict d2" "\<And>k. list_all2 py_eq (held k d1) (held k d2)"
    by (auto simp: py_eq_dict_held split: pyval.splits)
  have "list_all2 py_eq (held k d) (held k d2)" for k
  proof (rule py_eq_trans_step [OF _ d1(2) d2(2)], intro allI impI)
    fix x y z
    assume "x \<in> set (held k d)" and eqs: "py_eq x y" "py_eq y z"
    then have "(k, x) \<in> set d" by (simp add: held_member)
    then show "py_eq x z" using PDict.IH [of "(k, x)" x] eqs by simp
  qed
  then show ?case by (simp add: d2(1) py_eq_dict_held)
next
  case (PBool b)
  show ?case by (rule py_eq_num_trans [OF num_of_simps(1) PBool])
next
  case (PInt i)
  show ?case by (rule py_eq_num_trans [OF num_of_simps(2) PInt])
next
  case (PFloat x)
  show ?case by (rule py_eq_num_trans [OF num_of_simps(3) PFloat])
qed simp_all

lemma py_eq_cong: "py_eq x y \<Longrightarrow> py_eq v x = py_eq v y"
  using py_eq_sym py_eq_trans by blast

lemma py_in_cong:
  assumes "py_eq_list xs ys"
  shows "py_in v xs = py_in v ys"
  using assms py_eq_cong
  by (induction xs arbitrary: ys) (auto simp: py_in_def split: list.splits)

end
