(* ===== verification/ValidationFacts.thy ===== *)
theory ValidationFacts
  imports Validation PyEq
begin

text \<open>
  What a validation comes to: it raises, accepts or rejects. The verdict of a schema is the
  same for two nodes that agree on what the validator reads (\<open>same_node\<close>), given equal
  verdicts of their sub-schemas; order of keys and wording of messages do not matter.
\<close>

section \<open>Verdicts\<close>

definition forget :: "'a result \<Rightarrow> 'a option" where
  "forget r = (case r of Inl e \<Rightarrow> None | Inr a \<Rightarrow> Some a)"

definition verdict :: "violations result \<Rightarrow> bool option" where
  "verdict r = map_option (\<lambda>es. es = []) (forget r)"

lemma forget_simps [simp]:
  "forget (Inl e) = None" "forget (Inr a) = Some a"
  "forget (bind_result r f) = Option.bind (forget r) (\<lambda>a. forget (f a))"
  by (simp_all add: forget_def bind_result_def split: sum.split)

lemma verdict_simps [simp]: "verdict (Inl e) = None" "verdict (Inr es) = Some (es = [])"
  by (simp_all add: verdict_def)

lemma verdict_check [simp]: "verdict (check bad msg) = Some (\<not> bad)"
  by (simp add: check_def)

definition sum_verdict :: "bool option set \<Rightarrow> bool option" where
  "sum_verdict vs = (if None \<in> vs then None else Some (Some False \<notin> vs))"

lemma verdict_cases: "verdict r = None \<longleftrightarrow> (\<exists>e. r = Inl e)" "verdict r = Some True \<longleftrightarrow> r = Inr []"
  by (cases r; simp)+

text \<open>Messages accumulate, so a sequence accepts when every piece does, in any order.\<close>

lemma verdict_seq: "verdict (seq_results rs) = sum_verdict (verdict ` set rs)"
proof (induction rs)
  case (Cons r rs)
  show ?case
  proof (cases r)
    case (Inr es)
    with Cons show ?thesis
      by (cases "seq_results rs") (auto simp: sum_verdict_def split: if_splits)
  qed (simp add: sum_verdict_def)
qed (simp add: sum_verdict_def)

lemma verdict_seq_cong:
  assumes "list_all2 (\<lambda>r s. verdict r = verdict s) rs ss"
  shows "verdict (seq_results rs) = verdict (seq_results ss)"
proof -
  have "map verdict rs = map verdict ss" using assms by (induction rule: list_all2_induct) simp_all
  then have "verdict ` set rs = verdict ` set ss" by (metis set_map)
  then show ?thesis by (simp add: verdict_seq)
qed

lemma verdict_bind_cong: "forget r = forget s \<Longrightarrow> (\<And>a. verdict (f a) = verdict (g a)) \<Longrightarrow>
  verdict (bind_result r f) = verdict (bind_result s g)"
  by (cases r; cases s) auto

text \<open>Validations of several values by one schema, and by the variants of a schema.\<close>

lemma forget_oks: "forget (seq_results (map (\<lambda>r. bind_result r (\<lambda>es. Inr [es = []])) rs)) = those (map verdict rs)"
proof (induction rs)
  case (Cons r rs)
  then show ?case
    by (cases r) (auto simp: map_conv_bind_option comp_def)
qed simp

lemma matching_cong: "(\<And>v q. verdict (rec c v q) = verdict (rec c' v q)) \<Longrightarrow>
  forget (matching rec c xs) = forget (matching rec c' xs)"
  using forget_oks [of "map (\<lambda>v. rec c v ''$'') xs"] forget_oks [of "map (\<lambda>v. rec c' v ''$'') xs"]
  by (simp add: matching_def comp_def)

fun first_true :: "bool option list \<Rightarrow> bool option" where
  "first_true [] = Some False"
| "first_true (None # vs) = None"
| "first_true (Some b # vs) = (if b then Some True else first_true vs)"

lemma forget_any_valid: "forget (any_valid rs) = first_true (map verdict rs)"
proof (induction rs)
  case (Cons r rs)
  then show ?case by (cases r) simp_all
qed simp

section \<open>Nodes that read the same\<close>

text \<open>\<open>rel\<close> relates corresponding sub-schemas.\<close>

definition same_dict :: "('a \<Rightarrow> 'a \<Rightarrow> bool) \<Rightarrow> (string \<times> 'a) list \<Rightarrow> (string \<times> 'a) list \<Rightarrow> bool" where
  "same_dict rel ds es \<longleftrightarrow> distinct (keys ds) \<and> distinct (keys es) \<and> set (keys ds) = set (keys es) \<and>
     (\<forall>x a b. dict_get ds x = Some a \<longrightarrow> dict_get es x = Some b \<longrightarrow> rel a b)"

definition same_facts :: "schema_facts \<Rightarrow> schema_facts \<Rightarrow> bool" where
  "same_facts f g \<longleftrightarrow> sn_nullable f = sn_nullable g \<and> sn_type f = sn_type g
     \<and> rel_option py_eq_list (sn_enum f) (sn_enum g) \<and> py_eq (sn_const f) (sn_const g)
     \<and> sn_min_length f = sn_min_length g \<and> sn_max_length f = sn_max_length g
     \<and> sn_pattern f = sn_pattern g \<and> sn_unique_items f = sn_unique_items g
     \<and> sn_min_items f = sn_min_items g \<and> sn_max_items f = sn_max_items g
     \<and> sn_min_contains f = sn_min_contains g \<and> sn_max_contains f = sn_max_contains g
     \<and> list_all2 (rel_option flt_eq)
         [sn_minimum f, sn_maximum f, sn_exclusive_minimum f, sn_exclusive_maximum f, sn_multiple_of f]
         [sn_minimum g, sn_maximum g, sn_exclusive_minimum g, sn_exclusive_maximum g, sn_multiple_of g]"

definition ignores_extra :: "schema_node \<Rightarrow> bool" where
  "ignores_extra n \<longleftrightarrow> additional_properties n = AddlNone \<or> additional_properties n = AddlBool True"

definition same_object :: "(schema_node \<Rightarrow> schema_node \<Rightarrow> bool) \<Rightarrow> schema_node \<Rightarrow> schema_node \<Rightarrow> bool" where
  "same_object rel m n \<longleftrightarrow>
     set (sn_required (facts m)) = set (sn_required (facts n))
     \<and> same_dict rel (properties m) (properties n)
     \<and> same_dict rel (dependent_schemas m) (dependent_schemas n)
     \<and> same_dict rel (pattern_properties m) (pattern_properties n)
     \<and> rel_option rel (property_names m) (property_names n)
     \<and> rel_option rel (if_schema m) (if_schema n) \<and> rel_option rel (then_schema m) (then_schema n)
     \<and> rel_option rel (else_schema m) (else_schema n)
     \<and> distinct (keys (sn_dependent_required (facts m))) \<and> distinct (keys (sn_dependent_required (facts n)))
     \<and> (\<forall>x. dict_get_or (sn_dependent_required (facts m)) x [] = dict_get_or (sn_dependent_required (facts n)) x [])
     \<and> (ignores_extra m \<and> ignores_extra n
        \<or> additional_properties m = AddlBool False \<and> additional_properties n = AddlBool False)"

definition same_array :: "(schema_node \<Rightarrow> schema_node \<Rightarrow> bool) \<Rightarrow> schema_node \<Rightarrow> schema_node \<Rightarrow> bool" where
  "same_array rel m n \<longleftrightarrow>
     list_all2 rel (list_or_empty (prefix_items m)) (list_or_empty (prefix_items n))
     \<and> rel_option rel (items m) (items n) \<and> rel_option rel (contains_schema m) (contains_schema n)"

definition same_node :: "(schema_node \<Rightarrow> schema_node \<Rightarrow> bool) \<Rightarrow> schema_node \<Rightarrow> schema_node \<Rightarrow> bool" where
  "same_node rel m n \<longleftrightarrow> same_facts (facts m) (facts n)
     \<and> (node_type m = Some ''object'' \<longrightarrow> same_object rel m n)
     \<and> (node_type m = Some ''array'' \<longrightarrow> same_array rel m n)
     \<and> list_all2 rel (list_or_empty (any_of m)) (list_or_empty (any_of n))
     \<and> list_all2 rel (list_or_empty (one_of m)) (list_or_empty (one_of n))"

lemma same_dict_image:
  assumes "same_dict rel ds es" and "\<And>x a b. rel a b \<Longrightarrow> f x a = g x b"
  shows "(\<lambda>(x, a). f x a) ` set ds = (\<lambda>(x, b). g x b) ` set es"
proof -
  have half: "(\<lambda>(x, a). f x a) ` set ds \<subseteq> (\<lambda>(x, b). g x b) ` set es"
    if d: "distinct (keys ds)" and s: "set (keys ds) \<subseteq> set (keys es)"
      and r: "\<And>x a b. dict_get ds x = Some a \<Longrightarrow> dict_get es x = Some b \<Longrightarrow> f x a = g x b"
    for ds es :: "(string \<times> 'a) list" and f g :: "string \<Rightarrow> 'a \<Rightarrow> 'b"
  proof clarify
    fix x a assume "(x, a) \<in> set ds"
    then have x: "dict_get ds x = Some a" using d by (simp add: keys_def)
    then have "x \<in> set (keys es)" using s by (auto simp: set_keys_eq_dom)
    then obtain b where "dict_get es x = Some b" by (auto simp: set_keys_eq_dom)
    moreover from this have "(x, b) \<in> set es" by (rule map_of_SomeD)
    ultimately show "f x a \<in> (\<lambda>(x, b). g x b) ` set es" using r [OF x] by force
  qed
  have keys: "distinct (keys ds)" "distinct (keys es)" "set (keys ds) = set (keys es)"
    and rel: "\<And>x a b. dict_get ds x = Some a \<Longrightarrow> dict_get es x = Some b \<Longrightarrow> f x a = g x b"
    using assms by (auto simp: same_dict_def)
  show ?thesis
    using half [of ds es f g] half [of es ds g f] keys rel by force
qed

lemma same_dict_mono: "same_dict rel ds es \<Longrightarrow> (\<And>a b. rel a b \<Longrightarrow> rel' a b) \<Longrightarrow> same_dict rel' ds es"
  unfolding same_dict_def by blast

lemma same_node_mono:
  assumes "same_node rel m n" and "\<And>a b. rel a b \<Longrightarrow> rel' a b"
  shows "same_node rel' m n"
proof -
  have "rel_option rel u v \<Longrightarrow> rel_option rel' u v" for u v by (erule option.rel_mono_strong) (rule assms(2))
  moreover have "list_all2 rel xs ys \<Longrightarrow> list_all2 rel' xs ys" for xs ys by (erule list_all2_mono) (rule assms(2))
  moreover have "same_dict rel ds es \<Longrightarrow> same_dict rel' ds es" for ds es by (erule same_dict_mono) (rule assms(2))
  ultimately show ?thesis using assms(1) by (simp add: same_node_def same_object_def same_array_def)
qed

lemma image_pairs: "h ` set (map f xs) = (\<lambda>(x, a). h (f (x, a))) ` set xs"
  by force

section \<open>Pieces with equal verdicts\<close>

lemma verdict_check_bound:
  "rel_option (\<lambda>a b. bad a = bad' b) m n \<Longrightarrow> verdict (check_bound m bad msg) = verdict (check_bound n bad' msg')"
  by (cases m; cases n) (auto simp: check_bound_def)

lemma flt_eq_le: "flt_eq a b \<Longrightarrow> flt_le x a = flt_le x b" "flt_eq a b \<Longrightarrow> flt_le a x = flt_le b x"
  unfolding flt_eq_def using flt_le_trans by blast+

lemma flt_eq_lt: "flt_eq a b \<Longrightarrow> flt_lt x a = flt_lt x b" "flt_eq a b \<Longrightarrow> flt_lt a x = flt_lt b x"
  by (simp_all add: flt_lt_def flt_eq_le)

lemma flt_eq_zero: "flt_eq a b \<Longrightarrow> flt_eq a z = flt_eq b z"
  using flt_eq_sym flt_eq_trans by blast

lemma verdict_string: "same_facts f g \<Longrightarrow> verdict (validate_string search f s p) = verdict (validate_string search g s q)"
  unfolding validate_string_def
  by (rule verdict_seq_cong)
    (auto simp: same_facts_def option.rel_refl split: option.splits intro!: verdict_check_bound)

lemma verdict_number:
  assumes "same_facts f g"
  shows "verdict (validate_number f v x p) = verdict (validate_number g v x q)"
proof -
  have rels: "rel_option flt_eq (sn_minimum f) (sn_minimum g)" "rel_option flt_eq (sn_maximum f) (sn_maximum g)"
    "rel_option flt_eq (sn_exclusive_minimum f) (sn_exclusive_minimum g)"
    "rel_option flt_eq (sn_exclusive_maximum f) (sn_exclusive_maximum g)"
    "rel_option flt_eq (sn_multiple_of f) (sn_multiple_of g)"
    using assms by (simp_all add: same_facts_def)
  note bound = verdict_check_bound [OF option.rel_mono_strong]
  have "verdict (case sn_multiple_of f of None \<Rightarrow> Inr [] | Some step \<Rightarrow> if flt_eq step (int_num 0) then Inr [] else
          bind_result (not_multiple v step) (\<lambda>bad. check bad (m step)))
      = verdict (case sn_multiple_of g of None \<Rightarrow> Inr [] | Some step \<Rightarrow> if flt_eq step (int_num 0) then Inr [] else
          bind_result (not_multiple v step) (\<lambda>bad. check bad (n step)))" for m n
    using rels(5)
    by (cases "sn_multiple_of f"; cases "sn_multiple_of g") (auto simp: flt_eq_zero not_multiple_eq intro!: verdict_bind_cong)
  then show ?thesis unfolding validate_number_def Let_def
    by (intro verdict_seq_cong)
      (auto intro: bound [OF rels(1)] bound [OF rels(2)] bound [OF rels(3)] bound [OF rels(4)] simp: flt_eq_le flt_eq_lt)
qed

lemma verdict_required:
  "verdict (validate_required f d p) = Some (\<forall>x \<in> set (sn_required f). has_field d x)"
  by (auto simp: validate_required_def filter_empty_conv)

lemma verdict_dependent_required:
  assumes "distinct (keys (sn_dependent_required f))"
  shows "verdict (validate_dependent_required f d p) = Some (\<forall>x. has_field d x \<longrightarrow>
    (\<forall>y \<in> set (dict_get_or (sn_dependent_required f) x []). has_field d y))"
proof -
  let ?dr = "sn_dependent_required f"
  let ?ok = "\<lambda>(x, ys). has_field d x \<longrightarrow> (\<forall>y \<in> set ys. has_field d y)"
  have "verdict (case dict_get d x of None \<Rightarrow> Inr [] | Some v \<Rightarrow>
      Inr (map m (filter (\<lambda>y. \<not> has_field d y) ys))) = Some (?ok (x, ys))" for x ys m
    by (auto simp: has_field_def set_keys_eq_dom filter_empty_conv split: option.splits)
  then have "verdict (validate_dependent_required f d p) = sum_verdict ((\<lambda>e. Some (?ok e)) ` set ?dr)"
    unfolding validate_dependent_required_def for_present_def
    by (simp add: verdict_seq image_image case_prod_beta)
  also have "\<dots> = Some (\<forall>e \<in> set ?dr. ?ok e)" by (auto simp: sum_verdict_def)
  also have "(\<forall>e \<in> set ?dr. ?ok e) \<longleftrightarrow> (\<forall>x. has_field d x \<longrightarrow> (\<forall>y \<in> set (dict_get_or ?dr x []). has_field d y))"
    using map_of_eq_Some_iff [of ?dr] assms
    by (auto simp: keys_def dict_get_or_def split: option.splits)
  finally show ?thesis .
qed

lemma undeclared_cong:
  assumes "set (keys (properties m)) = set (keys (properties n))"
    and "set (keys (pattern_properties m)) = set (keys (pattern_properties n))"
  shows "undeclared search m d = undeclared search n d"
  using assms by (simp add: undeclared_def matched_by_pattern_def list_ex_iff)

lemma verdict_additional:
  assumes "undeclared search m d = undeclared search n d"
    and "ignores_extra m \<and> ignores_extra n
      \<or> additional_properties m = AddlBool False \<and> additional_properties n = AddlBool False"
  shows "verdict (validate_additional search rec False m d p) = verdict (validate_additional search rec False n d q)"
  using assms by (auto simp: validate_additional_def Let_def ignores_extra_def)

section \<open>The recursive pieces\<close>

lemma enum_members:
  assumes "rel_option py_eq_list xs ys"
  shows "xs = None \<longleftrightarrow> ys = None" and "py_in v (list_or_empty xs) = py_in v (list_or_empty ys)"
proof -
  show "xs = None \<longleftrightarrow> ys = None" using assms by (cases xs; cases ys) simp_all
  show "py_in v (list_or_empty xs) = py_in v (list_or_empty ys)"
  proof (cases xs)
    case (Some as)
    then obtain bs where "ys = Some bs" "py_eq_list as bs" using assms by (auto simp: option_rel_Some1)
    with Some py_in_cong [OF this(2), of v] show ?thesis by (simp only: list_or_empty_def option.case)
  qed (use assms in simp)
qed

text \<open>
  A validator gives related schemas the same verdict on every value, wherever the value
  stands. The pieces of the body inherit that.
\<close>

locale same_verdicts =
  fixes rec :: validator and rel :: "schema_node \<Rightarrow> schema_node \<Rightarrow> bool"
  assumes rel_verdict: "rel a b \<Longrightarrow> verdict (rec a v p) = verdict (rec b v q)"
begin

lemma optional_verdict:
  "rel_option rel m n \<Longrightarrow> verdict (case m of None \<Rightarrow> Inr [] | Some a \<Rightarrow> rec a v p)
    = verdict (case n of None \<Rightarrow> Inr [] | Some b \<Rightarrow> rec b v q)"
  by (cases m; cases n) (auto intro: rel_verdict)

lemma prefix_verdict:
  assumes "list_all2 rel as bs"
  shows "verdict (validate_prefix rec as xs p) = verdict (validate_prefix rec bs xs q)"
  unfolding validate_prefix_def
  using assms by (intro verdict_seq_cong) (auto simp: list_all2_conv_all_nth nth_enumerate_eq intro: rel_verdict)

lemma items_verdict:
  "rel_option rel m n \<Longrightarrow> verdict (validate_items rec m k xs p) = verdict (validate_items rec n k xs q)"
  unfolding validate_items_def
  by (cases m; cases n)
    (auto simp: list_all2_conv_all_nth nth_enumerate_eq intro!: verdict_seq_cong rel_verdict)

lemma contains_verdict:
  assumes "rel_option rel (contains_schema m) (contains_schema n)"
    and "same_facts (facts m) (facts n)"
  shows "verdict (validate_contains rec m xs p) = verdict (validate_contains rec n xs q)"
proof (cases "contains_schema m")
  case None
  then show ?thesis using assms(1) by (simp add: validate_contains_def)
next
  case (Some a)
  then obtain b where b: "contains_schema n = Some b" "rel a b" using assms(1) by (auto simp: option_rel_Some1)
  have "forget (matching rec a xs) = forget (matching rec b xs)"
    by (rule matching_cong) (rule rel_verdict [OF b(2)])
  moreover have bounds: "sn_min_contains (facts m) = sn_min_contains (facts n)"
    "sn_max_contains (facts m) = sn_max_contains (facts n)"
    using assms(2) by (simp_all add: same_facts_def)
  ultimately show ?thesis unfolding validate_contains_def Some b(1) bounds option.case Let_def
    by (intro verdict_bind_cong verdict_seq_cong) (auto simp: option.rel_refl intro!: verdict_check_bound)
qed

lemma array_verdict:
  assumes "same_array rel m n" and "same_facts (facts m) (facts n)"
  shows "verdict (validate_array rec m xs p) = verdict (validate_array rec n xs q)"
proof -
  have len: "length (list_or_empty (prefix_items m)) = length (list_or_empty (prefix_items n))"
    using assms(1) by (auto simp: same_array_def dest: list_all2_lengthD)
  have bounds: "sn_min_items (facts m) = sn_min_items (facts n)" "sn_max_items (facts m) = sn_max_items (facts n)"
    "sn_unique_items (facts m) = sn_unique_items (facts n)" using assms(2) by (simp_all add: same_facts_def)
  show ?thesis unfolding validate_array_def Let_def bounds len
    using assms
    by (intro verdict_seq_cong)
      (auto simp: same_array_def option.rel_refl
        intro!: verdict_check_bound prefix_verdict items_verdict contains_verdict)
qed

lemma for_present_verdict:
  assumes "same_dict rel ds es" and "\<And>x a b v. rel a b \<Longrightarrow> verdict (f x a v) = verdict (g x b v)"
  shows "verdict (for_present ds d f) = verdict (for_present es d g)"
proof -
  have "(\<lambda>(x, a). verdict (case dict_get d x of None \<Rightarrow> Inr [] | Some v \<Rightarrow> f x a v)) ` set ds
      = (\<lambda>(x, b). verdict (case dict_get d x of None \<Rightarrow> Inr [] | Some v \<Rightarrow> g x b v)) ` set es"
    by (rule same_dict_image [OF assms(1)]) (auto intro: assms(2) split: option.splits)
  then show ?thesis by (simp add: for_present_def verdict_seq image_image case_prod_beta)
qed

lemma pattern_verdict:
  assumes "same_dict rel (pattern_properties m) (pattern_properties n)"
  shows "verdict (validate_pattern_properties search rec m d p) = verdict (validate_pattern_properties search rec n d q)"
proof -
  let ?f = "\<lambda>p (expression, sub). if search expression [] = None then
       Inr [p @ '': patternProperties key '' @ str_repr expression @ '' is not a valid regex'']
     else seq_results (map (\<lambda>(name, v). rec sub v (p @ ''.'' @ name))
       (filter (\<lambda>(name, v). matches_name search expression name) d))"
  have "(\<lambda>(x, a). verdict (?f p (x, a))) ` set (pattern_properties m) = (\<lambda>(x, b). verdict (?f q (x, b))) ` set (pattern_properties n)"
    by (rule same_dict_image [OF assms])
      (auto intro!: verdict_seq_cong rel_verdict simp: list_all2_conv_all_nth split: prod.splits)
  then have "verdict ` set (map (?f p) (pattern_properties m)) = verdict ` set (map (?f q) (pattern_properties n))"
    by (simp only: image_pairs)
  then show ?thesis by (simp only: validate_pattern_properties_def verdict_seq)
qed

lemma names_verdict:
  "rel_option rel m n \<Longrightarrow> verdict (validate_property_names rec m d p) = verdict (validate_property_names rec n d q)"
  unfolding validate_property_names_def
  by (cases m; cases n) (auto simp: list_all2_conv_all_nth intro!: verdict_seq_cong rel_verdict)

lemma conditional_verdict:
  assumes "rel_option rel (if_schema m) (if_schema n)" and "rel_option rel (then_schema m) (then_schema n)"
    and "rel_option rel (else_schema m) (else_schema n)"
  shows "verdict (validate_conditional rec m d p) = verdict (validate_conditional rec n d q)"
proof (cases "if_schema m")
  case None
  then show ?thesis using assms(1) by (simp add: validate_conditional_def)
next
  case (Some a)
  then obtain b where b: "if_schema n = Some b" "rel a b" using assms(1) by (auto simp: option_rel_Some1)
  have same: "verdict (rec a (PDict d) ''$'') = verdict (rec b (PDict d) ''$'')" by (rule rel_verdict [OF b(2)])
  note branches = optional_verdict [OF assms(2)] optional_verdict [OF assms(3)]
  show ?thesis using same branches unfolding validate_conditional_def Some b(1)
    by (cases "rec a (PDict d) ''$''"; cases "rec b (PDict d) ''$''") auto
qed

lemma object_verdict:
  assumes "same_object rel m n"
  shows "verdict (validate_object search rec False m d p) = verdict (validate_object search rec False n d q)"
proof -
  have "undeclared search m d = undeclared search n d"
    using assms by (intro undeclared_cong) (auto simp: same_object_def same_dict_def)
  note extra = verdict_additional [OF this]
  have "verdict (validate_properties rec m d p) = verdict (validate_properties rec n d q)"
    "verdict (validate_dependent_schemas rec m d p) = verdict (validate_dependent_schemas rec n d q)"
    using assms unfolding validate_properties_def validate_dependent_schemas_def
    by (auto simp: same_object_def intro!: for_present_verdict rel_verdict)
  moreover have "verdict (validate_dependent_required (facts m) d p) = verdict (validate_dependent_required (facts n) d q)"
    using assms by (simp add: same_object_def verdict_dependent_required)
  moreover have "verdict (validate_required (facts m) d p) = verdict (validate_required (facts n) d q)"
    using assms by (simp add: same_object_def verdict_required)
  ultimately show ?thesis using assms unfolding validate_object_def same_object_def
    by (intro verdict_seq_cong) (simp add: extra names_verdict pattern_verdict conditional_verdict)
qed

lemma variants_verdict:
  assumes "list_all2 rel (list_or_empty ms) (list_or_empty ns)"
  shows "verdict (validate_variants rec ms label v p) = verdict (validate_variants rec ns label v q)"
proof -
  have "map (\<lambda>c. verdict (rec c v p)) (list_or_empty ms) = map (\<lambda>c. verdict (rec c v q)) (list_or_empty ns)"
    using assms by (induction rule: list_all2_induct) (auto intro: rel_verdict)
  then have "forget (any_valid (map (\<lambda>c. rec c v p) (list_or_empty ms)))
      = forget (any_valid (map (\<lambda>c. rec c v q) (list_or_empty ns)))"
    by (simp add: forget_any_valid comp_def)
  moreover have "list_or_empty ms = [] \<longleftrightarrow> list_or_empty ns = []" using assms by auto
  ultimately show ?thesis unfolding validate_variants_def Let_def by (auto intro!: verdict_bind_cong)
qed

lemma typed_verdict:
  assumes "same_node rel m n"
  shows "verdict (validate_typed search rec False m v p) = verdict (validate_typed search rec False n v q)"
proof -
  have same: "same_facts (facts m) (facts n)" "node_type m = node_type n"
    using assms by (auto simp: same_node_def same_facts_def)
  have array: "verdict (validate_array rec m xs p) = verdict (validate_array rec n xs q)"
    if "node_type n = Some ''array''" for xs
    using assms that same by (intro array_verdict) (simp_all add: same_node_def)
  have object: "verdict (validate_object search rec False m d p) = verdict (validate_object search rec False n d q)"
    if "node_type n = Some ''object''" for d
    using assms that same by (intro object_verdict) (simp_all add: same_node_def)
  show ?thesis unfolding validate_typed_def same(2)
    using verdict_string [OF same(1)] verdict_number [OF same(1)] array object
    by (simp split: pyval.split option.split)
qed

theorem body_verdict:
  assumes "same_node rel m n"
  shows "verdict (validate_body search rec False m v p) = verdict (validate_body search rec False n v q)"
proof -
  have facts: "sn_nullable (facts m) = sn_nullable (facts n)" "sn_type (facts m) = sn_type (facts n)"
    "rel_option py_eq_list (sn_enum (facts m)) (sn_enum (facts n))" "py_eq (sn_const (facts m)) (sn_const (facts n))"
    using assms by (auto simp: same_node_def same_facts_def)
  note enum = enum_members(1) [OF facts(3)] enum_members(2) [OF facts(3), of v]
  have "sn_const (facts m) = PNone \<longleftrightarrow> sn_const (facts n) = PNone"
    using facts(4) py_eq_sym [OF facts(4)] by auto
  moreover have "verdict (seq_results [validate_typed search rec False m v p,
        validate_variants rec (any_of m) ''anyOf'' v p, validate_variants rec (one_of m) ''oneOf'' v p])
      = verdict (seq_results [validate_typed search rec False n v q,
        validate_variants rec (any_of n) ''anyOf'' v q, validate_variants rec (one_of n) ''oneOf'' v q])"
    using assms by (intro verdict_seq_cong) (simp add: typed_verdict variants_verdict same_node_def)
  ultimately show ?thesis
    using facts(1,2) enum py_eq_cong [OF facts(4), of v] by (simp add: validate_body_def Let_def)
qed

end

section \<open>The recursion\<close>

definition same_language :: "regex \<Rightarrow> schema_node \<Rightarrow> schema_node \<Rightarrow> bool" where
  "same_language search m n \<longleftrightarrow>
     (\<forall>v p q. verdict (validate_node search False m v p) = verdict (validate_node search False n v q))"

interpretation nodes: same_verdicts "validate_node search False" "same_language search" for search
  by unfold_locales (simp add: same_language_def)

lemma same_node_same_language: "same_node (same_language search) m n \<Longrightarrow> same_language search m n"
  using nodes.body_verdict by (simp add: same_language_def [of search m n] validate_node.simps)

end
