(* ===== verification/SilentDiff.thy ===== *)
theory SilentDiff
  imports DiffReach ValidationFacts
begin

text \<open>
  What a comparison that records nothing means for the values the two schemas describe. A
  silent comparison forces the attributes the validator reads to agree, node by node;
  \<open>alike\<close> names the rest, which the differ does not compare. Together they give equal
  verdicts of \<open>validate_value\<close> on every value.
\<close>

named_theorems silent_simps "what a step that records nothing says of its parts"

section \<open>Silence\<close>

abbreviation silent :: "engine step \<Rightarrow> bool" where
  "silent m \<equiv> outcome m = Inr []"

lemma silent_steps: "list_all uniform ms \<Longrightarrow> silent (steps ms) \<Longrightarrow> m \<in> set ms \<Longrightarrow> silent m"
  using steps_succeeds [of ms "[]" m] by auto

lemma silent_for_each:
  assumes "silent (for_each xs f)" and "\<And>x. x \<in> set xs \<Longrightarrow> uniform (f x)" and "x \<in> set xs"
  shows "silent (f x)"
  using assms silent_steps [of "map f xs" "f x"] by (auto simp: for_each_def list_all_iff)

lemma silent_add [simp]: "\<not> silent (add_change kd k d desc args)"
  by (simp add: outcome_add)

lemma silent_only_if [simp]: "silent (only_if c m) \<longleftrightarrow> (c \<longrightarrow> silent m)"
  by (cases c) (simp_all add: outcome_skip)

lemma silent_with_key: "silent (with_key d x f) \<longleftrightarrow> (\<exists>v. dict_get d x = Some v \<and> silent (f v))"
  by (auto simp: with_key_def outcome_raise split: option.splits)

lemma silent_with_result: "silent (with_result r f) \<Longrightarrow> \<exists>a. r = Inr a \<and> silent (f a)"
  by (cases r) (simp_all add: outcome_raise)

text \<open>Every step of a comparison records independently of the past.\<close>

lemma uniform_parts [simp]:
  "uniform (add_change kd k d desc args)"
  "uniform m \<Longrightarrow> uniform (only_if c m)"
  "(\<And>v. uniform (f v)) \<Longrightarrow> uniform (with_key dict x f)"
  "uniform skip"
  "uniform m \<Longrightarrow> (\<And>v. uniform (f v)) \<Longrightarrow> uniform (case u of None \<Rightarrow> m | Some v \<Rightarrow> f v)"
  "uniform (diff_schema k w d old new p)"
  by (auto simp: with_key_def split: option.split intro: emitter_add emitter_only_if emitter_raise emitter_skip uniform_diff_schema)

section \<open>What a silent comparison forces\<close>

lemma silent_body_step:
  assumes "silent (diff_schema k w d old new p)" and "m \<in> set (body_steps k w d old new p)"
  shows "silent m"
  using silent_steps [OF uniform_body_steps _ assms(2)] assms(1) by (simp add: diff_schema_steps)

lemma silent_attributes:
  assumes "silent (diff_schema k w d old new p)"
  shows "sn_nullable (facts old) = sn_nullable (facts new)"
    and "node_type old = node_type new"
    and "py_eq (enum_val (sn_enum (facts old))) (enum_val (sn_enum (facts new)))"
    and "attr \<in> set CONSTRAINT_ATTRS \<Longrightarrow>
      py_eq (constraint_value attr (facts old)) (constraint_value attr (facts new))"
proof -
  note steps = silent_body_step [OF assms, unfolded body_steps_def Let_def]
  have "silent (diff_nullable old new k (w @ p) d)" "silent (diff_type old new k (w @ p) d)"
    by (rule steps, simp)+
  then show "sn_nullable (facts old) = sn_nullable (facts new)" "node_type old = node_type new"
    by (simp_all add: diff_nullable_def diff_type_def Let_def)
  have "silent (diff_enum old new k (w @ p) d)" by (rule steps) simp
  then show "py_eq (enum_val (sn_enum (facts old))) (enum_val (sn_enum (facts new)))"
    by (auto simp: diff_enum_def Let_def dest!: silent_with_result)
  have "silent (diff_constraints old new k (w @ p) d)" by (rule steps) simp
  then show "py_eq (constraint_value attr (facts old)) (constraint_value attr (facts new))"
    if "attr \<in> set CONSTRAINT_ATTRS"
    using silent_for_each [OF _ _ that, of "diff_constraint old new k (w @ p) d"]
    by (auto simp: diff_constraints_def diff_constraint_def Let_def emit_intro)
qed

lemma silent_fields:
  assumes "silent (diff_schema k w d old new p)"
  shows "set (keys (properties old)) = set (keys (properties new))"
    and "dict_get (properties old) x = Some a \<Longrightarrow> dict_get (properties new) x = Some b \<Longrightarrow>
      silent (diff_schema k w d a b (p @ ''.'' @ x))"
    and "x \<in> set (keys (properties old)) \<Longrightarrow> x \<in> set (sn_required (facts old)) \<longleftrightarrow> x \<in> set (sn_required (facts new))"
proof -
  note steps = silent_body_step [OF assms, unfolded body_steps_def Let_def]
  have "silent (diff_removed_properties old new k (w @ p) d)" "silent (diff_added_properties old new k (w @ p) d)"
    by (rule steps, simp)+
  note gone = this [unfolded diff_removed_properties_def diff_added_properties_def]
  show same: "set (keys (properties old)) = set (keys (properties new))"
  proof (intro set_eqI iffI; rule ccontr)
    fix y assume "y \<in> set (keys (properties old))" "y \<notin> set (keys (properties new))"
    then have "y \<in> set (sorted_diff (keys (properties old)) (keys (properties new)))" by simp
    from silent_for_each [OF gone(1) _ this] this show False
      by (simp add: silent_with_key)
  next
    fix y assume "y \<in> set (keys (properties new))" "y \<notin> set (keys (properties old))"
    then have "y \<in> set (sorted_diff (keys (properties new)) (keys (properties old)))" by simp
    from silent_for_each [OF gone(2) _ this] this show False
      by (simp add: silent_with_key)
  qed
  have "silent (diff_common_properties (diff_schema k w d) old new p)" by (rule steps) simp
  note common = this [unfolded diff_common_properties_def]
  show "silent (diff_schema k w d a b (p @ ''.'' @ x))"
    if "dict_get (properties old) x = Some a" "dict_get (properties new) x = Some b"
  proof -
    have "x \<in> set (sorted_inter (keys (properties old)) (keys (properties new)))"
      using that by (auto simp: set_keys_eq_dom)
    from silent_for_each [OF common _ this] that show ?thesis
      by (simp add: silent_with_key)
  qed
  have "silent (diff_became_required old new k (w @ p) d)" "silent (diff_became_optional old new k (w @ p) d)"
    by (rule steps, simp)+
  note req = this [unfolded diff_became_required_def diff_became_optional_def]
  show "x \<in> set (sn_required (facts old)) \<longleftrightarrow> x \<in> set (sn_required (facts new))"
    if x: "x \<in> set (keys (properties old))"
  proof (intro iffI; rule ccontr)
    assume "x \<in> set (sn_required (facts old))" "x \<notin> set (sn_required (facts new))"
    then have "x \<in> set (sorted_diff (sn_required (facts old)) (sn_required (facts new)))" by simp
    from silent_for_each [OF req(2) _ this] x same show False
      by (simp add: silent_with_key)
  next
    assume "x \<in> set (sn_required (facts new))" "x \<notin> set (sn_required (facts old))"
    then have "x \<in> set (sorted_diff (sn_required (facts new)) (sn_required (facts old)))" by simp
    from silent_for_each [OF req(1) _ this] x same show False
      by (simp add: silent_with_key)
  qed
qed

lemma silent_variants:
  assumes "silent (diff_variants (diff_schema k w d) attr os ns p)"
    and "length (list_or_empty os) = length (list_or_empty ns)"
    and "i < length (list_or_empty os)"
  shows "\<exists>q. silent (diff_schema k w d (list_or_empty os ! i) (list_or_empty ns ! i) q)"
proof -
  let ?os = "list_or_empty os" and ?ns = "list_or_empty ns"
  have "(i, ?os ! i, ?ns ! i) \<in> set (List.enumerate 0 (zip ?os ?ns))"
    using assms(2,3) by (auto simp: in_set_enumerate_eq)
  moreover have "silent (for_each (List.enumerate 0 (zip ?os ?ns)) (\<lambda>(i, o_v, n_v).
      diff_schema k w d o_v n_v (p @ ''/'' @ attr @ ''['' @ int_str (int i) @ '']'')))"
    using assms by (auto simp: diff_variants_def Let_def)
  ultimately show ?thesis
    using silent_for_each by (fastforce intro: uniform_diff_schema)
qed

lemma silent_optional:
  assumes "silent (diff_optional_schema (diff_schema k w d) before after ck k d a r q)"
  shows "before = None \<longleftrightarrow> after = None"
    and "before = Some b \<Longrightarrow> after = Some c \<Longrightarrow> silent (diff_schema k w d b c q)"
  using assms by (auto simp: diff_optional_schema_def split: if_splits)

lemma silent_2020_12:
  assumes "silent (diff_schema k w d old new p)"
  shows "silent (diff_dependent_required old new k (w @ p) d)"
    and "silent (diff_dependent_schemas (diff_schema k w d) old new k w d p)"
    and "silent (diff_prefix_items (diff_schema k w d) old new k w d p)"
    and "silent (diff_pattern_properties (diff_schema k w d) old new k w d p)"
    and "silent (diff_property_names (diff_schema k w d) old new k w d p)"
    and "silent (diff_contains (diff_schema k w d) old new k w d p)"
    and "silent (diff_conditionals (diff_schema k w d) old new k w d p)"
proof -
  have all: "silent (diff_2020_12 (diff_schema k w d) old new k w d p)"
    by (rule silent_body_step [OF assms]) (simp add: body_steps_def Let_def)
  note blocks = emitter_2020_12_blocks [OF emitter_diff_schema, THEN emitter_uniform]
  show "silent (diff_dependent_required old new k (w @ p) d)"
    "silent (diff_dependent_schemas (diff_schema k w d) old new k w d p)"
    "silent (diff_prefix_items (diff_schema k w d) old new k w d p)"
    "silent (diff_pattern_properties (diff_schema k w d) old new k w d p)"
    "silent (diff_property_names (diff_schema k w d) old new k w d p)"
    "silent (diff_contains (diff_schema k w d) old new k w d p)"
    "silent (diff_conditionals (diff_schema k w d) old new k w d p)"
    by (rule silent_steps [OF _ all [unfolded diff_2020_12_def]]; simp add: blocks)+
qed

lemma silent_dependent_required:
  assumes "silent (diff_dependent_required old new k l d)"
  shows "dict_get_or (sn_dependent_required (facts old)) x [] = dict_get_or (sn_dependent_required (facts new)) x []"
proof (cases "x \<in> set (sorted_union (keys (sn_dependent_required (facts old))) (keys (sn_dependent_required (facts new))))")
  case True
  from silent_for_each [OF assms [unfolded diff_dependent_required_def Let_def] _ this]
  show ?thesis by simp
next
  case False
  then show ?thesis by (simp add: set_keys_eq_dom dict_get_or_def domIff)
qed

text \<open>A loop over the keys of two dicts of sub-schemas that reports a key on one side only.\<close>

lemma silent_dict:
  assumes "silent (for_each (sorted_union (keys ds) (keys es)) f)" and "\<And>x. uniform (f x)"
    and "\<And>x. x \<in> set (keys ds) \<union> set (keys es) \<Longrightarrow> silent (f x) \<Longrightarrow>
      \<exists>a b. dict_get ds x = Some a \<and> dict_get es x = Some b \<and> silent (g x a b)"
  shows "set (keys ds) = set (keys es)"
    and "dict_get ds x = Some a \<Longrightarrow> dict_get es x = Some b \<Longrightarrow> silent (g x a b)"
proof -
  have each: "\<exists>a b. dict_get ds y = Some a \<and> dict_get es y = Some b \<and> silent (g y a b)"
    if y: "y \<in> set (keys ds) \<union> set (keys es)" for y
    using silent_for_each [OF assms(1,2), of y] y assms(3) by simp
  then show "set (keys ds) = set (keys es)" by (auto simp: set_keys_eq_dom)
  show "silent (g x a b)" if "dict_get ds x = Some a" "dict_get es x = Some b"
    using each [of x] that by (auto simp: set_keys_eq_dom)
qed

lemma silent_dependent_schemas:
  assumes "silent (diff_dependent_schemas (diff_schema k w d) old new k w d p)"
  shows "set (keys (dependent_schemas old)) = set (keys (dependent_schemas new))"
    and "dict_get (dependent_schemas old) x = Some a \<Longrightarrow> dict_get (dependent_schemas new) x = Some b \<Longrightarrow>
      silent (diff_schema k w d a b (p @ ''/dependentSchemas/'' @ x))"
  by (rule silent_dict [OF assms [unfolded diff_dependent_schemas_def]
        , where g = "\<lambda>x a b. diff_schema k w d a b (p @ ''/dependentSchemas/'' @ x)"];
      auto simp: set_keys_eq_dom split: option.splits)+

lemma silent_pattern_properties:
  assumes "silent (diff_pattern_properties (diff_schema k w d) old new k w d p)"
  shows "set (keys (pattern_properties old)) = set (keys (pattern_properties new))"
    and "dict_get (pattern_properties old) x = Some a \<Longrightarrow> dict_get (pattern_properties new) x = Some b \<Longrightarrow>
      silent (diff_schema k w d a b (p @ ''/patternProperties/'' @ x))"
  by (rule silent_dict [OF assms [unfolded diff_pattern_properties_def]
        , where g = "\<lambda>x a b. diff_schema k w d a b (p @ ''/patternProperties/'' @ x)"];
      auto simp: set_keys_eq_dom split: option.splits)+

lemma silent_prefix_items:
  assumes "silent (diff_prefix_items (diff_schema k w d) old new k w d p)"
  shows "list_all2 (\<lambda>a b. \<exists>q. silent (diff_schema k w d a b q))
    (list_or_empty (prefix_items old)) (list_or_empty (prefix_items new))"
proof -
  let ?os = "list_or_empty (prefix_items old)" and ?ns = "list_or_empty (prefix_items new)"
  let ?f = "\<lambda>(i, b, a). if node_type b \<noteq> node_type a then
          add_change TUPLE_SHAPE_CHANGED k d
            (w @ p @ '': tuple position '' @ int_str (int i) @ '' changed type ''
             @ opt_repr (node_type b) @ '' -> '' @ opt_repr (node_type a))
            (no_args\<lparr>old_value := opt_val PStr (node_type b), new_value := opt_val PStr (node_type a)\<rparr>)
        else diff_schema k w d b a (p @ ''/prefixItems['' @ int_str (int i) @ '']'')"
  have len: "length ?os = length ?ns" and each: "silent (for_each (List.enumerate 0 (zip ?os ?ns)) ?f)"
    using assms by (auto simp: diff_prefix_items_def Let_def split: if_splits)
  have "\<exists>q. silent (diff_schema k w d (?os ! i) (?ns ! i) q)" if "i < length ?os" for i
  proof -
    have "(i, ?os ! i, ?ns ! i) \<in> set (List.enumerate 0 (zip ?os ?ns))"
      using that len by (auto simp: in_set_enumerate_eq)
    moreover have "uniform (?f x)" for x by (cases x) simp
    ultimately have "silent (?f (i, ?os ! i, ?ns ! i))" using silent_for_each [OF each] by blast
    then show ?thesis by (auto split: if_splits)
  qed
  with len show ?thesis by (simp add: list_all2_conv_all_nth)
qed

lemma silent_contains:
  assumes "silent (diff_contains (diff_schema k w d) old new k w d p)"
  shows "contains_schema old = None \<longleftrightarrow> contains_schema new = None"
    and "contains_schema old = Some a \<Longrightarrow> contains_schema new = Some b \<Longrightarrow>
      silent (diff_schema k w d a b (p @ ''/contains''))"
    and "sn_min_contains (facts old) = sn_min_contains (facts new)"
    and "sn_max_contains (facts old) = sn_max_contains (facts new)"
proof -
  have opt: "uniform (diff_optional_schema (diff_schema k w d) (contains_schema old) (contains_schema new)
      CONTAINS_CHANGED k d a r q)" for a r q
    by (simp add: diff_optional_schema_def)
  have bound: "uniform (diff_bound b a kw k l d)" for b a kw l by (simp add: diff_bound_def)
  note parts = silent_steps [OF _ assms [unfolded diff_contains_def]]
  have "silent (diff_bound (sn_min_contains (facts old)) (sn_min_contains (facts new)) ''minContains'' k (w @ p) d)"
    "silent (diff_bound (sn_max_contains (facts old)) (sn_max_contains (facts new)) ''maxContains'' k (w @ p) d)"
    by (rule parts; simp add: opt bound)+
  then show "sn_min_contains (facts old) = sn_min_contains (facts new)"
    "sn_max_contains (facts old) = sn_max_contains (facts new)" by (simp_all add: diff_bound_def)
  have "silent (diff_optional_schema (diff_schema k w d) (contains_schema old) (contains_schema new) CONTAINS_CHANGED k d
       (w @ p @ '': the array must now contain a matching member'')
       (w @ p @ '': the `contains` requirement was removed'') (p @ ''/contains''))"
    by (rule parts; simp add: opt bound)
  from silent_optional [OF this]
  show "contains_schema old = None \<longleftrightarrow> contains_schema new = None"
    "contains_schema old = Some a \<Longrightarrow> contains_schema new = Some b \<Longrightarrow>
      silent (diff_schema k w d a b (p @ ''/contains''))" by blast+
qed

lemma silent_conditionals:
  assumes "silent (diff_conditionals (diff_schema k w d) old new k w d p)"
    and "(before, after) \<in> {(if_schema old, if_schema new), (then_schema old, then_schema new), (else_schema old, else_schema new)}"
  shows "before = None \<longleftrightarrow> after = None"
    and "before = Some a \<Longrightarrow> after = Some b \<Longrightarrow> \<exists>q. silent (diff_schema k w d a b q)"
proof -
  have "uniform (diff_conditional (diff_schema k w d) b a kw k w d p)" for b a kw
    by (simp add: diff_conditional_def diff_optional_schema_def)
  then have parts: "silent m" if "m \<in> {diff_conditional (diff_schema k w d) (if_schema old) (if_schema new) ''if'' k w d p,
     diff_conditional (diff_schema k w d) (then_schema old) (then_schema new) ''then'' k w d p,
     diff_conditional (diff_schema k w d) (else_schema old) (else_schema new) ''else'' k w d p}" for m
    using silent_steps [OF _ assms(1) [unfolded diff_conditionals_def], of m] that by simp
  from assms(2) parts obtain kw where "silent (diff_conditional (diff_schema k w d) before after kw k w d p)" by blast
  note opt = silent_optional [OF this [unfolded diff_conditional_def]]
  show "before = None \<longleftrightarrow> after = None"
    "before = Some a \<Longrightarrow> after = Some b \<Longrightarrow> \<exists>q. silent (diff_schema k w d a b q)" using opt by blast+
qed

lemma silent_items:
  assumes "silent (diff_schema k w d old new p)" and "items old = Some a" and "items new = Some b"
  shows "silent (diff_schema k w d a b (p @ ''[]''))"
proof -
  have "silent (diff_items (diff_schema k w d) old new p)"
    by (rule silent_body_step [OF assms(1)]) (simp add: body_steps_def Let_def)
  then show ?thesis using assms(2,3) by (simp add: diff_items_def)
qed

lemma silent_composition:
  assumes "silent (diff_schema k w d old new p)"
    and "(os, ns) \<in> {(any_of old, any_of new), (one_of old, one_of new)}"
    and "length (list_or_empty os) = length (list_or_empty ns)"
  shows "list_all2 (\<lambda>a b. \<exists>q. silent (diff_schema k w d a b q)) (list_or_empty os) (list_or_empty ns)"
proof -
  have all: "silent (diff_composition (diff_schema k w d) old new p)"
    by (rule silent_body_step [OF assms(1)]) (simp add: body_steps_def Let_def)
  have "uniform (diff_variants (diff_schema k w d) attr os ns p)" for attr os ns
    unfolding diff_variants_def Let_def by (auto intro!: emit_intro)
  then have "silent (diff_variants (diff_schema k w d) ''any_of'' (any_of old) (any_of new) p)"
    "silent (diff_variants (diff_schema k w d) ''one_of'' (one_of old) (one_of new) p)"
    by (auto intro!: silent_steps [OF _ all [unfolded diff_composition_def]])
  then have "\<exists>attr. silent (diff_variants (diff_schema k w d) attr os ns p)" using assms(2) by blast
  then show ?thesis using silent_variants [OF _ assms(3)] assms(3) by (auto simp: list_all2_conv_all_nth)
qed

section \<open>What the differ does not compare\<close>

text \<open>
  The attributes the validator reads and \<open>_diff_schema\<close> never looks at: names in
  \<open>required\<close> that are not declared, \<open>additionalProperties\<close>, an \<open>items\<close> that appears or
  disappears, and the number of variants of \<open>anyOf\<close> and \<open>oneOf\<close>.
\<close>

definition undeclared_required :: "schema_node \<Rightarrow> string list" where
  "undeclared_required n = filter (\<lambda>x. x \<notin> set (keys (properties n))) (sn_required (facts n))"

definition same_blind_spots :: "schema_node \<Rightarrow> schema_node \<Rightarrow> bool" where
  "same_blind_spots old new \<longleftrightarrow>
     (node_type old = Some ''object'' \<longrightarrow>
        set (undeclared_required old) = set (undeclared_required new)
        \<and> (ignores_extra old \<and> ignores_extra new
           \<or> additional_properties old = AddlBool False \<and> additional_properties new = AddlBool False))
     \<and> (node_type old = Some ''array'' \<longrightarrow> (items old = None \<longleftrightarrow> items new = None))
     \<and> length (list_or_empty (any_of old)) = length (list_or_empty (any_of new))
     \<and> length (list_or_empty (one_of old)) = length (list_or_empty (one_of new))"

text \<open>A Python dict holds each key once.\<close>

definition proper_dicts :: "schema_node \<Rightarrow> bool" where
  "proper_dicts n \<longleftrightarrow> distinct (keys (properties n)) \<and> distinct (keys (pattern_properties n))
     \<and> distinct (keys (dependent_schemas n)) \<and> distinct (keys (sn_dependent_required (facts n)))"

definition pair_dicts :: "(string \<times> 'a) list \<Rightarrow> (string \<times> 'a) list \<Rightarrow> ('a \<times> 'a) list" where
  "pair_dicts ds es = concat (map (\<lambda>x. case (dict_get ds x, dict_get es x) of
       (Some a, Some b) \<Rightarrow> [(a, b)] | _ \<Rightarrow> []) (keys ds))"

definition pair_opts :: "'a option \<Rightarrow> 'a option \<Rightarrow> ('a \<times> 'a) list" where
  "pair_opts v w = zip (opt_nodes v) (opt_nodes w)"

definition paired :: "schema_node \<Rightarrow> schema_node \<Rightarrow> (schema_node \<times> schema_node) list" where
  "paired old new =
     pair_dicts (properties old) (properties new) @ pair_dicts (pattern_properties old) (pattern_properties new)
     @ pair_dicts (dependent_schemas old) (dependent_schemas new)
     @ pair_opts (items old) (items new) @ pair_opts (contains_schema old) (contains_schema new)
     @ pair_opts (property_names old) (property_names new) @ pair_opts (if_schema old) (if_schema new)
     @ pair_opts (then_schema old) (then_schema new) @ pair_opts (else_schema old) (else_schema new)
     @ zip (list_or_empty (prefix_items old)) (list_or_empty (prefix_items new))
     @ zip (list_or_empty (any_of old)) (list_or_empty (any_of new))
     @ zip (list_or_empty (one_of old)) (list_or_empty (one_of new))"

lemma pair_dicts_member: "(a, b) \<in> set (pair_dicts ds es) \<longleftrightarrow> (\<exists>x. dict_get ds x = Some a \<and> dict_get es x = Some b)"
proof
  show "(a, b) \<in> set (pair_dicts ds es) \<Longrightarrow> \<exists>x. dict_get ds x = Some a \<and> dict_get es x = Some b"
    by (auto simp: pair_dicts_def split: option.splits)
  assume "\<exists>x. dict_get ds x = Some a \<and> dict_get es x = Some b"
  then obtain x where x: "dict_get ds x = Some a" "dict_get es x = Some b" by blast
  then have "x \<in> set (keys ds)" by (auto simp: set_keys_eq_dom)
  then show "(a, b) \<in> set (pair_dicts ds es)" using x unfolding pair_dicts_def by (auto intro!: bexI [of _ x])
qed

lemma pair_dicts_fst: "(a, b) \<in> set (pair_dicts ds es) \<Longrightarrow> \<exists>x. (x, a) \<in> set ds"
  by (auto simp: pair_dicts_member dest: map_of_SomeD)

lemma pair_opts_fst: "(a, b) \<in> set (pair_opts v w) \<Longrightarrow> v = Some a"
  by (auto simp: pair_opts_def opt_nodes_def split: option.splits)

lemma paired_sub: "(a, b) \<in> set (paired old new) \<Longrightarrow> a \<in> set (sub_schemas old)"
  by (auto simp: paired_def dest!: pair_dicts_fst pair_opts_fst set_zip_leftD)

lemma paired_size [termination_simp]: "ab \<in> set (paired old new) \<Longrightarrow> size (fst ab) < size old"
  by (cases ab) (auto dest!: paired_sub intro: sub_schema_size)

function alike :: "schema_node \<Rightarrow> schema_node \<Rightarrow> bool" where
  "alike old new \<longleftrightarrow> proper_dicts old \<and> proper_dicts new \<and> same_blind_spots old new
     \<and> (\<forall>ab \<in> set (paired old new). alike (fst ab) (snd ab))"
  by pat_completeness auto
termination by (relation "measure (\<lambda>p. size (fst p))") (simp_all add: paired_size)

declare alike.simps [simp del]

lemma alike_below:
  assumes "alike old new" and "(a, b) \<in> set (paired old new)"
  shows "alike a b \<and> size a < size old"
proof -
  have "\<forall>ab \<in> set (paired old new). alike (fst ab) (snd ab)" using alike.simps [THEN iffD1, OF assms(1)] by blast
  from bspec [OF this assms(2)] paired_size [OF assms(2)] show ?thesis by simp
qed

lemma alike_node: "alike old new \<Longrightarrow> proper_dicts old \<and> proper_dicts new \<and> same_blind_spots old new"
  by (drule alike.simps [THEN iffD1]) (elim conjE, intro conjI)

lemma alike_dicts:
  assumes "alike old new" and "dict_get ds x = Some a" and "dict_get es x = Some b"
    and "(ds, es) \<in> {(properties old, properties new), (pattern_properties old, pattern_properties new),
      (dependent_schemas old, dependent_schemas new)}"
  shows "alike a b \<and> size a < size old"
proof -
  have "(a, b) \<in> set (pair_dicts ds es)" using assms(2,3) by (auto simp: pair_dicts_member)
  with assms(4) show ?thesis by (intro alike_below [OF assms(1)]) (auto simp: paired_def)
qed

lemma alike_opts:
  assumes "alike old new" and "v = Some a" and "u = Some b"
    and "(v, u) \<in> {(items old, items new), (contains_schema old, contains_schema new),
      (property_names old, property_names new), (if_schema old, if_schema new),
      (then_schema old, then_schema new), (else_schema old, else_schema new)}"
  shows "alike a b \<and> size a < size old"
proof -
  have "(a, b) \<in> set (pair_opts v u)" using assms(2,3) by (simp add: pair_opts_def opt_nodes_def)
  with assms(4) show ?thesis by (intro alike_below [OF assms(1)]) (auto simp: paired_def)
qed

lemma alike_lists:
  assumes "alike old new" and "(a, b) \<in> set (zip os ns)"
    and "(os, ns) \<in> {(list_or_empty (prefix_items old), list_or_empty (prefix_items new)),
      (list_or_empty (any_of old), list_or_empty (any_of new)), (list_or_empty (one_of old), list_or_empty (one_of new))}"
  shows "alike a b \<and> size a < size old"
  using assms(2,3) by (intro alike_below [OF assms(1)]) (auto simp: paired_def)

section \<open>Equal verdicts\<close>

lemma py_eq_opt_val:
  "py_eq (int_val m) (int_val n) \<longleftrightarrow> m = n"
  "py_eq (flt_val x) (flt_val y) \<longleftrightarrow> rel_option flt_eq x y"
  "py_eq (opt_val PStr s) (opt_val PStr t) \<longleftrightarrow> s = t"
  "py_eq (opt_val PBool b) (opt_val PBool c) \<longleftrightarrow> b = c"
  "py_eq (enum_val xs) (enum_val ys) \<longleftrightarrow> rel_option py_eq_list xs ys"
  by (auto simp: int_val_def flt_val_def enum_val_def opt_val_def int_num_def flt_eq_def flt_le_def
      flt_exp_def scaled_def split: option.splits if_splits)

lemma silent_same_facts:
  assumes "silent (diff_schema k w d old new p)"
  shows "same_facts (facts old) (facts new)"
proof -
  note facts = silent_attributes [OF assms]
  have attrs: "\<forall>attr \<in> set CONSTRAINT_ATTRS. py_eq (constraint_value attr (facts old)) (constraint_value attr (facts new))"
    using facts(4) by blast
  note contains = silent_contains [OF silent_2020_12(6) [OF assms]]
  show ?thesis
    using facts(1-3) contains(3,4) attrs
    by (simp add: same_facts_def CONSTRAINT_ATTRS_def constraint_value_def py_eq_opt_val)
qed

text \<open>Corresponding sub-schemas of a silent comparison that are alike themselves.\<close>

definition settled :: "string \<Rightarrow> string \<Rightarrow> string \<Rightarrow> schema_node \<Rightarrow> schema_node \<Rightarrow> schema_node \<Rightarrow> bool" where
  "settled k w d old a b \<longleftrightarrow> (\<exists>q. silent (diff_schema k w d a b q)) \<and> alike a b \<and> size a < size old"

lemma settled_dict:
  assumes "alike old new"
    and "(ds, es) \<in> {(properties old, properties new), (pattern_properties old, pattern_properties new),
      (dependent_schemas old, dependent_schemas new)}"
    and "set (keys ds) = set (keys es)"
    and "\<And>x a b. dict_get ds x = Some a \<Longrightarrow> dict_get es x = Some b \<Longrightarrow> \<exists>q. silent (diff_schema k w d a b q)"
  shows "same_dict (settled k w d old) ds es"
proof -
  have "distinct (keys ds) \<and> distinct (keys es)" using alike_node [OF assms(1)] assms(2) by (auto simp: proper_dicts_def)
  moreover have "settled k w d old a b" if "dict_get ds x = Some a" "dict_get es x = Some b" for x a b
    using assms(4) [OF that] alike_dicts [OF assms(1) that assms(2)] by (simp add: settled_def)
  ultimately show ?thesis using assms(3) by (simp add: same_dict_def)
qed

lemma settled_option:
  assumes "alike old new"
    and "(v, u) \<in> {(items old, items new), (contains_schema old, contains_schema new),
      (property_names old, property_names new), (if_schema old, if_schema new),
      (then_schema old, then_schema new), (else_schema old, else_schema new)}"
    and "v = None \<longleftrightarrow> u = None"
    and "\<And>a b. v = Some a \<Longrightarrow> u = Some b \<Longrightarrow> \<exists>q. silent (diff_schema k w d a b q)"
  shows "rel_option (settled k w d old) v u"
proof (cases v)
  case (Some a)
  then obtain b where b: "u = Some b" using assms(3) by (cases u) auto
  from assms(4) [OF Some b] alike_opts [OF assms(1) Some b assms(2)] show ?thesis by (simp add: Some b settled_def)
qed (use assms(3) in simp)

lemma settled_list:
  assumes "alike old new"
    and "(os, ns) \<in> {(list_or_empty (prefix_items old), list_or_empty (prefix_items new)),
      (list_or_empty (any_of old), list_or_empty (any_of new)), (list_or_empty (one_of old), list_or_empty (one_of new))}"
    and "list_all2 (\<lambda>a b. \<exists>q. silent (diff_schema k w d a b q)) os ns"
  shows "list_all2 (settled k w d old) os ns"
  using assms(3) alike_lists [OF assms(1) _ assms(2)] by (auto simp: list_all2_iff settled_def)

lemma settled_object:
  assumes silent: "silent (diff_schema k w d old new p)" and alike: "alike old new" and type: "node_type old = Some ''object''"
  shows "same_object (settled k w d old) old new"
proof -
  note blocks = silent_2020_12 [OF silent]
  note spots = alike_node [OF alike]
  note fields = silent_fields [OF silent]
  have "x \<in> set (sn_required (facts old)) \<longleftrightarrow> x \<in> set (sn_required (facts new))" for x
  proof (cases "x \<in> set (keys (properties old))")
    case False
    moreover from this have "x \<notin> set (keys (properties new))" using fields(1) by simp
    moreover have "x \<in> set (undeclared_required old) \<longleftrightarrow> x \<in> set (undeclared_required new)"
      using spots type by (simp add: same_blind_spots_def)
    ultimately show ?thesis by (simp add: undeclared_required_def)
  qed (rule fields(3))
  then have "set (sn_required (facts old)) = set (sn_required (facts new))" by blast
  moreover have "same_dict (settled k w d old) (properties old) (properties new)"
    by (rule settled_dict [OF alike _ fields(1)]) (auto dest: fields(2))
  moreover have "same_dict (settled k w d old) (dependent_schemas old) (dependent_schemas new)"
    by (rule settled_dict [OF alike _ silent_dependent_schemas(1) [OF blocks(2)]])
      (auto dest: silent_dependent_schemas(2) [OF blocks(2)])
  moreover have "same_dict (settled k w d old) (pattern_properties old) (pattern_properties new)"
    by (rule settled_dict [OF alike _ silent_pattern_properties(1) [OF blocks(4)]])
      (auto dest: silent_pattern_properties(2) [OF blocks(4)])
  moreover have "rel_option (settled k w d old) (property_names old) (property_names new)"
    using silent_optional [OF blocks(5) [unfolded diff_property_names_def]]
    by (intro settled_option [OF alike]) auto
  moreover have "rel_option (settled k w d old) (if_schema old) (if_schema new)"
    "rel_option (settled k w d old) (then_schema old) (then_schema new)"
    "rel_option (settled k w d old) (else_schema old) (else_schema new)"
    by (rule settled_option [OF alike _ silent_conditionals [OF blocks(7)]]; simp)+
  ultimately show ?thesis
    using spots type silent_dependent_required [OF blocks(1)]
    by (simp add: same_object_def proper_dicts_def same_blind_spots_def)
qed

lemma settled_array:
  assumes silent: "silent (diff_schema k w d old new p)" and alike: "alike old new" and type: "node_type old = Some ''array''"
  shows "same_array (settled k w d old) old new"
proof -
  note blocks = silent_2020_12 [OF silent]
  have "items old = None \<longleftrightarrow> items new = None"
    using alike_node [OF alike] type by (simp add: same_blind_spots_def)
  then have "rel_option (settled k w d old) (items old) (items new)"
    by (intro settled_option [OF alike]) (auto dest: silent_items [OF silent])
  moreover have "rel_option (settled k w d old) (contains_schema old) (contains_schema new)"
    by (rule settled_option [OF alike _ silent_contains(1) [OF blocks(6)]])
      (auto dest: silent_contains(2) [OF blocks(6)])
  moreover have "list_all2 (settled k w d old) (list_or_empty (prefix_items old)) (list_or_empty (prefix_items new))"
    by (rule settled_list [OF alike _ silent_prefix_items [OF blocks(3)]]) simp
  ultimately show ?thesis by (simp add: same_array_def)
qed

lemma silent_same_node:
  assumes silent: "silent (diff_schema k w d old new p)" and alike: "alike old new"
  shows "same_node (settled k w d old) old new"
proof -
  have "length (list_or_empty (any_of old)) = length (list_or_empty (any_of new))"
    "length (list_or_empty (one_of old)) = length (list_or_empty (one_of new))"
    using alike_node [OF alike] by (simp_all add: same_blind_spots_def)
  then have "list_all2 (settled k w d old) (list_or_empty (any_of old)) (list_or_empty (any_of new))"
    "list_all2 (settled k w d old) (list_or_empty (one_of old)) (list_or_empty (one_of new))"
    by (auto intro!: settled_list [OF alike] silent_composition [OF silent])
  then show ?thesis
    using silent_same_facts [OF silent] settled_object [OF silent alike] settled_array [OF silent alike]
    by (simp add: same_node_def)
qed

theorem silent_same_language:
  assumes "silent (diff_schema k w d old new p)" and "alike old new"
  shows "same_language search old new"
  using assms
proof (induction old arbitrary: new p rule: measure_induct_rule [where f = size])
  case (less old)
  have "settled k w d old a b \<Longrightarrow> same_language search a b" for a b
    using less.IH by (auto simp: settled_def)
  from same_node_mono [OF silent_same_node [OF less.prems] this] show ?case
    by (rule same_node_same_language)
qed

section \<open>Operations nothing is reported of\<close>

text \<open>The schemas of request and response bodies both versions of an operation declare.\<close>

definition shared_requests :: "operation \<Rightarrow> operation \<Rightarrow> (schema_node \<times> schema_node) list" where
  "shared_requests o_op n_op = (case (op_request_body o_op, op_request_body n_op) of
       (Some b, Some c) \<Rightarrow> pair_dicts (rb_content b) (rb_content c) | _ \<Rightarrow> [])"

definition shared_responses :: "operation \<Rightarrow> operation \<Rightarrow> (schema_node \<times> schema_node) list" where
  "shared_responses o_op n_op = concat (map (\<lambda>(r, s). pair_dicts (rs_content r) (rs_content s))
     (pair_dicts (index_responses o_op) (index_responses n_op)))"

lemma shared_bodies_reached:
  assumes "(a, b) \<in> set (shared_requests o_op n_op @ shared_responses o_op n_op)"
  shows "\<exists>w d. reaches (diff_operation os ns o_op n_op) (diff_schema (key o_op) w d a b [])"
proof -
  from assms consider
      (request) b_old b_new media where "op_request_body o_op = Some b_old" "op_request_body n_op = Some b_new"
        "dict_get (rb_content b_old) media = Some a" "dict_get (rb_content b_new) media = Some b"
    | (response) status r_old r_new media where "dict_get (index_responses o_op) status = Some r_old"
        "dict_get (index_responses n_op) status = Some r_new"
        "dict_get (rs_content r_old) media = Some a" "dict_get (rs_content r_new) media = Some b"
    unfolding shared_requests_def shared_responses_def
    by (auto simp: pair_dicts_member split: option.splits) metis
  then show ?thesis
  proof cases
    case request
    from reaches_request_schema [OF this] show ?thesis by blast
  next
    case response
    from reaches_response_schema [OF this] show ?thesis by blast
  qed
qed

lemma unreported_schema_silent:
  assumes "reaches m (diff_schema k w d a b p)" and "outcome m = Inr cs" and "\<forall>c \<in> set cs. c_operation_key c \<noteq> k"
  shows "silent (diff_schema k w d a b p)"
proof -
  obtain ds where ds: "outcome (diff_schema k w d a b p) = Inr ds" "set ds \<subseteq> set cs"
    using reaches_outcome [OF assms(1,2)] by blast
  have "c_operation_key c = k" if "c \<in> set ds" for c
    using emitter_outcome [OF emitter_diff_schema ds(1) that] by (simp add: schema_change_def)
  then have "c \<notin> set ds" for c using ds(2) assms(3) by blast
  then have "ds = []" by (cases ds) auto
  then show ?thesis using ds(1) by simp
qed

lemma unreported_operation_bodies:
  assumes run: "run dumps old new = Inr cs" and quiet: "\<forall>c \<in> set cs. c_operation_key c \<noteq> k"
    and ops: "dict_get (operations_by_key old) k = Some o_op" "dict_get (operations_by_key new) k = Some n_op"
    and body: "(a, b) \<in> set (shared_requests o_op n_op @ shared_responses o_op n_op)" and alike: "alike a b"
  shows "same_language search a b"
proof -
  have "key o_op = k" using operations_by_key_SomeD [OF ops(1)] by simp
  then obtain w d where reached: "reaches (run_steps dumps old new) (diff_schema k w d a b [])"
    using reaches_trans [OF reaches_operation [OF ops]] shared_bodies_reached [OF body] by blast
  have "\<forall>c \<in> set (map strip_id cs). c_operation_key c \<noteq> k" using quiet by (auto simp: strip_id_def)
  from unreported_schema_silent [OF reached run_raws [OF run] this]
  show ?thesis by (rule silent_same_language [OF _ alike])
qed

end
