(* ===== verification/BlindSpots.thy ===== *)
theory BlindSpots
  imports SilentDiff
begin

text \<open>
  What the differ does not compare. \<open>same_to_differ\<close> says that two nodes agree wherever the
  differ looks; comparing such nodes records nothing. \<open>blind_edit\<close> lists the edits of a node
  the differ cannot see and that make the validator reject a given value: undeclared fields
  forbidden, a required field added that is no declared property, \<open>items\<close> that appears, variants
  withdrawn.
\<close>

section \<open>Edits of a node\<close>

definition set_additional :: "schema_node additional \<Rightarrow> schema_node \<Rightarrow> schema_node" where
  "set_additional a n = SchemaNode (facts n) (properties n) a (items n) (one_of n) (any_of n) (all_of n) (not_schema n)
     (prefix_items n) (contains_schema n) (pattern_properties n) (property_names n) (dependent_schemas n) (if_schema n) (then_schema n) (else_schema n)"

definition set_required :: "string list \<Rightarrow> schema_node \<Rightarrow> schema_node" where
  "set_required rs n = SchemaNode ((facts n)\<lparr>sn_required := rs\<rparr>) (properties n) (additional_properties n) (items n) (one_of n) (any_of n) (all_of n) (not_schema n)
     (prefix_items n) (contains_schema n) (pattern_properties n) (property_names n) (dependent_schemas n) (if_schema n) (then_schema n) (else_schema n)"

definition set_items :: "schema_node option \<Rightarrow> schema_node \<Rightarrow> schema_node" where
  "set_items m n = SchemaNode (facts n) (properties n) (additional_properties n) m (one_of n) (any_of n) (all_of n) (not_schema n)
     (prefix_items n) (contains_schema n) (pattern_properties n) (property_names n) (dependent_schemas n) (if_schema n) (then_schema n) (else_schema n)"

definition set_one_of :: "schema_node list option \<Rightarrow> schema_node \<Rightarrow> schema_node" where
  "set_one_of us n = SchemaNode (facts n) (properties n) (additional_properties n) (items n) us (any_of n) (all_of n) (not_schema n)
     (prefix_items n) (contains_schema n) (pattern_properties n) (property_names n) (dependent_schemas n) (if_schema n) (then_schema n) (else_schema n)"

definition set_any_of :: "schema_node list option \<Rightarrow> schema_node \<Rightarrow> schema_node" where
  "set_any_of us n = SchemaNode (facts n) (properties n) (additional_properties n) (items n) (one_of n) us (all_of n) (not_schema n)
     (prefix_items n) (contains_schema n) (pattern_properties n) (property_names n) (dependent_schemas n) (if_schema n) (then_schema n) (else_schema n)"

lemmas edit_defs = set_additional_def set_required_def set_items_def set_one_of_def set_any_of_def

definition rejects :: "regex \<Rightarrow> schema_node \<Rightarrow> pyval \<Rightarrow> bool" where
  "rejects search n v \<longleftrightarrow> (\<forall>path. verdict (validate_node search False n v path) = Some False)"

definition decides :: "regex \<Rightarrow> schema_node \<Rightarrow> pyval \<Rightarrow> bool" where
  "decides search n v \<longleftrightarrow> (\<forall>path. verdict (validate_node search False n v path) \<noteq> None)"

inductive blind_edit :: "regex \<Rightarrow> pyval \<Rightarrow> schema_node \<Rightarrow> schema_node \<Rightarrow> bool" for search v where
  sealed: "blind_edit search v n (set_additional (AddlBool False) n)"
    if "node_type n = Some ''object''" and "v = PDict d" and "undeclared search n d \<noteq> []"
| demanded: "blind_edit search v n (set_required (sn_required (facts n) @ rs) n)"
    if "node_type n = Some ''object''" and "v = PDict d" and "r \<in> set rs" and "\<not> has_field d r"
      and "set rs \<inter> set (keys (properties n)) = {}"
| members: "blind_edit search v n (set_items (Some c) n)"
    if "node_type n = Some ''array''" and "v = PList xs" and "items n = None"
      and "x \<in> set (drop (length (list_or_empty (prefix_items n))) xs)" and "rejects search c x"
      and "\<forall>y \<in> set xs. decides search c y"
| one_withdrawn: "blind_edit search v n (set_one_of (Some us) n)"
    if "us \<noteq> []" and "length us \<noteq> length (list_or_empty (one_of n))" and "\<forall>c \<in> set us. rejects search c v"
      and "v \<noteq> PNone"
| any_withdrawn: "blind_edit search v n (set_any_of (Some us) n)"
    if "us \<noteq> []" and "length us \<noteq> length (list_or_empty (any_of n))" and "\<forall>c \<in> set us. rejects search c v"
      and "v \<noteq> PNone"

section \<open>The differ does not see them\<close>

text \<open>The two nodes may differ in \<open>additionalProperties\<close> and \<open>not\<close>, in the presence of \<open>items\<close>,
  in the number of variants, and in required names that are no declared properties.\<close>

definition same_variants :: "schema_node list option \<Rightarrow> schema_node list option \<Rightarrow> bool" where
  "same_variants os ns \<longleftrightarrow> os = ns \<or> length (list_or_empty os) \<noteq> length (list_or_empty ns)"

definition same_to_differ :: "schema_node \<Rightarrow> schema_node \<Rightarrow> bool" where
  "same_to_differ old new \<longleftrightarrow>
     (facts new)\<lparr>sn_required := []\<rparr> = (facts old)\<lparr>sn_required := []\<rparr>
     \<and> (\<forall>r \<in> set (keys (properties old)). r \<in> set (sn_required (facts new)) \<longleftrightarrow> r \<in> set (sn_required (facts old)))
     \<and> properties new = properties old \<and> (items new = items old \<or> items old = None \<or> items new = None)
     \<and> same_variants (one_of old) (one_of new) \<and> same_variants (any_of old) (any_of new)
     \<and> same_variants (all_of old) (all_of new)
     \<and> prefix_items new = prefix_items old \<and> contains_schema new = contains_schema old
     \<and> pattern_properties new = pattern_properties old \<and> property_names new = property_names old
     \<and> dependent_schemas new = dependent_schemas old \<and> if_schema new = if_schema old
     \<and> then_schema new = then_schema old \<and> else_schema new = else_schema old"

lemma same_facts_read:
  assumes "(g :: schema_facts)\<lparr>sn_required := []\<rparr> = f\<lparr>sn_required := []\<rparr>"
  shows "\<exists>rs. g = f\<lparr>sn_required := rs\<rparr>"
  using assms by (cases f; cases g) simp

lemma same_to_differ_facts: "same_to_differ s t \<Longrightarrow> \<exists>rs. facts t = (facts s)\<lparr>sn_required := rs\<rparr>"
  unfolding same_to_differ_def by (elim conjE) (rule same_facts_read)

lemma same_to_differ_own:
  assumes "same_to_differ s t"
  shows "diff_default s t k l d = skip" "diff_nullable s t k l d = skip" "diff_type s t k l d = skip"
    "diff_format s t k l d = skip" "diff_enum s t k l d = skip" "diff_constraints s t k l d = skip"
    "diff_removed_properties s t k l d = skip" "diff_added_properties s t k l d = skip"
    "diff_became_required s t k l d = skip" "diff_became_optional s t k l d = skip"
    "diff_protobuf_schema s t k l d = skip"
proof -
  obtain rs where f: "facts t = (facts s)\<lparr>sn_required := rs\<rparr>"
    using same_to_differ_facts [OF assms] by blast
  have ps: "properties t = properties s"
    and req: "r \<in> set (keys (properties s)) \<Longrightarrow> r \<in> set rs \<longleftrightarrow> r \<in> set (sn_required (facts s))" for r
    using assms by (simp_all add: same_to_differ_def f)
  show "diff_default s t k l d = skip" "diff_nullable s t k l d = skip" "diff_type s t k l d = skip"
    "diff_format s t k l d = skip" "diff_enum s t k l d = skip"
    "diff_removed_properties s t k l d = skip" "diff_added_properties s t k l d = skip"
    by (simp_all add: diff_default_def diff_nullable_def diff_type_def diff_format_def diff_enum_def
        diff_removed_properties_def diff_added_properties_def Let_def for_each_skip f ps)
  have "constraint_value c (facts t) = constraint_value c (facts s)" for c
    by (simp add: constraint_value_def f)
  then show "diff_constraints s t k l d = skip"
    by (simp add: diff_constraints_def diff_constraint_def Let_def for_each_skip)
  show "diff_became_required s t k l d = skip" "diff_became_optional s t k l d = skip"
    unfolding diff_became_required_def diff_became_optional_def
    using req by (auto intro!: for_each_skip simp: f ps only_if_def set_keys_eq_dom domIff with_key_def split: option.splits)
  have "diff_field_numbers s t k l d = skip"
    unfolding diff_field_numbers_def by (intro for_each_skip with_key_skip) (auto simp: f)
  moreover have "diff_unreserved s t k l d = skip" "diff_presence s t k l d = skip"
    "diff_oneofs s t k l d = skip" "diff_reservations s t k l d = skip"
    by (simp_all add: diff_unreserved_def diff_presence_def diff_oneofs_def diff_reservations_def f
        oneof_members_def Let_def steps_Cons_skip sorted_diff_def [of "[]"])
  ultimately show "diff_protobuf_schema s t k l d = skip" by (simp add: diff_protobuf_schema_def steps_Cons_skip)
qed

lemma same_variants_silent:
  assumes "same_variants os ns" and "\<And>c q. c \<in> set (list_or_empty os) \<Longrightarrow> rec c c q = skip"
  shows "diff_variants rec attr os ns path = skip"
proof (cases "os = ns")
  case True
  then show ?thesis using self_variants [of os rec attr path] assms(2) by simp
next
  case False
  then show ?thesis using assms(1) by (simp add: same_variants_def diff_variants_def Let_def)
qed

lemma same_to_differ_2020_12:
  assumes "same_to_differ s t"
  shows "diff_2020_12 rec s t k w d p = diff_2020_12 rec s s k w d p"
proof -
  obtain rs where f: "facts t = (facts s)\<lparr>sn_required := rs\<rparr>"
    using same_to_differ_facts [OF assms] by blast
  have parts: "prefix_items t = prefix_items s" "contains_schema t = contains_schema s"
    "pattern_properties t = pattern_properties s" "property_names t = property_names s"
    "dependent_schemas t = dependent_schemas s" "if_schema t = if_schema s"
    "then_schema t = then_schema s" "else_schema t = else_schema s"
    using assms by (simp_all add: same_to_differ_def)
  show ?thesis
    unfolding diff_2020_12_def diff_dependent_required_def diff_dependent_schemas_def diff_prefix_items_def
      diff_pattern_properties_def diff_property_names_def diff_contains_def diff_conditionals_def
      diff_conditional_def f parts by simp
qed

lemma same_to_differ_silent:
  assumes "wf_schema s" and "same_to_differ s t"
  shows "diff_schema k w d s t p = skip"
proof -
  let ?rec = "diff_schema k w d"
  have rec: "?rec c c q = skip" if "c \<in> set (sub_schemas s)" for c q
    by (rule diff_schema_self [OF wf_schema_sub [OF assms(1) that]])
  note same = assms(2) [unfolded same_to_differ_def]
  obtain rs where f: "facts t = (facts s)\<lparr>sn_required := rs\<rparr>" using same_to_differ_facts [OF assms(2)] by blast
  have "diff_common_properties ?rec s t p = skip"
    unfolding diff_common_properties_def using same
    by (intro for_each_skip with_key_skip) (auto intro: rec sub_schema_members)
  moreover have "diff_items ?rec s t p = skip"
    unfolding diff_items_def using same rec [OF child_members(5)] by (auto split: option.splits)
  moreover have "diff_composition ?rec s t p = skip"
    using same by (auto simp: diff_composition_def intro!: steps_skip same_variants_silent rec
        dest: sub_schema_members(10,11,12))
  moreover have "diff_discriminator s t k l d = skip" for l
    using self_discriminator [OF wf_schema_discriminator [OF assms(1)]]
    by (simp add: diff_discriminator_def f)
  ultimately show ?thesis
    by (simp add: diff_schema_steps body_steps_def Let_def same_to_differ_own [OF assms(2)]
        same_to_differ_2020_12 [OF assms(2)] self_2020_12 [OF rec] steps_Cons_skip)
qed

lemma blind_edit_same: "blind_edit search v old new \<Longrightarrow> same_to_differ old new"
  by (induction rule: blind_edit.induct)
    (auto simp: edit_defs same_to_differ_def same_variants_def list_or_empty_def)

lemma blind_edit_silent: "wf_schema old \<Longrightarrow> blind_edit search v old new \<Longrightarrow> diff_schema k w d old new p = skip"
  by (rule same_to_differ_silent [OF _ blind_edit_same])

section \<open>The validator does\<close>

lemma seq_rejected: "verdict (seq_results rs) = Some False
    \<longleftrightarrow> (\<forall>r \<in> set rs. verdict r \<noteq> None) \<and> (\<exists>r \<in> set rs. verdict r = Some False)"
  unfolding verdict_seq sum_verdict_def by (auto simp: image_iff eq_commute [of None] eq_commute [of "Some False"])

lemma seq_accepted: "seq_results rs = (Inr [] :: violations result) \<longleftrightarrow> (\<forall>r \<in> set rs. r = Inr [])"
  by (induction rs) (auto simp: bind_result_def split: sum.splits)

abbreviation sub_validator :: "regex \<Rightarrow> validator" where
  "sub_validator search \<equiv> validate_node search False"

lemma accepted_value:
  assumes "validate_node search False n v p = Inr []" and "v \<noteq> PNone"
  shows "validate_typed search (sub_validator search) False n v p = Inr []"
    and "validate_variants (sub_validator search) (any_of n) ''anyOf'' v p = Inr []"
    and "validate_variants (sub_validator search) (one_of n) ''oneOf'' v p = Inr []"
    and "type_matches (node_type n) v"
    and "\<not> (sn_enum (facts n) \<noteq> None \<and> \<not> py_in v (list_or_empty (sn_enum (facts n))))"
    and "\<not> (sn_const (facts n) \<noteq> PNone \<and> \<not> py_eq v (sn_const (facts n)))"
proof -
  note run = assms(1) [unfolded validate_node.simps [of search False n] validate_body_def Let_def seq_accepted]
  show "type_matches (node_type n) v"
    "\<not> (sn_enum (facts n) \<noteq> None \<and> \<not> py_in v (list_or_empty (sn_enum (facts n))))"
    "\<not> (sn_const (facts n) \<noteq> PNone \<and> \<not> py_eq v (sn_const (facts n)))"
    using run assms(2) by (auto split: if_splits)
  then have "\<forall>r \<in> set [validate_typed search (sub_validator search) False n v p,
       validate_variants (sub_validator search) (any_of n) ''anyOf'' v p,
       validate_variants (sub_validator search) (one_of n) ''oneOf'' v p]. r = Inr []"
    using run assms(2) unfolding seq_accepted [symmetric] by (auto simp del: seq_results.simps split: if_splits)
  then show "validate_typed search (sub_validator search) False n v p = Inr []"
    "validate_variants (sub_validator search) (any_of n) ''anyOf'' v p = Inr []"
    "validate_variants (sub_validator search) (one_of n) ''oneOf'' v p = Inr []" by simp_all
qed

text \<open>A node that passes the same checks before the body of the validator rejects when one part does.\<close>

lemma edited_rejects:
  assumes "validate_node search False old v p = Inr []" and "v \<noteq> PNone"
    and "\<exists>rs. facts new = (facts old)\<lparr>sn_required := rs\<rparr>"
    and "part \<in> {validate_typed search (sub_validator search) False new v p,
        validate_variants (sub_validator search) (any_of new) ''anyOf'' v p,
        validate_variants (sub_validator search) (one_of new) ''oneOf'' v p}"
    and "verdict part = Some False"
    and "verdict (validate_typed search (sub_validator search) False new v p) \<noteq> None"
    and "verdict (validate_variants (sub_validator search) (any_of new) ''anyOf'' v p) \<noteq> None"
    and "verdict (validate_variants (sub_validator search) (one_of new) ''oneOf'' v p) \<noteq> None"
  shows "verdict (validate_node search False new v p) = Some False"
proof -
  have run: "verdict (validate_node search False new v p) = verdict (seq_results
      [validate_typed search (sub_validator search) False new v p,
       validate_variants (sub_validator search) (any_of new) ''anyOf'' v p,
       validate_variants (sub_validator search) (one_of new) ''oneOf'' v p])"
    using accepted_value(4-6) [OF assms(1,2)] assms(2,3)
    by (auto simp: validate_node.simps [of search False new] validate_body_def Let_def simp del: seq_results.simps)
  show ?thesis unfolding run seq_rejected using assms(4-8) by auto
qed

lemma withdrawn_rejects:
  assumes "us \<noteq> []" and "\<forall>c \<in> set us. rejects search c v"
  shows "verdict (validate_variants (sub_validator search) (Some us) label v p) = Some False"
proof -
  have "first_true (map (\<lambda>c. verdict (validate_node search False c v p)) cs) = Some False"
    if "\<forall>c \<in> set cs. rejects search c v" for cs
    using that by (induction cs) (auto simp: rejects_def)
  from this [OF assms(2)] have "forget (any_valid (map (\<lambda>c. validate_node search False c v p) us)) = Some False"
    by (simp add: forget_any_valid comp_def)
  then have "any_valid (map (\<lambda>c. validate_node search False c v p) us) = Inr False"
    by (simp add: forget_def split: sum.splits)
  then show ?thesis using assms(1) by (simp add: validate_variants_def list_or_empty_def)
qed

lemma members_reject:
  assumes "x \<in> set (drop n xs)" and "rejects search c x" and "\<forall>y \<in> set xs. decides search c y"
  shows "verdict (validate_items (sub_validator search) (Some c) n xs p) = Some False"
proof -
  have sub: "y \<in> set xs" if "(i, y) \<in> set (List.enumerate n (drop n xs))" for i y
    using that by (auto simp: enumerate_eq_zip dest!: set_zip_rightD in_set_dropD)
  obtain j where "j < length (drop n xs)" "drop n xs ! j = x"
    using assms(1) unfolding in_set_conv_nth by blast
  then have "(n + j, x) \<in> set (List.enumerate n (drop n xs))"
    by (simp add: in_set_enumerate_eq)
  moreover have "verdict (validate_node search False c x q) = Some False" for q
    using assms(2) by (simp add: rejects_def)
  moreover have "verdict (validate_node search False c y q) \<noteq> None" if "(i, y) \<in> set (List.enumerate n (drop n xs))" for i y q
    using sub [OF that] assms(3) by (simp add: decides_def)
  ultimately show ?thesis
    unfolding validate_items_def option.case seq_rejected by fastforce
qed

lemma typed_part_kept:
  "validate_typed search rec forbid (set_one_of us n) v p = validate_typed search rec forbid n v p"
  "validate_typed search rec forbid (set_any_of us n) v p = validate_typed search rec forbid n v p"
  unfolding edit_defs validate_typed_def validate_object_def validate_array_def validate_properties_def
    validate_dependent_schemas_def validate_pattern_properties_def validate_conditional_def
    validate_additional_def undeclared_def matched_by_pattern_def validate_contains_def schema_node.sel
  by (rule refl)+

lemma typed_object:
  "node_type n = Some ''object'' \<Longrightarrow>
    validate_typed search rec forbid n (PDict d) p = validate_object search rec forbid n d p"
  by (simp add: validate_typed_def)

lemma typed_array:
  "node_type n = Some ''array'' \<Longrightarrow>
    validate_typed search rec forbid n (PList xs) p = validate_array rec n xs p"
  by (simp add: validate_typed_def)

lemma sealed_rejects:
  assumes "validate_object search rec False n d p = Inr []" and "undeclared search n d \<noteq> []"
  shows "verdict (validate_object search rec False (set_additional (AddlBool False) n) d p) = Some False"
proof -
  let ?m = "set_additional (AddlBool False) n"
  have same: "facts ?m = facts n" "validate_properties rec ?m d p = validate_properties rec n d p"
    "validate_dependent_schemas rec ?m d p = validate_dependent_schemas rec n d p"
    "property_names ?m = property_names n"
    "validate_pattern_properties search rec ?m d p = validate_pattern_properties search rec n d p"
    "validate_conditional rec ?m d p = validate_conditional rec n d p"
    unfolding set_additional_def validate_properties_def validate_dependent_schemas_def
      validate_pattern_properties_def validate_conditional_def schema_node.sel by (rule refl)+
  have "undeclared search ?m d = undeclared search n d"
    by (simp add: set_additional_def undeclared_def matched_by_pattern_def)
  then have last: "verdict (validate_additional search rec False ?m d p) = Some False"
    using assms(2) by (simp add: validate_additional_def Let_def, simp add: set_additional_def)
  from assms(1) [unfolded validate_object_def seq_accepted] last
  show ?thesis unfolding validate_object_def seq_rejected by (auto simp: same)
qed

lemma demanded_rejects:
  assumes "validate_object search rec False n d p = Inr []" and "r \<in> set rs" and "\<not> has_field d r"
  shows "verdict (validate_object search rec False (set_required (sn_required (facts n) @ rs) n) d p) = Some False"
proof -
  let ?m = "set_required (sn_required (facts n) @ rs) n"
  have same: "validate_properties rec ?m d p = validate_properties rec n d p"
    "validate_dependent_required (facts ?m) d p = validate_dependent_required (facts n) d p"
    "validate_dependent_schemas rec ?m d p = validate_dependent_schemas rec n d p"
    "property_names ?m = property_names n"
    "validate_pattern_properties search rec ?m d p = validate_pattern_properties search rec n d p"
    "validate_conditional rec ?m d p = validate_conditional rec n d p"
    "validate_additional search rec False ?m d p = validate_additional search rec False n d p"
    unfolding set_required_def validate_properties_def validate_dependent_schemas_def
      validate_pattern_properties_def validate_conditional_def validate_dependent_required_def
      validate_additional_def undeclared_def matched_by_pattern_def schema_node.sel by simp_all
  have "verdict (validate_required (facts ?m) d p) = Some False"
    using assms(2,3) by (auto simp: verdict_required set_required_def)
  with assms(1) [unfolded validate_object_def seq_accepted]
  show ?thesis unfolding validate_object_def seq_rejected by (auto simp: same)
qed

lemma items_reject:
  assumes "validate_array rec n xs p = Inr []"
    and "verdict (validate_items rec (Some c) (length (list_or_empty (prefix_items n))) xs p) = Some False"
  shows "verdict (validate_array rec (set_items (Some c) n) xs p) = Some False"
proof -
  let ?m = "set_items (Some c) n"
  have same: "facts ?m = facts n" "prefix_items ?m = prefix_items n" "items ?m = Some c"
    "validate_contains rec ?m xs p = validate_contains rec n xs p"
    unfolding set_items_def validate_contains_def schema_node.sel by (rule refl)+
  from assms show ?thesis
    unfolding validate_array_def Let_def seq_rejected seq_accepted same by auto
qed

theorem blind_edit_rejects:
  assumes "blind_edit search v old new" and "validate_value search False (Some old) v p = Inr []"
  shows "verdict (validate_value search False (Some new) v p) = Some False"
proof -
  have accepted: "validate_node search False old v p = Inr []" using assms(2) by (simp add: validate_value_def)
  note old = accepted_value [OF accepted]
  note rejected = edited_rejects [OF accepted _ same_to_differ_facts [OF blind_edit_same [OF assms(1)]]]
  let ?typed = "verdict (validate_typed search (sub_validator search) False new v p) = Some False"
  from assms(1) have "verdict (validate_node search False new v p) = Some False"
  proof cases
    case (sealed d)
    have v: "v \<noteq> PNone" using sealed by simp
    have typed: ?typed
      using sealed_rejects [OF _ sealed(4)] old(1) [OF v] sealed by (simp add: typed_object edit_defs)
    show ?thesis by (rule rejected [OF v _ typed]) (use old(2,3) [OF v] sealed typed in \<open>simp_all add: edit_defs\<close>)
  next
    case (demanded d r rs)
    have v: "v \<noteq> PNone" using demanded by simp
    have typed: ?typed
      using demanded_rejects [OF _ demanded(4,5)] old(1) [OF v] demanded by (simp add: typed_object edit_defs)
    show ?thesis by (rule rejected [OF v _ typed]) (use old(2,3) [OF v] demanded typed in \<open>simp_all add: edit_defs\<close>)
  next
    case (members xs x c)
    have v: "v \<noteq> PNone" using members by simp
    have typed: ?typed
      using items_reject [OF _ members_reject [OF members(5,6,7)]] old(1) [OF v] members
      by (simp add: typed_array edit_defs)
    show ?thesis by (rule rejected [OF v _ typed]) (use old(2,3) [OF v] members typed in \<open>simp_all add: edit_defs\<close>)
  next
    case (one_withdrawn us)
    have new: "one_of new = Some us" "any_of new = any_of old"
      "validate_typed search rec False new v p = validate_typed search rec False old v p" for rec
      by (simp_all add: one_withdrawn(1) typed_part_kept, simp_all add: edit_defs)
    show ?thesis
      by (rule rejected [OF one_withdrawn(5) _ withdrawn_rejects [OF one_withdrawn(2,4), of "''oneOf''" p]])
        (use old(1,2) [OF one_withdrawn(5)] new withdrawn_rejects [OF one_withdrawn(2,4)] in simp_all)
  next
    case (any_withdrawn us)
    have new: "any_of new = Some us" "one_of new = one_of old"
      "validate_typed search rec False new v p = validate_typed search rec False old v p" for rec
      by (simp_all add: any_withdrawn(1) typed_part_kept, simp_all add: edit_defs)
    show ?thesis
      by (rule rejected [OF any_withdrawn(5) _ withdrawn_rejects [OF any_withdrawn(2,4), of "''anyOf''" p]])
        (use old(1,3) [OF any_withdrawn(5)] new withdrawn_rejects [OF any_withdrawn(2,4)] in simp_all)
  qed
  then show ?thesis by (simp add: validate_value_def)
qed

end
