(* ===== verification/InferLimits.thy ===== *)
theory InferLimits
  imports InferFacts BlindSpots
begin

text \<open>
  Samples an inferred schema does not accept. \<open>never_typed\<close> is the situation C16 excludes: below
  objects and arrays only, a position held nothing but null. And with \<open>infer_enums\<close> the enum of a
  position consists of its first sixty-four values.
\<close>

section \<open>Positions without a type\<close>

inductive never_typed :: "pyval list \<Rightarrow> bool" where
  here: "never_typed vs" if "vs \<noteq> []" and "set vs \<subseteq> {PNone}"
| field: "never_typed vs" if "json_type ` set vs \<subseteq> {''object'', ''null''}" and "never_typed (values_at k vs)"
| member: "never_typed vs" if "json_type ` set vs \<subseteq> {''array'', ''null''}" and "never_typed (elements_of vs)"

text \<open>Some sample is not found valid.\<close>

definition some_refused :: "regex \<Rightarrow> schema_node \<Rightarrow> pyval list \<Rightarrow> bool" where
  "some_refused search n vs \<longleftrightarrow> (\<exists>v \<in> set vs. \<forall>q. validate_node search False n v q \<noteq> Inr [])"

lemma never_typed_values: "never_typed vs \<Longrightarrow> vs \<noteq> []"
  by (induction rule: never_typed.induct) auto

lemma json_type_eq [simp]:
  "json_type v = ''null'' \<longleftrightarrow> v = PNone" "json_type v = ''object'' \<longleftrightarrow> (\<exists>d. v = PDict d)"
  "json_type v = ''array'' \<longleftrightarrow> (\<exists>xs. v = PList xs)"
  by (cases v; simp add: json_type_def)+

lemma one_type:
  assumes "json_type ` set vs \<subseteq> {t, ''null''}" and "t \<noteq> ''null''" and "v \<in> set vs" and "json_type v = t"
  shows "concrete_types (observed_from search vs) = [t]"
proof -
  have "set (concrete_types (observed_from search vs)) = {t}"
    using assms by (auto simp: set_concrete_types from_types)
  moreover have "distinct (concrete_types (observed_from search vs))"
    by (simp add: concrete_types_def)
  moreover have "ts = [t]" if "set ts = {t}" "distinct ts" for ts
    using that by (cases ts; cases "tl ts") auto
  ultimately show ?thesis by blast
qed

lemma refused_here:
  assumes "reading search P vs n" and "vs \<noteq> []" and "set vs \<subseteq> {PNone}"
  shows "some_refused search n vs"
proof -
  have "set (concrete_types (observed_from search vs)) = {}"
    using assms(3) by (auto simp: set_concrete_types from_types json_type_def)
  then have "\<not> sn_nullable (facts n)" using assms(1) by (simp add: reading_def Let_def)
  moreover have "PNone \<in> set vs" using assms(2,3) by (cases vs) auto
  ultimately show ?thesis
    unfolding some_refused_def
    by (intro bexI [of _ PNone]) (simp_all add: validate_node.simps validate_body_def check_def)
qed

lemma refused_field:
  assumes "reading search P vs n" and "\<forall>v \<in> set vs. proper_value v" and "json_type ` set vs \<subseteq> {''object'', ''null''}"
    and "(k, c) \<in> set (properties n)" and "some_refused search c (values_at k vs)"
  shows "some_refused search n vs"
proof -
  obtain w where w: "w \<in> set (values_at k vs)" "\<And>q. validate_node search False c w q \<noteq> Inr []"
    using assms(5) by (auto simp: some_refused_def)
  then obtain d where d: "PDict d \<in> set vs" "(k, w) \<in> set d" by (auto simp: values_at_member)
  have "distinct (keys d)" using assms(2) d(1) by auto
  then have at: "dict_get d k = Some w" using d(2) by (simp add: keys_def)
  have "node_type n = Some ''object''"
    using assms(1) one_type [OF assms(3) _ d(1)] by (simp add: reading_def Let_def json_type_def)
  moreover have "validate_properties rec n d q \<noteq> Inr []" if "rec c w (q @ ''.'' @ k) \<noteq> Inr []" for rec q
    unfolding validate_properties_def for_present_def seq_accepted using assms(4) at that
    by (auto intro!: bexI [of _ "(k, c)"])
  ultimately have "validate_typed search (sub_validator search) False n (PDict d) q \<noteq> Inr []" for q
    using w(2) by (simp add: typed_object validate_object_def seq_accepted del: seq_results.simps)
  then have "validate_node search False n (PDict d) q \<noteq> Inr []" for q
    using accepted_value(1) by blast
  then show ?thesis using d(1) by (auto simp: some_refused_def)
qed

lemma refused_member:
  assumes "reading search P vs n" and "json_type ` set vs \<subseteq> {''array'', ''null''}"
    and "items n = Some c" and "some_refused search c (elements_of vs)"
  shows "some_refused search n vs"
proof -
  obtain w where w: "w \<in> set (elements_of vs)" "\<And>q. validate_node search False c w q \<noteq> Inr []"
    using assms(4) by (auto simp: some_refused_def)
  then obtain xs where xs: "PList xs \<in> set vs" "w \<in> set xs" by (auto simp: elements_of_member)
  obtain j where "j < length xs" "xs ! j = w" using xs(2) by (auto simp: in_set_conv_nth)
  then have member: "(j, w) \<in> set (List.enumerate 0 xs)" by (simp add: in_set_enumerate_eq)
  have "node_type n = Some ''array''"
    using assms(1) one_type [OF assms(2) _ xs(1)] by (simp add: reading_def Let_def json_type_def)
  moreover have "prefix_items n = None" using assms(1) by (simp add: reading_def unconstrained_def Let_def)
  moreover have "validate_items (sub_validator search) (Some c) 0 xs q \<noteq> Inr []" for q
    unfolding validate_items_def option.case seq_accepted using member w(2) by force
  ultimately have "validate_typed search (sub_validator search) False n (PList xs) q \<noteq> Inr []" for q
    using assms(3) by (simp add: typed_array validate_array_def list_or_empty_def Let_def seq_accepted del: seq_results.simps)
  then have "validate_node search False n (PList xs) q \<noteq> Inr []" for q
    using accepted_value(1) by blast
  then show ?thesis using xs(1) by (auto simp: some_refused_def)
qed

lemma reading_refuses:
  assumes "reading search (\<lambda>c ws. never_typed ws \<longrightarrow> some_refused search c ws) vs n"
    and "\<forall>v \<in> set vs. proper_value v" and "never_typed vs"
  shows "some_refused search n vs"
  using assms(3)
proof cases
  case here
  then show ?thesis using refused_here [OF assms(1)] by blast
next
  case (field k)
  then have "k \<in> fst ` set (properties n)"
    using assms(1) never_typed_values by (simp add: reading_def Let_def)
  then obtain c where c: "(k, c) \<in> set (properties n)" by auto
  then have "some_refused search c (values_at k vs)"
    using assms(1) field(2) by (fastforce simp: reading_def unconstrained_def Let_def)
  with refused_field [OF assms(1,2) field(1) c] show ?thesis by blast
next
  case member
  then obtain c where c: "items n = Some c"
    using assms(1) never_typed_values by (auto simp: reading_def Let_def)
  then have "some_refused search c (elements_of vs)"
    using assms(1) member(2) by (simp add: reading_def unconstrained_def Let_def)
  with refused_member [OF assms(1) member(1) c] show ?thesis by blast
qed

theorem untyped_schema_refuses:
  assumes "\<forall>v \<in> set vs. proper_value v \<and> nesting v \<le> fuel" and "vs \<noteq> []"
  shows "\<exists>n. to_schema fuel file root (inferred_schema False (observed_from search vs)) p = gives (Some n)
    \<and> (never_typed vs \<longrightarrow> some_refused search n vs)"
  using assms
proof (induction fuel arbitrary: vs p)
  case 0
  have "nesting v \<noteq> 0" for v by (cases v) simp_all
  with 0 show ?case by (cases vs) auto
next
  case (Suc fuel)
  have below: "proper_value w \<and> nesting w \<le> fuel" if "w \<in> set (values_at k vs) \<or> w \<in> set (elements_of vs)" for w k
    using that Suc.prems(1) by (fastforce simp: values_at_member elements_of_member dest: nesting_member)
  have "\<exists>n. convert_schema file root (to_schema fuel file root) (inferred_schema False (observed_from search vs)) p = gives (Some n)
      \<and> reading search (\<lambda>c ws. never_typed ws \<longrightarrow> some_refused search c ws) vs n"
    by (rule reading_exists; rule Suc.IH) (use below in blast)+
  then show ?case using reading_refuses Suc.prems(1) by (auto simp del: convert_schema_def)
qed

section \<open>Enumerations\<close>

lemma observe_strings:
  "length (ob_values n) \<le> 64 \<Longrightarrow>
     ob_values (fold (observe_value search) (map PStr ss) n) = ob_values n @ take (64 - length (ob_values n)) (map PStr ss)"
proof (induction ss arbitrary: n)
  case (Cons s ss)
  have "ob_values (observe_value search (PStr s) n) = keep_value (PStr s) (ob_values n)"
    by (cases n) (simp add: Let_def)
  moreover have "64 - length (ob_values n) = Suc (64 - length (ob_values n @ [PStr s]))" if "length (ob_values n) < 64"
    using that by simp
  ultimately show ?case
    using Cons by (cases "length (ob_values n) < 64") (simp_all add: keep_value_def)
qed simp

lemma strings_values: "ob_values (observed_from search (map PStr ss)) = map PStr (take 64 ss)"
  by (simp add: observed_from_def observe_strings unseen_def take_map)

lemma strings_below: "values_at k (map PStr ss) = []" "elements_of (map PStr ss) = []"
  by (induction ss) (simp_all add: field_values_def list_or_empty_def)

definition enum_of :: "string list \<Rightarrow> string list" where
  "enum_of ss = sorted_set (take 64 ss)"

lemma strings_schema:
  assumes "8 \<le> length ss" and "length (enum_of ss) \<le> 12"
  shows "\<exists>fmt. inferred_schema True (observed_from search (map PStr ss)) = PDict (
      (''type'', PStr ''string'') # (case fmt of None \<Rightarrow> [] | Some f \<Rightarrow> [(''format'', PStr f)])
      @ [(''enum'', PList (map PStr (enum_of ss))), (''x-apiverity-samples'', PInt (int (length ss)))])"
proof -
  let ?node = "observed_from search (map PStr ss)"
  have ss: "ss \<noteq> []" using assms(1) by auto
  then obtain s where s: "s \<in> set ss" by (cases ss) auto
  have string: "json_type (PStr t) = ''string''" for t by (simp add: json_type_def)
  have types: "set (ob_types ?node) = {''string''}" using s by (auto simp: from_types string image_iff)
  have "concrete_types ?node = [''string'']"
    using s by (intro one_type [where v = "PStr s"]) (auto simp: string)
  then have type: "type_entry ?node = [(''type'', PStr ''string'')]" by (simp add: type_entry_def types)
  have enum: "enum_entry True ?node = [(''enum'', PList (map PStr (enum_of ss)))]"
    using assms ss by (simp add: enum_entry_def types from_seen strings_values MIN_SAMPLES_FOR_ENUM_def MAX_ENUM_VALUES_def
        enum_of_def Let_def comp_def py_str_def)
  have fmt: "\<exists>fmt. format_entry ?node = (case fmt of None \<Rightarrow> [] | Some f \<Rightarrow> [(''format'', PStr f)])"
    by (auto simp: format_entry_def split: list.split intro: exI [of _ None] exI [of _ "Some _"])
  have "map_of (ob_properties ?node) = (\<lambda>k. None)" by (rule ext) (simp add: from_property strings_below)
  then have props: "ob_properties ?node = []" by (simp add: map_of_eq_empty_iff)
  have "inferred_schema True n = PDict (type_entry n @ format_entry n @ enum_entry True n
      @ [(''x-apiverity-samples'', PInt (int (ob_seen n)))])" if "ob_properties n = []" "ob_items n = None" for n
    using that by (cases n) (simp add: Let_def)
  from this [OF props] fmt show ?thesis by (simp add: from_items strings_below type enum from_seen)
qed

lemma enum_schema_loads:
  assumes "d = (''type'', PStr ''string'') # (case fmt of None \<Rightarrow> [] | Some f \<Rightarrow> [(''format'', PStr f)])
      @ [(''enum'', PList (map PStr es)), (''x-apiverity-samples'', PInt k)]"
  shows "\<exists>n. to_schema (Suc fuel) file root (PDict d) p = gives (Some n)
    \<and> (\<forall>s q. validate_node search False n (PStr s) q = Inr [] \<longleftrightarrow> s \<in> set es)"
proof -
  let ?f = "empty_facts\<lparr>sn_type := Some ''string'', sn_format := fmt, sn_enum := Some (map PStr es),
    sn_source_location := loc file p\<rparr>"
  have look: "val_get d x = (if x = ''type'' then PStr ''string'' else if x = ''format'' then opt_val PStr fmt
      else if x = ''enum'' then PList (map PStr es) else if x = ''x-apiverity-samples'' then PInt k else PNone)"
    "map_of d x = None \<longleftrightarrow> val_get d x = PNone" for x
    by (cases fmt; simp add: assms val_get_def opt_val_def)+
  have "str_field (opt_val PStr fmt) = gives fmt" by (cases fmt) (simp_all add: str_field_def opt_val_def)
  then have attrs: "schema_attributes file d p = gives ?f"
    by (simp add: schema_attributes_def declared_type_def look assigned_def str_field_def [of PNone] str_field_def [of "PStr t" for t]
        dependent_required_of_def dict_at_def list_at_def list_or_empty_def empty_facts_def truthy_def Let_def)
  have "convert_object file (to_schema fuel file root) d p = gives (leaf ?f)"
    by (simp add: convert_object_def attrs)
      (simp add: look additional_of_def schema_at_def discriminator_of_def listed_schemas_def
        dict_at_def list_or_empty_def named_schemas_def is_dict_def is_dict_or_bool_def leaf_def empty_facts_def)
  then have "to_schema (Suc fuel) file root (PDict d) p = gives (Some (leaf ?f))"
    by (simp add: convert_schema_def deref_plain look)
  moreover have "validate_node search False (leaf ?f) (PStr s) q = Inr [] \<longleftrightarrow> s \<in> set es" for s q
    unfolding validate_node.simps [of search False "leaf ?f"]
    by (auto simp: validate_body_def Let_def leaf_def empty_facts_def py_in_def list_ex_iff
        list_or_empty_def type_matches_def plain_type_matches_def validate_typed_def validate_string_def check_bound_def
        validate_variants_def)
  ultimately show ?thesis by blast
qed

theorem enum_schema_admits:
  assumes "8 \<le> length ss" and "length (enum_of ss) \<le> 12" and "0 < fuel"
  shows "\<exists>n. to_schema fuel file root (inferred_schema True (observed_from search (map PStr ss))) p = gives (Some n)
    \<and> (\<forall>s q. validate_node search False n (PStr s) q = Inr [] \<longleftrightarrow> s \<in> set (take 64 ss))"
proof -
  obtain g where fuel: "fuel = Suc g" using assms(3) by (cases fuel) auto
  obtain fmt where "inferred_schema True (observed_from search (map PStr ss)) = PDict (
      (''type'', PStr ''string'') # (case fmt of None \<Rightarrow> [] | Some f \<Rightarrow> [(''format'', PStr f)])
      @ [(''enum'', PList (map PStr (enum_of ss))), (''x-apiverity-samples'', PInt (int (length ss)))])"
    using strings_schema [OF assms(1,2)] by blast
  with enum_schema_loads [OF refl, of g "file" root fmt "enum_of ss" "int (length ss)" p search] show ?thesis
    by (simp add: fuel enum_of_def)
qed

end
