(* ===== verification/SilentSamples.thy ===== *)
theory SilentSamples
  imports BlindSpots Samples
begin

text \<open>
  Edits of small schemas the differ does not see, with a value each of them makes invalid, and a
  response whose schema is reworded only.
\<close>

definition no_patterns :: regex where
  "no_patterns p s = Some True"

definition object_facts :: schema_facts where
  "object_facts = empty_facts\<lparr>sn_type := Some ''object''\<rparr>"

definition closed_object :: "schema_node additional \<Rightarrow> schema_node" where
  "closed_object extra = SchemaNode object_facts [] extra None None None None None None None [] None [] None None None"

definition array_of :: "schema_node option \<Rightarrow> schema_node" where
  "array_of sub = SchemaNode (empty_facts\<lparr>sn_type := Some ''array''\<rparr>) [] AddlNone sub
     None None None None None None [] None [] None None None"

definition one_of_types :: "string list \<Rightarrow> schema_node" where
  "one_of_types ts = SchemaNode empty_facts [] AddlNone None
     (Some (map (\<lambda>t. leaf (empty_facts\<lparr>sn_type := Some t\<rparr>)) ts)) None None None None None [] None [] None None None"

text \<open>Undeclared fields forbidden, a field required, members constrained, a variant withdrawn.\<close>

lemma sample_edits:
  "blind_edit no_patterns (PDict [(''id'', PInt 1)]) (closed_object AddlNone)
     (set_additional (AddlBool False) (closed_object AddlNone))"
  "blind_edit no_patterns (PDict []) (closed_object AddlNone) (set_required [''id''] (closed_object AddlNone))"
  "blind_edit no_patterns (PList [PInt 1]) (array_of None) (set_items (Some text_node) (array_of None))"
  "blind_edit no_patterns (PInt 1) (one_of_types [''string'', ''integer''])
     (set_one_of (Some [leaf (empty_facts\<lparr>sn_type := Some ''string''\<rparr>)]) (one_of_types [''string'', ''integer'']))"
proof -
  show "blind_edit no_patterns (PDict [(''id'', PInt 1)]) (closed_object AddlNone)
      (set_additional (AddlBool False) (closed_object AddlNone))"
    by (rule blind_edit.sealed [where d = "[(''id'', PInt 1)]"]) code_simp+
  have "blind_edit no_patterns (PDict []) (closed_object AddlNone)
      (set_required (sn_required (facts (closed_object AddlNone)) @ [''id'']) (closed_object AddlNone))"
    by (rule blind_edit.demanded [where d = "[]" and r = "''id''"]) code_simp+
  then show "blind_edit no_patterns (PDict []) (closed_object AddlNone) (set_required [''id''] (closed_object AddlNone))"
    by (simp add: closed_object_def object_facts_def empty_facts_def)
  have untexted: "rejects no_patterns text_node (PInt 1)" "decides no_patterns text_node (PInt 1)"
    by (simp_all add: rejects_def decides_def validate_node.simps validate_body_def text_node_def leaf_def
        empty_facts_def type_matches_def plain_type_matches_def)
  show "blind_edit no_patterns (PList [PInt 1]) (array_of None) (set_items (Some text_node) (array_of None))"
    by (rule blind_edit.members [where xs = "[PInt 1]" and x = "PInt 1"])
      (simp_all add: array_of_def list_or_empty_def untexted)
  show "blind_edit no_patterns (PInt 1) (one_of_types [''string'', ''integer''])
     (set_one_of (Some [leaf (empty_facts\<lparr>sn_type := Some ''string''\<rparr>)]) (one_of_types [''string'', ''integer'']))"
    by (rule blind_edit.one_withdrawn)
      (simp_all add: one_of_types_def list_or_empty_def rejects_def validate_node.simps validate_body_def leaf_def
        empty_facts_def type_matches_def plain_type_matches_def)
qed

definition name_field :: "string option \<Rightarrow> schema_node" where
  "name_field words = leaf (empty_facts\<lparr>sn_type := Some ''string'', sn_description := words\<rparr>)"

definition reworded :: "string option \<Rightarrow> schema_node" where
  "reworded words = object_node [(''name'', name_field words)]"

definition reworded_service :: "string option \<Rightarrow> service" where
  "reworded_service words = http_service [http_operation ''get'' ''/items'' None [json_response (reworded words)]]"

lemmas block_defs =
  diff_default_def diff_nullable_def diff_type_def diff_format_def diff_enum_def diff_constraints_def
  diff_constraint_def diff_removed_properties_def diff_added_properties_def diff_common_properties_def
  diff_became_required_def diff_became_optional_def diff_items_def diff_discriminator_def
  diff_composition_def diff_variants_def diff_2020_12_def diff_dependent_required_def
  diff_dependent_schemas_def diff_prefix_items_def diff_pattern_properties_def diff_property_names_def
  diff_contains_def diff_conditionals_def diff_conditional_def diff_optional_schema_def diff_bound_def

text \<open>A description is not compared.\<close>

lemma name_field_silent: "diff_schema k w d (name_field u) (name_field v) p = skip"
  by (subst diff_schema.simps; simp add: diff_schema_body_def block_defs Let_def name_field_def leaf_def empty_facts_def
      list_or_empty_def keys_def sorted_inter_def sorted_diff_def sorted_union_def steps_Cons_skip for_each_skip
      constraint_value_def CONSTRAINT_ATTRS_def)

lemma reworded_silent: "diff_schema k w d (reworded u) (reworded v) p = skip"
proof -
  have "diff_common_properties (diff_schema k w d) (reworded u) (reworded v) p = skip"
    unfolding diff_common_properties_def
    by (intro for_each_skip with_key_skip)
      (auto simp: reworded_def object_node_def with_parts_def keys_def name_field_silent split: if_splits)
  then show ?thesis
    by (subst diff_schema.simps; simp add: diff_schema_body_def)
      (simp add: block_defs Let_def reworded_def object_node_def with_parts_def leaf_def empty_facts_def
        list_or_empty_def keys_def sorted_inter_def sorted_diff_def sorted_union_def steps_Cons_skip
        for_each_skip constraint_value_def CONSTRAINT_ATTRS_def)
qed

lemma reworded_run: "run dumps (reworded_service u) (reworded_service v) = Inr []"
proof -
  let ?op = "\<lambda>u. http_operation ''get'' ''/items'' None [json_response (reworded u)]"
  have media: "diff_response_media (json_response (reworded u)) (json_response (reworded v)) status k = skip" for status k
    unfolding diff_response_media_def
    by (auto intro!: steps_skip for_each_skip with_key_skip simp: json_response_def keys_def reworded_silent split: if_splits)
  have "diff_common_response (json_response (reworded u)) (json_response (reworded v)) status k = skip" for status k
    using media by (simp add: diff_common_response_def)
      (simp add: json_response_def diff_response_headers_def diff_streaming_def diff_sequentiality_def
        steps_Cons_skip sorted_diff_def sorted_inter_def keys_def)
  then have "diff_responses (?op u) (?op v) k = skip" for k
    unfolding diff_responses_def Let_def
    by (auto intro!: steps_skip for_each_skip with_key_skip
        simp: http_operation_def index_responses_def dict_of_def json_response_def keys_def split: if_splits)
  then have "diff_operation (reworded_service u) (reworded_service v) (?op u) (?op v) = skip"
    by (simp add: diff_operation_def Let_def)
      (simp add: http_operation_def diff_parameters_def index_parameters_def dict_of_def keys_def
        diff_grpc_signature_def diff_request_body_def diff_security_def sec_str_def diff_deprecation_def
        diff_documentation_def diff_examples_def examples_dict_def steps_Cons_skip sorted_diff_def sorted_inter_def
        reworded_service_def http_service_def Let_def)
  then have "diff_operations (reworded_service u) (reworded_service v) = skip"
    unfolding diff_operations_def Let_def
    by (intro steps_skip)
      (auto intro!: for_each_skip with_key_skip
        simp: reworded_service_def http_service_def operations_by_key_def dict_of_def keys_def key_def
          http_operation_def split: if_splits)
  moreover have "diff_service_facts (reworded_service u) (reworded_service v) = skip"
    by (simp add: diff_service_facts_def reworded_service_def http_service_def Let_def steps_Cons_skip)
  ultimately show ?thesis
    by (simp add: run_def run_steps_def)
      (simp add: reworded_service_def http_service_def init_engine_def)
qed

end
