(* ===== verification/OpenApiSamples.thy ===== *)
theory OpenApiSamples
  imports OpenApiReads
begin

text \<open>
  Two small documents: one whose response schema refers to itself, as every tree or linked
  record does, and one whose single reference leads to a leaf.
\<close>

definition node_ref :: pyval where
  "node_ref = PDict [(''$ref'', PStr ''#/components/schemas/Node'')]"

definition child_list :: pyval where
  "child_list = PDict [(''type'', PStr ''array''), (''items'', node_ref)]"

definition tree_node :: pyval where
  "tree_node = PDict [(''type'', PStr ''object''), (''properties'', PDict [(''children'', child_list)])]"

definition leaf_node :: pyval where
  "leaf_node = PDict [(''type'', PStr ''object''), (''required'', PList [PStr ''id'']),
     (''properties'', PDict [(''id'', PDict [(''type'', PStr ''string''), (''not'', PDict [(''maxLength'', PInt 0)])])])]"

text \<open>A document with one operation that answers with \<open>#/components/schemas/Node\<close>.\<close>

definition document_of :: "pyval \<Rightarrow> (string \<times> pyval) list" where
  "document_of node =
     [(''openapi'', PStr ''3.1.0''),
      (''info'', PDict [(''title'', PStr ''Nodes''), (''version'', PStr ''1.0.0'')]),
      (''paths'', PDict [(''/nodes'', PDict [(''get'', PDict [(''responses'', PDict [(''200'', PDict
         [(''content'', PDict [(''application/json'', PDict [(''schema'', node_ref)])])])])])])]),
      (''components'', PDict [(''schemas'', PDict [(''Node'', node)])])]"

definition tree_root :: pyval where
  "tree_root = PDict (document_of tree_node)"

definition leaf_root :: pyval where
  "leaf_root = PDict (document_of leaf_node)"

text \<open>A document without external references is its own bundle.\<close>

definition no_files :: "(string \<times> pyval) list \<Rightarrow> bundle_result" where
  "no_files doc = \<lparr>bn_document = doc, bn_findings = [], bn_declared = [], bn_edges = []\<rparr>"

lemma tree_resolved: "resolved tree_root node_ref = tree_node" "resolved tree_root child_list = child_list"
  by code_simp+

lemma tree_unfolds: "unfolds tree_root node_ref child_list" "unfolds tree_root child_list node_ref"
proof -
  have "resolved tree_root node_ref = PDict [(''type'', PStr ''object''), (''properties'', PDict [(''children'', child_list)])]"
    by (simp only: tree_resolved tree_node_def)
  moreover have "resolved tree_root child_list = PDict [(''type'', PStr ''array''), (''items'', node_ref)]"
    by (simp only: tree_resolved) (rule child_list_def)
  ultimately show "unfolds tree_root node_ref child_list" "unfolds tree_root child_list node_ref"
    by (auto intro!: unfolds.intros
      simp: sub_values_def dict_at_def list_at_def val_get_def list_or_empty_def is_dict_or_bool_def is_dict_def node_ref_def)
qed

lemma tree_recursive: "(unfolds tree_root)\<^sup>+\<^sup>+ node_ref node_ref"
  using tree_unfolds by (blast intro: tranclp.trancl_into_trancl tranclp.r_into_trancl)


lemma leaf_ranked: "ranked (\<lambda>_. 0) leaf_root" "read_limit (\<lambda>_. 0) leaf_root = 35"
  by code_simp+

lemma tree_deref: "deref file tree_root node_ref p = gives tree_node" "deref file tree_root child_list p = gives child_list"
  by code_simp+

lemma tree_served: "served tree_root (document_of tree_node) node_ref"
proof -
  define media where "media = [(''schema'', node_ref)]"
  define resp where "resp = [(''content'', PDict [(''application/json'', PDict media)])]"
  define op where "op = [(''responses'', PDict [(''200'', PDict resp)])]"
  define methods where "methods = [(''get'', PDict op)]"
  have doc: "dict_at (document_of tree_node) ''paths'' = [(''/nodes'', PDict methods)]"
    by (simp add: document_of_def dict_at_def val_get_def list_or_empty_def methods_def op_def resp_def media_def)
  have plain: "resolved tree_root (PDict d) = PDict d" if "map_of d ''$ref'' = None" for d
    using that by (simp add: resolved_def chase.simps ref_of_def)
  have "served tree_root (document_of tree_node) (val_get media ''schema'')"
  proof (rule served.intros)
    show "(''/nodes'', PDict methods) \<in> set (dict_at (document_of tree_node) ''paths'')" by (simp add: doc)
    show "resolved tree_root (PDict methods) = PDict methods" by (rule plain) (simp add: methods_def)
    show "(''get'', PDict op, ''/paths/'' @ escape_pointer ''/nodes'' @ ''/'' @ ''get'')
        \<in> set (operation_nodes methods (''/paths/'' @ escape_pointer ''/nodes''))"
      by (simp add: operation_nodes_def HTTP_METHODS_def methods_def val_get_def)
    show "resolved tree_root (PDict op) = PDict op" by (rule plain) (simp add: op_def)
    show "(''200'', PDict resp) \<in> set (dict_at op ''responses'')"
      by (simp add: op_def dict_at_def val_get_def list_or_empty_def)
    show "resolved tree_root (PDict resp) = PDict resp" by (rule plain) (simp add: resp_def)
    show "(''application/json'', PDict media) \<in> set (dict_at resp ''content'')"
      by (simp add: resp_def dict_at_def val_get_def list_or_empty_def)
    show "is_dict (val_get media ''schema'')" by (simp add: media_def val_get_def is_dict_def node_ref_def)
  qed (simp_all add: is_dict_def)
  then show ?thesis by (simp add: media_def val_get_def)
qed

lemma leaf_loads: "case parse 3 ''api.json'' no_files (document_of leaf_node) of Inl _ \<Rightarrow> False | Inr _ \<Rightarrow> True"
  by code_simp

end
