(* ===== verification/InferSamples.thy ===== *)
theory InferSamples
  imports InferReads InferLimits SilentSamples OpenApiSamples
begin

text \<open>Recorded traffic of a small service, and samples whose inferred schema rejects them.\<close>

definition shop_body :: "int \<Rightarrow> pyval \<Rightarrow> pyval" where
  "shop_body i tag = PDict [(''id'', PInt i), (''tag'', tag)]"

definition item_exchange :: "int \<Rightarrow> pyval \<Rightarrow> exchange_entry" where
  "item_exchange i tag = \<lparr>xe_method = Some ''get'', xe_url = Some (''/items/'' @ int_str i), xe_status = Some 200,
     xe_response_body = shop_body i tag, xe_started_at = None\<rparr>"

definition item_traffic :: "exchange_entry list" where
  "item_traffic = [item_exchange 1 PNone, item_exchange 2 (PStr ''old''), item_exchange 3 (PInt 4)]"

text \<open>An engine that only knows digits.\<close>

definition digits_only :: regex where
  "digits_only p s = Some (p = INTEGER_RE \<and> s \<noteq> [] \<and> list_all decimal_digit s)"

definition plain_path :: "string \<Rightarrow> string" where
  "plain_path url = url"

definition any_word :: "string \<Rightarrow> bool" where
  "any_word s = True"

definition item_document :: "(string \<times> pyval) list" where
  "item_document = infer_document digits_only any_word plain_path ''Items'' ''1'' False ''recorded'' item_traffic"


text \<open>The document written from the traffic, its free texts aside.\<close>

definition item_schema :: pyval where
  "item_schema = PDict [(''type'', PStr ''object''),
     (''properties'', PDict [
        (''id'', PDict [(''type'', PStr ''integer''), (''x-apiverity-samples'', PInt 3)]),
        (''tag'', PDict [(''type'', PList [PStr ''integer'', PStr ''string'', PStr ''null'']), (''x-apiverity-samples'', PInt 3)])]),
     (''required'', PList [PStr ''id'', PStr ''tag'']), (''x-apiverity-samples'', PInt 3)]"

definition item_read :: "string \<Rightarrow> string \<Rightarrow> string \<Rightarrow> string \<Rightarrow> (string \<times> pyval) list" where
  "item_read about summary note samples =
     [(''openapi'', PStr ''3.1.0''),
      (''info'', PDict [(''title'', PStr ''Items (inferred draft)''), (''version'', PStr ''1''), (''description'', PStr about)]),
      (''x-apiverity-inferred'', PBool True),
      (''paths'', PDict [(''/items/{itemId}'', PDict [(''get'', PDict
         [(''summary'', PStr summary), (''description'', PStr note),
          (''responses'', PDict [(''200'', PDict [(''description'', PStr samples),
             (''content'', PDict [(''application/json'', PDict [(''schema'', item_schema)])])])]),
          (''x-apiverity-requests'', PInt 3)])])])]"

lemma item_read_loads: "case parse_service 2 ''items.json'' (item_read about summary note samples) [] [] of Inl _ \<Rightarrow> False | Inr _ \<Rightarrow> True"
  by code_simp

lemma item_document_read:
  "item_document = item_read (document_description 3 ''recorded'' [] 3) ''GET /items/{itemId}''
     (''Inferred from 3 recorded request(s). Path templating: every sibling of '' @ [CHR 0x27, CHR ''1'', CHR 0x27] @ '' looks like a integer.'')
     ''Observed 3 time(s).''"
  by code_simp

lemma parsed_alone:
  "(case parse fuel path no_files doc of Inl _ \<Rightarrow> False | Inr _ \<Rightarrow> True)
    = (case parse_service fuel path doc [] [] of Inl _ \<Rightarrow> False | Inr _ \<Rightarrow> True)"
  by (simp add: parse_def no_files_def sorted_set_def with_findings_def bind_load_def split: sum.split)

lemma item_document_loads: "case parse 2 ''items.json'' no_files item_document of Inl _ \<Rightarrow> False | Inr _ \<Rightarrow> True"
  using item_read_loads unfolding parsed_alone item_document_read .

lemma item_key: "inferred_key digits_only any_word plain_path item_traffic (item_exchange 2 (PStr ''old'')) = (''GET'', ''/items/{itemId}'')"
  by code_simp

lemma item_typed: "typed_everywhere (observed_from digits_only (observed_bodies digits_only any_word plain_path item_traffic
    (''GET'', ''/items/{itemId}'') 200))"
  by code_simp

text \<open>A field that was always null, and the sixty-fifth value of a field whose values are taken for an enum.\<close>

definition null_tags :: "pyval list" where
  "null_tags = [shop_body 1 PNone, shop_body 2 PNone]"

lemma null_tags_untyped: "never_typed null_tags"
  by (rule never_typed.field [of _ "''tag''"])
    (auto simp: null_tags_def shop_body_def json_type_def field_values_def intro: never_typed.here)

definition late_value :: "string list" where
  "late_value = replicate 64 ''a'' @ [''b'']"

end
