(* ===== verification/Redaction.thy ===== *)
theory Redaction
  imports PyValue
begin

text \<open>
  \<open>apiverity/traffic/redact.py\<close>: the import of recorded traffic and the redaction of headers,
  query fields and JSON bodies. \<open>re.sub\<close> of a pattern that compiles is the parameter \<open>sub\<close>
  (pattern, replacement, text), \<open>json.loads\<close> the parameter \<open>loads\<close>, which is \<open>None\<close> where it
  raises \<open>ValueError\<close>. The names of fields are compared in ASCII lower case.
\<close>

type_synonym re_sub = "string \<Rightarrow> string \<Rightarrow> string \<Rightarrow> string"
type_synonym json_loads = "string \<Rightarrow> pyval option"

definition DEFAULT_SENSITIVE_HEADERS :: "string list" where
  "DEFAULT_SENSITIVE_HEADERS = [''authorization'', ''cookie'', ''set-cookie'', ''proxy-authorization'',
     ''x-api-key'', ''x-auth-token'', ''x-csrf-token'']"

definition DEFAULT_SENSITIVE_QUERY :: "string list" where
  "DEFAULT_SENSITIVE_QUERY = [''api_key'', ''apikey'', ''token'', ''access_token'', ''secret'', ''password'']"

text \<open>A backslash, and the class of an optional quote.\<close>

definition backslash :: string where
  "backslash = [CHR 0x5C]"

definition quote_class :: string where
  "quote_class = ''['' @ backslash @ [CHR 0x22] @ sq @ '']?''"

definition DEFAULT_PATTERNS :: "string list" where
  "DEFAULT_PATTERNS = [
     ''(?i)bearer'' @ backslash @ ''s+[a-z0-9._'' @ backslash @ ''-]+'',
     ''(?i)sk-[a-z0-9]{16,}'',
     ''(?i)'' @ quote_class @ ''(?:api[_-]?key|token|secret|password)'' @ quote_class @ backslash @ ''s*[=:]'' @ backslash @ ''s*'' @ backslash @ ''S+'']"

record redaction_config =
  rc_sensitive_headers :: "string list"
  rc_sensitive_query_fields :: "string list"
  rc_sensitive_body_fields :: "string list"
  rc_patterns :: "string list"
  rc_replacement :: string

definition default_redaction :: redaction_config where
  "default_redaction = \<lparr>rc_sensitive_headers = DEFAULT_SENSITIVE_HEADERS,
     rc_sensitive_query_fields = DEFAULT_SENSITIVE_QUERY,
     rc_sensitive_body_fields = [''password'', ''secret'', ''token''],
     rc_patterns = DEFAULT_PATTERNS, rc_replacement = ''[REDACTED]''\<rparr>"

section \<open>Headers, query fields and bodies\<close>

definition sensitive :: "string list \<Rightarrow> string \<Rightarrow> bool" where
  "sensitive names k \<longleftrightarrow> lower k \<in> set names"

text \<open>\<open>for pattern in cfg.compiled(): s = pattern.sub(cfg.replacement, s)\<close>\<close>

definition sub_patterns :: "re_sub \<Rightarrow> redaction_config \<Rightarrow> string \<Rightarrow> string" where
  "sub_patterns sub cfg s = fold (\<lambda>p. sub p (rc_replacement cfg)) (rc_patterns cfg) s"

definition redact_headers :: "re_sub \<Rightarrow> redaction_config \<Rightarrow> (string, pyval) dict \<Rightarrow> (string, pyval) dict" where
  "redact_headers sub cfg headers = map (\<lambda>(k, v). (k,
     if sensitive (rc_sensitive_headers cfg) k then PStr (rc_replacement cfg)
     else if rc_patterns cfg = [] then v else PStr (sub_patterns sub cfg (py_str v)))) headers"

definition redact_query :: "redaction_config \<Rightarrow> (string, pyval) dict \<Rightarrow> (string, pyval) dict" where
  "redact_query cfg params = map (\<lambda>(k, v). (k,
     if sensitive (rc_sensitive_query_fields cfg) k then PStr (rc_replacement cfg) else v)) params"

definition json_fields :: "redaction_config \<Rightarrow> bool \<Rightarrow> string list" where
  "json_fields cfg is_body = (if is_body then rc_sensitive_body_fields cfg else rc_sensitive_query_fields cfg)"

fun redact_json :: "re_sub \<Rightarrow> redaction_config \<Rightarrow> bool \<Rightarrow> pyval \<Rightarrow> pyval" where
  "redact_json sub cfg is_body (PDict d) = PDict (map (\<lambda>(k, v). (k,
     if sensitive (json_fields cfg is_body) k then PStr (rc_replacement cfg) else redact_json sub cfg is_body v)) d)"
| "redact_json sub cfg is_body (PList xs) = PList (map (redact_json sub cfg is_body) xs)"
| "redact_json sub cfg is_body (PStr s) = PStr (sub_patterns sub cfg s)"
| "redact_json sub cfg is_body v = v"

definition decode_body :: "re_sub \<Rightarrow> json_loads \<Rightarrow> redaction_config \<Rightarrow> pyval \<Rightarrow> string
    \<Rightarrow> (pyval \<times> string option) result" where
  "decode_body sub loads cfg raw mime =
     (if raw = PNone \<or> raw = PStr [] then Inr (PNone, None)
      else if \<not> contains ''json'' (lower mime) then
        Inr (PNone, Some (''body is '' @ (if mime = [] then ''an unknown type'' else mime) @ '', not JSON''))
      else (case raw of
          PStr s \<Rightarrow> (case loads s of
              None \<Rightarrow> Inr (PNone, Some ''body is not parseable JSON (truncated or encoded?)'')
            | Some parsed \<Rightarrow> Inr (redact_json sub cfg True parsed, None))
        | _ \<Rightarrow> Inl (TypeError ''the JSON object must be str, bytes or bytearray'')))"

section \<open>The import of a HAR document\<close>

text \<open>\<open>v.get(k, fallback)\<close>\<close>

definition get_or :: "pyval \<Rightarrow> string \<Rightarrow> pyval \<Rightarrow> pyval result" where
  "get_or v k fallback = (case v of
       PDict d \<Rightarrow> Inr (case map_of d k of None \<Rightarrow> fallback | Some w \<Rightarrow> w)
     | _ \<Rightarrow> Inl (AttributeError ''get''))"

text \<open>\<open>{h["name"]: h.get("value") for h in xs}\<close>: a name must be hashable.\<close>

definition named_value :: "pyval \<Rightarrow> (pyval \<times> pyval) list result" where
  "named_value h = (case h of
       PDict d \<Rightarrow> (case map_of d ''name'' of
           None \<Rightarrow> Inl (KeyError ''name'')
         | Some n \<Rightarrow> if hashable n then Inr [(n, val_get d ''value'')] else Inl (TypeError ''unhashable type''))
     | _ \<Rightarrow> Inl (TypeError ''indices must be integers''))"

definition named_values :: "pyval \<Rightarrow> (pyval \<times> pyval) list result" where
  "named_values v = bind_result (py_iter v) (\<lambda>xs. seq_results (map named_value xs))"

text \<open>\<open>k.lower()\<close> on every name.\<close>

definition text_name :: "pyval \<times> pyval \<Rightarrow> (string \<times> pyval) list result" where
  "text_name kv = (case fst kv of PStr k \<Rightarrow> Inr [(k, snd kv)] | _ \<Rightarrow> Inl (AttributeError ''lower''))"

definition text_names :: "(pyval \<times> pyval) list \<Rightarrow> (string, pyval) dict result" where
  "text_names kvs = bind_result (seq_results (map text_name kvs)) (\<lambda>d. Inr (dict_of d))"

record imported_entry =
  ie_method :: pyval
  ie_url :: pyval
  ie_request_headers :: "(string, pyval) dict"
  ie_query :: "(string, pyval) dict"
  ie_request_body :: pyval
  ie_request_body_dropped :: "string option"
  ie_status :: pyval
  ie_response_headers :: "(string, pyval) dict"
  ie_response_body :: pyval
  ie_response_body_dropped :: "string option"
  ie_response_mime :: string
  ie_started_at :: pyval
  ie_elapsed_ms :: pyval

definition val_or_empty :: "pyval \<Rightarrow> pyval" where
  "val_or_empty v = (if truthy v then v else PDict [])"

definition text_or_empty :: "pyval \<Rightarrow> string" where
  "text_or_empty v = (if truthy v then py_str v else [])"

text \<open>\<open>content.get("text")\<close> and \<open>str(content.get("mimeType") or "")\<close>, decoded.\<close>

definition decode_content :: "re_sub \<Rightarrow> json_loads \<Rightarrow> redaction_config \<Rightarrow> pyval \<Rightarrow> (pyval \<times> string option) result" where
  "decode_content sub loads cfg content =
     bind_result (get_or content ''text'' PNone) (\<lambda>raw.
     bind_result (get_or content ''mimeType'' PNone) (\<lambda>mime.
       decode_body sub loads cfg raw (text_or_empty mime)))"

definition header_fields :: "re_sub \<Rightarrow> redaction_config \<Rightarrow> pyval \<Rightarrow> (string, pyval) dict result" where
  "header_fields sub cfg message =
     bind_result (get_or message ''headers'' (PList [])) (\<lambda>hs.
     bind_result (named_values hs) (\<lambda>kvs.
     bind_result (text_names kvs) (\<lambda>d. Inr (redact_headers sub cfg d))))"

definition response_content :: "re_sub \<Rightarrow> json_loads \<Rightarrow> redaction_config \<Rightarrow> bool \<Rightarrow> pyval \<Rightarrow> (pyval \<times> string option) result" where
  "response_content sub loads cfg include_bodies content =
     (if include_bodies then decode_content sub loads cfg content else Inr (PNone, Some ''response bodies not imported''))"

definition import_exchange :: "re_sub \<Rightarrow> json_loads \<Rightarrow> redaction_config \<Rightarrow> bool \<Rightarrow> pyval \<Rightarrow> imported_entry result" where
  "import_exchange sub loads cfg include_bodies exchange =
     bind_result (get_or exchange ''request'' (PDict [])) (\<lambda>req.
     bind_result (get_or exchange ''response'' (PDict [])) (\<lambda>resp.
     bind_result (get_or req ''queryString'' (PList [])) (\<lambda>qs.
     bind_result (named_values qs) (\<lambda>qdict.
     bind_result (get_or req ''postData'' (PDict [])) (\<lambda>post.
     bind_result (decode_content sub loads cfg (val_or_empty post)) (\<lambda>(request_body, request_dropped).
     bind_result (get_or resp ''content'' (PDict [])) (\<lambda>content.
     bind_result (response_content sub loads cfg include_bodies (val_or_empty content)) (\<lambda>(response_body, response_dropped).
     bind_result (get_or req ''method'' PNone) (\<lambda>verb.
     bind_result (get_or req ''url'' PNone) (\<lambda>url.
     bind_result (header_fields sub cfg req) (\<lambda>request_headers.
     bind_result (text_names qdict) (\<lambda>query.
     bind_result (get_or resp ''status'' PNone) (\<lambda>status.
     bind_result (header_fields sub cfg resp) (\<lambda>response_headers.
     bind_result (get_or (val_or_empty content) ''mimeType'' PNone) (\<lambda>mime.
     bind_result (get_or exchange ''startedDateTime'' PNone) (\<lambda>started.
     bind_result (get_or exchange ''time'' PNone) (\<lambda>elapsed.
       Inr \<lparr>ie_method = verb, ie_url = url, ie_request_headers = request_headers, ie_query = redact_query cfg query,
         ie_request_body = request_body, ie_request_body_dropped = request_dropped, ie_status = status,
         ie_response_headers = response_headers, ie_response_body = response_body,
         ie_response_body_dropped = response_dropped, ie_response_mime = text_or_empty mime,
         ie_started_at = started, ie_elapsed_ms = elapsed\<rparr>)))))))))))))))))"

definition import_har :: "re_sub \<Rightarrow> json_loads \<Rightarrow> redaction_config \<Rightarrow> bool \<Rightarrow> pyval \<Rightarrow> imported_entry list result" where
  "import_har sub loads cfg include_bodies data =
     bind_result (get_or data ''log'' (PDict [])) (\<lambda>log.
     bind_result (get_or log ''entries'' (PList [])) (\<lambda>es.
     bind_result (py_iter es) (\<lambda>xs.
       seq_results (map (\<lambda>x. bind_result (import_exchange sub loads cfg include_bodies x) (\<lambda>e. Inr [e])) xs))))"

end
