(* ===== verification/RedactionFacts.thy ===== *)
theory RedactionFacts
  imports Redaction
begin

text \<open>
  What redaction keeps secret, as a relation: two recordings that differ only in what the
  configuration names as sensitive are imported as the same entries.
\<close>

section \<open>Recordings that differ in secrets only\<close>

fun alike_values :: "string list \<Rightarrow> pyval \<Rightarrow> pyval \<Rightarrow> bool"
  and alike_items :: "string list \<Rightarrow> pyval list \<Rightarrow> pyval list \<Rightarrow> bool"
  and alike_fields :: "string list \<Rightarrow> (string \<times> pyval) list \<Rightarrow> (string \<times> pyval) list \<Rightarrow> bool" where
  "alike_values names (PDict d) w = (case w of PDict d' \<Rightarrow> alike_fields names d d' | _ \<Rightarrow> False)"
| "alike_values names (PList xs) w = (case w of PList ys \<Rightarrow> alike_items names xs ys | _ \<Rightarrow> False)"
| "alike_values names v w = (v = w)"
| "alike_items names [] ys = (ys = [])"
| "alike_items names (x # xs) ys = (case ys of [] \<Rightarrow> False | y # ys' \<Rightarrow> alike_values names x y \<and> alike_items names xs ys')"
| "alike_fields names [] d' = (d' = [])"
| "alike_fields names ((k, v) # d) d' = (case d' of [] \<Rightarrow> False
     | (k', v') # r \<Rightarrow> k = k' \<and> (sensitive names k \<or> alike_values names v v') \<and> alike_fields names d r)"

text \<open>A header or query field of the recording, \<open>{"name": ..., "value": ...}\<close>.\<close>

definition alike_named :: "string list \<Rightarrow> pyval \<Rightarrow> pyval \<Rightarrow> bool" where
  "alike_named names h h' \<longleftrightarrow> h = h' \<or> (case (h, h') of
       (PDict d, PDict d') \<Rightarrow> map_of d ''name'' = map_of d' ''name''
         \<and> (case map_of d ''name'' of Some (PStr n) \<Rightarrow> sensitive names n | _ \<Rightarrow> False)
     | _ \<Rightarrow> False)"

definition alike_list :: "(pyval \<Rightarrow> pyval \<Rightarrow> bool) \<Rightarrow> pyval \<Rightarrow> pyval \<Rightarrow> bool" where
  "alike_list alike v w \<longleftrightarrow> v = w \<or> (case (v, w) of (PList xs, PList ys) \<Rightarrow> list_all2 alike xs ys | _ \<Rightarrow> False)"

text \<open>The content of a message: both texts parse, to values that differ in secrets only, or
  neither is kept, not being JSON.\<close>

definition alike_text :: "json_loads \<Rightarrow> string list \<Rightarrow> string \<Rightarrow> string \<Rightarrow> string \<Rightarrow> bool" where
  "alike_text loads names mime s t \<longleftrightarrow> s \<noteq> [] \<and> t \<noteq> [] \<and>
     (\<not> contains ''json'' (lower mime)
      \<or> (case (loads s, loads t) of (Some v, Some w) \<Rightarrow> alike_values names v w | _ \<Rightarrow> False))"

definition alike_content :: "json_loads \<Rightarrow> string list \<Rightarrow> pyval \<Rightarrow> pyval \<Rightarrow> bool" where
  "alike_content loads names v w \<longleftrightarrow> v = w \<or> (case (v, w) of
       (PDict d, PDict d') \<Rightarrow> map_of d ''mimeType'' = map_of d' ''mimeType''
         \<and> (case (map_of d ''text'', map_of d' ''text'') of
              (Some (PStr s), Some (PStr t)) \<Rightarrow>
                alike_text loads names (text_or_empty (val_get d ''mimeType'')) s t
            | _ \<Rightarrow> False)
     | _ \<Rightarrow> False)"

definition alike_part :: "json_loads \<Rightarrow> redaction_config \<Rightarrow> pyval \<Rightarrow> pyval \<Rightarrow> bool" where
  "alike_part loads cfg v w \<longleftrightarrow> v = w \<or> (case (v, w) of
       (PDict d, PDict d') \<Rightarrow>
         map_of d ''method'' = map_of d' ''method'' \<and> map_of d ''url'' = map_of d' ''url''
         \<and> map_of d ''status'' = map_of d' ''status''
         \<and> rel_option (alike_list (alike_named (rc_sensitive_headers cfg))) (map_of d ''headers'') (map_of d' ''headers'')
         \<and> rel_option (alike_list (alike_named (rc_sensitive_query_fields cfg))) (map_of d ''queryString'') (map_of d' ''queryString'')
         \<and> rel_option (alike_content loads (rc_sensitive_body_fields cfg)) (map_of d ''postData'') (map_of d' ''postData'')
         \<and> rel_option (alike_content loads (rc_sensitive_body_fields cfg)) (map_of d ''content'') (map_of d' ''content'')
     | _ \<Rightarrow> False)"

definition alike_exchange :: "json_loads \<Rightarrow> redaction_config \<Rightarrow> pyval \<Rightarrow> pyval \<Rightarrow> bool" where
  "alike_exchange loads cfg v w \<longleftrightarrow> v = w \<or> (case (v, w) of
       (PDict d, PDict d') \<Rightarrow>
         map_of d ''startedDateTime'' = map_of d' ''startedDateTime'' \<and> map_of d ''time'' = map_of d' ''time''
         \<and> rel_option (alike_part loads cfg) (map_of d ''request'') (map_of d' ''request'')
         \<and> rel_option (alike_part loads cfg) (map_of d ''response'') (map_of d' ''response'')
     | _ \<Rightarrow> False)"

section \<open>Bodies\<close>

lemma alike_redacted:
  "alike_values (json_fields cfg b) v w \<Longrightarrow> redact_json sub cfg b v = redact_json sub cfg b w"
  "alike_items (json_fields cfg b) xs ys \<Longrightarrow> map (redact_json sub cfg b) xs = map (redact_json sub cfg b) ys"
  "alike_fields (json_fields cfg b) d d' \<Longrightarrow>
    map (\<lambda>(k, v). (k, if sensitive (json_fields cfg b) k then PStr (rc_replacement cfg) else redact_json sub cfg b v)) d =
    map (\<lambda>(k, v). (k, if sensitive (json_fields cfg b) k then PStr (rc_replacement cfg) else redact_json sub cfg b v)) d'"
  by (induction "json_fields cfg b" v w and "json_fields cfg b" xs ys and "json_fields cfg b" d d'
      rule: alike_values_alike_items_alike_fields.induct)
    (auto split: pyval.splits list.splits prod.splits)

lemma alike_decoded:
  assumes "alike_text loads (rc_sensitive_body_fields cfg) mime s t"
  shows "decode_body sub loads cfg (PStr s) mime = decode_body sub loads cfg (PStr t) mime"
  using assms alike_redacted(1) [of cfg True]
  by (auto simp: alike_text_def decode_body_def json_fields_def split: option.splits)

lemma alike_decode_content:
  assumes "alike_content loads (rc_sensitive_body_fields cfg) v w"
  shows "decode_content sub loads cfg (val_or_empty v) = decode_content sub loads cfg (val_or_empty w)"
    and "get_or (val_or_empty v) ''mimeType'' PNone = get_or (val_or_empty w) ''mimeType'' PNone"
proof -
  consider "v = w" | d d' s t where "v = PDict d" "w = PDict d'" "map_of d ''mimeType'' = map_of d' ''mimeType''"
      "map_of d ''text'' = Some (PStr s)" "map_of d' ''text'' = Some (PStr t)"
      "alike_text loads (rc_sensitive_body_fields cfg) (text_or_empty (val_get d ''mimeType'')) s t"
    using assms by (auto simp: alike_content_def split: pyval.splits option.splits)
  then show "decode_content sub loads cfg (val_or_empty v) = decode_content sub loads cfg (val_or_empty w)"
    and "get_or (val_or_empty v) ''mimeType'' PNone = get_or (val_or_empty w) ''mimeType'' PNone"
    by (cases; auto simp: decode_content_def val_or_empty_def truthy_def get_or_def val_get_def
        intro!: alike_decoded split: option.splits)+
qed

section \<open>Headers and query fields\<close>

text \<open>Names are read the same; values agree where the name is public.\<close>

definition agree_public :: "string list \<Rightarrow> pyval \<times> pyval \<Rightarrow> pyval \<times> pyval \<Rightarrow> bool" where
  "agree_public names kv kv' \<longleftrightarrow> fst kv = fst kv' \<and>
     (snd kv = snd kv' \<or> (case fst kv of PStr n \<Rightarrow> sensitive names n | _ \<Rightarrow> False))"

definition rel_result :: "('a \<Rightarrow> 'b \<Rightarrow> bool) \<Rightarrow> 'a result \<Rightarrow> 'b result \<Rightarrow> bool" where
  "rel_result r a b = rel_sum (=) r a b"

lemma rel_result_simps [simp]:
  "rel_result r (Inl e) b \<longleftrightarrow> b = Inl e"
  "rel_result r (Inr x) b \<longleftrightarrow> (\<exists>y. b = Inr y \<and> r x y)"
  by (cases b; auto simp: rel_result_def)+

lemma rel_result_bind:
  assumes "rel_result r a b" and "\<And>x y. r x y \<Longrightarrow> rel_result q (f x) (g y)"
  shows "rel_result q (bind_result a f) (bind_result b g)"
  using assms by (cases a) auto

lemma rel_result_refl: "(\<And>x. r x x) \<Longrightarrow> rel_result r a a"
  by (cases a) auto

lemma rel_result_bind_eq:
  "a = b \<Longrightarrow> (\<And>x. rel_result q (f x) (g x)) \<Longrightarrow> rel_result q (bind_result a f) (bind_result b g)"
  by (cases b) auto

lemma rel_result_eq [simp]: "rel_result (=) a b \<longleftrightarrow> a = b"
  by (cases a) auto

lemma rel_result_seq:
  "list_all2 (rel_result (list_all2 r)) as bs \<Longrightarrow> rel_result (list_all2 r) (seq_results as) (seq_results bs)"
proof (induction rule: list_all2_induct)
  case (Cons a as b bs)
  from Cons(1) show ?case unfolding seq_results.simps
  proof (rule rel_result_bind)
    fix xs ys
    assume "list_all2 r xs ys"
    then show "rel_result (list_all2 r) (bind_result (seq_results as) (\<lambda>zs. Inr (xs @ zs))) (bind_result (seq_results bs) (\<lambda>zs. Inr (ys @ zs)))"
      by (intro rel_result_bind [OF Cons.IH]) (auto intro: list_all2_appendI)
  qed
qed simp

lemma alike_named_value: "alike_named names h h' \<Longrightarrow> rel_result (list_all2 (agree_public names)) (named_value h) (named_value h')"
  by (auto simp: alike_named_def named_value_def agree_public_def rel_result_refl split: pyval.splits option.splits dest: sym)

lemma agree_public_refl [simp]: "list_all2 (agree_public names) kvs kvs"
  by (rule list.rel_refl) (simp add: agree_public_def)

lemma alike_named_values:
  assumes "alike_list (alike_named names) v w"
  shows "rel_result (list_all2 (agree_public names)) (named_values v) (named_values w)"
proof (cases "v = w")
  case False
  then obtain xs ys where "v = PList xs" "w = PList ys" "list_all2 (alike_named names) xs ys"
    using assms by (auto simp: alike_list_def split: pyval.splits)
  then show ?thesis
    by (auto simp: named_values_def list.rel_map intro!: rel_result_seq elim!: list_all2_mono alike_named_value)
qed (simp add: rel_result_refl)

definition agree_field :: "string list \<Rightarrow> string \<times> pyval \<Rightarrow> string \<times> pyval \<Rightarrow> bool" where
  "agree_field names kv kv' \<longleftrightarrow> fst kv = fst kv' \<and> (snd kv = snd kv' \<or> sensitive names (fst kv))"

lemma agree_text_name:
  "agree_public names kv kv' \<Longrightarrow> rel_result (list_all2 (agree_field names)) (text_name kv) (text_name kv')"
  by (auto simp: agree_public_def agree_field_def text_name_def split: pyval.splits)

lemma agree_dict_set:
  assumes "list_all2 (agree_field names) d d'" and "agree_field names (k, v) (k, v')"
  shows "list_all2 (agree_field names) (dict_set k v d) (dict_set k v' d')"
  using assms
  by (induction rule: list_all2_induct) (auto simp: agree_field_def split: prod.splits)

lemma agree_dict_of:
  assumes "list_all2 (agree_field names) xs ys"
  shows "list_all2 (agree_field names) (dict_of xs) (dict_of ys)"
proof -
  have "list_all2 (agree_field names) (fold (\<lambda>(k, v). dict_set k v) xs d) (fold (\<lambda>(k, v). dict_set k v) ys d')"
    if "list_all2 (agree_field names) d d'" for d d'
    using assms that
  proof (induction arbitrary: d d' rule: list_all2_induct)
    case (Cons x xs y ys)
    then show ?case
      using agree_dict_set [OF Cons.prems] Cons.IH by (cases x; cases y) (simp add: agree_field_def [of _ "(_, _)"])
  qed simp
  then show ?thesis by (simp add: dict_of_def)
qed

lemma agree_text_names:
  assumes "list_all2 (agree_public names) kvs kvs'"
  shows "rel_result (list_all2 (agree_field names)) (text_names kvs) (text_names kvs')"
  unfolding text_names_def
proof (rule rel_result_bind)
  show "rel_result (list_all2 (agree_field names)) (seq_results (map text_name kvs)) (seq_results (map text_name kvs'))"
    using assms by (auto simp: list.rel_map intro!: rel_result_seq elim!: list_all2_mono agree_text_name)
qed (simp add: agree_dict_of)

lemma agree_redacted_headers:
  "list_all2 (agree_field (rc_sensitive_headers cfg)) d d' \<Longrightarrow> redact_headers sub cfg d = redact_headers sub cfg d'"
  unfolding redact_headers_def by (induction rule: list_all2_induct) (auto simp: agree_field_def)

lemma agree_redacted_query:
  "list_all2 (agree_field (rc_sensitive_query_fields cfg)) d d' \<Longrightarrow> redact_query cfg d = redact_query cfg d'"
  unfolding redact_query_def by (induction rule: list_all2_induct) (auto simp: agree_field_def)

section \<open>Whole exchanges\<close>

lemma alike_get:
  assumes "rel_option r (map_of d k) (map_of d' k)" and "r fallback fallback"
  shows "rel_result r (get_or (PDict d) k fallback) (get_or (PDict d') k fallback)"
  using assms by (auto simp: get_or_def split: option.splits)

lemma alike_list_refl [simp]: "alike_list r v v"
  by (simp add: alike_list_def)

lemma alike_content_refl [simp]: "alike_content loads names v v"
  by (simp add: alike_content_def)

lemma alike_part_refl [simp]: "alike_part loads cfg v v"
  by (simp add: alike_part_def)

lemma alike_part_cases:
  assumes "alike_part loads cfg v w"
  obtains "v = w" | d d' where "v = PDict d" "w = PDict d'"
    "map_of d ''method'' = map_of d' ''method''" "map_of d ''url'' = map_of d' ''url''" "map_of d ''status'' = map_of d' ''status''"
    "rel_option (alike_list (alike_named (rc_sensitive_headers cfg))) (map_of d ''headers'') (map_of d' ''headers'')"
    "rel_option (alike_list (alike_named (rc_sensitive_query_fields cfg))) (map_of d ''queryString'') (map_of d' ''queryString'')"
    "rel_option (alike_content loads (rc_sensitive_body_fields cfg)) (map_of d ''postData'') (map_of d' ''postData'')"
    "rel_option (alike_content loads (rc_sensitive_body_fields cfg)) (map_of d ''content'') (map_of d' ''content'')"
proof (cases "v = w")
  case False
  with assms show ?thesis unfolding alike_part_def by (cases v; cases w) (auto intro: that(2))
qed (rule that(1))

lemma alike_part_get:
  assumes "alike_part loads cfg v w"
  shows "get_or v ''method'' x = get_or w ''method'' x" and "get_or v ''url'' x = get_or w ''url'' x"
    and "get_or v ''status'' x = get_or w ''status'' x"
    and "rel_result (alike_list (alike_named (rc_sensitive_headers cfg))) (get_or v ''headers'' x) (get_or w ''headers'' x)"
    and "rel_result (alike_list (alike_named (rc_sensitive_query_fields cfg))) (get_or v ''queryString'' x) (get_or w ''queryString'' x)"
    and "rel_result (alike_content loads (rc_sensitive_body_fields cfg)) (get_or v ''postData'' x) (get_or w ''postData'' x)"
    and "rel_result (alike_content loads (rc_sensitive_body_fields cfg)) (get_or v ''content'' x) (get_or w ''content'' x)"
  by (rule alike_part_cases [OF assms]; simp add: rel_result_refl alike_get; simp add: get_or_def)+

lemma alike_headers:
  assumes "alike_part loads cfg v w"
  shows "header_fields sub cfg v = header_fields sub cfg w"
proof -
  have "rel_result (=) (header_fields sub cfg v) (header_fields sub cfg w)"
    unfolding header_fields_def
    by (rule rel_result_bind [OF alike_part_get(4) [OF assms]],
        rule rel_result_bind [OF alike_named_values], assumption,
        rule rel_result_bind [OF agree_text_names], assumption) (simp add: agree_redacted_headers)
  then show ?thesis by simp
qed

lemma alike_response_content:
  assumes "alike_content loads (rc_sensitive_body_fields cfg) v w"
  shows "response_content sub loads cfg b (val_or_empty v) = response_content sub loads cfg b (val_or_empty w)"
  using alike_decode_content(1) [OF assms] by (simp add: response_content_def)

lemma alike_exchange_imported:
  assumes "alike_exchange loads cfg v w"
  shows "import_exchange sub loads cfg b v = import_exchange sub loads cfg b w"
proof -
  have parts: "rel_result (alike_part loads cfg) (get_or v ''request'' (PDict [])) (get_or w ''request'' (PDict []))"
    "rel_result (alike_part loads cfg) (get_or v ''response'' (PDict [])) (get_or w ''response'' (PDict []))"
    "get_or v ''startedDateTime'' PNone = get_or w ''startedDateTime'' PNone" "get_or v ''time'' PNone = get_or w ''time'' PNone"
    using assms by (auto simp: alike_exchange_def get_or_def rel_result_refl split: pyval.splits option.splits)
  have "rel_result (=) (import_exchange sub loads cfg b v) (import_exchange sub loads cfg b w)"
    unfolding import_exchange_def parts(3,4) case_prod_unfold
    apply (rule rel_result_bind [OF parts(1)])
    apply (rule rel_result_bind [OF parts(2)])
    subgoal premises alike for req req' resp resp'
      apply (rule rel_result_bind [OF alike_part_get(5) [OF alike(1)]])
      apply (rule rel_result_bind [OF alike_named_values], assumption)
      apply (rule rel_result_bind [OF alike_part_get(6) [OF alike(1)]])
      apply (rule rel_result_bind_eq, erule alike_decode_content(1))
      apply (rule rel_result_bind [OF alike_part_get(7) [OF alike(2)]])
      apply (rule rel_result_bind_eq, erule alike_response_content)
      apply (rule rel_result_bind_eq [OF alike_part_get(1) [OF alike(1)]])
      apply (rule rel_result_bind_eq [OF alike_part_get(2) [OF alike(1)]])
      apply (rule rel_result_bind_eq [OF alike_headers [OF alike(1)]])
      apply (rule rel_result_bind [OF agree_text_names], assumption)
      apply (rule rel_result_bind_eq [OF alike_part_get(3) [OF alike(2)]])
      apply (rule rel_result_bind_eq [OF alike_headers [OF alike(2)]])
      apply (rule rel_result_bind_eq, erule alike_decode_content(2))
      apply (simp add: agree_redacted_query)
      done
    done
  then show ?thesis by simp
qed

text \<open>A HAR document with these entries.\<close>

definition recording :: "pyval list \<Rightarrow> pyval" where
  "recording xs = PDict [(''log'', PDict [(''entries'', PList xs)])]"

lemma alike_recordings:
  assumes "list_all2 (alike_exchange loads cfg) xs ys"
  shows "import_har sub loads cfg b (recording xs) = import_har sub loads cfg b (recording ys)"
proof -
  have "map (\<lambda>x. bind_result (import_exchange sub loads cfg b x) (\<lambda>e. Inr [e])) xs
      = map (\<lambda>x. bind_result (import_exchange sub loads cfg b x) (\<lambda>e. Inr [e])) ys"
    using assms by (induction rule: list_all2_induct) (simp_all add: alike_exchange_imported)
  then show ?thesis by (simp add: import_har_def recording_def get_or_def)
qed

section \<open>What stays legible\<close>

text \<open>\<open>entry["request"].get("url")\<close>\<close>

definition recorded_url :: "pyval \<Rightarrow> pyval" where
  "recorded_url exchange = (case exchange of
       PDict d \<Rightarrow> (case map_of d ''request'' of Some (PDict r) \<Rightarrow> val_get r ''url'' | _ \<Rightarrow> PNone)
     | _ \<Rightarrow> PNone)"

text \<open>Every field whose name is in the list has the replacement for its value.\<close>

definition replaced :: "redaction_config \<Rightarrow> string list \<Rightarrow> (string, pyval) dict \<Rightarrow> bool" where
  "replaced cfg names d \<longleftrightarrow> (\<forall>(k, v) \<in> set d. sensitive names k \<longrightarrow> v = PStr (rc_replacement cfg))"

lemma replaced_redacted:
  "replaced cfg (rc_sensitive_headers cfg) (redact_headers sub cfg d)"
  "replaced cfg (rc_sensitive_query_fields cfg) (redact_query cfg d)"
  by (auto simp: replaced_def redact_headers_def redact_query_def)

lemma header_fields_replaced: "header_fields sub cfg v = Inr d \<Longrightarrow> replaced cfg (rc_sensitive_headers cfg) d"
  by (auto simp: header_fields_def bind_result_def replaced_redacted split: sum.splits)

lemma bind_result_Inr: "bind_result r f = Inr b \<longleftrightarrow> (\<exists>a. r = Inr a \<and> f a = Inr b)"
  by (cases r) simp_all

lemma imported_exchange_parts:
  assumes "import_exchange sub loads cfg b v = Inr e"
  shows "ie_url e = recorded_url v" and "replaced cfg (rc_sensitive_query_fields cfg) (ie_query e)"
    and "replaced cfg (rc_sensitive_headers cfg) (ie_request_headers e)"
    and "replaced cfg (rc_sensitive_headers cfg) (ie_response_headers e)"
proof -
  obtain req resp query where req: "get_or v ''request'' (PDict []) = Inr req" "get_or req ''url'' PNone = Inr (ie_url e)"
    and fields: "header_fields sub cfg req = Inr (ie_request_headers e)" "ie_query e = redact_query cfg query"
      "header_fields sub cfg resp = Inr (ie_response_headers e)"
    using assms by (auto simp: import_exchange_def bind_result_Inr)
  show "ie_url e = recorded_url v"
    using req by (auto simp: get_or_def recorded_url_def val_get_def split: pyval.splits option.splits)
  show "replaced cfg (rc_sensitive_query_fields cfg) (ie_query e)" by (simp add: fields(2) replaced_redacted)
  show "replaced cfg (rc_sensitive_headers cfg) (ie_request_headers e)"
    "replaced cfg (rc_sensitive_headers cfg) (ie_response_headers e)"
    by (rule header_fields_replaced, rule fields)+
qed

lemma imported_recording:
  assumes "import_har sub loads cfg b (recording xs) = Inr es"
  shows "list_all2 (\<lambda>x e. import_exchange sub loads cfg b x = Inr e) xs es"
proof -
  have "seq_results (map (\<lambda>x. bind_result (import_exchange sub loads cfg b x) (\<lambda>e. Inr [e])) xs) = Inr es"
    using assms by (simp add: import_har_def recording_def get_or_def)
  then show ?thesis
  proof (induction xs arbitrary: es)
    case (Cons x xs)
    then show ?case by (auto simp: bind_result_Inr)
  qed simp
qed

end
