(* ===== verification/Pii.thy ===== *)
theory Pii
  imports PyValue
begin

text \<open>
  \<open>apiverity/security/pii.py\<close>: personal data found by shape. Python's \<open>re\<close> and \<open>ipaddress\<close>
  are the record \<open>pii_lib\<close>: the matches of a pattern in a text, the text with every match
  replaced by a function of it, and whether an address parses. Digits are ASCII digits.
\<close>

record pii_lib =
  pl_find :: "string \<Rightarrow> string \<Rightarrow> string list"
  pl_sub :: "string \<Rightarrow> (string \<Rightarrow> string) \<Rightarrow> string \<Rightarrow> string"
  pl_ipv4 :: "string \<Rightarrow> bool"
  pl_ipv6 :: "string \<Rightarrow> bool"

definition REPLACEMENT :: string where
  "REPLACEMENT = ''[PII]''"

definition word_edge :: string where
  "word_edge = [CHR 0x5C, CHR ''b'']"

definition esc :: "char \<Rightarrow> string" where
  "esc c = [CHR 0x5C, c]"

definition EMAIL :: string where
  "EMAIL = word_edge @ ''[A-Za-z0-9._%+-]+@[A-Za-z0-9.-]+'' @ esc (CHR ''.'') @ ''[A-Za-z]{2,}'' @ word_edge"

definition IPV4 :: string where
  "IPV4 = word_edge @ ''(?:'' @ esc (CHR ''d'') @ ''{1,3}'' @ esc (CHR ''.'') @ ''){3}'' @ esc (CHR ''d'') @ ''{1,3}'' @ word_edge"

definition IPV6 :: string where
  "IPV6 = word_edge @ ''(?:[0-9A-Fa-f]{0,4}:){2,7}[0-9A-Fa-f]{0,4}'' @ word_edge"

definition CARD :: string where
  "CARD = word_edge @ ''(?:'' @ esc (CHR ''d'') @ ''[ -]?){12,18}'' @ esc (CHR ''d'') @ word_edge"

definition IBAN :: string where
  "IBAN = word_edge @ ''[A-Z]{2}'' @ esc (CHR ''d'') @ ''{2}[A-Z0-9]{10,30}'' @ word_edge"

definition MAX_SCAN :: int where
  "MAX_SCAN = 64 * 1024"

text \<open>\<open>len\<close> of a text counts code points, the bytes that do not continue one.\<close>

definition text_len :: "string \<Rightarrow> int" where
  "text_len s = int (length (filter (\<lambda>c. let n = of_char c :: nat in n < 128 \<or> 192 \<le> n) s))"

section \<open>Checksums\<close>

definition digit_of :: "char \<Rightarrow> int" where
  "digit_of c = of_char c - 48"

definition luhn_value :: "bool \<Rightarrow> char \<Rightarrow> int" where
  "luhn_value doubled c = (if doubled then let v = digit_of c * 2 in if 9 < v then v - 9 else v else digit_of c)"

text \<open>\<open>for index, char in enumerate(reversed(digits))\<close>: every second digit is doubled.\<close>

fun luhn_total :: "bool \<Rightarrow> string \<Rightarrow> int" where
  "luhn_total doubled [] = 0"
| "luhn_total doubled (c # cs) = luhn_value doubled c + luhn_total (\<not> doubled) cs"

definition luhn :: "string \<Rightarrow> bool" where
  "luhn digits \<longleftrightarrow> luhn_total False (rev digits) mod 10 = 0 \<and> 13 \<le> length digits"

definition ascii_letter :: "char \<Rightarrow> bool" where
  "ascii_letter c \<longleftrightarrow> (let n = of_char c :: nat in (65 \<le> n \<and> n \<le> 90) \<or> (97 \<le> n \<and> n \<le> 122))"

definition iban_digits :: "string \<Rightarrow> string" where
  "iban_digits candidate = concat (map (\<lambda>c. if ascii_letter c then int_str (of_char c - 55) else [c])
     (upper (drop 4 candidate @ take 4 candidate)))"

definition iban_valid :: "string \<Rightarrow> bool" where
  "iban_valid candidate = (let converted = iban_digits candidate in
     converted \<noteq> [] \<and> list_all decimal_digit converted
     \<and> foldl (\<lambda>n c. 10 * n + digit_of c) 0 converted mod 97 = 1)"

section \<open>Finding and replacing\<close>

record pii_hit =
  ph_kind :: string
  ph_pointer :: string
  ph_length :: int

definition hits_of :: "string \<Rightarrow> string \<Rightarrow> (string \<Rightarrow> bool) \<Rightarrow> (string \<Rightarrow> string) \<Rightarrow> string list \<Rightarrow> pii_hit list" where
  "hits_of kind pointer real shown matches =
     map (\<lambda>m. \<lparr>ph_kind = kind, ph_pointer = pointer, ph_length = text_len (shown m)\<rparr>) (filter real matches)"

definition card_digits :: "string \<Rightarrow> string" where
  "card_digits m = filter (\<lambda>c. c \<noteq> CHR '' '' \<and> c \<noteq> CHR ''-'') m"

definition is_ipv6 :: "pii_lib \<Rightarrow> string \<Rightarrow> bool" where
  "is_ipv6 lib candidate \<longleftrightarrow> 2 \<le> length (filter (\<lambda>c. c = CHR '':'') candidate) \<and> pl_ipv6 lib candidate"

definition scan_text :: "pii_lib \<Rightarrow> string \<Rightarrow> string \<Rightarrow> pii_hit list" where
  "scan_text lib s pointer = (if s = [] \<or> MAX_SCAN < text_len s then [] else
     hits_of ''email address'' pointer (\<lambda>m. True) id (pl_find lib EMAIL s)
     @ hits_of ''IP address'' pointer (pl_ipv4 lib) id (pl_find lib IPV4 s)
     @ hits_of ''IP address'' pointer (is_ipv6 lib) id (pl_find lib IPV6 s)
     @ hits_of ''payment card number'' pointer (luhn \<circ> card_digits) card_digits (pl_find lib CARD s)
     @ hits_of ''bank account number (IBAN)'' pointer iban_valid id (pl_find lib IBAN s))"

lemma enumerated_size [termination_simp]: "(i, v) \<in> set (List.enumerate n xs) \<Longrightarrow> size (v :: pyval) < Suc (size_list size xs)"
  by (auto simp: enumerate_eq_zip dest!: set_zip_rightD size_list_estimation' [of _ xs "size v" size])

lemma field_size [termination_simp]: "(k, v) \<in> set d \<Longrightarrow> size (v :: pyval) < Suc (size_list (size_prod (\<lambda>_. 0) size) d)"
  by (induction d) auto

fun scan_value :: "pii_lib \<Rightarrow> pyval \<Rightarrow> string \<Rightarrow> nat \<Rightarrow> pii_hit list" where
  "scan_value lib (PStr s) pointer depth = (if 24 < depth then [] else scan_text lib s pointer)"
| "scan_value lib (PDict d) pointer depth = (if 24 < depth then [] else concat (map (\<lambda>(k, child).
     scan_value lib child (if pointer = [] then k else pointer @ ''.'' @ k) (Suc depth)) d))"
| "scan_value lib (PList xs) pointer depth = (if 24 < depth then [] else concat (map (\<lambda>(i, child).
     scan_value lib child (pointer @ ''['' @ int_str (int i) @ '']'') (Suc depth)) (List.enumerate 0 xs)))"
| "scan_value lib v pointer depth = []"

text \<open>\<open>REPLACEMENT\<close> where the match is real, else the match itself.\<close>

definition replace_real :: "(string \<Rightarrow> bool) \<Rightarrow> string \<Rightarrow> string" where
  "replace_real real m = (if real m then REPLACEMENT else m)"

definition pii_redact_text :: "pii_lib \<Rightarrow> string \<Rightarrow> string" where
  "pii_redact_text lib s = (if s = [] \<or> MAX_SCAN < text_len s then s else
     pl_sub lib IBAN (replace_real iban_valid)
       (pl_sub lib CARD (replace_real (luhn \<circ> card_digits))
         (pl_sub lib IPV6 (replace_real (is_ipv6 lib))
           (pl_sub lib IPV4 (replace_real (pl_ipv4 lib))
             (pl_sub lib EMAIL (\<lambda>m. REPLACEMENT) s)))))"

fun pii_redact :: "pii_lib \<Rightarrow> nat \<Rightarrow> pyval \<Rightarrow> pyval" where
  "pii_redact lib depth (PStr s) = (if 24 < depth then PStr s else PStr (pii_redact_text lib s))"
| "pii_redact lib depth (PDict d) = (if 24 < depth then PDict d else
     PDict (map (\<lambda>(k, v). (k, pii_redact lib (Suc depth) v)) d))"
| "pii_redact lib depth (PList xs) = (if 24 < depth then PList xs else PList (map (pii_redact lib (Suc depth)) xs))"
| "pii_redact lib depth v = v"

section \<open>A mistyped card number is not a card number\<close>

lemma luhn_total_append:
  "luhn_total b (xs @ ys) = luhn_total b xs + luhn_total (if even (length xs) then b else \<not> b) ys"
  by (induction xs arbitrary: b) auto

lemma digit_of_range: "decimal_digit c \<Longrightarrow> 0 \<le> digit_of c \<and> digit_of c \<le> 9"
  by (simp add: decimal_digit_def digit_of_def Let_def)

lemma digit_of_inject: "digit_of c = digit_of d \<Longrightarrow> c = d"
  by (simp add: digit_of_def)

lemma digit_of_member: "decimal_digit c \<Longrightarrow> digit_of c \<in> {0, 1, 2, 3, 4, 5, 6, 7, 8, 9}"
  using digit_of_range [of c] by (simp, presburger)

lemma doubled_digits:
  assumes "i \<in> {0, 1, 2, 3, 4, 5, 6, 7, 8, 9 :: int}" and "j \<in> {0, 1, 2, 3, 4, 5, 6, 7, 8, 9}"
    and "(if 9 < i * 2 then i * 2 - 9 else i * 2) mod 10 = (if 9 < j * 2 then j * 2 - 9 else j * 2) mod 10"
  shows "i = j"
  using assms by (elim insertE emptyE) simp_all

lemma luhn_value_inject:
  assumes "decimal_digit c" and "decimal_digit d" and "luhn_value b c mod 10 = luhn_value b d mod 10"
  shows "c = d"
proof (rule digit_of_inject, cases b)
  case True
  then show "digit_of c = digit_of d"
    using doubled_digits [OF digit_of_member digit_of_member, OF assms(1,2)] assms(3) by (simp add: luhn_value_def Let_def)
next
  case False
  then show "digit_of c = digit_of d"
    using digit_of_range [OF assms(1)] digit_of_range [OF assms(2)] assms(3) by (simp add: luhn_value_def)
qed

lemma mod_add_cancel: "(a + r) mod m = (b + r) mod m \<Longrightarrow> a mod m = b mod (m :: int)"
  by (simp add: mod_eq_dvd_iff)

lemma luhn_one_digit:
  assumes "luhn (xs @ c # ys)" and "decimal_digit c" and "decimal_digit d" and "c \<noteq> d"
  shows "\<not> luhn (xs @ d # ys)"
proof
  assume other: "luhn (xs @ d # ys)"
  let ?b = "if even (length ys) then False else True"
  have total: "luhn_total False (rev (xs @ e # ys))
      = luhn_value ?b e + (luhn_total False (rev ys) + luhn_total (\<not> ?b) (rev xs))" for e
    by (simp add: luhn_total_append)
  have "(luhn_value ?b c + (luhn_total False (rev ys) + luhn_total (\<not> ?b) (rev xs))) mod 10
      = (luhn_value ?b d + (luhn_total False (rev ys) + luhn_total (\<not> ?b) (rev xs))) mod 10"
    using assms(1) other unfolding luhn_def total by simp
  then show False using luhn_value_inject [OF assms(2,3) mod_add_cancel] assms(4) by blast
qed

end
