(* ===== verification/Capture.thy ===== *)
theory Capture
  imports RedactionFacts Pii
begin

text \<open>
  \<open>apiverity/traffic/capture.py\<close>: what the recording proxy keeps of an exchange. The state is the
  record \<open>capture\<close>; a body is its bytes. \<open>json\<close>, \<open>urllib.parse\<close> and the decoding of bytes are
  the record \<open>capture_lib\<close>; the socket server around it is outside.
\<close>

record url_parts =
  up_scheme :: string
  up_netloc :: string
  up_path :: string
  up_query :: string
  up_fragment :: string

record capture_lib =
  cl_sub :: re_sub
  cl_loads :: json_loads
  cl_dumps :: "pyval \<Rightarrow> string"
  cl_decode :: "string \<Rightarrow> string"
  cl_split :: "string \<Rightarrow> url_parts"
  cl_unsplit :: "url_parts \<Rightarrow> string"
  cl_urlencode :: "(string, string) dict \<Rightarrow> string"
  cl_pii :: pii_lib

definition TEXTUAL :: "string list" where
  "TEXTUAL = [''application/json'', ''application/xml'', ''text/'', ''+json'', ''+xml'', ''application/x-www-form'']"

definition HOP_BY_HOP :: "string list" where
  "HOP_BY_HOP = [''connection'', ''keep-alive'', ''proxy-authenticate'', ''proxy-authorization'', ''te'', ''trailers'',
     ''transfer-encoding'', ''upgrade'', ''content-length'', ''content-encoding'']"

text \<open>\<open>s.rstrip("/")\<close>\<close>

definition rstrip_slash :: "string \<Rightarrow> string" where
  "rstrip_slash s = rev (dropWhile (\<lambda>c. c = CHR ''/'') (rev s))"

definition upstream_url :: "capture_lib \<Rightarrow> string \<Rightarrow> string \<Rightarrow> string option" where
  "upstream_url lib raw target =
     (let parsed = cl_split lib raw; wanted = cl_split lib target;
          requested = (if up_path parsed = [] then ''/'' else up_path parsed);
          rooted = (if starts_with requested ''/'' then requested else ''/'' @ requested)
      in if (up_scheme parsed \<noteq> [] \<or> up_netloc parsed \<noteq> [])
            \<and> (lower (up_scheme parsed), lower (up_netloc parsed)) \<noteq> (lower (up_scheme wanted), lower (up_netloc wanted))
         then None
         else Some (cl_unsplit lib \<lparr>up_scheme = up_scheme wanted, up_netloc = up_netloc wanted,
           up_path = rstrip_slash (up_path wanted) @ rooted, up_query = up_query parsed, up_fragment = []\<rparr>))"

definition textual :: "string \<Rightarrow> bool" where
  "textual content_type \<longleftrightarrow> list_ex (\<lambda>marker. contains marker (lower content_type)) TEXTUAL"

fun scrub :: "re_sub \<Rightarrow> redaction_config \<Rightarrow> nat \<Rightarrow> pyval \<Rightarrow> pyval" where
  "scrub sub cfg depth (PStr s) = (if 24 < depth then PStr s else PStr (sub_patterns sub cfg s))"
| "scrub sub cfg depth (PDict d) = (if 24 < depth then PDict d else
     PDict (map (\<lambda>(k, v). (k, scrub sub cfg (Suc depth) v)) d))"
| "scrub sub cfg depth (PList xs) = (if 24 < depth then PList xs else PList (map (scrub sub cfg (Suc depth)) xs))"
| "scrub sub cfg depth v = v"

section \<open>The state of a recording\<close>

record skips =
  sk_oversized_request :: nat
  sk_oversized_response :: nat
  sk_binary_request :: nat
  sk_binary_response :: nat
  sk_upstream_failed :: nat
  sk_off_target :: nat
  sk_after_limit :: nat

record capture =
  cp_target :: string
  cp_redaction :: redaction_config
  cp_max_body_bytes :: nat
  cp_keep_response_bodies :: bool
  cp_redact_pii :: bool
  cp_max_entries :: "nat option"
  cp_entries :: "pyval list"
  cp_skips :: skips

definition count_oversized :: "bool \<Rightarrow> skips \<Rightarrow> skips" where
  "count_oversized request s = (if request then s\<lparr>sk_oversized_request := sk_oversized_request s + 1\<rparr>
     else s\<lparr>sk_oversized_response := sk_oversized_response s + 1\<rparr>)"

definition count_binary :: "bool \<Rightarrow> skips \<Rightarrow> skips" where
  "count_binary request s = (if request then s\<lparr>sk_binary_request := sk_binary_request s + 1\<rparr>
     else s\<lparr>sk_binary_response := sk_binary_response s + 1\<rparr>)"

text \<open>The redacted value of a JSON body: field names, then patterns, then personal data.\<close>

definition cleaned :: "capture_lib \<Rightarrow> capture \<Rightarrow> pyval \<Rightarrow> pyval" where
  "cleaned lib c parsed =
     (let redacted = scrub (cl_sub lib) (cp_redaction c) 0 (redact_json (cl_sub lib) (cp_redaction c) True parsed)
      in if cp_redact_pii c then pii_redact (cl_pii lib) 0 redacted else redacted)"

text \<open>\<open>_body\<close>: the text to record or the reason there is none, and the counters.\<close>

definition body_text :: "capture_lib \<Rightarrow> capture \<Rightarrow> string \<Rightarrow> string \<Rightarrow> bool
    \<Rightarrow> (string option \<times> string option) \<times> skips" where
  "body_text lib c raw content_type request =
     (if raw = [] then ((None, None), cp_skips c)
      else if cp_max_body_bytes c < length raw then
        ((None, Some (''body of '' @ nat_str (length raw) @ '' bytes exceeded the '' @ nat_str (cp_max_body_bytes c) @ ''-byte cap'')),
         count_oversized request (cp_skips c))
      else if \<not> textual content_type then
        ((None, Some (''content type '' @ (if content_type = [] then ''(none)'' else content_type) @ '' is not recorded as text'')),
         count_binary request (cp_skips c))
      else (case cl_loads lib (cl_decode lib raw) of
          None \<Rightarrow> ((Some (sub_patterns (cl_sub lib) (cp_redaction c) (cl_decode lib raw)), None), cp_skips c)
        | Some parsed \<Rightarrow> ((Some (cl_dumps lib (cleaned lib c parsed)), None), cp_skips c)))"

section \<open>Recording an exchange\<close>

record recorded_exchange =
  rx_method :: string
  rx_url :: string
  rx_request_headers :: "(string, string) dict"
  rx_request_body :: string
  rx_status :: int
  rx_response_headers :: "(string, string) dict"
  rx_response_body :: string
  rx_started :: string
  rx_duration_ms :: int

text \<open>\<open>pair.partition("=")\<close>, name and value.\<close>

definition partition_eq :: "string \<Rightarrow> string \<times> string" where
  "partition_eq pair = (takeWhile (\<lambda>c. c \<noteq> CHR ''='') pair, drop 1 (dropWhile (\<lambda>c. c \<noteq> CHR ''='') pair))"

definition query_fields :: "string \<Rightarrow> (string, pyval) dict" where
  "query_fields query = dict_of (map (\<lambda>pair. (fst (partition_eq pair), PStr (snd (partition_eq pair))))
     (filter (\<lambda>pair. pair \<noteq> []) (split_char (CHR ''&'') query)))"

definition redacted_url :: "capture_lib \<Rightarrow> (string, pyval) dict \<Rightarrow> url_parts \<Rightarrow> string" where
  "redacted_url lib query parts = cl_unsplit lib (parts\<lparr>
     up_query := cl_urlencode lib (map (\<lambda>(k, v). (k, py_str v)) query), up_fragment := []\<rparr>)"

definition content_type_of :: "(string, string) dict \<Rightarrow> string" where
  "content_type_of headers = dict_get_or headers ''content-type'' (dict_get_or headers ''Content-Type'' [])"

definition header_list :: "capture_lib \<Rightarrow> capture \<Rightarrow> (string, string) dict \<Rightarrow> pyval" where
  "header_list lib c headers = PList (map (\<lambda>(k, v). PDict [(''name'', PStr k), (''value'', v)])
     (redact_headers (cl_sub lib) (cp_redaction c) (map (\<lambda>(k, v). (k, PStr v)) headers)))"

definition text_entry :: "string \<Rightarrow> string option \<Rightarrow> (string \<times> pyval) list" where
  "text_entry k v = (case v of None \<Rightarrow> [] | Some s \<Rightarrow> [(k, PStr s)])"

definition post_data :: "string \<Rightarrow> string option \<Rightarrow> string option \<Rightarrow> (string \<times> pyval) list" where
  "post_data mime content reason = (case (content, reason) of
       (Some s, _) \<Rightarrow> [(''postData'', PDict [(''mimeType'', PStr mime), (''text'', PStr s)])]
     | (None, Some r) \<Rightarrow> [(''postData'', PDict [(''mimeType'', PStr mime), (''comment'', PStr r)])]
     | (None, None) \<Rightarrow> [])"

definition recorded_entry :: "capture_lib \<Rightarrow> capture \<Rightarrow> recorded_exchange
    \<Rightarrow> string option \<times> string option \<Rightarrow> string option \<times> string option \<Rightarrow> pyval" where
  "recorded_entry lib c x req resp =
     (let parts = cl_split lib (rx_url x);
          query = redact_query (cp_redaction c) (query_fields (up_query parts));
          request_type = content_type_of (rx_request_headers x);
          response_type = content_type_of (rx_response_headers x)
      in PDict [
        (''startedDateTime'', PStr (rx_started x)),
        (''time'', PInt (rx_duration_ms x)),
        (''request'', PDict ([
           (''method'', PStr (rx_method x)),
           (''url'', PStr (redacted_url lib query parts)),
           (''httpVersion'', PStr ''HTTP/1.1''),
           (''headers'', header_list lib c (rx_request_headers x)),
           (''queryString'', PList (map (\<lambda>(k, v). PDict [(''name'', PStr k), (''value'', PStr (py_str v))]) query)),
           (''cookies'', PList []),
           (''headersSize'', PInt (-1)),
           (''bodySize'', PInt (int (length (rx_request_body x))))] @ post_data request_type (fst req) (snd req))),
        (''response'', PDict [
           (''status'', PInt (rx_status x)),
           (''statusText'', PStr []),
           (''httpVersion'', PStr ''HTTP/1.1''),
           (''headers'', header_list lib c (rx_response_headers x)),
           (''cookies'', PList []),
           (''content'', PDict ([
              (''size'', PInt (int (length (rx_response_body x)))),
              (''mimeType'', PStr response_type)] @ text_entry ''text'' (fst resp) @ text_entry ''comment'' (snd resp))),
           (''headersSize'', PInt (-1)),
           (''bodySize'', PInt (int (length (rx_response_body x))))]),
        (''cache'', PDict []),
        (''timings'', PDict [(''send'', PInt 0), (''wait'', PInt (rx_duration_ms x)), (''receive'', PInt 0)])])"

definition record_exchange :: "capture_lib \<Rightarrow> recorded_exchange \<Rightarrow> capture \<Rightarrow> capture" where
  "record_exchange lib x c =
     (if (case cp_max_entries c of None \<Rightarrow> False | Some m \<Rightarrow> m \<le> length (cp_entries c)) then
        c\<lparr>cp_skips := (cp_skips c)\<lparr>sk_after_limit := sk_after_limit (cp_skips c) + 1\<rparr>\<rparr>
      else
        let (req, s) = body_text lib c (rx_request_body x) (content_type_of (rx_request_headers x)) True;
            c1 = c\<lparr>cp_skips := s\<rparr>;
            (resp, t) = (if cp_keep_response_bodies c then
                body_text lib c1 (rx_response_body x) (content_type_of (rx_response_headers x)) False
              else ((None, Some ''response bodies were not kept by this run''), s))
        in c\<lparr>cp_skips := t, cp_entries := cp_entries c @ [recorded_entry lib c x req resp]\<rparr>)"

section \<open>The proxy and the file\<close>

record proxy_request =
  pq_method :: string
  pq_path :: string
  pq_headers :: "(string, string) dict"
  pq_body :: string

text \<open>What the target answered, with the URL that was asked, the time and the duration.\<close>

record upstream_response =
  us_url :: string
  us_status :: int
  us_headers :: "(string, string) dict"
  us_body :: string
  us_started :: string
  us_duration_ms :: int

datatype proxied = Refused int | Relayed int "(string, string) dict" string

definition forwarded_headers :: "(string, string) dict \<Rightarrow> (string, string) dict" where
  "forwarded_headers headers = filter (\<lambda>(k, v). lower k \<notin> set HOP_BY_HOP \<and> k \<noteq> ''Host'' \<and> k \<noteq> ''host'') headers"

definition relayed_headers :: "upstream_response \<Rightarrow> (string, string) dict" where
  "relayed_headers r = filter (\<lambda>(k, v). lower k \<notin> set HOP_BY_HOP) (us_headers r)
     @ [(''content-length'', nat_str (length (us_body r)))]"

type_synonym upstream = "string \<Rightarrow> string \<Rightarrow> (string, string) dict \<Rightarrow> string \<Rightarrow> upstream_response option"

definition proxy :: "capture_lib \<Rightarrow> upstream \<Rightarrow> proxy_request \<Rightarrow> capture \<Rightarrow> proxied \<times> capture" where
  "proxy lib upstream q c = (case upstream_url lib (pq_path q) (cp_target c) of
       None \<Rightarrow> (Refused 403, c\<lparr>cp_skips := (cp_skips c)\<lparr>sk_off_target := sk_off_target (cp_skips c) + 1\<rparr>\<rparr>)
     | Some url \<Rightarrow>
         (let headers = forwarded_headers (pq_headers q) in
          case upstream (pq_method q) url headers (pq_body q) of
            None \<Rightarrow> (Refused 502, c\<lparr>cp_skips := (cp_skips c)\<lparr>sk_upstream_failed := sk_upstream_failed (cp_skips c) + 1\<rparr>\<rparr>)
          | Some r \<Rightarrow> (Relayed (us_status r) (relayed_headers r) (us_body r),
              record_exchange lib \<lparr>rx_method = pq_method q, rx_url = us_url r, rx_request_headers = headers,
                rx_request_body = pq_body q, rx_status = us_status r, rx_response_headers = us_headers r,
                rx_response_body = us_body r, rx_started = us_started r, rx_duration_ms = us_duration_ms r\<rparr> c)))"

definition skipped :: "skips \<Rightarrow> (string \<times> nat) list" where
  "skipped s = filter (\<lambda>(k, n). n \<noteq> 0) [(''oversized request'', sk_oversized_request s),
     (''oversized response'', sk_oversized_response s), (''binary request'', sk_binary_request s),
     (''binary response'', sk_binary_response s), (''upstream failed'', sk_upstream_failed s),
     (''off target'', sk_off_target s), (''after limit'', sk_after_limit s)]"

definition skip_summary :: "skips \<Rightarrow> string" where
  "skip_summary s = (if skipped s = [] then ''nothing was skipped''
     else join '', '' (map (\<lambda>(k, n). k @ '': '' @ nat_str n) (skipped s)))"

definition har :: "string \<Rightarrow> capture \<Rightarrow> pyval" where
  "har tool_version c = PDict [(''log'', PDict [
     (''version'', PStr ''1.2''),
     (''creator'', PDict [(''name'', PStr ''apiverity capture''), (''version'', PStr tool_version)]),
     (''comment'', PStr (''recorded against '' @ cp_target c @ ''; redacted before write; '' @ skip_summary (cp_skips c))),
     (''entries'', PList (cp_entries c))])]"

definition bind_allowed :: "string \<Rightarrow> bool \<Rightarrow> bool" where
  "bind_allowed host acknowledged \<longleftrightarrow> host \<in> {''127.0.0.1'', ''localhost'', ''::1''} \<or> acknowledged"

end
