(* ===== verification/CaptureFacts.thy ===== *)
theory CaptureFacts
  imports Capture
begin

text \<open>
  The recording proxy: how many exchanges it keeps, and that exchanges which differ only in
  secrets leave the same recording behind.
\<close>

section \<open>The limit\<close>

lemma record_exchange_frame [simp]:
  "cp_max_entries (record_exchange lib x c) = cp_max_entries c"
  "cp_redaction (record_exchange lib x c) = cp_redaction c"
  "cp_max_body_bytes (record_exchange lib x c) = cp_max_body_bytes c"
  by (simp_all add: record_exchange_def Let_def split_beta)

lemma body_text_after_limit: "sk_after_limit (snd (body_text lib c raw mime request)) = sk_after_limit (cp_skips c)"
  by (simp add: body_text_def count_oversized_def count_binary_def split: option.splits)

lemma record_exchange_count:
  assumes "cp_max_entries c = Some m"
  shows "length (cp_entries (record_exchange lib x c)) = (if m \<le> length (cp_entries c) then length (cp_entries c) else Suc (length (cp_entries c)))"
    and "sk_after_limit (cp_skips (record_exchange lib x c))
      = (if m \<le> length (cp_entries c) then Suc (sk_after_limit (cp_skips c)) else sk_after_limit (cp_skips c))"
  using assms by (auto simp: record_exchange_def Let_def split_beta body_text_after_limit)

lemma recorded_counts:
  assumes "cp_max_entries c = Some m" and "length (cp_entries c) \<le> m"
  shows "length (cp_entries (fold (record_exchange lib) xs c)) = min m (length (cp_entries c) + length xs)
    \<and> length (cp_entries (fold (record_exchange lib) xs c)) + sk_after_limit (cp_skips (fold (record_exchange lib) xs c))
      = length (cp_entries c) + sk_after_limit (cp_skips c) + length xs"
  using assms
proof (induction xs arbitrary: c)
  case (Cons x xs)
  have "length (cp_entries (record_exchange lib x c)) \<le> m" using Cons.prems by (simp add: record_exchange_count)
  from Cons.IH [OF _ this] Cons.prems show ?case by (auto simp: record_exchange_count)
qed simp

lemma recorded_entries_kept: "prefix (cp_entries c) (cp_entries (record_exchange lib x c))"
  by (simp add: record_exchange_def Let_def split_beta)

section \<open>Exchanges that differ in secrets only\<close>

definition alike_headers :: "string list \<Rightarrow> (string, string) dict \<Rightarrow> (string, string) dict \<Rightarrow> bool" where
  "alike_headers names d d' \<longleftrightarrow> list_all2 (\<lambda>(k, v) (k', v'). k = k' \<and> (v = v' \<or> sensitive names k)) d d'"

definition alike_pair :: "string list \<Rightarrow> string \<Rightarrow> string \<Rightarrow> bool" where
  "alike_pair names p q \<longleftrightarrow> fst (partition_eq p) = fst (partition_eq q)
     \<and> (p = q \<or> p \<noteq> [] \<and> q \<noteq> [] \<and> sensitive names (fst (partition_eq p)))"

definition alike_url :: "capture_lib \<Rightarrow> redaction_config \<Rightarrow> string \<Rightarrow> string \<Rightarrow> bool" where
  "alike_url lib cfg u w \<longleftrightarrow> (let a = cl_split lib u; b = cl_split lib w in
     up_scheme a = up_scheme b \<and> up_netloc a = up_netloc b \<and> up_path a = up_path b
     \<and> list_all2 (alike_pair (rc_sensitive_query_fields cfg)) (split_char (CHR ''&'') (up_query a)) (split_char (CHR ''&'') (up_query b)))"

text \<open>A body's length is recorded, so it is public; a text that does not parse is kept.\<close>

definition alike_payload :: "capture_lib \<Rightarrow> redaction_config \<Rightarrow> nat \<Rightarrow> string \<Rightarrow> string \<Rightarrow> string \<Rightarrow> bool" where
  "alike_payload lib cfg cap mime s t \<longleftrightarrow> s = t \<or> (length s = length t \<and>
     (cap < length s \<or> \<not> textual mime
      \<or> (case (cl_loads lib (cl_decode lib s), cl_loads lib (cl_decode lib t)) of
           (Some v, Some w) \<Rightarrow> alike_values (rc_sensitive_body_fields cfg) v w
         | _ \<Rightarrow> False)))"

definition alike_recorded :: "capture_lib \<Rightarrow> redaction_config \<Rightarrow> nat \<Rightarrow> recorded_exchange \<Rightarrow> recorded_exchange \<Rightarrow> bool" where
  "alike_recorded lib cfg cap x y \<longleftrightarrow>
     rx_method x = rx_method y \<and> rx_status x = rx_status y \<and> rx_started x = rx_started y \<and> rx_duration_ms x = rx_duration_ms y
     \<and> alike_url lib cfg (rx_url x) (rx_url y)
     \<and> alike_headers (rc_sensitive_headers cfg) (rx_request_headers x) (rx_request_headers y)
     \<and> alike_headers (rc_sensitive_headers cfg) (rx_response_headers x) (rx_response_headers y)
     \<and> content_type_of (rx_request_headers x) = content_type_of (rx_request_headers y)
     \<and> content_type_of (rx_response_headers x) = content_type_of (rx_response_headers y)
     \<and> alike_payload lib cfg cap (content_type_of (rx_request_headers x)) (rx_request_body x) (rx_request_body y)
     \<and> alike_payload lib cfg cap (content_type_of (rx_response_headers x)) (rx_response_body x) (rx_response_body y)"

lemma alike_header_list:
  assumes "alike_headers (rc_sensitive_headers (cp_redaction c)) d d'"
  shows "header_list lib c d = header_list lib c d'"
proof -
  have "redact_headers (cl_sub lib) (cp_redaction c) (map (\<lambda>(k, v). (k, PStr v)) d)
      = redact_headers (cl_sub lib) (cp_redaction c) (map (\<lambda>(k, v). (k, PStr v)) d')"
    by (rule agree_redacted_headers)
      (use assms in \<open>auto simp: alike_headers_def agree_field_def list.rel_map elim!: list_all2_mono\<close>)
  then show ?thesis by (simp add: header_list_def)
qed

lemma alike_query_fields:
  assumes "list_all2 (alike_pair (rc_sensitive_query_fields cfg)) ps qs"
  shows "list_all2 (agree_field (rc_sensitive_query_fields cfg))
    (map (\<lambda>pair. (fst (partition_eq pair), PStr (snd (partition_eq pair)))) (filter (\<lambda>pair. pair \<noteq> []) ps))
    (map (\<lambda>pair. (fst (partition_eq pair), PStr (snd (partition_eq pair)))) (filter (\<lambda>pair. pair \<noteq> []) qs))"
  using assms by (induction rule: list_all2_induct) (auto simp: alike_pair_def agree_field_def)

lemma alike_query:
  assumes "list_all2 (alike_pair (rc_sensitive_query_fields cfg)) (split_char (CHR ''&'') a) (split_char (CHR ''&'') b)"
  shows "redact_query cfg (query_fields a) = redact_query cfg (query_fields b)"
  unfolding query_fields_def
  by (intro agree_redacted_query agree_dict_of alike_query_fields assms)

lemma alike_body_text:
  assumes "alike_payload lib (cp_redaction c) (cp_max_body_bytes c) mime s t"
  shows "body_text lib c s mime request = body_text lib c t mime request"
proof (cases "s = t")
  case False
  with assms have len: "length s = length t" by (simp add: alike_payload_def)
  then have "s = [] \<longleftrightarrow> t = []" by auto
  with False assms len show ?thesis
    using alike_redacted(1) [of "cp_redaction c" True]
    by (auto simp: alike_payload_def body_text_def cleaned_def json_fields_def split: option.splits)
qed simp

lemma alike_record_exchange:
  assumes "alike_recorded lib (cp_redaction c) (cp_max_body_bytes c) x y"
  shows "record_exchange lib x c = record_exchange lib y c"
proof -
  note alike = assms [unfolded alike_recorded_def alike_url_def Let_def]
  let ?a = "cl_split lib (rx_url x)" and ?b = "cl_split lib (rx_url y)"
  let ?query = "redact_query (cp_redaction c) (query_fields (up_query ?a))"
  have query: "redact_query (cp_redaction c) (query_fields (up_query ?b)) = ?query"
    using alike by (intro alike_query [symmetric]) blast
  have parts: "?a\<lparr>up_query := q, up_fragment := []\<rparr> = ?b\<lparr>up_query := q, up_fragment := []\<rparr>" for q
    using alike by simp
  have "redacted_url lib ?query ?a = redacted_url lib ?query ?b"
    by (simp only: redacted_url_def parts)
  then have entry: "recorded_entry lib c x req resp = recorded_entry lib c y req resp" for req resp
  proof -
    have "length (rx_request_body x) = length (rx_request_body y)" "length (rx_response_body x) = length (rx_response_body y)"
      using alike by (auto simp: alike_payload_def)
    then show ?thesis
      using alike \<open>redacted_url lib ?query ?a = redacted_url lib ?query ?b\<close>
      by (simp add: recorded_entry_def Let_def query alike_header_list)
  qed
  have bodies: "body_text lib c (rx_request_body x) (content_type_of (rx_request_headers x)) True
      = body_text lib c (rx_request_body y) (content_type_of (rx_request_headers y)) True"
    "body_text lib (c\<lparr>cp_skips := s\<rparr>) (rx_response_body x) (content_type_of (rx_response_headers x)) False
      = body_text lib (c\<lparr>cp_skips := s\<rparr>) (rx_response_body y) (content_type_of (rx_response_headers y)) False" for s
    using alike alike_body_text [of lib c] alike_body_text [of lib "c\<lparr>cp_skips := s\<rparr>"] by auto
  show ?thesis unfolding record_exchange_def by (simp only: Let_def bodies entry)
qed

lemma alike_recordings_kept:
  assumes "list_all2 (alike_recorded lib (cp_redaction c) (cp_max_body_bytes c)) xs ys"
  shows "fold (record_exchange lib) xs c = fold (record_exchange lib) ys c"
proof -
  have "fold (record_exchange lib) xs c = fold (record_exchange lib) ys c"
    if "list_all2 (alike_recorded lib cfg cap) xs ys" "cp_redaction c = cfg" "cp_max_body_bytes c = cap" for cfg cap c
    using that by (induction arbitrary: c rule: list_all2_induct) (simp_all add: alike_record_exchange)
  with assms show ?thesis by blast
qed

section \<open>The proxy\<close>

text \<open>Every upstream request names the scheme and the authority of the target.\<close>

definition asked_target :: "capture_lib \<Rightarrow> string \<Rightarrow> string \<Rightarrow> bool" where
  "asked_target lib target url \<longleftrightarrow> (\<exists>path query. url = cl_unsplit lib
     \<lparr>up_scheme = up_scheme (cl_split lib target), up_netloc = up_netloc (cl_split lib target),
       up_path = path, up_query = query, up_fragment = []\<rparr> \<and> CHR ''/'' \<in> set path)"

lemma upstream_url_target: "upstream_url lib raw target = Some url \<Longrightarrow> asked_target lib target url"
  by (auto simp: upstream_url_def asked_target_def Let_def starts_with_def split: if_splits elim!: prefixE)

text \<open>What the proxy answers does not depend on the recording, and what the upstream was asked
  does not leave the target: an upstream that differs elsewhere makes no difference.\<close>

lemma proxy_target_only:
  assumes "\<And>m url hs b. asked_target lib (cp_target c) url \<Longrightarrow> up m url hs b = up' m url hs b"
  shows "proxy lib up q c = proxy lib up' q c"
  using assms by (auto simp: proxy_def Let_def split: option.split dest: upstream_url_target)

end
