(* ===== verification/Replay.thy ===== *)
theory Replay
  imports Capture Sha256 ProjectConfig DiffServices
begin

text \<open>
  \<open>apiverity/traffic/safety.py\<close>, \<open>traffic/replay.py\<close> and the command \<open>replay\<close>
  (\<open>_replay_gate\<close> and \<open>cmd_replay\<close> of cli/commands/runtime.py): which recorded requests are
  sent to a target, and under which conditions. \<open>urllib.parse\<close> is the record \<open>url_lib\<close>; the
  client is the parameter \<open>send\<close>, whose first argument is the number of requests sent before,
  and \<open>None\<close> stands for \<open>httpx.HTTPError\<close>.
\<close>

record url_lib =
  ul_parse :: "string \<Rightarrow> url_parts"
  ul_hostname :: "string \<Rightarrow> string option"
  ul_join :: "string \<Rightarrow> string \<Rightarrow> string"

record replay_entry =
  re_method :: string
  re_path :: string
  re_query :: "(string, pyval) dict"
  re_headers :: "(string, string) dict"
  re_body :: pyval
  re_production :: bool

definition DESTRUCTIVE_METHODS :: "string list" where
  "DESTRUCTIVE_METHODS = [''POST'', ''PUT'', ''PATCH'', ''DELETE'']"

definition SAFE_METHODS :: "string list" where
  "SAFE_METHODS = [''GET'', ''HEAD'', ''OPTIONS'']"

section \<open>Classification of the target\<close>

record target_classification =
  tc_base_url :: string
  tc_classification :: string
  tc_allowed_modes :: "string list"

definition contains_any :: "string list \<Rightarrow> string \<Rightarrow> bool" where
  "contains_any tags s \<longleftrightarrow> list_ex (\<lambda>tag. contains tag s) tags"

definition classify_target :: "url_lib \<Rightarrow> string \<Rightarrow> target_classification" where
  "classify_target lib base_url =
     (let host = lower (str_or (ul_hostname lib base_url) []);
          open_modes = [''read-only'', ''replay'', ''load''];
          classified = (\<lambda>c modes. \<lparr>tc_base_url = base_url, tc_classification = c, tc_allowed_modes = modes\<rparr>)
      in if host \<in> {''localhost'', ''127.0.0.1'', ''::1''} \<or> ends_with host ''.local'' \<or> starts_with host ''192.168.''
            \<or> starts_with host ''10.'' then classified ''local'' open_modes
         else if contains_any [''staging'', ''stage'', ''preprod''] host then classified ''staging'' open_modes
         else if contains_any [''dev.'', ''-dev'', ''.dev''] host then classified ''dev'' open_modes
         else if contains_any [''prod'', ''api.'', ''.com'', ''.io'', ''.net'', ''.org''] host then classified ''production'' [''read-only'']
         else classified ''unknown'' [''read-only''])"

definition writes_in_production :: "url_lib \<Rightarrow> string \<Rightarrow> bool" where
  "writes_in_production lib base_url \<longleftrightarrow> tc_classification (classify_target lib base_url) \<in> {''production'', ''unknown''}"

section \<open>The plan and the gate\<close>

record planned_request =
  pr_method :: string
  pr_url :: string

definition lstrip_slash :: "string \<Rightarrow> string" where
  "lstrip_slash s = dropWhile (\<lambda>c. c = CHR ''/'') s"

definition build_dry_run_plan :: "url_lib \<Rightarrow> replay_entry list \<Rightarrow> string \<Rightarrow> planned_request list" where
  "build_dry_run_plan lib entries base_url = map (\<lambda>e. \<lparr>pr_method = upper (re_method e),
     pr_url = ul_join lib (rstrip_slash base_url @ ''/'') (lstrip_slash (re_path e))\<rparr>) entries"

definition confirmation_token :: "string \<Rightarrow> string list \<Rightarrow> nat \<Rightarrow> string" where
  "confirmation_token base_url methods entries_count = take 12 (sha256_hexdigest
     (join ''|'' (sorted_set methods) @ ''|'' @ base_url @ ''|'' @ nat_str entries_count))"

definition used_methods :: "replay_entry list \<Rightarrow> string list" where
  "used_methods entries = sorted_set (map (\<lambda>e. upper (re_method e)) entries)"

text \<open>\<open>used_methods & DESTRUCTIVE_METHODS\<close>\<close>

definition destructive_used :: "replay_entry list \<Rightarrow> string list" where
  "destructive_used entries = filter (\<lambda>m. m \<in> set DESTRUCTIVE_METHODS) (used_methods entries)"

definition origin_of :: "url_lib \<Rightarrow> string \<Rightarrow> string" where
  "origin_of lib base_url = (let parsed = ul_parse lib base_url in up_scheme parsed @ ''://'' @ up_netloc parsed)"

record safety_decision =
  sd_approved :: bool
  sd_reason :: string

definition refused :: "string \<Rightarrow> safety_decision result" where
  "refused reason = Inr \<lparr>sd_approved = False, sd_reason = reason\<rparr>"

text \<open>\<open>hmac.compare_digest\<close> on two texts: both must be ASCII.\<close>

definition compare_digest :: "string \<Rightarrow> string \<Rightarrow> bool result" where
  "compare_digest expected given = (if list_all (\<lambda>c. (of_char c :: nat) < 128) given then Inr (expected = given)
     else Inl (TypeError ''comparing strings with non-ASCII characters is not supported''))"

definition confirmed :: "string \<Rightarrow> string option \<Rightarrow> bool result" where
  "confirmed expected confirmation = (case confirmation of
       None \<Rightarrow> Inr False
     | Some given \<Rightarrow> if given = [] then Inr False else compare_digest expected given)"

definition check_replay_safety :: "url_lib \<Rightarrow> string \<Rightarrow> string list \<Rightarrow> replay_entry list \<Rightarrow> string list \<Rightarrow> string option \<Rightarrow> bool
    \<Rightarrow> safety_decision result" where
  "check_replay_safety lib base_url allowed_hosts entries allow confirmation production_acknowledged =
     (let origin = origin_of lib base_url; destructive = destructive_used entries;
          classification = tc_classification (classify_target lib base_url);
          unapproved = filter (\<lambda>m. m \<notin> set allow) destructive;
          expected = confirmation_token base_url destructive (length entries);
          approved = Inr \<lparr>sd_approved = True, sd_reason = ''approved ('' @ classification @ '' target)''\<rparr>
      in if origin \<notin> set (map rstrip_slash allowed_hosts) then refused (''target '' @ quoted origin @ '' is not in the allowlist'')
         else if destructive = [] then approved
         else if writes_in_production lib base_url \<and> \<not> production_acknowledged then
           refused (''target classifies as '' @ classification @ '' and this corpus writes to it; ''
             @ ''pass --i-know-this-is-production if that is what you mean'')
         else if unapproved \<noteq> [] then
           refused (''destructive methods '' @ py_repr (str_list unapproved) @ '' are not in the destructive allowlist'')
         else bind_result (confirmed expected confirmation) (\<lambda>ok.
           if ok then approved
           else refused (''destructive replay requires confirmation token '' @ quoted expected @ '' '' @ ''(printed by --dry-run)'')))"

section \<open>Sending\<close>

record replay_request =
  rq_method :: string
  rq_path :: string
  rq_params :: "(string, pyval) dict option"
  rq_header_fields :: "(string, string) dict option"
  rq_json :: pyval

definition non_empty :: "'a list \<Rightarrow> 'a list option" where
  "non_empty xs = (if xs = [] then None else Some xs)"

definition replay_request_of :: "replay_entry \<Rightarrow> replay_request" where
  "replay_request_of e = \<lparr>rq_method = re_method e, rq_path = re_path e, rq_params = non_empty (re_query e),
     rq_header_fields = non_empty (re_headers e), rq_json = re_body e\<rparr>"

record replay_report =
  rr_target :: string
  rr_dry_run :: bool
  rr_sent :: int
  rr_skipped :: int
  rr_statuses :: "(string, int) dict"

definition count_status :: "string \<Rightarrow> (string, int) dict \<Rightarrow> (string, int) dict" where
  "count_status k statuses = dict_set k (dict_get_or statuses k 0 + 1) statuses"

type_synonym replay_client = "nat \<Rightarrow> replay_request \<Rightarrow> int option"

definition replay_one :: "replay_client \<Rightarrow> replay_entry \<Rightarrow> replay_report \<times> replay_request list \<Rightarrow> replay_report \<times> replay_request list" where
  "replay_one send e state = (let (outline, sent) = state; request = replay_request_of e in
     (case send (length sent) request of
        None \<Rightarrow> outline\<lparr>rr_statuses := count_status ''error'' (rr_statuses outline)\<rparr>
      | Some status \<Rightarrow> outline\<lparr>rr_statuses := count_status (int_str (status div 100) @ ''xx'') (rr_statuses outline),
          rr_sent := rr_sent outline + 1\<rparr>, sent @ [request]))"

definition replay_corpus :: "url_lib \<Rightarrow> replay_client \<Rightarrow> replay_entry list \<Rightarrow> string \<Rightarrow> string list \<Rightarrow> bool \<Rightarrow> bool
    \<Rightarrow> (replay_report \<times> replay_request list) result" where
  "replay_corpus lib send entries base_url allowed_hosts dry_run allow_production =
     (let host = origin_of lib base_url;
          outline = \<lparr>rr_target = base_url, rr_dry_run = dry_run, rr_sent = 0, rr_skipped = 0, rr_statuses = []\<rparr>
      in if rstrip_slash host \<notin> set (map rstrip_slash allowed_hosts) then
           Inl (ValueError (''replay target '' @ quoted host @ '' is not in the allowlist; refusing''))
         else if list_ex re_production entries \<and> \<not> allow_production then
           Inl (ValueError (''corpus contains entries marked production; pass explicit opt-in ''
             @ ''(--i-know-this-is-production) to replay them''))
         else if dry_run then Inr (outline\<lparr>rr_skipped := int (length entries)\<rparr>, [])
         else Inr (fold (replay_one send) entries (outline, [])))"

section \<open>The command\<close>

record replay_args =
  ra_base_url :: string
  ra_allow_host :: "string list"
  ra_allow_method :: "string list"
  ra_confirm :: "string option"
  ra_i_know_this_is_production :: bool
  ra_execute :: bool

text \<open>What a dry run prints as the way to send the corpus.\<close>

record unlock_flags =
  uf_allow_method :: "string list"
  uf_confirm :: string
  uf_production :: bool

definition unlock_of :: "url_lib \<Rightarrow> string \<Rightarrow> replay_entry list \<Rightarrow> unlock_flags option" where
  "unlock_of lib base_url entries = (let writes = destructive_used entries in
     if writes = [] then None
     else Some \<lparr>uf_allow_method = writes, uf_confirm = confirmation_token base_url writes (length entries),
       uf_production = writes_in_production lib base_url\<rparr>)"

datatype gate_outcome = Planned "planned_request list" "unlock_flags option" | Proceed | Stopped string

definition replay_gate :: "url_lib \<Rightarrow> replay_args \<Rightarrow> replay_entry list \<Rightarrow> gate_outcome result" where
  "replay_gate lib args entries =
     (if \<not> ra_execute args then
        Inr (Planned (build_dry_run_plan lib entries (ra_base_url args)) (unlock_of lib (ra_base_url args) entries))
      else bind_result (check_replay_safety lib (ra_base_url args) (ra_allow_host args) entries
          (map upper (ra_allow_method args)) (ra_confirm args) (ra_i_know_this_is_production args)) (\<lambda>outcome.
        Inr (if sd_approved outcome then Proceed else Stopped (sd_reason outcome))))"

text \<open>\<open>ReplayEntry(...)\<close> of an imported entry; a value of the wrong type fails validation.\<close>

definition validated_text :: "pyval \<Rightarrow> string result" where
  "validated_text v = (case v of PStr s \<Rightarrow> Inr s | _ \<Rightarrow> Inl (ValueError ''Input should be a valid string''))"

definition text_header :: "string \<times> pyval \<Rightarrow> (string \<times> string) list result" where
  "text_header kv = bind_result (validated_text (snd kv)) (\<lambda>s. Inr [(fst kv, s)])"

definition replay_entry_of :: "url_lib \<Rightarrow> imported_entry \<Rightarrow> replay_entry result" where
  "replay_entry_of lib e =
     bind_result (if truthy (ie_url e) then (case ie_url e of PStr s \<Rightarrow> Inr s | _ \<Rightarrow> Inl (AttributeError ''decode'')) else Inr []) (\<lambda>url.
     bind_result (if truthy (ie_method e) then validated_text (ie_method e) else Inr ''GET'') (\<lambda>verb.
     bind_result (seq_results (map text_header (ie_request_headers e))) (\<lambda>headers.
       let path = up_path (ul_parse lib url) in
       Inr \<lparr>re_method = verb, re_path = (if path = [] then ''/'' else path), re_query = ie_query e, re_headers = headers,
         re_body = ie_request_body e, re_production = False\<rparr>)))"

text \<open>The corpus read from a recording: \<open>import_har\<close> with the default configuration, entry by entry.\<close>

definition corpus_of :: "url_lib \<Rightarrow> re_sub \<Rightarrow> json_loads \<Rightarrow> pyval \<Rightarrow> replay_entry list result" where
  "corpus_of lib sub loads har_file =
     bind_result (import_har sub loads default_redaction False har_file) (\<lambda>raw.
       seq_results (map (\<lambda>e. bind_result (replay_entry_of lib e) (\<lambda>r. Inr [r])) raw))"

text \<open>Exit code, outline and the requests sent. \<open>credentials\<close> says whether the profile that the
  arguments name resolves; an exception that the command does not catch is \<open>Inl\<close>.\<close>

definition cmd_replay :: "url_lib \<Rightarrow> re_sub \<Rightarrow> json_loads \<Rightarrow> bool \<Rightarrow> replay_client \<Rightarrow> replay_args \<Rightarrow> pyval
    \<Rightarrow> (int \<times> replay_report option \<times> replay_request list) result" where
  "cmd_replay lib sub loads credentials send args har_file =
     bind_result (corpus_of lib sub loads har_file) (\<lambda>entries.
     bind_result (replay_gate lib args entries) (\<lambda>outcome. case outcome of
         Stopped reason \<Rightarrow> Inr (EXIT_USAGE, None, [])
       | _ \<Rightarrow> if \<not> credentials then Inr (EXIT_USAGE, None, [])
           else (case replay_corpus lib send entries (ra_base_url args) (ra_allow_host args) (\<not> ra_execute args)
               (ra_i_know_this_is_production args) of
             Inl e \<Rightarrow> Inr (EXIT_USAGE, None, [])
           | Inr (outline, sent) \<Rightarrow> Inr (EXIT_OK, Some outline, sent))))"

end
