(* ===== verification/ReplayFacts.thy ===== *)
theory ReplayFacts
  imports Replay
begin

text \<open>
  The replay of recorded traffic: what is sent, what has been confirmed by then, and that the
  flags a dry run prints let the same corpus through.
\<close>

section \<open>The gate\<close>

definition cleared :: "url_lib \<Rightarrow> replay_args \<Rightarrow> replay_entry list \<Rightarrow> bool" where
  "cleared lib args entries \<longleftrightarrow>
     origin_of lib (ra_base_url args) \<in> set (map rstrip_slash (ra_allow_host args))
     \<and> (destructive_used entries = [] \<or>
         set (destructive_used entries) \<subseteq> set (map upper (ra_allow_method args))
         \<and> ra_confirm args = Some (confirmation_token (ra_base_url args) (destructive_used entries) (length entries))
         \<and> (writes_in_production lib (ra_base_url args) \<longrightarrow> ra_i_know_this_is_production args))"

lemma confirmed_token: "confirmed expected given = Inr True \<Longrightarrow> given = Some expected"
  by (auto simp: confirmed_def compare_digest_def split: option.splits if_splits)

lemma approved_cleared:
  assumes "check_replay_safety lib (ra_base_url args) (ra_allow_host args) entries (map upper (ra_allow_method args))
      (ra_confirm args) (ra_i_know_this_is_production args) = Inr d" and "sd_approved d"
  shows "cleared lib args entries"
proof -
  note passed = assms [unfolded check_replay_safety_def Let_def refused_def]
  show ?thesis
  proof (cases "destructive_used entries = []")
    case True
    then show ?thesis using passed by (auto simp: cleared_def split: if_splits)
  next
    case False
    then have "origin_of lib (ra_base_url args) \<in> set (map rstrip_slash (ra_allow_host args))"
      "writes_in_production lib (ra_base_url args) \<longrightarrow> ra_i_know_this_is_production args"
      "filter (\<lambda>m. m \<notin> set (map upper (ra_allow_method args))) (destructive_used entries) = []"
      "confirmed (confirmation_token (ra_base_url args) (destructive_used entries) (length entries)) (ra_confirm args) = Inr True"
      using passed by (auto simp: bind_result_def split: if_splits sum.splits)
    then show ?thesis by (auto simp: cleared_def filter_empty_conv dest: confirmed_token)
  qed
qed

lemma token_ascii:
  "confirmation_token u ms n \<noteq> []" "list_all (\<lambda>c. (of_char c :: nat) < 128) (confirmation_token u ms n)"
proof -
  let ?basis = "join ''|'' (sorted_set ms) @ ''|'' @ u @ ''|'' @ nat_str n"
  have "sha256_hexdigest ?basis \<noteq> []" by (simp add: length_sha256_hexdigest flip: length_greater_0_conv)
  then show "confirmation_token u ms n \<noteq> []" by (simp add: confirmation_token_def)
  have "set (confirmation_token u ms n) \<subseteq> hex_chars"
    using sha256_hexdigest_hex [of ?basis] by (auto simp: confirmation_token_def dest: in_set_takeD)
  moreover have "\<forall>c \<in> hex_chars. (of_char c :: nat) < 128" by (simp add: hex_chars_def)
  ultimately show "list_all (\<lambda>c. (of_char c :: nat) < 128) (confirmation_token u ms n)" by (auto simp: list_all_iff)
qed

lemma cleared_approved:
  assumes "cleared lib args entries"
  shows "\<exists>d. check_replay_safety lib (ra_base_url args) (ra_allow_host args) entries (map upper (ra_allow_method args))
      (ra_confirm args) (ra_i_know_this_is_production args) = Inr d \<and> sd_approved d"
proof (cases "destructive_used entries = []")
  case False
  then have "filter (\<lambda>m. m \<notin> upper ` set (ra_allow_method args)) (destructive_used entries) = []"
    using assms by (auto simp: cleared_def filter_empty_conv)
  with False assms show ?thesis
    by (auto simp: cleared_def check_replay_safety_def Let_def confirmed_def compare_digest_def token_ascii)
qed (use assms in \<open>simp add: cleared_def check_replay_safety_def Let_def\<close>)

text \<open>The gate lets a run proceed exactly when it is cleared.\<close>

lemma gate_proceeds:
  assumes "ra_execute args"
  shows "replay_gate lib args entries = Inr Proceed \<longleftrightarrow> cleared lib args entries"
  using assms approved_cleared [of lib args entries] cleared_approved [of lib args entries]
  by (auto simp: replay_gate_def bind_result_def split: sum.splits)

section \<open>What is sent\<close>

lemma replayed_requests:
  "snd (fold (replay_one send) entries (outline, sent)) = sent @ map replay_request_of entries"
proof (induction entries arbitrary: outline sent)
  case (Cons e es)
  obtain outline' where "replay_one send e (outline, sent) = (outline', sent @ [replay_request_of e])"
    by (cases "replay_one send e (outline, sent)") (simp add: replay_one_def Let_def split: option.splits)
  then show ?case by (simp add: Cons.IH)
qed simp

lemma corpus_sends:
  assumes "replay_corpus lib send entries base_url hosts dry allow = Inr (outline, sent)"
  shows "sent = (if dry then [] else map replay_request_of entries)"
  using assms replayed_requests [of send entries _ "[]"]
  by (auto simp: replay_corpus_def Let_def split: if_splits) (metis snd_conv append_Nil)+

text \<open>The flags that a dry run prints, given to the next run.\<close>

definition unlocked :: "unlock_flags option \<Rightarrow> replay_args \<Rightarrow> replay_args" where
  "unlocked u args = (case u of
       None \<Rightarrow> args\<lparr>ra_execute := True\<rparr>
     | Some f \<Rightarrow> args\<lparr>ra_execute := True, ra_allow_method := uf_allow_method f, ra_confirm := Some (uf_confirm f),
         ra_i_know_this_is_production := uf_production f\<rparr>)"

lemma destructive_upper: "m \<in> set (destructive_used entries) \<Longrightarrow> upper m = m"
  by (auto simp: destructive_used_def DESTRUCTIVE_METHODS_def upper_def upper_char_def Let_def)

lemma unlocked_cleared:
  assumes "origin_of lib (ra_base_url args) \<in> set (map rstrip_slash (ra_allow_host args))"
  shows "cleared lib (unlocked (unlock_of lib (ra_base_url args) entries) args) entries"
proof -
  have "m \<in> upper ` set (destructive_used entries)" if "m \<in> set (destructive_used entries)" for m
    using destructive_upper [OF that] that by force
  then show ?thesis using assms by (auto simp: cleared_def unlocked_def unlock_of_def Let_def)
qed

lemma cmd_replay_sends:
  assumes "cmd_replay lib sub loads credentials send args har_file = Inr (code, outline, sent)" and "sent \<noteq> []"
  shows "ra_execute args \<and> (\<exists>entries. sent = map replay_request_of entries \<and> cleared lib args entries)"
proof -
  from assms(1) obtain entries outcome where
    gate: "replay_gate lib args entries = Inr outcome"
    and rest: "(case outcome of Stopped reason \<Rightarrow> Inr (EXIT_USAGE, None, [])
       | _ \<Rightarrow> if \<not> credentials then Inr (EXIT_USAGE, None, [])
           else (case replay_corpus lib send entries (ra_base_url args) (ra_allow_host args) (\<not> ra_execute args)
               (ra_i_know_this_is_production args) of
             Inl e \<Rightarrow> Inr (EXIT_USAGE, None, [])
           | Inr (outline, sent) \<Rightarrow> Inr (EXIT_OK, Some outline, sent))) = (Inr (code, outline, sent) :: _ result)"
    unfolding cmd_replay_def bind_result_def by (auto split: sum.splits)
  from rest assms(2) obtain outline' where
    "replay_corpus lib send entries (ra_base_url args) (ra_allow_host args) (\<not> ra_execute args)
       (ra_i_know_this_is_production args) = Inr (outline', sent)" and not_stopped: "\<forall>r. outcome \<noteq> Stopped r"
    by (auto split: gate_outcome.splits if_splits sum.splits prod.splits)
  from corpus_sends [OF this(1)] assms(2) have executed: "ra_execute args" and sent: "sent = map replay_request_of entries"
    by (auto split: if_splits)
  have "outcome = Proceed"
    using gate executed not_stopped by (auto simp: replay_gate_def bind_result_def split: sum.splits if_splits)
  with gate executed sent show ?thesis using gate_proceeds by blast
qed

text \<open>A run with \<open>--execute\<close> succeeds exactly when its corpus is cleared, and then sends all of it.\<close>

lemma successful_run_cleared:
  assumes "cmd_replay lib sub loads credentials send args har_file = Inr (EXIT_OK, outline, sent)" and "ra_execute args"
    and "corpus_of lib sub loads har_file = Inr entries"
  shows "credentials \<and> cleared lib args entries"
proof -
  obtain outcome where gate: "replay_gate lib args entries = Inr outcome"
    and outcome: "credentials" "\<forall>r. outcome \<noteq> Stopped r"
    using assms(1,3) by (auto simp: cmd_replay_def bind_result_def EXIT_OK_def EXIT_USAGE_def
        split: sum.splits gate_outcome.splits if_splits)
  then have "outcome = Proceed"
    using assms(2) by (auto simp: replay_gate_def bind_result_def split: sum.splits if_splits)
  then show ?thesis using gate gate_proceeds [OF assms(2)] outcome(1) by blast
qed

lemma corpus_unmarked: "corpus_of lib sub loads har_file = Inr entries \<Longrightarrow> \<not> list_ex re_production entries"
proof -
  have "\<not> re_production r" if "replay_entry_of lib e = Inr r" for e r
    using that by (auto simp: replay_entry_of_def Let_def bind_result_Inr)
  then have "\<not> list_ex re_production rs"
    if "seq_results (map (\<lambda>e. bind_result (replay_entry_of lib e) (\<lambda>r. Inr [r])) es) = Inr rs" for es rs
    using that by (induction es arbitrary: rs) (auto simp: bind_result_Inr)
  then show "corpus_of lib sub loads har_file = Inr entries \<Longrightarrow> ?thesis"
    by (auto simp: corpus_of_def bind_result_Inr)
qed

lemma cleared_corpus_sent:
  assumes "corpus_of lib sub loads har_file = Inr entries" and "cleared lib args entries" and "ra_execute args" and "credentials"
  shows "\<exists>outline. cmd_replay lib sub loads credentials send args har_file
    = Inr (EXIT_OK, Some outline, map replay_request_of entries)"
proof -
  have strip: "rstrip_slash (rstrip_slash s) = rstrip_slash s" for s
    by (simp add: rstrip_slash_def)
  have "rstrip_slash (origin_of lib (ra_base_url args)) \<in> set (map rstrip_slash (ra_allow_host args))"
    using assms(2) by (auto simp: cleared_def strip)
  then have "\<exists>r. replay_corpus lib send entries (ra_base_url args) (ra_allow_host args) False
      (ra_i_know_this_is_production args) = Inr r"
    using corpus_unmarked [OF assms(1)] by (auto simp: replay_corpus_def Let_def)
  then obtain outline sent where run: "replay_corpus lib send entries (ra_base_url args) (ra_allow_host args) False
      (ra_i_know_this_is_production args) = Inr (outline, sent)" by auto
  have "replay_gate lib args entries = Inr Proceed" using gate_proceeds [OF assms(3)] assms(2) by blast
  then show ?thesis
    using run corpus_sends [OF run] assms by (simp add: cmd_replay_def)
qed

text \<open>What a clearance speaks of: the four methods used and, if there are any, the number of entries.\<close>

lemma cleared_cong:
  assumes "destructive_used es' = destructive_used es" and "destructive_used es = [] \<or> length es' = length es"
  shows "cleared lib args es' = cleared lib args es"
  using assms by (auto simp: cleared_def)

end
