(* ===== verification/TrafficSamples.thy ===== *)
theory TrafficSamples
  imports CaptureFacts ReplayFacts
begin

text \<open>Small recordings: with and without secrets, within and beyond a limit, replayed and refused.\<close>

definition keep_text :: re_sub where
  "keep_text p r s = s"

text \<open>A reader of bodies of the form \<open>name=value\<close>.\<close>

definition one_field :: json_loads where
  "one_field s = (if CHR ''='' \<in> set s then Some (PDict [(fst (partition_eq s), PStr (snd (partition_eq s)))]) else None)"

definition named_pair :: "string \<Rightarrow> string \<Rightarrow> pyval" where
  "named_pair k v = PDict [(''name'', PStr k), (''value'', PStr v)]"

text \<open>A login with a secret in a header, in the query, in the body, and in the URL.\<close>

definition login :: "string \<Rightarrow> string \<Rightarrow> pyval" where
  "login secret url = PDict [
     (''startedDateTime'', PStr ''2026-01-01T00:00:00Z''),
     (''request'', PDict [
        (''method'', PStr ''POST''), (''url'', PStr url),
        (''headers'', PList [named_pair ''Authorization'' secret, named_pair ''Accept'' ''*/*'']),
        (''queryString'', PList [named_pair ''token'' secret]),
        (''postData'', PDict [(''mimeType'', PStr ''application/json''), (''text'', PStr (''password='' @ secret))])]),
     (''response'', PDict [(''status'', PInt 200)])]"

definition login_url :: "string \<Rightarrow> string" where
  "login_url secret = ''http://shop.test/login?token='' @ secret"

lemma logins_alike: "alike_exchange one_field default_redaction (login ''one'' ''/login'') (login ''two'' ''/login'')"
  by code_simp

lemma login_imported:
  "case import_har keep_text one_field default_redaction False (recording [login ''hunter2'' (login_url ''hunter2'')]) of
     Inl _ \<Rightarrow> False | Inr es \<Rightarrow> length es = 1"
  by code_simp

section \<open>The proxy\<close>

definition split_once :: "string \<Rightarrow> url_parts" where
  "split_once u = \<lparr>up_scheme = ''http'', up_netloc = ''shop.test'', up_path = takeWhile (\<lambda>c. c \<noteq> CHR ''?'') u,
     up_query = drop 1 (dropWhile (\<lambda>c. c \<noteq> CHR ''?'') u), up_fragment = []\<rparr>"

definition join_again :: "url_parts \<Rightarrow> string" where
  "join_again p = up_scheme p @ ''://'' @ up_netloc p @ up_path p @ ''?'' @ up_query p"

definition no_pii :: pii_lib where
  "no_pii = \<lparr>pl_find = (\<lambda>p s. []), pl_sub = (\<lambda>p f s. s), pl_ipv4 = (\<lambda>s. False), pl_ipv6 = (\<lambda>s. False)\<rparr>"

definition small_lib :: capture_lib where
  "small_lib = \<lparr>cl_sub = keep_text, cl_loads = one_field, cl_dumps = py_repr, cl_decode = (\<lambda>b. b), cl_split = split_once,
     cl_unsplit = join_again, cl_urlencode = (\<lambda>d. join ''&'' (map (\<lambda>(k, v). k @ ''='' @ v) d)), cl_pii = no_pii\<rparr>"

definition empty_capture :: capture where
  "empty_capture = \<lparr>cp_target = ''http://shop.test'', cp_redaction = default_redaction, cp_max_body_bytes = 64,
     cp_keep_response_bodies = True, cp_redact_pii = True, cp_max_entries = Some 2, cp_entries = [],
     cp_skips = \<lparr>sk_oversized_request = 0, sk_oversized_response = 0, sk_binary_request = 0, sk_binary_response = 0,
       sk_upstream_failed = 0, sk_off_target = 0, sk_after_limit = 0\<rparr>\<rparr>"

definition proxied_login :: "string \<Rightarrow> recorded_exchange" where
  "proxied_login secret = \<lparr>rx_method = ''POST'', rx_url = ''/login?token='' @ secret,
     rx_request_headers = [(''Authorization'', secret), (''Content-Type'', ''application/json'')],
     rx_request_body = ''password='' @ secret, rx_status = 200, rx_response_headers = [(''Set-Cookie'', secret)],
     rx_response_body = [], rx_started = ''2026-01-01T00:00:00Z'', rx_duration_ms = 5\<rparr>"

lemma proxied_alike: "alike_recorded small_lib default_redaction (64) (proxied_login ''one'') (proxied_login ''two'')"
  by code_simp

section \<open>Replay\<close>

definition small_urls :: url_lib where
  "small_urls = \<lparr>ul_parse = (\<lambda>u. split_once (if starts_with u ''http://shop.test'' then drop 16 u else u)),
     ul_hostname = (\<lambda>u. Some ''shop.com''), ul_join = (@)\<rparr>"

definition plain_args :: replay_args where
  "plain_args = \<lparr>ra_base_url = ''http://shop.test'', ra_allow_host = [''http://shop.test/''], ra_allow_method = [],
     ra_confirm = None, ra_i_know_this_is_production = False, ra_execute = False\<rparr>"

definition answering :: replay_client where
  "answering n q = Some 204"

definition recorded_call :: "string \<Rightarrow> string \<Rightarrow> pyval" where
  "recorded_call verb url = PDict [(''request'', PDict [(''method'', PStr verb), (''url'', PStr url)])]"

lemma shop_is_production: "writes_in_production small_urls ''http://shop.test''"
  by code_simp

lemma shop_allowed: "origin_of small_urls (ra_base_url plain_args) \<in> set (map rstrip_slash (ra_allow_host plain_args))"
  by code_simp

text \<open>A corpus of one write.\<close>

definition delete_of :: "string \<Rightarrow> replay_entry" where
  "delete_of path = \<lparr>re_method = ''delete'', re_path = path, re_query = [], re_headers = [], re_body = PNone, re_production = False\<rparr>"

lemma upper_delete: "upper ''delete'' = ''DELETE''"
  by code_simp

lemma delete_used: "destructive_used [delete_of path] = [''DELETE'']"
  by (simp add: destructive_used_def used_methods_def delete_of_def sorted_set_def DESTRUCTIVE_METHODS_def upper_delete)

text \<open>Recordings of one call; the flags that unlock a deletion.\<close>

lemma call_corpus:
  "corpus_of small_urls keep_text one_field (recording [recorded_call ''GET'' ''/orders''])
    = Inr [\<lparr>re_method = ''GET'', re_path = ''/orders'', re_query = [], re_headers = [], re_body = PNone, re_production = False\<rparr>]"
  "corpus_of small_urls keep_text one_field (recording [recorded_call ''PURGE'' ''/orders''])
    = Inr [\<lparr>re_method = ''PURGE'', re_path = ''/orders'', re_query = [], re_headers = [], re_body = PNone, re_production = False\<rparr>]"
  "corpus_of small_urls keep_text one_field (recording [recorded_call ''delete'' ''/orders/1'']) = Inr [delete_of ''/orders/1'']"
  "corpus_of small_urls keep_text one_field (recording [recorded_call ''delete'' ''/accounts'']) = Inr [delete_of ''/accounts'']"
  by code_simp+

definition delete_args :: replay_args where
  "delete_args = unlocked (unlock_of small_urls (ra_base_url plain_args) [delete_of ''/orders/1'']) plain_args"

lemma delete_args_execute: "ra_execute delete_args"
  by (simp add: delete_args_def unlocked_def split: option.split)

lemma delete_is_sent:
  "\<exists>outline. cmd_replay small_urls keep_text one_field True answering delete_args (recording [recorded_call ''delete'' ''/orders/1''])
    = Inr (EXIT_OK, Some outline, map replay_request_of [delete_of ''/orders/1''])"
proof (rule cleared_corpus_sent [OF call_corpus(3) _ delete_args_execute])
  show "cleared small_urls delete_args [delete_of ''/orders/1'']"
    unfolding delete_args_def by (rule unlocked_cleared [OF shop_allowed])
qed simp

lemma get_is_sent:
  "\<exists>outline. cmd_replay small_urls keep_text one_field True answering (plain_args\<lparr>ra_execute := True\<rparr>)
      (recording [recorded_call ''GET'' ''/orders'']) = Inr (EXIT_OK, Some outline, map replay_request_of
        [\<lparr>re_method = ''GET'', re_path = ''/orders'', re_query = [], re_headers = [], re_body = PNone, re_production = False\<rparr>])"
proof (rule cleared_corpus_sent [OF call_corpus(1)])
  show "cleared small_urls (plain_args\<lparr>ra_execute := True\<rparr>)
      [\<lparr>re_method = ''GET'', re_path = ''/orders'', re_query = [], re_headers = [], re_body = PNone, re_production = False\<rparr>]"
    unfolding cleared_def by (intro conjI disjI1; code_simp)
qed simp_all

end
