(* ===== verification/StepCycles.thy ===== *)
theory StepCycles
  imports Prelude
begin

text \<open>
  \<open>has_cycle\<close> of src/apiverity/stateful/graph.py: depth-first search with three colours on a
  graph of steps. The nested function \<open>visit\<close> recurses as deep as there are white nodes, which
  is the fuel; \<open>None\<close> would mean that it did not suffice. The depth limit of the Python
  interpreter is left out.
\<close>

section \<open>The search\<close>

datatype colour = WHITE | GRAY | BLACK

type_synonym colours = "(string, colour) dict"

fun visit :: "(string, string list) dict \<Rightarrow> nat \<Rightarrow> string \<Rightarrow> colours \<Rightarrow> (bool \<times> colours) option"
  and visit_all :: "(string, string list) dict \<Rightarrow> nat \<Rightarrow> string list \<Rightarrow> colours \<Rightarrow> (bool \<times> colours) option" where
  "visit edges fuel node colour =
     (if dict_get_or colour node BLACK = GRAY then Some (True, colour)
      else if dict_get_or colour node BLACK = BLACK then Some (False, colour)
      else (case fuel of
          0 \<Rightarrow> None
        | Suc fuel \<Rightarrow> (case visit_all edges fuel (dict_get_or edges node []) (dict_set node GRAY colour) of
              None \<Rightarrow> None
            | Some (found, colour) \<Rightarrow> if found then Some (True, colour) else Some (False, dict_set node BLACK colour))))"
| "visit_all edges fuel [] colour = Some (False, colour)"
| "visit_all edges fuel (next # rest) colour = (case visit edges fuel next colour of
     None \<Rightarrow> None
   | Some (found, colour) \<Rightarrow> if found then Some (True, colour) else visit_all edges fuel rest colour)"

declare visit.simps [simp del]

text \<open>\<open>any(visit(n) for n in steps if color[n] == WHITE)\<close>.\<close>

fun any_visit :: "(string, string list) dict \<Rightarrow> nat \<Rightarrow> string list \<Rightarrow> colours \<Rightarrow> bool option" where
  "any_visit edges fuel [] colour = Some False"
| "any_visit edges fuel (n # ns) colour =
     (if dict_get_or colour n BLACK = WHITE then (case visit edges fuel n colour of
          None \<Rightarrow> None
        | Some (found, colour) \<Rightarrow> if found then Some True else any_visit edges fuel ns colour)
      else any_visit edges fuel ns colour)"

definition has_cycle :: "string list \<Rightarrow> (string, string list) dict \<Rightarrow> bool option" where
  "has_cycle names edges = any_visit edges (length names) names (dict_of (map (\<lambda>n. (n, WHITE)) names))"

section \<open>What it decides\<close>

definition step_edge :: "string set \<Rightarrow> (string, string list) dict \<Rightarrow> string \<Rightarrow> string \<Rightarrow> bool" where
  "step_edge nodes edges u v \<longleftrightarrow> u \<in> nodes \<and> v \<in> nodes \<and> v \<in> set (dict_get_or edges u [])"

definition coloured :: "colour \<Rightarrow> colours \<Rightarrow> string set" where
  "coloured c colour = {n. map_of colour n = Some c}"

definition nodes_of :: "colours \<Rightarrow> string set" where
  "nodes_of colour = set (keys colour)"

lemma colour_of: "dict_get_or colour n BLACK = (case map_of colour n of None \<Rightarrow> BLACK | Some c \<Rightarrow> c)"
  by (simp add: dict_get_or_def)

lemma coloured_set: "coloured c (dict_set n d colour) = (if c = d then insert n (coloured c colour) else coloured c colour - {n})"
  by (auto simp: coloured_def map_of_dict_set)

lemma nodes_of_set: "nodes_of (dict_set n d colour) = insert n (nodes_of colour)"
  by (simp add: nodes_of_def set_keys_dict_set)

lemma finite_coloured [simp]: "finite (coloured c colour)"
proof (rule finite_subset)
  show "coloured c colour \<subseteq> set (keys colour)" by (auto simp: coloured_def keys_def intro: image_eqI [rotated, OF map_of_SomeD])
qed simp

lemma nodes_of_colours: "nodes_of colour = coloured WHITE colour \<union> coloured GRAY colour \<union> coloured BLACK colour"
proof -
  have "n \<in> nodes_of colour \<longleftrightarrow> (\<exists>c. map_of colour n = Some c)" for n
    by (auto simp: nodes_of_def set_keys_eq_dom)
  then show ?thesis by (auto simp: coloured_def) (metis colour.exhaust)
qed

text \<open>
  What holds between calls: black nodes lead to black nodes only and lie on no cycle, and every
  gray node leads to the node that is looked at next.
\<close>

definition settled :: "(string, string list) dict \<Rightarrow> colours \<Rightarrow> bool" where
  "settled edges colour \<longleftrightarrow> (\<forall>u \<in> coloured BLACK colour.
     (\<forall>v. step_edge (nodes_of colour) edges u v \<longrightarrow> v \<in> coloured BLACK colour) \<and> \<not> (step_edge (nodes_of colour) edges)\<^sup>+\<^sup>+ u u)"

definition cyclic :: "string set \<Rightarrow> (string, string list) dict \<Rightarrow> bool" where
  "cyclic nodes edges \<longleftrightarrow> (\<exists>u. (step_edge nodes edges)\<^sup>+\<^sup>+ u u)"

text \<open>What a call that returns guarantees.\<close>

definition searched :: "(string, string list) dict \<Rightarrow> string set \<Rightarrow> colours \<Rightarrow> bool \<times> colours \<Rightarrow> bool" where
  "searched edges targets before r \<longleftrightarrow>
     (if fst r then cyclic (nodes_of before) edges
      else nodes_of (snd r) = nodes_of before \<and> settled edges (snd r)
        \<and> coloured GRAY (snd r) = coloured GRAY before \<and> coloured BLACK before \<subseteq> coloured BLACK (snd r)
        \<and> targets \<inter> nodes_of before \<subseteq> coloured BLACK (snd r))"

lemma settled_reach:
  assumes "settled edges colour" and "u \<in> coloured BLACK colour" and "(step_edge (nodes_of colour) edges)\<^sup>*\<^sup>* u v"
  shows "v \<in> coloured BLACK colour"
  using assms(3,2) by (induction rule: rtranclp_induct) (use assms(1) in \<open>auto simp: settled_def\<close>)

lemma settled_blacken:
  assumes "settled edges colour" and "node \<in> nodes_of colour" and "node \<notin> coloured BLACK colour"
    and "set (dict_get_or edges node []) \<inter> nodes_of colour \<subseteq> coloured BLACK colour"
  shows "settled edges (dict_set node BLACK colour)"
proof -
  let ?N = "nodes_of colour" and ?B = "coloured BLACK colour"
  have nodes: "nodes_of (dict_set node BLACK colour) = ?N" using assms(2) by (auto simp: nodes_of_set)
  have out: "v \<in> ?B" if "step_edge ?N edges node v" for v using that assms(4) by (auto simp: step_edge_def)
  have "\<not> (step_edge ?N edges)\<^sup>+\<^sup>+ node node"
  proof
    assume "(step_edge ?N edges)\<^sup>+\<^sup>+ node node"
    then obtain v where "step_edge ?N edges node v" "(step_edge ?N edges)\<^sup>*\<^sup>* v node" by (blast dest: tranclpD)
    with out settled_reach [OF assms(1), of v node] assms(3) show False by blast
  qed
  moreover have "v \<in> insert node ?B" if "u \<in> insert node ?B" "step_edge ?N edges u v" for u v
    using that out assms(1) by (auto simp: settled_def)
  moreover have "\<not> (step_edge ?N edges)\<^sup>+\<^sup>+ u u" if "u \<in> ?B" for u using that assms(1) by (auto simp: settled_def)
  ultimately show ?thesis by (auto simp: settled_def nodes coloured_set)
qed

definition leads_to :: "(string, string list) dict \<Rightarrow> colours \<Rightarrow> string set \<Rightarrow> bool" where
  "leads_to edges colour targets \<longleftrightarrow> (\<forall>g \<in> coloured GRAY colour. \<forall>t \<in> targets \<inter> nodes_of colour.
     (step_edge (nodes_of colour) edges)\<^sup>+\<^sup>+ g t)"

lemma visit_searched:
  "settled edges colour \<Longrightarrow> leads_to edges colour {node} \<Longrightarrow> card (coloured WHITE colour) \<le> fuel
    \<Longrightarrow> \<exists>r. visit edges fuel node colour = Some r \<and> searched edges {node} colour r \<and> card (coloured WHITE (snd r)) \<le> card (coloured WHITE colour)"
  "settled edges colour \<Longrightarrow> leads_to edges colour (set targets) \<Longrightarrow> card (coloured WHITE colour) \<le> fuel
    \<Longrightarrow> \<exists>r. visit_all edges fuel targets colour = Some r \<and> searched edges (set targets) colour r \<and> card (coloured WHITE (snd r)) \<le> card (coloured WHITE colour)"
proof (induction edges fuel node colour and edges fuel targets colour rule: visit_visit_all.induct)
  case (1 edges fuel node colour)
  let ?c = "dict_get_or colour node BLACK"
  consider "?c = GRAY" | "?c = BLACK" | "?c = WHITE" by (cases ?c) auto
  then show ?case
  proof cases
    case 1
    then have "node \<in> coloured GRAY colour" by (auto simp: colour_of coloured_def split: option.splits)
    with "1.prems"(2) have "cyclic (nodes_of colour) edges"
      by (auto simp: leads_to_def cyclic_def nodes_of_colours)
    with 1 show ?thesis by (simp add: visit.simps searched_def)
  next
    case 2
    then have "{node} \<inter> nodes_of colour \<subseteq> coloured BLACK colour"
      by (auto simp: colour_of nodes_of_colours coloured_def split: option.splits)
    with 2 "1.prems" show ?thesis by (simp add: visit.simps searched_def)
  next
    case 3
    then have white: "node \<in> coloured WHITE colour" by (auto simp: colour_of coloured_def split: option.splits)
    then have "card (coloured WHITE colour) > 0" by (auto simp: card_gt_0_iff)
    with "1.prems"(3) obtain m where fuel: "fuel = Suc m" by (cases fuel) auto
    let ?gray = "dict_set node GRAY colour"
    have here: "node \<in> nodes_of colour" "node \<notin> coloured BLACK colour" "node \<notin> coloured GRAY colour"
      using white by (auto simp: nodes_of_colours coloured_def)
    have nodes: "nodes_of ?gray = nodes_of colour" using here by (auto simp: nodes_of_set)
    have black: "coloured BLACK ?gray = coloured BLACK colour" using here by (simp add: coloured_set)
    have gray: "coloured GRAY ?gray = insert node (coloured GRAY colour)" by (simp add: coloured_set)
    have settled: "settled edges ?gray" using "1.prems"(1) by (simp add: settled_def nodes black)
    have leads: "leads_to edges ?gray (set (dict_get_or edges node []))"
    proof -
      have "step_edge (nodes_of colour) edges node t" if "t \<in> set (dict_get_or edges node [])" "t \<in> nodes_of colour" for t
        using that here by (simp add: step_edge_def)
      moreover have "(step_edge (nodes_of colour) edges)\<^sup>+\<^sup>+ g node" if "g \<in> coloured GRAY colour" for g
        using that "1.prems"(2) here by (simp add: leads_to_def)
      ultimately show ?thesis
        by (auto simp: leads_to_def nodes coloured_set intro: tranclp.r_into_trancl tranclp.trancl_into_trancl)
    qed
    have fewer: "card (coloured WHITE ?gray) = card (coloured WHITE colour) - 1" using white by (simp add: coloured_set)
    have "\<exists>r. visit_all edges m (dict_get_or edges node []) ?gray = Some r
        \<and> searched edges (set (dict_get_or edges node [])) ?gray r \<and> card (coloured WHITE (snd r)) \<le> card (coloured WHITE ?gray)"
      by (rule "1.IH" [OF _ _ fuel settled leads]) (use 3 "1.prems"(3) fewer fuel in auto)
    then obtain found after where r: "visit_all edges m (dict_get_or edges node []) ?gray = Some (found, after)"
      "searched edges (set (dict_get_or edges node [])) ?gray (found, after)" "card (coloured WHITE after) \<le> card (coloured WHITE ?gray)"
      by auto
    show ?thesis
    proof (cases found)
      case True
      with r 3 fewer show ?thesis by (simp add: visit.simps fuel searched_def nodes)
    next
      case False
      with r(2) have after: "nodes_of after = nodes_of colour" "settled edges after" "coloured GRAY after = insert node (coloured GRAY colour)"
        "coloured BLACK colour \<subseteq> coloured BLACK after" "set (dict_get_or edges node []) \<inter> nodes_of colour \<subseteq> coloured BLACK after"
        by (simp_all add: searched_def nodes black gray)
      have "node \<in> coloured GRAY after" unfolding after(3) by simp
      then have unfinished: "node \<notin> coloured BLACK after" "node \<notin> coloured WHITE after" by (simp_all add: coloured_def)
      have "settled edges (dict_set node BLACK after)"
        using settled_blacken [OF after(2)] here unfinished after by simp
      with after here have "searched edges {node} colour (False, dict_set node BLACK after)"
        by (auto simp: searched_def nodes_of_set coloured_set)
      with r 3 False fewer unfinished show ?thesis by (simp add: visit.simps fuel coloured_set)
    qed
  qed
next
  case (2 edges fuel colour)
  then show ?case by (simp add: searched_def)
next
  case (3 edges fuel nxt rest colour)
  from "3.prems"(2) have "leads_to edges colour {nxt}" by (auto simp: leads_to_def)
  from "3.IH"(1) [OF "3.prems"(1) this "3.prems"(3)] obtain found after where
    r: "visit edges fuel nxt colour = Some (found, after)" "searched edges {nxt} colour (found, after)"
    "card (coloured WHITE after) \<le> card (coloured WHITE colour)" by auto
  show ?case
  proof (cases found)
    case True
    with r show ?thesis by (simp add: searched_def)
  next
    case False
    with r(2) have after: "nodes_of after = nodes_of colour" "settled edges after" "coloured GRAY after = coloured GRAY colour"
      "coloured BLACK colour \<subseteq> coloured BLACK after" "{nxt} \<inter> nodes_of colour \<subseteq> coloured BLACK after"
      by (simp_all add: searched_def)
    have "leads_to edges after (set rest)" using "3.prems"(2) after by (simp add: leads_to_def)
    from "3.IH"(2) [OF r(1) refl False after(2) this] r(3) "3.prems"(3) obtain q where
      q: "visit_all edges fuel rest after = Some q" "searched edges (set rest) after q" "card (coloured WHITE (snd q)) \<le> card (coloured WHITE after)"
      by auto
    have "searched edges (set (nxt # rest)) colour q" using q(2) after by (auto simp: searched_def split: if_splits)
    with q r False show ?thesis by simp
  qed
qed

lemma any_visit_decides:
  assumes "settled edges colour" and "coloured GRAY colour = {}" and "card (coloured WHITE colour) \<le> fuel"
    and "set names \<subseteq> nodes_of colour"
  shows "any_visit edges fuel names colour = Some True \<and> cyclic (nodes_of colour) edges
    \<or> any_visit edges fuel names colour = Some False \<and> (\<exists>after. settled edges after \<and> nodes_of after = nodes_of colour
        \<and> coloured BLACK colour \<union> set names \<subseteq> coloured BLACK after)"
  using assms
proof (induction names arbitrary: colour)
  case Nil
  then show ?case by auto
next
  case (Cons n names)
  show ?case
  proof (cases "dict_get_or colour n BLACK = WHITE")
    case True
    have "leads_to edges colour {n}" using Cons.prems(2) by (simp add: leads_to_def)
    from visit_searched(1) [OF Cons.prems(1) this Cons.prems(3)] obtain found after where
      r: "visit edges fuel n colour = Some (found, after)" "searched edges {n} colour (found, after)"
      "card (coloured WHITE after) \<le> card (coloured WHITE colour)" by auto
    show ?thesis
    proof (cases found)
      case True
      with r \<open>dict_get_or colour n BLACK = WHITE\<close> show ?thesis by (simp add: searched_def)
    next
      case False
      with r(2) Cons.prems(4) have after: "nodes_of after = nodes_of colour" "settled edges after" "coloured GRAY after = coloured GRAY colour"
        "coloured BLACK colour \<subseteq> coloured BLACK after" "n \<in> coloured BLACK after"
        by (simp_all add: searched_def)
      have same: "any_visit edges fuel (n # names) colour = any_visit edges fuel names after" using True r(1) False by simp
      have "any_visit edges fuel names after = Some True \<and> cyclic (nodes_of colour) edges
        \<or> any_visit edges fuel names after = Some False \<and> (\<exists>final. settled edges final \<and> nodes_of final = nodes_of colour
            \<and> coloured BLACK after \<union> set names \<subseteq> coloured BLACK final)"
        using Cons.IH [OF after(2)] Cons.prems r(3) after by simp
      moreover have "coloured BLACK colour \<union> set (n # names) \<subseteq> coloured BLACK final"
        if "coloured BLACK after \<union> set names \<subseteq> coloured BLACK final" for final
        using that after(4,5) by auto
      ultimately show ?thesis unfolding same by blast
    qed
  next
    case False
    have "n \<in> coloured BLACK colour"
      using False Cons.prems(2,4) by (auto simp: colour_of nodes_of_colours coloured_def split: option.splits)
    with Cons.IH [OF Cons.prems(1-3)] Cons.prems(4) False show ?thesis by auto
  qed
qed

lemma has_cycle_decides: "has_cycle names edges = Some (cyclic (set names) edges)"
proof -
  let ?start = "dict_of (map (\<lambda>n. (n, WHITE)) names)"
  have "map_of (map (\<lambda>n. (n, WHITE)) ns) n = (if n \<in> set ns then Some WHITE else None)" for n :: string and ns
    by (induction ns) auto
  then have "map_of ?start n = (if n \<in> set names then Some WHITE else None)" for n
    by (simp add: map_of_dict_of rev_map)
  then have colours: "coloured WHITE ?start = set names" "coloured GRAY ?start = {}" "coloured BLACK ?start = {}"
    by (auto simp: coloured_def split: if_splits)
  then have nodes: "nodes_of ?start = set names" by (simp add: nodes_of_colours)
  have "settled edges ?start" by (simp add: settled_def colours)
  from any_visit_decides [OF this colours(2), of "length names" names] consider
      "has_cycle names edges = Some True" "cyclic (set names) edges"
    | after where "has_cycle names edges = Some False" "settled edges after" "nodes_of after = set names" "set names \<subseteq> coloured BLACK after"
    by (auto simp: has_cycle_def colours nodes card_length)
  then show ?thesis
  proof cases
    case 2
    have "\<not> cyclic (set names) edges"
    proof
      assume "cyclic (set names) edges"
      then obtain u where u: "(step_edge (set names) edges)\<^sup>+\<^sup>+ u u" by (auto simp: cyclic_def)
      then obtain v where "step_edge (set names) edges u v" by (blast dest: tranclpD)
      then have "u \<in> set names" by (simp add: step_edge_def)
      with u 2 show False by (auto simp: settled_def)
    qed
    with 2(1) show ?thesis by simp
  qed simp
qed

end
