(* ===== verification/Spec2Isabelle.thy ===== *)
theory Spec2Isabelle
  imports Remarks InferSamples TrafficSamples StepCycles
begin

text \<open>
  A model of the core of API Verity Lab (src/apiverity): the comparison of two API contracts
  and the gate that decides whether the difference breaks a client; and of the self-hosted
  server that keeps contracts, runs, approvals, freezes and an audit log for organisations;
  of the engine that runs workflows against a service; of the budgets for agents' calls; of the
  loader of OpenAPI documents, of the validator of values and of the inference of a contract
  from recorded traffic, of the recording itself and of its replay.

  \<^bold>\<open>The program.\<close> A loader parses a specification into a \<open>Service\<close>. The differ
  walks two services and records a list of changes; the breaking rules turn each change into
  at most one finding with a severity; the gate compares the severities with a threshold and
  chooses the exit code. In between, the command adds the compatibility analysers, migration
  guides, suppressions, the consumer registry and the version policy. Before the walk both services are canonicalized: \<open>allOf\<close> is
  collapsed, enums and required lists are ordered. The server stores what teams publish: its
  store is a SQLite database, its job queue works on the runs table, a deployment decision
  reads contracts, runs and freezes, and every governance action is chained into the audit log,
  which can be exported and verified elsewhere.

  \<^bold>\<open>Theories and sources.\<close>
  \<^item> \<open>Prelude\<close>: results of code that can raise, Python dicts as association lists, sorted
    sets, substring search, statements that thread a state (\<open>steps\<close>, \<open>for_each\<close>, \<open>only_if\<close>).
  \<^item> \<open>PyValue\<close>: the Python values a JSON document can hold, their equality, order, truth,
    \<open>repr\<close> and set operations; a float is a decimal \<open>m * 10 ^ e\<close>, without nan and infinities.
  \<^item> \<open>Sha256\<close>: the digest that \<open>_operation_hash\<close> and \<open>_tool_shape\<close> use, on 32-bit words.
  \<^item> \<open>Model\<close>: core/model.py, one record or datatype per class, \<open>Operation.key\<close> as \<open>key\<close>.
    A \<open>SchemaNode\<close> is a datatype: its scalar attributes are the record \<open>schema_facts\<close>.
  \<^item> \<open>DiffBase\<close>, \<open>DiffProto\<close>, \<open>DiffSchema\<close>, \<open>DiffOperation\<close>, \<open>DiffRun\<close>: diff/engine.py. The
    engine's state is the record \<open>engine\<close> (changes and counters); every method \<open>_diff_x\<close> is
    \<open>diff_x\<close>, split where the method has blocks; \<open>_add\<close> is \<open>add_change\<close>; \<open>run\<close> is \<open>run\<close>.
    \<open>_diff_schema\<close> recurses on the old schema, whose size is the termination measure.
  \<^item> \<open>Breaking\<close>: rules/breaking.py, the catalog and \<open>BreakingEngine\<close>; \<open>_evaluate_change\<close> is
    \<open>evaluate_change\<close> with its branches in the order of the code.
  \<^item> \<open>Canonical\<close>: core/canonical.py. The merge of branches shares nodes in the code; the model
    carries the paths at which a node was adopted and \<open>write_back\<close> replays the sharing.
  \<^item> \<open>DiffServices\<close>: \<open>diff_services\<close> and the gate's exit code (cli/commands/governance.py).
  \<^item> \<open>Compat\<close>: diff/compat.py and diff/protocol_compat.py, each analysis the list it appends.
  \<^item> \<open>Suppressions\<close>, \<open>Consumers\<close>, \<open>Semver\<close>, \<open>Migration\<close>: the modules of these names in rules/. A day is
    its ordinal, a file the document its parser yields; \<open>packaging.version\<close> is \<open>version_lib\<close>.
  \<^item> \<open>ProjectConfig\<close>: core/config.py, rules/profiles.py and the settings of cli/commands/common.py.
  \<^item> \<open>Gate\<close>: the command \<open>breaking\<close> (\<open>cmd_breaking\<close>, cli/commands/governance.py) as a chain of stages
    on the findings; what it reads from outside is the record \<open>gate_env\<close>, an early exit is \<open>Inl\<close>.
  \<^item> \<open>OpenApiSchema\<close>, \<open>OpenApi\<close>: specs/openapi/parser.py from the JSON value of a document to the
    contract and its findings. A method answers a value with the findings it adds or a
    \<open>load_error\<close>; \<open>fuel\<close> is the number of nested calls of \<open>to_schema\<close> that Python's recursion limit
    leaves; \<open>specs/bundle.py\<close> is the parameter \<open>bundle\<close>.
  \<^item> \<open>Floats\<close>, \<open>Validation\<close>: core/validation.py; the regular expression engine is the parameter
    \<open>search\<close>, binary64 is computed on integers where \<open>multipleOf\<close> divides.
  \<^item> \<open>Infer\<close>, \<open>InferDocument\<close>: specs/infer.py, the description of bodies and their schema; path
    templates, operations and the document. A recorded request is what the code reads of its
    dict; \<open>urlparse\<close> is \<open>url_path\<close>. Renaming a parameter needs as many steps as names are taken.
  \<^item> \<open>Redaction\<close>, \<open>Pii\<close>: traffic/redact.py and security/pii.py; \<open>re.sub\<close>, \<open>json.loads\<close> and the
    matches of a pattern are parameters. \<open>Capture\<close>: traffic/capture.py, the state of a recording as
    the record \<open>capture\<close>, one proxied request as \<open>proxy\<close>. \<open>Replay\<close>: traffic/safety.py,
    traffic/replay.py and the command \<open>replay\<close> of cli/commands/runtime.py.
  \<^item> \<open>AuditLog\<close>: server/audit_export.py; \<open>verify_chain\<close>, \<open>build_export\<close>, \<open>verify_export\<close>.
  \<^item> \<open>ServerStore\<close>: server/store.py with the tables of server/schema.py and server/freeze.py; a
    table is the list of its rows with the counter of \<open>AUTOINCREMENT\<close>, a method a function on
    the record \<open>store\<close>. One method call is one step: what two threads do between the statements
    of one method is outside, except that the audit log is written under the lock of the code.
  \<^item> \<open>ServerDirectory\<close>: the rest of server/store.py, organisations, users, environments, policies,
    webhooks, workers, and the snapshots \<open>export_org\<close> and \<open>import_org\<close>.
  \<^item> \<open>JobQueue\<close>: server/jobs.py, calls as the datatype \<open>queue_event\<close> and \<open>queue_act\<close>.
  \<^item> \<open>Deploy\<close>: server/decision.py, authentication and permissions of server/auth.py.
  \<^item> \<open>Handlers\<close>: the routes of server/api.py that write, up to the status they answer; a request
    is a value of the datatype \<open>request\<close>, \<open>handle\<close> its effect on the store.
  \<^item> \<open>Workflows\<close>, \<open>WorkflowRun\<close>, \<open>StepCycles\<close>: stateful/models.py, graph.py and engine.py. The
    HTTP client is the parameter \<open>exchange\<close>; requests sent so far are the state of a run.
    \<open>has_cycle\<close> has as fuel the number of steps, as many as can be white.
  \<^item> \<open>CallBudget\<close>: rules/budget.py; \<open>date_lib\<close> is \<open>datetime\<close>'s parser and printer. The inner loop of
    \<open>busiest_window\<close> is \<open>advance\<close>, the outer one \<open>scan\<close>.

  \<^bold>\<open>What the lemmas show.\<close> \<open>DiffSchemaFacts\<close> and \<open>DiffRunFacts\<close>: every step only appends
  changes and can raise only a \<open>TypeError\<close> (\<open>emitter\<close>), and what kinds of change it appends.
  \<open>DiffIdentity\<close>: a contract does not differ from itself; the order of operations is
  immaterial. \<open>DiffReach\<close>: which comparisons a run reaches, so that a difference at any depth
  is found in the result. \<open>ChangeIds\<close>: identifiers are distinct and stable, through the
  locales \<open>id_scheme\<close> and \<open>dashless\<close>, interpreted on the engine's own scheme.
  \<open>BreakingFacts\<close>: evaluation is total and stays in the catalog. \<open>Verdicts\<close>: the verdict on
  a bound is inclusion of the accepted sets, and the attribute is recovered from the message.
  \<open>CanonicalFacts\<close>: canonicalization keeps what bounds admit, or reports that it cannot.
  \<open>OpenApiFacts\<close>: which schemas are read and which never are; \<open>OpenApiReads\<close>: what holds of all
  schemas the reader returns holds of the loaded contract (the locale \<open>schema_reader\<close>, interpreted
  on \<open>to_schema\<close>). \<open>PyEq\<close>: Python's equality is an equivalence. \<open>ValidationFacts\<close>: schemas whose
  parts accept the same values do so too (the locale \<open>same_verdicts\<close>); \<open>SilentDiff\<close>: a comparison
  that records nothing leaves the accepted values unchanged, and under which conditions;
  \<open>BlindSpots\<close>: what the differ does not compare, and edits it does not see.
  \<open>InferFacts\<close>: what the loader reads from an inferred schema accepts the samples; \<open>InferReads\<close>:
  and so does the contract loaded from an inferred document, whatever else was recorded;
  \<open>InferLimits\<close>: which samples an inferred schema does not accept.
  \<open>RedactionFacts\<close> and \<open>CaptureFacts\<close>: recordings that differ in secrets only are imported
  and recorded alike, and URLs are imported as they are; how many exchanges a recording keeps; whom the proxy asks. \<open>Pii\<close>: a card
  number with one digit changed fails its checksum. \<open>ReplayFacts\<close>: the gate decides exactly
  whether a corpus is \<open>cleared\<close>, only a cleared one is sent, and every other corpus that is
  cleared by the same arguments is sent as well.
  \<open>Gate\<close>: a stage that takes away no error without an excuse is the locale \<open>gate_stage\<close>; two in a
  row are one (\<open>stage_pair\<close>), and it is interpreted on every stage of the command, so that an error
  can be followed to the exit code. \<open>GateFacts\<close>: accepted configurations are well typed, a
  contract is compatible with itself. \<open>RequestBodies\<close>: the path of request body changes to their rules. \<open>StoreFacts\<close>: the
  steps and reachable states of the store; chains stay valid, freezes unique, the log only
  grows, so that exports verify against earlier ones. \<open>QueueFacts\<close>: order of service,
  idempotency keys, completion; the limit is the locale \<open>load_limited\<close>, interpreted on the
  queue. \<open>SnapshotFacts\<close>: constraints of the tables and the restoration of an organisation.
  \<open>Tenants\<close>: which routes leave other organisations alone, and that every request is a
  sequence of steps of the store. \<open>WorkflowRun\<close>: what a run sends and which variables are bound
  when. \<open>StepCycles\<close>: the search finds exactly the cycles. \<open>BudgetFacts\<close>: two pointers find the
  busiest of all windows, and what a verdict says about the calls. \<open>Remarks\<close>: further verdicts. The theories
  named \<open>Samples\<close>: the small contracts, stores and workflows on which the properties are applied.

  \<^bold>\<open>Outside the model.\<close> \<open>model_dump_json\<close> of pydantic is the parameter \<open>json_dumps\<close>; JSON text of
  the server, the clock, \<open>hmac\<close>, dates, host names and versions are parameters too. Not
  modelled: the loaders of the other specification languages, YAML and bundling, the fuzzing,
  runtime, mock and performance engines, reports and exporters, HTTP
  routing and webhooks of the server, the socket server of the recording proxy, auth profiles, the options \<open>--sdk\<close> and \<open>--suggest-fix\<close> and the printing of
  the command \<open>breaking\<close>, the other commands, and the plug-in machinery.
\<close>

section \<open>The gate\<close>

text \<open>
  C1. When the command \<open>breaking\<close> exits with 0 although an operation disappeared, somebody said
  so: the threshold is \<open>never\<close>, an override lowers the rule, a justified and unexpired
  suppression covers the operation, or a registry that declares itself complete lists nobody
  who calls it and the command was asked to lower severities by it. Nothing else in the chain
  of differ, rules, guides, suppressions, registry and version policy loses the finding.
\<close>

theorem passing_gate_explains_removals:
  assumes "cmd_breaking env cfg args old new = Inr (findings, EXIT_OK)"
    and "k \<in> set (operation_keys old)" and "k \<notin> set (operation_keys new)"
  shows "fail_on_threshold (ba_profile args) cfg = Inr ''never''
    \<or> (\<exists>ovr. merged_severity_overrides (ba_profile args) cfg (cli_overrides (ba_severity_override args)) = Inr ovr
        \<and> (lowers_error ovr ''BRK-OP-REMOVED'' \<or> lowers_error ovr ''BRK-RPC-REMOVED''))
    \<or> (\<exists>r \<in> {''BRK-OP-REMOVED'', ''BRK-RPC-REMOVED''}. \<exists>c ss s. project_suppressions env cfg = Inr (Some (c, ss)) \<and> s \<in> set ss
        \<and> entry_covers s r (Some k)
        \<and> justified (ge_dates env) (ge_today env) (suppression_days c) (cf_suppression_require_approver c) s)
    \<or> (ba_severity_by_consumers args \<and> (\<exists>reg. read_registry env args = Inr (Some reg) \<and> rg_complete reg \<and> consumers_of reg k = []))"
proof (rule ccontr)
  assume unexcused: "\<not> ?thesis"
  obtain ovr where ovr: "merged_severity_overrides (ba_profile args) cfg (cli_overrides (ba_severity_override args)) = Inr ovr"
    using cmd_breaking_stages [OF assms(1)] by blast
  have "EXIT_OK = EXIT_FINDINGS"
    by (rule unexcused_removal_fails [OF assms ovr])
      (use unexcused ovr in \<open>auto simp: suppression_excuse_def registry_excuse_def\<close>)
  then show False by (simp add: EXIT_OK_def EXIT_FINDINGS_def)
qed

theorem passing_gate_explains_removals_witness:
  "fail_on_threshold (ba_profile advisory_args) None = Inr ''never''
    \<or> (\<exists>ovr. merged_severity_overrides (ba_profile advisory_args) None (cli_overrides (ba_severity_override advisory_args)) = Inr ovr
        \<and> (lowers_error ovr ''BRK-OP-REMOVED'' \<or> lowers_error ovr ''BRK-RPC-REMOVED''))
    \<or> (\<exists>r \<in> {''BRK-OP-REMOVED'', ''BRK-RPC-REMOVED''}. \<exists>c ss s. project_suppressions sample_env None = Inr (Some (c, ss)) \<and> s \<in> set ss
        \<and> entry_covers s r (Some ''GET /items'')
        \<and> justified (ge_dates sample_env) (ge_today sample_env) (suppression_days c) (cf_suppression_require_approver c) s)
    \<or> (ba_severity_by_consumers advisory_args \<and> (\<exists>reg. read_registry sample_env advisory_args = Inr (Some reg) \<and> rg_complete reg
        \<and> consumers_of reg ''GET /items'' = []))"
proof -
  let ?old = "http_service [bare_items]" and ?new = "http_service []"
  have "calm_service (fst (canonicalize_service ?old))" "calm_service (fst (canonicalize_service ?new))" by code_simp+
  from run_calm [OF this] obtain cs where cs: "diff_services (ge_dumps sample_env) ?old ?new True = Inr cs"
    by (auto simp: diff_services_def)
  obtain findings where run: "cmd_breaking sample_env None advisory_args ?old ?new = Inr (findings, EXIT_OK)"
    using advisory_run [OF cs] by (auto simp: http_service_def)
  have "''GET /items'' \<in> set (operation_keys ?old)" "''GET /items'' \<notin> set (operation_keys ?new)" by code_simp+
  from passing_gate_explains_removals [OF run this] show ?thesis .
qed

text \<open>
  C2. An operation of the old contract that is missing from the new one always ends in a
  finding of severity ERROR for that operation, whether or not the contracts are
  canonicalized first, and the gate then fails at every threshold but \<open>never\<close>.
\<close>

theorem removed_operation_fails_gate:
  assumes "diff_services dumps old new canonical = Inr cs"
    and "k \<in> set (operation_keys old)" and "k \<notin> set (operation_keys new)"
  shows "\<exists>fs. evaluate_breaking cs None = Inr fs
    \<and> (\<exists>f \<in> set fs. f_rule_id f \<in> {''BRK-OP-REMOVED'', ''BRK-RPC-REMOVED''} \<and> f_severity f = ERROR
          \<and> f_operation_key f = Some k)
    \<and> (\<forall>floor. exit_for floor fs = (if floor = ''never'' then EXIT_OK else EXIT_FINDINGS))"
proof -
  obtain old' new' where run: "run dumps old' new' = Inr cs"
    and keys: "operation_keys old' = operation_keys old" "operation_keys new' = operation_keys new"
    using diff_services_run [OF assms(1)] by blast
  obtain c where c: "c \<in> set cs" "removal_kind (c_kind c)" "c_operation_key c = k"
    using run_reports_removed [OF run] assms(2,3) keys by metis
  let ?r = "if c_kind c = RPC_REMOVED then ''BRK-RPC-REMOVED'' else ''BRK-OP-REMOVED''"
  have "map_of catalog_severities ?r = Some ERROR" by (simp add: catalog_default_severities)
  from finding_of_change [OF run c(1) evaluate_removed_operation [OF c(2)] this]
  obtain fs f where "evaluate_breaking cs None = Inr fs" "f \<in> set fs" "f_rule_id f = ?r"
    "f_severity f = ERROR" "f_operation_key f = Some k" using c(3) by auto
  then show ?thesis by (auto simp: gate_fails intro!: exI [of _ fs] bexI [of _ f])
qed

theorem removed_operation_fails_gate_witness:
  "\<exists>cs. diff_services sample_dumps (http_service [get_items []]) (http_service []) False = Inr cs
    \<and> (\<exists>fs. evaluate_breaking cs None = Inr fs
      \<and> (\<exists>f \<in> set fs. f_rule_id f \<in> {''BRK-OP-REMOVED'', ''BRK-RPC-REMOVED''} \<and> f_severity f = ERROR
            \<and> f_operation_key f = Some ''GET /items'')
      \<and> (\<forall>floor. exit_for floor fs = (if floor = ''never'' then EXIT_OK else EXIT_FINDINGS)))"
proof -
  have "calm_service (http_service [get_items []])" "calm_service (http_service [])" by code_simp+
  then obtain cs where "diff_services sample_dumps (http_service [get_items []]) (http_service []) False = Inr cs"
    using run_calm unfolding diff_services_def by (metis (full_types))
  moreover have "''GET /items'' \<in> set (operation_keys (http_service [get_items []]))"
    "''GET /items'' \<notin> set (operation_keys (http_service []))" by code_simp+
  ultimately show ?thesis using removed_operation_fails_gate by blast
qed

text \<open>
  C3. A field of a JSON response that the new contract no longer declares, below any chain of
  object properties, is reported as \<open>BRK-RESP-FIELD-REMOVED\<close> with severity ERROR and a
  message that names its path. (The side condition excludes messages that quote the wording
  of another rule, which the engine recognises by its text.)
\<close>

theorem removed_response_field_is_error:
  assumes "run dumps old new = Inr cs"
    and "dict_get (operations_by_key old) k = Some o_op" and "dict_get (operations_by_key new) k = Some n_op"
    and "dict_get (index_responses o_op) status = Some r_old" and "dict_get (index_responses n_op) status = Some r_new"
    and "dict_get (rs_content r_old) media = Some o_schema" and "dict_get (rs_content r_new) media = Some n_schema"
    and "at_path ps o_schema = Some o_node" and "at_path ps n_schema = Some n_node"
    and "f \<in> set (keys (properties o_node))" and "f \<notin> set (keys (properties n_node))"
    and "message = ''response '' @ status @ '' body ('' @ media @ '')'' @ dotted ps
          @ '': field '' @ quoted f @ '' was removed''"
    and "\<not> contains ''without reserving its number'' message"
  shows "\<exists>fs. evaluate_breaking cs None = Inr fs \<and> (\<exists>g \<in> set fs. f_rule_id g = ''BRK-RESP-FIELD-REMOVED''
    \<and> f_severity g = ERROR \<and> f_operation_key g = Some k \<and> f_message g = message)"
proof -
  obtain c where c: "c \<in> set cs" "c_kind c = RESPONSE_SCHEMA_CHANGED" "c_operation_key c = k"
    "c_description c = (''response '' @ status @ '' body ('' @ media @ '')'' @ dotted ps)
        @ '': field '' @ quoted f @ '' was removed''"
    using run_reports_removed_response_field [OF assms(1-11)] by auto
  have "evaluate_change eng c = report eng c ''BRK-RESP-FIELD-REMOVED''" for eng
    using assms(12,13) c(4) by (intro evaluate_removed_response_field [OF c(2,4)]) simp
  from finding_of_change [OF assms(1) c(1) this catalog_default_severities(3)] c(3,4) assms(12)
  show ?thesis by simp
qed

theorem removed_response_field_is_error_witness:
  "\<exists>cs fs. run sample_dumps (http_service [get_items [''id'', ''name'']]) (http_service [get_items [''id'']]) = Inr cs
    \<and> evaluate_breaking cs None = Inr fs \<and> (\<exists>g \<in> set fs. f_rule_id g = ''BRK-RESP-FIELD-REMOVED''
    \<and> f_severity g = ERROR \<and> f_operation_key g = Some ''GET /items''
    \<and> f_message g = ''response 200 body (application/json).item: field '' @ quoted ''name'' @ '' was removed'')"
proof -
  let ?old = "http_service [get_items [''id'', ''name'']]" and ?new = "http_service [get_items [''id'']]"
  have "calm_service ?old" "calm_service ?new" by code_simp+
  then obtain cs where cs: "run sample_dumps ?old ?new = Inr cs" using run_calm by blast
  have ops: "dict_get (operations_by_key ?old) ''GET /items'' = Some (get_items [''id'', ''name''])"
    "dict_get (operations_by_key ?new) ''GET /items'' = Some (get_items [''id''])" by code_simp+
  have rs: "dict_get (index_responses (get_items [''id'', ''name''])) ''200'' = Some (item_response [''id'', ''name''])"
    "dict_get (index_responses (get_items [''id''])) ''200'' = Some (item_response [''id''])" by code_simp+
  let ?obj = "\<lambda>names. object_node (map (\<lambda>f. (f, text_node)) names)"
  have media: "dict_get (rs_content (item_response names)) ''application/json'' = Some (object_node [(''item'', ?obj names)])"
    for names by (simp add: item_response_def json_response_def)
  have path: "at_path [''item''] (object_node [(''item'', ?obj names)]) = Some (?obj names)" for names
    by (simp add: object_node_def with_parts_def)
  have field: "''name'' \<in> set (keys (properties (?obj [''id'', ''name''])))" "''name'' \<notin> set (keys (properties (?obj [''id''])))"
    by code_simp+
  have "\<not> contains ''without reserving its number''
      (''response '' @ ''200'' @ '' body ('' @ ''application/json'' @ '')'' @ dotted [''item'']
        @ '': field '' @ quoted ''name'' @ '' was removed'')" by code_simp
  from removed_response_field_is_error [OF cs ops rs media media path path field refl this] cs
  show ?thesis by (auto simp: dotted_def)
qed

text \<open>
  C4. When a numeric bound of a request field admits strictly fewer values than before
  (a higher minimum, a lower maximum, a bound that appeared), the change is reported as
  \<open>BRK-CONSTRAINT-TIGHTENED\<close> with severity ERROR: the attribute is recovered from the
  differ's message and the verdict agrees with the inclusion of the accepted sets.
\<close>

theorem tightened_request_bound_is_error:
  assumes "run dumps old new = Inr cs"
    and "dict_get (operations_by_key old) k = Some o_op" and "dict_get (operations_by_key new) k = Some n_op"
    and "payload_direction_of n_op = ''request''"
    and "op_request_body o_op = Some b_old" and "op_request_body n_op = Some b_new"
    and "dict_get (rb_content b_old) media = Some o_schema" and "dict_get (rb_content b_new) media = Some n_schema"
    and "at_path ps o_schema = Some o_node" and "at_path ps n_schema = Some n_node"
    and "attr \<in> set range_attrs"
    and "accepted attr (constraint_value attr (facts n_node)) \<subset> accepted attr (constraint_value attr (facts o_node))"
    and "clean_label (''request body ('' @ media @ '')'' @ dotted ps)"
  shows "\<exists>fs. evaluate_breaking cs None = Inr fs \<and> (\<exists>g \<in> set fs. f_rule_id g = ''BRK-CONSTRAINT-TIGHTENED''
    \<and> f_severity g = ERROR \<and> f_operation_key g = Some k)"
proof -
  have "own_bound attr (facts n_node) \<subset> own_bound attr (facts o_node)" using assms(12) by (simp add: own_bound_def)
  from run_reports_tightened_bound [OF assms(1,11) reaches_request_node [OF assms(2-10)] this]
  obtain c where c: "c \<in> set cs" "c_operation_key c = k"
    "evaluate_change \<lparr>overrides = []\<rparr> c = report \<lparr>overrides = []\<rparr> c ''BRK-CONSTRAINT-TIGHTENED''"
    using assms(13) by auto
  from finding_of_change [OF assms(1) c(1,3) catalog_default_severities(5)] c(2) show ?thesis by auto
qed

theorem tightened_request_bound_is_error_witness:
  "\<exists>cs fs. run sample_dumps (http_service [post_items [(''name'', bounded_text None)]])
      (http_service [post_items [(''name'', bounded_text (Some 64))]]) = Inr cs
    \<and> evaluate_breaking cs None = Inr fs \<and> (\<exists>g \<in> set fs. f_rule_id g = ''BRK-CONSTRAINT-TIGHTENED''
    \<and> f_severity g = ERROR \<and> f_operation_key g = Some ''POST /items'')"
proof -
  let ?props = "\<lambda>b. [(''name'', bounded_text b)]"
  have "calm_service (http_service [post_items (?props None)])" "calm_service (http_service [post_items (?props (Some 64))])"
    by code_simp+
  then obtain cs where cs: "run sample_dumps (http_service [post_items (?props None)])
      (http_service [post_items (?props (Some 64))]) = Inr cs" using run_calm by blast
  note ops = post_items_indexed and body = post_items_body
  have path: "at_path [''item'', ''name''] (object_node [(''item'', object_node (?props b))]) = Some (bounded_text b)" for b
    by (simp add: object_node_def with_parts_def)
  have attr: "''max_length'' \<in> set range_attrs" by (simp add: range_attrs_eq)
  have "constraint_value ''max_length'' (facts (bounded_text None)) = PNone"
    "constraint_value ''max_length'' (facts (bounded_text (Some 64))) = PInt 64" by code_simp+
  moreover have "accepted ''max_length'' (PInt 64) \<subset> UNIV"
    using half_lines_proper(3) [of "int_num 64"] by (simp add: accepted_def num_of_def bound_accepts_cases)
  ultimately have shrinks: "accepted ''max_length'' (constraint_value ''max_length'' (facts (bounded_text (Some 64))))
      \<subset> accepted ''max_length'' (constraint_value ''max_length'' (facts (bounded_text None)))"
    by (simp add: accepted_unbounded)
  have "clean_label (''request body ('' @ ''application/json'' @ '')'' @ dotted [''item'', ''name''])" by code_simp
  from tightened_request_bound_is_error [OF cs ops ops body(1) body(2) body(2) body(3) body(3) path path attr shrinks this] cs
  show ?thesis by auto
qed

section \<open>The differ\<close>

text \<open>
  C5. The operations reported as removed are exactly those whose key the new contract lacks,
  the operations reported as added exactly those whose key the old one lacks; with or
  without canonicalization.
\<close>

theorem removed_and_added_exactly:
  assumes "diff_services dumps old new canonical = Inr cs"
  shows "c_operation_key ` {c \<in> set cs. c_kind c \<in> {OPERATION_REMOVED, RPC_REMOVED}}
      = set (operation_keys old) - set (operation_keys new)
    \<and> c_operation_key ` {c \<in> set cs. c_kind c \<in> {OPERATION_ADDED, RPC_ADDED}}
      = set (operation_keys new) - set (operation_keys old)"
proof -
  obtain old' new' where run: "run dumps old' new' = Inr cs"
    and keys: "operation_keys old' = operation_keys old" "operation_keys new' = operation_keys new"
    using diff_services_run [OF assms] by blast
  from run_removed_keys [OF run] run_added_keys [OF run] keys
  show ?thesis by (simp add: removal_kind_def addition_kind_def)
qed

theorem removed_and_added_exactly_witness:
  "\<exists>cs. diff_services sample_dumps (http_service [get_items []]) (http_service [post_items []]) False = Inr cs
    \<and> c_operation_key ` {c \<in> set cs. c_kind c \<in> {OPERATION_REMOVED, RPC_REMOVED}} = {''GET /items''}
    \<and> c_operation_key ` {c \<in> set cs. c_kind c \<in> {OPERATION_ADDED, RPC_ADDED}} = {''POST /items''}"
proof -
  have "calm_service (http_service [get_items []])" "calm_service (http_service [post_items []])" by code_simp+
  then obtain cs where cs: "diff_services sample_dumps (http_service [get_items []]) (http_service [post_items []]) False = Inr cs"
    using run_calm unfolding diff_services_def by (metis (full_types))
  have "operation_keys (http_service [get_items []]) = [''GET /items'']"
    "operation_keys (http_service [post_items []]) = [''POST /items'']" by code_simp+
  with removed_and_added_exactly [OF cs] cs show ?thesis by auto
qed

text \<open>
  C6. The identifiers of the changes of one run are pairwise distinct. Nothing is assumed
  about collisions of the truncated operation hash: colliding operations share a counter.
\<close>

theorem change_ids_distinct:
  assumes "run dumps old new = Inr cs"
  shows "distinct (map c_id cs)"
  by (rule run_ids_distinct [OF assms])

theorem change_ids_distinct_witness:
  "\<exists>cs. run sample_dumps (http_service [get_items [''id''], post_items []]) (http_service []) = Inr cs
    \<and> distinct (map c_id cs)"
proof -
  have "calm_service (http_service [get_items [''id''], post_items []])" "calm_service (http_service [])" by code_simp+
  then obtain cs where "run sample_dumps (http_service [get_items [''id''], post_items []]) (http_service []) = Inr cs"
    using run_calm by blast
  with change_ids_distinct show ?thesis by blast
qed

text \<open>
  C7. A run returns: when the members of every enum are all numbers or all strings and every
  discriminator mapping is a dict, no comparison raises.
\<close>

theorem run_returns:
  assumes "calm_service old" and "calm_service new"
  shows "\<exists>cs. run dumps old new = Inr cs"
  by (rule run_calm [OF assms])

theorem run_returns_witness:
  "\<exists>cs. run sample_dumps (http_service [get_items [''id'']]) (http_service [post_items [(''id'', text_node)]]) = Inr cs"
proof -
  have "calm_service (http_service [get_items [''id'']])" "calm_service (http_service [post_items [(''id'', text_node)]])"
    by code_simp+
  then show ?thesis by (rule run_returns)
qed

text \<open>
  C8. The order in which a document lists its operations does not matter to the differ
  (MCP manifests, whose rename detection walks the list, are left out).
\<close>

theorem operation_order_irrelevant:
  assumes "mset ops = mset (svc_operations old)" and "distinct (operation_keys old)"
    and "mset ops' = mset (svc_operations new)" and "distinct (operation_keys new)"
    and "svc_protocol old \<noteq> MCP" and "svc_protocol new \<noteq> MCP"
  shows "run dumps (old\<lparr>svc_operations := ops\<rparr>) (new\<lparr>svc_operations := ops'\<rparr>) = run dumps old new"
  using assms(5,6)
  by (simp add: run_def run_steps_def diff_operations_permuted [OF assms(1-4)] diff_service_facts_def)

theorem operation_order_irrelevant_witness:
  "run sample_dumps (http_service [get_items [''id''], post_items []]) (http_service [post_items []])
   = run sample_dumps (http_service [post_items [], get_items [''id'']]) (http_service [post_items []])"
proof -
  let ?old = "http_service [post_items [], get_items [''id'']]" and ?new = "http_service [post_items []]"
  have "distinct (operation_keys ?old)" "distinct (operation_keys ?new)" by code_simp+
  moreover have "mset [get_items [''id''], post_items []] = mset (svc_operations ?old)"
    "mset (svc_operations ?new) = mset (svc_operations ?new)"
    "svc_protocol ?old \<noteq> MCP" "svc_protocol ?new \<noteq> MCP" by (simp_all add: http_service_def)
  ultimately have "run sample_dumps (?old\<lparr>svc_operations := [get_items [''id''], post_items []]\<rparr>)
      (?new\<lparr>svc_operations := svc_operations ?new\<rparr>) = run sample_dumps ?old ?new"
    by (intro operation_order_irrelevant)
  then show ?thesis by (simp add: http_service_def)
qed

section \<open>The rules\<close>

text \<open>
  C9. The gate is total on what the differ produces: every change set of a run is evaluated
  without an exception, to at most one finding per change, each under a rule of the catalog,
  with the severity the configuration gives that rule or else the catalog's, and each naming
  a change of the run whose description it repeats.
\<close>

theorem every_run_is_classified:
  assumes "run dumps old new = Inr cs"
  shows "\<exists>fs. evaluate eng cs = Inr fs \<and> length fs \<le> length cs \<and> (\<forall>f \<in> set fs.
    (\<exists>spec. dict_get CATALOG (f_rule_id f) = Some spec
        \<and> f_severity f = dict_get_or (overrides eng) (f_rule_id f) (ru_severity spec))
    \<and> (\<exists>c \<in> set cs. f_change_id f = Some (c_id c) \<and> f_message f = c_description c
        \<and> f_operation_key f = Some (c_operation_key c)))"
proof -
  obtain fs where fs: "evaluate eng cs = Inr fs" "length fs \<le> length cs"
    "\<forall>f \<in> set fs. known_rule (f_rule_id f) \<and> (\<exists>c \<in> set cs. finding_for eng c f)"
    using evaluate_succeeds [OF run_name_lists [OF assms]] by blast
  have "\<exists>spec. dict_get CATALOG (f_rule_id f) = Some spec
      \<and> f_severity f = dict_get_or (overrides eng) (f_rule_id f) (ru_severity spec)" if "f \<in> set fs" for f
    using fs(3) that by (auto simp: finding_for_def severity_for_def split: option.splits)
  with fs show ?thesis by (auto simp: finding_for_def intro!: exI [of _ fs])
qed

theorem every_run_is_classified_witness:
  "\<exists>cs fs. run sample_dumps (http_service [get_items [''id''], post_items []]) (http_service [post_items []]) = Inr cs
    \<and> evaluate \<lparr>overrides = [(''BRK-OP-REMOVED'', WARN)]\<rparr> cs = Inr fs \<and> length fs \<le> length cs"
proof -
  have "calm_service (http_service [get_items [''id''], post_items []])" "calm_service (http_service [post_items []])"
    by code_simp+
  then obtain cs where "run sample_dumps (http_service [get_items [''id''], post_items []]) (http_service [post_items []]) = Inr cs"
    using run_calm by blast
  with every_run_is_classified [of sample_dumps _ _ cs "\<lparr>overrides = [(''BRK-OP-REMOVED'', WARN)]\<rparr>"] show ?thesis by blast
qed

section \<open>Canonicalization\<close>

text \<open>
  C10. Canonicalization that reports nothing preserves meaning, as far as numeric bounds go: the
  canonical schema has no \<open>allOf\<close> left at its root and admits through each of its own bounds
  exactly the values that the original and all its \<open>allOf\<close> branches admitted, however deeply
  the document nests one \<open>allOf\<close> in another. \<open>oneOf\<close> and \<open>anyOf\<close> stay as they are.
\<close>

theorem canonical_schema_admits_the_same:
  assumes "canonicalize_schema s location fs = (n, fs)" and "attr \<in> set range_attrs"
  shows "list_or_empty (all_of n) = [] \<and> allowed attr n = allowed attr s"
  by (rule canonicalize_schema_allowed [OF assms])

theorem canonical_schema_admits_the_same_witness:
  "\<exists>n. canonicalize_schema (with_all_of (Some [bounded_text (Some 9), bounded_text (Some 5)]) (bounded_text (Some 7))) ''here'' []
      = (n, []) \<and> allowed ''max_length'' n
      = allowed ''max_length'' (with_all_of (Some [bounded_text (Some 9), bounded_text (Some 5)]) (bounded_text (Some 7)))"
proof -
  let ?s = "with_all_of (Some [bounded_text (Some 9), bounded_text (Some 5)]) (bounded_text (Some 7))"
  have "list_all (\<lambda>c. sub_schemas c = []) (sub_schemas ?s)" by code_simp
  note nested = canonicalize_nested [OF this, of "''here''" "[]"]
  have "snd (canonicalize_schema ?s ''here'' []) = []" unfolding nested by code_simp
  then have run: "canonicalize_schema ?s ''here'' [] = (fst (canonicalize_schema ?s ''here'' []), [])"
    by (metis prod.collapse)
  moreover have "''max_length'' \<in> set range_attrs" by (simp add: range_attrs_eq)
  ultimately show ?thesis using canonical_schema_admits_the_same by blast
qed

section \<open>Values, silent differences, loaded and inferred documents\<close>

text \<open>
  C11. Silence means the same language: when a run reports no change for an operation, every
  pair of schemas that its two versions share accepts the same values, with the same verdict
  of the validator (valid, invalid or the exception it raises) on every value, under any
  regular expression engine. The schemas must be alike in the keywords the differ never
  compares, which the next property shows to be necessary.
\<close>

theorem unreported_operations_keep_their_language:
  assumes "run dumps old new = Inr cs" and "\<forall>c \<in> set cs. c_operation_key c \<noteq> k"
    and "dict_get (operations_by_key old) k = Some o_op" and "dict_get (operations_by_key new) k = Some n_op"
    and "(a, b) \<in> set (shared_requests o_op n_op @ shared_responses o_op n_op)" and "alike a b"
  shows "verdict (validate_value search False (Some a) v p) = verdict (validate_value search False (Some b) v p)"
  using unreported_operation_bodies [OF assms] by (simp add: validate_value_def same_language_def)

theorem unreported_operations_keep_their_language_witness:
  "verdict (validate_value no_patterns False (Some (reworded (Some ''The name''))) (PDict []) ''$'')
   = verdict (validate_value no_patterns False (Some (reworded None)) (PDict []) ''$'')"
proof (rule unreported_operations_keep_their_language [OF reworded_run [of sample_dumps "Some ''The name''" None], where k = "''GET /items''"])
  let ?op = "\<lambda>u. http_operation ''get'' ''/items'' None [json_response (reworded u)]"
  show "dict_get (operations_by_key (reworded_service (Some ''The name''))) ''GET /items'' = Some (?op (Some ''The name''))"
    by code_simp
  show "dict_get (operations_by_key (reworded_service None)) ''GET /items'' = Some (?op None)" by code_simp
  show "(reworded (Some ''The name''), reworded None)
      \<in> set (shared_requests (?op (Some ''The name'')) (?op None) @ shared_responses (?op (Some ''The name'')) (?op None))"
    by code_simp
  show "alike (reworded (Some ''The name'')) (reworded None)" by code_simp
qed simp

text \<open>
  C12. Edits the differ does not see. A well-formed schema accepts a value; its new version
  forbids undeclared fields of which the value has one, or requires a further field that is no
  declared property and that the value lacks, or constrains members that were free by a schema
  that one of them fails, or changes the number of variants so that none of them fits
  (\<open>blind_edit\<close>). Then the comparison records nothing, in whatever direction and wherever in a
  document it takes place, and the value is rejected from now on.
\<close>

theorem silent_diff_misses_constraints:
  assumes "wf_schema old" and "blind_edit search v old new"
    and "validate_value search False (Some old) v p = Inr []"
  shows "diff_schema k w d old new path engine = Inr engine
    \<and> verdict (validate_value search False (Some new) v p) = Some False"
  using blind_edit_silent [OF assms(1,2)] blind_edit_rejects [OF assms(2,3)] by (simp add: skip_def)

theorem silent_diff_misses_constraints_witness:
  "list_all (\<lambda>(old, new, v).
     diff_schema ''GET /x'' ''response 200 body'' ''response'' old new [] init_engine = Inr init_engine
     \<and> verdict (validate_value no_patterns False (Some new) v ''$'') = Some False)
   [(closed_object AddlNone, set_additional (AddlBool False) (closed_object AddlNone), PDict [(''id'', PInt 1)]),
    (closed_object AddlNone, set_required [''id''] (closed_object AddlNone), PDict []),
    (array_of None, set_items (Some text_node) (array_of None), PList [PInt 1]),
    (one_of_types [''string'', ''integer''],
      set_one_of (Some [leaf (empty_facts\<lparr>sn_type := Some ''string''\<rparr>)]) (one_of_types [''string'', ''integer'']), PInt 1)]"
proof -
  have wf: "wf_schema (closed_object AddlNone)" "wf_schema (array_of None)"
    "wf_schema (one_of_types [''string'', ''integer''])"
    by code_simp+
  have ok: "validate_value no_patterns False (Some (closed_object AddlNone)) (PDict [(''id'', PInt 1)]) ''$'' = Inr []"
    "validate_value no_patterns False (Some (closed_object AddlNone)) (PDict []) ''$'' = Inr []"
    "validate_value no_patterns False (Some (array_of None)) (PList [PInt 1]) ''$'' = Inr []"
    "validate_value no_patterns False (Some (one_of_types [''string'', ''integer''])) (PInt 1) ''$'' = Inr []"
    by code_simp+
  show ?thesis
    by (simp add: silent_diff_misses_constraints [OF wf(1) sample_edits(1) ok(1)]
        silent_diff_misses_constraints [OF wf(1) sample_edits(2) ok(2)]
        silent_diff_misses_constraints [OF wf(2) sample_edits(3) ok(3)]
        silent_diff_misses_constraints [OF wf(3) sample_edits(4) ok(4)])
qed

text \<open>
  C13. A recursive schema cannot be loaded: when the schema of some response unfolds, through
  references and sub-schemas, to one that unfolds to itself, the OpenAPI parser returns no
  contract at all, however high Python's recursion limit is. The guard in \<open>deref\<close> only sees a
  reference that leads to itself without a schema in between.
\<close>

theorem recursive_responses_never_load:
  assumes "served (PDict (bn_document (bundle raw))) (bn_document (bundle raw)) s"
    and "(unfolds (PDict (bn_document (bundle raw))))\<^sup>*\<^sup>* s n"
    and "(unfolds (PDict (bn_document (bundle raw))))\<^sup>+\<^sup>+ n n"
  shows "parse fuel label bundle raw \<noteq> Inr result"
proof (rule lost_never_loads)
  show "lost (to_schema fuel label (PDict (bn_document (bundle raw)))) s"
    by (rule unfolds_lost [OF assms(2) recursive_schema_lost [OF assms(3)]])
qed (rule assms(1))

theorem recursive_responses_never_load_witness:
  "case parse 1000 ''api.json'' no_files (document_of tree_node) of Inl e \<Rightarrow> True | Inr result \<Rightarrow> False"
  using recursive_responses_never_load [of no_files "document_of tree_node" node_ref node_ref]
  by (auto simp: no_files_def tree_served [unfolded tree_root_def] tree_recursive [unfolded tree_root_def] split: sum.split)

text \<open>
  C14. The other documents load within a limit computed from them: when the references can be
  ranked, so that each leads to references of smaller rank only, \<open>read_limit\<close> nested calls are
  enough, and the parser ends with a contract or an exception other than \<open>RecursionError\<close>.
\<close>

theorem ranked_documents_are_read:
  assumes "ranked rank (PDict (bn_document (bundle raw)))"
    and "read_limit rank (PDict (bn_document (bundle raw))) < fuel"
  shows "parse fuel label bundle raw \<noteq> Inl RecursionError"
  using parse_ends [where rank = rank and raw = raw] assms unfolding ends_def by blast

theorem ranked_documents_are_read_witness:
  "parse 36 ''api.json'' no_files (document_of leaf_node) \<noteq> Inl RecursionError"
  by (rule ranked_documents_are_read [of "\<lambda>_. 0"])
    (simp_all add: no_files_def leaf_ranked [unfolded leaf_root_def])

text \<open>
  C15. Whatever the OpenAPI parser returns satisfies what the differ relies on: compared with
  itself a loaded contract yields no change, whatever the document said, and no run on it can
  fail on a discriminator. It also carries no \<open>not\<close> anywhere in a body or a parameter, since
  the parser never reads that keyword.
\<close>

theorem loaded_contracts_compare_clean:
  assumes "parse fuel label bundle raw = Inr (svc, fs)"
  shows "run dumps svc svc = Inr []
    \<and> list_all (\<lambda>op. list_all plain_schema (operation_schemas op)) (svc_operations svc)"
  using run_self_iff [OF loaded_wf(1) [OF assms]] loaded_wf(2) [OF assms] loaded_service(2) [OF assms]
  by (simp add: list_all_iff)

theorem loaded_contracts_compare_clean_witness:
  "case parse 3 ''api.json'' no_files (document_of leaf_node) of
     Inl e \<Rightarrow> False | Inr (svc, fs) \<Rightarrow> run sample_dumps svc svc = Inr []"
  using leaf_loads loaded_contracts_compare_clean [of 3 "''api.json''" no_files "document_of leaf_node"]
  by (auto split: sum.splits)

text \<open>
  C16. Recorded responses are accepted: when the document that \<open>infer_document\<close> writes from a set
  of recorded exchanges without inferring enums is loaded, each usable exchange with a status and
  a response body finds, under its method, templated path and status, a response whose schema
  accepts the body without any error. All recorded methods must be ones the loader reads, bundling
  must leave the document as it is, the bodies must nest no deeper than the fuel, and the values
  recorded for this method, path and status must have been seen with a type other than null
  wherever they were seen at all; the next property shows that the last condition and the one on
  enums are needed. Request bodies are not inferred.
\<close>

theorem recorded_traffic_is_accepted:
  assumes "doc = infer_document search is_word url_path title version False noun entries"
    and "parse fuel label bundle doc = Inr (svc, fs)" and "bn_document (bundle doc) = doc"
    and "x \<in> set entries" and "usable x" and "xe_status x = Some s" and "xe_response_body x \<noteq> PNone"
    and "read_methods entries"
    and "\<forall>y \<in> set entries. proper_value (xe_response_body y) \<and> nesting (xe_response_body y) \<le> fuel"
    and "inferred_key search is_word url_path entries x = (m, template)"
    and "typed_everywhere (observed_from search (observed_bodies search is_word url_path entries (m, template) s))"
  shows "\<exists>op \<in> set (svc_operations svc). op_method op = Some m \<and> op_path op = Some template
    \<and> (\<exists>r \<in> set (op_responses op). rs_status r = int_str s \<and> (\<exists>n. (io_mime, n) \<in> set (rs_content r)
        \<and> validate_value search False (Some n) (xe_response_body x) p = Inr []))"
proof -
  obtain gs where "parse_service fuel label doc (sorted_set (bn_declared (bundle doc))) (bn_edges (bundle doc)) = Inr (svc, gs)"
    using assms(2,3) by (auto simp: parse_def Let_def bind_load_def split: sum.splits prod.splits)
  from recorded_body_accepted [OF this [unfolded assms(1)] assms(4-9), folded assms(1)] assms(10,11)
  show ?thesis by (simp add: assms(1))
qed

theorem recorded_traffic_is_accepted_witness:
  "\<exists>svc fs. parse 2 ''items.json'' no_files item_document = Inr (svc, fs)
    \<and> (\<exists>op \<in> set (svc_operations svc). op_method op = Some ''GET'' \<and> op_path op = Some ''/items/{itemId}''
    \<and> (\<exists>r \<in> set (op_responses op). rs_status r = int_str 200 \<and> (\<exists>n. (io_mime, n) \<in> set (rs_content r)
        \<and> validate_value digits_only False (Some n) (shop_body 2 (PStr ''old'')) ''$'' = Inr [])))"
proof -
  let ?x = "item_exchange 2 (PStr ''old'')"
  obtain svc fs where loaded: "parse 2 ''items.json'' no_files item_document = Inr (svc, fs)"
    using item_document_loads by (auto split: sum.splits)
  have x: "?x \<in> set item_traffic" "usable ?x" "xe_status ?x = Some 200" "xe_response_body ?x \<noteq> PNone"
    by (simp_all add: item_traffic_def item_exchange_def shop_body_def usable_def)
  have "read_methods item_traffic" by code_simp
  moreover have "\<forall>y \<in> set item_traffic. proper_value (xe_response_body y) \<and> nesting (xe_response_body y) \<le> 2"
    by code_simp
  ultimately show ?thesis
    using recorded_traffic_is_accepted [OF item_document_def loaded _ x _ _ item_key item_typed, of "''$''"] loaded
    by (simp add: no_files_def item_exchange_def)
qed

text \<open>
  C17. Two ways in which an inferred schema rejects samples it was inferred from. A position that
  held nothing but null gets no type and no \<open>nullable\<close>: when there is such a position, below
  objects and arrays only (\<open>never_typed\<close>), the inferred schema loads and some sample is not valid
  for it. And with \<open>infer_enums\<close> the schema of eight strings or more, with at most twelve values
  among the first sixty-four, admits exactly these first sixty-four, so that a value first seen
  later is rejected.
\<close>

theorem inferred_schemas_reject_some_samples:
  assumes "\<forall>v \<in> set vs. proper_value v \<and> nesting v \<le> fuel" and "never_typed vs"
    and "MIN_SAMPLES_FOR_ENUM \<le> length ss" and "length (enum_of ss) \<le> MAX_ENUM_VALUES"
  shows "(\<exists>n. to_schema fuel label root (inferred_schema False (observed_from search vs)) q = gives (Some n)
      \<and> (\<exists>v \<in> set vs. validate_value search False (Some n) v p \<noteq> Inr []))
    \<and> (\<exists>n. to_schema fuel label root (inferred_schema True (observed_from search (map PStr ss))) q = gives (Some n)
      \<and> (\<forall>s. validate_value search False (Some n) (PStr s) p = Inr [] \<longleftrightarrow> s \<in> set (take 64 ss)))"
proof -
  obtain v where "v \<in> set vs" using never_typed_values [OF assms(2)] by (cases vs) auto
  moreover have "0 < nesting v" by (cases v) simp_all
  ultimately have "0 < fuel" using assms(1) by fastforce
  then show ?thesis
    using untyped_schema_refuses [OF assms(1) never_typed_values [OF assms(2)]]
      enum_schema_admits [of ss fuel] assms(2-4)
    unfolding some_refused_def validate_value_def option.case MIN_SAMPLES_FOR_ENUM_def MAX_ENUM_VALUES_def by meson
qed

theorem inferred_schemas_reject_some_samples_witness:
  "(\<exists>n. to_schema 2 ''f'' PNone (inferred_schema False (observed_from digits_only null_tags)) [] = gives (Some n)
      \<and> (\<exists>v \<in> set null_tags. validate_value digits_only False (Some n) v ''$'' \<noteq> Inr []))
    \<and> (\<exists>n. to_schema 2 ''f'' PNone (inferred_schema True (observed_from digits_only (map PStr late_value))) [] = gives (Some n)
      \<and> ''b'' \<in> set late_value \<and> validate_value digits_only False (Some n) (PStr ''b'') ''$'' \<noteq> Inr [])"
proof -
  have "\<forall>v \<in> set null_tags. proper_value v \<and> nesting v \<le> 2" by code_simp
  moreover have "MIN_SAMPLES_FOR_ENUM \<le> length late_value" "length (enum_of late_value) \<le> MAX_ENUM_VALUES"
    "''b'' \<notin> set (take 64 late_value)" "''b'' \<in> set late_value"
    by code_simp+
  ultimately show ?thesis
    using inferred_schemas_reject_some_samples [OF _ null_tags_untyped, of 2 late_value "''f''" PNone digits_only "[]" "''$''"] by meson
qed

section \<open>Recorded traffic\<close>

text \<open>
  C18. Imported secrets do not matter: two recordings whose exchanges differ only in the values of
  sensitive headers, of sensitive query fields and of sensitive fields of JSON bodies at any
  depth are imported as the same entries, under any patterns and any configuration, or fail
  with the same exception. The URL of a request is not among what may differ.
\<close>

theorem imported_secrets_do_not_matter:
  assumes "list_all2 (alike_exchange loads cfg) xs ys"
  shows "import_har sub loads cfg include_bodies (recording xs) = import_har sub loads cfg include_bodies (recording ys)"
  by (rule alike_recordings [OF assms])

theorem imported_secrets_do_not_matter_witness:
  "import_har keep_text one_field default_redaction True (recording [login ''one'' ''/login''])
    = import_har keep_text one_field default_redaction True (recording [login ''two'' ''/login''])"
  by (rule imported_secrets_do_not_matter) (simp add: logins_alike)

text \<open>
  C19. The URL is the exception: whatever the configuration, a recording that is imported has in
  its entries the URLs as they were recorded, one for one, while every sensitive query field and
  header of the same entries holds the replacement. A token in a query string is therefore replaced
  in the query of the entry and legible in its URL.
\<close>

theorem imported_urls_keep_secrets:
  assumes "import_har sub loads cfg include_bodies (recording xs) = Inr es"
  shows "map ie_url es = map recorded_url xs
    \<and> (\<forall>e \<in> set es. replaced cfg (rc_sensitive_query_fields cfg) (ie_query e)
        \<and> replaced cfg (rc_sensitive_headers cfg) (ie_request_headers e)
        \<and> replaced cfg (rc_sensitive_headers cfg) (ie_response_headers e))"
  using imported_recording [OF assms]
  by (induction rule: list_all2_induct) (auto dest: imported_exchange_parts)

theorem imported_urls_keep_secrets_witness:
  "\<exists>e. import_har keep_text one_field default_redaction False (recording [login ''hunter2'' (login_url ''hunter2'')]) = Inr [e]
    \<and> ie_url e = PStr (''http://shop.test/login?token='' @ ''hunter2'')
    \<and> replaced default_redaction (rc_sensitive_query_fields default_redaction) (ie_query e)"
proof -
  obtain e where e: "import_har keep_text one_field default_redaction False (recording [login ''hunter2'' (login_url ''hunter2'')]) = Inr [e]"
    using login_imported by (auto split: sum.splits simp: length_Suc_conv)
  from imported_urls_keep_secrets [OF e] e show ?thesis
    by (simp add: recorded_url_def login_def login_url_def val_get_def)
qed

text \<open>
  C20. The recording proxy keeps no secrets, not even in URLs: whatever exchanges it is given,
  two sequences that differ only in sensitive headers, query parameters and body fields leave the
  same state behind, hence the same file. Lengths of bodies are public, and a body that is
  recorded must parse as JSON for its fields to be recognised.
\<close>

theorem captured_secrets_do_not_matter:
  assumes "list_all2 (alike_recorded lib (cp_redaction c) (cp_max_body_bytes c)) xs ys"
  shows "fold (record_exchange lib) xs c = fold (record_exchange lib) ys c"
  by (rule alike_recordings_kept [OF assms])

theorem captured_secrets_do_not_matter_witness:
  "fold (record_exchange small_lib) [proxied_login ''one''] empty_capture
    = fold (record_exchange small_lib) [proxied_login ''two''] empty_capture"
  by (rule captured_secrets_do_not_matter) (use proxied_alike in \<open>simp add: empty_capture_def\<close>)

text \<open>
  C21. The limit on entries is exact: a recording that starts within its limit ends with as many
  entries as were offered, up to the limit, and every exchange it did not keep is counted.
\<close>

theorem captures_stay_within_the_limit:
  assumes "cp_max_entries c = Some m" and "length (cp_entries c) \<le> m" and "c' = fold (record_exchange lib) xs c"
  shows "length (cp_entries c') = min m (length (cp_entries c) + length xs)
    \<and> length (cp_entries c') + sk_after_limit (cp_skips c') = length (cp_entries c) + sk_after_limit (cp_skips c) + length xs"
  using recorded_counts [OF assms(1,2), of lib xs] unfolding assms(3) .

theorem captures_stay_within_the_limit_witness:
  "\<exists>c'. c' = fold (record_exchange small_lib) [proxied_login ''a'', proxied_login ''b'', proxied_login ''c''] empty_capture
    \<and> length (cp_entries c') = 2 \<and> length (cp_entries c') + sk_after_limit (cp_skips c') = 3"
  using captures_stay_within_the_limit [of empty_capture 2, OF _ _ refl, of small_lib
      "[proxied_login ''a'', proxied_login ''b'', proxied_login ''c'']"]
  by (simp add: empty_capture_def)

text \<open>
  C22. The proxy is no open relay: what it answers and what it records depends on the upstream
  only through requests whose URL has the scheme and the authority of the target. Two
  networks that agree there cannot be told apart, whatever the client wrote on the request line.
\<close>

theorem proxy_asks_only_the_target:
  assumes "\<And>m url hs b. asked_target lib (cp_target c) url \<Longrightarrow> up m url hs b = up' m url hs b"
  shows "proxy lib up q c = proxy lib up' q c"
  by (rule proxy_target_only [OF assms])

theorem proxy_asks_only_the_target_witness:
  "proxy small_lib (\<lambda>m url hs b. None) \<lparr>pq_method = ''GET'', pq_path = ''/orders'', pq_headers = [], pq_body = []\<rparr> empty_capture
    = proxy small_lib (\<lambda>m url hs b. if asked_target small_lib (cp_target empty_capture) url then None else
        Some \<lparr>us_url = url, us_status = 200, us_headers = [], us_body = [], us_started = [], us_duration_ms = 0\<rparr>)
      \<lparr>pq_method = ''GET'', pq_path = ''/orders'', pq_headers = [], pq_body = []\<rparr> empty_capture"
  by (rule proxy_asks_only_the_target) simp

text \<open>
  C23. Nothing is replayed unasked: whenever the command \<open>replay\<close> has sent requests, the run was
  started with \<open>--execute\<close>, they are the whole corpus in its order, the target's origin is in
  the allowlist, and if the corpus holds a POST, PUT, PATCH or DELETE in any spelling, each such
  method was allowed by name, the confirmation token for these methods, this target and this
  number of entries was given, and production was acknowledged if the target is or may be it.
\<close>

theorem replays_are_cleared:
  assumes "cmd_replay lib sub loads credentials send args har_file = Inr (code, outline, sent)" and "sent \<noteq> []"
  shows "ra_execute args \<and> (\<exists>entries. sent = map replay_request_of entries \<and> cleared lib args entries)"
  by (rule cmd_replay_sends [OF assms])

theorem replays_are_cleared_witness:
  "\<exists>entries. cleared small_urls delete_args entries \<and> entries \<noteq> []"
proof -
  obtain outline where "cmd_replay small_urls keep_text one_field True answering delete_args
      (recording [recorded_call ''delete'' ''/orders/1'']) = Inr (EXIT_OK, Some outline, map replay_request_of [delete_of ''/orders/1''])"
    using delete_is_sent by blast
  from replays_are_cleared [OF this] show ?thesis by auto
qed

text \<open>
  C24. A dry run tells the truth: for an allowed target the flags that it prints, given to the
  next run on the same corpus, let that run proceed.
\<close>

theorem dry_run_flags_unlock:
  assumes "origin_of lib (ra_base_url args) \<in> set (map rstrip_slash (ra_allow_host args))"
    and "replay_gate lib args entries = Inr (Planned plan flags)"
  shows "replay_gate lib (unlocked flags args) entries = Inr Proceed"
proof -
  have "flags = unlock_of lib (ra_base_url args) entries"
    using assms(2) by (auto simp: replay_gate_def bind_result_def split: if_splits sum.splits)
  moreover have "ra_execute (unlocked flags args)" by (simp add: unlocked_def split: option.split)
  ultimately show ?thesis using unlocked_cleared [OF assms(1)] gate_proceeds by blast
qed

theorem dry_run_flags_unlock_witness:
  "\<exists>flags. replay_gate small_urls (unlocked flags plain_args) [delete_of ''/orders/1''] = Inr Proceed"
proof -
  have "replay_gate small_urls plain_args [delete_of ''/orders/1'']
      = Inr (Planned (build_dry_run_plan small_urls [delete_of ''/orders/1''] (ra_base_url plain_args))
          (unlock_of small_urls (ra_base_url plain_args) [delete_of ''/orders/1'']))"
    by (simp add: replay_gate_def plain_args_def)
  from dry_run_flags_unlock [OF shop_allowed this] show ?thesis by blast
qed

text \<open>
  C25. What an approval covers beyond what was looked at: when a run with \<open>--execute\<close> succeeds on
  one recording, the same arguments send the whole of any other recording that uses the same of
  the four methods POST, PUT, PATCH and DELETE and, if it uses any, has as many entries. The token
  binds neither paths nor bodies, and a method outside the four, such as PURGE, is sent as freely
  as a GET, to a production target too.
\<close>

theorem approvals_carry_over:
  assumes "cmd_replay lib sub loads credentials send args har_file = Inr (EXIT_OK, outline, sent)" and "ra_execute args"
    and "corpus_of lib sub loads har_file = Inr es" and "corpus_of lib sub loads other_file = Inr es'"
    and "destructive_used es' = destructive_used es" and "destructive_used es = [] \<or> length es' = length es"
  shows "\<exists>outline'. cmd_replay lib sub loads credentials send' args other_file
    = Inr (EXIT_OK, Some outline', map replay_request_of es')"
  using successful_run_cleared [OF assms(1-3)] cleared_corpus_sent [OF assms(4) _ assms(2)]
    cleared_cong [OF assms(5,6)] by blast

theorem approvals_carry_over_witness:
  "writes_in_production small_urls ''http://shop.test''
    \<and> (\<exists>outline. cmd_replay small_urls keep_text one_field True answering (plain_args\<lparr>ra_execute := True\<rparr>)
        (recording [recorded_call ''PURGE'' ''/orders'']) = Inr (EXIT_OK, Some outline, map replay_request_of
          [\<lparr>re_method = ''PURGE'', re_path = ''/orders'', re_query = [], re_headers = [], re_body = PNone, re_production = False\<rparr>]))
    \<and> (\<exists>outline. cmd_replay small_urls keep_text one_field True answering delete_args
        (recording [recorded_call ''delete'' ''/accounts'']) = Inr (EXIT_OK, Some outline, map replay_request_of [delete_of ''/accounts'']))"
proof (intro conjI)
  obtain outline where read: "cmd_replay small_urls keep_text one_field True answering (plain_args\<lparr>ra_execute := True\<rparr>)
      (recording [recorded_call ''GET'' ''/orders'']) = Inr (EXIT_OK, Some outline, map replay_request_of
        [\<lparr>re_method = ''GET'', re_path = ''/orders'', re_query = [], re_headers = [], re_body = PNone, re_production = False\<rparr>])"
    using get_is_sent by blast
  show "\<exists>outline. cmd_replay small_urls keep_text one_field True answering (plain_args\<lparr>ra_execute := True\<rparr>)
        (recording [recorded_call ''PURGE'' ''/orders'']) = Inr (EXIT_OK, Some outline, map replay_request_of
          [\<lparr>re_method = ''PURGE'', re_path = ''/orders'', re_query = [], re_headers = [], re_body = PNone, re_production = False\<rparr>])"
    by (rule approvals_carry_over [OF read _ call_corpus(1,2)]) (simp, code_simp+)
  obtain outline where gone: "cmd_replay small_urls keep_text one_field True answering delete_args
      (recording [recorded_call ''delete'' ''/orders/1'']) = Inr (EXIT_OK, Some outline, map replay_request_of [delete_of ''/orders/1''])"
    using delete_is_sent by blast
  show "\<exists>outline. cmd_replay small_urls keep_text one_field True answering delete_args
        (recording [recorded_call ''delete'' ''/accounts'']) = Inr (EXIT_OK, Some outline, map replay_request_of [delete_of ''/accounts''])"
    by (rule approvals_carry_over [OF gone delete_args_execute call_corpus(3,4)]) (simp_all add: delete_used)
qed (rule shop_is_production)

section \<open>The server: audit log, freezes, approvals and the queue\<close>

text \<open>
  C26. Whatever requests the server answers, by whomever and at whatever times, the audit chain
  of every organisation verifies afterwards and at most one freeze of it is in force.
\<close>

theorem served_stores_are_sound:
  assumes "reachable_store js s" and "t = serve js m requests s"
  shows "audit_verify_chain org t \<and> length (open_freezes org t) \<le> 1"
  using reachable_chains [OF serve_reachable [OF assms(1)]] reachable_freezes [OF serve_reachable [OF assms(1)]]
  by (simp add: assms(2) audit_verify_chain_def audit_status_def chains_valid_def freezes_ok_def)

theorem served_stores_are_sound_witness:
  "\<exists>t. t = serve plain_json 4 [(noon, Some stranger, FreezeOn ''outage'' None), (noon, None, FreezeOff ''ok''),
        (noon, Some stranger, FreezeOn ''again'' None)] frozen_store
    \<and> audit_verify_chain 2 t \<and> length (open_freezes 2 t) \<le> 1"
  using served_stores_are_sound [OF frozen_store_reachable refl] by blast

text \<open>
  C27. An export that verifies against an earlier verified one of the same log repeats every
  text the earlier one hashed, in the same order: history cannot be rewritten unnoticed,
  unless the two documents themselves exhibit a collision of SHA-256.
\<close>

theorem verified_exports_keep_history:
  assumes "ev_ok (verify_export h earlier k against)" and "ev_ok (verify_export h later k' (Some earlier))"
    and "ex_entries earlier = Some es" and "ex_entries later = Some ds"
  shows "map entry_basis es = map entry_basis (take (length es) ds) \<or> collision es (take (length es) ds)"
proof -
  have "ch_valid (verify_chain es)" "ch_valid (verify_chain ds)"
    using assms by (auto simp: verify_export_ok dest: chain_problems_none)
  moreover have "map au_hash es = map au_hash (take (length es) ds)"
    using assms by (auto simp: verify_export_ok dest: continuity_none)
  ultimately show ?thesis
    by (intro same_end_same_log verify_chain_take last_hash_of_hashes)
qed

theorem verified_exports_keep_history_witness:
  "\<exists>es ds. ex_entries (export_of frozen_store) = Some es \<and> ex_entries (export_of lifted_store) = Some ds
    \<and> (map entry_basis es = map entry_basis (take (length es) ds) \<or> collision es (take (length es) ds))"
proof -
  have "ev_ok (verify_export no_hmac (export_of frozen_store) (Some ''key'') (Some (export_of frozen_store)))"
    "ev_ok (verify_export no_hmac (export_of lifted_store) (Some ''key'') (Some (export_of frozen_store)))"
    unfolding export_of_def
    using audit_exports_verify [OF frozen_store_reachable rtranclp.rtrancl_refl]
      audit_exports_verify [OF frozen_store_reachable freeze_lifted] by blast+
  moreover have "ex_entries (export_of s) = Some (map audit_entry.truncate (audit_all 1 s))" for s
    by (simp add: export_of_def audit_export_def build_export_fields)
  ultimately show ?thesis using verified_exports_keep_history by blast
qed

text \<open>
  C28. While an organisation is frozen no version is deployable and the freeze is the reason
  given, and the only call of the store that ends a freeze lifts it and leaves an audit entry
  naming who did.
\<close>

theorem freeze_ends_by_audited_lift:
  assumes "reachable_store js s" and "open_freezes org s \<noteq> []" and "store_step js s t"
    and "d = compute_can_i_deploy now org provider version environment t"
  shows "(dc_deployable d, dc_freeze d) = (False, Some (freeze_state now org t))
    \<or> (\<exists>clk actor reason e. t = snd (lift_freeze js clk org actor reason s)
        \<and> audit_all org t = audit_all org s @ [e] \<and> au_action e = LIFTED \<and> au_actor e = actor)"
  using store_step_open_freezes [OF assms(3) reachable_freezes [OF assms(1)], of org]
proof
  assume "prefix (open_freezes org s) (open_freezes org t)"
  with assms(2) have "open_freezes org t \<noteq> []" by auto
  then show ?thesis using frozen_not_deployable assms(4) by simp
next
  assume "\<exists>clk actor reason. t = snd (lift_freeze js clk org actor reason s)"
  then show ?thesis using lift_freeze_audits [OF assms(2)] by blast
qed

theorem freeze_ends_by_audited_lift_witness:
  "let t = update_run noon 1 ''passed'' None frozen_store; d = compute_can_i_deploy ''12:01'' 1 ''shop'' ''1.0'' ''prod'' t
    in (dc_deployable d, dc_freeze d) = (False, Some (freeze_state ''12:01'' 1 t))
       \<or> (\<exists>clk actor reason e. t = snd (lift_freeze plain_json clk 1 actor reason frozen_store)
          \<and> audit_all 1 t = audit_all 1 frozen_store @ [e] \<and> au_action e = LIFTED \<and> au_actor e = actor)"
  unfolding Let_def
  by (rule freeze_ends_by_audited_lift [OF frozen_store_reachable frozen_store_frozen store_step.run_update refl])

text \<open>
  C29. However enqueues, claims, completions and cancellations follow one another, an
  organisation never has more active jobs than the configured limit.
\<close>

theorem active_jobs_stay_limited:
  assumes "runs_ok s" and "active_run_count org s \<le> nat m"
  shows "active_run_count org (fold (queue_act m) es s) \<le> nat m"
  by (rule job_limit.history_load [OF assms])

theorem active_jobs_stay_limited_witness:
  "active_run_count 1 (fold (queue_act 4) [Enqueue noon 1 (nightly ''c''), Claim noon 1 ''w''] two_jobs) \<le> nat 4"
proof -
  have "active_run_count 1 two_jobs \<le> nat 4"
    unfolding two_jobs_def by (rule job_limit.history_load [OF runs_ok_empty]) (simp add: active_run_count_def empty_store_def empty_table_def select_rows_def)
  then show ?thesis by (rule active_jobs_stay_limited [OF two_jobs_ok])
qed

text \<open>
  C30. No queued run waits for ever: n claims hand out the n oldest queued runs, or all of
  them if there are fewer.
\<close>

theorem claims_reach_every_run:
  assumes "runs_ok s"
  shows "claimed_runs m org (map (\<lambda>(clk, worker). Claim clk org worker) ws) s =
    take (length ws) (map rn_id (filter (queued_in org) (tab_rows (st_runs s))))"
  by (rule claims_serve [OF assms])

theorem claims_reach_every_run_witness:
  "claimed_runs 4 1 (map (\<lambda>(clk, worker). Claim clk 1 worker) [(noon, ''w'')]) two_jobs =
    take 1 (map rn_id (filter (queued_in 1) (tab_rows (st_runs two_jobs))))"
  using claims_reach_every_run [OF two_jobs_ok, of 4 1 "[(noon, ''w'')]"] by simp

text \<open>
  C31. An organisation exported from any reachable store can be imported into any other one, or
  the same: users, contracts with their checksums, environments and policies are the same under
  the new identifier, while the webhooks of the snapshot are dropped.
\<close>

theorem snapshot_roundtrip:
  assumes "reachable_store js s" and "export_org js org s = Inr snap" and "json_faithful js" and "clock_runs clk"
    and "unused_org (tab_seq (st_orgs s') + 1) s'"
    and "sp_org_name snap @ ''-restored-'' @ clk 0 \<notin> og_name ` set (tab_rows (st_orgs s'))"
  shows "\<exists>t. import_org js clk snap s' = (Inr (tab_seq (st_orgs s') + 1), t)
    \<and> same_content org s (tab_seq (st_orgs s') + 1) t \<and> list_webhooks (tab_seq (st_orgs s') + 1) None t = []"
  by (rule import_restores [OF reachable_directory [OF assms(1)] assms(2-)])

theorem snapshot_roundtrip_witness:
  "\<exists>snap t. export_org plain_json 1 acme = Inr snap \<and> import_org plain_json noon snap acme = (Inr 2, t)
    \<and> same_content 1 acme 2 t"
proof -
  obtain snap where snap: "export_org plain_json 1 acme = Inr snap" "sp_org_name snap = ''acme''"
    using acme_exports by blast
  have "sp_org_name snap @ ''-restored-'' @ noon 0 \<notin> og_name ` set (tab_rows (st_orgs acme))"
    by (simp add: snap(2) acme_orgs)
  moreover have "unused_org (tab_seq (st_orgs acme) + 1) acme" using acme_next_unused by (simp add: acme_orgs)
  ultimately show ?thesis
    using snapshot_roundtrip [OF acme_reachable snap(1) plain_json_faithful noon_runs, of acme] snap(1)
    by (auto simp: acme_orgs)
qed

text \<open>
  C32. A request changes nothing of an organisation the caller does not belong to: no user,
  contract, finding, run, event, approval, freeze, audit entry, environment, policy, worker or
  webhook. This holds for every route except the creation of organisations and users, the
  cancellation of a run and the decision of an approval.
\<close>

theorem tenants_are_isolated:
  assumes "reachable_store js s" and "\<not> crosses_tenants r" and "who_org who \<noteq> org"
  shows "tenant_unchanged org s (snd (handle js m clk (Some who) r s))"
  using reachable_directory [OF assms(1)]
  by (intro handle_isolates assms(2) reachable_runs [OF assms(1)] reachable_freezes [OF assms(1)])
    (use assms(3) in \<open>simp_all add: directory_ok_def\<close>)

theorem tenants_are_isolated_witness:
  "tenant_unchanged 1 acme (snd (handle plain_json 4 noon (Some stranger) (AddFindings 1 []) acme))"
  by (rule tenants_are_isolated [OF acme_reachable]) (simp_all add: crosses_tenants_def stranger_def)

text \<open>
  C33. When a workflow has passed validation and its declared inputs are supplied, the k-th
  request that is sent is the k-th step with the variables as earlier steps left them, and each
  placeholder the step mentions anywhere has a value by then: no step runs before what it needs.
\<close>

theorem validated_steps_are_sent_bound:
  assumes "graph_ok w" and "start_workflow w exchange inputs = Inr (final, requests)" and "k < length (wo_steps final)"
    and "wr_method (ws_request (wf_steps w ! k)) \<in> set (wf_allowed_methods w)"
  shows "k < length requests \<and> requests ! k = request_of (ws_request (wf_steps w ! k)) (bound_before k (wo_steps final) inputs)
    \<and> set (deep_vars (request_dump (ws_request (wf_steps w ! k)))) \<subseteq> set (keys (bound_before k (wo_steps final) inputs))"
proof -
  from assms(2) have "run_workflow w exchange inputs = (final, requests)" by (simp add: start_workflow_def Let_def split: if_splits)
  from nth_request_sent [OF this assms(3,4)] validated_steps_bound [OF assms(1-3)] show ?thesis by (simp add: used_vars_def)
qed

theorem validated_steps_are_sent_bound_witness:
  "sq_path (snd order_run ! 1) = ''/orders/7''
    \<and> {''id''} \<subseteq> set (keys (bound_before 1 (wo_steps (fst order_run)) order_inputs))"
proof -
  have run: "start_workflow order_flow order_server order_inputs = Inr (fst order_run, snd order_run)"
    using order_flow_runs(2) by simp
  have "length (map sr_status (wo_steps (fst order_run))) = 2" unfolding order_flow_runs(3) by simp
  then have "1 < length (wo_steps (fst order_run))" by simp
  moreover have "wr_method (ws_request (wf_steps order_flow ! 1)) \<in> set (wf_allowed_methods order_flow)" by code_simp
  moreover have "set (deep_vars (request_dump (ws_request (wf_steps order_flow ! 1)))) = {''id''}" by code_simp
  moreover have "map sq_path (snd order_run) ! 1 = ''/orders/7''" unfolding order_flow_runs(4) by simp
  ultimately show ?thesis
    using validated_steps_are_sent_bound [OF order_flow_runs(1) run, of 1] by auto
qed

text \<open>
  C34. A run sends only requests with an allowed method, stops after the first step that does
  not pass, reports \<open>pass\<close> exactly when all steps final and passed, and whatever happened before
  runs every cleanup step, in order.
\<close>

theorem runs_stop_and_clean_up:
  assumes "run_workflow w exchange inputs = (final, requests)"
  shows "(\<forall>q \<in> set requests. sq_method q \<in> set (wf_allowed_methods w))
    \<and> map sr_step (wo_cleanup_steps final) = map ws_name (wf_cleanup w)
    \<and> map sr_step (wo_steps final) = take (length (wo_steps final)) (map ws_name (wf_steps w))
    \<and> (\<forall>r \<in> set (butlast (wo_steps final)). sr_status r = ''pass'')
    \<and> (wo_status final = ''pass'' \<longleftrightarrow> length (wo_steps final) = length (wf_steps w) \<and> (\<forall>r \<in> set (wo_steps final). sr_status r = ''pass''))"
  using assms by (rule run_workflow_facts)

theorem runs_stop_and_clean_up_witness:
  "map sr_step (wo_cleanup_steps (fst order_run)) = [''delete''] \<and> wo_status (fst order_run) = ''pass''"
proof -
  have cleanup: "map ws_name (wf_cleanup order_flow) = [''delete'']" "length (wf_steps order_flow) = 2" by code_simp+
  have pass: "map sr_status (wo_steps (fst order_run)) = [''pass'', ''pass'']" by (rule order_flow_runs(3))
  then have "length (map sr_status (wo_steps (fst order_run))) = 2" "sr_status ` set (wo_steps (fst order_run)) = {''pass''}"
    by (simp, metis list.set_map insert_absorb2 list.simps(15) empty_set)
  with runs_stop_and_clean_up [of order_flow order_server order_inputs "fst order_run" "snd order_run"] cleanup
  show ?thesis by (auto simp: order_run_def)
qed

text \<open>
  C35. The search for cycles in a graph of steps ends and is right: it answers true exactly
  when the edges between known steps lead from some step back to itself.
\<close>

theorem step_cycles_are_found:
  "has_cycle names edges = Some (\<exists>u. (\<lambda>x y. x \<in> set names \<and> y \<in> set names \<and> y \<in> set (dict_get_or edges x []))\<^sup>+\<^sup>+ u u)"
  using has_cycle_decides [of names edges] by (simp add: cyclic_def step_edge_def [abs_def])

text \<open>
  C36. The verdict on a call budget is exact: a limit is reported as exceeded if and only if
  some stretch of time as long as its window, wherever it begins, holds more dated calls of the
  operation than the limit allows. The code looks only at windows that begin with a call.
\<close>

theorem budgets_bound_every_window:
  assumes "load_budget source raw = Inr b" and "evaluate_budget dt b calls declared = Inr findings"
  shows "(\<exists>f \<in> set findings. f_rule_id f = ''BUDGET-EXCEEDED'' \<and> f_operation_key f = Some k) \<longleftrightarrow>
    (\<exists>l \<in> set (bg_limits b). lm_operation_key l = k \<and> lm_max_calls l \<noteq> 0
      \<and> (\<exists>seconds t. parse_window (lm_window l) = Inr seconds
          \<and> int (calls_within (seconds * 1000000) (instants_of dt (calls_to k calls)) t) > lm_max_calls l))"
  using evaluate_exceeds [OF assms, of k] unfolding exceeded_def overrun_def by blast

theorem budgets_bound_every_window_witness:
  "\<exists>seconds t. parse_window ''1h'' = Inr seconds
    \<and> int (calls_within (seconds * 1000000) (instants_of tick_dates (calls_to ''tool search'' [search_at ''1'', search_at ''12''])) t) > 1"
proof -
  obtain findings where findings: "evaluate_budget tick_dates loaded_budget [search_at ''1'', search_at ''12''] None = Inr findings"
    "map (\<lambda>f. (f_rule_id f, f_operation_key f)) findings = [(''BUDGET-EXCEEDED'', Some ''tool search'')]"
    using two_searches_exceed
    by (cases "evaluate_budget tick_dates loaded_budget [search_at ''1'', search_at ''12''] None") simp_all
  from findings(2) have "\<exists>f \<in> set findings. f_rule_id f = ''BUDGET-EXCEEDED'' \<and> f_operation_key f = Some ''tool search''"
    by (cases findings) auto
  then obtain l where "l \<in> set (bg_limits loaded_budget)" "\<exists>seconds t. parse_window (lm_window l) = Inr seconds
      \<and> int (calls_within (seconds * 1000000) (instants_of tick_dates (calls_to ''tool search'' [search_at ''1'', search_at ''12''])) t) > lm_max_calls l"
    unfolding budgets_bound_every_window [OF search_budget_loads findings(1)] by blast
  moreover from this(1) have "lm_window l = ''1h''" "lm_max_calls l = 1" by (simp_all add: loaded_budget_def)
  ultimately show ?thesis by (simp only:)
qed

section \<open>Settings, suppressions, consumers and versions\<close>

text \<open>
  C37. A contract compared with itself passes the command \<open>breaking\<close> with no finding at all. The
  profile is a known one, the configuration one that the loader accepts, and the severities given
  on the command line are names of severities. Left out are a suppressions file, the version policy
  of the command line or of the configuration, and a consumer registry: these can add findings of
  their own, about the entries and versions they read.
\<close>

theorem identical_contracts_pass_the_gate:
  assumes "wf_service (fst (canonicalize_service svc))" and "\<not> truncated_manifest svc"
    and "set_option (ba_profile args) \<subseteq> set PROFILES" and "load_project_config close ids disabled file = Inr cfg"
    and "\<And>c. cfg = Some c \<Longrightarrow> cf_suppressions c = PNone \<and> \<not> cf_check_semver c"
    and "severity_names (cli_overrides (ba_severity_override args))" and "ba_consumers args = None" and "\<not> ba_check_semver args"
  shows "cmd_breaking env cfg args svc svc = Inr ([], EXIT_OK)"
proof (rule identical_contract_passes [OF assms(1,2)])
  show "well_typed_config c \<and> setting_text (cf_suppressions c) = None \<and> \<not> cf_check_semver c" if "cfg = Some c" for c
    using accepted_config_well_typed assms(4) assms(5) [OF that] that by (auto simp: setting_text_def)
qed (use assms in \<open>auto simp: truthy_str_def\<close>)

theorem identical_contracts_pass_the_gate_witness:
  "cmd_breaking sample_env None (advisory_args\<lparr>ba_severity_override := [''BRK-OP-REMOVED=warn'']\<rparr>)
    (http_service [bare_items]) (http_service [bare_items]) = Inr ([], EXIT_OK)"
proof -
  let ?args = "advisory_args\<lparr>ba_severity_override := [''BRK-OP-REMOVED=warn'']\<rparr>"
  have "wf_service (fst (canonicalize_service (http_service [bare_items])))" "\<not> truncated_manifest (http_service [bare_items])"
    by code_simp+
  moreover have "load_project_config (\<lambda>_ _. None) [] True NoFile = Inr None" by (simp add: load_project_config_def)
  moreover have "set_option (ba_profile ?args) \<subseteq> set PROFILES" "ba_consumers ?args = None" "\<not> ba_check_semver ?args"
    by (simp_all add: advisory_args_def PROFILES_def)
  moreover have "cli_overrides (ba_severity_override ?args) = [(''BRK-OP-REMOVED'', ''WARN'')]" by code_simp
  then have "severity_names (cli_overrides (ba_severity_override ?args))" by (simp add: severity_names_def SEVERITIES_def)
  ultimately show ?thesis using identical_contracts_pass_the_gate [of _ ?args _ _ _ _ None sample_env] by (simp only: option.distinct simp_thms)
qed

text \<open>
  C38. A configuration file that the loader accepts crashes no later stage: with any known
  profile the overrides merge, the rule engine starts on them, they can be applied to any
  findings, and the threshold is one of the three the exit code distinguishes.
\<close>

theorem accepted_configs_run_the_gate:
  assumes "load_project_config close ids disabled file = Inr cfg" and "set_option flag \<subseteq> set PROFILES"
  shows "\<exists>ovr eng t. merged_severity_overrides flag cfg [] = Inr ovr \<and> init_breaking ovr = Inr eng
    \<and> (\<forall>fs. \<exists>gs. apply_severity_overrides fs ovr = Inr gs)
    \<and> fail_on_threshold flag cfg = Inr t \<and> t \<in> {''error'', ''warn'', ''never''}"
  by (rule well_typed_config_runs) (use assms accepted_config_well_typed in \<open>auto simp: severity_names_def\<close>)

theorem accepted_configs_run_the_gate_witness:
  "\<exists>c ovr eng. cf_fail_on c = Some ''warn'' \<and> merged_severity_overrides (Some ''strict'') (Some c) [] = Inr ovr \<and> init_breaking ovr = Inr eng"
proof -
  obtain c where c: "load_project_config (\<lambda>_ _. None) [] False (Document ''c.yaml'' warning_config) = Inr (Some c)" "cf_fail_on c = Some ''warn''"
    using warning_config_loads
    by (cases "load_project_config (\<lambda>_ _. None) [] False (Document ''c.yaml'' warning_config)") auto
  from accepted_configs_run_the_gate [OF c(1), of "Some ''strict''"] c(2) show ?thesis by (auto simp: PROFILES_def)
qed

text \<open>
  C39. The suppressions file splits the findings and loses none, in their order. What it takes
  out is covered by an entry with an owner, a reason and an expiry that has not passed and is at
  most the project's number of days away; and after that many days no setting lets the entry
  count again.
\<close>

theorem suppressions_are_justified_and_end:
  assumes "apply_suppressions dates today max_days approver findings suppressions = Inr r"
  shows "sr_active r = filter (\<lambda>f. \<not> (\<exists>s \<in> set suppressions. justified dates today max_days approver s \<and> suppresses s f)) findings
    \<and> map fst (sr_suppressed r) = filter (\<lambda>f. \<exists>s \<in> set suppressions. justified dates today max_days approver s \<and> suppresses s f) findings
    \<and> (\<forall>(f, s) \<in> set (sr_suppressed r). s \<in> set suppressions \<and> suppresses s f \<and> justified dates today max_days approver s
        \<and> (\<forall>later max_days' approver'. today + max_days < later \<longrightarrow> \<not> justified dates later max_days' approver' s))"
  using active_or_suppressed [OF assms] suppressed_justified [OF assms] justification_ends by fastforce

theorem suppressions_are_justified_and_end_witness:
  "\<exists>s \<in> set [owned_entry]. justified (ge_dates sample_env) 739617 90 False s \<and> suppresses s blocked_item"
proof -
  obtain r where r: "apply_suppressions (ge_dates sample_env) 739617 90 False [blocked_item] [owned_entry] = Inr r" "sr_active r = []"
    using owned_entry_suppresses
    by (cases "apply_suppressions (ge_dates sample_env) 739617 90 False [blocked_item] [owned_entry]") auto
  have "filter (\<lambda>f. \<not> (\<exists>s \<in> set [owned_entry]. justified (ge_dates sample_env) 739617 90 False s \<and> suppresses s f)) [blocked_item] = []"
    using suppressions_are_justified_and_end [OF r(1)] r(2) by simp
  then show ?thesis by (simp only: filter.simps split: if_splits) blast
qed

text \<open>
  C40. Whoever follows the advice on the next version passes the version policy: with the
  suggested version the policy has nothing to say about the same findings and changes. Assumed is
  what the package \<open>packaging\<close> documents about versions of three numbers.
\<close>

theorem advised_version_passes_policy:
  assumes "vl_parse lib current = Some v" and "orders_releases lib v" and "\<not> vl_less lib v v" and "current \<noteq> []"
  shows "\<exists>text. va_suggested_version (suggest_bump lib current findings changes require_minor declared) = Some text
    \<and> semver_evaluate lib current text require_minor findings changes = []"
  using assms by (rule advice_satisfies_policy)

theorem advised_version_passes_policy_witness:
  "\<exists>text. va_suggested_version (suggest_bump triple_versions (dotted_version 1 2 3) [blocked_item] [] False None) = Some text
    \<and> semver_evaluate triple_versions (dotted_version 1 2 3) text False [blocked_item] [] = []"
proof (rule advised_version_passes_policy)
  show "vl_parse triple_versions (dotted_version 1 2 3) = Some (1, 2, 3)" "\<not> vl_less triple_versions (1, 2, 3) (1, 2, 3)"
    by (simp_all add: triple_versions_def parse_dotted)
  show "dotted_version 1 2 3 \<noteq> []" by (simp add: dotted_version_def)
qed (rule triple_orders)

end
